(* ===== verification/Kernel_Prelude.thy ===== *)
theory Kernel_Prelude
  imports Main "HOL-Library.Word" "HOL-Library.Monad_Syntax"
begin

text \<open>
  Shared vocabulary of the development: C integers, the outcome of a kernel routine, a small
  weakest-precondition calculus for such outcomes, and generic lemmas on words.

  A routine of the kernel is a function from its arguments and the kernel state to
  \<open>('r \<times> 's) option\<close>. \<open>None\<close> is "the call does not return": the source called
  \<open>panic\<close> (which ends in \<open>for(;;);\<close>), or the only running task sleeps on an event that
  nobody can raise. Every other error is a value: the negative error number that the code returns.
\<close>

unbundle bit_operations_syntax

type_synonym u8 = "8 word"
type_synonym u16 = "16 word"
type_synonym u32 = "32 word"
type_synonym addr = "32 word"

named_theorems post_rules "rules that move a postcondition through a kernel routine"
named_theorems frame_rules "what an operation leaves unchanged"

section \<open>C integers\<close>

text \<open>A signed \<open>int\<close> or \<open>long\<close> of the i386 is an \<open>int\<close> reduced to 32 bits, two's complement.\<close>

definition i32 :: "int \<Rightarrow> int" where
  "i32 x = signed_take_bit 31 x"

lemma i32_id [simp]: "- 2147483648 \<le> x \<Longrightarrow> x \<le> 2147483647 \<Longrightarrow> i32 x = x"
  unfolding i32_def by (rule signed_take_bit_int_eq_self) simp_all

lemma i32_bounds: "- 2147483648 \<le> i32 x" "i32 x \<le> 2147483647"
  using signed_take_bit_int_greater_eq_minus_exp [of 31 x] signed_take_bit_int_less_exp [of 31 x]
  by (simp_all add: i32_def)

section \<open>Outcomes\<close>

text \<open>\<open>post m Q\<close>: if the routine returns, \<open>Q\<close> holds of its value and the new state.
  \<open>returns m Q\<close>: the routine returns, and \<open>Q\<close> holds.\<close>

definition post :: "('r \<times> 's) option \<Rightarrow> ('r \<Rightarrow> 's \<Rightarrow> bool) \<Rightarrow> bool" where
  "post m Q \<longleftrightarrow> (case m of None \<Rightarrow> True | Some (r, s) \<Rightarrow> Q r s)"

definition returns :: "('r \<times> 's) option \<Rightarrow> ('r \<Rightarrow> 's \<Rightarrow> bool) \<Rightarrow> bool" where
  "returns m Q \<longleftrightarrow> (case m of None \<Rightarrow> False | Some (r, s) \<Rightarrow> Q r s)"

lemma post_Some [simp]: "post (Some (r, s)) Q = Q r s"
  by (simp add: post_def)

lemma post_None [simp]: "post None Q"
  by (simp add: post_def)

lemma returns_Some [simp]: "returns (Some (r, s)) Q = Q r s"
  by (simp add: returns_def)

lemma returns_None [simp]: "\<not> returns None Q"
  by (simp add: returns_def)

lemma post_bind [simp]: "post (Option.bind m f) Q = post m (\<lambda>r s. post (f (r, s)) Q)"
  by (cases m) (auto simp: post_def)

lemma returns_bind [simp]: "returns (Option.bind m f) Q = returns m (\<lambda>r s. returns (f (r, s)) Q)"
  by (cases m) (auto simp: returns_def)

lemma post_mono: "post m P \<Longrightarrow> (\<And>r s. P r s \<Longrightarrow> Q r s) \<Longrightarrow> post m Q"
  by (cases m) (auto simp: post_def)

lemma returns_mono: "returns m P \<Longrightarrow> (\<And>r s. P r s \<Longrightarrow> Q r s) \<Longrightarrow> returns m Q"
  by (cases m) (auto simp: returns_def)

lemma returns_post: "returns m Q \<Longrightarrow> post m Q"
  by (cases m) (auto simp: returns_def post_def)

lemma returns_iff: "returns m Q \<longleftrightarrow> (\<exists>r s. m = Some (r, s) \<and> Q r s)"
  by (cases m) (auto simp: returns_def)

lemma post_iff: "post m Q \<longleftrightarrow> (\<forall>r s. m = Some (r, s) \<longrightarrow> Q r s)"
  by (cases m) (auto simp: post_def)

lemma post_if [post_rules]: "(b \<Longrightarrow> post m Q) \<Longrightarrow> (\<not> b \<Longrightarrow> post n Q) \<Longrightarrow> post (if b then m else n) Q"
  by simp

section \<open>Words\<close>

lemma word_and_not_self [simp]: "(x :: 'a::len word) AND NOT x = 0"
  by simp

lemma unat_of_nat_u32 [simp]: "n < 4294967296 \<Longrightarrow> unat (of_nat n :: 32 word) = n"
  by (simp add: unat_of_nat)

lemma of_nat_eq_u32:
  "m < 4294967296 \<Longrightarrow> n < 4294967296 \<Longrightarrow> (of_nat m :: 32 word) = of_nat n \<longleftrightarrow> m = n"
  by (metis unat_of_nat_u32)

lemma unat_drop12: "unat (drop_bit 12 (w :: 32 word)) = unat w div 4096"
  by (simp add: drop_bit_eq_div unat_div)

lemma push12_of_nat: "push_bit 12 (of_nat n :: 32 word) = of_nat (n * 4096)"
  by (simp add: push_bit_eq_mult mult.commute)

section \<open>Loops and fields of a block\<close>

text \<open>\<open>for (i = a; i < a + n; i++) body\<close>, where the body may fail to return.\<close>

primrec for_range :: "nat \<Rightarrow> nat \<Rightarrow> (nat \<Rightarrow> 's \<Rightarrow> 's option) \<Rightarrow> 's \<Rightarrow> 's option" where
  "for_range i 0 f s = Some s"
| "for_range i (Suc n) f s = do { s \<leftarrow> f i s; for_range (Suc i) n f s }"

lemma for_range_mono [partial_function_mono]:
  assumes "\<And>i s. mono_option (\<lambda>g. F g i s)"
  shows "mono_option (\<lambda>g. for_range i n (F g) s)"
proof (induction n arbitrary: i s)
  case 0
  show ?case by (simp add: option.const_mono)
next
  case (Suc n)
  show ?case
    by (simp only: for_range.simps) (rule bind_mono [OF assms Suc.IH])
qed

text \<open>A loop with a body that ends it (\<open>Inr\<close>) or goes round again (\<open>Inl\<close>).\<close>

partial_function (option) iter :: "('s \<Rightarrow> ('s + 'r) option) \<Rightarrow> 's \<Rightarrow> 'r option" where
  "iter f s = do { r \<leftarrow> f s; if isl r then iter f (projl r) else Some (projr r) }"

lemma iter_unfold:
  "iter f s = (case f s of None \<Rightarrow> None | Some (Inl s') \<Rightarrow> iter f s' | Some (Inr r) \<Rightarrow> Some r)"
  by (subst iter.simps) (auto split: option.splits sum.splits)

lemma iter_induct [consumes 1, case_names finish again]:
  assumes "iter f s = Some r"
    "\<And>s r. f s = Some (Inr r) \<Longrightarrow> P s r"
    "\<And>s s' r. f s = Some (Inl s') \<Longrightarrow> iter f s' = Some r \<Longrightarrow> P s' r \<Longrightarrow> P s r"
  shows "P s r"
proof -
  have "f = f \<longrightarrow> iter f s = Some r \<and> P s r"
  proof (rule iter.raw_induct [of "\<lambda>f' s r. f' = f \<longrightarrow> iter f s = Some r \<and> P s r", OF _ assms(1)], intro impI)
    fix it f' s r
    assume IH: "\<And>f' s r. it f' s = Some r \<Longrightarrow> f' = f \<longrightarrow> iter f s = Some r \<and> P s r" and "f' = f"
      and step: "Option.bind (f' s) (\<lambda>r. if isl r then it f' (projl r) else Some (projr r)) = Some r"
    then obtain x where x: "f s = Some x" "(if isl x then it f (projl x) else Some (projr x)) = Some r"
      by (auto simp: bind_eq_Some_conv)
    show "iter f s = Some r \<and> P s r"
    proof (cases x)
      case (Inl s')
      then have "iter f s' = Some r \<and> P s' r" using x IH by simp
      then show ?thesis using Inl x assms(3) by (subst iter_unfold) auto
    next
      case (Inr r')
      then show ?thesis using x assms(2) by (subst iter_unfold) auto
    qed
  qed
  then show ?thesis by simp
qed

lemma iter_invariant:
  assumes "iter f s = Some r" "I s" "\<And>s s'. f s = Some (Inl s') \<Longrightarrow> I s \<Longrightarrow> I s'"
    "\<And>s r. f s = Some (Inr r) \<Longrightarrow> I s \<Longrightarrow> Q r"
  shows "Q r"
  using assms(1,2) by (induction rule: iter_induct) (use assms(3,4) in blast)+

lemma iter_mono [partial_function_mono]:
  fixes F :: "('b \<Rightarrow> 'c option) \<Rightarrow> 'a \<Rightarrow> ('a + 'd) option"
  assumes "\<And>s. mono_option (\<lambda>g. F g s)"
  shows "mono_option (\<lambda>g. iter (F g) s)"
proof (rule monotoneI)
  fix g h :: "'b \<Rightarrow> 'c option"
  assume le: "option.le_fun g h"
  have step: "F h s = Some x" if "F g s = Some x" for s x
    using assms [of s] le that unfolding monotone_on_def by (fastforce simp: flat_ord_def)
  have "iter (F h) s = Some r" if "iter (F g) s = Some r" for r
    using that by (induction rule: iter_induct) (simp_all add: iter_unfold [of "F h"] step)
  then show "option_ord (iter (F g) s) (iter (F h) s)"
    by (cases "iter (F g) s") (auto simp: flat_ord_def)
qed
text \<open>Monotonicity of the constructs that routines are built from, for fixed points through routines that
  take another routine as an argument.\<close>

lemma case_prod_mono:
  "(\<And>a b. mono_option (\<lambda>g. F g a b)) \<Longrightarrow> mono_option (\<lambda>g. case x of (a, b) \<Rightarrow> F g a b)"
  by (cases x) simp

lemma case_option_mono:
  "mono_option (\<lambda>g. F g) \<Longrightarrow> (\<And>a. mono_option (\<lambda>g. G g a))
    \<Longrightarrow> mono_option (\<lambda>g. case x of None \<Rightarrow> F g | Some a \<Rightarrow> G g a)"
  by (cases x) simp_all

lemma let_mono':
  "(\<And>a. mono_option (\<lambda>g. F g a)) \<Longrightarrow> mono_option (\<lambda>g. let a = x in F g a)"
  by (simp add: Let_def)

lemmas routine_mono = bind_mono if_mono case_prod_mono case_option_mono let_mono' option.const_mono for_range_mono iter_mono

lemma for_range_inv:
  assumes "for_range i n f s = Some s'" "P s"
    "\<And>k s s'. i \<le> k \<Longrightarrow> k < i + n \<Longrightarrow> P s \<Longrightarrow> f k s = Some s' \<Longrightarrow> P s'"
  shows "P s'"
  using assms
proof (induction n arbitrary: i s)
  case (Suc n)
  obtain s1 where s1: "f i s = Some s1" "for_range (Suc i) n f s1 = Some s'"
    using Suc.prems(1) by (auto simp: bind_eq_Some_conv)
  have "P s1" by (rule Suc.prems(3) [OF _ _ Suc.prems(2) s1(1)]) simp_all
  then show ?case
    by (rule Suc.IH [OF s1(2)]) (rule Suc.prems(3), simp_all)
qed simp

text \<open>A block of a device, or any C object seen as bytes, is a function from offsets to bytes; words are
  little-endian.\<close>

type_synonym bytes = "nat \<Rightarrow> u8"

definition get_u16 :: "nat \<Rightarrow> bytes \<Rightarrow> u16" where
  "get_u16 k d = ucast (d k) OR push_bit 8 (ucast (d (k + 1)))"

definition get_u32 :: "nat \<Rightarrow> bytes \<Rightarrow> u32" where
  "get_u32 k d = ucast (d k) OR push_bit 8 (ucast (d (k + 1)))
     OR push_bit 16 (ucast (d (k + 2))) OR push_bit 24 (ucast (d (k + 3)))"

definition put_u16 :: "nat \<Rightarrow> u16 \<Rightarrow> bytes \<Rightarrow> bytes" where
  "put_u16 k w d = d(k := ucast w, k + 1 := ucast (drop_bit 8 w))"

definition put_u32 :: "nat \<Rightarrow> u32 \<Rightarrow> bytes \<Rightarrow> bytes" where
  "put_u32 k w d = d(k := ucast w, k + 1 := ucast (drop_bit 8 w),
     k + 2 := ucast (drop_bit 16 w), k + 3 := ucast (drop_bit 24 w))"

lemma get_put_u16 [simp]: "get_u16 k (put_u16 k w d) = w"
proof (rule bit_word_eqI)
  fix n assume "n < LENGTH(16)"
  then consider "n < 8" | "8 \<le> n" "n < 16" by fastforce
  then show "bit (get_u16 k (put_u16 k w d)) n = bit w n"
    unfolding get_u16_def put_u16_def by cases (simp_all add: bit_simps less_diff_conv2)
qed

lemma get_put_u32 [simp]: "get_u32 k (put_u32 k w d) = w"
proof (rule bit_word_eqI)
  fix n assume "n < LENGTH(32)"
  then consider "n < 8" | "8 \<le> n" "n < 16" | "16 \<le> n" "n < 24" | "24 \<le> n" "n < 32" by fastforce
  then show "bit (get_u32 k (put_u32 k w d)) n = bit w n"
    unfolding get_u32_def put_u32_def by cases (simp_all add: bit_simps less_diff_conv2)
qed

lemma put_u16_other: "j \<noteq> k \<Longrightarrow> j \<noteq> k + 1 \<Longrightarrow> put_u16 k w d j = d j"
  by (simp add: put_u16_def)

lemma put_u32_other: "j < k \<or> k + 3 < j \<Longrightarrow> put_u32 k w d j = d j"
  by (auto simp: put_u32_def)

lemma get_u16_cong: "d k = d' k \<Longrightarrow> d (k + 1) = d' (k + 1) \<Longrightarrow> get_u16 k d = get_u16 k d'"
  by (simp add: get_u16_def)

lemma get_u32_cong:
  "(\<And>j. k \<le> j \<Longrightarrow> j \<le> k + 3 \<Longrightarrow> d j = d' j) \<Longrightarrow> get_u32 k d = get_u32 k d'"
  by (simp add: get_u32_def)

end
