(* ===== verification/Memory.thy ===== *)
theory Memory
  imports Kernel_Prelude
begin

text \<open>
  The physical page allocator and the two-level page tables of \<open>mm/memory.c\<close>.
  Physical memory is a function from (4-aligned) physical addresses to longs; the page directory
  sits at address 0, as the code assumes (\<open>_pg_dir = 0\<close>). \<open>mem_map\<close> is the byte array of
  reference counts. Flushing the TLB (\<open>invalidate\<close>) and \<open>printk\<close> change nothing here.
\<close>

section \<open>State and constants\<close>

record mm_state =
  phys :: "addr \<Rightarrow> u32"
  mem_map :: "nat \<Rightarrow> u8"
  HIGH_MEMORY :: addr

definition LOW_MEM :: addr where "LOW_MEM = 0x100000"
definition PAGING_MEMORY :: nat where "PAGING_MEMORY = 15 * 1024 * 1024"
definition PAGING_PAGES :: nat where "PAGING_PAGES = PAGING_MEMORY div 4096"
definition MAP_NR :: "addr \<Rightarrow> nat" where "MAP_NR a = unat (drop_bit 12 (a - LOW_MEM))"
definition USED :: u8 where "USED = 100"

lemma PAGING_PAGES_eq [simp]: "PAGING_PAGES = 3840"
  by (simp add: PAGING_PAGES_def PAGING_MEMORY_def)

text \<open>A page fault handler either resumes the task, or calls \<open>oom\<close>, whose \<open>do_exit\<close>
  never comes back to the handler.\<close>

datatype fault = Resume | Oom

section \<open>The page allocator\<close>

text \<open>\<open>std ; repne ; scasb\<close>: scan \<open>mem_map\<close> from its last byte downwards for a zero byte; the
  counter register holds the index of the byte found.\<close>

primrec scan_free :: "(nat \<Rightarrow> u8) \<Rightarrow> nat \<Rightarrow> nat option" where
  "scan_free m 0 = None"
| "scan_free m (Suc n) = (if m n = 0 then Some n else scan_free m n)"

definition page_of :: "addr \<Rightarrow> addr" where
  "page_of a = a AND 0xfffff000"

text \<open>\<open>rep ; stosl\<close> over the 1024 longs of a page, and \<open>copy_page\<close>.\<close>

definition fill_page :: "addr \<Rightarrow> u32 \<Rightarrow> (addr \<Rightarrow> u32) \<Rightarrow> (addr \<Rightarrow> u32)" where
  "fill_page p v m = (\<lambda>a. if page_of a = p then v else m a)"

definition copy_page :: "addr \<Rightarrow> addr \<Rightarrow> (addr \<Rightarrow> u32) \<Rightarrow> (addr \<Rightarrow> u32)" where
  "copy_page src dst m = (\<lambda>a. if page_of a = dst then m (src + (a - dst)) else m a)"

definition get_free_page :: "'a mm_state_scheme \<Rightarrow> addr \<times> 'a mm_state_scheme" where
  "get_free_page s = (case scan_free (mem_map s) PAGING_PAGES of
     None \<Rightarrow> (0, s)
   | Some i \<Rightarrow>
       let p = push_bit 12 (of_nat i) + LOW_MEM
       in (p, s\<lparr>mem_map := (mem_map s)(i := 1), phys := fill_page p 0 (phys s)\<rparr>))"

definition free_page :: "addr \<Rightarrow> 'a mm_state_scheme \<Rightarrow> 'a mm_state_scheme option" where
  "free_page a s =
     (if a < LOW_MEM then Some s
      else if a \<ge> HIGH_MEMORY s then None
      else let i = unat (drop_bit 12 (a - LOW_MEM))
           in if mem_map s i \<noteq> 0 then Some (s\<lparr>mem_map := (mem_map s)(i := mem_map s i - 1)\<rparr>)
              else None)"

definition mem_init :: "int \<Rightarrow> int \<Rightarrow> 'a mm_state_scheme \<Rightarrow> 'a mm_state_scheme" where
  "mem_init start_mem end_mem s =
     (let i = nat ((start_mem - 0x100000) div 4096);
          n = nat ((end_mem - start_mem) div 4096)
      in s\<lparr>HIGH_MEMORY := word_of_int end_mem,
           mem_map := (\<lambda>k. if i \<le> k \<and> k < i + n then 0
                           else if k < PAGING_PAGES then USED else mem_map s k)\<rparr>)"

section \<open>Page arithmetic\<close>

lemma unat_less_u32: "unat (a :: 32 word) < 4294967296"
  using unsigned_less [of a, where ?'a = nat] by simp

lemma page_mask: "(0xfffff000 :: 32 word) = NOT (mask 12)"
  by (simp add: mask_eq_exp_minus_1)

lemma page_of_shift: "page_of a = push_bit 12 (drop_bit 12 a)"
  unfolding page_of_def page_mask by (rule bit_word_eqI) (auto simp: bit_simps)

lemma unat_page_of: "unat (page_of a) = unat a div 4096 * 4096"
proof -
  have "unat (page_of a) = take_bit 32 (push_bit 12 (unat (drop_bit 12 a)))"
    unfolding page_of_shift unsigned_push_bit_eq by simp
  also have "\<dots> = (unat a div 4096 * 4096) mod 4294967296"
    by (simp only: unat_drop12 push_bit_eq_mult take_bit_eq_mod) simp
  finally show ?thesis
    using unat_less_u32 [of a] by simp
qed

lemma page_of_idem [simp]: "page_of (page_of a) = page_of a"
  unfolding page_of_def by (simp add: and.assoc)

lemma page_of_iff: "page_of a = a \<longleftrightarrow> unat a mod 4096 = 0"
  by (metis unat_page_of word_unat_eq_iff dvd_div_mult_self dvd_eq_mod_eq_0 mod_mult_self2_is_0)

lemma page_of_obtain:
  assumes "page_of p = p"
  obtains k where "unat p = 4096 * k" "k < 1048576"
proof -
  have "4096 dvd unat p" using assms page_of_iff by auto
  then obtain k where k: "unat p = 4096 * k" by (elim dvdE)
  moreover have "k < 1048576" using unat_less_u32 [of p] k by linarith
  ultimately show ?thesis using that by blast
qed

lemma unat_page_add:
  assumes "page_of p = p" "unat off < 4096"
  shows "unat (p + off) = unat p + unat off"
proof -
  obtain k where k: "unat p = 4096 * k" "k < 1048576" using assms(1) by (rule page_of_obtain)
  have lt: "unat p + unat off < 4294967296"
    using k assms(2) by linarith
  then show "unat (p + off) = unat p + unat off"
    by (simp add: unat_plus_if_size word_size)
qed

lemma page_of_add:
  assumes "page_of p = p" "unat off < 4096"
  shows "page_of (p + off) = p"
proof -
  obtain k where k: "unat p = 4096 * k" "k < 1048576" using assms(1) by (rule page_of_obtain)
  have "unat (page_of (p + off)) = (4096 * k + unat off) div 4096 * 4096"
    by (simp only: unat_page_of unat_page_add [OF assms] k)
  also have "\<dots> = unat p" using k assms(2) by simp
  finally show ?thesis by (simp only: word_unat_eq_iff)
qed

lemma pte_off: "k < 1024 \<Longrightarrow> unat (4 * of_nat k :: 32 word) = 4 * k"
  by (simp add: unat_word_ariths unat_of_nat)

lemma page_of_pte: "page_of p = p \<Longrightarrow> k < 1024 \<Longrightarrow> page_of (p + 4 * of_nat k) = p"
  by (rule page_of_add) (simp_all add: pte_off)

lemma pte_inj: "k < 1024 \<Longrightarrow> l < 1024 \<Longrightarrow> p + 4 * of_nat k = p + (4 * of_nat l :: 32 word) \<longleftrightarrow> k = l"
  using pte_off [of k] pte_off [of l] by (metis add_left_cancel mult_left_cancel zero_neq_numeral)

text \<open>Page frame \<open>i\<close> of the allocator: the address that \<open>mem_map[i]\<close> counts.\<close>

definition frame :: "nat \<Rightarrow> addr" where "frame i = push_bit 12 (of_nat i) + LOW_MEM"

lemma frame_eq: "frame i = of_nat ((i + 256) * 4096)"
  by (simp add: frame_def LOW_MEM_def push12_of_nat algebra_simps)

lemma unat_frame: "i < 3840 \<Longrightarrow> unat (frame i) = (i + 256) * 4096"
  unfolding frame_eq by (rule unat_of_nat_u32) simp

lemma page_of_frame: "i < 3840 \<Longrightarrow> page_of (frame i) = frame i"
  by (simp add: page_of_iff unat_frame)

lemma unat_LOW_MEM: "unat LOW_MEM = 1048576" by (simp add: LOW_MEM_def)

lemma frame_ge: "i < 3840 \<Longrightarrow> \<not> frame i < LOW_MEM"
  by (simp add: word_less_nat_alt unat_frame unat_LOW_MEM)

lemma frame_nz: "i < 3840 \<Longrightarrow> frame i \<noteq> 0"
  using unat_frame [of i] by (metis mult_eq_0_iff add_is_0 unat_0 zero_neq_numeral)

lemma frame_inj: "i < 3840 \<Longrightarrow> j < 3840 \<Longrightarrow> frame i = frame j \<longleftrightarrow> i = j"
  using unat_frame [of i] unat_frame [of j] by (metis add_right_cancel mult_right_cancel zero_neq_numeral)

lemma MAP_NR_eq: "\<not> a < LOW_MEM \<Longrightarrow> MAP_NR a = (unat a - 1048576) div 4096"
  by (simp add: MAP_NR_def unat_drop12 unat_sub word_le_nat_alt unat_LOW_MEM linorder_not_less)

lemma MAP_NR_frame: "i < 3840 \<Longrightarrow> MAP_NR (frame i) = i"
  by (simp add: MAP_NR_eq frame_ge unat_frame)

lemma frame_MAP_NR:
  assumes "page_of a = a" "\<not> a < LOW_MEM" shows "frame (MAP_NR a) = a"
proof -
  obtain k where k: "unat a = 4096 * k" "k < 1048576" using assms(1) by (rule page_of_obtain)
  have "256 \<le> k" using assms(2) k by (simp add: word_less_nat_alt unat_LOW_MEM)
  have "4096 * k - 1048576 = 4096 * (k - 256)" by (simp add: diff_mult_distrib2)
  then have "(unat a - 1048576) div 4096 = k - 256" unfolding k(1) by simp
  then have "(MAP_NR a + 256) * 4096 = unat a"
    unfolding MAP_NR_eq [OF assms(2)] using k \<open>256 \<le> k\<close> by simp
  then have "of_nat ((MAP_NR a + 256) * 4096) = (of_nat (unat a) :: addr)" by (rule arg_cong)
  then show ?thesis by (simp only: frame_eq of_nat_unat ucast_id)
qed

section \<open>What the allocator does\<close>

lemma scan_free_SomeD: "scan_free m n = Some i \<Longrightarrow> i < n \<and> m i = 0 \<and> (\<forall>j. i < j \<and> j < n \<longrightarrow> m j \<noteq> 0)"
  by (induction n) (auto split: if_splits simp: less_Suc_eq)

lemma scan_free_None: "scan_free m n = None \<longleftrightarrow> (\<forall>i<n. m i \<noteq> 0)"
  by (induction n) (auto simp: less_Suc_eq)

lemma get_free_page_cases:
  assumes "get_free_page s = (p, s')"
  obtains (none) "p = 0" "s' = s" "\<forall>i<3840. mem_map s i \<noteq> 0"
    | (page) i where "i < 3840" "mem_map s i = 0" "p = frame i"
        "\<forall>j. i < j \<and> j < 3840 \<longrightarrow> mem_map s j \<noteq> 0"
        "s' = s\<lparr>mem_map := (mem_map s)(i := 1), phys := fill_page (frame i) 0 (phys s)\<rparr>"
proof (cases "scan_free (mem_map s) 3840")
  case None
  then have "p = 0" "s' = s" using assms by (simp_all add: get_free_page_def)
  moreover have "\<forall>i<3840. mem_map s i \<noteq> 0" using None by (simp only: scan_free_None)
  ultimately show ?thesis by (rule none)
next
  case (Some i)
  note i = scan_free_SomeD [OF Some]
  have "p = frame i" "s' = s\<lparr>mem_map := (mem_map s)(i := 1), phys := fill_page (frame i) 0 (phys s)\<rparr>"
    using assms Some by (auto simp: get_free_page_def Let_def frame_def)
  with i show ?thesis by (intro page) blast+
qed

lemma free_page_frame:
  assumes "i < 3840" "frame i < HIGH_MEMORY s"
  shows "free_page (frame i) s =
    (if mem_map s i \<noteq> 0 then Some (s\<lparr>mem_map := (mem_map s)(i := mem_map s i - 1)\<rparr>) else None)"
  using assms MAP_NR_frame [of i] frame_ge [of i]
  by (auto simp: free_page_def Let_def MAP_NR_def)

lemma free_page_low [simp]: "a < LOW_MEM \<Longrightarrow> free_page a s = Some s"
  by (simp add: free_page_def)

text \<open>The invariant of the allocator: frames beyond the end of memory are never free, which
  \<open>mem_init\<close> establishes by marking them \<open>USED\<close>.\<close>

definition mm_ok :: "'a mm_state_scheme \<Rightarrow> bool" where
  "mm_ok s \<longleftrightarrow> (\<forall>i<PAGING_PAGES. HIGH_MEMORY s \<le> frame i \<longrightarrow> mem_map s i \<noteq> 0)"

definition mm_pages :: "'a mm_state_scheme \<Rightarrow> addr set" where
  "mm_pages s = {p. \<exists>i<PAGING_PAGES. p = frame i \<and> p < HIGH_MEMORY s}"

definition page_count :: "'a mm_state_scheme \<Rightarrow> addr \<Rightarrow> nat" where
  "page_count s p = (if p \<in> mm_pages s then unat (mem_map s (MAP_NR p)) else 0)"

text \<open>The contract of a reference-counting page allocator, as its clients use it.\<close>

locale page_allocator =
  fixes alloc :: "'s \<Rightarrow> addr \<times> 's"
    and release :: "addr \<Rightarrow> 's \<Rightarrow> 's option"
    and count :: "'s \<Rightarrow> addr \<Rightarrow> nat"
    and ok :: "'s \<Rightarrow> bool"
    and pages :: "'s \<Rightarrow> addr set"
  assumes alloc_none: "alloc s = (0, s') \<Longrightarrow> s' = s"
    and alloc_page: "ok s \<Longrightarrow> alloc s = (p, s') \<Longrightarrow> p \<noteq> 0 \<Longrightarrow>
      p \<in> pages s \<and> count s p = 0 \<and> count s' = (count s)(p := 1) \<and> ok s' \<and> pages s' = pages s"
    and release_page: "ok s \<Longrightarrow> p \<in> pages s \<Longrightarrow> 0 < count s p \<Longrightarrow>
      \<exists>s'. release p s = Some s' \<and> count s' = (count s)(p := count s p - 1) \<and> ok s' \<and> pages s' = pages s"
    and release_null: "release 0 s = Some s"
begin

lemma alloc_ok: "ok s \<Longrightarrow> alloc s = (p, s') \<Longrightarrow> ok s' \<and> pages s' = pages s"
  using alloc_none alloc_page by (cases "p = 0") blast+

lemma alloc_then_release:
  assumes "ok s" "alloc s = (p, s1)" "p \<noteq> 0"
  shows "\<exists>s2. release p s1 = Some s2 \<and> count s2 = count s \<and> ok s2"
proof -
  from alloc_page [OF assms] have *: "p \<in> pages s1" "count s p = 0" "count s1 = (count s)(p := 1)" "ok s1"
    by auto
  then show ?thesis using release_page [of s1 p] by (auto simp: fun_eq_iff)
qed

lemma two_allocs_distinct:
  assumes "ok s" "alloc s = (p, s1)" "p \<noteq> 0" "alloc s1 = (q, s2)" "q \<noteq> 0"
  shows "p \<noteq> q \<and> count s2 = (count s)(p := 1, q := 1)"
  using alloc_page [OF assms(1-3)] alloc_page [of s1 q s2] assms(4,5) by auto

end

lemma get_free_page_allocates:
  assumes "mm_ok s" "get_free_page s = (p, s')" "p \<noteq> 0"
  shows "p \<in> mm_pages s \<and> page_count s p = 0 \<and> page_count s' = (page_count s)(p := 1) \<and> mm_ok s'
    \<and> mm_pages s' = mm_pages s"
  using assms(2)
proof (cases rule: get_free_page_cases)
  case none
  with assms(3) show ?thesis by simp
next
  case (page i)
  from assms(1) page(1,2) have hi: "frame i < HIGH_MEMORY s" by (auto simp: mm_ok_def)
  have pages: "mm_pages s' = mm_pages s" unfolding page(5) by (simp add: mm_pages_def)
  have "page_count s' q = ((page_count s)(p := 1)) q" for q
    unfolding page_count_def pages
    using page hi by (auto simp: mm_pages_def MAP_NR_frame frame_inj)
  then have "page_count s' = (page_count s)(p := 1)" by (rule ext)
  moreover have "p \<in> mm_pages s" using page hi by (auto simp: mm_pages_def)
  moreover have "page_count s p = 0" using page by (simp add: page_count_def MAP_NR_frame)
  moreover have "mm_ok s'" using assms(1) unfolding page(5) mm_ok_def by simp
  ultimately show ?thesis using pages by blast
qed

lemma free_page_releases:
  assumes "mm_ok s" "p \<in> mm_pages s" "0 < page_count s p"
  shows "\<exists>s'. free_page p s = Some s' \<and> page_count s' = (page_count s)(p := page_count s p - 1)
    \<and> mm_ok s' \<and> mm_pages s' = mm_pages s"
proof -
  from assms(2) obtain i where i: "i < 3840" "p = frame i" "frame i < HIGH_MEMORY s"
    by (auto simp: mm_pages_def)
  with assms(2,3) have nz: "mem_map s i \<noteq> 0" by (auto simp: page_count_def MAP_NR_frame)
  let ?s = "s\<lparr>mem_map := (mem_map s)(i := mem_map s i - 1)\<rparr>"
  have f: "free_page p s = Some ?s" using i nz by (simp add: free_page_frame)
  have pages: "mm_pages ?s = mm_pages s" by (simp add: mm_pages_def)
  have dec: "unat (mem_map s i - 1) = unat (mem_map s i) - 1"
    using nz by (simp add: unat_minus_one)
  have "page_count ?s q = ((page_count s)(p := page_count s p - 1)) q" for q
    unfolding page_count_def pages
    using i assms(2) by (auto simp: mm_pages_def MAP_NR_frame frame_inj dec)
  then have "page_count ?s = (page_count s)(p := page_count s p - 1)" by (rule ext)
  moreover have "mm_ok ?s" using assms(1) i by (auto simp: mm_ok_def)
  ultimately show ?thesis using f pages by blast
qed

interpretation pa: page_allocator get_free_page free_page page_count mm_ok mm_pages
proof (unfold_locales, goal_cases)
  case (1 s s')
  then show ?case by (cases rule: get_free_page_cases) (auto simp: frame_nz [symmetric])
next
  case (2 s p s')
  then show ?case by (rule get_free_page_allocates)
next
  case (3 s p)
  then show ?case by (rule free_page_releases)
next
  case (4 s)
  show ?case by (simp add: LOW_MEM_def)
qed

end
