(* ===== verification/Page_Tables.thy ===== *)
theory Page_Tables
  imports Memory
begin

text \<open>
  The two-level page tables of \<open>mm/memory.c\<close>: building, copying and freeing them for
  \<open>fork\<close> and \<open>exit\<close>, and the handlers of write-protection faults.
\<close>

section \<open>Page tables\<close>

text \<open>The inner loop of \<open>free_page_tables\<close>: \<open>n\<close> entries from \<open>pg_table\<close> on.\<close>

primrec free_ptes :: "nat \<Rightarrow> addr \<Rightarrow> 'a mm_state_scheme \<Rightarrow> 'a mm_state_scheme option" where
  "free_ptes 0 pg_table s = Some s"
| "free_ptes (Suc n) pg_table s = do {
     s \<leftarrow> (if 1 AND phys s pg_table \<noteq> 0 then free_page (0xfffff000 AND phys s pg_table) s
           else Some s);
     free_ptes n (pg_table + 4) (s\<lparr>phys := (phys s)(pg_table := 0)\<rparr>) }"

primrec free_dirs :: "nat \<Rightarrow> addr \<Rightarrow> 'a mm_state_scheme \<Rightarrow> 'a mm_state_scheme option" where
  "free_dirs 0 dir s = Some s"
| "free_dirs (Suc n) dir s =
     (if 1 AND phys s dir = 0 then free_dirs n (dir + 4) s
      else do {
        s \<leftarrow> free_ptes 1024 (0xfffff000 AND phys s dir) s;
        s \<leftarrow> free_page (0xfffff000 AND phys s dir) s;
        free_dirs n (dir + 4) (s\<lparr>phys := (phys s)(dir := 0)\<rparr>) })"

definition free_page_tables ::
  "addr \<Rightarrow> u32 \<Rightarrow> 'a mm_state_scheme \<Rightarrow> (int \<times> 'a mm_state_scheme) option" where
  "free_page_tables from sz s =
     (if from AND 0x3fffff \<noteq> 0 then None
      else if from = 0 then None
      else do {
        s \<leftarrow> free_dirs (unat (drop_bit 22 (sz + 0x3fffff))) (drop_bit 20 from AND 0xffc) s;
        Some (0, s) })"

primrec copy_ptes :: "nat \<Rightarrow> addr \<Rightarrow> addr \<Rightarrow> 'a mm_state_scheme \<Rightarrow> 'a mm_state_scheme" where
  "copy_ptes 0 from_pt to_pt s = s"
| "copy_ptes (Suc n) from_pt to_pt s =
     (let this_page = phys s from_pt in
      if 1 AND this_page = 0 then copy_ptes n (from_pt + 4) (to_pt + 4) s
      else
        let this_page = this_page AND NOT 2;
            s1 = s\<lparr>phys := (phys s)(to_pt := this_page)\<rparr>;
            s2 = (if this_page > LOW_MEM then
                    let i = unat (drop_bit 12 (this_page - LOW_MEM))
                    in s1\<lparr>phys := (phys s1)(from_pt := this_page),
                          mem_map := (mem_map s1)(i := mem_map s1 i + 1)\<rparr>
                  else s1)
        in copy_ptes n (from_pt + 4) (to_pt + 4) s2)"

primrec copy_dirs ::
  "nat \<Rightarrow> nat \<Rightarrow> addr \<Rightarrow> addr \<Rightarrow> 'a mm_state_scheme \<Rightarrow> (int \<times> 'a mm_state_scheme) option" where
  "copy_dirs 0 nr from_dir to_dir s = Some (0, s)"
| "copy_dirs (Suc n) nr from_dir to_dir s =
     (if 1 AND phys s to_dir \<noteq> 0 then None
      else if 1 AND phys s from_dir = 0 then copy_dirs n nr (from_dir + 4) (to_dir + 4) s
      else
        let from_pt = 0xfffff000 AND phys s from_dir;
            (to_pt, s1) = get_free_page s
        in if to_pt = 0 then Some (-1, s1)
           else
             let s2 = s1\<lparr>phys := (phys s1)(to_dir := to_pt OR 7)\<rparr>
             in copy_dirs n nr (from_dir + 4) (to_dir + 4) (copy_ptes nr from_pt to_pt s2))"

definition copy_page_tables ::
  "addr \<Rightarrow> addr \<Rightarrow> u32 \<Rightarrow> 'a mm_state_scheme \<Rightarrow> (int \<times> 'a mm_state_scheme) option" where
  "copy_page_tables from to sz s =
     (if from AND 0x3fffff \<noteq> 0 \<or> to AND 0x3fffff \<noteq> 0 then None
      else copy_dirs (unat (drop_bit 22 (sz + 0x3fffff))) (if from = 0 then 0xA0 else 1024)
             (drop_bit 20 from AND 0xffc) (drop_bit 20 to AND 0xffc) s)"

definition put_page ::
  "addr \<Rightarrow> addr \<Rightarrow> 'a mm_state_scheme \<Rightarrow> addr \<times> 'a mm_state_scheme" where
  "put_page page address s =
     (let dir = drop_bit 20 address AND 0xffc;
          (page_table, s1) =
            (if phys s dir AND 1 \<noteq> 0 then (0xfffff000 AND phys s dir, s)
             else let (tmp, s1) = get_free_page s
                  in if tmp = 0 then (0, s1)
                     else (tmp, s1\<lparr>phys := (phys s1)(dir := tmp OR 7)\<rparr>))
      in if phys s dir AND 1 = 0 \<and> page_table = 0 then (0, s1)
         else (page,
               s1\<lparr>phys := (phys s1)(page_table + 4 * (drop_bit 12 address AND 0x3ff) := page OR 7)\<rparr>))"

definition un_wp_page :: "addr \<Rightarrow> 'a mm_state_scheme \<Rightarrow> fault \<times> 'a mm_state_scheme" where
  "un_wp_page table_entry s =
     (let old_page = 0xfffff000 AND phys s table_entry in
      if old_page \<ge> LOW_MEM \<and> mem_map s (MAP_NR old_page) = 1
      then (Resume, s\<lparr>phys := (phys s)(table_entry := phys s table_entry OR 2)\<rparr>)
      else
        let (new_page, s1) = get_free_page s in
        if new_page = 0 then (Oom, s1)
        else
          let s2 = (if old_page \<ge> LOW_MEM
                    then s1\<lparr>mem_map := (mem_map s1)(MAP_NR old_page := mem_map s1 (MAP_NR old_page) - 1)\<rparr>
                    else s1);
              s3 = s2\<lparr>phys := (phys s2)(table_entry := new_page OR 7)\<rparr>
          in (Resume, s3\<lparr>phys := copy_page old_page new_page (phys s3)\<rparr>))"

definition do_wp_page :: "u32 \<Rightarrow> addr \<Rightarrow> 'a mm_state_scheme \<Rightarrow> fault \<times> 'a mm_state_scheme" where
  "do_wp_page error_code address s =
     un_wp_page ((drop_bit 10 address AND 0xffc)
                 + (0xfffff000 AND phys s (drop_bit 20 address AND 0xffc))) s"

definition write_verify :: "addr \<Rightarrow> 'a mm_state_scheme \<Rightarrow> fault \<times> 'a mm_state_scheme" where
  "write_verify address s =
     (let page = phys s (drop_bit 20 address AND 0xffc) in
      if page AND 1 = 0 then (Resume, s)
      else
        let page = (page AND 0xfffff000) + (drop_bit 10 address AND 0xffc)
        in if 3 AND phys s page = 1 then un_wp_page page s else (Resume, s))"

definition get_empty_page :: "addr \<Rightarrow> 'a mm_state_scheme \<Rightarrow> (fault \<times> 'a mm_state_scheme) option" where
  "get_empty_page address s =
     (let (tmp, s1) = get_free_page s in
      if tmp = 0 then do { s2 \<leftarrow> free_page tmp s1; Some (Oom, s2) }
      else
        let (r, s2) = put_page tmp address s1
        in if r = 0 then do { s3 \<leftarrow> free_page tmp s2; Some (Oom, s3) }
           else Some (Resume, s2))"

text \<open>\<open>try_to_share\<close>: the code reads the two tasks' \<open>start_code\<close> only. The result is whether the page
  was shared, or that the task was killed by \<open>oom\<close>.\<close>

datatype share = Shared | Not_shared | Share_oom

definition try_to_share ::
  "addr \<Rightarrow> addr \<Rightarrow> addr \<Rightarrow> 'a mm_state_scheme \<Rightarrow> (share \<times> 'a mm_state_scheme) option" where
  "try_to_share address p_start_code current_start_code s =
     (let from_page = (drop_bit 20 address AND 0xffc) + (drop_bit 20 p_start_code AND 0xffc);
          to_page = (drop_bit 20 address AND 0xffc) + (drop_bit 20 current_start_code AND 0xffc);
          from = phys s from_page in
      if from AND 1 = 0 then Some (Not_shared, s)
      else
        let from = from AND 0xfffff000;
            from_page = from + (drop_bit 10 address AND 0xffc);
            phys_addr = phys s from_page in
        if phys_addr AND 0x41 \<noteq> 0x01 then Some (Not_shared, s)
        else
          let phys_addr = phys_addr AND 0xfffff000 in
          if phys_addr \<ge> HIGH_MEMORY s \<or> phys_addr < LOW_MEM then Some (Not_shared, s)
          else
            let to = phys s to_page;
                (new, s1) = (if to AND 1 = 0 then get_free_page s else (0, s)) in
            if to AND 1 = 0 \<and> new = 0 then Some (Share_oom, s1)
            else
              let s2 = (if to AND 1 = 0 then s1\<lparr>phys := (phys s1)(to_page := new OR 7)\<rparr> else s1);
                  to = (if to AND 1 = 0 then new else to) AND 0xfffff000;
                  to_page = to + (drop_bit 10 address AND 0xffc) in
              if 1 AND phys s2 to_page \<noteq> 0 then None
              else
                let s3 = s2\<lparr>phys := (phys s2)(from_page := phys s2 from_page AND NOT 2)\<rparr>;
                    s4 = s3\<lparr>phys := (phys s3)(to_page := phys s3 from_page)\<rparr>;
                    i = unat (drop_bit 12 (phys_addr - LOW_MEM))
                in Some (Shared, s4\<lparr>mem_map := (mem_map s4)(i := mem_map s4 i + 1)\<rparr>))"

text \<open>\<open>calc_mem\<close> prints the number of free pages and, for each present directory entry from 2 on, the
  number of present pages; the model returns what it prints.\<close>

definition calc_mem :: "'a mm_state_scheme \<Rightarrow> nat \<times> (nat \<times> nat) list" where
  "calc_mem s =
     (length (filter (\<lambda>i. mem_map s i = 0) [0..<PAGING_PAGES]),
      map (\<lambda>i. (i, length (filter (\<lambda>j. phys s ((0xfffff000 AND phys s (of_nat (4 * i))) + of_nat (4 * j)) AND 1 \<noteq> 0)
                            [0..<1024])))
        (filter (\<lambda>i. 1 AND phys s (of_nat (4 * i)) \<noteq> 0) [2..<1024]))"

section \<open>Entries, tables and the references they hold\<close>

lemma page_of_commute: "0xfffff000 AND a = page_of a"
  by (simp add: page_of_def and.commute)

text \<open>The simplifier writes the mask \<open>~2\<close> of the code as \<open>- 3\<close>.\<close>

lemma not2: "NOT 2 = (- 3 :: u32)"
  by simp

lemma page_of_cow [simp]: "page_of (e AND - 3) = page_of e"
proof -
  have "- 3 AND (0xfffff000 :: addr) = 0xfffff000" by simp
  then show ?thesis unfolding page_of_def by (simp only: and.assoc)
qed

lemma present_cow [simp]: "1 AND (e AND - 3 :: addr) = 1 AND e"
proof -
  have "1 AND (- 3 :: addr) = 1" by simp
  then show ?thesis by (metis and.assoc and.commute)
qed

lemma page_of_or7: "page_of p = p \<Longrightarrow> page_of (p OR 7) = p"
proof -
  assume "page_of p = p"
  moreover have "page_of (p OR 7) = page_of p"
    unfolding page_of_def by (simp add: and.commute [of _ 4294963200] bit.conj_disj_distrib)
  ultimately show ?thesis by simp
qed

lemma present_or7: "1 AND (p OR 7 :: addr) = 1"
  by (rule bit_word_eqI) (auto simp: bit_simps)

definition frame_ref :: "u32 \<Rightarrow> nat \<Rightarrow> bool" where
  "frame_ref e i \<longleftrightarrow> 1 AND e \<noteq> 0 \<and> \<not> page_of e < LOW_MEM \<and> MAP_NR (page_of e) = i"

lemma page_of_le: "page_of e \<le> e"
  by (simp add: word_le_nat_alt unat_page_of)

lemma MAP_NR_page_of:
  assumes "\<not> page_of e < LOW_MEM" shows "MAP_NR (page_of e) = MAP_NR e"
proof -
  have "\<not> e < LOW_MEM" using assms page_of_le [of e] by simp
  then have "1048576 \<le> unat e" by (simp add: word_less_nat_alt unat_LOW_MEM)
  then obtain v where v: "unat e = v + 256 * 4096" using that [of "unat e - 1048576"] by simp
  have "unat e div 4096 = v div 4096 + 256" unfolding v by simp
  then have "unat e div 4096 * 4096 - 1048576 = v div 4096 * 4096" by simp
  then have "(unat e div 4096 * 4096 - 1048576) div 4096 = (unat e - 1048576) div 4096" using v by simp
  then show ?thesis
    unfolding MAP_NR_eq [OF assms] MAP_NR_eq [OF \<open>\<not> e < LOW_MEM\<close>] unat_page_of .
qed

lemma MAP_NR_cow:
  assumes "\<not> page_of e < LOW_MEM" shows "MAP_NR (e AND - 3) = MAP_NR (page_of e)"
proof -
  have "\<not> page_of (e AND - 3) < LOW_MEM" using assms by simp
  from MAP_NR_page_of [OF this] show ?thesis by simp
qed

lemma present_above:
  assumes "1 AND e \<noteq> 0"
  shows "LOW_MEM < (e AND - 3) \<longleftrightarrow> \<not> page_of e < LOW_MEM"
proof
  assume a: "LOW_MEM < e AND - 3"
  have "256 * 4096 \<le> unat (e AND - 3)" using a by (simp add: word_less_nat_alt unat_LOW_MEM)
  then have "256 \<le> unat (e AND - 3) div 4096" by simp
  then have "256 * 4096 \<le> unat (page_of (e AND - 3))" by (simp only: unat_page_of mult_le_mono1)
  then show "\<not> page_of e < LOW_MEM"
    by (simp only: page_of_cow word_less_nat_alt unat_LOW_MEM)
next
  assume "\<not> page_of e < LOW_MEM"
  then have "LOW_MEM \<le> page_of (e AND - 3)" by simp
  also have "\<dots> \<le> e AND - 3" by (rule page_of_le)
  finally have "LOW_MEM \<le> e AND - 3" .
  moreover have "1 AND LOW_MEM = 0" by (simp add: LOW_MEM_def)
  then have "LOW_MEM \<noteq> e AND - 3" using assms present_cow by metis
  ultimately show "LOW_MEM < e AND - 3" by simp
qed
lemma frame_ref_cow: "frame_ref (e AND - 3) i = frame_ref e i"
  by (simp only: frame_ref_def page_of_cow present_cow)

lemma card_less_Suc_shift:
  "card {k. k < Suc n \<and> P k} = (if P 0 then 1 else 0) + card {k. k < n \<and> P (Suc k)}"
proof -
  have "{k. k < Suc n \<and> P k} = (if P 0 then {0} else {}) \<union> Suc ` {k. k < n \<and> P (Suc k)}"
    by (auto simp: less_Suc_eq_0_disj image_iff)
  moreover have "finite {k. k < n \<and> P (Suc k)}" by simp
  ultimately show ?thesis by (simp add: card_insert_if card_image)
qed

text \<open>The longs of a table: \<open>entry s t k\<close> is its \<open>k\<close>-th entry.\<close>

definition slot :: "addr \<Rightarrow> nat \<Rightarrow> addr" where
  "slot t k = t + 4 * of_nat k"

lemma slot_0 [simp]: "slot t 0 = t"
  by (simp add: slot_def)

lemma slot_Suc: "slot (t + 4) k = slot t (Suc k)"
  by (simp add: slot_def algebra_simps)

lemma slot_inj: "k < 1024 \<Longrightarrow> l < 1024 \<Longrightarrow> slot t k = slot t l \<longleftrightarrow> k = l"
  unfolding slot_def by (rule pte_inj)

lemma page_of_slot: "page_of t = t \<Longrightarrow> k < 1024 \<Longrightarrow> page_of (slot t k) = t"
  unfolding slot_def by (rule page_of_pte)

section \<open>One page table\<close>

definition cow :: "u32 \<Rightarrow> u32" where
  "cow e = (if 1 AND e = 0 then 0 else e AND - 3)"

definition protect :: "u32 \<Rightarrow> u32" where
  "protect e = (if 1 AND e \<noteq> 0 \<and> \<not> page_of e < LOW_MEM then e AND - 3 else e)"

lemma copy_ptes_step:
  "copy_ptes (Suc n) f t s =
     (let e = phys s f in
      if 1 AND e = 0 then copy_ptes n (f + 4) (t + 4) s
      else copy_ptes n (f + 4) (t + 4)
        (if page_of e < LOW_MEM then s\<lparr>phys := (phys s)(t := e AND - 3)\<rparr>
         else s\<lparr>phys := (phys s)(t := e AND - 3, f := e AND - 3),
                mem_map := (mem_map s)(MAP_NR (page_of e) := mem_map s (MAP_NR (page_of e)) + 1)\<rparr>))"
proof (cases "1 AND phys s f = 0")
  case True
  then show ?thesis by (simp add: Let_def)
next
  case False
  have "\<not> page_of (phys s f) < LOW_MEM \<Longrightarrow>
      unat (drop_bit 12 ((phys s f AND - 3) - LOW_MEM)) = MAP_NR (page_of (phys s f))"
    by (drule MAP_NR_cow) (simp add: MAP_NR_def)
  with False present_above [OF False] show ?thesis
    by (cases "page_of (phys s f) < LOW_MEM") (simp_all add: Let_def)
qed

lemma protect_present [simp]: "1 AND protect e = 1 AND e"
  by (simp add: protect_def)

lemma page_of_protect [simp]: "page_of (protect e) = page_of e"
  by (simp add: protect_def)

lemma frame_ref_protect [simp]: "frame_ref (protect e) i = frame_ref e i"
  using frame_ref_cow [of e i] by (simp add: protect_def)

definition apart :: "nat \<Rightarrow> addr \<Rightarrow> addr \<Rightarrow> bool" where
  "apart n f t \<longleftrightarrow> (\<forall>k<n. \<forall>l<n. slot f k \<noteq> slot t l)"

lemma apart_Suc: "apart (Suc n) f t \<Longrightarrow> apart n (f + 4) (t + 4)"
  by (auto simp: apart_def slot_Suc)

lemma slot_0_Suc: "n < 1024 \<Longrightarrow> k < n \<Longrightarrow> slot t 0 \<noteq> slot t (Suc k)"
  using slot_inj [of 0 "Suc k" t] by simp

text \<open>The whole effect of copying a table: the child gets the write-protected entries, the parent's
  entries above low memory lose their write bit, and each frame gains one reference per copied entry.\<close>

lemma copy_ptes_frame:
  "(\<forall>k<n. a \<noteq> slot f k \<and> a \<noteq> slot t k) \<Longrightarrow> phys (copy_ptes n f t s) a = phys s a"
proof (induction n arbitrary: f t s)
  case (Suc n)
  have "a \<noteq> f" "a \<noteq> t" "\<forall>k<n. a \<noteq> slot (f + 4) k \<and> a \<noteq> slot (t + 4) k"
    using Suc.prems by (auto simp: slot_Suc dest: spec [of _ 0])
  with Suc.IH show ?case by (simp only: copy_ptes_step Let_def) simp
qed simp

lemma copy_ptes_HIGH [simp]: "HIGH_MEMORY (copy_ptes n f t s) = HIGH_MEMORY s"
  by (induction n arbitrary: f t s) (simp_all add: Let_def)

lemma copy_ptes_spec:
  assumes "n \<le> 1024" "apart n f t"
  shows "(\<forall>k<n. phys (copy_ptes n f t s) (slot t k) =
            (if 1 AND phys s (slot f k) = 0 then phys s (slot t k) else phys s (slot f k) AND - 3))
    \<and> (\<forall>k<n. phys (copy_ptes n f t s) (slot f k) = protect (phys s (slot f k)))
    \<and> (\<forall>i. mem_map (copy_ptes n f t s) i =
           mem_map s i + of_nat (card {k. k < n \<and> frame_ref (phys s (slot f k)) i}))"
  using assms
proof (induction n arbitrary: f t s)
  case (Suc n)
  define e where "e = phys s f"
  define s1 where "s1 = (if 1 AND e = 0 then s
      else if page_of e < LOW_MEM then s\<lparr>phys := (phys s)(t := e AND - 3)\<rparr>
         else s\<lparr>phys := (phys s)(t := e AND - 3, f := e AND - 3),
                mem_map := (mem_map s)(MAP_NR (page_of e) := mem_map s (MAP_NR (page_of e)) + 1)\<rparr>)"
  have step: "copy_ptes (Suc n) f t s = copy_ptes n (f + 4) (t + 4) s1"
    by (simp add: copy_ptes_step s1_def e_def Let_def del: copy_ptes.simps)
  have n: "n < 1024" "n \<le> 1024" and ap: "apart n (f + 4) (t + 4)"
    using Suc.prems apart_Suc by auto
  have ft: "f \<noteq> t" using Suc.prems(2) by (force simp: apart_def dest: spec [of _ 0])
  have cross: "slot f (Suc k) \<noteq> t" "slot t (Suc k) \<noteq> f" if "k < n" for k
    using Suc.prems(2) that by (force simp: apart_def dest: spec [of _ 0] spec [of _ "Suc k"])+
  have own: "slot f (Suc k) \<noteq> f" "slot t (Suc k) \<noteq> t" if "k < n" for k
    using slot_0_Suc [OF n(1) that, of f] slot_0_Suc [OF n(1) that, of t] by auto
  have same: "phys s1 (slot f (Suc k)) = phys s (slot f (Suc k))"
    "phys s1 (slot t (Suc k)) = phys s (slot t (Suc k))" if "k < n" for k
    using cross [OF that] own [OF that] by (auto simp: s1_def)
  have first_t: "phys s1 t = (if 1 AND e = 0 then phys s t else e AND - 3)"
    and first_f: "phys s1 f = protect e"
    using ft by (auto simp: s1_def protect_def e_def)
  have m1: "mem_map s1 i = mem_map s i + (if frame_ref e i then 1 else 0)" for i
    by (auto simp: s1_def frame_ref_def)
  note IH = Suc.IH [OF n(2) ap, of s1, unfolded slot_Suc]
  have keep: "phys (copy_ptes n (f + 4) (t + 4) s1) f = phys s1 f"
    "phys (copy_ptes n (f + 4) (t + 4) s1) t = phys s1 t"
    using own cross by (intro copy_ptes_frame; simp add: slot_Suc; metis)+
  have "\<forall>k<Suc n. phys (copy_ptes (Suc n) f t s) (slot t k) =
      (if 1 AND phys s (slot f k) = 0 then phys s (slot t k) else phys s (slot f k) AND - 3)"
    using IH same keep(2) first_t unfolding step by (auto simp: less_Suc_eq_0_disj e_def)
  moreover have "\<forall>k<Suc n. phys (copy_ptes (Suc n) f t s) (slot f k) = protect (phys s (slot f k))"
    using IH same keep(1) first_f unfolding step by (auto simp: less_Suc_eq_0_disj e_def)
  moreover have "mem_map (copy_ptes (Suc n) f t s) i =
      mem_map s i + of_nat (card {k. k < Suc n \<and> frame_ref (phys s (slot f k)) i})" for i
  proof -
    have "{k. k < n \<and> frame_ref (phys s1 (slot f (Suc k))) i} = {k. k < n \<and> frame_ref (phys s (slot f (Suc k))) i}"
      using same by auto
    then show ?thesis
      using IH m1 unfolding step card_less_Suc_shift by (simp add: e_def)
  qed
  ultimately show ?case by blast
qed simp

text \<open>Freeing a table: every entry is cleared and every frame loses one reference per present entry.\<close>

definition releasable :: "'a mm_state_scheme \<Rightarrow> u32 \<Rightarrow> bool" where
  "releasable s e \<longleftrightarrow> (1 AND e \<noteq> 0 \<longrightarrow> page_of e < LOW_MEM \<or> page_of e < HIGH_MEMORY s)"

lemma free_page_present:
  assumes "1 AND e \<noteq> 0" "releasable s e" "\<And>j. frame_ref e j \<Longrightarrow> mem_map s j \<noteq> 0"
  shows "free_page (page_of e) s =
    Some (if page_of e < LOW_MEM then s
          else s\<lparr>mem_map := (mem_map s)(MAP_NR (page_of e) := mem_map s (MAP_NR (page_of e)) - 1)\<rparr>)"
  using assms by (auto simp: free_page_def releasable_def frame_ref_def Let_def MAP_NR_def)

lemma unat_dec: "(w :: u8) \<noteq> 0 \<Longrightarrow> Suc (unat (w - 1)) = unat w"
  using unat_gt_0 [of w] by (simp add: unat_minus_one)

lemma free_ptes_spec:
  assumes "n \<le> 1024" "\<forall>k<n. releasable s (phys s (slot pt k))"
    "\<forall>i. card {k. k < n \<and> frame_ref (phys s (slot pt k)) i} \<le> unat (mem_map s i)"
  shows "\<exists>s'. free_ptes n pt s = Some s' \<and> HIGH_MEMORY s' = HIGH_MEMORY s
    \<and> (\<forall>k<n. phys s' (slot pt k) = 0)
    \<and> (\<forall>a. (\<forall>k<n. a \<noteq> slot pt k) \<longrightarrow> phys s' a = phys s a)
    \<and> (\<forall>i. unat (mem_map s' i) + card {k. k < n \<and> frame_ref (phys s (slot pt k)) i} = unat (mem_map s i))"
  using assms
proof (induction n arbitrary: pt s)
  case (Suc n)
  define e where "e = phys s pt"
  define s1 where "s1 = (if 1 AND e = 0 \<or> page_of e < LOW_MEM then s
     else s\<lparr>mem_map := (mem_map s)(MAP_NR (page_of e) := mem_map s (MAP_NR (page_of e)) - 1)\<rparr>)"
  define s2 where "s2 = s1\<lparr>phys := (phys s1)(pt := 0)\<rparr>"
  have nz: "mem_map s j \<noteq> 0" if "frame_ref e j" for j
    using Suc.prems(3) [rule_format, of j] that unfolding card_less_Suc_shift by (auto simp: e_def)
  have "releasable s e" using Suc.prems(2) by (force simp: e_def dest: spec [of _ 0])
  then have step: "free_ptes (Suc n) pt s = free_ptes n (pt + 4) s2"
    using free_page_present [of e s] nz
    by (auto simp: s2_def s1_def e_def [symmetric] page_of_commute)
  have own: "slot pt (Suc k) \<noteq> pt" if "k < n" for k
    using slot_0_Suc [of n k pt] Suc.prems(1) that by auto
  have same: "phys s2 (slot pt (Suc k)) = phys s (slot pt (Suc k))" if "k < n" for k
    using own [OF that] by (simp add: s2_def s1_def)
  have H: "HIGH_MEMORY s2 = HIGH_MEMORY s" by (simp add: s2_def s1_def)
  have m2: "unat (mem_map s2 i) + (if frame_ref e i then 1 else 0) = unat (mem_map s i)" for i
    using nz [of i] unat_dec [of "mem_map s i"] by (auto simp: s2_def s1_def frame_ref_def)
  have cards: "{k. k < n \<and> frame_ref (phys s2 (slot pt (Suc k))) i} = {k. k < n \<and> frame_ref (phys s (slot pt (Suc k))) i}" for i
    using same by auto
  have pre1: "\<forall>k<n. releasable s2 (phys s2 (slot (pt + 4) k))"
    using Suc.prems(2) same H by (auto simp: slot_Suc releasable_def)
  have pre2: "\<forall>i. card {k. k < n \<and> frame_ref (phys s2 (slot (pt + 4) k)) i} \<le> unat (mem_map s2 i)"
  proof
    fix i
    show "card {k. k < n \<and> frame_ref (phys s2 (slot (pt + 4) k)) i} \<le> unat (mem_map s2 i)"
      using Suc.prems(3) [rule_format, of i] m2 [of i]
      unfolding card_less_Suc_shift slot_Suc cards by (simp add: e_def split: if_splits)
  qed
  from Suc.prems(1) have "n \<le> 1024" by simp
  from Suc.IH [OF this pre1 pre2] obtain s' where s':
    "free_ptes n (pt + 4) s2 = Some s'" "HIGH_MEMORY s' = HIGH_MEMORY s2"
    "\<forall>k<n. phys s' (slot pt (Suc k)) = 0"
    "\<forall>a. (\<forall>k<n. a \<noteq> slot pt (Suc k)) \<longrightarrow> phys s' a = phys s2 a"
    "\<forall>i. unat (mem_map s' i) + card {k. k < n \<and> frame_ref (phys s (slot pt (Suc k))) i} = unat (mem_map s2 i)"
    unfolding slot_Suc cards by blast
  have "phys s' pt = 0" using s'(4) own by (metis (no_types) s2_def fun_upd_same mm_state.select_convs(1) mm_state.surjective mm_state.update_convs(1))
  then have "\<forall>k<Suc n. phys s' (slot pt k) = 0" using s'(3) by (auto simp: less_Suc_eq_0_disj)
  moreover have "\<forall>a. (\<forall>k<Suc n. a \<noteq> slot pt k) \<longrightarrow> phys s' a = phys s a"
    using s'(4) by (force simp: less_Suc_eq_0_disj s2_def s1_def)
  moreover have "unat (mem_map s' i) + card {k. k < Suc n \<and> frame_ref (phys s (slot pt k)) i} = unat (mem_map s i)" for i
    using s'(5) [rule_format, of i] m2 [of i] unfolding card_less_Suc_shift by (simp add: e_def split: if_splits)
  ultimately show ?case using step s'(1,2) H by auto
qed simp

section \<open>Ranges of the page directory\<close>

text \<open>The references that one directory entry holds: those of its table's entries, and the table itself.\<close>

definition dir_refs :: "'a mm_state_scheme \<Rightarrow> addr \<Rightarrow> nat \<Rightarrow> nat" where
  "dir_refs s d i =
     (if 1 AND phys s d = 0 then 0
      else card {l. l < 1024 \<and> frame_ref (phys s (slot (page_of (phys s d)) l)) i}
           + (if frame_ref (phys s d) i then 1 else 0))"

definition range_refs :: "'a mm_state_scheme \<Rightarrow> addr \<Rightarrow> nat \<Rightarrow> nat \<Rightarrow> nat" where
  "range_refs s d n i = (\<Sum>k<n. dir_refs s (slot d k) i)"

definition dir_ok :: "'a mm_state_scheme \<Rightarrow> addr \<Rightarrow> bool" where
  "dir_ok s d \<longleftrightarrow> page_of d = 0 \<and>
     (1 AND phys s d \<noteq> 0 \<longrightarrow> page_of (phys s d) \<noteq> 0 \<and> releasable s (phys s d)
        \<and> (\<forall>l<1024. releasable s (phys s (slot (page_of (phys s d)) l))))"

definition tables_differ :: "'a mm_state_scheme \<Rightarrow> addr \<Rightarrow> nat \<Rightarrow> bool" where
  "tables_differ s d n \<longleftrightarrow>
     (\<forall>k<n. \<forall>l<n. k \<noteq> l \<and> 1 AND phys s (slot d k) \<noteq> 0 \<and> 1 AND phys s (slot d l) \<noteq> 0 \<longrightarrow>
        page_of (phys s (slot d k)) \<noteq> page_of (phys s (slot d l)))"

lemma range_refs_Suc: "range_refs s d (Suc n) i = dir_refs s d i + range_refs s (d + 4) n i"
  by (simp add: range_refs_def sum.lessThan_Suc_shift slot_Suc del: sum.lessThan_Suc)

lemma dir_refs_cong:
  assumes "phys s' d = phys s d"
    and "1 AND phys s d \<noteq> 0 \<Longrightarrow> \<forall>l<1024. phys s' (slot (page_of (phys s d)) l) = phys s (slot (page_of (phys s d)) l)"
  shows "dir_refs s' d i = dir_refs s d i"
proof (cases "1 AND phys s d = 0")
  case False
  then have "{l. l < 1024 \<and> frame_ref (phys s' (slot (page_of (phys s d)) l)) i}
      = {l. l < 1024 \<and> frame_ref (phys s (slot (page_of (phys s d)) l)) i}"
    using assms(2) by auto
  with False show ?thesis unfolding dir_refs_def assms(1) by simp
qed (simp add: dir_refs_def assms(1))

lemma dir_ok_cong:
  assumes "dir_ok s d" "phys s' d = phys s d" "HIGH_MEMORY s' = HIGH_MEMORY s"
    and "1 AND phys s d \<noteq> 0 \<Longrightarrow> \<forall>l<1024. phys s' (slot (page_of (phys s d)) l) = phys s (slot (page_of (phys s d)) l)"
  shows "dir_ok s' d"
  using assms unfolding dir_ok_def releasable_def by simp

text \<open>Freeing one present directory entry.\<close>

lemma free_one_dir:
  assumes "dir_ok s d" "1 AND phys s d \<noteq> 0" "\<forall>i. dir_refs s d i \<le> unat (mem_map s i)"
  obtains s1 s2 where
    "free_ptes 1024 (page_of (phys s d)) s = Some s1"
    "phys s1 d = phys s d"
    "free_page (page_of (phys s d)) s1 = Some s2"
    "phys s2 = phys s1" "HIGH_MEMORY s2 = HIGH_MEMORY s"
    "\<forall>a. page_of a \<noteq> page_of (phys s d) \<longrightarrow> phys s1 a = phys s a"
    "\<forall>i. unat (mem_map s2 i) + dir_refs s d i = unat (mem_map s i)"
proof -
  define e where "e = phys s d"
  define T where "T = page_of e"
  have T: "page_of T = T" "T \<noteq> 0" using assms(1,2) by (auto simp: T_def e_def dir_ok_def)
  have r: "dir_refs s d i = card {l. l < 1024 \<and> frame_ref (phys s (slot T l)) i} + (if frame_ref e i then 1 else 0)" for i
    using assms(2) by (simp add: dir_refs_def T_def e_def)
  have rel0: "\<forall>k<1024. releasable s (phys s (slot T k))"
    using assms(1,2) unfolding dir_ok_def T_def e_def by blast
  have cnt0: "\<forall>i. card {k. k < 1024 \<and> frame_ref (phys s (slot T k)) i} \<le> unat (mem_map s i)"
    using assms(3) unfolding r by (auto intro: add_leD1)
  note F = free_ptes_spec [of 1024 s T]
  have le: "(1024::nat) \<le> 1024" by simp
  from F [OF le rel0 cnt0] obtain s1 where F1: "free_ptes 1024 T s = Some s1 \<and> HIGH_MEMORY s1 = HIGH_MEMORY s
    \<and> (\<forall>k<1024. phys s1 (slot T k) = 0)
    \<and> (\<forall>a. (\<forall>k<1024. a \<noteq> slot T k) \<longrightarrow> phys s1 a = phys s a)
    \<and> (\<forall>i. unat (mem_map s1 i) + card {k. k < 1024 \<and> frame_ref (phys s (slot T k)) i} = unat (mem_map s i))"
    ..
  note s1 = F1 [THEN conjunct1] F1 [THEN conjunct2, THEN conjunct1]
    F1 [THEN conjunct2, THEN conjunct2, THEN conjunct2, THEN conjunct1]
    F1 [THEN conjunct2, THEN conjunct2, THEN conjunct2, THEN conjunct2]
  have out: "phys s1 a = phys s a" if "page_of a \<noteq> T" for a
  proof -
    have "\<forall>k<1024. a \<noteq> slot T k"
    proof (intro allI impI notI)
      fix k assume "k < 1024" "a = slot T k"
      then show False using page_of_slot [OF T(1), of k] that by simp
    qed
    moreover have "(\<forall>k<1024. a \<noteq> slot T k) \<longrightarrow> phys s1 a = phys s a" using s1(3) by (rule spec)
    ultimately show ?thesis by iprover
  qed
  have d: "phys s1 d = e" using out [of d] T(2) assms(1) by (auto simp: e_def dir_ok_def)
  have rel: "releasable s1 e" using assms(1,2) s1(2) by (auto simp: dir_ok_def e_def releasable_def)
  have nz: "mem_map s1 j \<noteq> 0" if "frame_ref e j" for j
    using assms(3) [rule_format, of j] s1(4) [rule_format, of j] that unfolding r by auto
  have p: "1 AND e \<noteq> 0" using assms(2) by (simp add: e_def)
  define s2 where "s2 = (if T < LOW_MEM then s1
      else s1\<lparr>mem_map := (mem_map s1)(MAP_NR T := mem_map s1 (MAP_NR T) - 1)\<rparr>)"
  have f2: "free_page T s1 = Some s2"
    using free_page_present [OF p rel nz] by (simp add: s2_def T_def)
  have "unat (mem_map s2 i) + dir_refs s d i = unat (mem_map s i)" for i
    using s1(4) [rule_format, of i] nz [of i] unat_dec [of "mem_map s1 i"] p unfolding r
    by (auto simp: s2_def frame_ref_def T_def)
  then show ?thesis
    using that [of s1 s2] s1(1,2) out d f2 by (simp add: s2_def T_def e_def)
qed

lemma free_dirs_spec:
  assumes "n \<le> 1024" "\<forall>k<n. dir_ok s (slot d k)" "tables_differ s d n"
    "\<forall>i. range_refs s d n i \<le> unat (mem_map s i)"
  shows "\<exists>s'. free_dirs n d s = Some s' \<and> HIGH_MEMORY s' = HIGH_MEMORY s
    \<and> (\<forall>k<n. 1 AND phys s' (slot d k) = 0)
    \<and> (\<forall>a. (\<forall>k<n. a \<noteq> slot d k \<and> (1 AND phys s (slot d k) \<noteq> 0 \<longrightarrow> page_of a \<noteq> page_of (phys s (slot d k))))
          \<longrightarrow> phys s' a = phys s a)
    \<and> (\<forall>i. unat (mem_map s' i) + range_refs s d n i = unat (mem_map s i))"
  using assms
proof (induction n arbitrary: d s)
  case 0
  then show ?case by (simp add: range_refs_def)
next
  case (Suc n)
  have ok: "dir_ok s d" using Suc.prems(2) by (force dest: spec [of _ 0])
  define e where "e = phys s d"
  have own: "slot d (Suc k) \<noteq> d" if "k < n" for k
    using slot_0_Suc [of n k d] Suc.prems(1) that by auto
  obtain s3 where step: "free_dirs (Suc n) d s = free_dirs n (d + 4) s3"
    and H: "HIGH_MEMORY s3 = HIGH_MEMORY s" and z: "1 AND phys s3 d = 0"
    and out: "\<forall>a. a \<noteq> d \<and> (1 AND e \<noteq> 0 \<longrightarrow> page_of a \<noteq> page_of e) \<longrightarrow> phys s3 a = phys s a"
    and m3: "\<forall>i. unat (mem_map s3 i) + dir_refs s d i = unat (mem_map s i)"
  proof (cases "1 AND e = 0")
    case True
    then show ?thesis using that [of s] by (simp add: e_def dir_refs_def)
  next
    case False
    have "\<forall>i. dir_refs s d i \<le> unat (mem_map s i)"
      using Suc.prems(4) unfolding range_refs_Suc by (metis add_leD1)
    with ok False obtain s1 s2 where *: "free_ptes 1024 (page_of e) s = Some s1" "phys s1 d = e"
      "free_page (page_of e) s1 = Some s2" "phys s2 = phys s1" "HIGH_MEMORY s2 = HIGH_MEMORY s"
      "\<forall>a. page_of a \<noteq> page_of e \<longrightarrow> phys s1 a = phys s a"
      "\<forall>i. unat (mem_map s2 i) + dir_refs s d i = unat (mem_map s i)"
      unfolding e_def by (rule free_one_dir)
    show ?thesis
      using that [of "s2\<lparr>phys := (phys s2)(d := 0)\<rparr>"] * False
      by (simp add: e_def [symmetric] page_of_commute)
  qed
  have entry: "phys s3 (slot d (Suc k)) = phys s (slot d (Suc k))" if "k < n" for k
    using out own [OF that] Suc.prems(2) ok that
    by (auto simp: dir_ok_def e_def)
  have table: "\<forall>l<1024. phys s3 (slot (page_of (phys s (slot d (Suc k)))) l) = phys s (slot (page_of (phys s (slot d (Suc k)))) l)"
    if "k < n" and "1 AND phys s (slot d (Suc k)) \<noteq> 0" for k
  proof -
    define T where "T = page_of (phys s (slot d (Suc k)))"
    have T: "page_of T = T" "T \<noteq> 0" "1 AND e \<noteq> 0 \<longrightarrow> T \<noteq> page_of e"
      using that Suc.prems(2) Suc.prems(3) [unfolded tables_differ_def, rule_format, of "Suc k" 0]
      by (auto simp: T_def dir_ok_def e_def)
    have "phys s3 (slot T l) = phys s (slot T l)" if "l < 1024" for l
      using out page_of_slot [OF T(1) that] T ok by (metis dir_ok_def)
    then show ?thesis by (simp add: T_def)
  qed
  have refs: "range_refs s3 (d + 4) n i = range_refs s (d + 4) n i" for i
    unfolding range_refs_def slot_Suc
    by (rule sum.cong) (simp_all add: dir_refs_cong [OF entry table])
  have pre1: "\<forall>k<n. dir_ok s3 (slot (d + 4) k)"
    unfolding slot_Suc using Suc.prems(2) H by (simp add: dir_ok_cong [OF _ entry _ table])
  have pre2: "tables_differ s3 (d + 4) n"
    using Suc.prems(3) entry by (auto simp: tables_differ_def slot_Suc)
  have pre3: "\<forall>i. range_refs s3 (d + 4) n i \<le> unat (mem_map s3 i)"
  proof
    fix i
    show "range_refs s3 (d + 4) n i \<le> unat (mem_map s3 i)"
      using Suc.prems(4) [rule_format, of i] m3 [rule_format, of i] unfolding range_refs_Suc refs by linarith
  qed
  from Suc.prems(1) have "n \<le> 1024" by simp
  from Suc.IH [OF this pre1 pre2 pre3] obtain s' where s':
    "free_dirs n (d + 4) s3 = Some s'" "HIGH_MEMORY s' = HIGH_MEMORY s3"
    "\<forall>k<n. 1 AND phys s' (slot d (Suc k)) = 0"
    "\<forall>a. (\<forall>k<n. a \<noteq> slot d (Suc k) \<and> (1 AND phys s3 (slot d (Suc k)) \<noteq> 0 \<longrightarrow> page_of a \<noteq> page_of (phys s3 (slot d (Suc k)))))
       \<longrightarrow> phys s' a = phys s3 a"
    "\<forall>i. unat (mem_map s' i) + range_refs s (d + 4) n i = unat (mem_map s3 i)"
    unfolding slot_Suc refs by blast
  have "1 AND phys s' d = 0"
  proof -
    have nt: "1 AND phys s3 (slot d (Suc k)) \<noteq> 0 \<longrightarrow> page_of d \<noteq> page_of (phys s3 (slot d (Suc k)))" if "k < n" for k
      using Suc.prems(2) [rule_format, of "Suc k"] ok entry [OF that] that by (auto simp: dir_ok_def)
    have "phys s' d = phys s3 d"
      using s'(4) [rule_format, of d] own nt by (metis (no_types))
    with z show ?thesis by simp
  qed
  then have "\<forall>k<Suc n. 1 AND phys s' (slot d k) = 0" using s'(3) by (auto simp: less_Suc_eq_0_disj)
  moreover have "phys s' a = phys s a"
    if "\<forall>k<Suc n. a \<noteq> slot d k \<and> (1 AND phys s (slot d k) \<noteq> 0 \<longrightarrow> page_of a \<noteq> page_of (phys s (slot d k)))" for a
  proof -
    have "phys s' a = phys s3 a" using s'(4) that entry by (auto simp: less_Suc_eq_0_disj)
    also have "\<dots> = phys s a" using out that by (auto simp: less_Suc_eq_0_disj e_def)
    finally show ?thesis .
  qed
  moreover have "unat (mem_map s' i) + range_refs s d (Suc n) i = unat (mem_map s i)" for i
    using s'(5) [rule_format, of i] m3 [rule_format, of i] unfolding range_refs_Suc by linarith
  ultimately show ?case using step s'(1,2) H by auto
qed

section \<open>Copying a range of directories\<close>

definition in_use :: "'a mm_state_scheme \<Rightarrow> addr \<Rightarrow> bool" where
  "in_use s a \<longleftrightarrow> page_of a < LOW_MEM \<or> mem_map s (MAP_NR (page_of a)) \<noteq> 0"

lemma in_use_not_fresh:
  assumes "in_use s a" "i < 3840" "mem_map s i = 0" shows "page_of a \<noteq> frame i"
  using assms frame_ge MAP_NR_frame by (auto simp: in_use_def)

definition headroom :: "'a mm_state_scheme \<Rightarrow> addr \<Rightarrow> nat \<Rightarrow> bool" where
  "headroom s d n \<longleftrightarrow>
     (\<forall>i. unat (mem_map s i) + range_refs s d n i + (if mem_map s i = 0 then 1 else 0) < 256)"

lemma cow_fresh: "(if 1 AND e = 0 then 0 else e AND - 3) = cow e"
  by (simp add: cow_def)

lemma frame_ref_cow0 [simp]: "frame_ref (cow e) i = frame_ref e i"
  using frame_ref_cow [of e i] by (simp add: cow_def frame_ref_def)

lemma releasable_cow [simp]: "releasable s e \<Longrightarrow> releasable s (cow e)"
  by (auto simp: releasable_def cow_def)

lemma releasable_protect [simp]: "releasable s (protect e) = releasable s e"
  by (auto simp: releasable_def protect_def)

lemma unat_add_u8: "unat (m :: u8) + n < 256 \<Longrightarrow> unat (m + of_nat n) = unat m + n"
  by (simp add: unat_word_ariths unat_of_nat)

text \<open>Copying one present directory entry into a fresh table.\<close>

lemma copy_one_dir:
  fixes s :: "'a mm_state_scheme"
  assumes "page_of fd = 0" "page_of td = 0" "1 AND phys s fd \<noteq> 0"
    and F: "F = page_of (phys s fd)" "F \<noteq> 0" "in_use s F"
    and g: "get_free_page s = (p, s1)" "p \<noteq> 0"
    and s3: "s3 = copy_ptes 1024 F p (s1\<lparr>phys := (phys s1)(td := p OR 7)\<rparr>)"
    and room: "\<forall>i. unat (mem_map s i) + card {l. l < 1024 \<and> frame_ref (phys s (slot F l)) i}
                  + (if mem_map s i = 0 then 1 else 0) < 256"
  obtains j where "j < 3840" "p = frame j" "mem_map s j = 0"
    "phys s3 td = p OR 7"
    "\<forall>l<1024. phys s3 (slot p l) = cow (phys s (slot F l))"
    "\<forall>l<1024. phys s3 (slot F l) = protect (phys s (slot F l))"
    "\<forall>a. a \<noteq> td \<and> page_of a \<noteq> F \<and> page_of a \<noteq> p \<longrightarrow> phys s3 a = phys s a"
    "HIGH_MEMORY s3 = HIGH_MEMORY s"
    "\<forall>i. unat (mem_map s3 i) = unat (mem_map s i)
        + card {l. l < 1024 \<and> frame_ref (phys s (slot F l)) i} + (if i = j then 1 else 0)"
  using g(1)
proof (cases rule: get_free_page_cases)
  case none
  with g(2) show ?thesis by simp
next
  case (page j)
  have pF: "page_of F = F" by (simp add: F(1))
  have pp: "page_of p = p" using page by (simp add: page_of_frame)
  have Fp: "F \<noteq> p" using in_use_not_fresh [OF F(3) page(1,2)] pF page(3) by simp
  let ?s2 = "s1\<lparr>phys := (phys s1)(td := p OR 7)\<rparr>"
  have e2: "phys ?s2 (slot F l) = phys s (slot F l)" "phys ?s2 (slot p l) = 0" if "l < 1024" for l
    using page_of_slot [OF pF that] page_of_slot [OF pp that] Fp F(2) assms(2) g(2) page(3)
    unfolding page(5) by (auto simp: fill_page_def)
  have ap: "apart 1024 F p"
    unfolding apart_def using page_of_slot [OF pF] page_of_slot [OF pp] Fp by metis
  note C = copy_ptes_spec [OF le_refl ap, of ?s2, folded s3]
  have C1: "\<forall>l<1024. phys s3 (slot p l) = cow (phys s (slot F l))"
  proof (intro allI impI)
    fix l :: nat assume l: "l < 1024"
    show "phys s3 (slot p l) = cow (phys s (slot F l))"
      using C [THEN conjunct1, THEN spec, THEN mp, OF l] unfolding e2 [OF l] cow_fresh .
  qed
  have C2: "\<forall>l<1024. phys s3 (slot F l) = protect (phys s (slot F l))"
  proof (intro allI impI)
    fix l :: nat assume l: "l < 1024"
    show "phys s3 (slot F l) = protect (phys s (slot F l))"
      using C [THEN conjunct2, THEN conjunct1, THEN spec, THEN mp, OF l] unfolding e2 [OF l] .
  qed
  have out: "phys s3 a = phys ?s2 a" if "page_of a \<noteq> F" "page_of a \<noteq> p" for a
    unfolding s3
  proof (rule copy_ptes_frame, intro allI impI conjI notI)
    fix k assume "k < (1024::nat)" "a = slot F k"
    then show False using page_of_slot [OF pF] that(1) by simp
  next
    fix k assume "k < (1024::nat)" "a = slot p k"
    then show False using page_of_slot [OF pp] that(2) by simp
  qed
  have C3: "\<forall>a. a \<noteq> td \<and> page_of a \<noteq> F \<and> page_of a \<noteq> p \<longrightarrow> phys s3 a = phys s a"
    using out page(3) unfolding page(5) by (simp add: fill_page_def)
  have C4: "phys s3 td = p OR 7"
    using out [of td] assms(2) F(2) g(2) by simp
  have cards: "{l. l < 1024 \<and> frame_ref (phys ?s2 (slot F l)) i} = {l. l < 1024 \<and> frame_ref (phys s (slot F l)) i}" for i
    using e2(1) by (intro Collect_cong conj_cong refl) simp
  have C5: "unat (mem_map s3 i) = unat (mem_map s i)
        + card {l. l < 1024 \<and> frame_ref (phys s (slot F l)) i} + (if i = j then 1 else 0)" for i
  proof -
    have m2: "unat (mem_map ?s2 i) = unat (mem_map s i) + (if i = j then 1 else 0)"
      using page(2) unfolding page(5) by simp
    have "mem_map s3 i = mem_map ?s2 i + of_nat (card {l. l < 1024 \<and> frame_ref (phys s (slot F l)) i})"
      using C [THEN conjunct2, THEN conjunct2, THEN spec, of i] unfolding cards .
    moreover have "unat (mem_map ?s2 i) + card {l. l < 1024 \<and> frame_ref (phys s (slot F l)) i} < 256"
      using room [THEN spec, of i] page(2) unfolding m2 by (cases "i = j") (simp_all split: if_splits)
    ultimately have "unat (mem_map s3 i) = unat (mem_map ?s2 i) + card {l. l < 1024 \<and> frame_ref (phys s (slot F l)) i}"
      by (simp only: unat_add_u8)
    then show ?thesis unfolding m2 by simp
  qed
  have C6: "HIGH_MEMORY s3 = HIGH_MEMORY s" unfolding s3 page(5) by simp
  show ?thesis using that [OF page(1,3,2) C4 C1 C2 C3 C6] C5 by blast
qed


lemma cow_protect [simp]: "cow (protect e) = cow e"
  by (auto simp: cow_def protect_def and.assoc)

lemma protect_protect [simp]: "protect (protect e) = protect e"
  by (auto simp: protect_def and.assoc)

definition copy_pre :: "'a mm_state_scheme \<Rightarrow> addr \<Rightarrow> addr \<Rightarrow> nat \<Rightarrow> bool" where
  "copy_pre s fd td n \<longleftrightarrow> mm_ok s \<and> n \<le> 1024 \<and> apart n fd td \<and> headroom s fd n
     \<and> (\<forall>k<n. page_of (slot td k) = 0 \<and> 1 AND phys s (slot td k) = 0)
     \<and> (\<forall>k<n. dir_ok s (slot fd k)
           \<and> (1 AND phys s (slot fd k) \<noteq> 0 \<longrightarrow> in_use s (page_of (phys s (slot fd k)))))"

definition table_copied :: "'a mm_state_scheme \<Rightarrow> 'a mm_state_scheme \<Rightarrow> addr \<Rightarrow> addr \<Rightarrow> bool" where
  "table_copied s s' f t \<longleftrightarrow>
     (1 AND phys s' t \<noteq> 0 \<longleftrightarrow> 1 AND phys s f \<noteq> 0)
     \<and> (1 AND phys s f \<noteq> 0 \<longrightarrow> (\<forall>l<1024.
          phys s' (slot (page_of (phys s' t)) l) = cow (phys s (slot (page_of (phys s f)) l))
        \<and> phys s' (slot (page_of (phys s f)) l) = protect (phys s (slot (page_of (phys s f)) l))))"

definition copy_post ::
  "'a mm_state_scheme \<Rightarrow> addr \<Rightarrow> addr \<Rightarrow> nat \<Rightarrow> int \<Rightarrow> 'a mm_state_scheme \<Rightarrow> bool" where
  "copy_post s fd td n r s' \<longleftrightarrow> HIGH_MEMORY s' = HIGH_MEMORY s \<and> mm_ok s'
     \<and> (\<forall>k<n. dir_ok s' (slot td k)) \<and> tables_differ s' td n
     \<and> (\<forall>k<n. 1 AND phys s' (slot td k) \<noteq> 0 \<longrightarrow> (\<exists>j<3840. phys s' (slot td k) = frame j OR 7 \<and> mem_map s j = 0))
     \<and> (\<forall>i. unat (mem_map s' i) = unat (mem_map s i) + range_refs s' td n i)
     \<and> (\<forall>a. in_use s a \<and> (\<forall>k<n. a \<noteq> slot td k \<and> (1 AND phys s (slot fd k) \<noteq> 0 \<longrightarrow> page_of a \<noteq> page_of (phys s (slot fd k))))
           \<longrightarrow> phys s' a = phys s a)
     \<and> (r = 0 \<or> r = -1)
     \<and> (r = 0 \<longrightarrow> (\<forall>k<n. table_copied s s' (slot fd k) (slot td k)))"

lemma copy_post_stop:
  assumes "copy_pre s fd td n" "r = -1 \<or> n = 0 \<and> r = 0"
  shows "copy_post s fd td n r s"
proof -
  have z: "dir_refs s (slot td k) i = 0" if "k < n" for k i
    using assms(1) that by (simp add: copy_pre_def dir_refs_def)
  have "range_refs s td n i = 0" for i
    using z by (simp add: range_refs_def)
  with assms show ?thesis
    by (auto simp: copy_pre_def copy_post_def dir_ok_def tables_differ_def)
qed

text \<open>One round of the loop re-establishes the precondition for the rest of the range.\<close>

lemma frame_or7: "j < 3840 \<Longrightarrow> page_of (frame j OR 7) = frame j"
  by (simp add: page_of_or7 page_of_frame)

lemma frame_ref_or7: "j < 3840 \<Longrightarrow> frame_ref (frame j OR 7) i \<longleftrightarrow> i = j"
  using frame_or7 [of j] present_or7 [of "frame j"] frame_ge [of j] MAP_NR_frame [of j]
  by (auto simp: frame_ref_def)

lemma apart_0_Suc: "apart (Suc n) f t \<Longrightarrow> k < n \<Longrightarrow> slot f (Suc k) \<noteq> t \<and> slot t (Suc k) \<noteq> f"
  by (force simp: apart_def dest: spec [of _ 0] spec [of _ "Suc k"])

lemma copy_pre_shift:
  assumes "copy_pre s fd td (Suc n)" "1 AND phys s fd = 0"
  shows "copy_pre s (fd + 4) (td + 4) n"
  using assms by (auto simp: copy_pre_def slot_Suc headroom_def range_refs_Suc dir_refs_def intro: apart_Suc)

lemma copy_post_extend_absent:
  assumes pre: "copy_pre s fd td (Suc n)" and "1 AND phys s fd = 0"
    and post: "copy_post s (fd + 4) (td + 4) n r s'"
  shows "copy_post s fd td (Suc n) r s'"
proof -
  have td: "page_of td = 0" "1 AND phys s td = 0" using pre by (auto simp: copy_pre_def dest: spec [of _ 0])
  have own: "slot td (Suc k) \<noteq> td" if "k < n" for k
    using slot_0_Suc [of n k td] pre that by (auto simp: copy_pre_def)
  have nt: "1 AND phys s (slot fd (Suc k)) \<noteq> 0 \<longrightarrow> page_of td \<noteq> page_of (phys s (slot fd (Suc k)))" if "k < n" for k
    using pre that td by (auto simp: copy_pre_def dir_ok_def)
  have "in_use s td" using td by (simp add: in_use_def LOW_MEM_def)
  moreover have "\<forall>k<n. td \<noteq> slot td (Suc k) \<and> (1 AND phys s (slot fd (Suc k)) \<noteq> 0 \<longrightarrow> page_of td \<noteq> page_of (phys s (slot fd (Suc k))))"
    using own nt by metis
  ultimately have "phys s' td = phys s td"
    using post unfolding copy_post_def slot_Suc by blast
  with td have z: "1 AND phys s' td = 0" by simp
  show ?thesis
    using post assms(2) z td(1) unfolding copy_post_def
    by (auto simp: slot_Suc less_Suc_eq_0_disj range_refs_Suc dir_refs_def dir_ok_def tables_differ_def table_copied_def)
qed


definition dir_copied :: "'a mm_state_scheme \<Rightarrow> addr \<Rightarrow> addr \<Rightarrow> nat \<Rightarrow> 'a mm_state_scheme \<Rightarrow> bool" where
  "dir_copied s fd td j s3 \<longleftrightarrow> j < 3840 \<and> mem_map s j = 0 \<and> phys s3 td = frame j OR 7
     \<and> (\<forall>l<1024. phys s3 (slot (frame j) l) = cow (phys s (slot (page_of (phys s fd)) l)))
     \<and> (\<forall>l<1024. phys s3 (slot (page_of (phys s fd)) l) = protect (phys s (slot (page_of (phys s fd)) l)))
     \<and> (\<forall>a. a \<noteq> td \<and> page_of a \<noteq> page_of (phys s fd) \<and> page_of a \<noteq> frame j \<longrightarrow> phys s3 a = phys s a)
     \<and> HIGH_MEMORY s3 = HIGH_MEMORY s
     \<and> (\<forall>i. unat (mem_map s3 i) = unat (mem_map s i)
          + card {l. l < 1024 \<and> frame_ref (phys s (slot (page_of (phys s fd)) l)) i} + (if i = j then 1 else 0))"

lemma dir_copied_intro:
  assumes pre: "copy_pre s fd td (Suc n)" and pr: "1 AND phys s fd \<noteq> 0"
    and g: "get_free_page s = (p, s1)" "p \<noteq> 0"
  shows "\<exists>j. dir_copied s fd td j
      (copy_ptes 1024 (page_of (phys s fd)) p (s1\<lparr>phys := (phys s1)(td := p OR 7)\<rparr>))"
proof -
  define F where "F = page_of (phys s fd)"
  have a: "page_of fd = 0" "page_of td = 0" "F \<noteq> 0" "in_use s F"
    using pre pr by (auto simp: copy_pre_def dir_ok_def F_def dest: spec [of _ 0])
  have room: "\<forall>i. unat (mem_map s i) + card {l. l < 1024 \<and> frame_ref (phys s (slot F l)) i}
                  + (if mem_map s i = 0 then 1 else 0) < 256"
  proof
    fix i
    have "card {l. l < 1024 \<and> frame_ref (phys s (slot F l)) i} \<le> range_refs s fd (Suc n) i"
      using pr by (simp add: range_refs_Suc dir_refs_def F_def)
    with pre show "unat (mem_map s i) + card {l. l < 1024 \<and> frame_ref (phys s (slot F l)) i}
                  + (if mem_map s i = 0 then 1 else 0) < 256"
      unfolding copy_pre_def headroom_def by (metis (no_types, lifting) add_le_mono1 le_less_trans nat_add_left_cancel_le)
  qed
  show ?thesis
    by (rule copy_one_dir [OF a(1,2) pr F_def a(3,4) g refl room])
      (unfold dir_copied_def F_def, blast)
qed

lemma dir_copied_count:
  "dir_copied s fd td j s3 \<Longrightarrow> unat (mem_map s3 i) = unat (mem_map s i)
          + card {l. l < 1024 \<and> frame_ref (phys s (slot (page_of (phys s fd)) l)) i} + (if i = j then 1 else 0)"
  unfolding dir_copied_def by iprover

lemma dir_copied_out:
  "dir_copied s fd td j s3 \<Longrightarrow> a \<noteq> td \<Longrightarrow> page_of a \<noteq> page_of (phys s fd) \<Longrightarrow> page_of a \<noteq> frame j \<Longrightarrow> phys s3 a = phys s a"
  unfolding dir_copied_def by iprover

lemma dir_copied_new:
  "dir_copied s fd td j s3 \<Longrightarrow> l < 1024 \<Longrightarrow> phys s3 (slot (frame j) l) = cow (phys s (slot (page_of (phys s fd)) l))"
  "dir_copied s fd td j s3 \<Longrightarrow> l < 1024 \<Longrightarrow>
     phys s3 (slot (page_of (phys s fd)) l) = protect (phys s (slot (page_of (phys s fd)) l))"
  unfolding dir_copied_def by iprover+

lemma dir_copied_basic:
  assumes "dir_copied s fd td j s3"
  shows "j < 3840" "mem_map s j = 0" "phys s3 td = frame j OR 7" "HIGH_MEMORY s3 = HIGH_MEMORY s"
  using assms unfolding dir_copied_def by iprover+

lemma dir_copied_grows: "dir_copied s fd td j s3 \<Longrightarrow> unat (mem_map s i) \<le> unat (mem_map s3 i)"
  by (simp add: dir_copied_count)

lemma dir_copied_nonzero: "dir_copied s fd td j s3 \<Longrightarrow> mem_map s i \<noteq> 0 \<Longrightarrow> mem_map s3 i \<noteq> 0"
  using dir_copied_grows [of s fd td j s3 i] by (metis le_zero_eq unat_eq_0)

lemma dir_copied_in_use:
  assumes "dir_copied s fd td j s3" "in_use s a" shows "in_use s3 a"
  using assms(2) dir_copied_nonzero [OF assms(1)] unfolding in_use_def by iprover

lemma dir_copied_entry:
  assumes d: "dir_copied s fd td j s3" and "page_of (phys s fd) \<noteq> 0" "page_of a = 0" "a \<noteq> td"
  shows "phys s3 a = phys s a"
  using dir_copied_out [OF d assms(4)] assms(2,3) frame_nz [OF dir_copied_basic(1) [OF d]] by metis

lemma dir_copied_table:
  assumes d: "dir_copied s fd td j s3" and T: "page_of T = T" "T \<noteq> 0" "in_use s T" "page_of td = 0"
    and l: "l < 1024"
  shows "phys s3 (slot T l) = (if T = page_of (phys s fd) then protect (phys s (slot T l)) else phys s (slot T l))"
proof (cases "T = page_of (phys s fd)")
  case True
  then show ?thesis using dir_copied_new(2) [OF d l] by simp
next
  case False
  have "T \<noteq> frame j" using in_use_not_fresh [OF T(3) dir_copied_basic(1,2) [OF d]] T(1) by simp
  moreover have "page_of (slot T l) = T" by (rule page_of_slot [OF T(1) l])
  moreover have "slot T l \<noteq> td" using calculation(2) T(2,4) by metis
  ultimately show ?thesis using dir_copied_out [OF d, of "slot T l"] False by simp
qed

lemma copy_pre_next:
  assumes pre: "copy_pre s fd td (Suc n)" and pr: "1 AND phys s fd \<noteq> 0"
    and d: "dir_copied s fd td j s3"
  shows "copy_pre s3 (fd + 4) (td + 4) n"
proof -
  have F: "page_of (phys s fd) \<noteq> 0" and td: "page_of td = 0" and n: "n < 1024"
    and ap: "apart (Suc n) fd td"
    using pre pr by (auto simp: copy_pre_def dir_ok_def dest: spec [of _ 0])
  have H: "HIGH_MEMORY s3 = HIGH_MEMORY s" using d by (simp add: dir_copied_def)
  have fe: "phys s3 (slot fd (Suc k)) = phys s (slot fd (Suc k))" if "k < n" for k
    using dir_copied_entry [OF d F] pre that apart_0_Suc [OF ap that] by (auto simp: copy_pre_def dir_ok_def)
  have te: "phys s3 (slot td (Suc k)) = phys s (slot td (Suc k))" if "k < n" for k
    using dir_copied_entry [OF d F] pre that slot_0_Suc [OF n that, of td] by (auto simp: copy_pre_def)
  have tbl: "phys s3 (slot (page_of (phys s (slot fd (Suc k)))) l) \<in>
       {phys s (slot (page_of (phys s (slot fd (Suc k)))) l), protect (phys s (slot (page_of (phys s (slot fd (Suc k)))) l))}"
    if "k < n" "1 AND phys s (slot fd (Suc k)) \<noteq> 0" "l < 1024" for k l
    using dir_copied_table [OF d page_of_idem _ _ td that(3), of "phys s (slot fd (Suc k))"] pre that
    by (auto simp: copy_pre_def dir_ok_def)
  have ok: "dir_ok s3 (slot fd (Suc k))" if "k < n" for k
  proof -
    have old: "dir_ok s (slot fd (Suc k))" using pre that by (simp add: copy_pre_def)
    have "releasable s3 (phys s3 (slot (page_of (phys s (slot fd (Suc k)))) l))"
      if p: "1 AND phys s (slot fd (Suc k)) \<noteq> 0" and l: "l < 1024" for l
    proof -
      have "releasable s (phys s (slot (page_of (phys s (slot fd (Suc k)))) l))"
        using old p l unfolding dir_ok_def by iprover
      then show ?thesis using tbl [OF \<open>k < n\<close> p l] H by (auto simp: releasable_def)
    qed
    with old H show ?thesis unfolding dir_ok_def fe [OF that] releasable_def by simp
  qed
  have refs: "dir_refs s3 (slot fd (Suc k)) i = dir_refs s (slot fd (Suc k)) i" if "k < n" for k i
  proof (cases "1 AND phys s (slot fd (Suc k)) = 0")
    case False
    have "frame_ref (phys s3 (slot (page_of (phys s (slot fd (Suc k)))) l)) i
        = frame_ref (phys s (slot (page_of (phys s (slot fd (Suc k)))) l)) i" if "l < 1024" for l
      using tbl [OF \<open>k < n\<close> False that] by auto
    then have "{l. l < 1024 \<and> frame_ref (phys s3 (slot (page_of (phys s (slot fd (Suc k)))) l)) i}
        = {l. l < 1024 \<and> frame_ref (phys s (slot (page_of (phys s (slot fd (Suc k)))) l)) i}"
      by (intro Collect_cong conj_cong refl)
    then show ?thesis by (simp add: dir_refs_def fe [OF that])
  qed (simp add: dir_refs_def fe [OF that])
  have rr: "range_refs s3 (fd + 4) n i = range_refs s (fd + 4) n i" for i
    unfolding range_refs_def slot_Suc by (rule sum.cong) (simp_all add: refs)
  have "headroom s3 (fd + 4) n"
    unfolding headroom_def rr
  proof
    fix i
    have "unat (mem_map s i) + (card {l. l < 1024 \<and> frame_ref (phys s (slot (page_of (phys s fd)) l)) i}
          + range_refs s (fd + 4) n i) + (if mem_map s i = 0 then 1 else 0) < 256"
      using pre pr unfolding copy_pre_def headroom_def range_refs_Suc dir_refs_def
      by (auto dest!: spec [of _ i] split: if_splits)
    moreover note dir_copied_count [OF d, of i] dir_copied_basic(2) [OF d] dir_copied_nonzero [OF d, of i]
    ultimately show "unat (mem_map s3 i) + range_refs s (fd + 4) n i + (if mem_map s3 i = 0 then 1 else 0) < 256"
      by (cases "i = j"; cases "mem_map s3 i = 0"; cases "mem_map s i = 0") (simp_all split: if_splits)
  qed
  moreover have "mm_ok s3"
    using pre H dir_copied_nonzero [OF d] unfolding copy_pre_def mm_ok_def by simp
  ultimately show ?thesis
    using pre ok te fe dir_copied_in_use [OF d]
    by (auto simp: copy_pre_def slot_Suc intro: apart_Suc)
qed


lemma copy_postD:
  assumes "copy_post s fd td n r s'"
  shows "HIGH_MEMORY s' = HIGH_MEMORY s" "mm_ok s'" "\<forall>k<n. dir_ok s' (slot td k)" "tables_differ s' td n"
    "\<forall>k<n. 1 AND phys s' (slot td k) \<noteq> 0 \<longrightarrow> (\<exists>j<3840. phys s' (slot td k) = frame j OR 7 \<and> mem_map s j = 0)"
    "unat (mem_map s' i) = unat (mem_map s i) + range_refs s' td n i"
    "in_use s a \<Longrightarrow> (\<And>k. k < n \<Longrightarrow> a \<noteq> slot td k) \<Longrightarrow>
      (\<And>k. k < n \<Longrightarrow> 1 AND phys s (slot fd k) \<noteq> 0 \<Longrightarrow> page_of a \<noteq> page_of (phys s (slot fd k))) \<Longrightarrow>
      phys s' a = phys s a"
    "r = 0 \<or> r = -1"
    "r = 0 \<Longrightarrow> k < n \<Longrightarrow> table_copied s s' (slot fd k) (slot td k)"
proof -
  note P = assms [unfolded copy_post_def]
  show "HIGH_MEMORY s' = HIGH_MEMORY s" using P by (elim conjE)
  show "mm_ok s'" using P by (elim conjE)
  show "\<forall>k<n. dir_ok s' (slot td k)" using P by (elim conjE)
  show "tables_differ s' td n" using P by (elim conjE)
  show "\<forall>k<n. 1 AND phys s' (slot td k) \<noteq> 0 \<longrightarrow> (\<exists>j<3840. phys s' (slot td k) = frame j OR 7 \<and> mem_map s j = 0)"
    using P by (elim conjE)
  show "unat (mem_map s' i) = unat (mem_map s i) + range_refs s' td n i"
    using P by (elim conjE) (erule spec)
  show "r = 0 \<or> r = -1" using P by (elim conjE)
  show "r = 0 \<Longrightarrow> k < n \<Longrightarrow> table_copied s s' (slot fd k) (slot td k)"
    using P by (elim conjE) iprover
  assume a: "in_use s a" "\<And>k. k < n \<Longrightarrow> a \<noteq> slot td k"
    "\<And>k. k < n \<Longrightarrow> 1 AND phys s (slot fd k) \<noteq> 0 \<Longrightarrow> page_of a \<noteq> page_of (phys s (slot fd k))"
  from P have "in_use s a \<and> (\<forall>k<n. a \<noteq> slot td k \<and> (1 AND phys s (slot fd k) \<noteq> 0 \<longrightarrow> page_of a \<noteq> page_of (phys s (slot fd k))))
           \<longrightarrow> phys s' a = phys s a" by (elim conjE) (erule spec)
  with a show "phys s' a = phys s a" by blast
qed

lemma slot_in_use: "in_use s T \<Longrightarrow> page_of T = T \<Longrightarrow> l < 1024 \<Longrightarrow> in_use s (slot T l)"
  by (simp add: in_use_def page_of_slot)

lemma table_copiedI:
  assumes "1 AND phys s f \<noteq> 0" "1 AND phys s' t \<noteq> 0"
    and "\<And>l. l < 1024 \<Longrightarrow> phys s' (slot (page_of (phys s' t)) l) = cow (phys s (slot (page_of (phys s f)) l))"
    and "\<And>l. l < 1024 \<Longrightarrow> phys s' (slot (page_of (phys s f)) l) = protect (phys s (slot (page_of (phys s f)) l))"
  shows "table_copied s s' f t"
  using assms unfolding table_copied_def by iprover

lemma table_copiedD:
  assumes "table_copied s s' f t"
  shows "1 AND phys s' t \<noteq> 0 \<longleftrightarrow> 1 AND phys s f \<noteq> 0"
    "1 AND phys s f \<noteq> 0 \<Longrightarrow> l < 1024 \<Longrightarrow> phys s' (slot (page_of (phys s' t)) l) = cow (phys s (slot (page_of (phys s f)) l))"
    "1 AND phys s f \<noteq> 0 \<Longrightarrow> l < 1024 \<Longrightarrow> phys s' (slot (page_of (phys s f)) l) = protect (phys s (slot (page_of (phys s f)) l))"
  using assms unfolding table_copied_def by (iprover, iprover, iprover)

lemma copy_post_extend_present:
  assumes pre: "copy_pre s fd td (Suc n)" and pr: "1 AND phys s fd \<noteq> 0"
    and d: "dir_copied s fd td j s3"
    and post: "copy_post s3 (fd + 4) (td + 4) n r s'"
  shows "copy_post s fd td (Suc n) r s'"
proof -
  note P = copy_postD [OF post, unfolded slot_Suc]
  note j = dir_copied_basic [OF d]
  define F where "F = page_of (phys s fd)"
  have F: "page_of F = F" "F \<noteq> 0" "in_use s F" and td: "page_of td = 0" and n: "n < 1024"
    and ap: "apart (Suc n) fd td"
    using pre pr by (auto simp: copy_pre_def dir_ok_def F_def dest: spec [of _ 0])
  have entry: "phys s3 (slot fd (Suc k)) = phys s (slot fd (Suc k))" if "k < n" for k
    using dir_copied_entry [OF d] F pre that apart_0_Suc [OF ap that] by (auto simp: copy_pre_def dir_ok_def F_def)
  have own: "td \<noteq> slot td (Suc k)" if "k < n" for k
    using slot_0_Suc [OF n that, of td] by auto
  have old: "page_of (phys s (slot fd (Suc k))) \<noteq> 0 \<and> in_use s (page_of (phys s (slot fd (Suc k))))"
    if "k < n" "1 AND phys s (slot fd (Suc k)) \<noteq> 0" for k
    using pre that by (auto simp: copy_pre_def dir_ok_def)
    have td': "phys s' td = frame j OR 7"
  proof -
    have "in_use s3 td" using td by (simp add: in_use_def LOW_MEM_def)
    then have "phys s' td = phys s3 td"
      using P(7) [of td] own old td entry by metis
    then show ?thesis using j by simp
  qed
  have new_used: "in_use s3 (frame j)"
    using dir_copied_count [OF d, of j] unat_eq_0 j(1) by (auto simp: in_use_def page_of_frame MAP_NR_frame)
  have not_old: "page_of (phys s (slot fd (Suc k))) \<noteq> frame j"
    if "k < n" "1 AND phys s (slot fd (Suc k)) \<noteq> 0" for k
    using in_use_not_fresh [OF _ j(1,2), of "page_of (phys s (slot fd (Suc k)))"] old [OF that] by simp
  have td_entry: "slot td (Suc k) \<noteq> slot T l" if "k < n" "l < 1024" "page_of T = T" "T \<noteq> 0" for T l k
  proof -
    have "page_of (slot td (Suc k)) = 0" using pre that by (simp add: copy_pre_def)
    then show ?thesis using page_of_slot [OF that(3,2)] that(4) by auto
  qed
  have new': "phys s' (slot (frame j) l) = cow (phys s (slot F l))" if "l < 1024" for l
  proof -
    have "in_use s3 (slot (frame j) l)" using new_used page_of_frame [OF j(1)] that by (rule slot_in_use)
    moreover have "page_of (slot (frame j) l) = frame j" using page_of_frame [OF j(1)] that by (rule page_of_slot)
    ultimately have "phys s' (slot (frame j) l) = phys s3 (slot (frame j) l)"
      using P(7) [of "slot (frame j) l"] td_entry [OF _ that page_of_frame [OF j(1)] frame_nz [OF j(1)]] not_old entry
      by metis
    then show ?thesis using dir_copied_new(1) [OF d that] by (simp add: F_def)
  qed
  have F': "phys s' (slot F l) = protect (phys s (slot F l))" if "l < 1024" "r = 0" for l
  proof (cases "\<exists>k<n. 1 AND phys s (slot fd (Suc k)) \<noteq> 0 \<and> page_of (phys s (slot fd (Suc k))) = F")
    case True
    then obtain k where k: "k < n" "1 AND phys s (slot fd (Suc k)) \<noteq> 0" "page_of (phys s (slot fd (Suc k))) = F" by iprover
    from table_copiedD(3) [OF P(9) [OF that(2) k(1)], OF _ that(1)] k entry [OF k(1)]
    have "phys s' (slot F l) = protect (phys s3 (slot F l))" by simp
    then show ?thesis using dir_copied_new(2) [OF d that(1)] by (simp add: F_def)
  next
    case False
    have "in_use s3 (slot F l)" using slot_in_use [OF dir_copied_in_use [OF d F(3)] F(1) that(1)] .
    then have "phys s' (slot F l) = phys s3 (slot F l)"
      using P(7) [of "slot F l"] td_entry [OF _ that(1) F(1,2)] False entry page_of_slot [OF F(1) that(1)] by metis
    then show ?thesis using dir_copied_new(2) [OF d that(1)] by (simp add: F_def)
  qed
  have pj: "page_of (frame j OR 7) = frame j" and prj: "1 AND (frame j OR 7) \<noteq> 0"
    using frame_or7 [OF j(1)] present_or7 [of "frame j"] by simp_all
  have refs: "dir_refs s' td i = card {l. l < 1024 \<and> frame_ref (phys s (slot F l)) i} + (if i = j then 1 else 0)" for i
  proof -
    have "{l. l < 1024 \<and> frame_ref (phys s' (slot (frame j) l)) i} = {l. l < 1024 \<and> frame_ref (phys s (slot F l)) i}"
      by (intro Collect_cong conj_cong refl) (simp add: new')
    then show ?thesis unfolding dir_refs_def td' pj by (simp add: prj frame_ref_or7 [OF j(1)])
  qed
  have counts: "unat (mem_map s' i) = unat (mem_map s i) + range_refs s' td (Suc n) i" for i
    using P(6) [of i] dir_copied_count [OF d, of i] by (simp add: range_refs_Suc refs F_def)
  have high: "frame j < HIGH_MEMORY s"
    using pre j(1,2) by (auto simp: copy_pre_def mm_ok_def)
  have Fok: "\<forall>l<1024. releasable s (phys s (slot F l))"
    using pre pr by (auto simp: copy_pre_def dir_ok_def F_def dest: spec [of _ 0])
  have H: "HIGH_MEMORY s' = HIGH_MEMORY s" using P(1) j(4) by simp
  have ok0: "dir_ok s' td"
    unfolding dir_ok_def td' pj using Fok H high frame_nz [OF j(1)] td
    by (auto simp: new' releasable_def pj cow_def)
  have fresh: "\<exists>j'<3840. phys s' (slot td (Suc k)) = frame j' OR 7 \<and> mem_map s j' = 0 \<and> j' \<noteq> j"
    if "k < n" "1 AND phys s' (slot td (Suc k)) \<noteq> 0" for k
  proof -
    from P(5) that obtain j' where j': "j' < 3840" "phys s' (slot td (Suc k)) = frame j' OR 7" "mem_map s3 j' = 0" by iprover
    then have "mem_map s j' = 0" using dir_copied_nonzero [OF d] by metis
    moreover have "mem_map s3 j \<noteq> 0" using dir_copied_count [OF d, of j] unat_eq_0 by auto
    ultimately show ?thesis using j' by metis
  qed
  have differ: "tables_differ s' td (Suc n)"
  proof -
    have ne: "page_of (phys s' (slot td (Suc k))) \<noteq> frame j" if "k < n" "1 AND phys s' (slot td (Suc k)) \<noteq> 0" for k
      using fresh [OF that] frame_or7 frame_inj j(1) by metis
    show ?thesis
      unfolding tables_differ_def
    proof (intro allI impI)
      fix k l assume "k < Suc n" "l < Suc n"
        "k \<noteq> l \<and> 1 AND phys s' (slot td k) \<noteq> 0 \<and> 1 AND phys s' (slot td l) \<noteq> 0"
      then show "page_of (phys s' (slot td k)) \<noteq> page_of (phys s' (slot td l))"
        using P(4) ne [of "k - 1"] ne [of "l - 1"]
        by (cases k; cases l) (auto simp: tables_differ_def slot_Suc td' pj)
    qed
  qed
  have frame: "phys s' a = phys s a"
    if a: "in_use s a" "\<forall>k<Suc n. a \<noteq> slot td k \<and> (1 AND phys s (slot fd k) \<noteq> 0 \<longrightarrow> page_of a \<noteq> page_of (phys s (slot fd k)))" for a
  proof -
    have "phys s' a = phys s3 a"
      using P(7) [OF dir_copied_in_use [OF d a(1)]] a(2) entry by (metis Suc_less_eq)
    moreover have "a \<noteq> td" "page_of a \<noteq> F" using a(2) pr by (auto simp: F_def dest: spec [of _ 0])
    moreover have "page_of a \<noteq> frame j" using a(1) j(1,2) by (rule in_use_not_fresh)
    ultimately show ?thesis using dir_copied_out [OF d] by (simp add: F_def)
  qed
  have copied0: "r = 0 \<Longrightarrow> table_copied s s' fd td"
    by (rule table_copiedI) (use pr td' prj pj new' F' in \<open>simp_all add: F_def\<close>)
  have copied: "table_copied s s' (slot fd (Suc k)) (slot td (Suc k))" if "r = 0" "k < n" for k
  proof (cases "1 AND phys s (slot fd (Suc k)) = 0")
    case True
    then show ?thesis using table_copiedD(1) [OF P(9) [OF that]] entry [OF that(2)] by (simp add: table_copied_def)
  next
    case False
    let ?T = "page_of (phys s (slot fd (Suc k)))"
    note tc = table_copiedD [OF P(9) [OF that], unfolded entry [OF that(2)]]
    have t3: "phys s3 (slot ?T l) = (if ?T = F then protect (phys s (slot ?T l)) else phys s (slot ?T l))" if "l < 1024" for l
      using dir_copied_table [OF d page_of_idem _ _ td that] old [OF \<open>k < n\<close> False] by (simp add: F_def)
    show ?thesis
      by (rule table_copiedI) (use False tc(1) tc(2) [OF False] tc(3) [OF False] t3 in \<open>simp_all split: if_splits\<close>)
  qed
  show ?thesis
    unfolding copy_post_def
  proof (intro conjI)
    show "\<forall>k<Suc n. dir_ok s' (slot td k)" using P(3) ok0 by (simp add: less_Suc_eq_0_disj all_conj_distrib) blast
    show "\<forall>k<Suc n. 1 AND phys s' (slot td k) \<noteq> 0 \<longrightarrow> (\<exists>j<3840. phys s' (slot td k) = frame j OR 7 \<and> mem_map s j = 0)"
    proof (intro allI impI)
      fix k assume "k < Suc n" "1 AND phys s' (slot td k) \<noteq> 0"
      then show "\<exists>j<3840. phys s' (slot td k) = frame j OR 7 \<and> mem_map s j = 0"
        using fresh td' j(1,2) by (cases k) (simp_all, metis+)
    qed
    show "r = 0 \<longrightarrow> (\<forall>k<Suc n. table_copied s s' (slot fd k) (slot td k))"
      using copied0 copied by (auto simp: less_Suc_eq_0_disj)
  qed (use H P(2,8) differ counts frame in \<open>simp_all\<close>)
qed

lemma copy_dirs_spec:
  assumes "copy_pre s fd td n"
  shows "\<exists>r s'. copy_dirs n 1024 fd td s = Some (r, s') \<and> copy_post s fd td n r s'"
  using assms
proof (induction n arbitrary: fd td s)
  case 0
  then show ?case using copy_post_stop [OF "0.prems"] by simp
next
  case (Suc n)
  have td: "1 AND phys s td = 0" using Suc.prems by (auto simp: copy_pre_def dest: spec [of _ 0])
  show ?case
  proof (cases "1 AND phys s fd = 0")
    case True
    from Suc.IH [OF copy_pre_shift [OF Suc.prems True]] obtain r s' where
      "copy_dirs n 1024 (fd + 4) (td + 4) s = Some (r, s')" "copy_post s (fd + 4) (td + 4) n r s'" by iprover
    then show ?thesis using True td copy_post_extend_absent [OF Suc.prems True] by auto
  next
    case False
    obtain p s1 where g: "get_free_page s = (p, s1)" by (cases "get_free_page s")
    show ?thesis
    proof (cases "p = 0")
      case True
      have "s1 = s" using pa.alloc_none g True by metis
      then show ?thesis using True False td g copy_post_stop [OF Suc.prems] by simp
    next
      case p: False
      define s3 where "s3 = copy_ptes 1024 (page_of (phys s fd)) p (s1\<lparr>phys := (phys s1)(td := p OR 7)\<rparr>)"
      obtain j where d: "dir_copied s fd td j s3"
        using dir_copied_intro [OF Suc.prems False g p] unfolding s3_def by iprover
      from Suc.IH [OF copy_pre_next [OF Suc.prems False d]] obtain r s' where
        *: "copy_dirs n 1024 (fd + 4) (td + 4) s3 = Some (r, s')" "copy_post s3 (fd + 4) (td + 4) n r s'" by iprover
      have "copy_dirs (Suc n) 1024 fd td s = Some (r, s')"
        using False td g p *(1) by (simp add: s3_def page_of_commute)
      then show ?thesis using copy_post_extend_present [OF Suc.prems False d *(2)] by blast
    qed
  qed
qed

end
