(* ===== verification/Paging.thy ===== *)
theory Paging
  imports Page_Tables
begin

text \<open>
  What the page-table routines promise: allocation, sharing at \<open>fork\<close>, release at \<open>exit\<close>,
  copy on write, and the address translation that the MMU performs on the tables.
\<close>

section \<open>The translation of a linear address\<close>

definition dir_slot :: "addr \<Rightarrow> addr" where
  "dir_slot a = drop_bit 20 a AND 0xffc"

definition table_slot :: "addr \<Rightarrow> addr" where
  "table_slot a = drop_bit 10 a AND 0xffc"

text \<open>The entry that maps a linear address, as the i386 walks the two levels; 0 when the directory
  entry is absent.\<close>

definition walk :: "'a mm_state_scheme \<Rightarrow> addr \<Rightarrow> u32" where
  "walk s a = (let e = phys s (dir_slot a) in
     if 1 AND e = 0 then 0 else phys s (page_of e + table_slot a))"

lemma table_slot_index: "4 * (drop_bit 12 a AND 0x3ff) = table_slot a"
proof -
  have "4 * w = push_bit 2 w" for w :: addr by (simp add: push_bit_eq_mult)
  moreover have "push_bit 2 (drop_bit 12 a AND 0x3ff) = drop_bit 10 a AND 0xffc"
  proof -
    have m: "(0x3ff :: addr) = mask 10" "(0xffc :: addr) = push_bit 2 (mask 10)"
      by (simp_all add: mask_eq_exp_minus_1)
    show ?thesis unfolding m by (rule bit_word_eqI) (auto simp: bit_simps)
  qed
  ultimately show ?thesis by (simp add: table_slot_def)
qed

lemma slot_bound: "unat (w AND 0xffc :: addr) < 4096"
proof -
  have "w AND 0xffc \<le> (0xffc :: addr)" by (rule word_and_le1)
  then show ?thesis by (simp add: word_le_nat_alt)
qed

lemma page_of_dir_slot [simp]: "page_of (dir_slot a) = 0"
  using page_of_add [of 0 "dir_slot a"] slot_bound [of "drop_bit 20 a"]
  by (simp add: dir_slot_def page_of_def)

lemma page_of_table_slot: "page_of p = p \<Longrightarrow> page_of (p + table_slot a) = p"
  by (rule page_of_add) (simp_all add: table_slot_def slot_bound)

lemma fresh_page_facts:
  assumes "get_free_page s = (p, s')" "p \<noteq> 0"
  shows "page_of p = p" "\<not> p < LOW_MEM" "page_of x = p \<Longrightarrow> phys s' x = 0"
    "page_of x \<noteq> p \<Longrightarrow> phys s' x = phys s x" "mem_map s (MAP_NR p) = 0" "mem_map s' = (mem_map s)(MAP_NR p := 1)"
    "HIGH_MEMORY s' = HIGH_MEMORY s" "in_use s x \<Longrightarrow> page_of x \<noteq> p"
proof -
  obtain i where page: "i < 3840" "mem_map s i = 0" "p = frame i"
    "s' = s\<lparr>mem_map := (mem_map s)(i := 1), phys := fill_page (frame i) 0 (phys s)\<rparr>"
    using assms(1) by (rule get_free_page_cases) (use assms(2) in blast)+
  note f = page_of_frame [OF page(1)] frame_ge [OF page(1)] MAP_NR_frame [OF page(1)]
  show "page_of p = p" "\<not> p < LOW_MEM" "page_of x = p \<Longrightarrow> phys s' x = 0"
    "page_of x \<noteq> p \<Longrightarrow> phys s' x = phys s x" "mem_map s (MAP_NR p) = 0" "mem_map s' = (mem_map s)(MAP_NR p := 1)"
    "HIGH_MEMORY s' = HIGH_MEMORY s" "in_use s x \<Longrightarrow> page_of x \<noteq> p"
    using f page in_use_not_fresh [OF _ page(1,2), of x] by (simp_all add: fill_page_def)
qed


section \<open>Allocation and release\<close>

lemma get_free_page_effect:
  "case get_free_page s of (p, s') \<Rightarrow>
     (p = 0 \<longleftrightarrow> (\<forall>i<PAGING_PAGES. mem_map s i \<noteq> 0)) \<and> (p = 0 \<longrightarrow> s' = s) \<and>
     (p \<noteq> 0 \<longrightarrow> (\<exists>i<PAGING_PAGES. p = frame i \<and> mem_map s i = 0
        \<and> (\<forall>j. i < j \<and> j < PAGING_PAGES \<longrightarrow> mem_map s j \<noteq> 0)
        \<and> mem_map s' = (mem_map s)(i := 1)
        \<and> (\<forall>a. phys s' a = (if page_of a = p then 0 else phys s a))))"
proof -
  obtain p s' where g: "get_free_page s = (p, s')" by (cases "get_free_page s")
  then show ?thesis
  proof (cases rule: get_free_page_cases)
    case none
    with g show ?thesis by simp
  next
    case (page i)
    with g frame_nz [of i] show ?thesis by (auto simp: fill_page_def)
  qed
qed

section \<open>fork and exit\<close>

text \<open>The number of directory entries that a size in bytes covers.\<close>

definition dirs_of :: "u32 \<Rightarrow> nat" where
  "dirs_of sz = unat (drop_bit 22 (sz + 0x3fffff))"

definition aligned_4M :: "addr \<Rightarrow> bool" where
  "aligned_4M a \<longleftrightarrow> a AND 0x3fffff = 0"

lemma copy_page_tables_effect:
  assumes "aligned_4M from" "aligned_4M to" "from \<noteq> 0" "copy_pre s (dir_slot from) (dir_slot to) (dirs_of sz)"
  shows "\<exists>r s'. copy_page_tables from to sz s = Some (r, s')
    \<and> copy_post s (dir_slot from) (dir_slot to) (dirs_of sz) r s'"
  using copy_dirs_spec [OF assms(4)] assms(1-3)
  by (simp add: copy_page_tables_def aligned_4M_def dir_slot_def dirs_of_def)

text \<open>Linear addresses and the directory and table slots they select.\<close>

lemma unat_dir_slot: "unat (dir_slot a) = unat a div 4194304 * 4"
proof -
  have "dir_slot a = push_bit 2 (drop_bit 22 a)"
  proof -
    have m: "(0xffc :: addr) = push_bit 2 (mask 10)" by (simp add: mask_eq_exp_minus_1)
    show ?thesis unfolding dir_slot_def m
      by (rule bit_word_eqI) (auto simp: bit_simps dest: bit_imp_le_length)
  qed
  moreover have "unat (drop_bit 22 a) = unat a div 4194304"
    by (simp add: drop_bit_eq_div unat_div)
  moreover have "unat a div 4194304 * 4 < 4294967296"
    using unat_less_u32 [of a] by simp
  moreover have "push_bit 2 w = 4 * w" for w :: addr by (simp add: push_bit_eq_mult)
  ultimately show ?thesis by (simp add: unat_word_ariths)
qed

lemma unat_table_slot: "unat (table_slot a) = unat a div 4096 mod 1024 * 4"
proof -
  have "unat (drop_bit 12 a AND 0x3ff) = unat a div 4096 mod 1024"
  proof -
    have "drop_bit 12 a AND 0x3ff = take_bit 10 (drop_bit 12 a)"
      by (simp add: take_bit_eq_mask mask_eq_exp_minus_1)
    then show ?thesis by (simp add: unsigned_take_bit_eq take_bit_eq_mod unat_drop12 unat_mod drop_bit_eq_div unat_div)
  qed
  moreover have "unat (4 * w) = 4 * unat w" if "unat w < 1024" for w :: addr
    using that by (simp add: unat_word_ariths)
  ultimately show ?thesis by (simp add: table_slot_index [symmetric])
qed

lemma aligned_4M_obtain:
  assumes "aligned_4M a" obtains f where "unat a = 4194304 * f" "f < 1024"
proof -
  have "a AND mask 22 = 0" using assms by (simp add: aligned_4M_def mask_eq_exp_minus_1)
  then have "2 ^ 22 dvd unat a" by (simp only: and_mask_dvd_nat)
  then obtain f where f: "unat a = 4194304 * f" by (auto elim: dvdE)
  moreover have "f < 1024" using unat_less_u32 [of a] f by simp
  ultimately show ?thesis using that by blast
qed

lemma slots_of_offset:
  fixes off :: addr
  assumes "aligned_4M base" "unat base + unat off < 4294967296"
  shows "dir_slot (base + off) = slot (dir_slot base) (unat off div 4194304)"
    and "table_slot (base + off) = table_slot off"
proof -
  obtain f where f: "unat base = 4194304 * f" "f < 1024" using assms(1) by (rule aligned_4M_obtain)
  have u: "unat (base + off) = 4194304 * f + unat off"
    using assms(2) f by (simp add: unat_plus_if_size word_size)
  have "f + unat off div 4194304 < 1024" using assms(2) f by linarith
  then have "unat (4 * of_nat (unat off div 4194304) :: addr) = 4 * (unat off div 4194304)"
    by (intro pte_off) simp
  moreover have "unat (dir_slot base) = 4 * f" unfolding unat_dir_slot f by simp
  ultimately have "unat (slot (dir_slot base) (unat off div 4194304)) = 4 * f + 4 * (unat off div 4194304)"
    using \<open>f + unat off div 4194304 < 1024\<close> by (simp add: slot_def unat_plus_if_size word_size)
  moreover have "unat (dir_slot (base + off)) = (f + unat off div 4194304) * 4"
    unfolding unat_dir_slot u by simp
  ultimately show "dir_slot (base + off) = slot (dir_slot base) (unat off div 4194304)"
    by (simp add: word_unat_eq_iff)
  have "(4194304 * f + unat off) div 4096 mod 1024 = unat off div 4096 mod 1024"
  proof -
    have "4194304 * f + unat off = unat off + (1024 * f) * 4096" by simp
    then show ?thesis by (simp only: div_mult_self1 zero_neq_numeral mod_mult_self2 mult.commute [of 1024] not_False_eq_True) simp
  qed
  then show "table_slot (base + off) = table_slot off"
    unfolding word_unat_eq_iff unat_table_slot u by simp
qed

lemma table_slot_as_slot: "p + table_slot a = slot p (unat a div 4096 mod 1024)"
proof -
  have "table_slot a = 4 * of_nat (unat a div 4096 mod 1024)"
    unfolding word_unat_eq_iff unat_table_slot by (subst pte_off) simp_all
  then show ?thesis by (simp add: slot_def)
qed

lemma no_wrap:
  fixes off :: addr
  assumes "aligned_4M base" "page_of (slot (dir_slot base) (unat off div 4194304)) = 0"
  shows "unat base + unat off < 4294967296"
proof -
  obtain f where f: "unat base = 4194304 * f" "f < 1024" using assms(1) by (rule aligned_4M_obtain)
  define k where "k = unat off div 4194304"
  have k: "k < 1024" using unat_less_u32 [of off] unfolding k_def by linarith
  have "unat (dir_slot base) = 4 * f" unfolding unat_dir_slot f by simp
  then have u: "unat (slot (dir_slot base) k) = 4 * f + 4 * k"
    using pte_off [OF k] f(2) k by (simp add: slot_def unat_plus_if_size word_size)
  have "unat (page_of (slot (dir_slot base) k)) = 0" using assms(2) by (simp add: k_def)
  then have "f + k < 1024" unfolding unat_page_of u by simp
  then show ?thesis unfolding f k_def by linarith
qed

lemma free_page_tables_effect:
  assumes "aligned_4M from" "from \<noteq> 0" "dirs_of sz \<le> 1024"
    "\<forall>k<dirs_of sz. dir_ok s (slot (dir_slot from) k)" "tables_differ s (dir_slot from) (dirs_of sz)"
    "\<forall>i. range_refs s (dir_slot from) (dirs_of sz) i \<le> unat (mem_map s i)"
  shows "\<exists>s'. free_page_tables from sz s = Some (0, s')
    \<and> (\<forall>k<dirs_of sz. 1 AND phys s' (slot (dir_slot from) k) = 0)
    \<and> (\<forall>i. unat (mem_map s' i) + range_refs s (dir_slot from) (dirs_of sz) i = unat (mem_map s i))"
  using free_dirs_spec [OF assms(3-6)] assms(1,2)
  by (auto simp: free_page_tables_def aligned_4M_def dir_slot_def dirs_of_def)

section \<open>Write-protection faults\<close>

lemma unat_and3: "unat (3 AND e :: u32) = unat e mod 4"
proof -
  have "3 AND e = take_bit 2 e" by (simp add: take_bit_eq_mask mask_eq_exp_minus_1 and.commute)
  then show ?thesis by (simp add: unat_mod take_bit_eq_mod)
qed

lemma unat_and1: "unat (1 AND e :: u32) = unat e mod 2"
  by (simp add: one_and_eq unat_mod)

lemma writable_cases: "1 AND e \<noteq> 0 \<Longrightarrow> 3 AND e \<noteq> 1 \<Longrightarrow> 3 AND e = (3 :: u32)"
proof -
  assume "1 AND e \<noteq> 0" "3 AND e \<noteq> 1"
  then have "unat e mod 2 \<noteq> 0" "unat e mod 4 \<noteq> 1"
    by (simp_all add: word_unat_eq_iff unat_and1 unat_and3)
  then have "unat (3 AND e) = 3" unfolding unat_and3 by presburger
  then show ?thesis by (simp add: word_unat_eq_iff)
qed

lemma or2_writable: "1 AND e \<noteq> 0 \<Longrightarrow> 3 AND (e OR 2) = (3 :: u32)"
proof -
  assume p: "1 AND e \<noteq> 0"
  have "1 AND (e OR 2) = 1 AND e" by (rule bit_word_eqI) (auto simp: bit_simps)
  moreover have "bit (3 AND (e OR 2)) 1" by (simp add: bit_simps)
  then have "3 AND (e OR 2) \<noteq> 1" by (metis bit_1_iff One_nat_def zero_neq_one)
  ultimately show ?thesis using p writable_cases by metis
qed

lemma or7_writable: "3 AND (p OR 7) = (3 :: u32)"
proof -
  have "bit (3 AND (p OR 7)) 1" by (simp add: bit_simps)
  then have "3 AND (p OR 7) \<noteq> 1" by (metis bit_1_iff One_nat_def zero_neq_one)
  then show ?thesis using present_or7 [of p] writable_cases by simp
qed

lemma un_wp_page_sole:
  assumes "\<not> page_of (phys s e) < LOW_MEM" "mem_map s (MAP_NR (page_of (phys s e))) = 1"
  shows "un_wp_page e s = (Resume, s\<lparr>phys := (phys s)(e := phys s e OR 2)\<rparr>)"
  using assms by (simp add: un_wp_page_def page_of_commute Let_def not_less)

lemma un_wp_page_shared:
  assumes "in_use s e" "in_use s (phys s e)" "page_of e \<noteq> page_of (phys s e)"
    and shared: "page_of (phys s e) < LOW_MEM \<or> mem_map s (MAP_NR (page_of (phys s e))) \<noteq> 1"
  defines "old \<equiv> page_of (phys s e)"
  shows "case un_wp_page e s of
      (Oom, s') \<Rightarrow> s' = s \<and> (\<forall>i<PAGING_PAGES. mem_map s i \<noteq> 0)
    | (Resume, s') \<Rightarrow> \<exists>p. phys s' e = p OR 7 \<and> page_of p = p \<and> \<not> p < LOW_MEM \<and> mem_map s (MAP_NR p) = 0
        \<and> mem_map s' = (if old < LOW_MEM then (mem_map s)(MAP_NR p := 1)
            else (mem_map s)(MAP_NR p := 1, MAP_NR old := mem_map s (MAP_NR old) - 1))
        \<and> (\<forall>k<1024. phys s' (slot p k) = phys s (slot old k))
        \<and> (\<forall>a. a \<noteq> e \<and> page_of a \<noteq> p \<longrightarrow> phys s' a = phys s a)"
proof -
  obtain p s1 where g: "get_free_page s = (p, s1)" by (cases "get_free_page s")
  show ?thesis
  proof (cases "p = 0")
    case True
    with g have "s1 = s \<and> (\<forall>i<3840. mem_map s i \<noteq> 0)" using get_free_page_effect [of s] by simp
    with True g shared show ?thesis by (auto simp: un_wp_page_def page_of_commute Let_def)
  next
    case False
    note f = fresh_page_facts [OF g False]
    have old: "page_of old = old" "old \<noteq> p" "page_of e \<noteq> p" "page_of e \<noteq> old"
      using f(8) [OF assms(1)] f(8) [OF assms(2)] assms(3) by (auto simp: old_def)
    have ne: "MAP_NR old \<noteq> MAP_NR p" if "\<not> old < LOW_MEM"
      using frame_MAP_NR [OF old(1) that] frame_MAP_NR [OF f(1,2)] old(2) by metis
    have content: "phys s1 (slot old k) = phys s (slot old k) \<and> slot old k \<noteq> e \<and> slot p k - p = 4 * of_nat k"
      if "k < 1024" for k
      using page_of_slot [OF old(1) that] old f(4) [of "slot old k"] by (auto simp: slot_def)
    have res: "un_wp_page e s = (Resume, s1\<lparr>mem_map := (if old < LOW_MEM then mem_map s1
          else (mem_map s1)(MAP_NR old := mem_map s1 (MAP_NR old) - 1)),
        phys := copy_page old p ((phys s1)(e := p OR 7))\<rparr>)"
      using g False shared by (auto simp: un_wp_page_def page_of_commute Let_def old_def)
    have "copy_page old p ((phys s1)(e := p OR 7)) (slot p k) = phys s (slot old k)" if "k < 1024" for k
      using page_of_slot [OF f(1) that] content [OF that] by (simp add: copy_page_def slot_def)
    then show ?thesis
      unfolding res prod.case fault.case
      by (intro exI [of _ p] conjI) (use f old ne in \<open>simp_all add: copy_page_def\<close>)
  qed
qed

lemma write_verify_makes_writable:
  assumes "write_verify a s = (Resume, s')" "1 AND walk s a \<noteq> 0"
    and "page_of (phys s (dir_slot a)) \<noteq> 0" "in_use s (phys s (dir_slot a))"
    and "in_use s (walk s a)" "page_of (walk s a) \<noteq> page_of (phys s (dir_slot a))"
  shows "3 AND walk s' a = 3"
proof -
  define T where "T = page_of (phys s (dir_slot a))"
  define e where "e = T + table_slot a"
  have pr: "1 AND phys s (dir_slot a) \<noteq> 0" using assms(2) by (auto simp: walk_def Let_def split: if_splits)
  have e: "page_of e = T" "walk s a = phys s e" "1 AND phys s e \<noteq> 0"
    using pr assms(2) page_of_table_slot [of T a] by (simp_all add: walk_def Let_def e_def T_def)
  have ne: "e \<noteq> dir_slot a" using e(1) assms(3) by (auto simp: T_def)
  have wv: "write_verify a s = (if 3 AND phys s e = 1 then un_wp_page e s else (Resume, s))"
    using pr by (simp add: write_verify_def Let_def e_def T_def page_of_def dir_slot_def table_slot_def and.commute)
  have use: "in_use s e" using assms(4) e(1) by (simp add: in_use_def T_def)
  have walk': "walk s' a = phys s' e" if "phys s' (dir_slot a) = phys s (dir_slot a)"
    using that pr by (simp add: walk_def Let_def e_def T_def)
  show ?thesis
  proof (cases "3 AND phys s e = 1")
    case False
    with wv assms(1) have "s' = s" by simp
    then show ?thesis using False writable_cases [OF e(3)] e(2) by simp
  next
    case True
    then have u: "un_wp_page e s = (Resume, s')" using wv assms(1) by simp
    show ?thesis
    proof (cases "page_of (phys s e) < LOW_MEM \<or> mem_map s (MAP_NR (page_of (phys s e))) \<noteq> 1")
      case False
      then have "s' = s\<lparr>phys := (phys s)(e := phys s e OR 2)\<rparr>"
        using un_wp_page_sole [of s e] u by simp
      then show ?thesis using walk' ne or2_writable [OF e(3)] by simp
    next
      case True
      obtain p where p: "phys s' e = p OR 7" "page_of p = p" "\<not> p < LOW_MEM"
        "\<forall>x. x \<noteq> e \<and> page_of x \<noteq> p \<longrightarrow> phys s' x = phys s x"
        using un_wp_page_shared [OF use _ _ True] u assms(5,6) e by (auto simp: T_def)
      have "page_of (dir_slot a) \<noteq> p" using p(3) by (auto simp: LOW_MEM_def)
      then have "phys s' (dir_slot a) = phys s (dir_slot a)" using p(4) ne by metis
      then show ?thesis using walk' p(1) or7_writable by simp
    qed
  qed
qed



section \<open>Mapping a page\<close>

lemma put_page_cases:
  "put_page page a s =
     (let d = dir_slot a in
      if 1 AND phys s d \<noteq> 0 then (page, s\<lparr>phys := (phys s)(page_of (phys s d) + table_slot a := page OR 7)\<rparr>)
      else (case get_free_page s of (tmp, s1) \<Rightarrow>
        if tmp = 0 then (0, s1)
        else (page, s1\<lparr>phys := (phys s1)(d := tmp OR 7, tmp + table_slot a := page OR 7)\<rparr>)))"
  by (simp add: put_page_def Let_def table_slot_index page_of_commute and.commute [of _ 1] dir_slot_def [symmetric]
      split: prod.splits)

lemma put_page_maps:
  assumes "page \<noteq> 0" "1 AND phys s (dir_slot a) \<noteq> 0 \<longrightarrow> page_of (phys s (dir_slot a)) \<noteq> 0"
    and "put_page page a s = (r, s')"
  shows "r = 0 \<and> s' = s \<and> (\<forall>i<PAGING_PAGES. mem_map s i \<noteq> 0) \<or> r = page \<and> walk s' a = page OR 7"
proof (cases "1 AND phys s (dir_slot a) = 0")
  case False
  define T where "T = page_of (phys s (dir_slot a))"
  have "page_of (T + table_slot a) = T" by (rule page_of_table_slot) (simp add: T_def)
  then have "T + table_slot a \<noteq> dir_slot a" using assms(2) False by (auto simp: T_def)
  then show ?thesis using assms(3) False by (auto simp: put_page_cases Let_def walk_def T_def)
next
  case True
  obtain p s1 where g: "get_free_page s = (p, s1)" by (cases "get_free_page s")
  show ?thesis
  proof (cases "p = 0")
    case p0: True
    then show ?thesis using True g assms(3) get_free_page_effect [of s] by (auto simp: put_page_cases)
  next
    case False
    note f = fresh_page_facts [OF g False]
    have "page_of (p + table_slot a) = p" using f(1) by (rule page_of_table_slot)
    then have "p + table_slot a \<noteq> dir_slot a" using False by auto
    moreover have "1 AND (p OR 7) \<noteq> 0" "page_of (p OR 7) = p"
      using present_or7 [of p] page_of_or7 [OF f(1)] by simp_all
    ultimately show ?thesis using True False g assms(3) by (auto simp: put_page_cases Let_def walk_def)
  qed
qed

lemma put_page_out:
  assumes "put_page page a s = (r, s')" "page_of x \<noteq> 0"
    and "1 AND phys s (dir_slot a) \<noteq> 0 \<longrightarrow> page_of x \<noteq> page_of (phys s (dir_slot a))"
    and "in_use s x"
  shows "phys s' x = phys s x"
proof -
  obtain p s1 where g: "get_free_page s = (p, s1)" by (cases "get_free_page s")
  have t: "x \<noteq> page_of e + table_slot a" if "page_of x \<noteq> page_of e" for e
    using page_of_table_slot [of "page_of e" a] that by auto
  have d: "x \<noteq> dir_slot a" using assms(2) by auto
  show ?thesis
  proof (cases "p = 0")
    case True
    then have "s1 = s" using get_free_page_effect [of s] g by simp
    then show ?thesis using assms t d g True by (auto simp: put_page_cases Let_def split: if_splits)
  next
    case False
    note f = fresh_page_facts [OF g False]
    have "page_of x \<noteq> p" using f(8) assms(4) by blast
    then have "phys s1 x = phys s x" "x \<noteq> p + table_slot a"
      using f(4) page_of_table_slot [OF f(1), of a] by auto
    then show ?thesis using assms t d g False by (auto simp: put_page_cases Let_def split: if_splits)
  qed
qed

section \<open>Properties\<close>

text \<open>C1: \<open>get_free_page\<close> returns 0 exactly when every one of the 3840 counted frames is in use, and then
  changes nothing. Otherwise it returns the highest free frame, whose count becomes 1 and whose 1024 longs
  become 0; no other count and no other long of memory changes.\<close>

theorem get_free_page_spec:
  "case get_free_page s of (p, s') \<Rightarrow>
     (p = 0 \<longleftrightarrow> (\<forall>i<PAGING_PAGES. mem_map s i \<noteq> 0)) \<and> (p = 0 \<longrightarrow> s' = s) \<and>
     (p \<noteq> 0 \<longrightarrow> (\<exists>i<PAGING_PAGES. p = frame i \<and> mem_map s i = 0
        \<and> (\<forall>j. i < j \<and> j < PAGING_PAGES \<longrightarrow> mem_map s j \<noteq> 0)
        \<and> mem_map s' = (mem_map s)(i := 1)
        \<and> (\<forall>a. phys s' a = (if page_of a = p then 0 else phys s a))))"
  by (rule get_free_page_effect)

text \<open>A small machine used by the witnesses: task 1 (directory slot \<open>0x40\<close>) has one page table at
  \<open>0x200000\<close>, whose first entry maps the page \<open>0x300000\<close> read-only; that page has two owners.\<close>

definition demo_mm :: "mm_state" where
  "demo_mm = \<lparr>phys = (\<lambda>a. if a = 0x40 then 0x200007 else if a = 0x200000 then 0x300005 else 0),
     mem_map = (\<lambda>i. if i = 256 then 1 else if i = 512 then 2 else 0), HIGH_MEMORY = 0x1000000\<rparr>"

lemma demo_ok: "mm_ok demo_mm"
proof -
  have "\<not> HIGH_MEMORY demo_mm \<le> frame i" if "i < 3840" for i
    using unat_frame [OF that] that by (simp add: demo_mm_def word_le_nat_alt)
  then show ?thesis by (simp add: mm_ok_def)
qed

lemma demo_dirs: "dir_slot 0x4000000 = 0x40" "dir_slot 0x8000000 = 0x80" "dirs_of 0x1000 = 1"
  by (simp_all add: dir_slot_def dirs_of_def drop_bit_eq_div)

lemma demo_aligned: "aligned_4M 0x4000000" "aligned_4M 0x8000000"
  by (simp_all add: aligned_4M_def)

lemma demo_table: "l < 1024 \<Longrightarrow> phys demo_mm (slot 0x200000 l) = (if l = 0 then 0x300005 else 0)"
proof -
  assume l: "l < 1024"
  have "page_of (slot 0x200000 l) = 0x200000" by (rule page_of_slot) (simp_all add: l page_of_def)
  then have "slot 0x200000 l \<noteq> 0x40" by (auto simp: page_of_def)
  moreover have "slot 0x200000 l = 0x200000 \<longleftrightarrow> l = 0" using slot_inj [OF l, of 0 "0x200000"] by simp
  ultimately show ?thesis by (simp add: demo_mm_def)
qed

lemma demo_refs: "dir_refs demo_mm 0x40 i \<le> 2"
proof -
  have "card {l. l < 1024 \<and> frame_ref (phys demo_mm (slot 0x200000 l)) i} \<le> card {0 :: nat}"
    by (intro card_mono) (auto simp: demo_table frame_ref_def split: if_splits)
  moreover have "page_of (phys demo_mm 0x40) = 0x200000" by (simp add: demo_mm_def page_of_def)
  ultimately show ?thesis by (simp add: dir_refs_def)
qed

lemma demo_pre: "copy_pre demo_mm (dir_slot 0x4000000) (dir_slot 0x8000000) (dirs_of 0x1000)"
proof -
  have "unat (mem_map demo_mm i) \<le> 2" for i by (simp add: demo_mm_def)
  then have le: "unat (mem_map demo_mm i) + dir_refs demo_mm 0x40 i < 255" for i
    using demo_refs [of i] by (rule le_less_trans [OF add_mono]) simp
  have "unat (mem_map demo_mm i) + dir_refs demo_mm 0x40 i + (if mem_map demo_mm i = 0 then 1 else 0) < 256" for i
  proof -
    have "(if mem_map demo_mm i = 0 then 1 else 0) \<le> (1 :: nat)" by simp
    with le [of i] show ?thesis by linarith
  qed
  then have "headroom demo_mm 0x40 1" by (simp add: headroom_def range_refs_def del: add_is_0)
  moreover have "dir_ok demo_mm 0x40"
  proof -
    have "releasable demo_mm (phys demo_mm (slot 0x200000 l))" if "l < 1024" for l
      using demo_table [OF that] by (simp add: releasable_def demo_mm_def page_of_def)
    moreover have "phys demo_mm 0x40 = 0x200007" by (simp add: demo_mm_def)
    moreover have "page_of 0x40 = 0" "page_of 0x200007 = 0x200000" by (simp_all add: page_of_def)
    ultimately show ?thesis by (simp add: dir_ok_def releasable_def demo_mm_def)
  qed
  moreover have "in_use demo_mm (page_of (phys demo_mm 0x40))"
    by (simp add: demo_mm_def page_of_def in_use_def MAP_NR_def LOW_MEM_def drop_bit_eq_div)
  ultimately show ?thesis
    unfolding demo_dirs copy_pre_def
    by (simp add: demo_ok apart_def slot_def) (simp add: demo_mm_def page_of_def)
qed

lemma demo_alloc: "get_free_page demo_mm = (p, s') \<Longrightarrow> p \<noteq> 0"
proof -
  assume g: "get_free_page demo_mm = (p, s')"
  have "mem_map demo_mm 0 = 0" by (simp add: demo_mm_def)
  then have "\<not> (\<forall>i<PAGING_PAGES. mem_map demo_mm i \<noteq> 0)" by (auto intro: exI [of _ 0])
  then show "p \<noteq> 0" using g get_free_page_effect [of demo_mm] by (simp del: PAGING_PAGES_eq)
qed

theorem get_free_page_spec_witness:
  "\<exists>s'. get_free_page demo_mm = (frame 3839, s') \<and> mem_map s' = (mem_map demo_mm)(3839 := 1)"
proof -
  obtain p s' where g: "get_free_page demo_mm = (p, s')" by (cases "get_free_page demo_mm")
  from get_free_page_spec [of demo_mm] demo_alloc [OF g] obtain i where i: "i < 3840" "p = frame i"
    "\<forall>j. i < j \<and> j < 3840 \<longrightarrow> mem_map demo_mm j \<noteq> 0" "mem_map s' = (mem_map demo_mm)(i := 1)"
    unfolding g by auto
  have "mem_map demo_mm 3839 = 0" by (simp add: demo_mm_def)
  then have "i = 3839" using i(1) i(3) [rule_format, of 3839] by (cases "i < 3839") auto
  then show ?thesis using g i by simp
qed

text \<open>A page that was just allocated can be released again, which restores every reference count, so an
  error path that frees the page it got leaks nothing.\<close>

theorem get_then_free_restores:
  assumes "mm_ok s" "get_free_page s = (p, s1)" "p \<noteq> 0"
  shows "\<exists>s2. free_page p s1 = Some s2 \<and> page_count s2 = page_count s \<and> mm_ok s2"
  by (rule pa.alloc_then_release [OF assms])

theorem get_then_free_restores_witness:
  "\<exists>p s1 s2. get_free_page demo_mm = (p, s1) \<and> free_page p s1 = Some s2 \<and> page_count s2 = page_count demo_mm"
proof -
  obtain p s1 where g: "get_free_page demo_mm = (p, s1)" by (cases "get_free_page demo_mm")
  moreover have "p \<noteq> 0" using g by (rule demo_alloc)
  ultimately show ?thesis using get_then_free_restores [OF demo_ok] by blast
qed

lemma entry_kept:
  assumes "copy_pre s fd td n" "copy_post s fd td n r s'" "k < n"
  shows "phys s' (slot fd k) = phys s (slot fd k)"
proof -
  have fd: "page_of (slot fd k) = 0" and ap: "\<forall>l<n. slot fd k \<noteq> slot td l"
    using assms(1,3) by (auto simp: copy_pre_def dir_ok_def apart_def)
  have nt: "1 AND phys s (slot fd l) \<noteq> 0 \<Longrightarrow> page_of (slot fd k) \<noteq> page_of (phys s (slot fd l))" if "l < n" for l
    using assms(1) that fd by (auto simp: copy_pre_def dir_ok_def)
  have "in_use s (slot fd k)" using fd by (simp add: in_use_def LOW_MEM_def)
  then show ?thesis using copy_postD(7) [OF assms(2)] ap nt by metis
qed

text \<open>C2: after \<open>copy_page_tables\<close> has succeeded, parent and child see the same page at every address of the
  range, and neither may write to it: the child's entry is the parent's without the write bit, and the
  parent's own entry has lost its write bit if the page is above low memory. The hypothesis
  \<open>copy_pre\<close> says that the source tables are live, the target range is empty, and no reference count
  would pass 255.\<close>

theorem fork_shares_pages:
  assumes "aligned_4M from" "aligned_4M to" "from \<noteq> 0"
    and pre: "copy_pre s (dir_slot from) (dir_slot to) (dirs_of sz)"
    and ret: "copy_page_tables from to sz s = Some (0, s')"
    and off: "unat off < dirs_of sz * 4194304"
  shows "walk s' (to + off) = cow (walk s (from + off)) \<and> walk s' (from + off) = protect (walk s (from + off))"
proof -
  define k where "k = unat off div 4194304"
  define l where "l = unat off div 4096 mod 1024"
  have k: "k < dirs_of sz" using off unfolding k_def by (simp add: div_less_iff_less_mult)
  have l: "l < 1024" by (simp add: l_def)
  have p: "copy_post s (dir_slot from) (dir_slot to) (dirs_of sz) 0 s'"
    using copy_page_tables_effect [OF assms(1-3) pre] ret by auto
  have z: "page_of (slot (dir_slot from) k) = 0" "page_of (slot (dir_slot to) k) = 0"
    using pre k by (auto simp: copy_pre_def dir_ok_def)
  have d: "dir_slot (from + off) = slot (dir_slot from) k" "dir_slot (to + off) = slot (dir_slot to) k"
    using slots_of_offset(1) [OF assms(1) no_wrap [OF assms(1)]] slots_of_offset(1) [OF assms(2) no_wrap [OF assms(2)]] z
    by (simp_all add: k_def)
  have t: "q + table_slot (from + off) = slot q l" "q + table_slot (to + off) = slot q l" for q
    using slots_of_offset(2) [OF assms(1) no_wrap [OF assms(1)]] slots_of_offset(2) [OF assms(2) no_wrap [OF assms(2)]] z
    by (simp_all add: table_slot_as_slot k_def l_def)
  note tc = table_copiedD [OF copy_postD(9) [OF p refl k]]
  note fk = entry_kept [OF pre p k]
  show ?thesis
    using tc(1) tc(2,3) [OF _ l] unfolding walk_def Let_def d t fk by (auto simp: cow_def protect_def)
qed

lemma demo_copies: "\<exists>s'. copy_page_tables 0x4000000 0x8000000 0x1000 demo_mm = Some (0, s')"
proof -
  obtain p s1 where g: "get_free_page demo_mm = (p, s1)" by (cases "get_free_page demo_mm")
  note nz = demo_alloc [OF g]
  have n: "unat (drop_bit 22 (0x1000 + 0x3fffff :: u32)) = Suc 0"
    using demo_dirs(3) by (simp add: dirs_of_def)
  have d: "drop_bit 20 0x4000000 AND 0xffc = (0x40 :: addr)" "drop_bit 20 0x8000000 AND 0xffc = (0x80 :: addr)"
    using demo_dirs(1,2) by (simp_all add: dir_slot_def)
  have e: "1 AND phys demo_mm 0x80 = 0" "1 AND phys demo_mm 0x40 \<noteq> 0" by (simp_all add: demo_mm_def)
  show ?thesis
    unfolding copy_page_tables_def n d using e g nz by simp
qed

theorem fork_shares_pages_witness:
  "\<exists>s'. copy_page_tables 0x4000000 0x8000000 0x1000 demo_mm = Some (0, s') \<and>
     walk s' 0x8000000 = cow (walk demo_mm 0x4000000) \<and> walk s' 0x4000000 = protect (walk demo_mm 0x4000000)"
proof -
  obtain s' where c: "copy_page_tables 0x4000000 0x8000000 0x1000 demo_mm = Some (0, s')"
    using demo_copies by blast
  have "unat (0 :: addr) < dirs_of 0x1000 * 4194304" by (simp add: demo_dirs)
  from fork_shares_pages [OF demo_aligned _ demo_pre c this] c show ?thesis by auto
qed

text \<open>C3: \<open>fork\<close> followed by \<open>exit\<close> is balanced. Copying the tables always returns, whether it succeeds or
  runs out of memory half way, and freeing the target range afterwards never panics and restores every
  reference count. The second case is the error path of \<open>copy_mem\<close>.\<close>

theorem fork_then_exit_restores:
  assumes "aligned_4M from" "aligned_4M to" "from \<noteq> 0" "to \<noteq> 0"
    "copy_pre s (dir_slot from) (dir_slot to) (dirs_of sz)"
  shows "\<exists>r s1 s2. copy_page_tables from to sz s = Some (r, s1)
    \<and> free_page_tables to sz s1 = Some (0, s2) \<and> mem_map s2 = mem_map s"
proof -
  obtain r s1 where c: "copy_page_tables from to sz s = Some (r, s1)"
    and p: "copy_post s (dir_slot from) (dir_slot to) (dirs_of sz) r s1"
    using copy_page_tables_effect [OF assms(1-3,5)] by iprover
  note P = copy_postD [OF p]
  have n: "dirs_of sz \<le> 1024" using assms(5) by (simp add: copy_pre_def)
  have refs: "\<forall>i. range_refs s1 (dir_slot to) (dirs_of sz) i \<le> unat (mem_map s1 i)"
    using P(6) by simp
  obtain s2 where f: "free_page_tables to sz s1 = Some (0, s2)"
    and m: "\<forall>i. unat (mem_map s2 i) + range_refs s1 (dir_slot to) (dirs_of sz) i = unat (mem_map s1 i)"
    using free_page_tables_effect [OF assms(2,4) n P(3,4) refs] by iprover
  have "unat (mem_map s2 i) = unat (mem_map s i)" for i
    using m [THEN spec, of i] P(6) [of i] by simp
  then have "mem_map s2 = mem_map s" by (intro ext) (simp add: word_unat_eq_iff)
  with c f show ?thesis by iprover
qed


theorem fork_then_exit_restores_witness:
  "\<exists>r s1 s2. copy_page_tables 0x4000000 0x8000000 0x1000 demo_mm = Some (r, s1)
     \<and> free_page_tables 0x8000000 0x1000 s1 = Some (0, s2) \<and> mem_map s2 = mem_map demo_mm"
  using fork_then_exit_restores [OF demo_aligned _ _ demo_pre] by simp

text \<open>C4: breaking the sharing of a page on a write. When the page behind a read-only entry has another owner
  (or lies in low memory), \<open>un_wp_page\<close> either finds no free page and changes nothing, or gives the entry a
  fresh writable page with the same 1024 longs, takes one reference from the old page, and changes no other
  long of memory.\<close>

theorem un_wp_page_copies:
  assumes "in_use s e" "in_use s (phys s e)" "page_of e \<noteq> page_of (phys s e)"
    and "page_of (phys s e) < LOW_MEM \<or> mem_map s (MAP_NR (page_of (phys s e))) \<noteq> 1"
  defines "old \<equiv> page_of (phys s e)"
  shows "case un_wp_page e s of
      (Oom, s') \<Rightarrow> s' = s \<and> (\<forall>i<PAGING_PAGES. mem_map s i \<noteq> 0)
    | (Resume, s') \<Rightarrow> \<exists>p. phys s' e = p OR 7 \<and> page_of p = p \<and> \<not> p < LOW_MEM \<and> mem_map s (MAP_NR p) = 0
        \<and> mem_map s' = (if old < LOW_MEM then (mem_map s)(MAP_NR p := 1)
            else (mem_map s)(MAP_NR p := 1, MAP_NR old := mem_map s (MAP_NR old) - 1))
        \<and> (\<forall>k<1024. phys s' (slot p k) = phys s (slot old k))
        \<and> (\<forall>a. a \<noteq> e \<and> page_of a \<noteq> p \<longrightarrow> phys s' a = phys s a)"
  unfolding old_def by (rule un_wp_page_shared [OF assms(1-4)])

lemma demo_entry: "phys demo_mm 0x200000 = 0x300005" "page_of 0x300005 = 0x300000" "page_of 0x200000 = 0x200000"
  "MAP_NR 0x300000 = 512" "mem_map demo_mm 512 = 2" "\<not> 0x300000 < LOW_MEM" "in_use demo_mm 0x200000"
  "in_use demo_mm 0x300005" "phys demo_mm 0x40 = 0x200007" "page_of 0x200007 = 0x200000" "in_use demo_mm 0x200007"
  by (simp_all add: demo_mm_def page_of_def MAP_NR_def LOW_MEM_def in_use_def drop_bit_eq_div)

theorem un_wp_page_copies_witness:
  "\<exists>p s'. un_wp_page 0x200000 demo_mm = (Resume, s') \<and> phys s' 0x200000 = p OR 7
     \<and> mem_map s' = (mem_map demo_mm)(MAP_NR p := 1, 512 := 1)"
proof -
  have "\<not> (\<forall>i<PAGING_PAGES. mem_map demo_mm i \<noteq> 0)" by (auto simp: demo_mm_def intro: exI [of _ 0])
  then show ?thesis
    using un_wp_page_copies [of demo_mm "0x200000"] by (auto simp: demo_entry split: prod.splits fault.splits)
qed

text \<open>\<open>write_verify\<close>, which the kernel calls before it writes into user memory (the i386 does not honour
  the write-protect bit in supervisor mode), leaves a present page writable, whatever it was shared with.\<close>

theorem write_verify_writable:
  assumes "write_verify a s = (Resume, s')" "1 AND walk s a \<noteq> 0"
    and "page_of (phys s (dir_slot a)) \<noteq> 0" "in_use s (phys s (dir_slot a))"
    and "in_use s (walk s a)" "page_of (walk s a) \<noteq> page_of (phys s (dir_slot a))"
  shows "3 AND walk s' a = 3"
  by (rule write_verify_makes_writable [OF assms])

theorem write_verify_writable_witness:
  "\<exists>s'. write_verify 0x4000000 demo_mm = (Resume, s') \<and> 3 AND walk demo_mm 0x4000000 = 1 \<and> 3 AND walk s' 0x4000000 = 3"
proof -
  have t: "table_slot 0x4000000 = 0" by (simp add: table_slot_def drop_bit_eq_div)
  have w: "walk demo_mm 0x4000000 = 0x300005"
    by (simp add: walk_def Let_def demo_dirs demo_entry t)
  have "\<not> (\<forall>i<PAGING_PAGES. mem_map demo_mm i \<noteq> 0)" by (auto simp: demo_mm_def intro: exI [of _ 0])
  moreover have "un_wp_page 0x200000 demo_mm = write_verify 0x4000000 demo_mm"
    using t demo_dirs(1) by (simp add: write_verify_def dir_slot_def table_slot_def demo_entry page_of_def [symmetric] Let_def)
  ultimately obtain s' where "write_verify 0x4000000 demo_mm = (Resume, s')"
    using un_wp_page_shared [of demo_mm "0x200000"] by (auto simp: demo_entry split: prod.splits fault.splits)
  then show ?thesis
    using write_verify_writable [of "0x4000000" demo_mm s'] w by (simp add: demo_dirs demo_entry)
qed

lemma put_page_fail:
  assumes "put_page p a s = (0, s')" "p \<noteq> 0" shows "s' = s"
proof -
  obtain q s1 where g: "get_free_page s = (q, s1)" by (cases "get_free_page s")
  then show ?thesis
    using assms get_free_page_effect [of s] by (auto simp: put_page_cases Let_def split: if_splits)
qed

text \<open>\<open>get_empty_page\<close> always returns. Either the linear address is then mapped, writable, to a page
  that was free and whose longs are all zero, or the task is killed by \<open>oom\<close> and every reference count is
  what it was: the page obtained first is given back when there is no page for the table.\<close>

theorem get_empty_page_spec:
  assumes "mm_ok s"
    and "1 AND phys s (dir_slot a) \<noteq> 0 \<longrightarrow>
      page_of (phys s (dir_slot a)) \<noteq> 0 \<and> in_use s (phys s (dir_slot a))"
  shows "\<exists>f s'. get_empty_page a s = Some (f, s') \<and>
     (case f of Oom \<Rightarrow> page_count s' = page_count s
      | Resume \<Rightarrow> \<exists>p. walk s' a = p OR 7 \<and> page_of p = p \<and> mem_map s (MAP_NR p) = 0
          \<and> (\<forall>x. page_of x = p \<longrightarrow> phys s' x = 0))"
proof -
  obtain p s1 where g: "get_free_page s = (p, s1)" by (cases "get_free_page s")
  show ?thesis
  proof (cases "p = 0")
    case True
    then have "s1 = s" using g get_free_page_effect [of s] by simp
    then show ?thesis using True g by (simp add: get_empty_page_def pa.release_null)
  next
    case False
    note f = fresh_page_facts [OF g False]
    obtain r s2 where p: "put_page p a s1 = (r, s2)" by (cases "put_page p a s1")
    have dir: "phys s1 (dir_slot a) = phys s (dir_slot a)" using f(4) [of "dir_slot a"] False by simp
    show ?thesis
    proof (cases "r = 0")
      case True
      then have "s2 = s1" using put_page_fail p False by simp
      then show ?thesis
        using True False g p pa.alloc_then_release [OF assms(1) g False] by (auto simp: get_empty_page_def)
    next
      case r: False
      have w: "walk s2 a = p OR 7"
        using put_page_maps [OF False _ p] assms(2) dir r by auto
      have z: "phys s2 x = 0" if x: "page_of x = p" for x
      proof -
        have "in_use s1 x" using f(1,6) x by (simp add: in_use_def)
        moreover have "1 AND phys s1 (dir_slot a) \<noteq> 0 \<longrightarrow> page_of x \<noteq> page_of (phys s1 (dir_slot a))"
          using assms(2) dir f(8) [of "phys s (dir_slot a)"] x by auto
        ultimately have "phys s2 x = phys s1 x" using put_page_out [OF p] x False by simp
        then show ?thesis using f(3) x by simp
      qed
      show ?thesis
        using False r g p w z f(1,5) by (auto simp: get_empty_page_def)
    qed
  qed
qed

theorem get_empty_page_spec_witness:
  "\<exists>f s'. get_empty_page 0x4001000 demo_mm = Some (f, s')"
proof -
  have "dir_slot 0x4001000 = 0x40" by (simp add: dir_slot_def drop_bit_eq_div)
  then show ?thesis
    using get_empty_page_spec [OF demo_ok, of "0x4001000"] by (auto simp: demo_entry)
qed

lemma mem_init_effect:
  assumes "0x100000 \<le> start_mem" "start_mem \<le> end_mem" "end_mem \<le> 0x1000000" "start_mem mod 4096 = 0"
  shows "mm_ok (mem_init start_mem end_mem s)"
    "\<forall>i<PAGING_PAGES. mem_map (mem_init start_mem end_mem s) i =
      (if start_mem \<le> 0x100000 + 4096 * int i \<and> 0x100000 + 4096 * (int i + 1) \<le> end_mem then 0 else USED)"
proof -
  obtain a where a: "start_mem = 4096 * a" using assms(4) by (auto elim: dvdE simp: dvd_eq_mod_eq_0 [symmetric])
  have a256: "256 \<le> a" using assms(1) a by simp
  define b where "b = end_mem div 4096"
  have b: "4096 * b \<le> end_mem" "end_mem < 4096 * b + 4096" unfolding b_def by presburger+
  have lo: "nat ((start_mem - 0x100000) div 4096) = nat (a - 256)"
  proof -
    have "start_mem - 0x100000 = 4096 * (a - 256)" using a by simp
    then show ?thesis by simp
  qed
  have n: "nat ((end_mem - start_mem) div 4096) = nat (b - a)"
  proof -
    have "(end_mem - start_mem) div 4096 = b - a" unfolding b_def a by (simp add: div_diff)
    then show ?thesis by simp
  qed
  have ab: "a \<le> b" using assms(2) a b by linarith
  have free: "nat ((start_mem - 0x100000) div 4096) \<le> i \<and>
      i < nat ((start_mem - 0x100000) div 4096) + nat ((end_mem - start_mem) div 4096)
      \<longleftrightarrow> start_mem \<le> 0x100000 + 4096 * int i \<and> 0x100000 + 4096 * (int i + 1) \<le> end_mem" for i
    unfolding lo n using a a256 ab b by auto
  show m: "\<forall>i<PAGING_PAGES. mem_map (mem_init start_mem end_mem s) i =
      (if start_mem \<le> 0x100000 + 4096 * int i \<and> 0x100000 + 4096 * (int i + 1) \<le> end_mem then 0 else USED)"
    using free by (simp add: mem_init_def Let_def)
  show "mm_ok (mem_init start_mem end_mem s)"
    unfolding mm_ok_def
  proof (intro allI impI)
    fix i assume i: "i < PAGING_PAGES" "HIGH_MEMORY (mem_init start_mem end_mem s) \<le> frame i"
    have "HIGH_MEMORY (mem_init start_mem end_mem s) = word_of_int end_mem" by (simp add: mem_init_def Let_def)
    moreover have "unat (word_of_int end_mem :: addr) = nat end_mem"
      using assms by (simp add: unat_eq_nat_uint uint_word_of_int_eq take_bit_int_eq_self)
    moreover have "unat (frame i) = (i + 256) * 4096" using i(1) by (intro unat_frame) simp
    ultimately have "end_mem \<le> int ((i + 256) * 4096)" using i(2) by (simp add: word_le_nat_alt)
    then show "mem_map (mem_init start_mem end_mem s) i \<noteq> 0"
      using m i(1) by (auto simp: USED_def)
  qed
qed

text \<open>\<open>mem_init\<close> establishes the allocator's invariant, and leaves free exactly the frames between
  \<open>start_mem\<close> and \<open>end_mem\<close>: the kernel, the buffer cache and the RAM disk below are never handed out.\<close>

theorem mem_init_spec:
  assumes "0x100000 \<le> start_mem" "start_mem \<le> end_mem" "end_mem \<le> 0x1000000" "start_mem mod 4096 = 0"
  shows "mm_ok (mem_init start_mem end_mem s) \<and>
    (\<forall>i<PAGING_PAGES. mem_map (mem_init start_mem end_mem s) i =
      (if start_mem \<le> 0x100000 + 4096 * int i \<and> 0x100000 + 4096 * (int i + 1) \<le> end_mem then 0 else USED))"
  using mem_init_effect [OF assms] by blast

theorem mem_init_spec_witness:
  "mm_ok (mem_init 0x400000 0x1000000 demo_mm) \<and> mem_map (mem_init 0x400000 0x1000000 demo_mm) 768 = 0
    \<and> mem_map (mem_init 0x400000 0x1000000 demo_mm) 767 = USED"
  using mem_init_spec [of "0x400000" "0x1000000" demo_mm] by simp

end
