(* ===== verification/Malloc.thy ===== *)
theory Malloc
  imports Memory
begin

text \<open>
  The kernel's object allocator (\<open>lib/malloc.c\<close>), at the level of memory: a bucket descriptor is 16 bytes
  of a page of \<open>get_free_page\<close>, and the free objects of a page are chained through their first long. The
  chains of \<open>bucket_dir\<close> are walked through memory, so a walk of a corrupted (cyclic) chain does not
  return. \<open>cli\<close> and \<open>sti\<close> change nothing in a model that runs each call to its end.
\<close>

record malloc_state = mm_state +
  chain :: "nat \<Rightarrow> addr"
  free_bucket_desc :: addr

definition bucket_sizes :: "u32 list" where
  "bucket_sizes = [16, 32, 64, 128, 256, 512, 1024, 2048, 4096]"

text \<open>The fields of \<open>struct bucket_desc\<close>.\<close>

definition poke :: "addr \<Rightarrow> u32 \<Rightarrow> 'a mm_state_scheme \<Rightarrow> 'a mm_state_scheme" where
  "poke a v s = s\<lparr>phys := (phys s)(a := v)\<rparr>"

definition bd_page :: "'a mm_state_scheme \<Rightarrow> addr \<Rightarrow> addr" where "bd_page s b = phys s b"
definition bd_next :: "'a mm_state_scheme \<Rightarrow> addr \<Rightarrow> addr" where "bd_next s b = phys s (b + 4)"
definition bd_freeptr :: "'a mm_state_scheme \<Rightarrow> addr \<Rightarrow> addr" where "bd_freeptr s b = phys s (b + 8)"
definition bd_refcnt :: "'a mm_state_scheme \<Rightarrow> addr \<Rightarrow> u16" where "bd_refcnt s b = ucast (phys s (b + 12))"

definition set_page :: "addr \<Rightarrow> addr \<Rightarrow> 'a mm_state_scheme \<Rightarrow> 'a mm_state_scheme" where "set_page b v = poke b v"
definition set_next :: "addr \<Rightarrow> addr \<Rightarrow> 'a mm_state_scheme \<Rightarrow> 'a mm_state_scheme" where "set_next b v = poke (b + 4) v"
definition set_freeptr :: "addr \<Rightarrow> addr \<Rightarrow> 'a mm_state_scheme \<Rightarrow> 'a mm_state_scheme" where "set_freeptr b v = poke (b + 8) v"

definition set_refcnt :: "addr \<Rightarrow> u16 \<Rightarrow> 'a mm_state_scheme \<Rightarrow> 'a mm_state_scheme" where
  "set_refcnt b v s = poke (b + 12) ((phys s (b + 12) AND 0xffff0000) OR ucast v) s"

definition set_bucket_size :: "addr \<Rightarrow> u32 \<Rightarrow> 'a mm_state_scheme \<Rightarrow> 'a mm_state_scheme" where
  "set_bucket_size b v s = poke (b + 12) ((phys s (b + 12) AND 0xffff) OR push_bit 16 (v AND 0xffff)) s"

text \<open>\<open>for (i = PAGE_SIZE / sizeof (struct bucket_desc); i > 1; i--)\<close>: the descriptors of a page point to
  their successors; the result is the last one.\<close>

primrec link_descs :: "nat \<Rightarrow> addr \<Rightarrow> 'a mm_state_scheme \<Rightarrow> addr \<times> 'a mm_state_scheme" where
  "link_descs 0 b s = (b, s)"
| "link_descs (Suc n) b s = link_descs n (b + 16) (set_next b (b + 16) s)"

definition init_bucket_desc :: "'a malloc_state_scheme \<Rightarrow> 'a malloc_state_scheme option" where
  "init_bucket_desc s =
     (let (first, s) = get_free_page s
      in if first = 0 then None
         else let (bdesc, s) = link_descs 255 first s;
                  s = set_next bdesc (free_bucket_desc s) s
              in Some (s\<lparr>free_bucket_desc := first\<rparr>))"

text \<open>The chain of free objects of a new page.\<close>

primrec link_objects :: "nat \<Rightarrow> u32 \<Rightarrow> addr \<Rightarrow> 'a mm_state_scheme \<Rightarrow> 'a mm_state_scheme" where
  "link_objects 0 sz cp s = poke cp 0 s"
| "link_objects (Suc n) sz cp s = link_objects n sz (cp + sz) (poke cp (cp + sz) s)"

definition find_bucket :: "u32 \<Rightarrow> nat option" where
  "find_bucket len = List.find (\<lambda>i. bucket_sizes ! i \<ge> len) [0..<length bucket_sizes]"

partial_function (option) find_free_desc :: "'a malloc_state_scheme \<Rightarrow> addr \<Rightarrow> addr option" where
  "find_free_desc s b =
     (if b = 0 then Some 0 else if bd_freeptr s b \<noteq> 0 then Some b else find_free_desc s (bd_next s b))"

definition new_bucket :: "nat \<Rightarrow> 'a malloc_state_scheme \<Rightarrow> (addr \<times> 'a malloc_state_scheme) option" where
  "new_bucket d s = do {
     s \<leftarrow> (if free_bucket_desc s = 0 then init_bucket_desc s else Some s);
     let b = free_bucket_desc s;
     let s = s\<lparr>free_bucket_desc := bd_next s b\<rparr>;
     let s = set_bucket_size b (bucket_sizes ! d) (set_refcnt b 0 s);
     let (cp, s) = get_free_page s;
     let s = set_page b cp (set_freeptr b cp s);
     if cp = 0 then None
     else
       let s = link_objects (4096 div unat (bucket_sizes ! d) - 1) (bucket_sizes ! d) cp s;
           s = set_next b (chain s d) s
       in Some (b, s\<lparr>chain := (chain s)(d := b)\<rparr>) }"

definition malloc :: "u32 \<Rightarrow> 'a malloc_state_scheme \<Rightarrow> (addr \<times> 'a malloc_state_scheme) option" where
  "malloc len s = do {
     d \<leftarrow> find_bucket len;
     b \<leftarrow> find_free_desc s (chain s d);
     (b, s) \<leftarrow> (if b = 0 then new_bucket d s else Some (b, s));
     let retval = bd_freeptr s b;
     let s = set_freeptr b (phys s retval) s;
     Some (retval, set_refcnt b (bd_refcnt s b + 1) s) }"

text \<open>The search of \<open>free_s\<close> through one chain, with the descriptor before the one found.\<close>

partial_function (option) find_page_desc ::
  "'a malloc_state_scheme \<Rightarrow> addr \<Rightarrow> addr \<Rightarrow> addr \<Rightarrow> (addr \<times> addr) option" where
  "find_page_desc s page prev b =
     (if b = 0 then Some (prev, 0) else if bd_page s b = page then Some (prev, b)
      else find_page_desc s page b (bd_next s b))"

partial_function (option) find_dir_desc ::
  "'a malloc_state_scheme \<Rightarrow> addr \<Rightarrow> int \<Rightarrow> nat \<Rightarrow> (nat \<times> addr \<times> addr) option" where
  "find_dir_desc s page sz d =
     (if d \<ge> length bucket_sizes then None
      else if uint (bucket_sizes ! d) < sz then find_dir_desc s page sz (d + 1)
      else do {
        (prev, b) \<leftarrow> find_page_desc s page 0 (chain s d);
        if b = 0 then find_dir_desc s page sz (d + 1) else Some (d, prev, b) })"

partial_function (option) find_prev_desc :: "'a malloc_state_scheme \<Rightarrow> addr \<Rightarrow> addr \<Rightarrow> addr option" where
  "find_prev_desc s b prev =
     (if prev = 0 then Some 0 else if bd_next s prev = b then Some prev else find_prev_desc s b (bd_next s prev))"

definition release_bucket :: "nat \<Rightarrow> addr \<Rightarrow> addr \<Rightarrow> 'a malloc_state_scheme \<Rightarrow> 'a malloc_state_scheme option" where
  "release_bucket d prev b s = do {
     prev \<leftarrow> (if (prev \<noteq> 0 \<and> bd_next s prev \<noteq> b) \<or> (prev = 0 \<and> chain s d \<noteq> b)
              then find_prev_desc s b (chain s d) else Some prev);
     s \<leftarrow> (if prev \<noteq> 0 then Some (set_next prev (bd_next s b) s)
           else if chain s d \<noteq> b then None
           else Some (s\<lparr>chain := (chain s)(d := bd_next s b)\<rparr>));
     s \<leftarrow> free_page (bd_page s b) s;
     let s = set_next b (free_bucket_desc s) s;
     Some (s\<lparr>free_bucket_desc := b\<rparr>) }"

definition free_s :: "addr \<Rightarrow> int \<Rightarrow> 'a malloc_state_scheme \<Rightarrow> 'a malloc_state_scheme option" where
  "free_s obj sz s = do {
     (d, prev, b) \<leftarrow> find_dir_desc s (obj AND 0xfffff000) sz 0;
     let s = poke obj (bd_freeptr s b) s;
     let s = set_freeptr b obj s;
     let s = set_refcnt b (bd_refcnt s b - 1) s;
     if bd_refcnt s b = 0 then release_bucket d prev b s else Some s }"

end
