(* ===== verification/Task.thy ===== *)
theory Task
  imports Memory "HOL-Library.Signed_Division"
begin

text \<open>
  The data of \<open>include/linux/sched.h\<close>, \<open>include/signal.h\<close>, \<open>include/linux/head.h\<close> and the state that
  \<open>kernel/sched.c\<close> adds to the memory state: the task structures, the task table, the clock, the
  timers, and what the current task's data segment holds.

  A pointer to a task structure is the physical address of the page it lives in; \<open>tasks\<close> is that typed
  part of memory, and 0 is \<open>NULL\<close>. A pointer to an in-core inode or to an open file is its index in
  \<open>inode_table\<close> or \<open>file_table\<close>. The contents of the FPU registers are not part of the model.
\<close>

section \<open>Constants\<close>

abbreviation (input) NR_TASKS :: nat where "NR_TASKS \<equiv> 64"
abbreviation (input) HZ :: int where "HZ \<equiv> 100"
abbreviation (input) NR_OPEN :: nat where "NR_OPEN \<equiv> 20"

abbreviation (input) TASK_RUNNING :: int where "TASK_RUNNING \<equiv> 0"
abbreviation (input) TASK_INTERRUPTIBLE :: int where "TASK_INTERRUPTIBLE \<equiv> 1"
abbreviation (input) TASK_UNINTERRUPTIBLE :: int where "TASK_UNINTERRUPTIBLE \<equiv> 2"
abbreviation (input) TASK_ZOMBIE :: int where "TASK_ZOMBIE \<equiv> 3"
abbreviation (input) TASK_STOPPED :: int where "TASK_STOPPED \<equiv> 4"

abbreviation (input) SIGHUP :: nat where "SIGHUP \<equiv> 1"
abbreviation (input) SIGKILL :: nat where "SIGKILL \<equiv> 9"
abbreviation (input) SIGALRM :: nat where "SIGALRM \<equiv> 14"
abbreviation (input) SIGPIPE :: nat where "SIGPIPE \<equiv> 13"
abbreviation (input) SIGCHLD :: nat where "SIGCHLD \<equiv> 17"
abbreviation (input) SIGSTOP :: nat where "SIGSTOP \<equiv> 19"

abbreviation (input) EPERM :: int where "EPERM \<equiv> 1"
abbreviation (input) ENOENT :: int where "ENOENT \<equiv> 2"
abbreviation (input) ESRCH :: int where "ESRCH \<equiv> 3"
abbreviation (input) EINTR :: int where "EINTR \<equiv> 4"
abbreviation (input) EIO :: int where "EIO \<equiv> 5"
abbreviation (input) ENOEXEC :: int where "ENOEXEC \<equiv> 8"
abbreviation (input) EBADF :: int where "EBADF \<equiv> 9"
abbreviation (input) ECHILD :: int where "ECHILD \<equiv> 10"
abbreviation (input) EAGAIN :: int where "EAGAIN \<equiv> 11"
abbreviation (input) ENOMEM :: int where "ENOMEM \<equiv> 12"
abbreviation (input) EACCES :: int where "EACCES \<equiv> 13"
abbreviation (input) ENOTBLK :: int where "ENOTBLK \<equiv> 15"
abbreviation (input) EBUSY :: int where "EBUSY \<equiv> 16"
abbreviation (input) EEXIST :: int where "EEXIST \<equiv> 17"
abbreviation (input) EXDEV :: int where "EXDEV \<equiv> 18"
abbreviation (input) ENODEV :: int where "ENODEV \<equiv> 19"
abbreviation (input) ENOTDIR :: int where "ENOTDIR \<equiv> 20"
abbreviation (input) EISDIR :: int where "EISDIR \<equiv> 21"
abbreviation (input) EINVAL :: int where "EINVAL \<equiv> 22"
abbreviation (input) EMFILE :: int where "EMFILE \<equiv> 24"
abbreviation (input) ENOTTY :: int where "ENOTTY \<equiv> 25"
abbreviation (input) ENOSPC :: int where "ENOSPC \<equiv> 28"
abbreviation (input) ESPIPE :: int where "ESPIPE \<equiv> 29"
abbreviation (input) EROFS :: int where "EROFS \<equiv> 30"
abbreviation (input) ENOSYS :: int where "ENOSYS \<equiv> 38"
abbreviation (input) ENOTEMPTY :: int where "ENOTEMPTY \<equiv> 39"
abbreviation (input) ERROR :: int where "ERROR \<equiv> 99"

text \<open>\<open>1 << (sig - 1)\<close>.\<close>

definition sigbit :: "nat \<Rightarrow> u32" where
  "sigbit n = push_bit (n - 1) 1"

text \<open>C's \<open>/\<close> on signed integers, which truncates towards zero.\<close>

abbreviation cdiv :: "int \<Rightarrow> int \<Rightarrow> int" where
  "cdiv a b \<equiv> a sdiv b"

section \<open>Data\<close>

record sigaction =
  sa_handler :: u32
  sa_mask :: u32
  sa_flags :: u32
  sa_restorer :: u32

record desc_struct =
  desc_a :: u32
  desc_b :: u32

record tss_struct =
  tss_back_link :: u32
  tss_esp0 :: u32
  tss_ss0 :: u32
  tss_esp1 :: u32
  tss_ss1 :: u32
  tss_esp2 :: u32
  tss_ss2 :: u32
  tss_cr3 :: u32
  tss_eip :: u32
  tss_eflags :: u32
  tss_eax :: u32
  tss_ecx :: u32
  tss_edx :: u32
  tss_ebx :: u32
  tss_esp :: u32
  tss_ebp :: u32
  tss_esi :: u32
  tss_edi :: u32
  tss_es :: u32
  tss_cs :: u32
  tss_ss :: u32
  tss_ds :: u32
  tss_fs :: u32
  tss_gs :: u32
  tss_ldt :: u32
  tss_trace_bitmap :: u32

record task_struct =
  t_state :: int
  t_counter :: int
  t_priority :: int
  t_signal :: u32
  t_sigaction :: "nat \<Rightarrow> sigaction"
  t_blocked :: u32
  t_exit_code :: int
  t_start_code :: u32
  t_end_code :: u32
  t_end_data :: u32
  t_brk :: u32
  t_start_stack :: u32
  t_pid :: int
  t_father :: int
  t_pgrp :: int
  t_session :: int
  t_leader :: int
  t_uid :: u16
  t_euid :: u16
  t_suid :: u16
  t_gid :: u16
  t_egid :: u16
  t_sgid :: u16
  t_alarm :: int
  t_utime :: int
  t_stime :: int
  t_cutime :: int
  t_cstime :: int
  t_start_time :: int
  t_used_math :: bool
  t_tty :: int
  t_umask :: u16
  t_pwd :: "nat option"
  t_root :: "nat option"
  t_executable :: "nat option"
  t_close_on_exec :: u32
  t_filp :: "nat \<Rightarrow> nat option"
  t_ldt :: "nat \<Rightarrow> desc_struct"
  t_tss :: tss_struct

record timer =
  tl_jiffies :: int
  tl_fn :: u32
  tl_next :: "nat option"

record sched_state = mm_state +
  tasks :: "addr \<Rightarrow> task_struct"
  task :: "nat \<Rightarrow> addr"
  current :: addr
  init_task :: addr
  last_task_used_math :: addr
  jiffies :: int
  startup_time :: int
  last_pid :: int
  gdt :: "nat \<Rightarrow> desc_struct"
  fs_mem :: "u32 \<Rightarrow> u8"
  ports :: "(u16 \<times> u8) list"
  in_port :: "u16 \<Rightarrow> u8"
  wait_motor :: "nat \<Rightarrow> addr"
  mon_timer :: "nat \<Rightarrow> int"
  moff_timer :: "nat \<Rightarrow> int"
  current_DOR :: u8
  selected :: u8
  timer_list :: "nat \<Rightarrow> timer"
  next_timer :: "nat option"
  beepcount :: int
  tty_pgrp :: "nat \<Rightarrow> int"

section \<open>Access\<close>

abbreviation cur :: "'a sched_state_scheme \<Rightarrow> task_struct" where
  "cur s \<equiv> tasks s (current s)"

definition upd_task ::
  "addr \<Rightarrow> (task_struct \<Rightarrow> task_struct) \<Rightarrow> 'a sched_state_scheme \<Rightarrow> 'a sched_state_scheme" where
  "upd_task p f s = s\<lparr>tasks := (tasks s)(p := f (tasks s p))\<rparr>"

definition suser :: "'a sched_state_scheme \<Rightarrow> bool" where
  "suser s \<longleftrightarrow> t_euid (cur s) = 0"

definition CURRENT_TIME :: "'a sched_state_scheme \<Rightarrow> int" where
  "CURRENT_TIME s = i32 (startup_time s + cdiv (jiffies s) HZ)"

text \<open>The bytes written to I/O ports, in order, and the byte that the hardware offers on each input port.\<close>

definition inb :: "u16 \<Rightarrow> 'a sched_state_scheme \<Rightarrow> u8" where
  "inb port s = in_port s port"

definition outb :: "u8 \<Rightarrow> u16 \<Rightarrow> 'a sched_state_scheme \<Rightarrow> 'a sched_state_scheme" where
  "outb v port s = s\<lparr>ports := ports s @ [(port, v)]\<rparr>"

lemma upd_task_simps [simp]:
  "tasks (upd_task p f s) = (tasks s)(p := f (tasks s p))"
  "task (upd_task p f s) = task s" "current (upd_task p f s) = current s"
  "jiffies (upd_task p f s) = jiffies s" "init_task (upd_task p f s) = init_task s"
  "mem_map (upd_task p f s) = mem_map s" "phys (upd_task p f s) = phys s"
  "HIGH_MEMORY (upd_task p f s) = HIGH_MEMORY s" "last_pid (upd_task p f s) = last_pid s"
  "fs_mem (upd_task p f s) = fs_mem s" "next_timer (upd_task p f s) = next_timer s"
  "timer_list (upd_task p f s) = timer_list s" "startup_time (upd_task p f s) = startup_time s"
  "tty_pgrp (upd_task p f s) = tty_pgrp s" "gdt (upd_task p f s) = gdt s"
  "last_task_used_math (upd_task p f s) = last_task_used_math s"
  by (simp_all add: upd_task_def)

text \<open>Descriptors: the base is spread over bytes 2-4 and 7, the limit over bytes 0-1 and the low half of
  byte 6. \<open>get_limit\<close> is the \<open>lsl\<close> instruction, which expands a limit in pages (bit G, 23), plus 1.\<close>

definition get_base :: "desc_struct \<Rightarrow> u32" where
  "get_base d = drop_bit 16 (desc_a d) OR push_bit 16 (desc_b d AND 0xff) OR (desc_b d AND 0xff000000)"

definition set_base :: "desc_struct \<Rightarrow> u32 \<Rightarrow> desc_struct" where
  "set_base d b = \<lparr>desc_a = (desc_a d AND 0xffff) OR push_bit 16 b,
     desc_b = (desc_b d AND 0x00ffff00) OR (drop_bit 16 b AND 0xff) OR (b AND 0xff000000)\<rparr>"

definition get_limit :: "desc_struct \<Rightarrow> u32" where
  "get_limit d =
     (let l = (desc_a d AND 0xffff) OR (desc_b d AND 0xf0000)
      in (if bit (desc_b d) 23 then push_bit 12 l OR 0xfff else l) + 1)"

definition set_limit :: "desc_struct \<Rightarrow> u32 \<Rightarrow> desc_struct" where
  "set_limit d lim =
     (let l = drop_bit 12 (lim - 1)
      in \<lparr>desc_a = (desc_a d AND 0xffff0000) OR (l AND 0xffff),
          desc_b = (desc_b d AND 0xfff0ffff) OR (l AND 0xf0000)\<rparr>)"

text \<open>\<open>_set_tssldt_desc\<close>: limit 104, base \<open>addr\<close>, type 0x89 (TSS) or 0x82 (LDT). The offsets are those of
  the members \<open>ldt\<close> and \<open>tss\<close> of \<open>task_struct\<close>.\<close>

definition set_tssldt_desc :: "u32 \<Rightarrow> u32 \<Rightarrow> desc_struct" where
  "set_tssldt_desc a type = \<lparr>desc_a = 104 OR push_bit 16 a,
     desc_b = (drop_bit 16 a AND 0xff) OR push_bit 8 type OR (a AND 0xff000000)\<rparr>"

definition LDT_OFFSET :: u32 where "LDT_OFFSET = 720"
definition TSS_OFFSET :: u32 where "TSS_OFFSET = 744"

definition set_tss_desc :: "nat \<Rightarrow> u32 \<Rightarrow> 'a sched_state_scheme \<Rightarrow> 'a sched_state_scheme" where
  "set_tss_desc n a s = s\<lparr>gdt := (gdt s)(n := set_tssldt_desc a 0x89)\<rparr>"

definition set_ldt_desc :: "nat \<Rightarrow> u32 \<Rightarrow> 'a sched_state_scheme \<Rightarrow> 'a sched_state_scheme" where
  "set_ldt_desc n a s = s\<lparr>gdt := (gdt s)(n := set_tssldt_desc a 0x82)\<rparr>"

abbreviation (input) FIRST_TSS_ENTRY :: nat where "FIRST_TSS_ENTRY \<equiv> 4"
abbreviation (input) FIRST_LDT_ENTRY :: nat where "FIRST_LDT_ENTRY \<equiv> 5"

definition LDT_SEL :: "nat \<Rightarrow> u32" where
  "LDT_SEL n = push_bit 4 (of_nat n) + push_bit 3 (of_nat FIRST_LDT_ENTRY)"

lemma mask_u32:
  "(0xff :: u32) = mask 8" "(0xffff :: u32) = mask 16"
  "(0xff000000 :: u32) = push_bit 24 (mask 8)" "(0x00ffff00 :: u32) = push_bit 8 (mask 16)"
  by (simp_all add: mask_eq_exp_minus_1)

lemma get_set_base [simp]: "get_base (set_base d b) = b"
proof (rule bit_word_eqI)
  fix n assume "n < LENGTH(32)"
  then consider "n < 16" | "16 \<le> n" "n < 24" | "24 \<le> n" "n < 32"
    by fastforce
  then show "bit (get_base (set_base d b)) n = bit b n"
    unfolding get_base_def set_base_def mask_u32 desc_struct.simps
    by cases (simp_all add: bit_simps less_diff_conv2)
qed

section \<open>The data segment of the current task (\<open>include/asm/segment.h\<close>)\<close>

definition get_fs_byte :: "u32 \<Rightarrow> 'a sched_state_scheme \<Rightarrow> u8" where
  "get_fs_byte a s = fs_mem s a"

definition put_fs_byte :: "u8 \<Rightarrow> u32 \<Rightarrow> 'a sched_state_scheme \<Rightarrow> 'a sched_state_scheme" where
  "put_fs_byte v a s = s\<lparr>fs_mem := (fs_mem s)(a := v)\<rparr>"

definition get_fs_word :: "u32 \<Rightarrow> 'a sched_state_scheme \<Rightarrow> u16" where
  "get_fs_word a s = ucast (fs_mem s a) OR push_bit 8 (ucast (fs_mem s (a + 1)))"

definition get_fs_long :: "u32 \<Rightarrow> 'a sched_state_scheme \<Rightarrow> u32" where
  "get_fs_long a s = ucast (fs_mem s a) OR push_bit 8 (ucast (fs_mem s (a + 1)))
     OR push_bit 16 (ucast (fs_mem s (a + 2))) OR push_bit 24 (ucast (fs_mem s (a + 3)))"

definition put_fs_word :: "u16 \<Rightarrow> u32 \<Rightarrow> 'a sched_state_scheme \<Rightarrow> 'a sched_state_scheme" where
  "put_fs_word v a s = s\<lparr>fs_mem := (fs_mem s)(a := ucast v, a + 1 := ucast (drop_bit 8 v))\<rparr>"

definition put_fs_long :: "u32 \<Rightarrow> u32 \<Rightarrow> 'a sched_state_scheme \<Rightarrow> 'a sched_state_scheme" where
  "put_fs_long v a s = s\<lparr>fs_mem := (fs_mem s)(a := ucast v, a + 1 := ucast (drop_bit 8 v),
     a + 2 := ucast (drop_bit 16 v), a + 3 := ucast (drop_bit 24 v))\<rparr>"

lemma get_put_fs_long [simp]: "get_fs_long a (put_fs_long v a s) = v"
proof (rule bit_word_eqI)
  fix n assume "n < LENGTH(32)"
  then consider "n < 8" | "8 \<le> n" "n < 16" | "16 \<le> n" "n < 24" | "24 \<le> n" "n < 32"
    by fastforce
  then show "bit (get_fs_long a (put_fs_long v a s)) n = bit v n"
    unfolding get_fs_long_def put_fs_long_def
    by cases (simp_all add: bit_simps less_diff_conv2)
qed

section \<open>The state at start-up\<close>

text \<open>\<open>INIT_TASK\<close>, for the address of \<open>init_task\<close>, and the static initial values of the variables of
  \<open>kernel/sched.c\<close> and \<open>kernel/fork.c\<close>.\<close>

definition INIT_TASK :: "addr \<Rightarrow> task_struct" where
  "INIT_TASK a = \<lparr>t_state = 0, t_counter = 15, t_priority = 15, t_signal = 0,
     t_sigaction = (\<lambda>_. \<lparr>sa_handler = 0, sa_mask = 0, sa_flags = 0, sa_restorer = 0\<rparr>), t_blocked = 0,
     t_exit_code = 0, t_start_code = 0, t_end_code = 0, t_end_data = 0, t_brk = 0, t_start_stack = 0,
     t_pid = 0, t_father = -1, t_pgrp = 0, t_session = 0, t_leader = 0,
     t_uid = 0, t_euid = 0, t_suid = 0, t_gid = 0, t_egid = 0, t_sgid = 0,
     t_alarm = 0, t_utime = 0, t_stime = 0, t_cutime = 0, t_cstime = 0, t_start_time = 0,
     t_used_math = False, t_tty = -1, t_umask = 0x12, t_pwd = None, t_root = None, t_executable = None,
     t_close_on_exec = 0, t_filp = (\<lambda>_. None),
     t_ldt = (\<lambda>i. if i = 1 then \<lparr>desc_a = 0x9f, desc_b = 0xc0fa00\<rparr>
                else if i = 2 then \<lparr>desc_a = 0x9f, desc_b = 0xc0f200\<rparr> else \<lparr>desc_a = 0, desc_b = 0\<rparr>),
     t_tss = \<lparr>tss_back_link = 0, tss_esp0 = 4096 + a, tss_ss0 = 0x10, tss_esp1 = 0, tss_ss1 = 0, tss_esp2 = 0,
       tss_ss2 = 0, tss_cr3 = 0, tss_eip = 0, tss_eflags = 0, tss_eax = 0, tss_ecx = 0, tss_edx = 0, tss_ebx = 0,
       tss_esp = 0, tss_ebp = 0, tss_esi = 0, tss_edi = 0, tss_es = 0x17, tss_cs = 0x17, tss_ss = 0x17,
       tss_ds = 0x17, tss_fs = 0x17, tss_gs = 0x17, tss_ldt = LDT_SEL 0, tss_trace_bitmap = 0x80000000\<rparr>\<rparr>"

definition init_sched :: "addr \<Rightarrow> sched_state" where
  "init_sched a = \<lparr>phys = (\<lambda>_. 0), mem_map = (\<lambda>_. 0), HIGH_MEMORY = 0,
     tasks = (\<lambda>_. INIT_TASK a), task = (\<lambda>i. if i = 0 then a else 0), current = a, init_task = a,
     last_task_used_math = 0, jiffies = 0, startup_time = 0, last_pid = 0,
     gdt = (\<lambda>_. \<lparr>desc_a = 0, desc_b = 0\<rparr>), fs_mem = (\<lambda>_. 0), ports = [], in_port = (\<lambda>_. 0),
     wait_motor = (\<lambda>_. 0), mon_timer = (\<lambda>_. 0), moff_timer = (\<lambda>_. 0), current_DOR = 0x0C, selected = 0,
     timer_list = (\<lambda>_. \<lparr>tl_jiffies = 0, tl_fn = 0, tl_next = None\<rparr>), next_timer = None,
     beepcount = 0, tty_pgrp = (\<lambda>_. 0)\<rparr>"

end
