(* ===== verification/Sched.thy ===== *)
theory Sched
  imports Task
begin

text \<open>
  The scheduler, the sleep and wake-up primitives, the kernel timers and the clock tick of
  \<open>kernel/sched.c\<close>.

  \<open>schedule\<close> ends in \<open>switch_to\<close>, after which another task runs; the caller continues when some later
  \<open>schedule\<close> selects it again. A routine that sleeps is therefore two definitions: the part up to and
  including \<open>schedule\<close>, and a \<open>_resume\<close> part for what follows, applied to the state in which the task runs
  again. \<open>cli\<close> and \<open>sti\<close> have no effect in a model whose steps are atomic.
\<close>

section \<open>schedule\<close>

text \<open>\<open>~(_BLOCKABLE & blocked)\<close>: the signals that are not masked; SIGKILL and SIGSTOP cannot be.\<close>

definition BLOCKABLE :: u32 where
  "BLOCKABLE = NOT (sigbit SIGKILL OR sigbit SIGSTOP)"

definition check_signals :: "int \<Rightarrow> task_struct \<Rightarrow> task_struct" where
  "check_signals now t =
     (let t = (if t_alarm t \<noteq> 0 \<and> t_alarm t < now
               then t\<lparr>t_signal := t_signal t OR sigbit SIGALRM, t_alarm := 0\<rparr> else t)
      in if t_signal t AND NOT (BLOCKABLE AND t_blocked t) \<noteq> 0 \<and> t_state t = TASK_INTERRUPTIBLE
         then t\<lparr>t_state := TASK_RUNNING\<rparr> else t)"

text \<open>\<open>for (p = &LAST_TASK; p > &FIRST_TASK; --p) if ( *p) ...\<close>: the last task first, task 0 excluded.\<close>

primrec for_tasks ::
  "(task_struct \<Rightarrow> task_struct) \<Rightarrow> nat \<Rightarrow> 'a sched_state_scheme \<Rightarrow> 'a sched_state_scheme" where
  "for_tasks f 0 s = s"
| "for_tasks f (Suc n) s =
     for_tasks f n (if task s (Suc n) \<noteq> 0 then upd_task (task s (Suc n)) f s else s)"

primrec pick :: "nat \<Rightarrow> 'a sched_state_scheme \<Rightarrow> int \<Rightarrow> nat \<Rightarrow> int \<times> nat" where
  "pick 0 s c next = (c, next)"
| "pick (Suc n) s c next =
     (let p = task s (Suc n) in
      if p = 0 then pick n s c next
      else if t_state (tasks s p) = TASK_RUNNING \<and> t_counter (tasks s p) > c
           then pick n s (t_counter (tasks s p)) (Suc n)
           else pick n s c next)"

definition recharge :: "task_struct \<Rightarrow> task_struct" where
  "recharge t = t\<lparr>t_counter := i32 (t_counter t div 2 + t_priority t)\<rparr>"

partial_function (option) sched_loop ::
  "'a sched_state_scheme \<Rightarrow> (nat \<times> 'a sched_state_scheme) option" where
  "sched_loop s =
     (let (c, next) = pick 63 s (-1) 0
      in if c \<noteq> 0 then Some (next, s) else sched_loop (for_tasks recharge 63 s))"

definition switch_to :: "nat \<Rightarrow> 'a sched_state_scheme \<Rightarrow> 'a sched_state_scheme" where
  "switch_to n s = s\<lparr>current := task s n\<rparr>"

definition schedule :: "'a sched_state_scheme \<Rightarrow> 'a sched_state_scheme option" where
  "schedule s = do {
     (next, s) \<leftarrow> sched_loop (for_tasks (check_signals (jiffies s)) 63 s);
     Some (switch_to next s) }"

text \<open>\<open>math_state_restore\<close>, without the FPU registers themselves.\<close>

definition math_state_restore :: "'a sched_state_scheme \<Rightarrow> 'a sched_state_scheme" where
  "math_state_restore s =
     (if last_task_used_math s = current s then s
      else
        let s = s\<lparr>last_task_used_math := current s\<rparr>
        in if t_used_math (cur s) then s else upd_task (current s) (t_used_math_update (\<lambda>_. True)) s)"

section \<open>Sleeping and waking\<close>

text \<open>A wait queue is a \<open>struct task_struct *\<close> variable anywhere in the state: how to read it, and how to
  assign it. \<open>NULL\<close> as the address of the queue is \<open>None\<close>.\<close>

type_synonym 's waitq = "('s \<Rightarrow> addr) \<times> (addr \<Rightarrow> 's \<Rightarrow> 's)"

definition set_state :: "addr \<Rightarrow> int \<Rightarrow> 'a sched_state_scheme \<Rightarrow> 'a sched_state_scheme" where
  "set_state p v = upd_task p (t_state_update (\<lambda>_. v))"

definition sys_pause :: "'a sched_state_scheme \<Rightarrow> (int \<times> 'a sched_state_scheme) option" where
  "sys_pause s = do { s \<leftarrow> schedule (set_state (current s) TASK_INTERRUPTIBLE s); Some (0, s) }"

text \<open>\<open>sleep_on\<close> up to \<open>schedule\<close> yields the local variable \<open>tmp\<close> (the previous head of the queue); with a
  \<open>NULL\<close> queue it returns at once, with nothing left to do.\<close>

definition sleep_on ::
  "'a sched_state_scheme waitq option \<Rightarrow> 'a sched_state_scheme \<Rightarrow> (addr option \<times> 'a sched_state_scheme) option"
  where
  "sleep_on p s = (case p of
     None \<Rightarrow> Some (None, s)
   | Some (rd, wr) \<Rightarrow>
       if current s = init_task s then None
       else do {
         let tmp = rd s;
         s \<leftarrow> schedule (set_state (current s) TASK_UNINTERRUPTIBLE (wr (current s) s));
         Some (Some tmp, s) })"

definition sleep_on_resume :: "addr \<Rightarrow> 'a sched_state_scheme \<Rightarrow> 'a sched_state_scheme" where
  "sleep_on_resume tmp s = (if tmp \<noteq> 0 then set_state tmp 0 s else s)"

definition interruptible_sleep_on ::
  "'a sched_state_scheme waitq option \<Rightarrow> 'a sched_state_scheme \<Rightarrow> (addr option \<times> 'a sched_state_scheme) option"
  where
  "interruptible_sleep_on p s = (case p of
     None \<Rightarrow> Some (None, s)
   | Some (rd, wr) \<Rightarrow>
       if current s = init_task s then None
       else do {
         let tmp = rd s;
         s \<leftarrow> schedule (set_state (current s) TASK_INTERRUPTIBLE (wr (current s) s));
         Some (Some tmp, s) })"

text \<open>After the wake-up: \<open>True\<close> says that the call returns; \<open>False\<close> that the task had to go back to sleep
  (\<open>goto repeat\<close>), because a later sleeper is still queued.\<close>

definition interruptible_sleep_on_resume ::
  "'a sched_state_scheme waitq \<Rightarrow> addr \<Rightarrow> 'a sched_state_scheme \<Rightarrow> (bool \<times> 'a sched_state_scheme) option" where
  "interruptible_sleep_on_resume p tmp s = (case p of (rd, wr) \<Rightarrow>
     if rd s \<noteq> 0 \<and> rd s \<noteq> current s then do {
       let s = set_state (rd s) 0 s;
       s \<leftarrow> schedule (set_state (current s) TASK_INTERRUPTIBLE s);
       Some (False, s) }
     else
       let s = wr 0 s
       in Some (True, if tmp \<noteq> 0 then set_state tmp 0 s else s))"

definition wake_up ::
  "'a sched_state_scheme waitq option \<Rightarrow> 'a sched_state_scheme \<Rightarrow> 'a sched_state_scheme" where
  "wake_up p s = (case p of
     None \<Rightarrow> s
   | Some (rd, wr) \<Rightarrow> if rd s \<noteq> 0 then wr 0 (set_state (rd s) 0 s) else s)"

section \<open>Floppy motor timers\<close>

definition FD_DOR :: u16 where "FD_DOR = 0x3f2"

definition motor_queue :: "nat \<Rightarrow> 'a sched_state_scheme waitq" where
  "motor_queue nr = (\<lambda>s. wait_motor s nr, \<lambda>v s. s\<lparr>wait_motor := (wait_motor s)(nr := v)\<rparr>)"

definition ticks_to_floppy_on ::
  "nat \<Rightarrow> 'a sched_state_scheme \<Rightarrow> (int \<times> 'a sched_state_scheme) option" where
  "ticks_to_floppy_on nr s =
     (if nr > 3 then None
      else
        let s = s\<lparr>moff_timer := (moff_timer s)(nr := 10000)\<rparr>;
            mask = (push_bit nr 0x10 :: u8) OR current_DOR s;
            mask = (if selected s = 0 then (mask AND 0xFC) OR of_nat nr else mask);
            s = (if mask \<noteq> current_DOR s then
                   let s = outb mask FD_DOR s;
                       s = (if (mask XOR current_DOR s) AND 0xf0 \<noteq> 0
                            then s\<lparr>mon_timer := (mon_timer s)(nr := HZ div 2)\<rparr>
                            else if mon_timer s nr < 2
                            then s\<lparr>mon_timer := (mon_timer s)(nr := 2)\<rparr> else s)
                   in s\<lparr>current_DOR := mask\<rparr>
                 else s)
        in Some (mon_timer s nr, s))"

text \<open>One round of the loop of \<open>floppy_on\<close>: \<open>None\<close> when the motor is up to speed, otherwise the task
  sleeps, and the next round runs when it is woken.\<close>

definition floppy_on ::
  "nat \<Rightarrow> 'a sched_state_scheme \<Rightarrow> (addr option \<times> 'a sched_state_scheme) option" where
  "floppy_on nr s = do {
     (ticks, s) \<leftarrow> ticks_to_floppy_on nr s;
     if ticks \<noteq> 0 then sleep_on (Some (motor_queue nr)) s else Some (None, s) }"

definition floppy_off :: "nat \<Rightarrow> 'a sched_state_scheme \<Rightarrow> 'a sched_state_scheme" where
  "floppy_off nr s = s\<lparr>moff_timer := (moff_timer s)(nr := 3 * HZ)\<rparr>"

definition floppy_timer_step :: "nat \<Rightarrow> 'a sched_state_scheme \<Rightarrow> 'a sched_state_scheme" where
  "floppy_timer_step i s =
     (let mask = (push_bit i 0x10 :: u8) in
      if mask AND current_DOR s = 0 then s
      else if mon_timer s i \<noteq> 0 then
        let s = s\<lparr>mon_timer := (mon_timer s)(i := i32 (mon_timer s i - 1))\<rparr>
        in if mon_timer s i = 0 then wake_up (Some (motor_queue i)) s else s
      else if moff_timer s i = 0 then
        let s = s\<lparr>current_DOR := current_DOR s AND NOT mask\<rparr>
        in outb (current_DOR s) FD_DOR s
      else s\<lparr>moff_timer := (moff_timer s)(i := i32 (moff_timer s i - 1))\<rparr>)"

definition do_floppy_timer :: "'a sched_state_scheme \<Rightarrow> 'a sched_state_scheme" where
  "do_floppy_timer s = fold floppy_timer_step [0..<4] s"

section \<open>Kernel timers\<close>

abbreviation (input) TIME_REQUESTS :: nat where "TIME_REQUESTS \<equiv> 64"

primrec find_timer :: "(nat \<Rightarrow> timer) \<Rightarrow> nat \<Rightarrow> nat \<Rightarrow> nat option" where
  "find_timer ts i 0 = None"
| "find_timer ts i (Suc n) = (if tl_fn (ts i) = 0 then Some i else find_timer ts (Suc i) n)"

text \<open>The loop that moves the new request to its place exchanges the contents of neighbouring nodes; the
  links stay as they are.\<close>

definition swap_timers :: "nat \<Rightarrow> nat \<Rightarrow> (nat \<Rightarrow> timer) \<Rightarrow> (nat \<Rightarrow> timer)" where
  "swap_timers p q ts =
     (let j = i32 (tl_jiffies (ts p) - tl_jiffies (ts q))
      in ts(p := (ts p)\<lparr>tl_jiffies := tl_jiffies (ts q), tl_fn := tl_fn (ts q)\<rparr>,
            q := (ts q)\<lparr>tl_jiffies := j, tl_fn := tl_fn (ts p)\<rparr>))"

partial_function (option) sift_timer :: "nat \<Rightarrow> (nat \<Rightarrow> timer) \<Rightarrow> (nat \<Rightarrow> timer) option" where
  "sift_timer p ts = (case tl_next (ts p) of
     None \<Rightarrow> Some ts
   | Some q \<Rightarrow> if tl_jiffies (ts q) < tl_jiffies (ts p) then sift_timer q (swap_timers p q ts) else Some ts)"

text \<open>\<open>call fn s\<close> is the effect of calling the function at address \<open>fn\<close>, which may panic and may itself add timers.\<close>

definition add_timer ::
  "(u32 \<Rightarrow> 'a sched_state_scheme \<Rightarrow> 'a sched_state_scheme option) \<Rightarrow> int \<Rightarrow> u32
     \<Rightarrow> 'a sched_state_scheme \<Rightarrow> 'a sched_state_scheme option" where
  "add_timer call j fn s =
     (if fn = 0 then Some s
      else if j \<le> 0 then call fn s
      else case find_timer (timer_list s) 0 TIME_REQUESTS of
        None \<Rightarrow> None
      | Some p \<Rightarrow> do {
          ts \<leftarrow> sift_timer p ((timer_list s)(p := \<lparr>tl_jiffies = j, tl_fn = fn, tl_next = next_timer s\<rparr>));
          Some (s\<lparr>timer_list := ts, next_timer := Some p\<rparr>) })"

partial_function (option) run_timers ::
  "(u32 \<Rightarrow> 'a sched_state_scheme \<Rightarrow> 'a sched_state_scheme option)
     \<Rightarrow> 'a sched_state_scheme \<Rightarrow> 'a sched_state_scheme option" where
  "run_timers call s = (case next_timer s of
     None \<Rightarrow> Some s
   | Some p \<Rightarrow>
       if tl_jiffies (timer_list s p) \<le> 0 then
         let fn = tl_fn (timer_list s p)
         in do {
           s \<leftarrow> call fn (s\<lparr>timer_list := (timer_list s)(p := (timer_list s p)\<lparr>tl_fn := 0\<rparr>),
                              next_timer := tl_next (timer_list s p)\<rparr>);
           run_timers call s }
       else Some s)"

definition sysbeepstop :: "'a sched_state_scheme \<Rightarrow> 'a sched_state_scheme" where
  "sysbeepstop s = outb (inb 0x61 s AND 0xFC) 0x61 s"

definition do_timer ::
  "(u32 \<Rightarrow> 'a sched_state_scheme \<Rightarrow> 'a sched_state_scheme option) \<Rightarrow> int
     \<Rightarrow> 'a sched_state_scheme \<Rightarrow> 'a sched_state_scheme option" where
  "do_timer call cpl s = do {
     let s = (if beepcount s \<noteq> 0 then
                let s = s\<lparr>beepcount := i32 (beepcount s - 1)\<rparr>
                in if beepcount s = 0 then sysbeepstop s else s
              else s);
     let s = upd_task (current s)
       (\<lambda>t. if cpl \<noteq> 0 then t\<lparr>t_utime := i32 (t_utime t + 1)\<rparr> else t\<lparr>t_stime := i32 (t_stime t + 1)\<rparr>) s;
     s \<leftarrow> (case next_timer s of
            None \<Rightarrow> Some s
          | Some p \<Rightarrow> run_timers call (s\<lparr>timer_list := (timer_list s)
              (p := (timer_list s p)\<lparr>tl_jiffies := i32 (tl_jiffies (timer_list s p) - 1)\<rparr>)\<rparr>));
     let s = (if current_DOR s AND 0xf0 \<noteq> 0 then do_floppy_timer s else s);
     let s = upd_task (current s) (\<lambda>t. t\<lparr>t_counter := i32 (t_counter t - 1)\<rparr>) s;
     if t_counter (cur s) > 0 then Some s
     else
       let s = upd_task (current s) (t_counter_update (\<lambda>_. 0)) s
       in if cpl = 0 then Some s else schedule s }"

section \<open>System calls of sched.c\<close>

definition sys_alarm :: "int \<Rightarrow> 'a sched_state_scheme \<Rightarrow> int \<times> 'a sched_state_scheme" where
  "sys_alarm seconds s =
     (let old = t_alarm (cur s);
          old = (if old \<noteq> 0 then cdiv (i32 (old - jiffies s)) HZ else old)
      in (old, upd_task (current s)
            (t_alarm_update (\<lambda>_. if seconds > 0 then i32 (jiffies s + HZ * seconds) else 0)) s))"

definition sys_getpid :: "'a sched_state_scheme \<Rightarrow> int" where "sys_getpid s = t_pid (cur s)"
definition sys_getppid :: "'a sched_state_scheme \<Rightarrow> int" where "sys_getppid s = t_father (cur s)"
definition sys_getuid :: "'a sched_state_scheme \<Rightarrow> int" where "sys_getuid s = uint (t_uid (cur s))"
definition sys_geteuid :: "'a sched_state_scheme \<Rightarrow> int" where "sys_geteuid s = uint (t_euid (cur s))"
definition sys_getgid :: "'a sched_state_scheme \<Rightarrow> int" where "sys_getgid s = uint (t_gid (cur s))"
definition sys_getegid :: "'a sched_state_scheme \<Rightarrow> int" where "sys_getegid s = uint (t_egid (cur s))"

definition sys_nice :: "int \<Rightarrow> 'a sched_state_scheme \<Rightarrow> int \<times> 'a sched_state_scheme" where
  "sys_nice increment s =
     (0, if i32 (t_priority (cur s) - increment) > 0
         then upd_task (current s) (\<lambda>t. t\<lparr>t_priority := i32 (t_priority t - increment)\<rparr>) s else s)"

text \<open>\<open>sched_init\<close>: the descriptors of task 0, an empty task table, and the programming of the 8253 timer
  and the interrupt mask. The gates of the IDT are added in \<open>Start\<close>.\<close>

primrec clear_tasks :: "nat \<Rightarrow> nat \<Rightarrow> nat \<Rightarrow> 'a sched_state_scheme \<Rightarrow> 'a sched_state_scheme" where
  "clear_tasks 0 i p s = s"
| "clear_tasks (Suc n) i p s =
     clear_tasks n (Suc i) (p + 2)
       (s\<lparr>task := (task s)(i := 0),
          gdt := (gdt s)(p := \<lparr>desc_a = 0, desc_b = 0\<rparr>, p + 1 := \<lparr>desc_a = 0, desc_b = 0\<rparr>)\<rparr>)"

definition LATCH :: u16 where "LATCH = 1193180 div 100"

definition sched_init :: "'a sched_state_scheme \<Rightarrow> 'a sched_state_scheme" where
  "sched_init s =
     (let s = set_tss_desc FIRST_TSS_ENTRY (init_task s + TSS_OFFSET) s;
          s = set_ldt_desc FIRST_LDT_ENTRY (init_task s + LDT_OFFSET) s;
          s = clear_tasks 63 1 (2 + FIRST_TSS_ENTRY) s;
          s = outb 0x36 0x43 s;
          s = outb (ucast (LATCH AND 0xff)) 0x40 s;
          s = outb (ucast (drop_bit 8 LATCH)) 0x40 s
      in outb (inb 0x21 s AND NOT 0x01) 0x21 s)"

end
