(* ===== verification/Scheduling.thy ===== *)
theory Scheduling
  imports Sched
begin

text \<open>
  Properties of the scheduler: which task \<open>schedule\<close> picks, that it always picks one, the bounds on
  counters that it preserves; that no task sleeping on a wait queue is lost; and the refinement of the
  linked timer requests to a list of (delay, function) pairs.
\<close>

section \<open>The task that schedule picks\<close>

definition in_table :: "'a sched_state_scheme \<Rightarrow> nat \<Rightarrow> bool" where
  "in_table s i \<longleftrightarrow> 0 < i \<and> i < NR_TASKS \<and> task s i \<noteq> 0"

definition runnable :: "'a sched_state_scheme \<Rightarrow> nat \<Rightarrow> bool" where
  "runnable s i \<longleftrightarrow> in_table s i \<and> t_state (tasks s (task s i)) = TASK_RUNNING"

text \<open>Counters are between 0 and twice the priority; the bound on the priority keeps the arithmetic of
  \<open>schedule\<close> away from overflow. A page holds the task structure of one slot only.\<close>

definition task_ok :: "task_struct \<Rightarrow> bool" where
  "task_ok t \<longleftrightarrow> 0 < t_priority t \<and> t_priority t \<le> 0x20000000
     \<and> 0 \<le> t_counter t \<and> t_counter t \<le> 2 * t_priority t"

definition sched_ok :: "'a sched_state_scheme \<Rightarrow> bool" where
  "sched_ok s \<longleftrightarrow> (\<forall>i. in_table s i \<longrightarrow> task_ok (tasks s (task s i)))
     \<and> (\<forall>i j. in_table s i \<longrightarrow> in_table s j \<longrightarrow> task s i = task s j \<longrightarrow> i = j)"

lemma for_tasks_frame [simp]:
  "task (for_tasks f n s) = task s" "current (for_tasks f n s) = current s"
  "jiffies (for_tasks f n s) = jiffies s" "init_task (for_tasks f n s) = init_task s"
  "mem_map (for_tasks f n s) = mem_map s" "phys (for_tasks f n s) = phys s"
  "HIGH_MEMORY (for_tasks f n s) = HIGH_MEMORY s" "last_pid (for_tasks f n s) = last_pid s"
  by (induction n arbitrary: s) simp_all

lemma in_table_for_tasks [simp]: "in_table (for_tasks f n s) i = in_table s i"
  by (simp add: in_table_def)

lemma for_tasks_other:
  "(\<And>i. 0 < i \<Longrightarrow> i \<le> n \<Longrightarrow> task s i \<noteq> p) \<Longrightarrow> tasks (for_tasks f n s) p = tasks s p"
  by (induction n arbitrary: s) auto

lemma for_tasks_at:
  assumes "sched_ok s \<or> (\<forall>i j. in_table s i \<longrightarrow> in_table s j \<longrightarrow> task s i = task s j \<longrightarrow> i = j)"
    "in_table s i" "n < NR_TASKS"
  shows "tasks (for_tasks f n s) (task s i) =
    (if i \<le> n then f (tasks s (task s i)) else tasks s (task s i))"
proof -
  have inj: "\<forall>i j. in_table s i \<longrightarrow> in_table s j \<longrightarrow> task s i = task s j \<longrightarrow> i = j"
    using assms(1) by (auto simp: sched_ok_def)
  from inj assms(2,3) show ?thesis
  proof (induction n arbitrary: s)
    case (Suc n)
    let ?s = "if task s (Suc n) \<noteq> 0 then upd_task (task s (Suc n)) f s else s"
    have t [simp]: "task ?s = task s" by simp
    have it: "in_table ?s j = in_table s j" for j by (simp add: in_table_def)
    have same: "task s i = task s (Suc n) \<longleftrightarrow> i = Suc n"
      using Suc.prems(1) [rule_format, of i "Suc n"] Suc.prems(2,3) by (auto simp: in_table_def)
    have "tasks (for_tasks f n ?s) (task ?s i) = (if i \<le> n then f (tasks ?s (task ?s i)) else tasks ?s (task ?s i))"
      by (rule Suc.IH) (use Suc.prems in \<open>simp_all add: it\<close>)
    moreover have "tasks ?s (task s i) = (if i = Suc n then f (tasks s (task s i)) else tasks s (task s i))"
      using same Suc.prems(2) by (auto simp: in_table_def)
    ultimately show ?case using Suc.prems(2) by (cases "i = Suc n") (auto simp: in_table_def)
  qed (simp add: in_table_def)
qed

text \<open>The scan: the largest counter above \<open>c\<close>, and the largest slot that has it.\<close>

lemma pick_spec:
  assumes "pick n s c next = (c', m)" "n < NR_TASKS"
  shows "c \<le> c' \<and> (\<forall>i\<le>n. runnable s i \<longrightarrow> t_counter (tasks s (task s i)) \<le> c')
    \<and> (m = next \<and> c' = c \<or>
       m \<le> n \<and> runnable s m \<and> t_counter (tasks s (task s m)) = c' \<and> c < c'
       \<and> (\<forall>i\<le>n. m < i \<longrightarrow> runnable s i \<longrightarrow> t_counter (tasks s (task s i)) < c'))"
  using assms
proof (induction n arbitrary: c "next")
  case 0
  then show ?case by (auto simp: runnable_def in_table_def)
next
  case (Suc n)
  let ?k = "t_counter (tasks s (task s (Suc n)))"
  show ?case
  proof (cases "runnable s (Suc n) \<and> c < ?k")
    case True
    then have "pick n s ?k (Suc n) = (c', m)"
      using Suc.prems by (auto simp: runnable_def in_table_def Let_def)
    from Suc.IH [OF this] Suc.prems True show ?thesis by (auto simp: le_Suc_eq)
  next
    case False
    then have "pick n s c next = (c', m)"
      using Suc.prems by (auto simp: runnable_def in_table_def Let_def split: if_splits)
    from Suc.IH [OF this] Suc.prems False show ?thesis by (auto simp: le_Suc_eq)
  qed
qed

lemma task_ok_recharge: "task_ok t \<Longrightarrow> task_ok (recharge t) \<and> 0 < t_counter (recharge t)"
  by (auto simp: task_ok_def recharge_def)

lemma task_ok_check: "task_ok t \<Longrightarrow> task_ok (check_signals now t)"
  by (simp add: task_ok_def check_signals_def Let_def)

lemma sched_ok_for_tasks:
  assumes "sched_ok s" "\<And>t. task_ok t \<Longrightarrow> task_ok (f t)" "n < NR_TASKS"
  shows "sched_ok (for_tasks f n s)"
  using assms for_tasks_at [OF disjI1, OF assms(1) _ assms(3), of _ f]
  by (auto simp: sched_ok_def)

lemma runnable_recharge:
  assumes "sched_ok s" shows "runnable (for_tasks recharge 63 s) i = runnable s i"
  using for_tasks_at [OF disjI1, OF assms, of i 63 recharge]
  by (auto simp: runnable_def in_table_def recharge_def)

lemma recharged_positive:
  assumes "sched_ok s" "in_table s i"
  shows "0 < t_counter (tasks (for_tasks recharge 63 s) (task s i))"
  using for_tasks_at [OF disjI1, OF assms, of 63 recharge] assms task_ok_recharge
  by (auto simp: sched_ok_def in_table_def)

text \<open>The slot that is picked once the counters are charged.\<close>

definition picked :: "'a sched_state_scheme \<Rightarrow> nat \<Rightarrow> bool" where
  "picked s m \<longleftrightarrow>
     (m = 0 \<and> (\<forall>i. \<not> runnable s i)) \<or>
     (runnable s m \<and> 0 < t_counter (tasks s (task s m))
      \<and> (\<forall>i. runnable s i \<longrightarrow> t_counter (tasks s (task s i)) \<le> t_counter (tasks s (task s m)))
      \<and> (\<forall>i. runnable s i \<longrightarrow> m < i \<longrightarrow> t_counter (tasks s (task s i)) < t_counter (tasks s (task s m))))"

lemma pick_picked:
  assumes "pick 63 s (-1) 0 = (c, m)" "c \<noteq> 0" "\<And>i. in_table s i \<Longrightarrow> 0 \<le> t_counter (tasks s (task s i))"
  shows "picked s m"
proof -
  have r: "runnable s i \<Longrightarrow> i \<le> 63 \<and> 0 \<le> t_counter (tasks s (task s i))" for i
    using assms(3) [of i] by (auto simp: runnable_def in_table_def)
  from pick_spec [OF assms(1)] assms(2) r show ?thesis
    by (fastforce simp: picked_def)
qed

lemma sched_loop_ok:
  assumes "sched_ok s"
  shows "\<exists>m s'. sched_loop s = Some (m, s') \<and> (s' = s \<or> s' = for_tasks recharge 63 s)
    \<and> sched_ok s' \<and> picked s' m"
proof -
  have nn: "in_table s i \<Longrightarrow> 0 \<le> t_counter (tasks s (task s i))" for i
    using assms by (auto simp: sched_ok_def task_ok_def)
  obtain c m where p: "pick 63 s (-1) 0 = (c, m)" by (cases "pick 63 s (-1) 0")
  show ?thesis
  proof (cases "c = 0")
    case False
    then show ?thesis
      using p pick_picked [OF p False nn] assms by (subst sched_loop.simps) simp
  next
    case True
    let ?s = "for_tasks recharge 63 s"
    have r: "runnable s m" using pick_spec [OF p] True by auto
    then have m: "m \<le> 63" "0 < t_counter (tasks ?s (task s m))"
      using recharged_positive [OF assms, of m] by (auto simp: runnable_def in_table_def)
    have ok: "sched_ok ?s" by (rule sched_ok_for_tasks [OF assms]) (simp_all add: task_ok_recharge)
    obtain c2 m2 where p2: "pick 63 ?s (-1) 0 = (c2, m2)" by (cases "pick 63 ?s (-1) 0")
    have "0 < c2" using pick_spec [OF p2] r m runnable_recharge [OF assms, of m] by force
    moreover have "in_table ?s i \<Longrightarrow> 0 \<le> t_counter (tasks ?s (task ?s i))" for i
      using recharged_positive [OF assms, of i] by simp
    ultimately have "picked ?s m2" using pick_picked [OF p2] by simp
    then show ?thesis
      using p p2 True \<open>0 < c2\<close> ok by (subst sched_loop.simps, simp, subst sched_loop.simps) simp
  qed
qed

lemma switch_to_simps [simp]:
  "tasks (switch_to m s) = tasks s" "task (switch_to m s) = task s" "current (switch_to m s) = task s m"
  "jiffies (switch_to m s) = jiffies s" "init_task (switch_to m s) = init_task s"
  "runnable (switch_to m s) i = runnable s i" "picked (switch_to m s) k = picked s k"
  "sched_ok (switch_to m s) = sched_ok s"
  by (simp_all add: runnable_def in_table_def picked_def sched_ok_def switch_to_def)

lemma schedule_ok:
  assumes "sched_ok s"
  shows "\<exists>m s'. schedule s = Some s' \<and> m < NR_TASKS \<and> current s' = task s m \<and> picked s' m \<and> sched_ok s'
    \<and> task s' = task s \<and> jiffies s' = jiffies s \<and> init_task s' = init_task s
    \<and> (\<forall>i. in_table s i \<longrightarrow> t_state (tasks s' (task s i)) = t_state (check_signals (jiffies s) (tasks s (task s i))))"
proof -
  let ?s = "for_tasks (check_signals (jiffies s)) 63 s"
  have "sched_ok ?s" by (rule sched_ok_for_tasks [OF assms]) (simp_all add: task_ok_check)
  then obtain m s' where l: "sched_loop ?s = Some (m, s')" "s' = ?s \<or> s' = for_tasks recharge 63 ?s" "sched_ok s'"
    "picked s' m" using sched_loop_ok by blast
  have st: "t_state (tasks s' (task s i)) = t_state (check_signals (jiffies s) (tasks s (task s i)))"
    if "in_table s i" for i
    using l(2) for_tasks_at [OF disjI1, OF assms that, of 63 "check_signals (jiffies s)"]
      for_tasks_at [OF disjI1, OF \<open>sched_ok ?s\<close>, of i 63 recharge] that
    by (auto simp: recharge_def in_table_def)
  have t: "task s' = task s" "jiffies s' = jiffies s" "init_task s' = init_task s" using l(2) by auto
  have m: "m < NR_TASKS" using l(4) by (auto simp: picked_def runnable_def in_table_def)
  have "schedule s = Some (switch_to m s')" using l(1) by (simp add: schedule_def)
  then show ?thesis
    using l m t st by (intro exI [of _ m] exI [of _ "switch_to m s'"]) auto
qed


section \<open>No sleeper is lost\<close>

text \<open>The state of the tasks sleeping on one queue: the state of the kernel, and for each task inside
  \<open>sleep_on\<close> the value of its local variable \<open>tmp\<close>. A step is a task going to sleep, a task that runs
  again leaving \<open>sleep_on\<close>, a wake-up (from a task or an interrupt), a task switch, or any change to the
  task structure of a task outside the queue.\<close>

inductive sleep_step ::
  "'a sched_state_scheme waitq \<Rightarrow> 'a sched_state_scheme \<times> (addr \<Rightarrow> addr option)
     \<Rightarrow> 'a sched_state_scheme \<times> (addr \<Rightarrow> addr option) \<Rightarrow> bool" for q where
  sleep: "w (current s) = None \<Longrightarrow> current s \<noteq> 0 \<Longrightarrow> sleep_on (Some q) s = Some (Some tmp, s')
    \<Longrightarrow> sleep_step q (s, w) (s', w(current s \<mapsto> tmp))"
| resume: "w (current s) = Some tmp
    \<Longrightarrow> sleep_step q (s, w) (sleep_on_resume tmp s, w(current s := None))"
| wake: "sleep_step q (s, w) (wake_up (Some q) s, w)"
| switch: "schedule s = Some s' \<Longrightarrow> sleep_step q (s, w) (s', w)"
| run: "w p = None \<Longrightarrow> sleep_step q (s, w) (upd_task p f s, w)"

definition links :: "(addr \<Rightarrow> addr option) \<Rightarrow> (addr \<times> addr) set" where
  "links w = {(a, b). w a = Some b}"

definition asleep :: "'a sched_state_scheme \<Rightarrow> (addr \<Rightarrow> addr option) \<Rightarrow> addr \<Rightarrow> bool" where
  "asleep s w t \<longleftrightarrow> w t \<noteq> None \<and> t_state (tasks s t) \<noteq> TASK_RUNNING"

text \<open>The starting points from which sleepers will be woken: the head of the queue, and the \<open>tmp\<close> of every
  task that has been woken and has still to leave \<open>sleep_on\<close>.\<close>

definition wake_root ::
  "'a sched_state_scheme waitq \<Rightarrow> 'a sched_state_scheme \<Rightarrow> (addr \<Rightarrow> addr option) \<Rightarrow> addr \<Rightarrow> bool" where
  "wake_root q s w x \<longleftrightarrow> x = fst q s \<or> (\<exists>u. w u = Some x \<and> t_state (tasks s u) = TASK_RUNNING)"

definition covered ::
  "'a sched_state_scheme waitq \<Rightarrow> 'a sched_state_scheme \<Rightarrow> (addr \<Rightarrow> addr option) \<Rightarrow> addr \<Rightarrow> bool" where
  "covered q s w t \<longleftrightarrow> (\<exists>x. wake_root q s w x \<and> (x, t) \<in> (links w)\<^sup>*)"

definition queue_inv ::
  "'a sched_state_scheme waitq \<Rightarrow> 'a sched_state_scheme \<times> (addr \<Rightarrow> addr option) \<Rightarrow> bool" where
  "queue_inv q = (\<lambda>(s, w). w 0 = None \<and> (\<forall>t. asleep s w t \<longrightarrow> covered q s w t))"

lemma coveredI_head: "x = fst q s \<Longrightarrow> (x, t) \<in> (links w)\<^sup>* \<Longrightarrow> covered q s w t"
  by (auto simp: covered_def wake_root_def)

lemma coveredI_run:
  "w u = Some x \<Longrightarrow> t_state (tasks s u) = TASK_RUNNING \<Longrightarrow> (x, t) \<in> (links w)\<^sup>* \<Longrightarrow> covered q s w t"
  by (auto simp: covered_def wake_root_def)

text \<open>Scheduling only ever makes tasks runnable.\<close>

lemma for_tasks_states:
  assumes "\<And>t. t_state (f t) = t_state t \<or> t_state t = TASK_INTERRUPTIBLE \<and> t_state (f t) = TASK_RUNNING"
  shows "t_state (tasks (for_tasks f n s) p) = t_state (tasks s p)
    \<or> t_state (tasks s p) = TASK_INTERRUPTIBLE \<and> t_state (tasks (for_tasks f n s) p) = TASK_RUNNING"
proof (induction n arbitrary: s)
  case (Suc n)
  let ?s = "if task s (Suc n) \<noteq> 0 then upd_task (task s (Suc n)) f s else s"
  have "t_state (tasks ?s p) = t_state (tasks s p)
    \<or> t_state (tasks s p) = TASK_INTERRUPTIBLE \<and> t_state (tasks ?s p) = TASK_RUNNING"
    using assms [of "tasks s p"] by auto
  moreover note Suc.IH [of ?s]
  ultimately show ?case by auto
qed simp

lemma check_signals_state:
  "t_state (check_signals now t) = t_state t
    \<or> t_state t = TASK_INTERRUPTIBLE \<and> t_state (check_signals now t) = TASK_RUNNING"
  by (simp add: check_signals_def Let_def)

lemma recharge_state: "t_state (recharge t) = t_state t"
  by (simp add: recharge_def)

lemma for_tasks_keep_state:
  "(\<And>t. t_state (f t) = t_state t) \<Longrightarrow> t_state (tasks (for_tasks f n s) p) = t_state (tasks s p)"
  by (induction n arbitrary: s) auto

lemma sched_loop_iterates:
  assumes "sched_loop s = Some r" shows "\<exists>k. snd r = (for_tasks recharge 63 ^^ k) s"
proof (rule sched_loop.raw_induct [OF _ assms])
  fix rec s r
  assume IH: "\<And>s r. rec s = Some r \<Longrightarrow> \<exists>k. snd r = (for_tasks recharge 63 ^^ k) s"
    and b: "(let (c, m) = pick 63 s (- 1) 0 in if c \<noteq> 0 then Some (m, s) else rec (for_tasks recharge 63 s)) = Some r"
  obtain c m where p: "pick 63 s (- 1) 0 = (c, m)" by (cases "pick 63 s (- 1) 0")
  show "\<exists>k. snd r = (for_tasks recharge 63 ^^ k) s"
  proof (cases "c = 0")
    case True
    then have "rec (for_tasks recharge 63 s) = Some r" using b p by simp
    from IH [OF this] obtain k where "snd r = (for_tasks recharge 63 ^^ k) (for_tasks recharge 63 s)" by blast
    then show ?thesis by (intro exI [of _ "Suc k"]) (simp add: funpow_swap1)
  next
    case False
    then have "r = (m, s)" using b p by simp
    then show ?thesis by (intro exI [of _ 0]) simp
  qed
qed

lemma schedule_cases:
  assumes "schedule s = Some s'"
  obtains k m where "s' = switch_to m ((for_tasks recharge 63 ^^ k) (for_tasks (check_signals (jiffies s)) 63 s))"
proof -
  obtain m s1 where l: "sched_loop (for_tasks (check_signals (jiffies s)) 63 s) = Some (m, s1)" "s' = switch_to m s1"
    using assms by (auto simp: schedule_def bind_eq_Some_conv)
  from sched_loop_iterates [OF l(1)] show ?thesis using l(2) that by auto
qed

lemma recharges_keep_state: "t_state (tasks ((for_tasks recharge 63 ^^ k) u) p) = t_state (tasks u p)"
proof (induction k)
  case (Suc k)
  show ?case
    using Suc for_tasks_keep_state [OF recharge_state, of 63 "(for_tasks recharge 63 ^^ k) u" p] by simp
qed simp

lemma schedule_states:
  assumes "schedule s = Some s'"
  shows "t_state (tasks s' p) = t_state (tasks s p)
    \<or> t_state (tasks s p) = TASK_INTERRUPTIBLE \<and> t_state (tasks s' p) = TASK_RUNNING"
proof -
  obtain k m where s': "s' = switch_to m ((for_tasks recharge 63 ^^ k) (for_tasks (check_signals (jiffies s)) 63 s))"
    using assms by (rule schedule_cases)
  show ?thesis
    using for_tasks_states [of "check_signals (jiffies s)" 63 s p] check_signals_state
    unfolding s' by (auto simp: recharges_keep_state)
qed

lemma links_upd:
  "(x, t) \<in> (links w)\<^sup>* \<Longrightarrow> w c = None \<Longrightarrow> (x, t) \<in> (links (w(c \<mapsto> b)))\<^sup>*"
  by (erule rtrancl_mono [THEN subsetD, rotated]) (auto simp: links_def)

lemma links_at: "(c, t) \<in> (links w)\<^sup>* \<Longrightarrow> w c = None \<Longrightarrow> t = c"
  by (erule converse_rtranclE) (auto simp: links_def)

text \<open>A path either avoids \<open>c\<close> or has a last visit to it.\<close>

lemma links_del:
  assumes "(x, t) \<in> (links w)\<^sup>*"
  shows "(x, t) \<in> (links (w(c := None)))\<^sup>* \<or> t = c
    \<or> (\<exists>b. w c = Some b \<and> (b, t) \<in> (links (w(c := None)))\<^sup>*)"
  using assms
proof (induction rule: rtrancl_induct)
  case (step y z)
  have yz: "w y = Some z" using step(2) by (simp add: links_def)
  show ?case
  proof (cases "y = c")
    case True
    then show ?thesis using yz by blast
  next
    case False
    then have e: "(y, z) \<in> links (w(c := None))" using yz by (simp add: links_def)
    from step(3) show ?thesis
      using False by (blast intro: rtrancl_into_rtrancl [OF _ e])
  qed
qed simp

locale wait_queue =
  fixes rd :: "'a sched_state_scheme \<Rightarrow> addr" and wr :: "addr \<Rightarrow> 'a sched_state_scheme \<Rightarrow> 'a sched_state_scheme"
  assumes rd_wr [simp]: "rd (wr v s) = v"
    and rd_upd [simp]: "rd (upd_task p f s) = rd s"
    and rd_current [simp]: "rd (s\<lparr>current := x\<rparr>) = rd s"
    and wr_frame [simp]: "tasks (wr v s) = tasks s" "task (wr v s) = task s" "current (wr v s) = current s"
      "jiffies (wr v s) = jiffies s" "init_task (wr v s) = init_task s"
begin

lemma rd_set_state [simp]: "rd (set_state p v s) = rd s"
  by (simp add: set_state_def)

lemma rd_for_tasks [simp]: "rd (for_tasks f n s) = rd s"
  by (induction n arbitrary: s) simp_all

lemma rd_schedule: "schedule s = Some s' \<Longrightarrow> rd s' = rd s"
proof (erule schedule_cases)
  fix k m assume "s' = switch_to m ((for_tasks recharge 63 ^^ k) (for_tasks (check_signals (jiffies s)) 63 s))"
  moreover have "rd ((for_tasks recharge 63 ^^ k) u) = rd u" for u by (induction k) simp_all
  ultimately show "rd s' = rd s" by (simp add: switch_to_def)
qed

lemma covered_mono:
  assumes "covered (rd, wr) s w t" "rd s' = rd s"
    "\<And>u. w u \<noteq> None \<Longrightarrow> t_state (tasks s u) = TASK_RUNNING \<Longrightarrow> t_state (tasks s' u) = TASK_RUNNING"
  shows "covered (rd, wr) s' w t"
proof -
  obtain x where "wake_root (rd, wr) s w x" "(x, t) \<in> (links w)\<^sup>*" using assms(1) by (auto simp: covered_def)
  moreover from this(1) have "wake_root (rd, wr) s' w x"
    using assms(2,3) by (fastforce simp: wake_root_def)
  ultimately show ?thesis by (auto simp: covered_def)
qed

text \<open>When \<open>b\<close> is made runnable and every other root remains, who was covered through \<open>b\<close> still is.\<close>

lemma covered_running:
  assumes "(b, t) \<in> (links w)\<^sup>*" "asleep s w t" "t_state (tasks s b) = TASK_RUNNING"
  shows "covered q s w t"
  using assms(1)
proof (cases rule: converse_rtranclE)
  case base
  then show ?thesis using assms(2,3) by (simp add: asleep_def)
next
  case (step y)
  then show ?thesis using assms(3) by (auto simp: covered_def wake_root_def links_def)
qed

lemma inv_sleep:
  assumes inv: "queue_inv (rd, wr) (s, w)" and c: "w (current s) = None" "current s \<noteq> 0"
    and sl: "sleep_on (Some (rd, wr)) s = Some (Some tmp, s')"
  shows "queue_inv (rd, wr) (s', w(current s \<mapsto> tmp))"
proof -
  let ?s = "set_state (current s) TASK_UNINTERRUPTIBLE (wr (current s) s)" and ?w = "w(current s \<mapsto> tmp)"
  have sch: "schedule ?s = Some s'" "tmp = rd s"
    using sl by (auto simp: sleep_on_def Let_def bind_eq_Some_conv split: if_splits)
  have rd': "rd s' = current s" using rd_schedule [OF sch(1)] by simp
  have run: "t_state (tasks s' u) = TASK_RUNNING" if "w u \<noteq> None" "t_state (tasks s u) = TASK_RUNNING" for u
    using schedule_states [OF sch(1), of u] that c by (auto simp: set_state_def)
  have slp: "asleep s w t" if "asleep s' ?w t" "t \<noteq> current s" for t
    using schedule_states [OF sch(1), of t] that by (auto simp: asleep_def set_state_def)
  have "covered (rd, wr) s' ?w t" if a: "asleep s' ?w t" for t
  proof (cases "t = current s")
    case True
    then show ?thesis using rd' by (auto simp: covered_def wake_root_def)
  next
    case False
    then obtain x where x: "wake_root (rd, wr) s w x" "(x, t) \<in> (links w)\<^sup>*"
      using inv slp [OF a False] by (auto simp: queue_inv_def covered_def)
    have path: "(x, t) \<in> (links ?w)\<^sup>*" using links_upd [OF x(2) c(1)] .
    from x(1) show ?thesis unfolding wake_root_def
    proof (elim disjE exE conjE)
      assume "x = fst (rd, wr) s"
      then have "(current s, x) \<in> links ?w" using sch(2) by (simp add: links_def)
      with path have "(current s, t) \<in> (links ?w)\<^sup>*" by (rule converse_rtrancl_into_rtrancl [rotated])
      then show ?thesis using rd' by (auto simp: covered_def wake_root_def)
    next
      fix u assume u: "w u = Some x" "t_state (tasks s u) = TASK_RUNNING"
      then have "?w u = Some x" "t_state (tasks s' u) = TASK_RUNNING" using c run [of u] by auto
      then show ?thesis using path by (rule coveredI_run)
    qed
  qed
  then show ?thesis using inv c(2) by (auto simp: queue_inv_def)
qed

lemma inv_resume:
  assumes inv: "queue_inv (rd, wr) (s, w)" and c: "w (current s) = Some tmp"
  shows "queue_inv (rd, wr) (sleep_on_resume tmp s, w(current s := None))"
proof -
  let ?s = "sleep_on_resume tmp s" and ?w = "w(current s := None)"
  have run: "t_state (tasks ?s u) = TASK_RUNNING" if "t_state (tasks s u) = TASK_RUNNING" for u
    using that by (auto simp: sleep_on_resume_def set_state_def)
  have tmp: "t_state (tasks ?s tmp) = TASK_RUNNING" if "tmp \<noteq> 0"
    using that by (simp add: sleep_on_resume_def set_state_def)
  have rd: "rd ?s = rd s" by (simp add: sleep_on_resume_def)
  have via: "covered (rd, wr) ?s ?w t" if p: "(tmp, t) \<in> (links ?w)\<^sup>*" and a: "asleep ?s ?w t" for t
  proof (cases "tmp = 0")
    case True
    then have "t = 0" using links_at [OF p] inv by (auto simp: queue_inv_def)
    then show ?thesis using a inv by (auto simp: asleep_def queue_inv_def split: if_splits)
  qed (use covered_running [OF p a] tmp in blast)
  have "covered (rd, wr) ?s ?w t" if a: "asleep ?s ?w t" for t
  proof -
    have t: "asleep s w t" "t \<noteq> current s" using a run by (auto simp: asleep_def split: if_splits)
    then obtain x where x: "wake_root (rd, wr) s w x" "(x, t) \<in> (links w)\<^sup>*"
      using inv by (auto simp: queue_inv_def covered_def)
    from links_del [OF x(2), of "current s"] t(2) c
    consider "(x, t) \<in> (links ?w)\<^sup>*" | "(tmp, t) \<in> (links ?w)\<^sup>*" by auto
    then show ?thesis
    proof cases
      case 1
      from x(1) show ?thesis unfolding wake_root_def
      proof (elim disjE exE conjE)
        assume "x = fst (rd, wr) s"
        then show ?thesis using 1 rd by (auto simp: covered_def wake_root_def)
      next
        fix u assume u: "w u = Some x" "t_state (tasks s u) = TASK_RUNNING"
        show ?thesis
        proof (cases "u = current s")
          case True
          then show ?thesis using u c 1 via [OF _ a] by simp
        next
          case False
          then show ?thesis using u run [of u] 1 by (auto simp: covered_def wake_root_def)
        qed
      qed
    qed (rule via [OF _ a])
  qed
  then show ?thesis using inv by (simp add: queue_inv_def)
qed

lemma inv_wake:
  assumes inv: "queue_inv (rd, wr) (s, w)"
  shows "queue_inv (rd, wr) (wake_up (Some (rd, wr)) s, w)"
proof (cases "rd s = 0")
  case True
  then show ?thesis using inv by (simp add: wake_up_def)
next
  case False
  let ?s = "wr 0 (set_state (rd s) 0 s)"
  have "covered (rd, wr) ?s w t" if a: "asleep ?s w t" for t
  proof -
    have "asleep s w t" using a by (auto simp: asleep_def set_state_def split: if_splits)
    then obtain x where x: "wake_root (rd, wr) s w x" "(x, t) \<in> (links w)\<^sup>*"
      using inv by (auto simp: queue_inv_def covered_def)
    from x(1) show ?thesis unfolding wake_root_def
    proof (elim disjE exE conjE)
      assume "x = fst (rd, wr) s"
      then show ?thesis using covered_running [OF x(2) a] by (simp add: set_state_def)
    next
      fix u assume "w u = Some x" "t_state (tasks s u) = TASK_RUNNING"
      then show ?thesis by (intro coveredI_run [OF _ _ x(2)]) (auto simp: set_state_def)
    qed
  qed
  then show ?thesis using False inv by (simp add: wake_up_def queue_inv_def)
qed

lemma inv_frame:
  assumes "queue_inv (rd, wr) (s, w)" "rd s' = rd s"
    "\<And>u. w u \<noteq> None \<Longrightarrow> t_state (tasks s' u) = t_state (tasks s u)
       \<or> t_state (tasks s' u) = TASK_RUNNING"
  shows "queue_inv (rd, wr) (s', w)"
proof -
  have "asleep s' w t \<Longrightarrow> asleep s w t" for t using assms(3) [of t] by (auto simp: asleep_def)
  then show ?thesis
    using assms covered_mono [of s w _ s'] by (auto simp: queue_inv_def) (metis option.distinct(1))
qed

lemma inv_step:
  assumes "sleep_step (rd, wr) c c'" "queue_inv (rd, wr) c"
  shows "queue_inv (rd, wr) c'"
  using assms
proof (cases rule: sleep_step.cases)
  case (switch s s' w)
  then show ?thesis
    using assms(2) inv_frame [of s w s'] rd_schedule schedule_states by metis
next
  case (run w p s f)
  have "queue_inv (rd, wr) (upd_task p f s, w)"
    by (rule inv_frame [of s w]) (use assms(2) run in auto)
  then show ?thesis using run by simp
qed (use assms(2) inv_sleep inv_resume inv_wake in auto)

lemma inv_reachable:
  assumes "(sleep_step (rd, wr))\<^sup>*\<^sup>* (s0, \<lambda>_. None) c"
  shows "queue_inv (rd, wr) c"
  using assms
proof (induction rule: rtranclp_induct)
  case base
  show ?case by (simp add: queue_inv_def asleep_def)
next
  case (step c c')
  then show ?case using inv_step by blast
qed

lemma not_lost:
  assumes "(sleep_step (rd, wr))\<^sup>*\<^sup>* (s0, \<lambda>_. None) (s, w)"
  shows "(\<forall>t. asleep s w t \<longrightarrow> covered (rd, wr) s w t)
    \<and> (rd s = 0 \<and> (\<forall>t. w t \<noteq> None \<longrightarrow> asleep s w t) \<longrightarrow> w = (\<lambda>_. None))"
proof -
  have inv: "w 0 = None" "\<forall>t. asleep s w t \<longrightarrow> covered (rd, wr) s w t"
    using inv_reachable [OF assms] by (simp_all add: queue_inv_def)
  have "w t = None" if z: "rd s = 0" "\<forall>t. w t \<noteq> None \<longrightarrow> asleep s w t" for t
  proof (rule ccontr)
    assume "w t \<noteq> None"
    then obtain x where x: "wake_root (rd, wr) s w x" "(x, t) \<in> (links w)\<^sup>*"
      using inv(2) z(2) by (auto simp: covered_def)
    have "x = 0" using x(1) z by (auto simp: wake_root_def asleep_def)
    then have "t = 0" using links_at x(2) inv(1) by auto
    then show False using \<open>w t \<noteq> None\<close> inv(1) by simp
  qed
  then show ?thesis using inv(2) by blast
qed

end

interpretation motor: wait_queue "fst (motor_queue nr)" "snd (motor_queue nr)" for nr
  by unfold_locales (simp_all add: motor_queue_def upd_task_def)


section \<open>Timer requests\<close>

text \<open>The linked list of requests, as the indices of its nodes, and what it holds: delays relative to the
  previous request, and functions.\<close>

primrec chain :: "(nat \<Rightarrow> timer) \<Rightarrow> nat option \<Rightarrow> nat list \<Rightarrow> bool" where
  "chain ts x [] \<longleftrightarrow> x = None"
| "chain ts x (p # ps) \<longleftrightarrow> x = Some p \<and> chain ts (tl_next (ts p)) ps"

definition requests :: "(nat \<Rightarrow> timer) \<Rightarrow> nat list \<Rightarrow> (int \<times> u32) list" where
  "requests ts ps = map (\<lambda>p. (tl_jiffies (ts p), tl_fn (ts p))) ps"

definition timers_ok :: "'a sched_state_scheme \<Rightarrow> nat list \<Rightarrow> bool" where
  "timers_ok s ps \<longleftrightarrow> chain (timer_list s) (next_timer s) ps \<and> distinct ps
     \<and> (\<forall>p. p \<in> set ps \<longleftrightarrow> p < TIME_REQUESTS \<and> tl_fn (timer_list s p) \<noteq> 0)
     \<and> (\<forall>p\<in>set ps. 0 \<le> tl_jiffies (timer_list s p) \<and> tl_jiffies (timer_list s p) \<le> 0x7fffffff)"

fun insert_request :: "int \<Rightarrow> u32 \<Rightarrow> (int \<times> u32) list \<Rightarrow> (int \<times> u32) list" where
  "insert_request j f [] = [(j, f)]"
| "insert_request j f ((d, g) # rs) =
     (if d < j then (d, g) # insert_request (j - d) f rs else (j, f) # (d, g) # rs)"

text \<open>The tick, counted from \<open>t\<close>, at which each request fires.\<close>

fun expiries :: "int \<Rightarrow> (int \<times> u32) list \<Rightarrow> (int \<times> u32) list" where
  "expiries t [] = []"
| "expiries t ((d, g) # rs) = (t + d, g) # expiries (t + d) rs"

lemma chain_cong:
  "(\<And>p. p \<in> set ps \<Longrightarrow> tl_next (ts' p) = tl_next (ts p)) \<Longrightarrow> chain ts' x ps = chain ts x ps"
  by (induction ps arbitrary: x) auto

lemma chain_upd: "p \<notin> set ps \<Longrightarrow> chain (ts(p := t)) x ps = chain ts x ps"
  by (rule chain_cong) auto

lemma requests_cong:
  "(\<And>p. p \<in> set ps \<Longrightarrow> ts' p = ts p) \<Longrightarrow> requests ts' ps = requests ts ps"
  by (simp add: requests_def)

lemma find_timer_spec:
  "case find_timer ts i n of
     None \<Rightarrow> \<forall>k. i \<le> k \<and> k < i + n \<longrightarrow> tl_fn (ts k) \<noteq> 0
   | Some k \<Rightarrow> i \<le> k \<and> k < i + n \<and> tl_fn (ts k) = 0"
proof (induction n arbitrary: i)
  case (Suc n)
  show ?case
  proof (cases "tl_fn (ts i) = 0")
    case False
    have "i \<le> k \<and> k < i + Suc n \<longleftrightarrow> k = i \<or> Suc i \<le> k \<and> k < Suc i + n" for k by auto
    then show ?thesis using Suc [of "Suc i"] False by (auto split: option.splits)
  qed simp
qed auto

lemma sift_timer_spec:
  assumes "chain ts (tl_next (ts p)) ps" "distinct (p # ps)"
    "0 \<le> tl_jiffies (ts p)" "tl_jiffies (ts p) \<le> 0x7fffffff"
    "\<forall>q\<in>set ps. 0 \<le> tl_jiffies (ts q) \<and> tl_jiffies (ts q) \<le> 0x7fffffff"
  shows "\<exists>ts'. sift_timer p ts = Some ts' \<and> (\<forall>x. tl_next (ts' x) = tl_next (ts x))
    \<and> (\<forall>x. x \<notin> set (p # ps) \<longrightarrow> ts' x = ts x)
    \<and> (\<forall>x\<in>set (p # ps). 0 \<le> tl_jiffies (ts' x) \<and> tl_jiffies (ts' x) \<le> 0x7fffffff)
    \<and> requests ts' (p # ps) = insert_request (tl_jiffies (ts p)) (tl_fn (ts p)) (requests ts ps)"
  using assms
proof (induction ps arbitrary: p ts)
  case Nil
  then show ?case by (subst sift_timer.simps) (simp add: requests_def)
next
  case (Cons q ps)
  let ?t = "swap_timers p q ts"
  have n: "tl_next (ts p) = Some q" using Cons.prems(1) by simp
  have pq: "p \<noteq> q" "p \<notin> set ps" "q \<notin> set ps" using Cons.prems(2) by auto
  show ?case
  proof (cases "tl_jiffies (ts q) < tl_jiffies (ts p)")
    case False
    then show ?thesis using n Cons.prems by (subst sift_timer.simps) (simp add: requests_def)
  next
    case True
    have b: "0 \<le> tl_jiffies (ts q)" "tl_jiffies (ts q) \<le> 0x7fffffff" using Cons.prems(5) by auto
    have j: "i32 (tl_jiffies (ts p) - tl_jiffies (ts q)) = tl_jiffies (ts p) - tl_jiffies (ts q)"
      by (rule i32_id) (use True b Cons.prems(3,4) in auto)
    have sw: "?t p = (ts p)\<lparr>tl_jiffies := tl_jiffies (ts q), tl_fn := tl_fn (ts q)\<rparr>"
      "?t q = (ts q)\<lparr>tl_jiffies := tl_jiffies (ts p) - tl_jiffies (ts q), tl_fn := tl_fn (ts p)\<rparr>"
      "x \<noteq> p \<Longrightarrow> x \<noteq> q \<Longrightarrow> ?t x = ts x" "tl_next (?t x) = tl_next (ts x)" for x
      using pq(1) j by (auto simp: swap_timers_def Let_def)
    have ch: "chain ?t (tl_next (?t q)) ps"
      using Cons.prems(1) sw(4) chain_cong [of ps ?t ts] by simp
    have same: "\<forall>x\<in>set ps. ?t x = ts x" using sw(3) pq by metis
    have bs: "\<forall>x\<in>set ps. 0 \<le> tl_jiffies (?t x) \<and> tl_jiffies (?t x) \<le> 0x7fffffff"
      using same Cons.prems(5) by simp
    have d: "distinct (q # ps)" using Cons.prems(2) by simp
    have bq: "0 \<le> tl_jiffies (?t q)" "tl_jiffies (?t q) \<le> 0x7fffffff" using sw(2) True b Cons.prems(4) by simp_all
    obtain ts' where t: "sift_timer q ?t = Some ts'" "\<forall>x. tl_next (ts' x) = tl_next (?t x)"
      "\<forall>x. x \<notin> set (q # ps) \<longrightarrow> ts' x = ?t x"
      "\<forall>x\<in>set (q # ps). 0 \<le> tl_jiffies (ts' x) \<and> tl_jiffies (ts' x) \<le> 0x7fffffff"
      "requests ts' (q # ps) = insert_request (tl_jiffies (?t q)) (tl_fn (?t q)) (requests ?t ps)"
      using Cons.IH [OF ch d bq bs] by blast
    have r: "requests ?t ps = requests ts ps"
      by (rule requests_cong) (use same in blast)
    have p: "ts' p = ?t p" using t(3) pq by simp
    have "requests ts' (p # q # ps) = (tl_jiffies (ts q), tl_fn (ts q)) # requests ts' (q # ps)"
      by (simp add: requests_def p sw(1))
    also have "\<dots> = insert_request (tl_jiffies (ts p)) (tl_fn (ts p)) (requests ts (q # ps))"
      using True unfolding t(5) r sw(2) by (simp add: requests_def)
    finally have "requests ts' (p # q # ps)
      = insert_request (tl_jiffies (ts p)) (tl_fn (ts p)) (requests ts (q # ps))" .
    moreover have "sift_timer p ts = Some ts'" using n True t(1) by (subst sift_timer.simps) simp
    moreover have "0 \<le> tl_jiffies (ts' p) \<and> tl_jiffies (ts' p) \<le> 0x7fffffff" using p sw(1) b by simp
    ultimately show ?thesis
      using t(2-4) sw(3,4) by (intro exI [of _ ts']) auto
  qed
qed

lemma insert_request_split:
  "0 \<le> j \<Longrightarrow> \<exists>as bs. rs = as @ bs \<and> insert_request j f rs = as @ (j - sum_list (map fst as), f) # bs
     \<and> (as \<noteq> [] \<longrightarrow> sum_list (map fst as) < j) \<and> (bs \<noteq> [] \<longrightarrow> j - sum_list (map fst as) \<le> fst (hd bs))"
proof (induction j f rs rule: insert_request.induct)
  case (2 j f d g rs)
  show ?case
  proof (cases "d < j")
    case True
    then obtain as bs where "rs = as @ bs"
      "insert_request (j - d) f rs = as @ (j - d - sum_list (map fst as), f) # bs"
      "as \<noteq> [] \<longrightarrow> sum_list (map fst as) < j - d" "bs \<noteq> [] \<longrightarrow> j - d - sum_list (map fst as) \<le> fst (hd bs)"
      using 2 by auto
    then show ?thesis using True
      by (intro exI [of _ "(d, g) # as"] exI [of _ bs]) (cases as, auto simp: algebra_simps)
  next
    case False
    then show ?thesis by (intro exI [of _ "[]"] exI [of _ "(d, g) # rs"]) simp
  qed
qed simp

lemma expiries_append: "expiries t (as @ bs) = expiries t as @ expiries (t + sum_list (map fst as)) bs"
  by (induction t as rule: expiries.induct) (simp_all add: algebra_simps)

lemma expiries_bounds:
  "\<forall>(d, g)\<in>set rs. 0 \<le> d \<Longrightarrow> \<forall>(e, g)\<in>set (expiries t rs). t \<le> e \<and> e \<le> t + sum_list (map fst rs)"
proof (induction t rs rule: expiries.induct)
  case (2 t d g rs)
  have "0 \<le> sum_list (map fst rs)" using 2(2) by (force intro: sum_list_nonneg)
  then show ?case using 2 by force
qed simp

lemma insert_request_place:
  assumes "\<forall>(d, g)\<in>set rs. 0 \<le> d" "0 < j"
  shows "\<exists>as bs. rs = as @ bs \<and> insert_request j f rs = as @ (j - sum_list (map fst as), f) # bs
    \<and> sum_list (map fst as) < j \<and> (\<forall>(e, g)\<in>set (expiries 0 as). e < j)
    \<and> (\<forall>(e, g)\<in>set (expiries (sum_list (map fst as)) bs). j \<le> e)"
proof -
  obtain as bs where l: "rs = as @ bs" "insert_request j f rs = as @ (j - sum_list (map fst as), f) # bs"
    "as \<noteq> [] \<longrightarrow> sum_list (map fst as) < j" "bs \<noteq> [] \<longrightarrow> j - sum_list (map fst as) \<le> fst (hd bs)"
    using insert_request_split [OF less_imp_le [OF assms(2)], of rs f] by blast
  have nn: "\<forall>(d, g)\<in>set as. 0 \<le> d" "\<forall>(d, g)\<in>set bs. 0 \<le> d" using assms(1) l(1) by auto
  have lt: "sum_list (map fst as) < j" using l(3) assms(2) by (cases as) auto
  have "\<forall>(e, g)\<in>set (expiries 0 as). e < j" using expiries_bounds [OF nn(1), of 0] lt by force
  moreover have "\<forall>(e, g)\<in>set (expiries (sum_list (map fst as)) bs). j \<le> e"
  proof (cases bs)
    case (Cons b bs')
    obtain d g where b: "b = (d, g)" by (cases b)
    have "j \<le> sum_list (map fst as) + d" using l(4) Cons b by simp
    moreover have "\<forall>(d, g)\<in>set bs'. 0 \<le> d" using nn(2) Cons by simp
    from expiries_bounds [OF this, of "sum_list (map fst as) + d"]
    have "\<forall>(e, g)\<in>set (expiries (sum_list (map fst as) + d) bs'). sum_list (map fst as) + d \<le> e" by fast
    ultimately show ?thesis unfolding Cons b by force
  qed simp
  ultimately show ?thesis using l(1,2) lt by blast
qed

lemma set_insert_request: "snd ` set (insert_request j f rs) = insert f (snd ` set rs)"
  by (induction j f rs rule: insert_request.induct) auto

lemma requests_fns: "snd ` set (requests ts ps) = (\<lambda>p. tl_fn (ts p)) ` set ps"
  by (force simp: requests_def)

lemma add_timer_ok:
  assumes "timers_ok s ps" "length ps < TIME_REQUESTS" "f \<noteq> 0" "0 < j" "j \<le> 0x7fffffff"
  shows "\<exists>p ts. add_timer call j f s = Some (s\<lparr>timer_list := ts, next_timer := Some p\<rparr>)
    \<and> timers_ok (s\<lparr>timer_list := ts, next_timer := Some p\<rparr>) (p # ps)
    \<and> requests ts (p # ps) = insert_request j f (requests (timer_list s) ps)"
proof -
  have ok: "chain (timer_list s) (next_timer s) ps" "distinct ps"
    "\<And>p. p \<in> set ps \<longleftrightarrow> p < TIME_REQUESTS \<and> tl_fn (timer_list s p) \<noteq> 0"
    "\<And>p. p \<in> set ps \<Longrightarrow> 0 \<le> tl_jiffies (timer_list s p) \<and> tl_jiffies (timer_list s p) \<le> 0x7fffffff"
    using assms(1) by (auto simp: timers_ok_def)
  obtain p where p: "find_timer (timer_list s) 0 TIME_REQUESTS = Some p"
  proof (cases "find_timer (timer_list s) 0 TIME_REQUESTS")
    case None
    then have "{..<TIME_REQUESTS} \<subseteq> set ps"
      using find_timer_spec [where ts = "timer_list s" and i = 0 and n = TIME_REQUESTS] ok(3) by auto
    then have "TIME_REQUESTS \<le> card (set ps)" using card_mono [of "set ps" "{..<64::nat}"] by simp
    then show ?thesis using ok(2) assms(2) by (simp add: distinct_card)
  qed
  have pf: "p < TIME_REQUESTS" "tl_fn (timer_list s p) = 0" "p \<notin> set ps"
    using find_timer_spec [where ts = "timer_list s" and i = 0 and n = TIME_REQUESTS] p ok(3) by auto
  let ?t = "(timer_list s)(p := \<lparr>tl_jiffies = j, tl_fn = f, tl_next = next_timer s\<rparr>)"
  have ch: "chain ?t (tl_next (?t p)) ps"
    using ok(1) by (simp add: chain_upd [OF pf(3)])
  have rq: "requests ?t ps = requests (timer_list s) ps" by (rule requests_cong) (use pf in auto)
  have d: "distinct (p # ps)" using ok(2) pf(3) by simp
  have b: "0 \<le> tl_jiffies (?t p)" "tl_jiffies (?t p) \<le> 0x7fffffff" using assms(4,5) by simp_all
  have bs: "\<forall>q\<in>set ps. 0 \<le> tl_jiffies (?t q) \<and> tl_jiffies (?t q) \<le> 0x7fffffff"
    using ok(4) pf(3) by simp
  obtain ts where t: "sift_timer p ?t = Some ts" "\<forall>x. tl_next (ts x) = tl_next (?t x)"
    "\<forall>x. x \<notin> set (p # ps) \<longrightarrow> ts x = ?t x"
    "\<forall>x\<in>set (p # ps). 0 \<le> tl_jiffies (ts x) \<and> tl_jiffies (ts x) \<le> 0x7fffffff"
    "requests ts (p # ps) = insert_request (tl_jiffies (?t p)) (tl_fn (?t p)) (requests ?t ps)"
    using sift_timer_spec [OF ch d b bs] by blast
  have t5: "requests ts (p # ps) = insert_request j f (requests (timer_list s) ps)"
    using t(5) rq by simp
  have fns: "tl_fn (ts x) \<noteq> 0" if "x \<in> set (p # ps)" for x
  proof -
    have "tl_fn (ts x) \<in> snd ` set (requests ts (p # ps))" using that unfolding requests_fns by (rule imageI)
    then have "tl_fn (ts x) \<in> insert f (snd ` set (requests (timer_list s) ps))"
      unfolding t5 by (simp only: set_insert_request)
    then consider "tl_fn (ts x) = f" | y where "y \<in> set ps" "tl_fn (ts x) = tl_fn (timer_list s y)"
      unfolding requests_fns by blast
    then show ?thesis using assms(3) ok(3) by cases metis+
  qed
  have "chain ts (Some p) (p # ps)"
    using ch t(2) chain_cong [of ps ts ?t] by simp
  moreover have "x \<in> set (p # ps) \<longleftrightarrow> x < TIME_REQUESTS \<and> tl_fn (ts x) \<noteq> 0" for x
    using fns [of x] ok(3) [of x] pf t(3) by (cases "x \<in> set (p # ps)") auto
  ultimately have "timers_ok (s\<lparr>timer_list := ts, next_timer := Some p\<rparr>) (p # ps)"
    using ok(2) pf(3) t(4) by (simp add: timers_ok_def)
  then show ?thesis using assms(3,4) p t(1) t5 by (auto simp: add_timer_def)
qed

text \<open>One tick is taken off the first delay; the requests that are due then are those in front with no delay left.\<close>

fun tick :: "(int \<times> u32) list \<Rightarrow> (int \<times> u32) list" where
  "tick [] = []"
| "tick ((d, f) # rs) = (d - 1, f) # rs"

definition due :: "(int \<times> u32) list \<Rightarrow> (int \<times> u32) list" where
  "due rs = takeWhile (\<lambda>(d, f). d \<le> 0) rs"

definition insert_all :: "(int \<times> u32) list \<Rightarrow> (int \<times> u32) list \<Rightarrow> (int \<times> u32) list" where
  "insert_all new rs = fold (\<lambda>(j, f). insert_request j f) new rs"

definition delays_ok :: "(int \<times> u32) list \<Rightarrow> bool" where
  "delays_ok rs \<longleftrightarrow> (\<forall>(d, f)\<in>set rs. 0 \<le> d)"

lemma due_simps [simp]: "due [] = []" "due ((d, f) # rs) = (if d \<le> 0 then (d, f) # due rs else [])"
  by (simp_all add: due_def)

lemma delays_ok_simps [simp]: "delays_ok []" "delays_ok ((d, f) # rs) \<longleftrightarrow> 0 \<le> d \<and> delays_ok rs"
  by (simp_all add: delays_ok_def)

text \<open>A request with a positive delay goes behind those that are due, and so is not due itself.\<close>

lemma insert_behind_due:
  "delays_ok rs \<Longrightarrow> 0 < j \<Longrightarrow> delays_ok (insert_request j f rs) \<and> due (insert_request j f rs) = due rs
    \<and> drop (length (due rs)) (insert_request j f rs) = insert_request j f (drop (length (due rs)) rs)"
  by (induction j f rs rule: insert_request.induct) auto

lemma insert_all_behind_due:
  "delays_ok rs \<Longrightarrow> \<forall>(j, f)\<in>set new. 0 < j \<Longrightarrow> delays_ok (insert_all new rs) \<and> due (insert_all new rs) = due rs
    \<and> drop (length (due rs)) (insert_all new rs) = insert_all new (drop (length (due rs)) rs)"
proof (induction new arbitrary: rs)
  case (Cons r new)
  obtain j f where r: "r = (j, f)" by (cases r)
  with insert_behind_due [of rs j f] Cons.IH [of "insert_request j f rs"] Cons.prems show ?case
    by (simp add: insert_all_def)
qed (simp add: insert_all_def)

section \<open>The timers that run in a tick\<close>

text \<open>The first node is taken out of the list before its function is called.\<close>

definition pop_timer :: "'a sched_state_scheme \<Rightarrow> 'a sched_state_scheme" where
  "pop_timer s = (case next_timer s of None \<Rightarrow> s
     | Some p \<Rightarrow> s\<lparr>timer_list := (timer_list s)(p := (timer_list s p)\<lparr>tl_fn := 0\<rparr>), next_timer := tl_next (timer_list s p)\<rparr>)"

text \<open>These functions are called, one after the other, and nothing else happens.\<close>

primrec call_all ::
  "(u32 \<Rightarrow> 'a sched_state_scheme \<Rightarrow> 'a sched_state_scheme option) \<Rightarrow> u32 list \<Rightarrow> 'a sched_state_scheme \<Rightarrow> 'a sched_state_scheme option" where
  "call_all call [] s = Some s"
| "call_all call (f # fs) s = do { s \<leftarrow> call f (pop_timer s); call_all call fs s }"

text \<open>Within a tick the first delay may have become negative.\<close>

definition timers_low :: "'a sched_state_scheme \<Rightarrow> nat list \<Rightarrow> bool" where
  "timers_low s ps \<longleftrightarrow> chain (timer_list s) (next_timer s) ps \<and> distinct ps
     \<and> (\<forall>p. p \<in> set ps \<longleftrightarrow> p < TIME_REQUESTS \<and> tl_fn (timer_list s p) \<noteq> 0)
     \<and> (\<forall>p\<in>set ps. tl_jiffies (timer_list s p) \<le> 0x7fffffff) \<and> (\<forall>p\<in>set (drop 1 ps). 0 \<le> tl_jiffies (timer_list s p))"

lemma timers_ok_low: "timers_ok s ps \<Longrightarrow> timers_low s ps"
  by (auto simp: timers_ok_def timers_low_def dest: in_set_dropD)

lemma timers_low_ok: "timers_low s ps \<Longrightarrow> due (requests (timer_list s) ps) = [] \<Longrightarrow> timers_ok s ps"
  by (cases ps) (auto simp: timers_ok_def timers_low_def requests_def split: if_splits)

lemma timers_ok_delays: "timers_ok s ps \<Longrightarrow> delays_ok (requests (timer_list s) ps)"
  by (auto simp: timers_ok_def delays_ok_def requests_def)

lemma timers_low_length: "timers_low s ps \<Longrightarrow> length ps \<le> TIME_REQUESTS"
proof -
  assume t: "timers_low s ps"
  then have "set ps \<subseteq> {..<64}" by (auto simp: timers_low_def)
  then have "card (set ps) \<le> 64" using card_mono [of "{..<64::nat}" "set ps"] by simp
  then show ?thesis using t by (simp add: timers_low_def distinct_card)
qed

lemma pop_timer_ok:
  assumes "timers_low s (p # ps)"
  shows "timers_ok (pop_timer s) ps" "requests (timer_list (pop_timer s)) ps = requests (timer_list s) ps"
proof -
  have n: "next_timer s = Some p" "chain (timer_list s) (tl_next (timer_list s p)) ps" "p \<notin> set ps" "distinct ps"
    "\<And>q. q \<in> insert p (set ps) \<longleftrightarrow> q < TIME_REQUESTS \<and> tl_fn (timer_list s q) \<noteq> 0"
    "\<forall>q\<in>set ps. 0 \<le> tl_jiffies (timer_list s q) \<and> tl_jiffies (timer_list s q) \<le> 0x7fffffff"
    using assms by (auto simp: timers_low_def)
  have "q \<in> set ps \<longleftrightarrow> q < TIME_REQUESTS \<and> tl_fn (if q = p then timer_list s p\<lparr>tl_fn := 0\<rparr> else timer_list s q) \<noteq> 0" for q
    using n(5) [of q] n(3) by auto
  then show "timers_ok (pop_timer s) ps" using n by (auto simp: timers_ok_def pop_timer_def chain_upd)
  show "requests (timer_list (pop_timer s)) ps = requests (timer_list s) ps"
    by (rule requests_cong) (use n in \<open>auto simp: pop_timer_def\<close>)
qed

lemma run_timers_step:
  assumes "timers_low s (p # ps)" "tl_jiffies (timer_list s p) \<le> 0"
  shows "run_timers call s = do { s \<leftarrow> call (tl_fn (timer_list s p)) (pop_timer s); run_timers call s }"
  using assms by (subst run_timers.simps) (simp add: timers_low_def pop_timer_def)

lemma run_timers_none:
  assumes "timers_low s ps" "due (requests (timer_list s) ps) = []"
  shows "run_timers call s = Some s"
  using assms by (cases ps; subst run_timers.simps) (auto simp: timers_low_def requests_def split: if_splits)

text \<open>What the timer list relies on: a function that is called returns, and may at most add one request.\<close>

locale timer_functions =
  fixes call :: "u32 \<Rightarrow> 'a sched_state_scheme \<Rightarrow> 'a sched_state_scheme option"
    and inv :: "'a sched_state_scheme \<Rightarrow> bool"
  assumes called: "inv s \<Longrightarrow> timers_ok s ps \<Longrightarrow> length ps < TIME_REQUESTS \<Longrightarrow>
      \<exists>s' qs new. call f s = Some s' \<and> inv s' \<and> timers_ok s' qs \<and> length new \<le> 1 \<and> (\<forall>(j, g)\<in>set new. 0 < j)
        \<and> requests (timer_list s') qs = insert_all new (requests (timer_list s) ps)"
    and inv_pop: "inv s \<Longrightarrow> inv (pop_timer s)"
begin

lemma run:
  assumes "inv s" "timers_low s ps"
  shows "\<exists>t qs new. run_timers call s = Some t \<and> call_all call (map snd (due (requests (timer_list s) ps))) s = Some t
    \<and> inv t \<and> timers_ok t qs \<and> (\<forall>(j, g)\<in>set new. 0 < j)
    \<and> requests (timer_list t) qs
        = insert_all new (drop (length (due (requests (timer_list s) ps))) (requests (timer_list s) ps))"
  using assms
proof (induction "length (due (requests (timer_list s) ps))" arbitrary: s ps)
  case 0
  then have "run_timers call s = Some s" "timers_ok s ps" using run_timers_none timers_low_ok by auto
  then show ?case using 0 by (intro exI [of _ s] exI [of _ ps] exI [of _ "[]"]) (simp add: insert_all_def)
next
  case (Suc k)
  obtain p ps' where ps: "ps = p # ps'" using Suc.hyps(2) by (cases ps) (auto simp: requests_def)
  let ?f = "tl_fn (timer_list s p)" and ?rs = "requests (timer_list s) ps'"
  have rs: "requests (timer_list s) ps = (tl_jiffies (timer_list s p), ?f) # ?rs" by (simp add: ps requests_def)
  then have d: "tl_jiffies (timer_list s p) \<le> 0" "k = length (due ?rs)" using Suc.hyps(2) by (auto split: if_splits)
  note low = Suc.prems(2) [unfolded ps]
  note pop = pop_timer_ok [OF low]
  obtain s1 qs new where s1: "call ?f (pop_timer s) = Some s1" "inv s1" "timers_ok s1 qs" "\<forall>(j, g)\<in>set new. 0 < j"
    "requests (timer_list s1) qs = insert_all new ?rs"
    using called [OF inv_pop [OF Suc.prems(1)] pop(1), of ?f] timers_low_length [OF low] unfolding pop(2) by auto
  have dl: "delays_ok ?rs" using timers_ok_delays [OF pop(1)] pop(2) by simp
  note b = insert_all_behind_due [OF dl s1(4)]
  obtain t qs' new' where t: "run_timers call s1 = Some t" "call_all call (map snd (due (insert_all new ?rs))) s1 = Some t"
    "inv t" "timers_ok t qs'" "\<forall>(j, g)\<in>set new'. 0 < j"
    "requests (timer_list t) qs' = insert_all new' (drop (length (due (insert_all new ?rs))) (insert_all new ?rs))"
    using Suc.hyps(1) [of s1 qs, unfolded s1(5), OF _ s1(2) timers_ok_low [OF s1(3)]] d(2) b by auto
  have "requests (timer_list t) qs' = insert_all (new @ new') (drop (length (due ?rs)) ?rs)"
    using t(6) b by (simp add: insert_all_def)
  moreover have "run_timers call s = Some t" using run_timers_step [OF low d(1)] s1(1) t(1) by simp
  ultimately show ?case
    using d(1) s1(1,4) t(2-5) b by (intro exI [of _ t] exI [of _ qs'] exI [of _ "new @ new'"]) (auto simp: rs)
qed

end


section \<open>The properties\<close>

definition demo_sched :: sched_state where
  "demo_sched = (init_sched 0x1b000)\<lparr>task := (task (init_sched 0x1b000))(1 := 0xffe000),
     current := 0xffe000\<rparr>"

lemma demo_sched_ok: "sched_ok demo_sched" "runnable demo_sched 1" "in_table demo_sched i \<longleftrightarrow> i = 1"
  "current demo_sched = 0xffe000" "init_task demo_sched = 0x1b000" "t_state (tasks demo_sched p) = 0"
  by (auto simp: sched_ok_def runnable_def in_table_def demo_sched_def init_sched_def INIT_TASK_def task_ok_def)

text \<open>C5: \<open>schedule\<close> always returns: its loop ends after at most one recalculation of the counters. It
  switches to task 0 when no task is runnable, and otherwise to a runnable task whose counter is positive
  and the largest, the one in the highest slot when several have it. It keeps the bounds on the counters,
  and the only states it changes are those of interruptible sleepers with a deliverable signal.\<close>

theorem schedule_picks:
  assumes "sched_ok s"
  shows "\<exists>m s'. schedule s = Some s' \<and> m < NR_TASKS \<and> current s' = task s m \<and> picked s' m \<and> sched_ok s'
    \<and> task s' = task s
    \<and> (\<forall>i. in_table s i \<longrightarrow> t_state (tasks s' (task s i)) = t_state (check_signals (jiffies s) (tasks s (task s i))))"
  using schedule_ok [OF assms] by blast

theorem schedule_picks_witness: "\<exists>s'. schedule demo_sched = Some s' \<and> current s' = 0xffe000"
proof -
  from schedule_picks [OF demo_sched_ok(1)] obtain m s' where s: "schedule demo_sched = Some s'"
    "current s' = task demo_sched m" "picked s' m" "task s' = task demo_sched"
    "\<forall>i. in_table demo_sched i \<longrightarrow> t_state (tasks s' (task demo_sched i))
      = t_state (check_signals (jiffies demo_sched) (tasks demo_sched (task demo_sched i)))" by blast
  have "runnable s' 1"
    using s(4,5) demo_sched_ok(2) check_signals_state [of "jiffies demo_sched" "tasks demo_sched (task demo_sched 1)"]
    by (auto simp: runnable_def in_table_def)
  moreover have "in_table s' i \<longleftrightarrow> i = 1" for i using s(4) demo_sched_ok(3) by (simp add: in_table_def)
  ultimately have "m = 1" using s(3) by (auto simp: picked_def runnable_def)
  then show ?thesis using s by (simp add: demo_sched_def)
qed

text \<open>C6: no sleeper is lost. However tasks go to sleep on the motor queue, are woken, run and leave
  \<open>sleep_on\<close>, in any order, every task still asleep there can be reached from the head of the queue or from
  the \<open>tmp\<close> of a task that is already running; so once the queue is empty and every woken task has left
  \<open>sleep_on\<close>, nobody is asleep in it.\<close>

theorem no_sleeper_lost:
  assumes "(sleep_step (motor_queue nr))\<^sup>*\<^sup>* (s0, \<lambda>_. None) (s, w)"
  shows "(\<forall>t. asleep s w t \<longrightarrow> covered (motor_queue nr) s w t)
    \<and> (wait_motor s nr = 0 \<and> (\<forall>t. w t \<noteq> None \<longrightarrow> asleep s w t) \<longrightarrow> w = (\<lambda>_. None))"
  using motor.not_lost [of nr s0 s w] assms by (simp add: motor_queue_def)

theorem no_sleeper_lost_witness:
  "\<exists>s. sleep_step (motor_queue 0) (demo_sched, \<lambda>_. None) (s, [0xffe000 \<mapsto> 0])
    \<and> (\<forall>t. asleep s [0xffe000 \<mapsto> 0] t \<longrightarrow> covered (motor_queue 0) s [0xffe000 \<mapsto> 0] t)"
proof -
  let ?s = "set_state (current demo_sched) TASK_UNINTERRUPTIBLE
    (demo_sched\<lparr>wait_motor := (wait_motor demo_sched)(0 := 0xffe000)\<rparr>)"
  have "in_table ?s i \<longleftrightarrow> i = 1" for i using demo_sched_ok(3) by (simp add: in_table_def set_state_def)
  then have "sched_ok ?s"
    by (auto simp: sched_ok_def set_state_def demo_sched_def init_sched_def INIT_TASK_def task_ok_def)
  from schedule_ok [OF this] obtain s where s: "schedule ?s = Some s" by blast
  then have "sleep_on (Some (motor_queue 0)) demo_sched = Some (Some 0, s)"
    by (simp add: sleep_on_def motor_queue_def demo_sched_ok) (simp add: demo_sched_def init_sched_def)
  then have "sleep_step (motor_queue 0) (demo_sched, \<lambda>_. None) (s, [0xffe000 \<mapsto> 0])"
    using sleep_step.sleep [of "\<lambda>_. None" demo_sched "motor_queue 0" 0 s] by (simp add: demo_sched_ok)
  then show ?thesis using no_sleeper_lost [of 0 demo_sched s "[0xffe000 \<mapsto> 0]"] by blast
qed

text \<open>C8: \<open>add_timer\<close> implements the insertion of a request into a list of relative delays, links, node
  contents and free nodes included, and returns when a node is free. The new request goes behind exactly the requests
  \<open>as\<close> that expire before it, which are unaffected, and itself expires after exactly \<open>j\<close> ticks. The requests \<open>bs\<close>
  that expire later or at the same time are postponed:
  they expired at delays counted from the end of \<open>as\<close> and now count from the new request, since the code
  does not subtract the new delay from its successor.\<close>

theorem add_timer_expiry:
  assumes "timers_ok s ps" "length ps < TIME_REQUESTS" "f \<noteq> 0" "0 < j" "j \<le> 0x7fffffff"
  shows "\<exists>p ts as bs. add_timer call j f s = Some (s\<lparr>timer_list := ts, next_timer := Some p\<rparr>)
    \<and> timers_ok (s\<lparr>timer_list := ts, next_timer := Some p\<rparr>) (p # ps)
    \<and> requests (timer_list s) ps = as @ bs
    \<and> expiries 0 (requests (timer_list s) ps) = expiries 0 as @ expiries (sum_list (map fst as)) bs
    \<and> expiries 0 as = filter (\<lambda>(e, g). e < j) (expiries 0 (requests (timer_list s) ps))
    \<and> (\<forall>(e, g)\<in>set (expiries (sum_list (map fst as)) bs). j \<le> e)
    \<and> expiries 0 (requests ts (p # ps)) = expiries 0 as @ (j, f) # expiries j bs
    \<and> sum_list (map fst as) \<le> j"
proof -
  obtain p ts where t: "add_timer call j f s = Some (s\<lparr>timer_list := ts, next_timer := Some p\<rparr>)"
    "timers_ok (s\<lparr>timer_list := ts, next_timer := Some p\<rparr>) (p # ps)"
    "requests ts (p # ps) = insert_request j f (requests (timer_list s) ps)"
    using add_timer_ok [OF assms] by blast
  obtain as bs where l: "requests (timer_list s) ps = as @ bs"
    "insert_request j f (requests (timer_list s) ps) = as @ (j - sum_list (map fst as), f) # bs"
    "sum_list (map fst as) < j" "\<forall>(e, g)\<in>set (expiries 0 as). e < j"
    "\<forall>(e, g)\<in>set (expiries (sum_list (map fst as)) bs). j \<le> e"
    using insert_request_place [OF timers_ok_delays [OF assms(1), unfolded delays_ok_def] assms(4), of f] by blast
  have e: "expiries 0 (requests (timer_list s) ps) = expiries 0 as @ expiries (sum_list (map fst as)) bs"
    unfolding l(1) by (simp add: expiries_append)
  moreover have "filter (\<lambda>(e, g). e < j) (expiries 0 as) = expiries 0 as"
    "filter (\<lambda>(e, g). e < j) (expiries (sum_list (map fst as)) bs) = []"
    using l(4,5) by (auto simp: filter_empty_conv intro!: filter_True)
  moreover have "expiries 0 (requests ts (p # ps)) = expiries 0 as @ (j, f) # expiries j bs"
    unfolding t(3) l(2) by (simp add: expiries_append)
  ultimately show ?thesis using t(1,2) l(1,3,5)
    by (intro exI [of _ p] exI [of _ ts] exI [of _ as] exI [of _ bs]) (simp only: filter_append append_Nil2 simp_thms less_imp_le)
qed

text \<open>Of two waiting requests, due after 3 and 7 ticks, one is before a new one of 5 ticks; the other then expires after 9.\<close>

definition two_timers :: sched_state where
  "two_timers = demo_sched\<lparr>timer_list := (timer_list demo_sched)(0 := \<lparr>tl_jiffies = 3, tl_fn = 1, tl_next = Some 1\<rparr>,
     1 := \<lparr>tl_jiffies = 4, tl_fn = 2, tl_next = None\<rparr>), next_timer := Some 0\<rparr>"

theorem add_timer_expiry_witness:
  "\<exists>ts p. add_timer (\<lambda>_. Some) 5 0x1234 two_timers = Some (two_timers\<lparr>timer_list := ts, next_timer := Some p\<rparr>)
    \<and> expiries 0 (requests (timer_list two_timers) [0, 1]) = [(3, 1), (7, 2)]
    \<and> expiries 0 (requests ts [p, 0, 1]) = [(3, 1), (5, 0x1234), (9, 2)]"
proof -
  have ok: "timers_ok two_timers [0, 1]"
    by (auto simp: timers_ok_def two_timers_def demo_sched_def init_sched_def)
  have rs: "requests (timer_list two_timers) [0, 1] = [(3, 1), (4, 2)]" by (simp add: requests_def two_timers_def)
  from add_timer_expiry [OF ok, of "0x1234" 5 "\<lambda>_. Some"] obtain p ts as bs where
    t: "add_timer (\<lambda>_. Some) 5 0x1234 two_timers = Some (two_timers\<lparr>timer_list := ts, next_timer := Some p\<rparr>)"
    "[(3, 1), (4, 2)] = as @ bs" "expiries 0 as = [(3, 1)]" "expiries 0 (requests ts [p, 0, 1]) = expiries 0 as @ (5, 0x1234) # expiries 5 bs"
    unfolding rs by auto
  from t(2,3) have "as = [(3, 1)]" "bs = [(4, 2)]" by (auto simp: Cons_eq_append_conv)
  then show ?thesis using t rs by (intro exI [of _ ts] exI [of _ p]) simp
qed

end
