(* ===== verification/User_Memory.thy ===== *)
theory User_Memory
  imports Page_Tables Sched
begin

text \<open>
  Access to memory from system calls: \<open>verify_area\<close> (\<open>kernel/fork.c\<close>), which breaks copy-on-write sharing
  before the kernel writes to a task's memory; block moves between the kernel and the data segment of the
  task; and single bytes of physical memory, in which pipes keep their data.
\<close>

section \<open>verify_area\<close>

text \<open>A page fault handler that calls \<open>oom\<close> kills the task: the system call does not return.\<close>

function verify_pages :: "int \<Rightarrow> addr \<Rightarrow> 'a mm_state_scheme \<Rightarrow> 'a mm_state_scheme option" where
  "verify_pages sz start s =
     (if sz > 0 then
        (case write_verify start s of
           (Resume, s) \<Rightarrow> verify_pages (sz - 4096) (start + 4096) s
         | (Oom, s) \<Rightarrow> None)
      else Some s)"
  by pat_completeness auto
termination by (relation "measure (\<lambda>(sz, _, _). nat sz)") auto

declare verify_pages.simps [simp del]

definition verify_area :: "u32 \<Rightarrow> int \<Rightarrow> 'a sched_state_scheme \<Rightarrow> 'a sched_state_scheme option" where
  "verify_area a sz s =
     (let sz = i32 (sz + uint (a AND 0xfff));
          start = (a AND 0xfffff000) + get_base (t_ldt (cur s) 2)
      in verify_pages sz start s)"

section \<open>Copies\<close>

text \<open>\<open>while (n-- > 0) put_fs_byte( *(p++), buf++)\<close> from offset \<open>k\<close> of a block, and the reverse.\<close>

primrec to_user :: "nat \<Rightarrow> (nat \<Rightarrow> u8) \<Rightarrow> nat \<Rightarrow> u32 \<Rightarrow> 'a sched_state_scheme \<Rightarrow> 'a sched_state_scheme" where
  "to_user 0 d k buf s = s"
| "to_user (Suc n) d k buf s = to_user n d (k + 1) (buf + 1) (put_fs_byte (d k) buf s)"

primrec from_user :: "nat \<Rightarrow> (nat \<Rightarrow> u8) \<Rightarrow> nat \<Rightarrow> u32 \<Rightarrow> 'a sched_state_scheme \<Rightarrow> (nat \<Rightarrow> u8)" where
  "from_user 0 d k buf s = d"
| "from_user (Suc n) d k buf s = from_user n (d(k := get_fs_byte buf s)) (k + 1) (buf + 1) s"

lemma to_user_frame [simp]:
  "tasks (to_user n d k buf s) = tasks s" "current (to_user n d k buf s) = current s"
  "phys (to_user n d k buf s) = phys s" "mem_map (to_user n d k buf s) = mem_map s"
  by (induction n arbitrary: k buf s) (simp_all add: put_fs_byte_def)

lemma from_user_apply:
  "from_user n d k buf s j = (if k \<le> j \<and> j < k + n then get_fs_byte (buf + of_nat (j - k)) s else d j)"
proof (induction n arbitrary: d k buf)
  case (Suc n)
  have "buf + 1 + of_nat (j - (k + 1)) = buf + of_nat (j - k)" if "k < j"
  proof -
    have "j - k = Suc (j - (k + 1))" using that by simp
    then show ?thesis by simp
  qed
  then show ?case by (auto simp: Suc)
qed auto

section \<open>Bytes of physical memory\<close>

definition get_byte :: "addr \<Rightarrow> 'a mm_state_scheme \<Rightarrow> u8" where
  "get_byte a s = ucast (drop_bit (8 * unat (a AND 3)) (phys s (a AND NOT 3)))"

definition put_byte :: "u8 \<Rightarrow> addr \<Rightarrow> 'a mm_state_scheme \<Rightarrow> 'a mm_state_scheme" where
  "put_byte v a s =
     (let k = 8 * unat (a AND 3); p = a AND NOT 3
      in s\<lparr>phys := (phys s)(p := (phys s p AND NOT (push_bit k 0xff)) OR push_bit k (ucast v))\<rparr>)"

end
