(* ===== verification/Fs_State.thy ===== *)
theory Fs_State
  imports Sched
begin

text \<open>
  The data of \<open>include/linux/fs.h\<close> and \<open>kernel/blk_drv/blk.h\<close>: in-core inodes, open files, super blocks,
  buffers and block requests, and the state they add to that of the scheduler.

  A pointer to an entry of a table is its index, \<open>NULL\<close> is \<open>None\<close>. The data block of a buffer is part of
  the buffer (\<open>b_data\<close> never changes after \<open>buffer_init\<close>); the header of buffer \<open>i\<close> lies at the address
  \<open>start_buffer + 36 * i\<close>. The pointer \<open>buffer\<close> of a request is a buffer and an offset in its block. \<open>disk d k\<close> is block \<open>k\<close> of the device \<open>d\<close>, and \<open>io_ok d n\<close> says whether the
  hardware can transfer sector \<open>n\<close> of it: the medium, which is outside the program.
\<close>

section \<open>Constants\<close>

abbreviation (input) NR_INODE :: nat where "NR_INODE \<equiv> 32"
abbreviation (input) NR_FILE :: nat where "NR_FILE \<equiv> 64"
abbreviation (input) NR_SUPER :: nat where "NR_SUPER \<equiv> 8"
abbreviation (input) NR_HASH :: nat where "NR_HASH \<equiv> 307"
abbreviation (input) I_MAP_SLOTS :: nat where "I_MAP_SLOTS \<equiv> 8"
abbreviation (input) Z_MAP_SLOTS :: nat where "Z_MAP_SLOTS \<equiv> 8"
abbreviation (input) SUPER_MAGIC :: u16 where "SUPER_MAGIC \<equiv> 0x137F"
abbreviation (input) ROOT_INO :: int where "ROOT_INO \<equiv> 1"
abbreviation (input) NAME_LEN :: nat where "NAME_LEN \<equiv> 14"
abbreviation (input) BLOCK_SIZE :: nat where "BLOCK_SIZE \<equiv> 1024"
abbreviation (input) INODES_PER_BLOCK :: int where "INODES_PER_BLOCK \<equiv> 32"
abbreviation (input) DIR_ENTRIES_PER_BLOCK :: int where "DIR_ENTRIES_PER_BLOCK \<equiv> 64"
abbreviation (input) NR_REQUEST :: nat where "NR_REQUEST \<equiv> 32"
abbreviation (input) NR_BLK_DEV :: nat where "NR_BLK_DEV \<equiv> 7"
abbreviation (input) READ :: int where "READ \<equiv> 0"
abbreviation (input) WRITE :: int where "WRITE \<equiv> 1"
abbreviation (input) READA :: int where "READA \<equiv> 2"
abbreviation (input) WRITEA :: int where "WRITEA \<equiv> 3"

definition MAJOR :: "int \<Rightarrow> nat" where
  "MAJOR a = unat (drop_bit 8 (word_of_int a :: u32))"

definition MINOR :: "int \<Rightarrow> int" where
  "MINOR a = uint (word_of_int a AND 0xff :: u32)"

section \<open>Data\<close>

record buffer_head =
  b_data :: bytes
  b_blocknr :: u32
  b_dev :: u16
  b_uptodate :: bool
  b_dirt :: bool
  b_count :: u8
  b_lock :: bool
  b_wait :: addr
  b_prev :: "nat option"
  b_next :: "nat option"
  b_prev_free :: "nat option"
  b_next_free :: "nat option"

record m_inode =
  i_mode :: u16
  i_uid :: u16
  i_size :: u32
  i_mtime :: u32
  i_gid :: u8
  i_nlinks :: u8
  i_zone :: "nat \<Rightarrow> u16"
  i_wait :: addr
  i_atime :: u32
  i_ctime :: u32
  i_dev :: u16
  i_num :: u16
  i_count :: u16
  i_lock :: bool
  i_dirt :: bool
  i_pipe :: bool
  i_mount :: bool
  i_seek :: u8
  i_update :: u8

record file_struct =
  f_mode :: u16
  f_flags :: u16
  f_count :: u16
  f_inode :: "nat option"
  f_pos :: int

record super_block =
  s_ninodes :: u16
  s_nzones :: u16
  s_imap_blocks :: u16
  s_zmap_blocks :: u16
  s_firstdatazone :: u16
  s_log_zone_size :: u16
  s_max_size :: u32
  s_magic :: u16
  s_imap :: "nat \<Rightarrow> nat option"
  s_zmap :: "nat \<Rightarrow> nat option"
  s_dev :: u16
  s_isup :: "nat option"
  s_imount :: "nat option"
  s_time :: u32
  s_wait :: addr
  s_lock :: bool
  s_rd_only :: bool
  s_dirt :: bool

record request =
  rq_dev :: int
  rq_cmd :: int
  rq_errors :: int
  rq_sector :: u32
  rq_nr_sectors :: u32
  rq_buffer :: nat
  rq_offset :: nat
  rq_waiting :: addr
  rq_bh :: "nat option"
  rq_next :: "nat option"

record fs_state = sched_state +
  buffers :: "nat \<Rightarrow> buffer_head"
  nr_buffers :: nat
  start_buffer :: addr
  hash_table :: "nat \<Rightarrow> nat option"
  free_list :: nat
  buffer_wait :: addr
  inode_table :: "nat \<Rightarrow> m_inode"
  last_inode :: nat
  file_table :: "nat \<Rightarrow> file_struct"
  super_blocks :: "nat \<Rightarrow> super_block"
  ROOT_DEV :: int
  requests_tab :: "nat \<Rightarrow> request"
  current_request :: "nat \<Rightarrow> nat option"
  request_fn :: "nat \<Rightarrow> bool"
  wait_for_request :: addr
  rd_mem :: bytes
  rd_length :: int
  disk :: "int \<Rightarrow> u32 \<Rightarrow> bytes"
  io_ok :: "int \<Rightarrow> u32 \<Rightarrow> bool"

section \<open>Access\<close>

definition upd_buffer :: "nat \<Rightarrow> (buffer_head \<Rightarrow> buffer_head) \<Rightarrow> 'a fs_state_scheme \<Rightarrow> 'a fs_state_scheme" where
  "upd_buffer b f s = s\<lparr>buffers := (buffers s)(b := f (buffers s b))\<rparr>"

definition upd_inode :: "nat \<Rightarrow> (m_inode \<Rightarrow> m_inode) \<Rightarrow> 'a fs_state_scheme \<Rightarrow> 'a fs_state_scheme" where
  "upd_inode i f s = s\<lparr>inode_table := (inode_table s)(i := f (inode_table s i))\<rparr>"

definition upd_file :: "nat \<Rightarrow> (file_struct \<Rightarrow> file_struct) \<Rightarrow> 'a fs_state_scheme \<Rightarrow> 'a fs_state_scheme" where
  "upd_file i f s = s\<lparr>file_table := (file_table s)(i := f (file_table s i))\<rparr>"

definition upd_super :: "nat \<Rightarrow> (super_block \<Rightarrow> super_block) \<Rightarrow> 'a fs_state_scheme \<Rightarrow> 'a fs_state_scheme" where
  "upd_super i f s = s\<lparr>super_blocks := (super_blocks s)(i := f (super_blocks s i))\<rparr>"

definition upd_request :: "nat \<Rightarrow> (request \<Rightarrow> request) \<Rightarrow> 'a fs_state_scheme \<Rightarrow> 'a fs_state_scheme" where
  "upd_request i f s = s\<lparr>requests_tab := (requests_tab s)(i := f (requests_tab s i))\<rparr>"

lemmas upd_defs = upd_buffer_def upd_inode_def upd_file_def upd_super_def upd_request_def

text \<open>The wait queues that these objects contain.\<close>

definition b_waitq :: "nat \<Rightarrow> 'a fs_state_scheme waitq" where
  "b_waitq b = (\<lambda>s. b_wait (buffers s b), \<lambda>v. upd_buffer b (b_wait_update (\<lambda>_. v)))"

definition i_waitq :: "nat \<Rightarrow> 'a fs_state_scheme waitq" where
  "i_waitq i = (\<lambda>s. i_wait (inode_table s i), \<lambda>v. upd_inode i (i_wait_update (\<lambda>_. v)))"

definition s_waitq :: "nat \<Rightarrow> 'a fs_state_scheme waitq" where
  "s_waitq i = (\<lambda>s. s_wait (super_blocks s i), \<lambda>v. upd_super i (s_wait_update (\<lambda>_. v)))"

definition buffer_waitq :: "'a fs_state_scheme waitq" where
  "buffer_waitq = (buffer_wait, \<lambda>v s. s\<lparr>buffer_wait := v\<rparr>)"

definition request_waitq :: "'a fs_state_scheme waitq" where
  "request_waitq = (wait_for_request, \<lambda>v s. s\<lparr>wait_for_request := v\<rparr>)"

definition rq_waitq :: "nat \<Rightarrow> 'a fs_state_scheme waitq" where
  "rq_waitq r = (\<lambda>s. rq_waiting (requests_tab s r), \<lambda>v. upd_request r (rq_waiting_update (\<lambda>_. v)))"

lemmas waitq_defs = b_waitq_def i_waitq_def s_waitq_def buffer_waitq_def request_waitq_def rq_waitq_def

text \<open>In the routines of the file system, \<open>sleep_on\<close> is reached only when an object is locked by another
  task. The routines are modelled as one task runs them from beginning to end, so a call that would wait
  for a lock does not return: \<open>None\<close>.\<close>

definition wait_on_buffer :: "nat \<Rightarrow> 'a fs_state_scheme \<Rightarrow> 'a fs_state_scheme option" where
  "wait_on_buffer b s = (if b_lock (buffers s b) then None else Some s)"

definition wait_on_inode :: "nat \<Rightarrow> 'a fs_state_scheme \<Rightarrow> 'a fs_state_scheme option" where
  "wait_on_inode i s = (if i_lock (inode_table s i) then None else Some s)"

definition lock_inode :: "nat \<Rightarrow> 'a fs_state_scheme \<Rightarrow> 'a fs_state_scheme option" where
  "lock_inode i s = (if i_lock (inode_table s i) then None
     else Some (upd_inode i (i_lock_update (\<lambda>_. True)) s))"

definition unlock_inode :: "nat \<Rightarrow> 'a fs_state_scheme \<Rightarrow> 'a fs_state_scheme" where
  "unlock_inode i s = wake_up (Some (i_waitq i)) (upd_inode i (i_lock_update (\<lambda>_. False)) s)"

definition wait_on_super :: "nat \<Rightarrow> 'a fs_state_scheme \<Rightarrow> 'a fs_state_scheme option" where
  "wait_on_super i s = (if s_lock (super_blocks s i) then None else Some s)"

definition lock_super :: "nat \<Rightarrow> 'a fs_state_scheme \<Rightarrow> 'a fs_state_scheme option" where
  "lock_super i s = (if s_lock (super_blocks s i) then None
     else Some (upd_super i (s_lock_update (\<lambda>_. True)) s))"

definition free_super :: "nat \<Rightarrow> 'a fs_state_scheme \<Rightarrow> 'a fs_state_scheme" where
  "free_super i s = wake_up (Some (s_waitq i)) (upd_super i (s_lock_update (\<lambda>_. False)) s)"

text \<open>\<open>S_ISREG\<close> and its companions (\<open>include/sys/stat.h\<close>).\<close>

definition S_ISREG :: "u16 \<Rightarrow> bool" where "S_ISREG m \<longleftrightarrow> m AND 0xF000 = 0x8000"
definition S_ISDIR :: "u16 \<Rightarrow> bool" where "S_ISDIR m \<longleftrightarrow> m AND 0xF000 = 0x4000"
definition S_ISCHR :: "u16 \<Rightarrow> bool" where "S_ISCHR m \<longleftrightarrow> m AND 0xF000 = 0x2000"
definition S_ISBLK :: "u16 \<Rightarrow> bool" where "S_ISBLK m \<longleftrightarrow> m AND 0xF000 = 0x6000"

text \<open>The current time, as it is stored in an inode.\<close>

definition now :: "'a fs_state_scheme \<Rightarrow> u32" where
  "now s = word_of_int (CURRENT_TIME s)"

text \<open>\<open>struct d_inode\<close> is the first 32 bytes of \<open>struct m_inode\<close>; reading and writing it in a block.\<close>

definition put_zones :: "nat \<Rightarrow> (nat \<Rightarrow> u16) \<Rightarrow> bytes \<Rightarrow> bytes" where
  "put_zones k z d = fold (\<lambda>i. put_u16 (k + 2 * i) (z i)) [0..<9] d"

definition put_d_inode :: "nat \<Rightarrow> m_inode \<Rightarrow> bytes \<Rightarrow> bytes" where
  "put_d_inode k m d =
     put_zones (k + 14) (i_zone m)
       ((put_u32 (k + 8) (i_mtime m)
         (put_u32 (k + 4) (i_size m)
           (put_u16 (k + 2) (i_uid m)
             (put_u16 k (i_mode m) d))))
        (k + 12 := i_gid m, k + 13 := i_nlinks m))"

definition get_d_inode :: "nat \<Rightarrow> bytes \<Rightarrow> m_inode \<Rightarrow> m_inode" where
  "get_d_inode k d m = m\<lparr>i_mode := get_u16 k d, i_uid := get_u16 (k + 2) d,
     i_size := get_u32 (k + 4) d, i_mtime := get_u32 (k + 8) d,
     i_gid := d (k + 12), i_nlinks := d (k + 13),
     i_zone := (\<lambda>i. if i < 9 then get_u16 (k + 14 + 2 * i) d else i_zone m i)\<rparr>"

text \<open>\<open>memset(inode, 0, sizeof(*inode))\<close>.\<close>

definition zero_inode :: m_inode where
  "zero_inode = \<lparr>i_mode = 0, i_uid = 0, i_size = 0, i_mtime = 0, i_gid = 0, i_nlinks = 0,
     i_zone = (\<lambda>_. 0), i_wait = 0, i_atime = 0, i_ctime = 0, i_dev = 0, i_num = 0, i_count = 0,
     i_lock = False, i_dirt = False, i_pipe = False, i_mount = False, i_seek = 0, i_update = 0\<rparr>"

section \<open>The state before start-up\<close>

text \<open>The static initial values: every table zero, no buffers, no drivers, no requests, an empty medium.\<close>

definition zero_buffer :: buffer_head where
  "zero_buffer = \<lparr>b_data = (\<lambda>_. 0), b_blocknr = 0, b_dev = 0, b_uptodate = False, b_dirt = False, b_count = 0,
     b_lock = False, b_wait = 0, b_prev = None, b_next = None, b_prev_free = None, b_next_free = None\<rparr>"

definition zero_super :: super_block where
  "zero_super = \<lparr>s_ninodes = 0, s_nzones = 0, s_imap_blocks = 0, s_zmap_blocks = 0, s_firstdatazone = 0,
     s_log_zone_size = 0, s_max_size = 0, s_magic = 0, s_imap = (\<lambda>_. None), s_zmap = (\<lambda>_. None), s_dev = 0,
     s_isup = None, s_imount = None, s_time = 0, s_wait = 0, s_lock = False, s_rd_only = False, s_dirt = False\<rparr>"

definition zero_request :: request where
  "zero_request = \<lparr>rq_dev = 0, rq_cmd = 0, rq_errors = 0, rq_sector = 0, rq_nr_sectors = 0, rq_buffer = 0,
     rq_offset = 0, rq_waiting = 0, rq_bh = None, rq_next = None\<rparr>"

definition init_fs :: "addr \<Rightarrow> addr \<Rightarrow> fs_state" where
  "init_fs a bufs = \<lparr>phys = (\<lambda>_. 0), mem_map = (\<lambda>_. 0), HIGH_MEMORY = 0,
     tasks = (\<lambda>_. INIT_TASK a), task = (\<lambda>i. if i = 0 then a else 0), current = a, init_task = a,
     last_task_used_math = 0, jiffies = 0, startup_time = 0, last_pid = 0,
     gdt = (\<lambda>_. \<lparr>desc_a = 0, desc_b = 0\<rparr>), fs_mem = (\<lambda>_. 0), ports = [], in_port = (\<lambda>_. 0),
     wait_motor = (\<lambda>_. 0), mon_timer = (\<lambda>_. 0), moff_timer = (\<lambda>_. 0), current_DOR = 0x0C, selected = 0,
     timer_list = (\<lambda>_. \<lparr>tl_jiffies = 0, tl_fn = 0, tl_next = None\<rparr>), next_timer = None,
     beepcount = 0, tty_pgrp = (\<lambda>_. 0),
     buffers = (\<lambda>_. zero_buffer), nr_buffers = 0, start_buffer = bufs, hash_table = (\<lambda>_. None), free_list = 0,
     buffer_wait = 0, inode_table = (\<lambda>_. zero_inode), last_inode = 0,
     file_table = (\<lambda>_. \<lparr>f_mode = 0, f_flags = 0, f_count = 0, f_inode = None, f_pos = 0\<rparr>),
     super_blocks = (\<lambda>_. zero_super), ROOT_DEV = 0, requests_tab = (\<lambda>_. zero_request),
     current_request = (\<lambda>_. None), request_fn = (\<lambda>_. False), wait_for_request = 0,
     rd_mem = (\<lambda>_. 0), rd_length = 0, disk = (\<lambda>_ _ _. 0), io_ok = (\<lambda>_ _. True)\<rparr>"

end
