(* ===== verification/Blk_Dev.thy ===== *)
theory Blk_Dev
  imports Fs_State
begin

text \<open>
  The block layer: the request queue with its elevator (\<open>kernel/blk_drv/ll_rw_blk.c\<close>, \<open>blk.h\<close>) and the
  RAM disk driver (\<open>ramdisk.c\<close>). A driver works off the queue of its major number as soon as a request
  is put on an empty queue. For the RAM disk this is the code of \<open>do_rd_request\<close>; the floppy and hard
  disk controllers, which answer by interrupts, are the hardware parameters \<open>disk\<close> and \<open>io_ok\<close> of the
  state, and finish the request with the same \<open>end_request\<close>.
\<close>

section \<open>Locking\<close>

definition lock_buffer :: "nat \<Rightarrow> 'a fs_state_scheme \<Rightarrow> 'a fs_state_scheme option" where
  "lock_buffer b s = (if b_lock (buffers s b) then None
     else Some (upd_buffer b (b_lock_update (\<lambda>_. True)) s))"

definition unlock_buffer :: "nat \<Rightarrow> 'a fs_state_scheme \<Rightarrow> 'a fs_state_scheme" where
  "unlock_buffer b s = wake_up (Some (b_waitq b)) (upd_buffer b (b_lock_update (\<lambda>_. False)) s)"

section \<open>Drivers\<close>

text \<open>\<open>end_request\<close>; \<open>DEVICE_OFF\<close> is \<open>floppy_off\<close> for the floppy (major 2) and nothing for the others.\<close>

definition end_request :: "nat \<Rightarrow> bool \<Rightarrow> 'a fs_state_scheme \<Rightarrow> 'a fs_state_scheme" where
  "end_request major uptodate s = (case current_request s major of
     None \<Rightarrow> s
   | Some r \<Rightarrow>
       let s = (if major = 2 then floppy_off (nat (rq_dev (requests_tab s r) mod 4)) s else s);
           s = (case rq_bh (requests_tab s r) of
                  None \<Rightarrow> s
                | Some b \<Rightarrow> unlock_buffer b (upd_buffer b (b_uptodate_update (\<lambda>_. uptodate)) s));
           s = wake_up (Some (rq_waitq r)) s;
           s = wake_up (Some request_waitq) s;
           s = upd_request r (rq_dev_update (\<lambda>_. -1)) s
       in s\<lparr>current_request := (current_request s)(major := rq_next (requests_tab s r))\<rparr>)"

text \<open>The body of \<open>do_rd_request\<close> for the request \<open>r\<close>: whether it succeeds, and the state after the copy.\<close>

definition rd_transfer :: "request \<Rightarrow> 'a fs_state_scheme \<Rightarrow> (bool \<times> 'a fs_state_scheme) option" where
  "rd_transfer r s =
     (let adr = unat (push_bit 9 (rq_sector r)); len = unat (push_bit 9 (rq_nr_sectors r)) in
      if MINOR (rq_dev r) \<noteq> 1 \<or> int (adr + len) > rd_length s then Some (False, s)
      else if rq_cmd r = WRITE then
        Some (True, s\<lparr>rd_mem := (\<lambda>i. if adr \<le> i \<and> i < adr + len
          then b_data (buffers s (rq_buffer r)) (rq_offset r + (i - adr)) else rd_mem s i)\<rparr>)
      else if rq_cmd r = READ then
        Some (True, upd_buffer (rq_buffer r)
          (\<lambda>b. b\<lparr>b_data := (\<lambda>i. if rq_offset r \<le> i \<and> i < rq_offset r + len
             then rd_mem s (adr + (i - rq_offset r)) else b_data b i)\<rparr>) s)
      else None)"

text \<open>What a disk controller does for a request of two sectors.\<close>

definition hw_transfer :: "request \<Rightarrow> 'a fs_state_scheme \<Rightarrow> bool \<times> 'a fs_state_scheme" where
  "hw_transfer r s =
     (let d = rq_dev r; k = drop_bit 1 (rq_sector r) in
      if \<not> io_ok s d (rq_sector r) then (False, s)
      else if rq_cmd r = WRITE then
        (True, s\<lparr>disk := (disk s)(d := (disk s d)(k := b_data (buffers s (rq_buffer r))))\<rparr>)
      else (True, upd_buffer (rq_buffer r) (b_data_update (\<lambda>_. disk s d k)) s))"

partial_function (option) do_request :: "nat \<Rightarrow> 'a fs_state_scheme \<Rightarrow> 'a fs_state_scheme option" where
  "do_request major s = (case current_request s major of
     None \<Rightarrow> Some s
   | Some r \<Rightarrow>
       if MAJOR (rq_dev (requests_tab s r)) \<noteq> major then None
       else if (case rq_bh (requests_tab s r) of None \<Rightarrow> False | Some b \<Rightarrow> \<not> b_lock (buffers s b)) then None
       else do {
         (ok, s) \<leftarrow> (if major = 1 then rd_transfer (requests_tab s r) s
                     else Some (hw_transfer (requests_tab s r) s));
         do_request major (end_request major ok s) })"

definition rd_init :: "int \<Rightarrow> 'a fs_state_scheme \<Rightarrow> int \<times> 'a fs_state_scheme" where
  "rd_init len s = (len, s\<lparr>request_fn := (request_fn s)(1 := True), rd_length := len,
     rd_mem := (\<lambda>i. if int i < len then 0 else rd_mem s i)\<rparr>)"

section \<open>The request queue\<close>

definition IN_ORDER :: "request \<Rightarrow> request \<Rightarrow> bool" where
  "IN_ORDER s1 s2 \<longleftrightarrow> rq_cmd s1 < rq_cmd s2 \<or> rq_cmd s1 = rq_cmd s2 \<and>
     (rq_dev s1 < rq_dev s2 \<or> rq_dev s1 = rq_dev s2 \<and> rq_sector s1 < rq_sector s2)"

text \<open>The request after which the elevator puts the new one.\<close>

partial_function (option) elevator :: "(nat \<Rightarrow> request) \<Rightarrow> nat \<Rightarrow> nat \<Rightarrow> nat option" where
  "elevator rt req tmp = (case rq_next (rt tmp) of
     None \<Rightarrow> Some tmp
   | Some n \<Rightarrow>
       if (IN_ORDER (rt tmp) (rt req) \<or> \<not> IN_ORDER (rt tmp) (rt n)) \<and> IN_ORDER (rt req) (rt n)
       then Some tmp else elevator rt req n)"

definition add_request :: "nat \<Rightarrow> nat \<Rightarrow> 'a fs_state_scheme \<Rightarrow> 'a fs_state_scheme option" where
  "add_request major req s =
     (let s = upd_request req (rq_next_update (\<lambda>_. None)) s;
          s = (case rq_bh (requests_tab s req) of None \<Rightarrow> s | Some b \<Rightarrow> upd_buffer b (b_dirt_update (\<lambda>_. False)) s)
      in case current_request s major of
        None \<Rightarrow> do_request major (s\<lparr>current_request := (current_request s)(major := Some req)\<rparr>)
      | Some tmp \<Rightarrow> do {
          tmp \<leftarrow> elevator (requests_tab s) req tmp;
          let s = upd_request req (rq_next_update (\<lambda>_. rq_next (requests_tab s tmp))) s;
          Some (upd_request tmp (rq_next_update (\<lambda>_. Some req)) s) })"

primrec find_request :: "(nat \<Rightarrow> request) \<Rightarrow> nat \<Rightarrow> nat option" where
  "find_request rt 0 = None"
| "find_request rt (Suc k) = (if rq_dev (rt k) < 0 then Some k else find_request rt k)"

definition make_request :: "nat \<Rightarrow> int \<Rightarrow> nat \<Rightarrow> 'a fs_state_scheme \<Rightarrow> 'a fs_state_scheme option" where
  "make_request major rw b s =
     (let rw_ahead = (rw = READA \<or> rw = WRITEA) in
      if rw_ahead \<and> b_lock (buffers s b) then Some s
      else
        let rw = (if rw_ahead then (if rw = READA then READ else WRITE) else rw) in
        if rw \<noteq> READ \<and> rw \<noteq> WRITE then None
        else do {
          s \<leftarrow> lock_buffer b s;
          let bh = buffers s b;
          if rw = WRITE \<and> \<not> b_dirt bh \<or> rw = READ \<and> b_uptodate bh then Some (unlock_buffer b s)
          else case find_request (requests_tab s) (if rw = READ then NR_REQUEST else NR_REQUEST * 2 div 3) of
            None \<Rightarrow> if rw_ahead then Some (unlock_buffer b s) else None
          | Some req \<Rightarrow>
              add_request major req
                (upd_request req (\<lambda>_. \<lparr>rq_dev = uint (b_dev bh), rq_cmd = rw, rq_errors = 0,
                   rq_sector = push_bit 1 (b_blocknr bh), rq_nr_sectors = 2, rq_buffer = b,
                   rq_offset = 0, rq_waiting = 0, rq_bh = Some b, rq_next = None\<rparr>) s) })"

definition ll_rw_block :: "int \<Rightarrow> nat \<Rightarrow> 'a fs_state_scheme \<Rightarrow> 'a fs_state_scheme option" where
  "ll_rw_block rw b s =
     (let major = MAJOR (uint (b_dev (buffers s b))) in
      if major \<ge> NR_BLK_DEV \<or> \<not> request_fn s major then Some s
      else make_request major rw b s)"

definition blk_dev_init :: "'a fs_state_scheme \<Rightarrow> 'a fs_state_scheme" where
  "blk_dev_init s = s\<lparr>requests_tab := (\<lambda>i. if i < NR_REQUEST
     then (requests_tab s i)\<lparr>rq_dev := -1, rq_next := None\<rparr> else requests_tab s i)\<rparr>"

end
