(* ===== verification/Buffer.thy ===== *)
theory Buffer
  imports Blk_Dev
begin

text \<open>
  The buffer cache of \<open>fs/buffer.c\<close>: hash queues and the free list as doubly linked lists of buffer
  heads, \<open>getblk\<close>, \<open>brelse\<close>, \<open>bread\<close> and the routines that write buffers back. \<open>getblk\<close> may have to
  write back a dirty buffer with \<open>sync_dev\<close>, which writes inodes, which reads inode blocks with \<open>getblk\<close>
  again: the routines on that path (\<open>write_inode\<close> and \<open>sync_inodes\<close> of \<open>fs/inode.c\<close> among them) take
  \<open>getblk\<close> as the argument \<open>gb\<close>, and \<open>getblk\<close> is the fixed point.
\<close>

section \<open>Queues\<close>

definition hashfn :: "u32 \<Rightarrow> u32 \<Rightarrow> nat" where
  "hashfn dev block = unat ((dev XOR block) mod 307)"

definition buf_hash :: "nat \<Rightarrow> 'a fs_state_scheme \<Rightarrow> nat" where
  "buf_hash b s = hashfn (ucast (b_dev (buffers s b))) (b_blocknr (buffers s b))"

definition remove_from_queues :: "nat \<Rightarrow> 'a fs_state_scheme \<Rightarrow> 'a fs_state_scheme option" where
  "remove_from_queues b s = do {
     let s = (case b_next (buffers s b) of None \<Rightarrow> s
              | Some n \<Rightarrow> upd_buffer n (b_prev_update (\<lambda>_. b_prev (buffers s b))) s);
     let s = (case b_prev (buffers s b) of None \<Rightarrow> s
              | Some p \<Rightarrow> upd_buffer p (b_next_update (\<lambda>_. b_next (buffers s b))) s);
     let s = (if hash_table s (buf_hash b s) = Some b
              then s\<lparr>hash_table := (hash_table s)(buf_hash b s := b_next (buffers s b))\<rparr> else s);
     p \<leftarrow> b_prev_free (buffers s b);
     n \<leftarrow> b_next_free (buffers s b);
     let s = upd_buffer p (b_next_free_update (\<lambda>_. Some n)) s;
     let s = upd_buffer n (b_prev_free_update (\<lambda>_. Some p)) s;
     Some (if free_list s = b then s\<lparr>free_list := n\<rparr> else s) }"

text \<open>The last line of \<open>insert_into_queues\<close> stores through \<open>b_next\<close> although it may be \<open>NULL\<close>: the long at
  address 20 (the sixth entry of the page directory) then becomes the address of the buffer head.\<close>

definition insert_into_queues :: "nat \<Rightarrow> 'a fs_state_scheme \<Rightarrow> 'a fs_state_scheme option" where
  "insert_into_queues b s = do {
     p \<leftarrow> b_prev_free (buffers s (free_list s));
     let s = upd_buffer b (\<lambda>bh. bh\<lparr>b_next_free := Some (free_list s), b_prev_free := Some p\<rparr>) s;
     let s = upd_buffer p (b_next_free_update (\<lambda>_. Some b)) s;
     let s = upd_buffer (free_list s) (b_prev_free_update (\<lambda>_. Some b)) s;
     let s = upd_buffer b (\<lambda>bh. bh\<lparr>b_prev := None, b_next := None\<rparr>) s;
     if b_dev (buffers s b) = 0 then Some s
     else do {
       let s = upd_buffer b (b_next_update (\<lambda>_. hash_table s (buf_hash b s))) s;
       let s = s\<lparr>hash_table := (hash_table s)(buf_hash b s := Some b)\<rparr>;
       Some (case b_next (buffers s b) of
           Some n \<Rightarrow> upd_buffer n (b_prev_update (\<lambda>_. Some b)) s
         | None \<Rightarrow> s\<lparr>phys := (phys s)(20 := start_buffer s + 36 * of_nat b)\<rparr>) } }"

partial_function (option) find_in_queue ::
  "(nat \<Rightarrow> buffer_head) \<Rightarrow> int \<Rightarrow> int \<Rightarrow> nat option \<Rightarrow> nat option option" where
  "find_in_queue bs dev block tmp =
     (if tmp = None then Some None
      else let b = the tmp in
        if uint (b_dev (bs b)) = dev \<and> b_blocknr (bs b) = word_of_int block then Some (Some b)
        else find_in_queue bs dev block (b_next (bs b)))"

definition find_buffer :: "int \<Rightarrow> int \<Rightarrow> 'a fs_state_scheme \<Rightarrow> nat option option" where
  "find_buffer dev block s = find_in_queue (buffers s) dev block
     (hash_table s (hashfn (word_of_int dev) (word_of_int block)))"

text \<open>The loop of \<open>get_hash_table\<close> repeats only when the buffer changed its identity during a sleep.\<close>

definition get_hash_table ::
  "int \<Rightarrow> int \<Rightarrow> 'a fs_state_scheme \<Rightarrow> (nat option \<times> 'a fs_state_scheme) option" where
  "get_hash_table dev block s = do {
     r \<leftarrow> find_buffer dev block s;
     case r of
       None \<Rightarrow> Some (None, s)
     | Some b \<Rightarrow> do {
         s \<leftarrow> wait_on_buffer b (upd_buffer b (\<lambda>bh. bh\<lparr>b_count := b_count bh + 1\<rparr>) s);
         Some (Some b, s) } }"

definition brelse :: "nat option \<Rightarrow> 'a fs_state_scheme \<Rightarrow> 'a fs_state_scheme option" where
  "brelse buf s = (case buf of
     None \<Rightarrow> Some s
   | Some b \<Rightarrow> do {
       s \<leftarrow> wait_on_buffer b s;
       if b_count (buffers s b) = 0 then None
       else Some (wake_up (Some buffer_waitq) (upd_buffer b (\<lambda>bh. bh\<lparr>b_count := b_count bh - 1\<rparr>) s)) })"

section \<open>Super blocks\<close>

primrec find_super :: "(nat \<Rightarrow> super_block) \<Rightarrow> int \<Rightarrow> nat \<Rightarrow> nat \<Rightarrow> nat option" where
  "find_super sb dev i 0 = None"
| "find_super sb dev i (Suc n) = (if uint (s_dev (sb i)) = dev then Some i else find_super sb dev (Suc i) n)"

definition get_super :: "int \<Rightarrow> 'a fs_state_scheme \<Rightarrow> (nat option \<times> 'a fs_state_scheme) option" where
  "get_super dev s =
     (if dev = 0 then Some (None, s)
      else case find_super (super_blocks s) dev 0 NR_SUPER of
        None \<Rightarrow> Some (None, s)
      | Some i \<Rightarrow> do { s \<leftarrow> wait_on_super i s; Some (Some i, s) })"

section \<open>Writing back\<close>

type_synonym 's getblk_fn = "int \<Rightarrow> int \<Rightarrow> 's \<Rightarrow> (nat \<times> 's) option"

text \<open>\<open>getblk\<close> never returns \<open>NULL\<close>, so the corresponding \<open>panic\<close> of \<open>bread\<close> is not reached.\<close>

definition bread_with ::
  "'a fs_state_scheme getblk_fn \<Rightarrow> int \<Rightarrow> int \<Rightarrow> 'a fs_state_scheme \<Rightarrow> (nat option \<times> 'a fs_state_scheme) option"
  where
  "bread_with gb dev block s = do {
     (b, s) \<leftarrow> gb dev block s;
     if b_uptodate (buffers s b) then Some (Some b, s)
     else do {
       s \<leftarrow> ll_rw_block READ b s;
       s \<leftarrow> wait_on_buffer b s;
       if b_uptodate (buffers s b) then Some (Some b, s)
       else do { s \<leftarrow> brelse (Some b) s; Some (None, s) } } }"

definition inode_block :: "super_block \<Rightarrow> m_inode \<Rightarrow> int" where
  "inode_block sb m = 2 + uint (s_imap_blocks sb) + uint (s_zmap_blocks sb)
     + cdiv (uint (i_num m) - 1) INODES_PER_BLOCK"

definition inode_slot :: "m_inode \<Rightarrow> nat" where
  "inode_slot m = nat ((uint (i_num m) - 1) smod INODES_PER_BLOCK)"

definition write_inode_with ::
  "'a fs_state_scheme getblk_fn \<Rightarrow> nat \<Rightarrow> 'a fs_state_scheme \<Rightarrow> 'a fs_state_scheme option" where
  "write_inode_with gb i s = do {
     s \<leftarrow> lock_inode i s;
     if \<not> i_dirt (inode_table s i) \<or> i_dev (inode_table s i) = 0 then Some (unlock_inode i s)
     else do {
       (sb, s) \<leftarrow> get_super (uint (i_dev (inode_table s i))) s;
       sb \<leftarrow> sb;
       let m = inode_table s i;
       (bh, s) \<leftarrow> bread_with gb (uint (i_dev m)) (inode_block (super_blocks s sb) m) s;
       b \<leftarrow> bh;
       let m = inode_table s i;
       let s = upd_buffer b (\<lambda>bh. bh\<lparr>b_data := put_d_inode (32 * inode_slot m) m (b_data bh), b_dirt := True\<rparr>) s;
       let s = upd_inode i (i_dirt_update (\<lambda>_. False)) s;
       s \<leftarrow> brelse (Some b) s;
       Some (unlock_inode i s) } }"

definition sync_inodes_with ::
  "'a fs_state_scheme getblk_fn \<Rightarrow> 'a fs_state_scheme \<Rightarrow> 'a fs_state_scheme option" where
  "sync_inodes_with gb s = for_range 0 NR_INODE
     (\<lambda>i s. do {
        s \<leftarrow> wait_on_inode i s;
        if i_dirt (inode_table s i) \<and> \<not> i_pipe (inode_table s i) then write_inode_with gb i s else Some s }) s"

definition write_dirty_buffers :: "int \<Rightarrow> 'a fs_state_scheme \<Rightarrow> 'a fs_state_scheme option" where
  "write_dirty_buffers dev s = for_range 0 (nr_buffers s)
     (\<lambda>b s.
        if uint (b_dev (buffers s b)) \<noteq> dev then Some s
        else do {
          s \<leftarrow> wait_on_buffer b s;
          if uint (b_dev (buffers s b)) = dev \<and> b_dirt (buffers s b) then ll_rw_block WRITE b s else Some s }) s"

definition sync_dev_with ::
  "'a fs_state_scheme getblk_fn \<Rightarrow> int \<Rightarrow> 'a fs_state_scheme \<Rightarrow> 'a fs_state_scheme option" where
  "sync_dev_with gb dev s = do {
     s \<leftarrow> write_dirty_buffers dev s;
     s \<leftarrow> sync_inodes_with gb s;
     write_dirty_buffers dev s }"

section \<open>getblk\<close>

definition BADNESS :: "buffer_head \<Rightarrow> nat" where
  "BADNESS bh = (if b_dirt bh then 2 else 0) + (if b_lock bh then 1 else 0)"

text \<open>The \<open>do ... while\<close> loop over the free list: the least bad buffer without users.\<close>

partial_function (option) scan_buffers ::
  "(nat \<Rightarrow> buffer_head) \<Rightarrow> nat \<Rightarrow> nat \<Rightarrow> nat option \<Rightarrow> nat option option" where
  "scan_buffers bs head tmp bh =
     (let better = (b_count (bs tmp) = 0 \<and> (bh = None \<or> BADNESS (bs tmp) < BADNESS (bs (the bh))));
          bh = (if better then Some tmp else bh)
      in if better \<and> BADNESS (bs tmp) = 0 then Some bh
         else do {
           n \<leftarrow> b_next_free (bs tmp);
           if n = head then Some bh else scan_buffers bs head n bh })"

lemma bread_with_mono [partial_function_mono]:
  "(\<And>d k s. mono_option (\<lambda>g. F g d k s)) \<Longrightarrow> mono_option (\<lambda>g. bread_with (F g) dev block s)"
  unfolding bread_with_def by (intro routine_mono)

lemma write_inode_with_mono [partial_function_mono]:
  "(\<And>d k s. mono_option (\<lambda>g. F g d k s)) \<Longrightarrow> mono_option (\<lambda>g. write_inode_with (F g) i s)"
  unfolding write_inode_with_def by (intro routine_mono bread_with_mono)

lemma sync_inodes_with_mono [partial_function_mono]:
  "(\<And>d k s. mono_option (\<lambda>g. F g d k s)) \<Longrightarrow> mono_option (\<lambda>g. sync_inodes_with (F g) s)"
  unfolding sync_inodes_with_def by (intro routine_mono write_inode_with_mono)

lemma sync_dev_with_mono [partial_function_mono]:
  "(\<And>d k s. mono_option (\<lambda>g. F g d k s)) \<Longrightarrow> mono_option (\<lambda>g. sync_dev_with (F g) dev s)"
  unfolding sync_dev_with_def by (intro routine_mono sync_inodes_with_mono)

text \<open>\<open>at = None\<close> is the label \<open>repeat\<close>; \<open>at = Some b\<close> is the loop \<open>while (bh->b_dirt)\<close> and what follows
  it, with \<open>bh = b\<close>. A call that finds every buffer in use would sleep on \<open>buffer_wait\<close>.\<close>

partial_function (option) getblk_at ::
  "nat option \<Rightarrow> int \<Rightarrow> int \<Rightarrow> 'a fs_state_scheme \<Rightarrow> (nat \<times> 'a fs_state_scheme) option" where
  "getblk_at at dev block s =
     (if at = None then do {
        (bh, s) \<leftarrow> get_hash_table dev block s;
        if bh \<noteq> None then Some (the bh, s)
        else do {
          found \<leftarrow> scan_buffers (buffers s) (free_list s) (free_list s) None;
          b \<leftarrow> found;
          s \<leftarrow> wait_on_buffer b s;
          if b_count (buffers s b) \<noteq> 0 then getblk_at None dev block s
          else getblk_at (Some b) dev block s } }
      else let b = the at in
        if b_dirt (buffers s b) then do {
          s \<leftarrow> sync_dev_with (\<lambda>d k s. getblk_at None d k s) (uint (b_dev (buffers s b))) s;
          s \<leftarrow> wait_on_buffer b s;
          if b_count (buffers s b) \<noteq> 0 then getblk_at None dev block s
          else getblk_at (Some b) dev block s }
        else do {
          r \<leftarrow> find_buffer dev block s;
          if r \<noteq> None then getblk_at None dev block s
          else do {
            let s = upd_buffer b (\<lambda>bh. bh\<lparr>b_count := 1, b_dirt := False, b_uptodate := False\<rparr>) s;
            s \<leftarrow> remove_from_queues b s;
            let s = upd_buffer b (\<lambda>bh. bh\<lparr>b_dev := word_of_int dev, b_blocknr := word_of_int block\<rparr>) s;
            s \<leftarrow> insert_into_queues b s;
            Some (b, s) } })"

definition getblk :: "int \<Rightarrow> int \<Rightarrow> 'a fs_state_scheme \<Rightarrow> (nat \<times> 'a fs_state_scheme) option" where
  "getblk dev block s = getblk_at None dev block s"

definition bread :: "int \<Rightarrow> int \<Rightarrow> 'a fs_state_scheme \<Rightarrow> (nat option \<times> 'a fs_state_scheme) option" where
  "bread = bread_with getblk"

definition write_inode :: "nat \<Rightarrow> 'a fs_state_scheme \<Rightarrow> 'a fs_state_scheme option" where
  "write_inode = write_inode_with getblk"

definition sync_inodes :: "'a fs_state_scheme \<Rightarrow> 'a fs_state_scheme option" where
  "sync_inodes = sync_inodes_with getblk"

definition sync_dev :: "int \<Rightarrow> 'a fs_state_scheme \<Rightarrow> (int \<times> 'a fs_state_scheme) option" where
  "sync_dev dev s = do { s \<leftarrow> sync_dev_with getblk dev s; Some (0, s) }"

definition sys_sync :: "'a fs_state_scheme \<Rightarrow> (int \<times> 'a fs_state_scheme) option" where
  "sys_sync s = do {
     s \<leftarrow> sync_inodes s;
     s \<leftarrow> for_range 0 (nr_buffers s)
       (\<lambda>b s. do {
          s \<leftarrow> wait_on_buffer b s;
          if b_dirt (buffers s b) then ll_rw_block WRITE b s else Some s }) s;
     Some (0, s) }"

section \<open>Other routines\<close>

definition invalidate_buffers :: "int \<Rightarrow> 'a fs_state_scheme \<Rightarrow> 'a fs_state_scheme option" where
  "invalidate_buffers dev s = for_range 0 (nr_buffers s)
     (\<lambda>b s.
        if uint (b_dev (buffers s b)) \<noteq> dev then Some s
        else do {
          s \<leftarrow> wait_on_buffer b s;
          Some (if uint (b_dev (buffers s b)) = dev
                then upd_buffer b (\<lambda>bh. bh\<lparr>b_uptodate := False, b_dirt := False\<rparr>) s else s) }) s"

text \<open>\<open>breada\<close>: the arguments after the first, up to the negative one, are a list. The read-ahead passes
  \<open>bh\<close> to \<open>ll_rw_block\<close>, not \<open>tmp\<close>.\<close>

primrec read_ahead :: "int \<Rightarrow> nat \<Rightarrow> int list \<Rightarrow> 'a fs_state_scheme \<Rightarrow> 'a fs_state_scheme option" where
  "read_ahead dev bh [] s = Some s"
| "read_ahead dev bh (first # rest) s = do {
     (tmp, s) \<leftarrow> getblk dev first s;
     s \<leftarrow> (if \<not> b_uptodate (buffers s tmp) then ll_rw_block READA bh s else Some s);
     read_ahead dev bh rest (upd_buffer tmp (\<lambda>t. t\<lparr>b_count := b_count t - 1\<rparr>) s) }"

definition breada ::
  "int \<Rightarrow> int \<Rightarrow> int list \<Rightarrow> 'a fs_state_scheme \<Rightarrow> (nat option \<times> 'a fs_state_scheme) option" where
  "breada dev first rest s = do {
     (b, s) \<leftarrow> getblk dev first s;
     s \<leftarrow> (if \<not> b_uptodate (buffers s b) then ll_rw_block READ b s else Some s);
     s \<leftarrow> read_ahead dev b rest s;
     s \<leftarrow> wait_on_buffer b s;
     if b_uptodate (buffers s b) then Some (Some b, s)
     else do { s \<leftarrow> brelse (Some b) s; Some (None, s) } }"

text \<open>\<open>bread_page\<close>: \<open>COPYBLK\<close> moves the 256 longs of a block to physical memory.\<close>

definition copy_block :: "bytes \<Rightarrow> addr \<Rightarrow> 'a fs_state_scheme \<Rightarrow> 'a fs_state_scheme" where
  "copy_block d a s = s\<lparr>phys := (\<lambda>x. if unat (x - a) < BLOCK_SIZE \<and> unat (x - a) mod 4 = 0
     then get_u32 (unat (x - a)) d else phys s x)\<rparr>"

primrec page_getblks ::
  "int \<Rightarrow> int list \<Rightarrow> 'a fs_state_scheme \<Rightarrow> (nat option list \<times> 'a fs_state_scheme) option" where
  "page_getblks dev [] s = Some ([], s)"
| "page_getblks dev (k # ks) s = do {
     (bh, s) \<leftarrow> (if k \<noteq> 0 then do {
         (b, s) \<leftarrow> getblk dev k s;
         s \<leftarrow> (if \<not> b_uptodate (buffers s b) then ll_rw_block READ b s else Some s);
         Some (Some b, s) }
       else Some (None, s));
     (bhs, s) \<leftarrow> page_getblks dev ks s;
     Some (bh # bhs, s) }"

primrec page_copies ::
  "addr \<Rightarrow> nat option list \<Rightarrow> 'a fs_state_scheme \<Rightarrow> 'a fs_state_scheme option" where
  "page_copies a [] s = Some s"
| "page_copies a (bh # bhs) s = do {
     s \<leftarrow> (case bh of
         None \<Rightarrow> Some s
       | Some b \<Rightarrow> do {
           s \<leftarrow> wait_on_buffer b s;
           brelse (Some b) (if b_uptodate (buffers s b) then copy_block (b_data (buffers s b)) a s else s) });
     page_copies (a + 1024) bhs s }"

definition bread_page :: "addr \<Rightarrow> int \<Rightarrow> int list \<Rightarrow> 'a fs_state_scheme \<Rightarrow> 'a fs_state_scheme option" where
  "bread_page a dev b s = do { (bhs, s) \<leftarrow> page_getblks dev (take 4 b) s; page_copies a bhs s }"

text \<open>\<open>buffer_init\<close>: heads grow from \<open>start_buffer\<close> upwards, blocks from the end of memory downwards, around
  the hole between 640 KB and 1 MB. The addresses of the blocks themselves are not kept.\<close>

fun init_buffers :: "nat \<Rightarrow> int \<Rightarrow> nat \<Rightarrow> 'a fs_state_scheme \<Rightarrow> nat \<times> 'a fs_state_scheme" where
  "init_buffers 0 b h s = (h, s)"
| "init_buffers (Suc fuel) b h s =
     (let b = b - 1024 in
      if b \<ge> uint (start_buffer s) + 36 * (int h + 1) then
        init_buffers fuel (if b = 0x100000 then 0xA0000 else b) (h + 1)
          (upd_buffer h (\<lambda>bh. bh\<lparr>b_dev := 0, b_dirt := False, b_count := 0, b_lock := False,
             b_uptodate := False, b_wait := 0, b_next := None, b_prev := None,
             b_prev_free := Some (h - 1), b_next_free := Some (h + 1)\<rparr>) s)
      else (h, s))"

definition buffer_init :: "int \<Rightarrow> 'a fs_state_scheme \<Rightarrow> 'a fs_state_scheme" where
  "buffer_init buffer_end s =
     (let b = (if buffer_end = 0x100000 then 640 * 1024 else buffer_end);
          (h, s) = init_buffers (nat b) b 0 s;
          s = s\<lparr>nr_buffers := nr_buffers s + h, free_list := 0\<rparr>;
          s = upd_buffer 0 (b_prev_free_update (\<lambda>_. Some (h - 1))) s;
          s = upd_buffer (h - 1) (b_next_free_update (\<lambda>_. Some 0)) s
      in s\<lparr>hash_table := (\<lambda>i. if i < NR_HASH then None else hash_table s i)\<rparr>)"

end
