(* ===== verification/Inode.thy ===== *)
theory Inode
  imports Buffer
begin

text \<open>
  Bitmaps of zones and inodes (\<open>fs/bitmap.c\<close>), the in-core inode table (\<open>fs/inode.c\<close>) and
  \<open>fs/truncate.c\<close>. A bitmap pointer of a super block that is \<open>NULL\<close> where the code dereferences it
  unconditionally has no defined behaviour, and the model does not return.
\<close>

section \<open>Bits\<close>

text \<open>\<open>btsl\<close>, \<open>btrl\<close> and \<open>bt\<close> on a bit array in memory. \<open>set_bit\<close> yields the old bit (\<open>setb\<close>),
  \<open>clear_bit\<close> its negation (\<open>setnb\<close>).\<close>

definition test_bit :: "nat \<Rightarrow> bytes \<Rightarrow> bool" where
  "test_bit nr d = bit (d (nr div 8)) (nr mod 8)"

definition set_bit_at :: "nat \<Rightarrow> bytes \<Rightarrow> bool \<times> bytes" where
  "set_bit_at nr d = (test_bit nr d, d(nr div 8 := d (nr div 8) OR push_bit (nr mod 8) 1))"

definition clear_bit_at :: "nat \<Rightarrow> bytes \<Rightarrow> bool \<times> bytes" where
  "clear_bit_at nr d = (\<not> test_bit nr d, d(nr div 8 := d (nr div 8) AND NOT (push_bit (nr mod 8) 1)))"

text \<open>\<open>find_first_zero\<close>: \<open>n\<close> more longs, \<open>ecx\<close> bits seen. \<open>bsfl\<close> finds the lowest one of the complement.\<close>

primrec first_zero_long :: "nat \<Rightarrow> nat \<Rightarrow> bytes \<Rightarrow> nat" where
  "first_zero_long 0 ecx d = ecx"
| "first_zero_long (Suc n) ecx d =
     (case find (\<lambda>j. bit (NOT (get_u32 (ecx div 8) d)) j) [0..<32] of
        Some edx \<Rightarrow> ecx + edx
      | None \<Rightarrow> first_zero_long n (ecx + 32) d)"

definition find_first_zero :: "bytes \<Rightarrow> nat" where
  "find_first_zero d = first_zero_long 256 0 d"

text \<open>\<open>for (i=0; i<8; i++) if ((bh=map[i])) if ((j=find_first_zero(bh->b_data))<8192) break;\<close> When the loop
  ends without \<open>break\<close>, \<open>bh\<close> is \<open>NULL\<close> or \<open>j\<close> is 8192, and the callers give up.\<close>

primrec find_in_maps ::
  "(nat \<Rightarrow> nat option) \<Rightarrow> (nat \<Rightarrow> buffer_head) \<Rightarrow> nat \<Rightarrow> nat \<Rightarrow> (nat \<times> nat \<times> nat) option" where
  "find_in_maps m bs i 0 = None"
| "find_in_maps m bs i (Suc n) = (case m i of
     None \<Rightarrow> find_in_maps m bs (Suc i) n
   | Some b \<Rightarrow>
       let j = find_first_zero (b_data (bs b))
       in if j < 8192 then Some (i, b, j) else find_in_maps m bs (Suc i) n)"

section \<open>Zones\<close>

definition free_block :: "int \<Rightarrow> int \<Rightarrow> 'a fs_state_scheme \<Rightarrow> 'a fs_state_scheme option" where
  "free_block dev block s = do {
     (sb, s) \<leftarrow> get_super dev s;
     sb \<leftarrow> sb;
     let sp = super_blocks s sb;
     if block < uint (s_firstdatazone sp) \<or> block \<ge> uint (s_nzones sp) then None
     else do {
       (bh, s) \<leftarrow> get_hash_table dev block s;
       if (case bh of None \<Rightarrow> False | Some b \<Rightarrow> b_count (buffers s b) \<noteq> 1) then Some s
       else do {
         s \<leftarrow> (case bh of
             None \<Rightarrow> Some s
           | Some b \<Rightarrow> brelse (Some b) (upd_buffer b (\<lambda>bh. bh\<lparr>b_dirt := False, b_uptodate := False\<rparr>) s));
         let block = block - (uint (s_firstdatazone sp) - 1);
         z \<leftarrow> s_zmap sp (nat (block div 8192));
         let (was_clear, d) = clear_bit_at (nat (block mod 8192)) (b_data (buffers s z));
         if was_clear then None
         else Some (upd_buffer z (\<lambda>bh. bh\<lparr>b_data := d, b_dirt := True\<rparr>) s) } } }"

definition new_block :: "int \<Rightarrow> 'a fs_state_scheme \<Rightarrow> (int \<times> 'a fs_state_scheme) option" where
  "new_block dev s = do {
     (sb, s) \<leftarrow> get_super dev s;
     sb \<leftarrow> sb;
     let sp = super_blocks s sb;
     case find_in_maps (s_zmap sp) (buffers s) 0 8 of
       None \<Rightarrow> Some (0, s)
     | Some (i, bh, j) \<Rightarrow>
         let (was_set, d) = set_bit_at j (b_data (buffers s bh))
         in if was_set then None
         else do {
           let s = upd_buffer bh (\<lambda>b. b\<lparr>b_data := d, b_dirt := True\<rparr>) s;
           let j = int j + int i * 8192 + uint (s_firstdatazone sp) - 1;
           if j \<ge> uint (s_nzones sp) then Some (0, s)
           else do {
             (bh, s) \<leftarrow> getblk dev j s;
             if b_count (buffers s bh) \<noteq> 1 then None
             else do {
               let s = upd_buffer bh (\<lambda>b. b\<lparr>b_data := (\<lambda>_. 0), b_uptodate := True, b_dirt := True\<rparr>) s;
               s \<leftarrow> brelse (Some bh) s;
               Some (j, s) } } } }"

definition free_inode :: "nat option \<Rightarrow> 'a fs_state_scheme \<Rightarrow> 'a fs_state_scheme option" where
  "free_inode inode s = (case inode of
     None \<Rightarrow> Some s
   | Some i \<Rightarrow>
       let m = inode_table s i in
       if i_dev m = 0 then Some (upd_inode i (\<lambda>_. zero_inode) s)
       else if i_count m > 1 then None
       else if i_nlinks m \<noteq> 0 then None
       else do {
         (sb, s) \<leftarrow> get_super (uint (i_dev m)) s;
         sb \<leftarrow> sb;
         if i_num m < 1 \<or> i_num m > s_ninodes (super_blocks s sb) then None
         else do {
           bh \<leftarrow> s_imap (super_blocks s sb) (unat (drop_bit 13 (i_num m)));
           let (was_clear, d) = clear_bit_at (unat (i_num m AND 8191)) (b_data (buffers s bh));
           let s = upd_buffer bh (\<lambda>b. b\<lparr>b_data := d, b_dirt := True\<rparr>) s;
           Some (upd_inode i (\<lambda>_. zero_inode) s) } })"

section \<open>truncate\<close>

definition free_ind :: "int \<Rightarrow> int \<Rightarrow> 'a fs_state_scheme \<Rightarrow> 'a fs_state_scheme option" where
  "free_ind dev block s =
     (if block = 0 then Some s
      else do {
        (bh, s) \<leftarrow> bread dev block s;
        s \<leftarrow> (case bh of
            None \<Rightarrow> Some s
          | Some b \<Rightarrow> do {
              s \<leftarrow> for_range 0 512 (\<lambda>i s.
                let p = get_u16 (2 * i) (b_data (buffers s b))
                in if p \<noteq> 0 then free_block dev (uint p) s else Some s) s;
              brelse (Some b) s });
        free_block dev block s })"

definition free_dind :: "int \<Rightarrow> int \<Rightarrow> 'a fs_state_scheme \<Rightarrow> 'a fs_state_scheme option" where
  "free_dind dev block s =
     (if block = 0 then Some s
      else do {
        (bh, s) \<leftarrow> bread dev block s;
        s \<leftarrow> (case bh of
            None \<Rightarrow> Some s
          | Some b \<Rightarrow> do {
              s \<leftarrow> for_range 0 512 (\<lambda>i s.
                let p = get_u16 (2 * i) (b_data (buffers s b))
                in if p \<noteq> 0 then free_ind dev (uint p) s else Some s) s;
              brelse (Some b) s });
        free_block dev block s })"

definition set_zone :: "nat \<Rightarrow> u16 \<Rightarrow> m_inode \<Rightarrow> m_inode" where
  "set_zone k v m = m\<lparr>i_zone := (i_zone m)(k := v)\<rparr>"

definition truncate :: "nat \<Rightarrow> 'a fs_state_scheme \<Rightarrow> 'a fs_state_scheme option" where
  "truncate i s =
     (if \<not> (S_ISREG (i_mode (inode_table s i)) \<or> S_ISDIR (i_mode (inode_table s i))) then Some s
      else do {
        s \<leftarrow> for_range 0 7 (\<lambda>k s.
          let m = inode_table s i
          in if i_zone m k \<noteq> 0 then do {
               s \<leftarrow> free_block (uint (i_dev m)) (uint (i_zone m k)) s;
               Some (upd_inode i (set_zone k 0) s) }
             else Some s) s;
        let m = inode_table s i;
        s \<leftarrow> free_ind (uint (i_dev m)) (uint (i_zone m 7)) s;
        let m = inode_table s i;
        s \<leftarrow> free_dind (uint (i_dev m)) (uint (i_zone m 8)) s;
        Some (upd_inode i (\<lambda>m. (set_zone 7 0 (set_zone 8 0 m))
          \<lparr>i_size := 0, i_dirt := True, i_mtime := now s, i_ctime := now s\<rparr>) s) })"

section \<open>The inode table\<close>

definition invalidate_inodes :: "int \<Rightarrow> 'a fs_state_scheme \<Rightarrow> 'a fs_state_scheme option" where
  "invalidate_inodes dev s = for_range 0 NR_INODE
     (\<lambda>i s. do {
        s \<leftarrow> wait_on_inode i s;
        Some (if uint (i_dev (inode_table s i)) = dev
              then upd_inode i (\<lambda>m. m\<lparr>i_dev := 0, i_dirt := False\<rparr>) s else s) }) s"

text \<open>Filling in a zone number that is 0, as \<open>_bmap\<close> does in three places of the inode.\<close>

definition create_zone :: "nat \<Rightarrow> nat \<Rightarrow> 'a fs_state_scheme \<Rightarrow> 'a fs_state_scheme option" where
  "create_zone i k s =
     (if i_zone (inode_table s i) k = 0 then do {
        (z, s) \<leftarrow> new_block (uint (i_dev (inode_table s i))) s;
        let s = upd_inode i (set_zone k (word_of_int z)) s;
        Some (if i_zone (inode_table s i) k \<noteq> 0
              then upd_inode i (\<lambda>m. m\<lparr>i_dirt := True, i_ctime := now s\<rparr>) s else s) }
      else Some s)"

text \<open>One step through an indirect block: entry \<open>k\<close> of the block \<open>z\<close>, created when it is 0.\<close>

definition bmap_indirect ::
  "nat \<Rightarrow> int \<Rightarrow> nat \<Rightarrow> bool \<Rightarrow> 'a fs_state_scheme \<Rightarrow> (int \<times> 'a fs_state_scheme) option" where
  "bmap_indirect i z k create s = do {
     (bh, s) \<leftarrow> bread (uint (i_dev (inode_table s i))) z s;
     case bh of
       None \<Rightarrow> Some (0, s)
     | Some b \<Rightarrow> do {
         let e = uint (get_u16 (2 * k) (b_data (buffers s b)));
         (e, s) \<leftarrow> (if create \<and> e = 0 then do {
             (n, s) \<leftarrow> new_block (uint (i_dev (inode_table s i))) s;
             Some (n, if n \<noteq> 0
               then upd_buffer b (\<lambda>bh. bh\<lparr>b_data := put_u16 (2 * k) (word_of_int n) (b_data bh), b_dirt := True\<rparr>) s
               else s) }
           else Some (e, s));
         s \<leftarrow> brelse (Some b) s;
         Some (e, s) } }"

definition bmap_at :: "nat \<Rightarrow> int \<Rightarrow> bool \<Rightarrow> 'a fs_state_scheme \<Rightarrow> (int \<times> 'a fs_state_scheme) option" where
  "bmap_at i block create s =
     (if block < 0 then None
      else if block \<ge> 7 + 512 + 512 * 512 then None
      else if block < 7 then do {
        s \<leftarrow> (if create then create_zone i (nat block) s else Some s);
        Some (uint (i_zone (inode_table s i) (nat block)), s) }
      else
        let block = block - 7
        in if block < 512 then do {
          s \<leftarrow> (if create then create_zone i 7 s else Some s);
          if i_zone (inode_table s i) 7 = 0 then Some (0, s)
          else bmap_indirect i (uint (i_zone (inode_table s i) 7)) (nat block) create s }
        else do {
          let block = block - 512;
          s \<leftarrow> (if create then create_zone i 8 s else Some s);
          if i_zone (inode_table s i) 8 = 0 then Some (0, s)
          else do {
            (z, s) \<leftarrow> bmap_indirect i (uint (i_zone (inode_table s i) 8)) (nat (block div 512)) create s;
            if z = 0 then Some (0, s)
            else bmap_indirect i z (nat (block mod 512)) create s } })"

definition bmap :: "nat \<Rightarrow> int \<Rightarrow> 'a fs_state_scheme \<Rightarrow> (int \<times> 'a fs_state_scheme) option" where
  "bmap i block s = bmap_at i block False s"

definition create_block :: "nat \<Rightarrow> int \<Rightarrow> 'a fs_state_scheme \<Rightarrow> (int \<times> 'a fs_state_scheme) option" where
  "create_block i block s = bmap_at i block True s"

text \<open>The part of \<open>iput\<close> from the label \<open>repeat\<close> on.\<close>

partial_function (option) iput_repeat :: "nat \<Rightarrow> 'a fs_state_scheme \<Rightarrow> 'a fs_state_scheme option" where
  "iput_repeat i s =
     (let m = inode_table s i in
      if i_count m > 1 then Some (upd_inode i (i_count_update (\<lambda>c. c - 1)) s)
      else if i_nlinks m = 0 then do { s \<leftarrow> truncate i s; free_inode (Some i) s }
      else if i_dirt m then do {
        s \<leftarrow> write_inode i s;
        s \<leftarrow> wait_on_inode i s;
        iput_repeat i s }
      else Some (upd_inode i (i_count_update (\<lambda>c. c - 1)) s))"

definition iput :: "nat option \<Rightarrow> 'a fs_state_scheme \<Rightarrow> 'a fs_state_scheme option" where
  "iput inode s = (case inode of
     None \<Rightarrow> Some s
   | Some i \<Rightarrow> do {
       s \<leftarrow> wait_on_inode i s;
       if i_count (inode_table s i) = 0 then None
       else if i_pipe (inode_table s i) then do {
         let s = wake_up (Some (i_waitq i)) s;
         let s = upd_inode i (i_count_update (\<lambda>c. c - 1)) s;
         if i_count (inode_table s i) \<noteq> 0 then Some s
         else do {
           s \<leftarrow> free_page (i_size (inode_table s i)) s;
           Some (upd_inode i (\<lambda>m. m\<lparr>i_count := 0, i_dirt := False, i_pipe := False\<rparr>) s) } }
       else if i_dev (inode_table s i) = 0 then Some (upd_inode i (i_count_update (\<lambda>c. c - 1)) s)
       else do {
         s \<leftarrow> (if S_ISBLK (i_mode (inode_table s i)) then do {
             (r, s) \<leftarrow> sync_dev (uint (i_zone (inode_table s i) 0)) s;
             wait_on_inode i s }
           else Some s);
         iput_repeat i s } })"

primrec scan_inodes :: "(nat \<Rightarrow> m_inode) \<Rightarrow> nat \<Rightarrow> nat \<Rightarrow> nat option \<Rightarrow> nat \<times> nat option" where
  "scan_inodes it 0 k inode = (k, inode)"
| "scan_inodes it (Suc n) k inode =
     (let k = (if k + 1 \<ge> NR_INODE then 0 else k + 1) in
      if i_count (it k) = 0 then
        (if \<not> i_dirt (it k) \<and> \<not> i_lock (it k) then (k, Some k)
         else scan_inodes it n k (Some k))
      else scan_inodes it n k inode)"

partial_function (option) clean_inode :: "nat \<Rightarrow> 'a fs_state_scheme \<Rightarrow> 'a fs_state_scheme option" where
  "clean_inode i s =
     (if i_dirt (inode_table s i) then do {
        s \<leftarrow> write_inode i s;
        s \<leftarrow> wait_on_inode i s;
        clean_inode i s }
      else Some s)"

partial_function (option) get_empty_inode :: "'a fs_state_scheme \<Rightarrow> (nat \<times> 'a fs_state_scheme) option" where
  "get_empty_inode s = do {
     let r = scan_inodes (inode_table s) NR_INODE (last_inode s) None;
     let s = s\<lparr>last_inode := fst r\<rparr>;
     i \<leftarrow> snd r;
     s \<leftarrow> wait_on_inode i s;
     s \<leftarrow> clean_inode i s;
     if i_count (inode_table s i) \<noteq> 0 then get_empty_inode s
     else Some (i, upd_inode i (\<lambda>_. zero_inode\<lparr>i_count := 1\<rparr>) s) }"

definition get_pipe_inode :: "'a fs_state_scheme \<Rightarrow> (nat option \<times> 'a fs_state_scheme) option" where
  "get_pipe_inode s = do {
     (i, s) \<leftarrow> get_empty_inode s;
     let (p, s) = get_free_page s;
     let s = upd_inode i (i_size_update (\<lambda>_. p)) s;
     if p = 0 then Some (None, upd_inode i (i_count_update (\<lambda>_. 0)) s)
     else Some (Some i, upd_inode i (\<lambda>m. (set_zone 0 0 (set_zone 1 0 m))\<lparr>i_count := 2, i_pipe := True\<rparr>) s) }"

definition read_inode :: "nat \<Rightarrow> 'a fs_state_scheme \<Rightarrow> 'a fs_state_scheme option" where
  "read_inode i s = do {
     s \<leftarrow> lock_inode i s;
     (sb, s) \<leftarrow> get_super (uint (i_dev (inode_table s i))) s;
     sb \<leftarrow> sb;
     let m = inode_table s i;
     (bh, s) \<leftarrow> bread (uint (i_dev m)) (inode_block (super_blocks s sb) m) s;
     b \<leftarrow> bh;
     let s = upd_inode i (get_d_inode (32 * inode_slot (inode_table s i)) (b_data (buffers s b))) s;
     s \<leftarrow> brelse (Some b) s;
     Some (unlock_inode i s) }"

primrec find_mount :: "(nat \<Rightarrow> super_block) \<Rightarrow> nat \<Rightarrow> nat \<Rightarrow> nat \<Rightarrow> nat option" where
  "find_mount sb i k 0 = None"
| "find_mount sb i k (Suc n) = (if s_imount (sb k) = Some i then Some k else find_mount sb i (Suc k) n)"

text \<open>The loop of \<open>iget\<close> at the table entry \<open>i\<close>; crossing a mount point starts it again.\<close>

partial_function (option) iget_scan ::
  "nat \<Rightarrow> nat \<Rightarrow> int \<Rightarrow> int \<Rightarrow> 'a fs_state_scheme \<Rightarrow> (nat \<times> 'a fs_state_scheme) option" where
  "iget_scan free i dev nr s =
     (if i < NR_INODE then
        (if uint (i_dev (inode_table s i)) \<noteq> dev \<or> uint (i_num (inode_table s i)) \<noteq> nr
         then iget_scan free (i + 1) dev nr s
         else do {
           s \<leftarrow> wait_on_inode i s;
           let s = upd_inode i (i_count_update (\<lambda>c. c + 1)) s;
           if i_mount (inode_table s i) then do {
             let k = find_mount (super_blocks s) i 0 NR_SUPER;
             if k = None then do { s \<leftarrow> iput (Some free) s; Some (i, s) }
             else do {
               s \<leftarrow> iput (Some i) s;
               iget_scan free 0 (uint (s_dev (super_blocks s (the k)))) ROOT_INO s } }
           else do { s \<leftarrow> iput (Some free) s; Some (i, s) } })
      else do {
        let s = upd_inode free (\<lambda>m. m\<lparr>i_dev := word_of_int dev, i_num := word_of_int nr\<rparr>) s;
        s \<leftarrow> read_inode free s;
        Some (free, s) })"

definition iget :: "int \<Rightarrow> int \<Rightarrow> 'a fs_state_scheme \<Rightarrow> (nat \<times> 'a fs_state_scheme) option" where
  "iget dev nr s =
     (if dev = 0 then None
      else do { (free, s) \<leftarrow> get_empty_inode s; iget_scan free 0 dev nr s })"

definition new_inode :: "int \<Rightarrow> 'a fs_state_scheme \<Rightarrow> (nat option \<times> 'a fs_state_scheme) option" where
  "new_inode dev s = do {
     (i, s) \<leftarrow> get_empty_inode s;
     (sb, s) \<leftarrow> get_super dev s;
     sb \<leftarrow> sb;
     let sp = super_blocks s sb;
     case find_in_maps (s_imap sp) (buffers s) 0 8 of
       None \<Rightarrow> do { s \<leftarrow> iput (Some i) s; Some (None, s) }
     | Some (k, bh, j) \<Rightarrow>
         if int j + int k * 8192 > uint (s_ninodes sp) then do { s \<leftarrow> iput (Some i) s; Some (None, s) }
         else
           let (was_set, d) = set_bit_at j (b_data (buffers s bh))
           in if was_set then None
           else
             let s = upd_buffer bh (\<lambda>b. b\<lparr>b_data := d, b_dirt := True\<rparr>) s
             in Some (Some i, upd_inode i (\<lambda>m. m\<lparr>i_count := 1, i_nlinks := 1, i_dev := word_of_int dev,
                  i_uid := t_euid (cur s), i_gid := ucast (t_egid (cur s)), i_dirt := True,
                  i_num := of_nat (j + k * 8192), i_mtime := now s, i_atime := now s, i_ctime := now s\<rparr>) s) }"

end
