(* ===== verification/Bitmap_Alloc.thy ===== *)
theory Bitmap_Alloc
  imports Inode
begin

text \<open>
  The zone bitmap of \<open>fs/bitmap.c\<close> as an allocator: what the search through the map blocks finds, that
  \<open>new_block\<close> hands out the first free zone of the device, and that \<open>free_block\<close> clears the bit of its zone
  and of no other one. \<open>zone_used\<close> is the reading of the bitmap that the properties use: the bit of zone \<open>z\<close>
  is bit \<open>z - (s_firstdatazone - 1)\<close>, 8192 bits to a block, and a missing map block counts as full.
\<close>

section \<open>Bits of a block\<close>

lemma get_u32_bit:
  assumes "j < 32"
  shows "bit (get_u32 k d) j = bit (d (k + j div 8)) (j mod 8)"
proof -
  consider "j < 8" | "8 \<le> j" "j < 16" | "16 \<le> j" "j < 24" | "24 \<le> j" "j < 32" using assms by fastforce
  then show ?thesis
  proof cases
    case 1
    then show ?thesis by (simp add: get_u32_def bit_simps)
  next
    case 2
    then have "j div 8 = 1" "j mod 8 = j - 8" by (simp_all add: div_nat_eqI mod_nat_eqI)
    then show ?thesis using 2 by (simp add: get_u32_def bit_simps) (auto dest: bit_imp_le_length)
  next
    case 3
    then have "j div 8 = 2" "j mod 8 = j - 16" by (simp_all add: div_nat_eqI mod_nat_eqI)
    then show ?thesis using 3 by (simp add: get_u32_def bit_simps) (auto dest: bit_imp_le_length)
  next
    case 4
    then have "j div 8 = 3" "j mod 8 = j - 24" by (simp_all add: div_nat_eqI mod_nat_eqI)
    then show ?thesis using 4 by (simp add: get_u32_def bit_simps) (auto dest: bit_imp_le_length)
  qed
qed

lemma test_bit_long: "32 dvd e \<Longrightarrow> j < 32 \<Longrightarrow> bit (get_u32 (e div 8) d) j = test_bit (e + j) d"
proof -
  assume e: "32 dvd e" "j < 32"
  then have "8 dvd e" by (metis dvd_trans dvd_def numeral_times_numeral num_double semiring_norm(13))
  then have "(e + j) div 8 = e div 8 + j div 8" "(e + j) mod 8 = j mod 8" by (auto elim!: dvdE)
  then show ?thesis using e by (simp add: get_u32_bit test_bit_def)
qed

lemma first_zero_long_spec:
  "32 dvd e \<Longrightarrow> r = first_zero_long n e d \<Longrightarrow>
    e \<le> r \<and> (\<forall>m. e \<le> m \<and> m < r \<longrightarrow> test_bit m d) \<and> (r < e + 32 * n \<and> \<not> test_bit r d \<or> r = e + 32 * n)"
proof (induction n arbitrary: e)
  case (Suc n)
  show ?case
  proof (cases "List.find (\<lambda>j. bit (NOT (get_u32 (e div 8) d)) j) [0..<32]")
    case None
    then have all: "test_bit (e + j) d" if "j < 32" for j
      using that test_bit_long [OF Suc.prems(1) that, of d] by (auto simp: find_None_iff bit_simps)
    have r: "r = first_zero_long n (e + 32) d" using Suc.prems(2) None by simp
    have "32 dvd e + 32" using Suc.prems(1) by simp
    from Suc.IH [OF this r] have IH: "e + 32 \<le> r" "\<forall>m. e + 32 \<le> m \<and> m < r \<longrightarrow> test_bit m d"
        "r < e + 32 + 32 * n \<and> \<not> test_bit r d \<or> r = e + 32 + 32 * n" by blast+
    have "test_bit m d" if "e \<le> m" "m < r" for m
    proof (cases "m < e + 32")
      case True
      then show ?thesis using all [of "m - e"] that by simp
    qed (use IH that in auto)
    then show ?thesis using IH by auto
  next
    case (Some x)
    then have x: "x < 32" "bit (NOT (get_u32 (e div 8) d)) x" "\<forall>j<x. \<not> bit (NOT (get_u32 (e div 8) d)) j"
      by (auto simp: find_Some_iff)
    have r: "r = e + x" using Suc.prems(2) Some by simp
    have "\<not> test_bit r d" using x(2) test_bit_long [OF Suc.prems(1) x(1), of d] by (simp add: r bit_simps x(1))
    moreover have "test_bit m d" if "e \<le> m" "m < r" for m
    proof -
      have "m - e < x" using that r by simp
      then show ?thesis using x(1,3) test_bit_long [OF Suc.prems(1), of "m - e" d] that by (simp add: bit_simps)
    qed
    ultimately show ?thesis using r x(1) by auto
  qed
qed auto

lemma find_first_zero_spec:
  "find_first_zero d \<le> 8192 \<and> (\<forall>m<find_first_zero d. test_bit m d)
    \<and> (find_first_zero d < 8192 \<longrightarrow> \<not> test_bit (find_first_zero d) d)"
  using first_zero_long_spec [of 0 "find_first_zero d" 256 d] by (auto simp: find_first_zero_def)

lemma bit_byte:
  assumes "n < 8"
  shows "bit ((x :: u8) OR 2 ^ n) m = (m = n \<or> bit x m)"
    and "bit (x AND NOT (2 ^ n)) m = (m \<noteq> n \<and> bit x m)"
  using assms by (auto simp: bit_simps dest: bit_imp_le_length)

lemma test_set_bit: "test_bit m (snd (set_bit_at n d)) = (m = n \<or> test_bit m d)"
proof -
  have "m = n \<longleftrightarrow> m div 8 = n div 8 \<and> m mod 8 = n mod 8" by (metis div_mult_mod_eq)
  then show ?thesis by (auto simp: test_bit_def set_bit_at_def bit_byte)
qed

lemma test_clear_bit: "test_bit m (snd (clear_bit_at n d)) = (m \<noteq> n \<and> test_bit m d)"
proof -
  have "m = n \<longleftrightarrow> m div 8 = n div 8 \<and> m mod 8 = n mod 8" by (metis div_mult_mod_eq)
  then show ?thesis by (auto simp: test_bit_def clear_bit_at_def bit_byte)
qed

lemma clear_after_set: "\<not> test_bit n d \<Longrightarrow> snd (clear_bit_at n (snd (set_bit_at n d))) = d"
proof (rule ext)
  fix k assume n: "\<not> test_bit n d"
  show "snd (clear_bit_at n (snd (set_bit_at n d))) k = d k"
  proof (cases "k = n div 8")
    case True
    have "(d k OR push_bit (n mod 8) 1) AND NOT (push_bit (n mod 8) 1) = d k"
      by (rule bit_word_eqI) (use n True in \<open>auto simp: bit_byte test_bit_def\<close>)
    then show ?thesis using True by (simp add: clear_bit_at_def set_bit_at_def)
  qed (simp add: clear_bit_at_def set_bit_at_def)
qed

section \<open>Zones\<close>

text \<open>Zone \<open>z\<close> of a file system is bit \<open>z - (s_firstdatazone - 1)\<close> of its maps, 8192 bits to a map; what
  has no map counts as used.\<close>

section \<open>The zone map\<close>

definition zone_bit :: "super_block \<Rightarrow> int \<Rightarrow> nat" where
  "zone_bit sp z = nat (z - (uint (s_firstdatazone sp) - 1))"

definition map_bit :: "(nat \<Rightarrow> nat option) \<Rightarrow> (nat \<Rightarrow> buffer_head) \<Rightarrow> nat \<Rightarrow> bool" where
  "map_bit m bs t = (case m (t div 8192) of None \<Rightarrow> True | Some b \<Rightarrow> test_bit (t mod 8192) (b_data (bs b)))"

definition zone_used :: "super_block \<Rightarrow> 'a fs_state_scheme \<Rightarrow> int \<Rightarrow> bool" where
  "zone_used sp s z = map_bit (s_zmap sp) (buffers s) (zone_bit sp z)"

lemma find_in_maps_Some:
  "find_in_maps m bs i n = Some (k, b, j) \<Longrightarrow>
     i \<le> k \<and> k < i + n \<and> m k = Some b \<and> j < 8192 \<and> \<not> test_bit j (b_data (bs b))
     \<and> (\<forall>t<j. test_bit t (b_data (bs b)))
     \<and> (\<forall>l c t. i \<le> l \<and> l < k \<and> m l = Some c \<and> t < 8192 \<longrightarrow> test_bit t (b_data (bs c)))"
proof (induction n arbitrary: i)
  case (Suc n)
  show ?case
  proof (cases "find_in_maps m bs i (Suc n) = find_in_maps m bs (Suc i) n")
    case True
    then have IH: "Suc i \<le> k \<and> k < Suc i + n \<and> m k = Some b \<and> j < 8192 \<and> \<not> test_bit j (b_data (bs b))
       \<and> (\<forall>t<j. test_bit t (b_data (bs b)))
       \<and> (\<forall>l c t. Suc i \<le> l \<and> l < k \<and> m l = Some c \<and> t < 8192 \<longrightarrow> test_bit t (b_data (bs c)))"
      using Suc.IH Suc.prems by metis
    have full: "test_bit t (b_data (bs c))" if "m i = Some c" "t < 8192" for c t
    proof (cases "find_first_zero (b_data (bs c)) < 8192")
      case True
      then have "k = i" using Suc.prems that by simp
      then show ?thesis using IH by simp
    next
      case False
      then show ?thesis using find_first_zero_spec [of "b_data (bs c)"] that by simp
    qed
    show ?thesis
    proof (intro conjI allI impI)
      fix l c and t :: nat assume a: "i \<le> l \<and> l < k \<and> m l = Some c \<and> t < 8192"
      show "test_bit t (b_data (bs c))"
      proof (cases "l = i")
        case False
        then show ?thesis using a IH by (metis Suc_leI le_neq_implies_less)
      qed (use a full in simp)
    qed (use IH in auto)
  next
    case False
    then obtain c where c: "m i = Some c" "find_first_zero (b_data (bs c)) < 8192"
      by (auto split: option.splits if_splits simp: Let_def)
    have "Some (i, c, find_first_zero (b_data (bs c))) = Some (k, b, j)"
      using Suc.prems unfolding find_in_maps.simps c(1) option.case Let_def if_P [OF c(2)] .
    then have "k = i" "b = c" "j = find_first_zero (b_data (bs c))" by blast+
    then show ?thesis using c find_first_zero_spec [of "b_data (bs c)"] by auto
  qed
qed simp

lemma find_in_maps_None:
  "find_in_maps m bs i n = None \<Longrightarrow> i \<le> l \<Longrightarrow> l < i + n \<Longrightarrow> m l = Some c \<Longrightarrow> t < 8192 \<Longrightarrow> test_bit t (b_data (bs c))"
proof (induction n arbitrary: i)
  case (Suc n)
  show ?case
  proof (cases "l = i")
    case True
    then have "\<not> find_first_zero (b_data (bs c)) < 8192" using Suc.prems by (auto simp: Let_def)
    then show ?thesis using find_first_zero_spec [of "b_data (bs c)"] Suc.prems(5) by simp
  next
    case False
    have "find_in_maps m bs (Suc i) n = None" using Suc.prems(1) by (auto split: option.splits if_splits simp: Let_def)
    then show ?thesis using Suc.IH [of "Suc i"] Suc.prems False by simp
  qed
qed simp

lemma get_super_same: "get_super dev s = Some (sb, s') \<Longrightarrow> s' = s"
  by (auto simp: get_super_def wait_on_super_def split: if_splits option.splits)

lemma first_free_bit:
  assumes "find_in_maps m bs 0 8 = Some (k, b, j)"
  shows "\<not> map_bit m bs (j + k * 8192)" and "t < j + k * 8192 \<Longrightarrow> map_bit m bs t" and "j + k * 8192 < 65536"
proof -
  note f = find_in_maps_Some [OF assms]
  show "\<not> map_bit m bs (j + k * 8192)" using f by (simp add: map_bit_def)
  show "j + k * 8192 < 65536" using f by simp
  show "map_bit m bs t" if "t < j + k * 8192"
  proof (cases "t div 8192 = k")
    case True
    have "t mod 8192 < j" using that True div_mult_mod_eq [of t 8192] by simp
    then show ?thesis using f True by (simp add: map_bit_def)
  next
    case False
    have "t div 8192 \<le> (j + k * 8192) div 8192" using that by (intro div_le_mono) simp
    then have "t div 8192 < k" using False f by simp
    then show ?thesis using f by (simp add: map_bit_def split: option.splits)
  qed
qed

lemma all_used_bits: "find_in_maps m bs 0 8 = None \<Longrightarrow> t < 65536 \<Longrightarrow> map_bit m bs t"
  using find_in_maps_None [of m bs 0 8 "t div 8192" _ "t mod 8192"]
  by (simp add: map_bit_def less_mult_imp_div_less split: option.splits)

lemma zone_bit_inj:
  "uint (s_firstdatazone sp) \<le> y \<Longrightarrow> uint (s_firstdatazone sp) \<le> z \<Longrightarrow> zone_bit sp y = zone_bit sp z \<longleftrightarrow> y = z"
  by (auto simp: zone_bit_def)

lemma map_bit_clear:
  assumes "m (n div 8192) = Some b" "\<And>i j c. m i = Some c \<Longrightarrow> m j = Some c \<Longrightarrow> i = j"
    "\<And>c. b_data (bs' c) = (if c = b then snd (clear_bit_at (n mod 8192) (b_data (bs b))) else b_data (bs c))"
  shows "map_bit m bs' t \<longleftrightarrow> t \<noteq> n \<and> map_bit m bs t"
proof (cases "t div 8192 = n div 8192")
  case True
  then have "t = n \<longleftrightarrow> t mod 8192 = n mod 8192" by (metis div_mult_mod_eq)
  then show ?thesis using True assms(1,3) by (auto simp: map_bit_def test_clear_bit)
next
  case False
  then have "m (t div 8192) \<noteq> Some b" using assms(1,2) by blast
  then show ?thesis using False assms(3) by (auto simp: map_bit_def split: option.splits)
qed

lemma wake_buffer_data [simp]:
  "b_data (buffers (wake_up (Some buffer_waitq) s) c) = b_data (buffers s c)"
  by (simp add: wake_up_def buffer_waitq_def set_state_def upd_task_def)

section \<open>A small device\<close>

definition demo_fs :: fs_state where
  "demo_fs = (init_fs 0x1000 0)\<lparr>
     super_blocks := (\<lambda>_. zero_super)(0 := zero_super\<lparr>s_dev := 0x101, s_firstdatazone := 3, s_nzones := 20,
       s_zmap := [0 \<mapsto> 0]\<rparr>),
     buffers := (\<lambda>_. zero_buffer)(0 := zero_buffer\<lparr>b_data := (\<lambda>_. 0)(0 := 7), b_count := 1\<rparr>,
       1 := zero_buffer\<lparr>b_dev := 0x101, b_blocknr := 5\<rparr>),
     hash_table := (\<lambda>_. Some 1), nr_buffers := 2\<rparr>"

lemma demo_first_zero: "find_first_zero ((\<lambda>_. 0)(0 := 7)) = 3"
  by code_simp

lemma find_super_first: "uint (s_dev (sb 0)) = dev \<Longrightarrow> find_super sb dev 0 NR_SUPER = Some 0"
  by (simp add: eval_nat_numeral)

lemma demo_get_super: "get_super 257 demo_fs = Some (Some 0, demo_fs)"
  by (simp add: get_super_def demo_fs_def init_fs_def zero_super_def find_super_first wait_on_super_def)

lemma demo_find: "find_buffer 257 4 demo_fs = Some None"
  by (simp add: find_buffer_def find_in_queue.simps demo_fs_def zero_buffer_def)

lemma demo_maps: "find_in_maps (s_zmap (super_blocks demo_fs 0)) (buffers demo_fs) 0 8 = Some (0, 0, 3)"
proof -
  have "(8 :: nat) = Suc 7" by simp
  then show ?thesis by (simp only: find_in_maps.simps) (simp add: demo_fs_def zero_super_def demo_first_zero)
qed

lemma demo_cached:
  "getblk 257 5 (upd_buffer 0 (\<lambda>b. b\<lparr>b_data := d, b_dirt := True\<rparr>) demo_fs)
    = Some (1, upd_buffer 1 (\<lambda>b. b\<lparr>b_count := b_count b + 1\<rparr>) (upd_buffer 0 (\<lambda>b. b\<lparr>b_data := d, b_dirt := True\<rparr>) demo_fs))"
  by (simp add: getblk_def getblk_at.simps get_hash_table_def find_buffer_def find_in_queue.simps upd_buffer_def
      demo_fs_def zero_buffer_def wait_on_buffer_def)

lemma demo_fields:
  "s_firstdatazone (super_blocks demo_fs 0) = 3" "s_nzones (super_blocks demo_fs 0) = 20"
  "b_data (buffers demo_fs 0) = (\<lambda>_. 0)(0 := 7)"
  by (simp_all add: demo_fs_def zero_super_def)

lemma demo_new_block: "map_option fst (new_block 257 demo_fs) = Some 5"
proof -
  let ?s = "upd_buffer 0 (\<lambda>b. b\<lparr>b_data := snd (set_bit_at 3 ((\<lambda>_. 0)(0 := 7))), b_dirt := True\<rparr>) demo_fs"
  have "fst (set_bit_at 3 ((\<lambda>_. 0)(0 := 7))) = False" by (simp add: set_bit_at_def test_bit_def)
  then show ?thesis
    by (simp add: new_block_def demo_get_super Let_def demo_maps demo_fields demo_cached split_beta)
      (simp add: upd_buffer_def brelse_def wait_on_buffer_def demo_fs_def zero_buffer_def)
qed

lemma demo_zone_used:
  "zone_used (super_blocks demo_fs 0) demo_fs 2" "zone_used (super_blocks demo_fs 0) demo_fs 3"
  "zone_used (super_blocks demo_fs 0) demo_fs 4"
  by (simp_all add: zone_used_def map_bit_def zone_bit_def demo_fields) (simp_all add: demo_fs_def zero_super_def test_bit_def)

section \<open>The properties\<close>

text \<open>C15: \<open>new_block\<close> returns the first free zone of the device: the zone it returns lies between
  \<open>s_firstdatazone\<close> and \<open>s_nzones\<close>, its bit was clear, and the bits of all data zones below it were set. It
  returns 0 only when every data zone is in use. (The bit before the first data zone is set on every Minix
  file system.)\<close>

theorem new_block_first_fit:
  assumes "new_block dev s = Some (z, s')" "get_super dev s = Some (Some sb, s0)"
    and "sp = super_blocks s sb" "1 \<le> uint (s_firstdatazone sp)" "zone_used sp s (uint (s_firstdatazone sp) - 1)"
  shows "if z = 0 then \<forall>y. uint (s_firstdatazone sp) \<le> y \<and> y < uint (s_nzones sp) \<longrightarrow> zone_used sp s y
    else uint (s_firstdatazone sp) \<le> z \<and> z < uint (s_nzones sp) \<and> \<not> zone_used sp s z
      \<and> (\<forall>y. uint (s_firstdatazone sp) \<le> y \<and> y < z \<longrightarrow> zone_used sp s y)"
proof -
  let ?f = "uint (s_firstdatazone sp)"
  have s0: "s0 = s" using assms(2) get_super_same by blast
  have nz: "uint (s_nzones sp) < 65536" using uint_lt2p [of "s_nzones sp"] by simp
  show ?thesis
  proof (cases "find_in_maps (s_zmap sp) (buffers s) 0 8")
    case None
    then have "z = 0" using assms(1-3) s0 by (simp add: new_block_def Let_def)
    moreover have "zone_used sp s y" if "?f \<le> y" "y < uint (s_nzones sp)" for y
      unfolding zone_used_def by (rule all_used_bits [OF None]) (use that nz assms(4) in \<open>simp add: zone_bit_def nat_less_iff\<close>)
    ultimately show ?thesis by simp
  next
    case (Some x)
    obtain k b j where x: "find_in_maps (s_zmap sp) (buffers s) 0 8 = Some (k, b, j)" using Some by (cases x) auto
    note f = first_free_bit [OF x]
    define y where "y = int j + int k * 8192 + ?f - 1"
    have y: "zone_bit sp y = j + k * 8192" by (simp add: zone_bit_def y_def)
    have "\<not> zone_used sp s y" using f(1) by (simp add: zone_used_def y)
    moreover have "j + k * 8192 \<noteq> 0"
      using f(1) assms(5) by (metis diff_self nat_zero_as_int zone_used_def zone_bit_def nat_0_iff order_refl)
    moreover have "zone_used sp s w" if "?f \<le> w" "w < y" for w
      unfolding zone_used_def by (rule f(2)) (use that in \<open>simp add: zone_bit_def y_def nat_less_iff\<close>)
    moreover have "z = (if y \<ge> uint (s_nzones sp) then 0 else y)"
    proof -
      have nb: "\<not> test_bit j (b_data (buffers s b))" using find_in_maps_Some [OF x] by simp
      show ?thesis
        using assms(1-3) s0 x nb
        by (auto simp: new_block_def Let_def set_bit_at_def y_def bind_eq_Some_conv split: if_splits)
    qed
    ultimately show ?thesis using assms(4) by (auto simp: y_def)
  qed
qed

theorem new_block_first_fit_witness:
  "\<exists>s'. new_block 257 demo_fs = Some (5, s') \<and> \<not> zone_used (super_blocks demo_fs 0) demo_fs 5
    \<and> zone_used (super_blocks demo_fs 0) demo_fs 4"
proof -
  obtain s' where s': "new_block 257 demo_fs = Some (5, s')" using demo_new_block by auto
  show ?thesis
    using new_block_first_fit [OF s' demo_get_super refl] s' demo_zone_used by (simp add: demo_fields)
qed

text \<open>\<open>free_block\<close> of a data zone whose block is not in use in the buffer cache returns when the bit of
  the zone is set, clears it and leaves the bit of every other zone as it was; when the bit is already clear
  it panics.\<close>

theorem free_block_clears:
  assumes "get_super dev s = Some (Some sb, s0)" "sp = super_blocks s sb" "1 \<le> uint (s_firstdatazone sp)"
    and "uint (s_firstdatazone sp) \<le> z" "z < uint (s_nzones sp)"
    and "s_zmap sp (zone_bit sp z div 8192) = Some b"
    and "\<And>i j c. s_zmap sp i = Some c \<Longrightarrow> s_zmap sp j = Some c \<Longrightarrow> i = j"
    and "find_buffer dev z s = Some r" "\<And>c. r = Some c \<Longrightarrow> b_count (buffers s c) = 0 \<and> \<not> b_lock (buffers s c)"
  shows "if zone_used sp s z then \<exists>s'. free_block dev z s = Some s'
      \<and> (\<forall>y. uint (s_firstdatazone sp) \<le> y \<longrightarrow> zone_used sp s' y = (y \<noteq> z \<and> zone_used sp s y))
    else free_block dev z s = None"
proof -
  let ?f = "uint (s_firstdatazone sp)"
  define n where "n = zone_bit sp z"
  have s0: "s0 = s" using assms(1) get_super_same by blast
  have n: "nat ((z - (?f - 1)) div 8192) = n div 8192" "nat ((z - (?f - 1)) mod 8192) = n mod 8192"
    using assms(4) by (simp_all add: n_def zone_bit_def nat_div_distrib nat_mod_distrib)
  obtain s1 where s1: "(case r of None \<Rightarrow> Some s | Some c \<Rightarrow> brelse (Some c)
        (upd_buffer c (\<lambda>bh. bh\<lparr>b_dirt := False, b_uptodate := False\<rparr>)
          (upd_buffer c (\<lambda>bh. bh\<lparr>b_count := b_count bh + 1\<rparr>) s))) = Some s1"
      "\<And>c. b_data (buffers s1 c) = b_data (buffers s c)"
    using assms(9) by (cases r) (auto simp: brelse_def wait_on_buffer_def upd_buffer_def)
  have used: "zone_used sp s z \<longleftrightarrow> test_bit (n mod 8192) (b_data (buffers s b))"
    using assms(6) by (simp add: zone_used_def map_bit_def n_def)
  let ?s2 = "upd_buffer b (\<lambda>bh. bh\<lparr>b_data := snd (clear_bit_at (n mod 8192) (b_data (buffers s1 b))), b_dirt := True\<rparr>) s1"
  have run: "free_block dev z s = (if zone_used sp s z then Some ?s2 else None)"
  proof (cases r)
    case None
    then have "s1 = s" using s1(1) by simp
    then show ?thesis using None assms(1,4,5,8) assms(6) [folded n_def] s0 used
      by (simp add: free_block_def get_hash_table_def assms(2) [symmetric] n clear_bit_at_def Let_def)
  next
    case (Some c)
    then show ?thesis using assms(1,4,5,8,9) assms(6) [folded n_def] s0 s1(1) used [unfolded s1(2) [symmetric]]
      by (simp add: free_block_def get_hash_table_def wait_on_buffer_def assms(2) [symmetric] n clear_bit_at_def
        upd_buffer_def Let_def)
  qed
  have "zone_used sp ?s2 y = (y \<noteq> z \<and> zone_used sp s y)" if "?f \<le> y" for y
    using map_bit_clear [of "s_zmap sp" n b "buffers ?s2" "buffers s" "zone_bit sp y"] assms(6,7) that
      zone_bit_inj [OF that assms(4)]
    by (auto simp: zone_used_def n_def s1(2) upd_buffer_def)
  then show ?thesis using run by auto
qed

theorem free_block_clears_witness:
  "\<exists>s'. free_block 257 4 demo_fs = Some s' \<and> \<not> zone_used (super_blocks demo_fs 0) s' 4
    \<and> zone_used (super_blocks demo_fs 0) s' 3"
proof -
  have m: "s_zmap (super_blocks demo_fs 0) = [0 \<mapsto> 0]" by (simp add: demo_fs_def)
  have "1 \<le> uint (s_firstdatazone (super_blocks demo_fs 0))" "uint (s_firstdatazone (super_blocks demo_fs 0)) \<le> 4"
    "4 < uint (s_nzones (super_blocks demo_fs 0))"
    "s_zmap (super_blocks demo_fs 0) (zone_bit (super_blocks demo_fs 0) 4 div 8192) = Some 0"
    by (simp_all add: demo_fields m zone_bit_def)
  then have "if zone_used (super_blocks demo_fs 0) demo_fs 4 then \<exists>s'. free_block 257 4 demo_fs = Some s'
      \<and> (\<forall>y. uint (s_firstdatazone (super_blocks demo_fs 0)) \<le> y \<longrightarrow> zone_used (super_blocks demo_fs 0) s' y
        = (y \<noteq> 4 \<and> zone_used (super_blocks demo_fs 0) demo_fs y))
    else free_block 257 4 demo_fs = None"
    by (rule free_block_clears [OF demo_get_super refl _ _ _ _ _ demo_find]) (simp_all add: m split: if_splits)
  then show ?thesis using demo_zone_used by (auto simp: demo_fields)
qed

end
