(* ===== verification/Super.thy ===== *)
theory Super
  imports Inode
begin

text \<open>
  Super blocks (\<open>fs/super.c\<close>): reading, releasing and the detection of changed floppies
  (\<open>check_disk_change\<close> of \<open>fs/buffer.c\<close>, \<open>floppy_change\<close> of \<open>kernel/blk_drv/floppy.c\<close>). Mounting is in
  the theory of path names, which it needs.
\<close>

definition put_super :: "int \<Rightarrow> 'a fs_state_scheme \<Rightarrow> 'a fs_state_scheme option" where
  "put_super dev s =
     (if dev = ROOT_DEV s then Some s
      else do {
        (sb, s) \<leftarrow> get_super dev s;
        case sb of
          None \<Rightarrow> Some s
        | Some k \<Rightarrow>
            if s_imount (super_blocks s k) \<noteq> None then Some s
            else do {
              s \<leftarrow> lock_super k s;
              let s = upd_super k (s_dev_update (\<lambda>_. 0)) s;
              s \<leftarrow> for_range 0 I_MAP_SLOTS (\<lambda>i s. brelse (s_imap (super_blocks s k) i) s) s;
              s \<leftarrow> for_range 0 Z_MAP_SLOTS (\<lambda>i s. brelse (s_zmap (super_blocks s k) i) s) s;
              Some (free_super k s) } })"

definition FD_DIR :: u16 where "FD_DIR = 0x3f7"

text \<open>\<open>floppy_on\<close> sleeps until the motor is up to speed; a call that sleeps does not return here.\<close>

partial_function (option) floppy_change :: "nat \<Rightarrow> 'a fs_state_scheme \<Rightarrow> (bool \<times> 'a fs_state_scheme) option" where
  "floppy_change nr s = do {
     (slept, s) \<leftarrow> floppy_on nr s;
     if slept \<noteq> None then None
     else if unat (current_DOR s AND 3) \<noteq> nr \<and> selected s \<noteq> 0 then None
     else if unat (current_DOR s AND 3) \<noteq> nr then floppy_change nr s
     else Some (inb FD_DIR s AND 0x80 \<noteq> 0, floppy_off nr s) }"

definition check_disk_change :: "int \<Rightarrow> 'a fs_state_scheme \<Rightarrow> 'a fs_state_scheme option" where
  "check_disk_change dev s =
     (if MAJOR dev \<noteq> 2 then Some s
      else do {
        (changed, s) \<leftarrow> floppy_change (nat (dev mod 4)) s;
        if \<not> changed then Some s
        else do {
          s \<leftarrow> for_range 0 NR_SUPER (\<lambda>i s.
            if uint (s_dev (super_blocks s i)) = dev then put_super (uint (s_dev (super_blocks s i))) s
            else Some s) s;
          s \<leftarrow> invalidate_inodes dev s;
          invalidate_buffers dev s } })"

definition get_d_super :: "bytes \<Rightarrow> super_block \<Rightarrow> super_block" where
  "get_d_super d sb = sb\<lparr>s_ninodes := get_u16 0 d, s_nzones := get_u16 2 d, s_imap_blocks := get_u16 4 d,
     s_zmap_blocks := get_u16 6 d, s_firstdatazone := get_u16 8 d, s_log_zone_size := get_u16 10 d,
     s_max_size := get_u32 12 d, s_magic := get_u16 16 d\<rparr>"

text \<open>The loops that read the bitmaps: \<open>n\<close> more blocks, slot \<open>i\<close>, device block \<open>block\<close>; they stop at the first
  block that cannot be read. The arrays have eight slots; the code relies on the disk for not exceeding
  them.\<close>

primrec read_maps ::
  "(nat \<Rightarrow> nat option \<Rightarrow> super_block \<Rightarrow> super_block) \<Rightarrow> nat \<Rightarrow> int \<Rightarrow> nat \<Rightarrow> nat \<Rightarrow> int
     \<Rightarrow> 'a fs_state_scheme \<Rightarrow> (int \<times> 'a fs_state_scheme) option" where
  "read_maps slot k dev 0 i block s = Some (block, s)"
| "read_maps slot k dev (Suc n) i block s = do {
     (bh, s) \<leftarrow> bread dev block s;
     let s = upd_super k (slot i bh) s;
     if bh \<noteq> None then read_maps slot k dev n (i + 1) (block + 1) s else Some (block, s) }"

definition set_imap :: "nat \<Rightarrow> nat option \<Rightarrow> super_block \<Rightarrow> super_block" where
  "set_imap i v sb = sb\<lparr>s_imap := (s_imap sb)(i := v)\<rparr>"

definition set_zmap :: "nat \<Rightarrow> nat option \<Rightarrow> super_block \<Rightarrow> super_block" where
  "set_zmap i v sb = sb\<lparr>s_zmap := (s_zmap sb)(i := v)\<rparr>"

definition read_super :: "int \<Rightarrow> 'a fs_state_scheme \<Rightarrow> (nat option \<times> 'a fs_state_scheme) option" where
  "read_super dev s =
     (if dev = 0 then Some (None, s)
      else do {
        s \<leftarrow> check_disk_change dev s;
        (sb, s) \<leftarrow> get_super dev s;
        if sb \<noteq> None then Some (sb, s)
        else case find_super (super_blocks s) 0 0 NR_SUPER of
          None \<Rightarrow> Some (None, s)
        | Some k \<Rightarrow> do {
            let s = upd_super k (\<lambda>sb. sb\<lparr>s_dev := word_of_int dev, s_isup := None, s_imount := None,
              s_time := 0, s_rd_only := False, s_dirt := False\<rparr>) s;
            s \<leftarrow> lock_super k s;
            (bh, s) \<leftarrow> bread dev 1 s;
            case bh of
              None \<Rightarrow> Some (None, free_super k (upd_super k (s_dev_update (\<lambda>_. 0)) s))
            | Some b \<Rightarrow> do {
                let s = upd_super k (get_d_super (b_data (buffers s b))) s;
                s \<leftarrow> brelse (Some b) s;
                if s_magic (super_blocks s k) \<noteq> SUPER_MAGIC
                then Some (None, free_super k (upd_super k (s_dev_update (\<lambda>_. 0)) s))
                else do {
                  let s = upd_super k (\<lambda>sb. sb\<lparr>
                    s_imap := (\<lambda>i. if i < I_MAP_SLOTS then None else s_imap sb i),
                    s_zmap := (\<lambda>i. if i < Z_MAP_SLOTS then None else s_zmap sb i)\<rparr>) s;
                  (block, s) \<leftarrow> read_maps set_imap k dev (unat (s_imap_blocks (super_blocks s k))) 0 2 s;
                  (block, s) \<leftarrow> read_maps set_zmap k dev (unat (s_zmap_blocks (super_blocks s k))) 0 block s;
                  if block \<noteq> 2 + uint (s_imap_blocks (super_blocks s k)) + uint (s_zmap_blocks (super_blocks s k))
                  then do {
                    s \<leftarrow> for_range 0 I_MAP_SLOTS (\<lambda>i s. brelse (s_imap (super_blocks s k) i) s) s;
                    s \<leftarrow> for_range 0 Z_MAP_SLOTS (\<lambda>i s. brelse (s_zmap (super_blocks s k) i) s) s;
                    Some (None, free_super k (upd_super k (s_dev_update (\<lambda>_. 0)) s)) }
                  else do {
                    im \<leftarrow> s_imap (super_blocks s k) 0;
                    zm \<leftarrow> s_zmap (super_blocks s k) 0;
                    let s = upd_buffer im (\<lambda>bh. bh\<lparr>b_data := (b_data bh)(0 := b_data bh 0 OR 1)\<rparr>) s;
                    let s = upd_buffer zm (\<lambda>bh. bh\<lparr>b_data := (b_data bh)(0 := b_data bh 0 OR 1)\<rparr>) s;
                    Some (Some k, free_super k s) } } } } })"

end
