(* ===== verification/Namei.thy ===== *)
theory Namei
  imports Super
begin

text \<open>
  Path names and directories (\<open>fs/namei.c\<close>), and mounting (\<open>fs/super.c\<close>), which is built on them. A name
  is an address in the data segment of the task. A directory entry is a buffer and the offset of the
  16-byte entry in its block.
\<close>

section \<open>Permissions\<close>

abbreviation (input) MAY_EXEC :: int where "MAY_EXEC \<equiv> 1"
abbreviation (input) MAY_WRITE :: int where "MAY_WRITE \<equiv> 2"
abbreviation (input) MAY_READ :: int where "MAY_READ \<equiv> 4"

abbreviation (input) O_ACCMODE :: u32 where "O_ACCMODE \<equiv> 3"
abbreviation (input) O_WRONLY :: u32 where "O_WRONLY \<equiv> 1"
abbreviation (input) O_CREAT :: u32 where "O_CREAT \<equiv> 0x40"
abbreviation (input) O_EXCL :: u32 where "O_EXCL \<equiv> 0x80"
abbreviation (input) O_TRUNC :: u32 where "O_TRUNC \<equiv> 0x200"
abbreviation (input) O_APPEND :: u32 where "O_APPEND \<equiv> 0x400"
abbreviation (input) O_NONBLOCK :: u32 where "O_NONBLOCK \<equiv> 0x800"

text \<open>\<open>ACC_MODE\<close> indexes a string of (signed) characters.\<close>

definition ACC_MODE :: "u32 \<Rightarrow> int" where
  "ACC_MODE x = [4, 2, 6, -1] ! unat (x AND O_ACCMODE)"

definition permission :: "nat \<Rightarrow> int \<Rightarrow> 'a fs_state_scheme \<Rightarrow> bool" where
  "permission i msk s =
     (let m = inode_table s i; mode = uint (i_mode m) in
      if i_dev m \<noteq> 0 \<and> i_nlinks m = 0 then False
      else
        let mode = (if t_euid (cur s) = i_uid m then drop_bit 6 mode
                    else if uint (t_egid (cur s)) = uint (i_gid m) then drop_bit 3 mode else mode)
        in mode AND msk AND 7 = msk \<or> suser s)"

section \<open>Directory entries\<close>

definition de_inode :: "nat \<Rightarrow> bytes \<Rightarrow> u16" where
  "de_inode off d = get_u16 off d"

definition de_name :: "nat \<Rightarrow> bytes \<Rightarrow> nat \<Rightarrow> u8" where
  "de_name off d k = d (off + 2 + k)"

text \<open>\<open>match\<close>: \<open>repe cmpsb\<close> compares \<open>len\<close> bytes of the name in the data segment with the entry.\<close>

definition match :: "int \<Rightarrow> u32 \<Rightarrow> nat \<Rightarrow> bytes \<Rightarrow> 'a fs_state_scheme \<Rightarrow> bool" where
  "match len name off d s =
     (if de_inode off d = 0 \<or> len > int NAME_LEN then False
      else if len < int NAME_LEN \<and> de_name off d (nat len) \<noteq> 0 then False
      else list_all (\<lambda>k. get_fs_byte (name + of_nat k) s = de_name off d k) [0..<nat len])"

text \<open>The loop of \<open>find_entry\<close>: entry number \<open>i\<close>, position \<open>k\<close> in the block of the buffer \<open>bh\<close>. With a
  \<open>NULL\<close> buffer, after a block that could not be read, the code compares \<open>de\<close> with an address near 0 and
  goes on to the next block.\<close>

partial_function (option) search_dir ::
  "nat \<Rightarrow> u32 \<Rightarrow> int \<Rightarrow> int \<Rightarrow> int \<Rightarrow> nat \<Rightarrow> nat option \<Rightarrow> 'a fs_state_scheme
     \<Rightarrow> ((nat \<times> nat) option \<times> 'a fs_state_scheme) option" where
  "search_dir dir name namelen entries i k bh s =
     (if i < entries then
        (if bh = None \<or> k \<ge> 64 then do {
           s \<leftarrow> brelse bh s;
           (block, s) \<leftarrow> bmap dir (i div DIR_ENTRIES_PER_BLOCK) s;
           if block = 0 then search_dir dir name namelen entries (i + DIR_ENTRIES_PER_BLOCK) k None s
           else do {
             (b, s) \<leftarrow> bread (uint (i_dev (inode_table s dir))) block s;
             if b = None then search_dir dir name namelen entries (i + DIR_ENTRIES_PER_BLOCK) k None s
             else search_dir dir name namelen entries i 0 b s } }
         else if match namelen name (16 * k) (b_data (buffers s (the bh))) s
         then Some (Some (the bh, 16 * k), s)
         else search_dir dir name namelen entries (i + 1) (k + 1) bh s)
      else do { s \<leftarrow> brelse bh s; Some (None, s) })"

text \<open>\<open>find_entry\<close> may replace the directory: \<open>..\<close> at the root of a mounted file system continues in the
  directory it is mounted on. The number of entries is that of the original directory.\<close>

definition find_entry ::
  "nat \<Rightarrow> u32 \<Rightarrow> int \<Rightarrow> 'a fs_state_scheme \<Rightarrow> ((nat \<times> (nat \<times> nat) option) \<times> 'a fs_state_scheme) option" where
  "find_entry dir name namelen s =
     (let namelen = (if namelen > int NAME_LEN then int NAME_LEN else namelen);
          entries = i32 (uint (i_size (inode_table s dir) div 16)) in
      if namelen = 0 then Some ((dir, None), s)
      else do {
        ((namelen, dir), s) \<leftarrow>
          (if namelen = 2 \<and> get_fs_byte name s = 46 \<and> get_fs_byte (name + 1) s = 46 then
             (if Some dir = t_root (cur s) then Some ((1, dir), s)
              else if uint (i_num (inode_table s dir)) = ROOT_INO then do {
                (sb, s) \<leftarrow> get_super (uint (i_dev (inode_table s dir))) s;
                sb \<leftarrow> sb;
                case s_imount (super_blocks s sb) of
                  None \<Rightarrow> Some ((namelen, dir), s)
                | Some mnt \<Rightarrow> do {
                    s \<leftarrow> iput (Some dir) s;
                    Some ((namelen, mnt), upd_inode mnt (i_count_update (\<lambda>c. c + 1)) s) } }
              else Some ((namelen, dir), s))
           else Some ((namelen, dir), s));
        let block = uint (i_zone (inode_table s dir) 0);
        if block = 0 then Some ((dir, None), s)
        else do {
          (bh, s) \<leftarrow> bread (uint (i_dev (inode_table s dir))) block s;
          if bh = None then Some ((dir, None), s)
          else do {
            (r, s) \<leftarrow> search_dir dir name namelen entries 0 0 bh s;
            Some ((dir, r), s) } } })"

partial_function (option) add_entry_at ::
  "nat \<Rightarrow> u32 \<Rightarrow> int \<Rightarrow> int \<Rightarrow> nat \<Rightarrow> nat option \<Rightarrow> 'a fs_state_scheme
     \<Rightarrow> ((nat \<times> nat) option \<times> 'a fs_state_scheme) option" where
  "add_entry_at dir name namelen i k bh s =
     (if bh = None \<or> k \<ge> 64 then do {
        s \<leftarrow> brelse bh s;
        (block, s) \<leftarrow> create_block dir (i div DIR_ENTRIES_PER_BLOCK) s;
        if block = 0 then Some (None, s)
        else do {
          (b, s) \<leftarrow> bread (uint (i_dev (inode_table s dir))) block s;
          if b = None then add_entry_at dir name namelen (i + DIR_ENTRIES_PER_BLOCK) k None s
          else add_entry_at dir name namelen i 0 b s } }
      else
        let b = the bh;
            s = (if 16 * i \<ge> uint (i_size (inode_table s dir)) then
                   upd_inode dir (\<lambda>m. m\<lparr>i_size := word_of_int (16 * (i + 1)), i_dirt := True, i_ctime := now s\<rparr>)
                     (upd_buffer b (\<lambda>bh. bh\<lparr>b_data := put_u16 (16 * k) 0 (b_data bh)\<rparr>) s)
                 else s)
        in if de_inode (16 * k) (b_data (buffers s b)) = 0 then
             let s = upd_inode dir (i_mtime_update (\<lambda>_. now s)) s;
                 s = upd_buffer b (\<lambda>bh. bh\<lparr>b_data := (\<lambda>j.
                   if 16 * k + 2 \<le> j \<and> j < 16 * k + 2 + NAME_LEN then
                     (if int (j - (16 * k + 2)) < namelen then get_fs_byte (name + of_nat (j - (16 * k + 2))) s else 0)
                   else b_data bh j), b_dirt := True\<rparr>) s
             in Some (Some (b, 16 * k), s)
           else add_entry_at dir name namelen (i + 1) (k + 1) bh s)"

definition add_entry ::
  "nat \<Rightarrow> u32 \<Rightarrow> int \<Rightarrow> 'a fs_state_scheme \<Rightarrow> ((nat \<times> nat) option \<times> 'a fs_state_scheme) option" where
  "add_entry dir name namelen s =
     (let namelen = (if namelen > int NAME_LEN then int NAME_LEN else namelen);
          block = uint (i_zone (inode_table s dir) 0) in
      if namelen = 0 then Some (None, s)
      else if block = 0 then Some (None, s)
      else do {
        (bh, s) \<leftarrow> bread (uint (i_dev (inode_table s dir))) block s;
        if bh = None then Some (None, s) else add_entry_at dir name namelen 0 0 bh s })"

text \<open>\<open>de->inode = n; bh->b_dirt = 1\<close>.\<close>

definition set_entry :: "nat \<times> nat \<Rightarrow> u16 \<Rightarrow> 'a fs_state_scheme \<Rightarrow> 'a fs_state_scheme" where
  "set_entry de n s = upd_buffer (fst de) (\<lambda>bh. bh\<lparr>b_data := put_u16 (snd de) n (b_data bh), b_dirt := True\<rparr>) s"

definition entry_inode :: "nat \<times> nat \<Rightarrow> 'a fs_state_scheme \<Rightarrow> int" where
  "entry_inode de s = uint (de_inode (snd de) (b_data (buffers s (fst de))))"

section \<open>Walking a path\<close>

text \<open>\<open>for (namelen=0; (c=get_fs_byte(pathname++)) && (c!='/'); namelen++)\<close>: the character that ended the
  loop, the new \<open>pathname\<close>, and \<open>namelen\<close>.\<close>

partial_function (option) scan_name :: "(u32 \<Rightarrow> u8) \<Rightarrow> u32 \<Rightarrow> int \<Rightarrow> (u8 \<times> u32 \<times> int) option" where
  "scan_name mem pathname namelen =
     (if mem pathname \<noteq> 0 \<and> mem pathname \<noteq> 47 then scan_name mem (pathname + 1) (namelen + 1)
      else Some (mem pathname, pathname + 1, namelen))"

partial_function (option) walk_dirs ::
  "nat \<Rightarrow> u32 \<Rightarrow> 'a fs_state_scheme \<Rightarrow> (nat option \<times> 'a fs_state_scheme) option" where
  "walk_dirs i pathname s =
     (if \<not> S_ISDIR (i_mode (inode_table s i)) \<or> \<not> permission i MAY_EXEC s
      then do { s \<leftarrow> iput (Some i) s; Some (None, s) }
      else do {
        scanned \<leftarrow> scan_name (fs_mem s) pathname 0;
        if fst scanned = 0 then Some (Some i, s)
        else do {
          (found, s) \<leftarrow> find_entry i pathname (snd (snd scanned)) s;
          if snd found = None then do { s \<leftarrow> iput (Some (fst found)) s; Some (None, s) }
          else do {
            let inr = entry_inode (the (snd found)) s;
            let idev = uint (i_dev (inode_table s (fst found)));
            s \<leftarrow> brelse (Some (fst (the (snd found)))) s;
            s \<leftarrow> iput (Some (fst found)) s;
            (i, s) \<leftarrow> iget idev inr s;
            walk_dirs i (fst (snd scanned)) s } } })"

definition inode_busy :: "nat option \<Rightarrow> 'a fs_state_scheme \<Rightarrow> bool" where
  "inode_busy i s = (case i of None \<Rightarrow> False | Some i \<Rightarrow> i_count (inode_table s i) \<noteq> 0)"

definition get_dir :: "u32 \<Rightarrow> 'a fs_state_scheme \<Rightarrow> (nat option \<times> 'a fs_state_scheme) option" where
  "get_dir pathname s =
     (if \<not> inode_busy (t_root (cur s)) s then None
      else if \<not> inode_busy (t_pwd (cur s)) s then None
      else
        let c = get_fs_byte pathname s in
        if c = 0 then Some (None, s)
        else
          let (i, pathname) = (if c = 47 then (the (t_root (cur s)), pathname + 1) else (the (t_pwd (cur s)), pathname))
          in walk_dirs i pathname (upd_inode i (i_count_update (\<lambda>n. n + 1)) s))"

partial_function (option) scan_base :: "(u32 \<Rightarrow> u8) \<Rightarrow> u32 \<Rightarrow> u32 \<Rightarrow> (u32 \<times> u32) option" where
  "scan_base mem pathname base =
     (let c = mem pathname; pathname = pathname + 1 in
      if c \<noteq> 0 then scan_base mem pathname (if c = 47 then pathname else base) else Some (pathname, base))"

text \<open>The directory, the length of the last component and its address.\<close>

definition dir_namei ::
  "u32 \<Rightarrow> 'a fs_state_scheme \<Rightarrow> ((nat \<times> int \<times> u32) option \<times> 'a fs_state_scheme) option" where
  "dir_namei pathname s = do {
     (dir, s) \<leftarrow> get_dir pathname s;
     case dir of
       None \<Rightarrow> Some (None, s)
     | Some dir \<Rightarrow> do {
         (pn, base) \<leftarrow> scan_base (fs_mem s) pathname pathname;
         Some (Some (dir, sint (pn - base - 1), base), s) } }"

definition namei :: "u32 \<Rightarrow> 'a fs_state_scheme \<Rightarrow> (nat option \<times> 'a fs_state_scheme) option" where
  "namei pathname s = do {
     (r, s) \<leftarrow> dir_namei pathname s;
     case r of
       None \<Rightarrow> Some (None, s)
     | Some (dir, namelen, base) \<Rightarrow>
         if namelen = 0 then Some (Some dir, s)
         else do {
           ((dir, de), s) \<leftarrow> find_entry dir base namelen s;
           case de of
             None \<Rightarrow> do { s \<leftarrow> iput (Some dir) s; Some (None, s) }
           | Some de \<Rightarrow> do {
               let inr = entry_inode de s;
               let dev = uint (i_dev (inode_table s dir));
               s \<leftarrow> brelse (Some (fst de)) s;
               s \<leftarrow> iput (Some dir) s;
               (i, s) \<leftarrow> iget dev inr s;
               Some (Some i, upd_inode i (\<lambda>m. m\<lparr>i_atime := now s, i_dirt := True\<rparr>) s) } } }"

end
