(* ===== verification/Dir_Ops.thy ===== *)
theory Dir_Ops
  imports Namei
begin

text \<open>
  The operations of \<open>fs/namei.c\<close> that change directories: \<open>open_namei\<close>, \<open>mknod\<close>, \<open>mkdir\<close>, \<open>rmdir\<close>,
  \<open>unlink\<close> and \<open>link\<close>, and of \<open>fs/super.c\<close>: \<open>mount\<close>, \<open>umount\<close> and \<open>mount_root\<close>. Each returns 0 or a
  negative error number.
\<close>

abbreviation (input) I_REGULAR :: u32 where "I_REGULAR \<equiv> 0x8000"
abbreviation (input) I_DIRECTORY :: u32 where "I_DIRECTORY \<equiv> 0x4000"
abbreviation (input) S_ISVTX :: u16 where "S_ISVTX \<equiv> 0x200"

section \<open>open_namei\<close>

definition open_namei ::
  "u32 \<Rightarrow> u32 \<Rightarrow> u32 \<Rightarrow> 'a fs_state_scheme \<Rightarrow> ((int \<times> nat option) \<times> 'a fs_state_scheme) option" where
  "open_namei pathname flag mode s = do {
     let flag = (if flag AND O_TRUNC \<noteq> 0 \<and> flag AND O_ACCMODE = 0 then flag OR O_WRONLY else flag);
     let mode = (mode AND (0x1ff AND NOT (ucast (t_umask (cur s))))) OR I_REGULAR;
     (r, s) \<leftarrow> dir_namei pathname s;
     case r of
       None \<Rightarrow> Some ((-ENOENT, None), s)
     | Some (dir, namelen, base) \<Rightarrow>
         if namelen = 0 then
           (if flag AND (O_ACCMODE OR O_CREAT OR O_TRUNC) = 0 then Some ((0, Some dir), s)
            else do { s \<leftarrow> iput (Some dir) s; Some ((-EISDIR, None), s) })
         else do {
           ((dir, de), s) \<leftarrow> find_entry dir base namelen s;
           case de of
             None \<Rightarrow>
               if flag AND O_CREAT = 0 then do { s \<leftarrow> iput (Some dir) s; Some ((-ENOENT, None), s) }
               else if \<not> permission dir MAY_WRITE s then do { s \<leftarrow> iput (Some dir) s; Some ((-EACCES, None), s) }
               else do {
                 (inode, s) \<leftarrow> new_inode (uint (i_dev (inode_table s dir))) s;
                 case inode of
                   None \<Rightarrow> do { s \<leftarrow> iput (Some dir) s; Some ((-ENOSPC, None), s) }
                 | Some i \<Rightarrow> do {
                     let s = upd_inode i (\<lambda>m. m\<lparr>i_uid := t_euid (cur s), i_mode := ucast mode, i_dirt := True\<rparr>) s;
                     (de, s) \<leftarrow> add_entry dir base namelen s;
                     case de of
                       None \<Rightarrow> do {
                         let s = upd_inode i (i_nlinks_update (\<lambda>n. n - 1)) s;
                         s \<leftarrow> iput (Some i) s;
                         s \<leftarrow> iput (Some dir) s;
                         Some ((-ENOSPC, None), s) }
                     | Some de \<Rightarrow> do {
                         let s = set_entry de (i_num (inode_table s i)) s;
                         s \<leftarrow> brelse (Some (fst de)) s;
                         s \<leftarrow> iput (Some dir) s;
                         Some ((0, Some i), s) } } }
           | Some de \<Rightarrow> do {
               let inr = entry_inode de s;
               let dev = uint (i_dev (inode_table s dir));
               s \<leftarrow> brelse (Some (fst de)) s;
               s \<leftarrow> iput (Some dir) s;
               if flag AND O_EXCL \<noteq> 0 then Some ((-EEXIST, None), s)
               else do {
                 (i, s) \<leftarrow> iget dev inr s;
                 if S_ISDIR (i_mode (inode_table s i)) \<and> flag AND O_ACCMODE \<noteq> 0 \<or> \<not> permission i (ACC_MODE flag) s
                 then do { s \<leftarrow> iput (Some i) s; Some ((-EPERM, None), s) }
                 else do {
                   let s = upd_inode i (i_atime_update (\<lambda>_. now s)) s;
                   s \<leftarrow> (if flag AND O_TRUNC \<noteq> 0 then truncate i s else Some s);
                   Some ((0, Some i), s) } } } } }"

section \<open>mknod and mkdir\<close>

definition sys_mknod :: "u32 \<Rightarrow> u32 \<Rightarrow> int \<Rightarrow> 'a fs_state_scheme \<Rightarrow> (int \<times> 'a fs_state_scheme) option" where
  "sys_mknod filename mode dev s =
     (if \<not> suser s then Some (-EPERM, s)
      else do {
        (r, s) \<leftarrow> dir_namei filename s;
        case r of
          None \<Rightarrow> Some (-ENOENT, s)
        | Some (dir, namelen, base) \<Rightarrow>
            if namelen = 0 then do { s \<leftarrow> iput (Some dir) s; Some (-ENOENT, s) }
            else if \<not> permission dir MAY_WRITE s then do { s \<leftarrow> iput (Some dir) s; Some (-EPERM, s) }
            else do {
              ((dir, de), s) \<leftarrow> find_entry dir base namelen s;
              case de of
                Some de \<Rightarrow> do {
                  s \<leftarrow> brelse (Some (fst de)) s;
                  s \<leftarrow> iput (Some dir) s;
                  Some (-EEXIST, s) }
              | None \<Rightarrow> do {
                  (inode, s) \<leftarrow> new_inode (uint (i_dev (inode_table s dir))) s;
                  case inode of
                    None \<Rightarrow> do { s \<leftarrow> iput (Some dir) s; Some (-ENOSPC, s) }
                  | Some i \<Rightarrow> do {
                      let s = upd_inode i (i_mode_update (\<lambda>_. ucast mode)) s;
                      let s = (if S_ISBLK (ucast mode) \<or> S_ISCHR (ucast mode)
                               then upd_inode i (set_zone 0 (word_of_int dev)) s else s);
                      let s = upd_inode i (\<lambda>m. m\<lparr>i_mtime := now s, i_atime := now s, i_dirt := True\<rparr>) s;
                      (de, s) \<leftarrow> add_entry dir base namelen s;
                      case de of
                        None \<Rightarrow> do {
                          s \<leftarrow> iput (Some dir) s;
                          let s = upd_inode i (i_nlinks_update (\<lambda>_. 0)) s;
                          s \<leftarrow> iput (Some i) s;
                          Some (-ENOSPC, s) }
                      | Some de \<Rightarrow> do {
                          let s = set_entry de (i_num (inode_table s i)) s;
                          s \<leftarrow> iput (Some dir) s;
                          s \<leftarrow> iput (Some i) s;
                          s \<leftarrow> brelse (Some (fst de)) s;
                          Some (0, s) } } } } })"

text \<open>\<open>strcpy(de->name, ".")\<close> and \<open>strcpy(de->name, "..")\<close> in a fresh directory block.\<close>

definition dot_entries :: "u16 \<Rightarrow> u16 \<Rightarrow> bytes \<Rightarrow> bytes" where
  "dot_entries self parent d =
     (put_u16 16 parent ((put_u16 0 self d)(2 := 46, 3 := 0)))(18 := 46, 19 := 46, 20 := 0)"

definition sys_mkdir :: "u32 \<Rightarrow> u32 \<Rightarrow> 'a fs_state_scheme \<Rightarrow> (int \<times> 'a fs_state_scheme) option" where
  "sys_mkdir pathname mode s =
     (if \<not> suser s then Some (-EPERM, s)
      else do {
        (r, s) \<leftarrow> dir_namei pathname s;
        case r of
          None \<Rightarrow> Some (-ENOENT, s)
        | Some (dir, namelen, base) \<Rightarrow>
            if namelen = 0 then do { s \<leftarrow> iput (Some dir) s; Some (-ENOENT, s) }
            else if \<not> permission dir MAY_WRITE s then do { s \<leftarrow> iput (Some dir) s; Some (-EPERM, s) }
            else do {
              ((dir, de), s) \<leftarrow> find_entry dir base namelen s;
              case de of
                Some de \<Rightarrow> do {
                  s \<leftarrow> brelse (Some (fst de)) s;
                  s \<leftarrow> iput (Some dir) s;
                  Some (-EEXIST, s) }
              | None \<Rightarrow> do {
                  (inode, s) \<leftarrow> new_inode (uint (i_dev (inode_table s dir))) s;
                  case inode of
                    None \<Rightarrow> do { s \<leftarrow> iput (Some dir) s; Some (-ENOSPC, s) }
                  | Some i \<Rightarrow> do {
                      let s = upd_inode i (\<lambda>m. m\<lparr>i_size := 32, i_dirt := True, i_mtime := now s, i_atime := now s\<rparr>) s;
                      (z, s) \<leftarrow> new_block (uint (i_dev (inode_table s i))) s;
                      let s = upd_inode i (set_zone 0 (word_of_int z)) s;
                      if i_zone (inode_table s i) 0 = 0 then do {
                        s \<leftarrow> iput (Some dir) s;
                        let s = upd_inode i (i_nlinks_update (\<lambda>n. n - 1)) s;
                        s \<leftarrow> iput (Some i) s;
                        Some (-ENOSPC, s) }
                      else do {
                        let s = upd_inode i (i_dirt_update (\<lambda>_. True)) s;
                        let m = inode_table s i;
                        (dir_block, s) \<leftarrow> bread (uint (i_dev m)) (uint (i_zone m 0)) s;
                        case dir_block of
                          None \<Rightarrow> do {
                            s \<leftarrow> iput (Some dir) s;
                            let m = inode_table s i;
                            s \<leftarrow> free_block (uint (i_dev m)) (uint (i_zone m 0)) s;
                            let s = upd_inode i (i_nlinks_update (\<lambda>n. n - 1)) s;
                            s \<leftarrow> iput (Some i) s;
                            Some (-ERROR, s) }
                        | Some b \<Rightarrow> do {
                            let s = upd_buffer b (\<lambda>bh. bh\<lparr>b_data := dot_entries (i_num (inode_table s i))
                              (i_num (inode_table s dir)) (b_data bh)\<rparr>) s;
                            let s = upd_inode i (i_nlinks_update (\<lambda>_. 2)) s;
                            let s = upd_buffer b (b_dirt_update (\<lambda>_. True)) s;
                            s \<leftarrow> brelse (Some b) s;
                            let s = upd_inode i (\<lambda>m. m\<lparr>i_mode := ucast (I_DIRECTORY OR
                              (mode AND 0x1ff AND NOT (ucast (t_umask (cur s))))), i_dirt := True\<rparr>) s;
                            (de, s) \<leftarrow> add_entry dir base namelen s;
                            case de of
                              None \<Rightarrow> do {
                                s \<leftarrow> iput (Some dir) s;
                                let m = inode_table s i;
                                s \<leftarrow> free_block (uint (i_dev m)) (uint (i_zone m 0)) s;
                                let s = upd_inode i (i_nlinks_update (\<lambda>_. 0)) s;
                                s \<leftarrow> iput (Some i) s;
                                Some (-ENOSPC, s) }
                            | Some de \<Rightarrow> do {
                                let s = set_entry de (i_num (inode_table s i)) s;
                                let s = upd_inode dir (\<lambda>m. m\<lparr>i_nlinks := i_nlinks m + 1, i_dirt := True\<rparr>) s;
                                s \<leftarrow> iput (Some dir) s;
                                s \<leftarrow> iput (Some i) s;
                                s \<leftarrow> brelse (Some (fst de)) s;
                                Some (0, s) } } } } } } })"

section \<open>rmdir\<close>

text \<open>The loop of \<open>empty_dir\<close>. When \<open>bmap\<close> finds no block, the buffer has been released but \<open>bh\<close> still
  points to it.\<close>

partial_function (option) scan_empty ::
  "nat \<Rightarrow> int \<Rightarrow> int \<Rightarrow> nat \<Rightarrow> nat \<Rightarrow> 'a fs_state_scheme \<Rightarrow> (bool \<times> 'a fs_state_scheme) option" where
  "scan_empty inode len nr k b s =
     (if nr < len then
        (if k \<ge> 64 then do {
           s \<leftarrow> brelse (Some b) s;
           (block, s) \<leftarrow> bmap inode (nr div DIR_ENTRIES_PER_BLOCK) s;
           if block = 0 then scan_empty inode len (nr + DIR_ENTRIES_PER_BLOCK) k b s
           else do {
             (bh, s) \<leftarrow> bread (uint (i_dev (inode_table s inode))) block s;
             if bh = None then Some (False, s)
             else if de_inode 0 (b_data (buffers s (the bh))) \<noteq> 0
             then do { s \<leftarrow> brelse bh s; Some (False, s) }
             else scan_empty inode len (nr + 1) 1 (the bh) s } }
         else if de_inode (16 * k) (b_data (buffers s b)) \<noteq> 0
         then do { s \<leftarrow> brelse (Some b) s; Some (False, s) }
         else scan_empty inode len (nr + 1) (k + 1) b s)
      else do { s \<leftarrow> brelse (Some b) s; Some (True, s) })"

definition empty_dir :: "nat \<Rightarrow> 'a fs_state_scheme \<Rightarrow> (bool \<times> 'a fs_state_scheme) option" where
  "empty_dir i s =
     (let m = inode_table s i; len = i32 (uint (i_size m div 16)) in
      if len < 2 \<or> i_zone m 0 = 0 then Some (False, s)
      else do {
        (bh, s) \<leftarrow> bread (uint (i_dev m)) (uint (i_zone m 0)) s;
        case bh of
          None \<Rightarrow> Some (False, s)
        | Some b \<Rightarrow>
            let d = b_data (buffers s b) in
            if de_inode 0 d \<noteq> i_num (inode_table s i) \<or> de_inode 16 d = 0
               \<or> \<not> (de_name 0 d 0 = 46 \<and> de_name 0 d 1 = 0)
               \<or> \<not> (de_name 16 d 0 = 46 \<and> de_name 16 d 1 = 46 \<and> de_name 16 d 2 = 0)
            then Some (False, s)
            else scan_empty i len 2 2 b s })"

definition sys_rmdir :: "u32 \<Rightarrow> 'a fs_state_scheme \<Rightarrow> (int \<times> 'a fs_state_scheme) option" where
  "sys_rmdir name s =
     (if \<not> suser s then Some (-EPERM, s)
      else do {
        (r, s) \<leftarrow> dir_namei name s;
        case r of
          None \<Rightarrow> Some (-ENOENT, s)
        | Some (dir, namelen, base) \<Rightarrow>
            if namelen = 0 then do { s \<leftarrow> iput (Some dir) s; Some (-ENOENT, s) }
            else if \<not> permission dir MAY_WRITE s then do { s \<leftarrow> iput (Some dir) s; Some (-EPERM, s) }
            else do {
              ((dir, de), s) \<leftarrow> find_entry dir base namelen s;
              case de of
                None \<Rightarrow> do { s \<leftarrow> iput (Some dir) s; Some (-ENOENT, s) }
              | Some de \<Rightarrow> do {
                  (i, s) \<leftarrow> iget (uint (i_dev (inode_table s dir))) (entry_inode de s) s;
                  let fail1 = (\<lambda>e. do {
                    s \<leftarrow> iput (Some dir) s;
                    s \<leftarrow> iput (Some i) s;
                    s \<leftarrow> brelse (Some (fst de)) s;
                    Some (- e, s) });
                  let fail2 = (\<lambda>e s. do {
                    s \<leftarrow> iput (Some i) s;
                    s \<leftarrow> iput (Some dir) s;
                    s \<leftarrow> brelse (Some (fst de)) s;
                    Some (- e, s) });
                  if i_mode (inode_table s dir) AND S_ISVTX \<noteq> 0 \<and> t_euid (cur s) \<noteq> 0
                     \<and> i_uid (inode_table s i) \<noteq> t_euid (cur s)
                  then fail1 EPERM
                  else if i_dev (inode_table s i) \<noteq> i_dev (inode_table s dir) \<or> i_count (inode_table s i) > 1
                  then fail1 EPERM
                  else if i = dir then fail2 EPERM s
                  else if \<not> S_ISDIR (i_mode (inode_table s i)) then fail2 ENOTDIR s
                  else do {
                    (is_empty, s) \<leftarrow> empty_dir i s;
                    if \<not> is_empty then fail2 ENOTEMPTY s
                    else do {
                      let s = set_entry de 0 s;
                      s \<leftarrow> brelse (Some (fst de)) s;
                      let s = upd_inode i (\<lambda>m. m\<lparr>i_nlinks := 0, i_dirt := True\<rparr>) s;
                      let s = upd_inode dir (\<lambda>m. m\<lparr>i_nlinks := i_nlinks m - 1, i_ctime := now s,
                        i_mtime := now s, i_dirt := True\<rparr>) s;
                      s \<leftarrow> iput (Some dir) s;
                      s \<leftarrow> iput (Some i) s;
                      Some (0, s) } } } } })"

section \<open>unlink and link\<close>

definition sys_unlink :: "u32 \<Rightarrow> 'a fs_state_scheme \<Rightarrow> (int \<times> 'a fs_state_scheme) option" where
  "sys_unlink name s = do {
     (r, s) \<leftarrow> dir_namei name s;
     case r of
       None \<Rightarrow> Some (-ENOENT, s)
     | Some (dir, namelen, base) \<Rightarrow>
         if namelen = 0 then do { s \<leftarrow> iput (Some dir) s; Some (-ENOENT, s) }
         else if \<not> permission dir MAY_WRITE s then do { s \<leftarrow> iput (Some dir) s; Some (-EPERM, s) }
         else do {
           ((dir, de), s) \<leftarrow> find_entry dir base namelen s;
           case de of
             None \<Rightarrow> do { s \<leftarrow> iput (Some dir) s; Some (-ENOENT, s) }
           | Some de \<Rightarrow> do {
               (i, s) \<leftarrow> iget (uint (i_dev (inode_table s dir))) (entry_inode de s) s;
               if i_mode (inode_table s dir) AND S_ISVTX \<noteq> 0 \<and> \<not> suser s
                  \<and> t_euid (cur s) \<noteq> i_uid (inode_table s i) \<and> t_euid (cur s) \<noteq> i_uid (inode_table s dir)
               then do {
                 s \<leftarrow> iput (Some dir) s;
                 s \<leftarrow> iput (Some i) s;
                 s \<leftarrow> brelse (Some (fst de)) s;
                 Some (-EPERM, s) }
               else if S_ISDIR (i_mode (inode_table s i)) then do {
                 s \<leftarrow> iput (Some i) s;
                 s \<leftarrow> iput (Some dir) s;
                 s \<leftarrow> brelse (Some (fst de)) s;
                 Some (-EPERM, s) }
               else do {
                 let s = (if i_nlinks (inode_table s i) = 0 then upd_inode i (i_nlinks_update (\<lambda>_. 1)) s else s);
                 let s = set_entry de 0 s;
                 s \<leftarrow> brelse (Some (fst de)) s;
                 let s = upd_inode i (\<lambda>m. m\<lparr>i_nlinks := i_nlinks m - 1, i_dirt := True, i_ctime := now s\<rparr>) s;
                 s \<leftarrow> iput (Some i) s;
                 s \<leftarrow> iput (Some dir) s;
                 Some (0, s) } } } }"

definition sys_link :: "u32 \<Rightarrow> u32 \<Rightarrow> 'a fs_state_scheme \<Rightarrow> (int \<times> 'a fs_state_scheme) option" where
  "sys_link oldname newname s = do {
     (oldinode, s) \<leftarrow> namei oldname s;
     case oldinode of
       None \<Rightarrow> Some (-ENOENT, s)
     | Some old \<Rightarrow>
         if S_ISDIR (i_mode (inode_table s old)) then do { s \<leftarrow> iput (Some old) s; Some (-EPERM, s) }
         else do {
           (r, s) \<leftarrow> dir_namei newname s;
           case r of
             None \<Rightarrow> do { s \<leftarrow> iput (Some old) s; Some (-EACCES, s) }
           | Some (dir, namelen, base) \<Rightarrow>
               if namelen = 0 then do { s \<leftarrow> iput (Some old) s; s \<leftarrow> iput (Some dir) s; Some (-EPERM, s) }
               else if i_dev (inode_table s dir) \<noteq> i_dev (inode_table s old)
               then do { s \<leftarrow> iput (Some dir) s; s \<leftarrow> iput (Some old) s; Some (-EXDEV, s) }
               else if \<not> permission dir MAY_WRITE s
               then do { s \<leftarrow> iput (Some dir) s; s \<leftarrow> iput (Some old) s; Some (-EACCES, s) }
               else do {
                 ((dir, de), s) \<leftarrow> find_entry dir base namelen s;
                 case de of
                   Some de \<Rightarrow> do {
                     s \<leftarrow> brelse (Some (fst de)) s;
                     s \<leftarrow> iput (Some dir) s;
                     s \<leftarrow> iput (Some old) s;
                     Some (-EEXIST, s) }
                 | None \<Rightarrow> do {
                     (de, s) \<leftarrow> add_entry dir base namelen s;
                     case de of
                       None \<Rightarrow> do { s \<leftarrow> iput (Some dir) s; s \<leftarrow> iput (Some old) s; Some (-ENOSPC, s) }
                     | Some de \<Rightarrow> do {
                         let s = set_entry de (i_num (inode_table s old)) s;
                         s \<leftarrow> brelse (Some (fst de)) s;
                         s \<leftarrow> iput (Some dir) s;
                         let s = upd_inode old (\<lambda>m. m\<lparr>i_nlinks := i_nlinks m + 1, i_ctime := now s, i_dirt := True\<rparr>) s;
                         s \<leftarrow> iput (Some old) s;
                         Some (0, s) } } } } }"

section \<open>mount and umount\<close>

primrec inode_of_dev :: "(nat \<Rightarrow> m_inode) \<Rightarrow> int \<Rightarrow> nat \<Rightarrow> bool" where
  "inode_of_dev it dev 0 = False"
| "inode_of_dev it dev (Suc n) =
     (uint (i_dev (it n)) = dev \<and> i_count (it n) \<noteq> 0 \<or> inode_of_dev it dev n)"

definition sys_umount :: "u32 \<Rightarrow> 'a fs_state_scheme \<Rightarrow> (int \<times> 'a fs_state_scheme) option" where
  "sys_umount dev_name s = do {
     (inode, s) \<leftarrow> namei dev_name s;
     case inode of
       None \<Rightarrow> Some (-ENOENT, s)
     | Some i \<Rightarrow> do {
         let dev = uint (i_zone (inode_table s i) 0);
         if \<not> S_ISBLK (i_mode (inode_table s i)) then do { s \<leftarrow> iput (Some i) s; Some (-ENOTBLK, s) }
         else do {
           s \<leftarrow> iput (Some i) s;
           if dev = ROOT_DEV s then Some (-EBUSY, s)
           else do {
             (sb, s) \<leftarrow> get_super dev s;
             case sb of
               None \<Rightarrow> Some (-ENOENT, s)
             | Some k \<Rightarrow> (case s_imount (super_blocks s k) of
                   None \<Rightarrow> Some (-ENOENT, s)
                 | Some mnt \<Rightarrow>
                     if inode_of_dev (inode_table s) dev NR_INODE then Some (-EBUSY, s)
                     else do {
                       s \<leftarrow> iput (Some mnt) (upd_inode mnt (i_mount_update (\<lambda>_. False)) s);
                       let s = upd_super k (s_imount_update (\<lambda>_. None)) s;
                       s \<leftarrow> iput (s_isup (super_blocks s k)) s;
                       let s = upd_super k (s_isup_update (\<lambda>_. None)) s;
                       s \<leftarrow> put_super dev s;
                       (r, s) \<leftarrow> sync_dev dev s;
                       Some (0, s) }) } } } }"

definition sys_mount :: "u32 \<Rightarrow> u32 \<Rightarrow> int \<Rightarrow> 'a fs_state_scheme \<Rightarrow> (int \<times> 'a fs_state_scheme) option" where
  "sys_mount dev_name dir_name rw_flag s = do {
     (dev_i, s) \<leftarrow> namei dev_name s;
     case dev_i of
       None \<Rightarrow> Some (-ENOENT, s)
     | Some di \<Rightarrow> do {
         let dev = uint (i_zone (inode_table s di) 0);
         if \<not> S_ISBLK (i_mode (inode_table s di)) then do { s \<leftarrow> iput (Some di) s; Some (-EPERM, s) }
         else do {
           s \<leftarrow> iput (Some di) s;
           (dir_i, s) \<leftarrow> namei dir_name s;
           case dir_i of
             None \<Rightarrow> Some (-ENOENT, s)
           | Some dir \<Rightarrow>
               if i_count (inode_table s dir) \<noteq> 1 \<or> uint (i_num (inode_table s dir)) = ROOT_INO
               then do { s \<leftarrow> iput (Some dir) s; Some (-EBUSY, s) }
               else if \<not> S_ISDIR (i_mode (inode_table s dir))
               then do { s \<leftarrow> iput (Some dir) s; Some (-EPERM, s) }
               else do {
                 (sb, s) \<leftarrow> read_super dev s;
                 case sb of
                   None \<Rightarrow> do { s \<leftarrow> iput (Some dir) s; Some (-EBUSY, s) }
                 | Some k \<Rightarrow>
                     if s_imount (super_blocks s k) \<noteq> None
                     then do { s \<leftarrow> iput (Some dir) s; Some (-EBUSY, s) }
                     else if i_mount (inode_table s dir)
                     then do { s \<leftarrow> iput (Some dir) s; Some (-EPERM, s) }
                     else Some (0, upd_inode dir (\<lambda>m. m\<lparr>i_mount := True, i_dirt := True\<rparr>)
                            (upd_super k (s_imount_update (\<lambda>_. Some dir)) s)) } } } }"

text \<open>The loops at the end of \<open>mount_root\<close> count the zero bits of a bitmap.\<close>

definition count_free :: "(nat \<Rightarrow> nat option) \<Rightarrow> nat \<Rightarrow> 'a fs_state_scheme \<Rightarrow> nat" where
  "count_free m n s = length (filter (\<lambda>i. \<not> (case m (i div 8192) of
     None \<Rightarrow> False | Some b \<Rightarrow> test_bit (i mod 8192) (b_data (buffers s b)))) [0..<n])"

text \<open>\<open>keypress\<close> is \<open>wait_for_keypress\<close>; the result is what the routine prints, the numbers of free zones and
  free inodes.\<close>

definition mount_root ::
  "('a fs_state_scheme \<Rightarrow> 'a fs_state_scheme option) \<Rightarrow> 'a fs_state_scheme \<Rightarrow> ((nat \<times> nat) \<times> 'a fs_state_scheme) option"
  where
  "mount_root keypress s = do {
     let s = s\<lparr>file_table := (\<lambda>i. if i < NR_FILE then (file_table s i)\<lparr>f_count := 0\<rparr> else file_table s i)\<rparr>;
     s \<leftarrow> (if MAJOR (ROOT_DEV s) = 2 then keypress s else Some s);
     let s = s\<lparr>super_blocks := (\<lambda>i. if i < NR_SUPER
       then (super_blocks s i)\<lparr>s_dev := 0, s_lock := False, s_wait := 0\<rparr> else super_blocks s i)\<rparr>;
     (p, s) \<leftarrow> read_super (ROOT_DEV s) s;
     k \<leftarrow> p;
     (mi, s) \<leftarrow> iget (ROOT_DEV s) ROOT_INO s;
     let s = upd_inode mi (i_count_update (\<lambda>c. c + 3)) s;
     let s = upd_super k (\<lambda>sb. sb\<lparr>s_isup := Some mi, s_imount := Some mi\<rparr>) s;
     let s = upd_task (current s) (\<lambda>t. t\<lparr>t_pwd := Some mi, t_root := Some mi\<rparr>) s;
     let sb = super_blocks s k;
     Some ((count_free (s_zmap sb) (unat (s_nzones sb)) s,
            count_free (s_imap sb) (unat (s_ninodes sb) + 1) s), s) }"

end
