(* ===== verification/Open.thy ===== *)
theory Open
  imports Dir_Ops User_Memory
begin

text \<open>
  Opening and closing (\<open>fs/open.c\<close>) and descriptors (\<open>fs/fcntl.c\<close>). \<open>current->filp[fd]\<close> is the entry \<open>fd\<close>
  of \<open>t_filp\<close>; a descriptor argument is an \<open>unsigned int\<close>.
\<close>

definition set_filp :: "nat \<Rightarrow> nat option \<Rightarrow> 'a sched_state_scheme \<Rightarrow> 'a sched_state_scheme" where
  "set_filp fd f s = upd_task (current s) (\<lambda>t. t\<lparr>t_filp := (t_filp t)(fd := f)\<rparr>) s"

definition clear_cloexec :: "nat \<Rightarrow> 'a sched_state_scheme \<Rightarrow> 'a sched_state_scheme" where
  "clear_cloexec fd s = upd_task (current s)
     (\<lambda>t. t\<lparr>t_close_on_exec := t_close_on_exec t AND NOT (push_bit fd 1)\<rparr>) s"

section \<open>open.c\<close>

definition sys_ustat :: int where "sys_ustat = - ENOSYS"

text \<open>\<open>utimes = 0\<close> is \<open>NULL\<close>; \<open>struct utimbuf\<close> holds the two times one after the other.\<close>

definition sys_utime :: "u32 \<Rightarrow> u32 \<Rightarrow> 'a fs_state_scheme \<Rightarrow> (int \<times> 'a fs_state_scheme) option" where
  "sys_utime filename utimes s = do {
     (inode, s) \<leftarrow> namei filename s;
     case inode of
       None \<Rightarrow> Some (-ENOENT, s)
     | Some i \<Rightarrow> do {
         let (actime, modtime) = (if utimes \<noteq> 0 then (get_fs_long utimes s, get_fs_long (utimes + 4) s)
                                  else (now s, now s));
         let s = upd_inode i (\<lambda>m. m\<lparr>i_atime := actime, i_mtime := modtime, i_dirt := True\<rparr>) s;
         s \<leftarrow> iput (Some i) s;
         Some (0, s) } }"

definition sys_access :: "u32 \<Rightarrow> u32 \<Rightarrow> 'a fs_state_scheme \<Rightarrow> (int \<times> 'a fs_state_scheme) option" where
  "sys_access filename mode s = do {
     let mode = mode AND 7;
     (inode, s) \<leftarrow> namei filename s;
     case inode of
       None \<Rightarrow> Some (-EACCES, s)
     | Some i \<Rightarrow> do {
         let im = (ucast (i_mode (inode_table s i)) :: u32) AND 0x1ff;
         s \<leftarrow> iput (Some i) s;
         let res = (if t_uid (cur s) = i_uid (inode_table s i) then drop_bit 6 im
                    else if uint (t_gid (cur s)) = uint (i_gid (inode_table s i)) then drop_bit 6 im else im);
         if res AND 7 AND mode = mode then Some (0, s)
         else if t_uid (cur s) = 0 \<and> (mode AND 1 = 0 \<or> im AND 0x49 \<noteq> 0) then Some (0, s)
         else Some (-EACCES, s) } }"

definition sys_chdir :: "u32 \<Rightarrow> 'a fs_state_scheme \<Rightarrow> (int \<times> 'a fs_state_scheme) option" where
  "sys_chdir filename s = do {
     (inode, s) \<leftarrow> namei filename s;
     case inode of
       None \<Rightarrow> Some (-ENOENT, s)
     | Some i \<Rightarrow>
         if \<not> S_ISDIR (i_mode (inode_table s i)) then do { s \<leftarrow> iput (Some i) s; Some (-ENOTDIR, s) }
         else do {
           s \<leftarrow> iput (t_pwd (cur s)) s;
           Some (0, upd_task (current s) (t_pwd_update (\<lambda>_. Some i)) s) } }"

definition sys_chroot :: "u32 \<Rightarrow> 'a fs_state_scheme \<Rightarrow> (int \<times> 'a fs_state_scheme) option" where
  "sys_chroot filename s = do {
     (inode, s) \<leftarrow> namei filename s;
     case inode of
       None \<Rightarrow> Some (-ENOENT, s)
     | Some i \<Rightarrow>
         if \<not> S_ISDIR (i_mode (inode_table s i)) then do { s \<leftarrow> iput (Some i) s; Some (-ENOTDIR, s) }
         else do {
           s \<leftarrow> iput (t_root (cur s)) s;
           Some (0, upd_task (current s) (t_root_update (\<lambda>_. Some i)) s) } }"

definition sys_chmod :: "u32 \<Rightarrow> u32 \<Rightarrow> 'a fs_state_scheme \<Rightarrow> (int \<times> 'a fs_state_scheme) option" where
  "sys_chmod filename mode s = do {
     (inode, s) \<leftarrow> namei filename s;
     case inode of
       None \<Rightarrow> Some (-ENOENT, s)
     | Some i \<Rightarrow>
         if t_euid (cur s) \<noteq> i_uid (inode_table s i) \<and> \<not> suser s
         then do { s \<leftarrow> iput (Some i) s; Some (-EACCES, s) }
         else do {
           let s = upd_inode i (\<lambda>m. m\<lparr>i_mode := ucast ((mode AND 0xfff) OR (ucast (i_mode m) AND NOT 0xfff)),
             i_dirt := True\<rparr>) s;
           s \<leftarrow> iput (Some i) s;
           Some (0, s) } }"

definition sys_chown :: "u32 \<Rightarrow> int \<Rightarrow> int \<Rightarrow> 'a fs_state_scheme \<Rightarrow> (int \<times> 'a fs_state_scheme) option" where
  "sys_chown filename uid gid s = do {
     (inode, s) \<leftarrow> namei filename s;
     case inode of
       None \<Rightarrow> Some (-ENOENT, s)
     | Some i \<Rightarrow>
         if \<not> suser s then do { s \<leftarrow> iput (Some i) s; Some (-EACCES, s) }
         else do {
           let s = upd_inode i (\<lambda>m. m\<lparr>i_uid := word_of_int uid, i_gid := word_of_int gid, i_dirt := True\<rparr>) s;
           s \<leftarrow> iput (Some i) s;
           Some (0, s) } }"

text \<open>The first free entry of a table: \<open>for (fd = 0; fd < NR_OPEN; fd++) if (!current->filp[fd]) break;\<close>.\<close>

primrec first_from :: "(nat \<Rightarrow> bool) \<Rightarrow> nat \<Rightarrow> nat \<Rightarrow> nat option" where
  "first_from p i 0 = None"
| "first_from p i (Suc n) = (if p i then Some i else first_from p (i + 1) n)"

definition sys_open :: "u32 \<Rightarrow> u32 \<Rightarrow> u32 \<Rightarrow> 'a fs_state_scheme \<Rightarrow> (int \<times> 'a fs_state_scheme) option" where
  "sys_open filename flag mode s =
     (let mode = mode AND (0x1ff AND NOT (ucast (t_umask (cur s)))) in
      case first_from (\<lambda>fd. t_filp (cur s) fd = None) 0 NR_OPEN of
        None \<Rightarrow> Some (-EINVAL, s)
      | Some fd \<Rightarrow>
          let s = clear_cloexec fd s in
          case first_from (\<lambda>f. f_count (file_table s f) = 0) 0 NR_FILE of
            None \<Rightarrow> Some (-EINVAL, s)
          | Some f \<Rightarrow> do {
              let s = upd_file f (\<lambda>x. x\<lparr>f_count := f_count x + 1\<rparr>) (set_filp fd (Some f) s);
              ((err, inode), s) \<leftarrow> open_namei filename flag mode s;
              if err < 0 then Some (err, upd_file f (f_count_update (\<lambda>_. 0)) (set_filp fd None s))
              else do {
                i \<leftarrow> inode;
                let m = inode_table s i;
                let zone = uint (i_zone m 0);
                let reject = (S_ISCHR (i_mode m) \<and> MAJOR zone = 5 \<and> t_tty (cur s) < 0);
                let s = (if S_ISCHR (i_mode m) \<and> MAJOR zone = 4 \<and> t_leader (cur s) \<noteq> 0 \<and> t_tty (cur s) < 0
                  then (let s = upd_task (current s) (t_tty_update (\<lambda>_. MINOR zone)) s
                        in s\<lparr>tty_pgrp := (tty_pgrp s)(nat (MINOR zone) := t_pgrp (cur s))\<rparr>)
                  else s);
                if reject then do {
                  s \<leftarrow> iput (Some i) s;
                  Some (-EPERM, upd_file f (f_count_update (\<lambda>_. 0)) (set_filp fd None s)) }
                else do {
                  s \<leftarrow> (if S_ISBLK (i_mode m) then check_disk_change zone s else Some s);
                  Some (int fd, upd_file f (\<lambda>x. x\<lparr>f_mode := i_mode (inode_table s i), f_flags := ucast flag,
                    f_count := 1, f_inode := Some i, f_pos := 0\<rparr>) s) } } })"

definition sys_creat :: "u32 \<Rightarrow> u32 \<Rightarrow> 'a fs_state_scheme \<Rightarrow> (int \<times> 'a fs_state_scheme) option" where
  "sys_creat pathname mode s = sys_open pathname (O_CREAT OR O_TRUNC) mode s"

definition sys_close :: "u32 \<Rightarrow> 'a fs_state_scheme \<Rightarrow> (int \<times> 'a fs_state_scheme) option" where
  "sys_close fd s =
     (let n = unat fd in
      if n \<ge> NR_OPEN then Some (-EINVAL, s)
      else
        let s = clear_cloexec n s in
        case t_filp (cur s) n of
          None \<Rightarrow> Some (-EINVAL, s)
        | Some f \<Rightarrow>
            let s = set_filp n None s in
            if f_count (file_table s f) = 0 then None
            else
              let s = upd_file f (\<lambda>x. x\<lparr>f_count := f_count x - 1\<rparr>) s in
              if f_count (file_table s f) \<noteq> 0 then Some (0, s)
              else do { s \<leftarrow> iput (f_inode (file_table s f)) s; Some (0, s) })"

section \<open>fcntl.c\<close>

definition dupfd :: "u32 \<Rightarrow> u32 \<Rightarrow> 'a fs_state_scheme \<Rightarrow> int \<times> 'a fs_state_scheme" where
  "dupfd fd arg s =
     (if unat fd \<ge> NR_OPEN then (-EBADF, s)
      else case t_filp (cur s) (unat fd) of
        None \<Rightarrow> (-EBADF, s)
      | Some f \<Rightarrow>
          if unat arg \<ge> NR_OPEN then (-EINVAL, s)
          else case first_from (\<lambda>k. t_filp (cur s) k = None) (unat arg) (NR_OPEN - unat arg) of
            None \<Rightarrow> (-EMFILE, s)
          | Some k \<Rightarrow>
              (int k, upd_file f (\<lambda>x. x\<lparr>f_count := f_count x + 1\<rparr>) (set_filp k (Some f) (clear_cloexec k s))))"

definition sys_dup2 :: "u32 \<Rightarrow> u32 \<Rightarrow> 'a fs_state_scheme \<Rightarrow> (int \<times> 'a fs_state_scheme) option" where
  "sys_dup2 oldfd newfd s = do { (r, s) \<leftarrow> sys_close newfd s; Some (dupfd oldfd newfd s) }"

definition sys_dup :: "u32 \<Rightarrow> 'a fs_state_scheme \<Rightarrow> int \<times> 'a fs_state_scheme" where
  "sys_dup fildes s = dupfd fildes 0 s"

definition sys_fcntl :: "u32 \<Rightarrow> u32 \<Rightarrow> u32 \<Rightarrow> 'a fs_state_scheme \<Rightarrow> int \<times> 'a fs_state_scheme" where
  "sys_fcntl fd cmd arg s =
     (if unat fd \<ge> NR_OPEN then (-EBADF, s)
      else case t_filp (cur s) (unat fd) of
        None \<Rightarrow> (-EBADF, s)
      | Some f \<Rightarrow>
          if cmd = 0 then dupfd fd arg s
          else if cmd = 1 then (uint (drop_bit (unat fd) (t_close_on_exec (cur s)) AND 1), s)
          else if cmd = 2 then
            (0, if arg AND 1 \<noteq> 0
                then upd_task (current s) (\<lambda>t. t\<lparr>t_close_on_exec := t_close_on_exec t OR push_bit (unat fd) 1\<rparr>) s
                else clear_cloexec (unat fd) s)
          else if cmd = 3 then (uint (f_flags (file_table s f)), s)
          else if cmd = 4 then
            (0, upd_file f (\<lambda>x. x\<lparr>f_flags := (f_flags x AND NOT (ucast (O_APPEND OR O_NONBLOCK)))
               OR ucast (arg AND (O_APPEND OR O_NONBLOCK))\<rparr>) s)
          else (-1, s))"

end
