(* ===== verification/Pipe.thy ===== *)
theory Pipe
  imports Open
begin

text \<open>
  Pipes (\<open>fs/pipe.c\<close>): a page used as a ring buffer, with the head and the tail in the first two zones
  of the inode and the address of the page in \<open>i_size\<close>. A read of an empty pipe that has a writer, and a
  write to a full pipe that has a reader, sleep: the routine then stops with \<open>Sleeps\<close> and the rest of its
  work, and is called again with it when the task is woken.
\<close>

datatype pipe_result = Returned int | Sleeps u32 int int

definition PIPE_HEAD :: "m_inode \<Rightarrow> nat" where "PIPE_HEAD m = unat (i_zone m 0)"
definition PIPE_TAIL :: "m_inode \<Rightarrow> nat" where "PIPE_TAIL m = unat (i_zone m 1)"

definition PIPE_SIZE :: "m_inode \<Rightarrow> nat" where
  "PIPE_SIZE m = nat ((int (PIPE_HEAD m) - int (PIPE_TAIL m)) mod 4096)"

definition set_tail :: "nat \<Rightarrow> m_inode \<Rightarrow> m_inode" where "set_tail v = set_zone 1 (of_nat v AND 4095)"
definition set_head :: "nat \<Rightarrow> m_inode \<Rightarrow> m_inode" where "set_head v = set_zone 0 (of_nat v AND 4095)"

text \<open>The two copying loops, byte by byte, at offset \<open>off\<close> of the page.\<close>

primrec page_to_user :: "nat \<Rightarrow> addr \<Rightarrow> nat \<Rightarrow> u32 \<Rightarrow> 'a sched_state_scheme \<Rightarrow> 'a sched_state_scheme" where
  "page_to_user 0 page off buf s = s"
| "page_to_user (Suc n) page off buf s =
     page_to_user n page (off + 1) (buf + 1) (put_fs_byte (get_byte (page + of_nat off) s) buf s)"

primrec user_to_page :: "nat \<Rightarrow> addr \<Rightarrow> nat \<Rightarrow> u32 \<Rightarrow> 'a sched_state_scheme \<Rightarrow> 'a sched_state_scheme" where
  "user_to_page 0 page off buf s = s"
| "user_to_page (Suc n) page off buf s =
     user_to_page n page (off + 1) (buf + 1) (put_byte (get_fs_byte buf s) (page + of_nat off) s)"

partial_function (option) read_pipe ::
  "nat \<Rightarrow> u32 \<Rightarrow> int \<Rightarrow> int \<Rightarrow> 'a fs_state_scheme \<Rightarrow> (pipe_result \<times> 'a fs_state_scheme) option" where
  "read_pipe i buf count done s =
     (if count > 0 then
        (if PIPE_SIZE (inode_table s i) = 0 then
           (let s = wake_up (Some (i_waitq i)) s
            in if i_count (inode_table s i) \<noteq> 2 then Some (Returned done, s)
               else Some (Sleeps buf count done, s))
         else
           let m = inode_table s i;
               chars = min (min (4096 - int (PIPE_TAIL m)) count) (int (PIPE_SIZE m));
               s = upd_inode i (set_tail (PIPE_TAIL m + nat chars)) s;
               s = page_to_user (nat chars) (i_size m) (PIPE_TAIL m) buf s
           in read_pipe i (buf + word_of_int chars) (count - chars) (done + chars) s)
      else Some (Returned done, wake_up (Some (i_waitq i)) s))"

partial_function (option) write_pipe ::
  "nat \<Rightarrow> u32 \<Rightarrow> int \<Rightarrow> int \<Rightarrow> 'a fs_state_scheme \<Rightarrow> (pipe_result \<times> 'a fs_state_scheme) option" where
  "write_pipe i buf count done s =
     (if count > 0 then
        (if 4095 - PIPE_SIZE (inode_table s i) = 0 then
           (let s = wake_up (Some (i_waitq i)) s
            in if i_count (inode_table s i) \<noteq> 2 then
                 Some (Returned (if done \<noteq> 0 then done else -1),
                       upd_task (current s) (\<lambda>t. t\<lparr>t_signal := t_signal t OR sigbit SIGPIPE\<rparr>) s)
               else Some (Sleeps buf count done, s))
         else
           let m = inode_table s i;
               chars = min (min (4096 - int (PIPE_HEAD m)) count) (4095 - int (PIPE_SIZE m));
               s = upd_inode i (set_head (PIPE_HEAD m + nat chars)) s;
               s = user_to_page (nat chars) (i_size m) (PIPE_HEAD m) buf s
           in write_pipe i (buf + word_of_int chars) (count - chars) (done + chars) s)
      else Some (Returned done, wake_up (Some (i_waitq i)) s))"

section \<open>pipe\<close>

text \<open>\<open>for (i=0; j<2 && i<n; i++) if (free i) ... j++\<close>: the first two free entries; \<open>take_file\<close> counts a user
  of the file entry and \<open>take_fd\<close> stores the file in the descriptor as soon as it is found.\<close>

definition sys_pipe :: "u32 \<Rightarrow> 'a fs_state_scheme \<Rightarrow> (int \<times> 'a fs_state_scheme) option" where
  "sys_pipe fildes s =
     (let free_files = filter (\<lambda>f. f_count (file_table s f) = 0) [0..<NR_FILE];
          take_file = (\<lambda>f. upd_file f (\<lambda>x. x\<lparr>f_count := f_count x + 1\<rparr>));
          drop_file = (\<lambda>f. upd_file f (f_count_update (\<lambda>_. 0)))
      in case free_files of
        f0 # f1 # _ \<Rightarrow>
          (let s = take_file f1 (take_file f0 s);
               free_fds = filter (\<lambda>d. t_filp (cur s) d = None) [0..<NR_OPEN]
           in case free_fds of
             d0 # d1 # _ \<Rightarrow> do {
               let s = set_filp d1 (Some f1) (set_filp d0 (Some f0) s);
               (inode, s) \<leftarrow> get_pipe_inode s;
               case inode of
                 None \<Rightarrow> Some (-1, drop_file f1 (drop_file f0 (set_filp d1 None (set_filp d0 None s))))
               | Some i \<Rightarrow> do {
                   let s = upd_file f0 (\<lambda>x. x\<lparr>f_inode := Some i, f_pos := 0, f_mode := 1\<rparr>) s;
                   let s = upd_file f1 (\<lambda>x. x\<lparr>f_inode := Some i, f_pos := 0, f_mode := 2\<rparr>) s;
                   Some (0, put_fs_long (of_nat d1) (fildes + 4) (put_fs_long (of_nat d0) fildes s)) } }
           | [d0] \<Rightarrow> Some (-1, drop_file f1 (drop_file f0 (set_filp d0 None (set_filp d0 (Some f0) s))))
           | [] \<Rightarrow> Some (-1, drop_file f1 (drop_file f0 s)))
      | [f0] \<Rightarrow> Some (-1, drop_file f0 (take_file f0 s))
      | [] \<Rightarrow> Some (-1, s))"

end
