(* ===== verification/Pipe_Queue.thy ===== *)
theory Pipe_Queue
  imports Pipe
begin

text \<open>
  The pipe of \<open>fs/pipe.c\<close> as a queue of bytes: the bytes between tail and head of the ring buffer, in
  order, are its contents. One call of \<open>read_pipe\<close> takes a prefix of them and delivers it to user memory,
  one call of \<open>write_pipe\<close> appends bytes of user memory; both always come back, with a result or asleep.
  The locale \<open>byte_channel\<close> derives from such laws that any interleaving of readers and writers is
  first in, first out.
\<close>

section \<open>Bytes of memory\<close>

lemma low_bits: "unat (a AND 3 :: u32) \<in> {0,1,2,3}"
proof -
  have "a AND 3 = a AND mask 2" by (simp add: mask_eq_exp_minus_1)
  then have "unat (a AND 3) = unat a mod 4" by (simp only: take_bit_eq_mask [symmetric] unsigned_take_bit_eq take_bit_eq_mod) (simp add: unat_mod)
  then have "unat (a AND 3) < 4" by simp
  then show ?thesis by (auto simp: numeral_eq_Suc less_Suc_eq)
qed

lemma byte_fields:
  assumes "k \<in> {0,8,16,24}" "j \<in> {0,8,16,24::nat}"
  shows "ucast (drop_bit j ((x AND NOT (push_bit k 0xff)) OR push_bit k (ucast (v :: u8)) :: u32)) = (if j = k then v else ucast (drop_bit j x))"
proof (rule bit_word_eqI)
  fix n assume n: "n < LENGTH(8)"
  have v: "\<not> bit v i" if "8 \<le> i" for i using that bit_imp_le_length [of v i] by auto
  have m: "(0xff :: u32) = mask 8" by (simp add: mask_eq_exp_minus_1)
  consider "j = k" | "j + 8 \<le> k" | "k + 8 \<le> j" using assms by auto
  then show "bit (ucast (drop_bit j ((x AND NOT (push_bit k 0xff)) OR push_bit k (ucast v) :: u32)) :: u8) n
      = bit (if j = k then v else ucast (drop_bit j x)) n"
    unfolding m using n assms by cases (auto simp: bit_simps v)
qed

lemma get_put_byte: "get_byte b (put_byte v a s) = (if b = a then v else get_byte b s)"
proof (cases "b AND NOT 3 = a AND NOT 3")
  case True
  have d: "w = (w AND NOT 3) OR (w AND 3)" for w :: u32
    by (simp add: bit.conj_disj_distrib [symmetric])
  have eq: "(unat (b AND 3) = unat (a AND 3)) = (b = a)"
    by (metis True d word_unat_eq_iff)
  have "8 * unat (a AND 3) \<in> {0, 8, 16, 24}" "8 * unat (b AND 3) \<in> {0, 8, 16, 24}"
    using low_bits [of a] low_bits [of b] by auto
  from byte_fields [OF this, of "phys s (a AND NOT 3)" v] show ?thesis
    using True eq by (simp add: get_byte_def put_byte_def Let_def)
qed (auto simp: get_byte_def put_byte_def Let_def)

section \<open>The ring buffer\<close>

definition pipe_ok :: "nat \<Rightarrow> 'a fs_state_scheme \<Rightarrow> bool" where
  "pipe_ok i s \<longleftrightarrow> PIPE_HEAD (inode_table s i) < 4096 \<and> PIPE_TAIL (inode_table s i) < 4096"

definition pipe_contents :: "nat \<Rightarrow> 'a fs_state_scheme \<Rightarrow> u8 list" where
  "pipe_contents i s = (let m = inode_table s i in
     map (\<lambda>k. get_byte (i_size m + of_nat ((PIPE_TAIL m + k) mod 4096)) s) [0..<PIPE_SIZE m])"

definition user_bytes :: "u32 \<Rightarrow> nat \<Rightarrow> 'a sched_state_scheme \<Rightarrow> u8 list" where
  "user_bytes buf n s = map (\<lambda>k. get_fs_byte (buf + of_nat k) s) [0..<n]"

lemma pipe_contents_length [simp]: "length (pipe_contents i s) = PIPE_SIZE (inode_table s i)"
  by (simp add: pipe_contents_def Let_def)

lemma PIPE_SIZE_less: "PIPE_SIZE m < 4096"
  by (simp add: PIPE_SIZE_def nat_less_iff)

lemma zone_index: "unat (of_nat v AND 4095 :: u16) = v mod 4096"
proof -
  have "(of_nat v AND 4095 :: u16) = take_bit 12 (of_nat v)"
    by (simp add: take_bit_eq_mask mask_eq_exp_minus_1)
  then have "unat (of_nat v AND 4095 :: u16) = take_bit 12 (unat (of_nat v :: u16))"
    by (simp only: unsigned_take_bit_eq)
  also have "\<dots> = take_bit 12 (take_bit 16 v)" by (simp only: unsigned_of_nat) simp
  also have "\<dots> = v mod 4096" by (simp add: take_bit_eq_mod mod_mod_cancel)
  finally show ?thesis .
qed

lemma ring_indices [simp]:
  "PIPE_TAIL (set_tail v m) = v mod 4096" "PIPE_HEAD (set_tail v m) = PIPE_HEAD m"
  "PIPE_HEAD (set_head v m) = v mod 4096" "PIPE_TAIL (set_head v m) = PIPE_TAIL m"
  "i_size (set_tail v m) = i_size m" "i_size (set_head v m) = i_size m"
  "i_count (set_tail v m) = i_count m" "i_count (set_head v m) = i_count m"
  by (simp_all add: PIPE_TAIL_def PIPE_HEAD_def set_tail_def set_head_def set_zone_def zone_index)

lemma size_after_read:
  assumes "n \<le> PIPE_SIZE m"
  shows "PIPE_SIZE (set_tail (PIPE_TAIL m + n) m) = PIPE_SIZE m - n"
proof -
  let ?d = "(int (PIPE_HEAD m) - int (PIPE_TAIL m)) mod 4096"
  have n: "int n \<le> ?d" using assms by (simp add: PIPE_SIZE_def)
  have "(int (PIPE_HEAD m) - int ((PIPE_TAIL m + n) mod 4096)) mod 4096 = (?d - int n) mod 4096"
    by (simp add: zmod_int mod_simps algebra_simps)
  also have "\<dots> = ?d - int n" by (rule mod_pos_pos_trivial) (use n pos_mod_bound [of 4096] in \<open>simp_all add: algebra_simps add_strict_increasing2\<close>)
  finally show ?thesis by (simp add: PIPE_SIZE_def nat_diff_distrib)
qed

lemma size_after_write:
  assumes "n + PIPE_SIZE m \<le> 4095"
  shows "PIPE_SIZE (set_head (PIPE_HEAD m + n) m) = PIPE_SIZE m + n"
proof -
  let ?d = "(int (PIPE_HEAD m) - int (PIPE_TAIL m)) mod 4096"
  have n: "int n + ?d < 4096" using assms by (simp add: PIPE_SIZE_def)
  have "(int ((PIPE_HEAD m + n) mod 4096) - int (PIPE_TAIL m)) mod 4096 = (?d + int n) mod 4096"
    by (simp add: zmod_int mod_simps algebra_simps)
  also have "\<dots> = ?d + int n" by (rule mod_pos_pos_trivial) (use n in simp_all)
  finally show ?thesis by (simp add: PIPE_SIZE_def nat_add_distrib)
qed

lemma upd_inode_simps:
  "inode_table (upd_inode i f s) = (inode_table s)(i := f (inode_table s i))"
  "phys (upd_inode i f s) = phys s" "fs_mem (upd_inode i f s) = fs_mem s"
  by (simp_all add: upd_inode_def)


lemma page_to_user_effect:
  assumes "n \<le> 4096"
  shows "phys (page_to_user n page off buf s) = phys s \<and> inode_table (page_to_user n page off buf s) = inode_table s
    \<and> (\<forall>a. fs_mem (page_to_user n page off buf s) a
         = (if unat (a - buf) < n then get_byte (page + of_nat (off + unat (a - buf))) s else fs_mem s a))"
  using assms
proof (induction n arbitrary: off buf s)
  case (Suc n)
  let ?s = "put_fs_byte (get_byte (page + of_nat off) s) buf s"
  have IH: "phys (page_to_user n page (Suc off) (buf + 1) ?s) = phys ?s"
      "inode_table (page_to_user n page (Suc off) (buf + 1) ?s) = inode_table ?s"
      "\<And>a. fs_mem (page_to_user n page (Suc off) (buf + 1) ?s) a
         = (if unat (a - (buf + 1)) < n then get_byte (page + of_nat (Suc off + unat (a - (buf + 1)))) ?s else fs_mem ?s a)"
    using Suc.IH [of "off + 1" "buf + 1" ?s] Suc.prems by simp_all
  have step: "unat (a - buf) = Suc (unat (a - (buf + 1)))" if "a \<noteq> buf" for a
  proof -
    have "a - buf = (a - (buf + 1)) + 1" by simp
    moreover have "a - buf \<noteq> 0" using that by simp
    ultimately show ?thesis by (metis Suc_eq_plus1 unatSuc add.commute)
  qed
  have g: "get_byte x ?s = get_byte x s" for x by (simp add: get_byte_def put_fs_byte_def)
  have "fs_mem (page_to_user (Suc n) page off buf s) a
         = (if unat (a - buf) < Suc n then get_byte (page + of_nat (off + unat (a - buf))) s else fs_mem s a)" for a
  proof (cases "a = buf")
    case True
    have "\<not> unat (a - (buf + 1)) < n" using True Suc.prems by (simp add: unsigned_minus_1_eq_mask mask_eq_exp_minus_1)
    then show ?thesis using True by (simp add: IH(3)) (simp add: put_fs_byte_def)
  next
    case False
    then show ?thesis by (simp add: IH(3) g step [OF False]) (simp add: put_fs_byte_def)
  qed
  then show ?case using IH(1,2) by (simp add: put_fs_byte_def)
qed simp

lemma user_to_page_effect:
  assumes "off + n \<le> 4096"
  shows "fs_mem (user_to_page n page off buf s) = fs_mem s \<and> inode_table (user_to_page n page off buf s) = inode_table s
    \<and> (\<forall>k<4096. get_byte (page + of_nat k) (user_to_page n page off buf s)
         = (if off \<le> k \<and> k < off + n then fs_mem s (buf + of_nat (k - off)) else get_byte (page + of_nat k) s))"
  using assms
proof (induction n arbitrary: off buf s)
  case (Suc n)
  let ?s = "put_byte (get_fs_byte buf s) (page + of_nat off) s"
  have IH: "fs_mem (user_to_page n page (Suc off) (buf + 1) ?s) = fs_mem ?s"
      "inode_table (user_to_page n page (Suc off) (buf + 1) ?s) = inode_table ?s"
      "\<And>k. k < 4096 \<Longrightarrow> get_byte (page + of_nat k) (user_to_page n page (Suc off) (buf + 1) ?s)
         = (if Suc off \<le> k \<and> k < Suc off + n then fs_mem ?s (buf + 1 + of_nat (k - Suc off)) else get_byte (page + of_nat k) ?s)"
    using Suc.IH [of "off + 1" "buf + 1" ?s] Suc.prems by simp_all
  have fr: "fs_mem ?s = fs_mem s" "inode_table ?s = inode_table s" by (simp_all add: put_byte_def Let_def)
  have "get_byte (page + of_nat k) (user_to_page (Suc n) page off buf s)
         = (if off \<le> k \<and> k < off + Suc n then fs_mem s (buf + of_nat (k - off)) else get_byte (page + of_nat k) s)"
    if k: "k < 4096" for k
  proof (cases "k = off")
    case True
    then show ?thesis using k IH(3) [of k] by (simp add: get_put_byte get_fs_byte_def)
  next
    case False
    then have ne: "(of_nat k :: 32 word) \<noteq> of_nat off"
      using k Suc.prems by (simp add: of_nat_eq_u32)
    have eq: "buf + 1 + of_nat (k - Suc off) = buf + of_nat (k - off)" if "Suc off \<le> k"
    proof -
      have "k - off = Suc (k - Suc off)" using that by simp
      then show ?thesis by simp
    qed
    have "get_byte (page + of_nat k) ?s = get_byte (page + of_nat k) s" by (simp add: get_put_byte ne)
    then show ?thesis using False IH(3) [OF k]
      by (cases "Suc off \<le> k") (simp_all only: user_to_page.simps fr eq, auto)
  qed
  then show ?case using IH(1,2) fr by simp
qed auto


lemma wake_inode [simp]:
  "fs_mem (wake_up (Some (i_waitq i)) s) = fs_mem s" "phys (wake_up (Some (i_waitq i)) s) = phys s"
  "PIPE_HEAD (inode_table (wake_up (Some (i_waitq i)) s) j) = PIPE_HEAD (inode_table s j)"
  "PIPE_TAIL (inode_table (wake_up (Some (i_waitq i)) s) j) = PIPE_TAIL (inode_table s j)"
  "i_size (inode_table (wake_up (Some (i_waitq i)) s) j) = i_size (inode_table s j)"
  "i_count (inode_table (wake_up (Some (i_waitq i)) s) j) = i_count (inode_table s j)"
  by (simp_all add: wake_up_def i_waitq_def set_state_def upd_task_def upd_inode_def PIPE_HEAD_def PIPE_TAIL_def)

lemma PIPE_SIZE_cong:
  "PIPE_HEAD m = PIPE_HEAD m' \<Longrightarrow> PIPE_TAIL m = PIPE_TAIL m' \<Longrightarrow> PIPE_SIZE m = PIPE_SIZE m'"
  by (simp add: PIPE_SIZE_def)

lemma get_byte_cong: "phys s = phys s' \<Longrightarrow> get_byte a s = get_byte a s'"
  by (simp add: get_byte_def)

lemma wake_pipe [simp]:
  "pipe_ok j (wake_up (Some (i_waitq i)) s) = pipe_ok j s"
  "pipe_contents j (wake_up (Some (i_waitq i)) s) = pipe_contents j s"
  "user_bytes buf n (wake_up (Some (i_waitq i)) s) = user_bytes buf n s"
proof -
  have "PIPE_SIZE (inode_table (wake_up (Some (i_waitq i)) s) j) = PIPE_SIZE (inode_table s j)"
    by (rule PIPE_SIZE_cong) simp_all
  then show "pipe_contents j (wake_up (Some (i_waitq i)) s) = pipe_contents j s"
    by (simp add: pipe_contents_def Let_def get_byte_def)
qed (simp_all add: pipe_ok_def user_bytes_def get_fs_byte_def)

text \<open>One round of the loop of \<open>read_pipe\<close>, and one of \<open>write_pipe\<close>.\<close>

definition read_round :: "nat \<Rightarrow> nat \<Rightarrow> u32 \<Rightarrow> 'a fs_state_scheme \<Rightarrow> 'a fs_state_scheme" where
  "read_round i n buf s = (let m = inode_table s i in
     page_to_user n (i_size m) (PIPE_TAIL m) buf (upd_inode i (set_tail (PIPE_TAIL m + n)) s))"

definition write_round :: "nat \<Rightarrow> nat \<Rightarrow> u32 \<Rightarrow> 'a fs_state_scheme \<Rightarrow> 'a fs_state_scheme" where
  "write_round i n buf s = (let m = inode_table s i in
     user_to_page n (i_size m) (PIPE_HEAD m) buf (upd_inode i (set_head (PIPE_HEAD m + n)) s))"

lemma read_round:
  assumes "pipe_ok i s" "n \<le> PIPE_SIZE (inode_table s i)" "PIPE_TAIL (inode_table s i) + n \<le> 4096"
  shows "pipe_ok i (read_round i n buf s)"
    and "pipe_contents i (read_round i n buf s) = drop n (pipe_contents i s)"
    and "user_bytes buf n (read_round i n buf s) = take n (pipe_contents i s)"
    and "n \<le> unat (a - buf) \<Longrightarrow> fs_mem (read_round i n buf s) a = fs_mem s a"
    and "i_count (inode_table (read_round i n buf s) i) = i_count (inode_table s i)"
proof -
  define m where "m = inode_table s i"
  let ?s1 = "upd_inode i (set_tail (PIPE_TAIL m + n)) s"
  let ?s2 = "read_round i n buf s"
  have n: "n \<le> 4096" using assms(2) PIPE_SIZE_less [of "inode_table s i"] by simp
  have r: "?s2 = page_to_user n (i_size m) (PIPE_TAIL m) buf ?s1" by (simp add: read_round_def m_def Let_def)
  have e: "phys ?s2 = phys s" "inode_table ?s2 = (inode_table s)(i := set_tail (PIPE_TAIL m + n) m)"
      "fs_mem ?s2 a = (if unat (a - buf) < n then get_byte (i_size m + of_nat (PIPE_TAIL m + unat (a - buf))) s else fs_mem s a)" for a
    using page_to_user_effect [OF n, of "i_size m" "PIPE_TAIL m" buf ?s1]
    by (simp_all add: r upd_inode_simps m_def get_byte_def)
  show "pipe_ok i ?s2" using assms(1) by (simp add: pipe_ok_def e(2) m_def)
  show "n \<le> unat (a - buf) \<Longrightarrow> fs_mem ?s2 a = fs_mem s a" by (simp add: e(3))
  show "i_count (inode_table ?s2 i) = i_count (inode_table s i)" by (simp add: e(2) m_def)
  have sz: "PIPE_SIZE (set_tail (PIPE_TAIL m + n) m) = PIPE_SIZE m - n"
    using size_after_read assms(2) by (simp add: m_def)
  show "pipe_contents i ?s2 = drop n (pipe_contents i s)"
    by (rule nth_equalityI)
      (simp_all add: pipe_contents_def Let_def e(2) sz m_def [symmetric] get_byte_cong [OF e(1)] mod_simps add.assoc less_diff_conv)
  show "user_bytes buf n ?s2 = take n (pipe_contents i s)"
  proof (rule nth_equalityI)
    show "length (user_bytes buf n ?s2) = length (take n (pipe_contents i s))"
      using assms(2) by (simp add: user_bytes_def m_def)
    fix k assume "k < length (user_bytes buf n ?s2)"
    then have k: "k < n" by (simp add: user_bytes_def)
    then have u: "unat (of_nat k :: 32 word) = k" using n by simp
    have "(PIPE_TAIL m + k) mod 4096 = PIPE_TAIL m + k" using assms(3) k by (simp add: m_def)
    then show "user_bytes buf n ?s2 ! k = take n (pipe_contents i s) ! k"
      using k assms(2) by (simp add: user_bytes_def get_fs_byte_def e(3) u pipe_contents_def Let_def m_def)
  qed
qed


lemma write_round:
  assumes "pipe_ok i s" "n + PIPE_SIZE (inode_table s i) \<le> 4095" "PIPE_HEAD (inode_table s i) + n \<le> 4096"
  shows "pipe_ok i (write_round i n buf s)"
    and "pipe_contents i (write_round i n buf s) = pipe_contents i s @ user_bytes buf n s"
    and "fs_mem (write_round i n buf s) = fs_mem s"
    and "i_count (inode_table (write_round i n buf s) i) = i_count (inode_table s i)"
proof -
  define m where "m = inode_table s i"
  define h t z where "h = PIPE_HEAD m" and "t = PIPE_TAIL m" and "z = PIPE_SIZE m"
  let ?s1 = "upd_inode i (set_head (h + n)) s"
  let ?s2 = "write_round i n buf s"
  have r: "?s2 = user_to_page n (i_size m) h buf ?s1" by (simp add: write_round_def m_def Let_def h_def)
  have b: "h + n \<le> 4096" "h < 4096" "t < 4096" using assms by (simp_all add: m_def h_def t_def pipe_ok_def)
  have e: "fs_mem ?s2 = fs_mem s" "inode_table ?s2 = (inode_table s)(i := set_head (h + n) m)"
      "\<And>k. k < 4096 \<Longrightarrow> get_byte (i_size m + of_nat k) ?s2
        = (if h \<le> k \<and> k < h + n then fs_mem s (buf + of_nat (k - h)) else get_byte (i_size m + of_nat k) s)"
    using user_to_page_effect [OF b(1), of "i_size m" buf ?s1]
    by (simp_all add: r upd_inode_simps m_def get_byte_cong [of ?s1 s] cong: if_cong)
  show "fs_mem ?s2 = fs_mem s" by (rule e(1))
  show "pipe_ok i ?s2" using assms(1) by (simp add: pipe_ok_def e(2) m_def)
  show "i_count (inode_table ?s2 i) = i_count (inode_table s i)" by (simp add: e(2) m_def)
  have sz: "PIPE_SIZE (set_head (h + n) m) = z + n"
    using size_after_write assms(2) by (simp add: m_def h_def z_def)
  have zh: "z = (if t \<le> h then h - t else h + 4096 - t)"
  proof -
    have "int z = (int h - int t) mod 4096" by (simp add: z_def PIPE_SIZE_def h_def t_def)
    moreover have "(int h - int t) mod 4096 = (if t \<le> h then int h - int t else int h - int t + 4096)"
    proof (cases "t \<le> h")
      case False
      have "(int h - int t) mod 4096 = (int h - int t + 4096) mod 4096" by simp
      also have "\<dots> = int h - int t + 4096" by (rule mod_pos_pos_trivial) (use False b in simp_all)
      finally show ?thesis using False by simp
    qed (use b in simp)
    ultimately show ?thesis using b by (auto split: if_splits)
  qed
  show "pipe_contents i ?s2 = pipe_contents i s @ user_bytes buf n s"
  proof (rule nth_equalityI)
    show "length (pipe_contents i ?s2) = length (pipe_contents i s @ user_bytes buf n s)"
      using sz by (simp add: e(2) user_bytes_def m_def z_def)
    fix k assume "k < length (pipe_contents i ?s2)"
    then have k: "k < z + n" by (simp add: e(2) sz)
    have new: "pipe_contents i ?s2 ! k = get_byte (i_size m + of_nat ((t + k) mod 4096)) ?s2"
      using k by (simp add: pipe_contents_def Let_def e(2) sz t_def)
    define j where "j = (t + k) mod 4096"
    have nz: "n + z \<le> 4095" using assms(2) by (simp add: z_def m_def)
    have j: "j = (if t + k < 4096 then t + k else t + k - 4096)" "j < 4096"
      using b k nz by (auto simp: j_def mod_if)
    show "pipe_contents i ?s2 ! k = (pipe_contents i s @ user_bytes buf n s) ! k"
    proof (cases "k < z")
      case True
      have nin: "\<not> (h \<le> j \<and> j < h + n)"
      proof
        assume "h \<le> j \<and> j < h + n"
        then have *: "h \<le> j" "j < h + n" by simp_all
        show False
        proof (cases "t \<le> h")
          case True
          then have "t + k < h" using zh \<open>k < z\<close> by simp
          then show False using * j(1) b(2) by simp
        next
          case False
          then have "h + n < t" "t + k < h + 4096" using zh nz \<open>k < z\<close> b by simp_all
          then show False using * j(1) by (simp split: if_splits)
        qed
      qed
      have "pipe_contents i ?s2 ! k = get_byte (i_size m + of_nat j) s"
        using new e(3) [OF j(2)] unfolding j_def [symmetric] if_not_P [OF nin] by (rule trans)
      then show ?thesis using True
        by (simp add: nth_append z_def m_def [symmetric] pipe_contents_def Let_def t_def j_def)
    next
      case False
      then have jh: "j = h + (k - z)" using j zh nz b k by (simp split: if_splits)
      then have inb: "h \<le> j \<and> j < h + n" and jz: "j - h = k - z" using k False jh by linarith+
      have "pipe_contents i ?s2 ! k = fs_mem s (buf + of_nat (k - z))"
        using new e(3) [OF j(2)] unfolding j_def [symmetric] if_P [OF inb] jz by (rule trans)
      moreover have "\<not> k < length (pipe_contents i s)" "k - length (pipe_contents i s) = k - z" "k - z < n"
        using False k by (simp_all add: z_def m_def)
      ultimately show ?thesis by (simp add: nth_append user_bytes_def get_fs_byte_def)
    qed
  qed
qed


lemma user_bytes_split:
  "user_bytes buf (m + n) s = user_bytes buf m s @ user_bytes (buf + of_nat m) n s"
  by (rule nth_equalityI) (auto simp: user_bytes_def nth_append add.assoc simp flip: of_nat_add)

lemma unat_diff_wrap:
  assumes "unat b \<le> unat a" "unat a < 2147483648"
  shows "unat (a - b :: u32) = unat a - unat b"
  using assms by (simp add: unat_sub word_le_nat_alt)

lemma outside_shift:
  assumes "k + n \<le> unat (a - buf)"
  shows "n \<le> unat (a - (buf + of_nat k) :: u32)"
proof -
  have "k < 4294967296" using assms unat_less_u32 [of "a - buf"] by linarith
  then have u: "unat (of_nat k :: 32 word) = k" by simp
  then have "(of_nat k :: 32 word) \<le> a - buf" using assms by (simp add: word_le_nat_alt)
  then have "unat (a - buf - of_nat k) = unat (a - buf) - k" using u by (simp add: unat_sub)
  then show ?thesis using assms unfolding diff_diff_eq by simp
qed

lemma before_shift:
  assumes "j < k" "k + n < 4294967296"
  shows "n \<le> unat (buf + of_nat j - (buf + of_nat k) :: u32)"
proof -
  have "of_nat (4294967296 - (k - j)) = (of_nat j - of_nat k :: u32)"
    using assms by (simp add: of_nat_diff)
  then have "buf + of_nat j - (buf + of_nat k) = of_nat (4294967296 - (k - j))" by simp
  moreover have "unat (of_nat (4294967296 - (k - j)) :: 32 word) = 4294967296 - (k - j)"
    by (rule unat_of_nat_u32) (use assms in simp)
  ultimately have "unat (buf + of_nat j - (buf + of_nat k)) = 4294967296 - (k - j)" by (simp only:)
  then show ?thesis using assms by linarith
qed

text \<open>What a call of \<open>read_pipe\<close> with \<open>count\<close> bytes still to read does to a pipe with contents \<open>c\<close>.\<close>

lemma read_pipe_spec:
  assumes "pipe_ok i s" "0 \<le> count" "count \<le> 2147483647"
    "n = min (nat count) (length (pipe_contents i s))"
  shows "\<exists>s'. read_pipe i buf count sofar s = Some (
           if nat count \<le> length (pipe_contents i s) \<or> i_count (inode_table s i) \<noteq> 2 then Returned (sofar + int n)
           else Sleeps (buf + of_nat n) (count - int n) (sofar + int n), s')
       \<and> pipe_ok i s' \<and> pipe_contents i s' = drop n (pipe_contents i s)
       \<and> user_bytes buf n s' = take n (pipe_contents i s)
       \<and> (\<forall>a. n \<le> unat (a - buf) \<longrightarrow> fs_mem s' a = fs_mem s a)
       \<and> i_count (inode_table s' i) = i_count (inode_table s i)"
  using assms
proof (induction "nat count" arbitrary: count n buf sofar s rule: less_induct)
  case less
  let ?m = "inode_table s i"
  show ?case
  proof (cases "count > 0 \<and> PIPE_SIZE ?m \<noteq> 0")
    case False
    then show ?thesis
      using less.prems by (subst read_pipe.simps) (auto simp: user_bytes_def)
  next
    case True
    define c where "c = pipe_contents i s"
    define k where "k = min (min (4096 - PIPE_TAIL ?m) (nat count)) (PIPE_SIZE ?m)"
    have tail: "PIPE_TAIL ?m < 4096" using less.prems(1) by (simp add: pipe_ok_def)
    then have k: "0 < k" "k \<le> PIPE_SIZE ?m" "PIPE_TAIL ?m + k \<le> 4096" "k \<le> nat count" "k < 4096"
      using True PIPE_SIZE_less [of ?m] by (auto simp: k_def)
    have ck: "min (min (4096 - int (PIPE_TAIL ?m)) count) (int (PIPE_SIZE ?m)) = int k"
      using tail less.prems(2) by (auto simp: k_def min_def)
    define s1 where "s1 = read_round i k buf s"
    note rr = read_round [OF less.prems(1) k(2,3), where buf = buf, folded s1_def]
    define n1 where "n1 = min (nat (count - int k)) (length (pipe_contents i s1))"
    have len: "length (pipe_contents i s1) = length c - k" unfolding rr(2) c_def by simp
    have n1: "k + n1 = min (nat count) (length c)"
      unfolding n1_def len using k(1,2,4) True pipe_contents_length [of i s, folded c_def] by linarith
    have pre: "nat (count - int k) < nat count" "0 \<le> count - int k" "count - int k \<le> 2147483647"
      using k True less.prems(3) by simp_all
    obtain s' where s': "read_pipe i (buf + of_nat k) (count - int k) (sofar + int k) s1 = Some (
           if nat (count - int k) \<le> length (pipe_contents i s1) \<or> i_count (inode_table s1 i) \<noteq> 2 then Returned (sofar + int k + int n1)
           else Sleeps (buf + of_nat k + of_nat n1) (count - int k - int n1) (sofar + int k + int n1), s')"
       "pipe_ok i s'" "pipe_contents i s' = drop n1 (pipe_contents i s1)"
       "user_bytes (buf + of_nat k) n1 s' = take n1 (pipe_contents i s1)"
       "\<And>a. n1 \<le> unat (a - (buf + of_nat k)) \<Longrightarrow> fs_mem s' a = fs_mem s1 a"
       "i_count (inode_table s' i) = i_count (inode_table s1 i)"
      using less.hyps [OF pre(1) rr(1) pre(2,3) n1_def] by blast
    have len_n: "n = k + n1" using n1 less.prems(4) by (simp add: c_def)
    have lt: "k + n1 < 4294967296" using k n1 PIPE_SIZE_less [of ?m] by (simp add: c_def)
    have step: "read_pipe i buf count sofar s = read_pipe i (buf + of_nat k) (count - int k) (sofar + int k) s1"
      using True by (subst read_pipe.simps) (simp add: Let_def ck s1_def read_round_def)
    have fst_bytes: "user_bytes buf k s' = user_bytes buf k s1"
      unfolding user_bytes_def get_fs_byte_def
      by (rule map_cong) (use s'(5) before_shift [OF _ lt] in auto)
    have "user_bytes buf n s' = take n c"
    proof -
      have "user_bytes buf n s' = take k c @ take n1 (drop k c)"
        unfolding len_n user_bytes_split fst_bytes s'(4) rr(2,3) c_def ..
      then show ?thesis by (simp add: len_n take_add)
    qed
    moreover have "pipe_contents i s' = drop n c"
      unfolding s'(3) rr(2) len_n c_def drop_drop by (simp only: add.commute)
    moreover have "fs_mem s' a = fs_mem s a" if "n \<le> unat (a - buf)" for a
      using s'(5) [OF outside_shift] rr(4) [of a] that unfolding len_n by (metis add_leD1)
    moreover have "nat (count - int k) \<le> length (pipe_contents i s1) \<longleftrightarrow> nat count \<le> length c"
      unfolding len using k(2,4) pipe_contents_length [of i s, folded c_def] by linarith
    ultimately show ?thesis
      unfolding step s'(1) using s'(2,6) rr(5) by (simp add: len_n c_def algebra_simps)
  qed
qed


lemma sigpipe_frame [simp]:
  "pipe_ok i (upd_task p f s) = pipe_ok i s" "pipe_contents i (upd_task p f s) = pipe_contents i s"
  "inode_table (upd_task p f s) = inode_table s"
  by (simp_all add: pipe_ok_def pipe_contents_def Let_def upd_task_def get_byte_def)

lemma write_pipe_spec:
  assumes "pipe_ok i s" "0 \<le> count" "count \<le> 2147483647" "0 \<le> sofar"
    "n = min (nat count) (4095 - length (pipe_contents i s))"
  shows "\<exists>s'. write_pipe i buf count sofar s = Some (
           if nat count \<le> 4095 - length (pipe_contents i s) then Returned (sofar + int n)
           else if i_count (inode_table s i) \<noteq> 2 then Returned (if sofar + int n \<noteq> 0 then sofar + int n else -1)
           else Sleeps (buf + of_nat n) (count - int n) (sofar + int n), s')
       \<and> pipe_ok i s' \<and> pipe_contents i s' = pipe_contents i s @ user_bytes buf n s
       \<and> fs_mem s' = fs_mem s \<and> i_count (inode_table s' i) = i_count (inode_table s i)"
  using assms
proof (induction "nat count" arbitrary: count n buf sofar s rule: less_induct)
  case less
  let ?m = "inode_table s i"
  show ?case
  proof (cases "count > 0 \<and> 4095 - PIPE_SIZE ?m \<noteq> 0")
    case False
    then show ?thesis
      using less.prems by (subst write_pipe.simps) (auto simp: user_bytes_def Let_def)
  next
    case True
    define c where "c = pipe_contents i s"
    define k where "k = min (min (4096 - PIPE_HEAD ?m) (nat count)) (4095 - PIPE_SIZE ?m)"
    have head: "PIPE_HEAD ?m < 4096" using less.prems(1) by (simp add: pipe_ok_def)
    then have k: "0 < k" "k + PIPE_SIZE ?m \<le> 4095" "PIPE_HEAD ?m + k \<le> 4096" "k \<le> nat count" "k < 4096"
      using True PIPE_SIZE_less [of ?m] by (auto simp: k_def)
    have ck: "min (min (4096 - int (PIPE_HEAD ?m)) count) (4095 - int (PIPE_SIZE ?m)) = int k"
      using head less.prems(2) True by (auto simp: k_def min_def)
    define s1 where "s1 = write_round i k buf s"
    note wr = write_round [OF less.prems(1) k(2,3), where buf = buf, folded s1_def]
    define n1 where "n1 = min (nat (count - int k)) (4095 - length (pipe_contents i s1))"
    have len: "length (pipe_contents i s1) = length c + k" unfolding wr(2) c_def by (simp add: user_bytes_def)
    have n1: "k + n1 = n"
      unfolding n1_def len less.prems(5) using k(2,4) True pipe_contents_length [of i s, folded c_def] by (simp add: c_def)
    have pre: "nat (count - int k) < nat count" "0 \<le> count - int k" "count - int k \<le> 2147483647" "0 \<le> sofar + int k"
      using k True less.prems(3,4) by simp_all
    obtain s' where s': "write_pipe i (buf + of_nat k) (count - int k) (sofar + int k) s1 = Some (
           if nat (count - int k) \<le> 4095 - length (pipe_contents i s1) then Returned (sofar + int k + int n1)
           else if i_count (inode_table s1 i) \<noteq> 2
                then Returned (if sofar + int k + int n1 \<noteq> 0 then sofar + int k + int n1 else -1)
           else Sleeps (buf + of_nat k + of_nat n1) (count - int k - int n1) (sofar + int k + int n1), s')"
       "pipe_ok i s'" "pipe_contents i s' = pipe_contents i s1 @ user_bytes (buf + of_nat k) n1 s1"
       "fs_mem s' = fs_mem s1" "i_count (inode_table s' i) = i_count (inode_table s1 i)"
      using less.hyps [OF pre(1) wr(1) pre(2,3,4) n1_def] by blast
    have step: "write_pipe i buf count sofar s = write_pipe i (buf + of_nat k) (count - int k) (sofar + int k) s1"
      using True by (subst write_pipe.simps) (simp add: Let_def ck s1_def write_round_def)
    have "user_bytes buf n s = user_bytes buf k s @ user_bytes (buf + of_nat k) n1 s1"
      unfolding n1 [symmetric] user_bytes_split by (simp add: user_bytes_def get_fs_byte_def wr(3))
    moreover have "nat (count - int k) \<le> 4095 - length (pipe_contents i s1) \<longleftrightarrow> nat count \<le> 4095 - length c"
      unfolding len using k(2,4) pipe_contents_length [of i s, folded c_def] by linarith
    ultimately show ?thesis
      unfolding step s'(1) using s'(2-5) wr(2-4) n1 [symmetric] by (simp add: c_def algebra_simps)
  qed
qed


section \<open>First in, first out\<close>

text \<open>The interface of a byte channel: whoever writes appends, whoever reads removes from the front, and
  nothing else touches the contents. A run interleaves the three kinds of steps in any order; \<open>ws\<close> and \<open>rs\<close>
  are the bytes accepted and delivered so far.\<close>

inductive channel_run ::
  "('s \<Rightarrow> 'b list \<Rightarrow> 's \<Rightarrow> bool) \<Rightarrow> ('s \<Rightarrow> 'b list \<Rightarrow> 's \<Rightarrow> bool) \<Rightarrow> ('s \<Rightarrow> 's \<Rightarrow> bool)
     \<Rightarrow> 's \<Rightarrow> 'b list \<Rightarrow> 'b list \<Rightarrow> 's \<Rightarrow> bool"
  for W R E s where
  start: "channel_run W R E s [] [] s"
| wrote: "channel_run W R E s ws rs s' \<Longrightarrow> W s' xs s'' \<Longrightarrow> channel_run W R E s (ws @ xs) rs s''"
| got: "channel_run W R E s ws rs s' \<Longrightarrow> R s' xs s'' \<Longrightarrow> channel_run W R E s ws (rs @ xs) s''"
| other: "channel_run W R E s ws rs s' \<Longrightarrow> E s' s'' \<Longrightarrow> channel_run W R E s ws rs s''"

locale byte_channel =
  fixes ok :: "'s \<Rightarrow> bool" and contents :: "'s \<Rightarrow> 'b list"
    and W R :: "'s \<Rightarrow> 'b list \<Rightarrow> 's \<Rightarrow> bool" and E :: "'s \<Rightarrow> 's \<Rightarrow> bool"
  assumes write_law: "W s xs s' \<Longrightarrow> ok s \<Longrightarrow> ok s' \<and> contents s' = contents s @ xs"
    and read_law: "R s xs s' \<Longrightarrow> ok s \<Longrightarrow> ok s' \<and> contents s = xs @ contents s'"
    and env_law: "E s s' \<Longrightarrow> ok s \<Longrightarrow> ok s' \<and> contents s' = contents s"
begin

lemma fifo: "channel_run W R E s ws rs s' \<Longrightarrow> ok s \<Longrightarrow> ok s' \<and> contents s @ ws = rs @ contents s'"
proof (induction rule: channel_run.induct)
  case (wrote ws rs s' xs s'')
  then show ?case using write_law [of s' xs s''] by (metis append_assoc)
next
  case (got ws rs s' xs s'')
  then show ?case using read_law [of s' xs s''] by (metis append_assoc)
next
  case (other ws rs s' s'')
  then show ?case using env_law [of s' s''] by metis
qed simp

lemma delivered_prefix:
  "channel_run W R E s ws rs s' \<Longrightarrow> ok s \<Longrightarrow> contents s = [] \<Longrightarrow> take (length rs) ws = rs"
  using fifo by fastforce

end

text \<open>Steps on the pipe of inode \<open>i\<close>. A call starts with \<open>sofar = 0\<close>, or resumes after a sleep with what it
  has done so far; \<open>moved\<close> is the total after it. The environment may change everything but the page of the
  pipe and the inode's indices: user memory, tasks, other inodes.\<close>

definition moved :: "pipe_result \<Rightarrow> nat" where
  "moved r = (case r of Returned n \<Rightarrow> nat n | Sleeps _ _ n \<Rightarrow> nat n)"

definition pipe_write_step :: "nat \<Rightarrow> 'a fs_state_scheme \<Rightarrow> u8 list \<Rightarrow> 'a fs_state_scheme \<Rightarrow> bool" where
  "pipe_write_step i s xs s' \<longleftrightarrow> (\<exists>buf count sofar r. 0 \<le> count \<and> count \<le> 2147483647 \<and> 0 \<le> sofar
     \<and> write_pipe i buf count sofar s = Some (r, s') \<and> xs = user_bytes buf (moved r - nat sofar) s)"

definition pipe_read_step :: "nat \<Rightarrow> 'a fs_state_scheme \<Rightarrow> u8 list \<Rightarrow> 'a fs_state_scheme \<Rightarrow> bool" where
  "pipe_read_step i s xs s' \<longleftrightarrow> (\<exists>buf count sofar r. 0 \<le> count \<and> count \<le> 2147483647 \<and> 0 \<le> sofar
     \<and> read_pipe i buf count sofar s = Some (r, s') \<and> xs = user_bytes buf (moved r - nat sofar) s')"

definition pipe_env :: "nat \<Rightarrow> 'a fs_state_scheme \<Rightarrow> 'a fs_state_scheme \<Rightarrow> bool" where
  "pipe_env i s s' \<longleftrightarrow> phys s' = phys s \<and> i_zone (inode_table s' i) = i_zone (inode_table s i)
     \<and> i_size (inode_table s' i) = i_size (inode_table s i)"

lemma pipe_write_law:
  assumes "pipe_write_step i s xs s'" "pipe_ok i s"
  shows "pipe_ok i s' \<and> pipe_contents i s' = pipe_contents i s @ xs"
proof -
  obtain buf count d r where c: "0 \<le> count" "count \<le> 2147483647" "0 \<le> d" "write_pipe i buf count d s = Some (r, s')"
      "xs = user_bytes buf (moved r - nat d) s"
    using assms(1) by (auto simp: pipe_write_step_def)
  from write_pipe_spec [OF assms(2) c(1,2,3) refl, of buf] c(4)
  show ?thesis using c(3,5) by (auto simp: moved_def nat_add_distrib split: if_splits)
qed

lemma pipe_read_law:
  assumes "pipe_read_step i s xs s'" "pipe_ok i s"
  shows "pipe_ok i s' \<and> pipe_contents i s = xs @ pipe_contents i s'"
proof -
  obtain buf count d r where c: "0 \<le> count" "count \<le> 2147483647" "0 \<le> d" "read_pipe i buf count d s = Some (r, s')"
      "xs = user_bytes buf (moved r - nat d) s'"
    using assms(1) by (auto simp: pipe_read_step_def)
  from read_pipe_spec [OF assms(2) c(1,2) refl, of buf d] c(4)
  show ?thesis using c(3,5) by (auto simp: moved_def nat_add_distrib split: if_splits)
qed

lemma pipe_env_law: "pipe_env i s s' \<Longrightarrow> pipe_ok i s \<Longrightarrow> pipe_ok i s' \<and> pipe_contents i s' = pipe_contents i s"
  by (simp add: pipe_env_def pipe_ok_def pipe_contents_def PIPE_SIZE_def PIPE_HEAD_def PIPE_TAIL_def Let_def get_byte_def)

interpretation pipe_channel: byte_channel "pipe_ok i" "pipe_contents i" "pipe_write_step i" "pipe_read_step i" "pipe_env i"
  for i
  by unfold_locales (simp_all only: pipe_write_law pipe_read_law pipe_env_law)

section \<open>The properties\<close>

text \<open>C13: the bytes delivered by any interleaving of reads, writes (whole or resumed after a sleep) and
  changes elsewhere in the kernel are the bytes written, in order, none lost, repeated or invented.\<close>

theorem pipe_fifo:
  assumes "channel_run (pipe_write_step i) (pipe_read_step i) (pipe_env i) s ws rs s'" "pipe_ok i s"
  shows "pipe_ok i s' \<and> pipe_contents i s @ ws = rs @ pipe_contents i s'"
  using assms by (rule pipe_channel.fifo)

lemma init_pipe_ok: "pipe_ok 0 (init_fs a b)" "pipe_contents 0 (init_fs a b) = []"
  by (simp_all add: pipe_ok_def init_fs_def zero_inode_def PIPE_HEAD_def PIPE_TAIL_def pipe_contents_def PIPE_SIZE_def)

text \<open>The witness writes three bytes into the empty pipe of inode 0 and reads two of them.\<close>

theorem pipe_fifo_witness:
  "\<exists>ws rs s'. length ws = 3 \<and> length rs = 2
     \<and> channel_run (pipe_write_step 0) (pipe_read_step 0) (pipe_env 0) (init_fs 0x1000 0) ws rs s'
     \<and> ws = rs @ pipe_contents 0 s'"
proof -
  let ?s = "init_fs 0x1000 0"
  obtain s1 where s1: "write_pipe 0 0 3 0 ?s = Some (Returned 3, s1)" "pipe_ok 0 s1" "length (pipe_contents 0 s1) = 3"
    using write_pipe_spec [OF init_pipe_ok(1) [of "0x1000" 0] _ _ _ refl, where count = 3 and sofar = 0 and buf = 0] init_pipe_ok(2) [of "0x1000" 0]
    by (auto simp: user_bytes_def simp del: pipe_contents_length)
  obtain s2 where s2: "read_pipe 0 0 2 0 s1 = Some (Returned 2, s2)"
    using read_pipe_spec [OF s1(2) _ _ refl, where count = 2 and sofar = 0 and buf = 0] s1(3) by auto
  have w: "pipe_write_step 0 ?s (user_bytes 0 3 ?s) s1"
    unfolding pipe_write_step_def using s1(1)
    by (intro exI [of _ 0] exI [of _ "3 :: int"] exI [of _ "Returned 3"]) (auto simp: moved_def)
  have r: "pipe_read_step 0 s1 (user_bytes 0 2 s2) s2"
    unfolding pipe_read_step_def using s2
    by (intro exI [of _ 0] exI [of _ "2 :: int"] exI [of _ "Returned 2"]) (auto simp: moved_def)
  have run: "channel_run (pipe_write_step 0) (pipe_read_step 0) (pipe_env 0) ?s
      ([] @ user_bytes 0 3 ?s) ([] @ user_bytes 0 2 s2) s2"
    by (rule channel_run.got [where s' = s1], rule channel_run.wrote [where s' = ?s], rule channel_run.start)
      (fact w r)+
  have eq: "user_bytes 0 3 ?s = user_bytes 0 2 s2 @ pipe_contents 0 s2"
    using pipe_fifo [OF run init_pipe_ok(1)] by (simp add: init_pipe_ok(2))
  have "length (user_bytes 0 3 ?s) = 3" "length (user_bytes 0 2 s2) = 2" by (simp_all add: user_bytes_def)
  with run eq show ?thesis unfolding append_Nil by blast
qed

text \<open>C14: a read or a write of any number of bytes comes back. A read moves as many bytes as there are, up
  to the number asked for, and sleeps only on an emptied pipe with both ends open; a write fills the pipe up
  to 4095 bytes, sleeps only on a full pipe with both ends open, and reports what it wrote (or -1) when the
  other end is closed.\<close>

theorem pipe_calls_return:
  assumes "pipe_ok i s" "0 \<le> count" "count \<le> 2147483647"
  shows "(\<exists>s' n. n = min (nat count) (length (pipe_contents i s)) \<and> read_pipe i buf count 0 s = Some (
            if nat count \<le> length (pipe_contents i s) \<or> i_count (inode_table s i) \<noteq> 2 then Returned (int n)
            else Sleeps (buf + of_nat n) (count - int n) (int n), s')
          \<and> pipe_contents i s' = drop n (pipe_contents i s) \<and> user_bytes buf n s' = take n (pipe_contents i s))
    \<and> (\<exists>s' n. n = min (nat count) (4095 - length (pipe_contents i s)) \<and> write_pipe i buf count 0 s = Some (
            if nat count \<le> 4095 - length (pipe_contents i s) then Returned (int n)
            else if i_count (inode_table s i) \<noteq> 2 then Returned (if n \<noteq> 0 then int n else -1)
            else Sleeps (buf + of_nat n) (count - int n) (int n), s')
          \<and> pipe_contents i s' = pipe_contents i s @ user_bytes buf n s)"
proof (rule conjI, goal_cases)
  case 1
  show ?case using read_pipe_spec [OF assms refl, where sofar = 0 and buf = buf] unfolding add_0
    by - (elim exE conjE, intro exI conjI, rule refl, assumption+)
next
  case 2
  show ?case using write_pipe_spec [OF assms order_refl refl, where buf = buf] unfolding add_0 of_nat_eq_0_iff
    by - (elim exE conjE, intro exI conjI, rule refl, assumption+)
qed

theorem pipe_calls_return_witness:
  "\<exists>s'. read_pipe 0 0 7 0 (init_fs 0x1000 0) = Some (Returned 0, s')"
  using pipe_calls_return [OF init_pipe_ok(1) [of "0x1000" 0], where count = 7 and buf = 0] init_pipe_ok(2) [of "0x1000" 0]
  by (auto simp: init_fs_def zero_inode_def simp del: pipe_contents_length)

end
