(* ===== verification/Read_Write.thy ===== *)
theory Read_Write
  imports Pipe
begin

text \<open>
  Reading and writing: regular files (\<open>fs/file_dev.c\<close>), block devices (\<open>fs/block_dev.c\<close>), character
  devices (\<open>fs/char_dev.c\<close>), the system calls on top of them (\<open>fs/read_write.c\<close>), \<open>stat\<close> (\<open>fs/stat.c\<close>) and
  \<open>ioctl\<close> (\<open>fs/ioctl.c\<close>). The terminal driver is the argument \<open>tty\<close> (\<open>tty_read\<close> and \<open>tty_write\<close>) of
  \<open>rw_char\<close> and its callers. The argument \<open>pos\<close> of the device routines is always \<open>&file->f_pos\<close>.
\<close>

section \<open>Regular files\<close>

partial_function (option) file_read_loop ::
  "nat \<Rightarrow> nat \<Rightarrow> u32 \<Rightarrow> int \<Rightarrow> 'a fs_state_scheme \<Rightarrow> (int \<times> 'a fs_state_scheme) option" where
  "file_read_loop i f buf left s =
     (if left = 0 then Some (0, s)
      else do {
        (nr, s) \<leftarrow> bmap i (cdiv (f_pos (file_table s f)) 1024) s;
        (bh, s) \<leftarrow> (if nr \<noteq> 0 then bread (uint (i_dev (inode_table s i))) nr s else Some (None, s));
        if nr \<noteq> 0 \<and> bh = None then Some (left, s)
        else do {
          let pos = f_pos (file_table s f);
          let nr = pos smod 1024;
          let chars = min (1024 - nr) left;
          let s = upd_file f (f_pos_update (\<lambda>_. i32 (pos + chars))) s;
          s \<leftarrow> (if bh \<noteq> None
                 then brelse bh (to_user (nat chars) (b_data (buffers s (the bh))) (nat nr) buf s)
                 else Some (to_user (nat chars) (\<lambda>_. 0) 0 buf s));
          file_read_loop i f (buf + word_of_int chars) (left - chars) s } })"

definition file_read ::
  "nat \<Rightarrow> nat \<Rightarrow> u32 \<Rightarrow> int \<Rightarrow> 'a fs_state_scheme \<Rightarrow> (int \<times> 'a fs_state_scheme) option" where
  "file_read i f buf count s =
     (if count \<le> 0 then Some (0, s)
      else do {
        (left, s) \<leftarrow> file_read_loop i f buf count s;
        let s = upd_inode i (i_atime_update (\<lambda>_. now s)) s;
        Some (if count - left \<noteq> 0 then count - left else - ERROR, s) })"

partial_function (option) file_write_loop ::
  "nat \<Rightarrow> int \<Rightarrow> u32 \<Rightarrow> int \<Rightarrow> int \<Rightarrow> 'a fs_state_scheme \<Rightarrow> ((int \<times> int) \<times> 'a fs_state_scheme) option" where
  "file_write_loop i pos buf done count s =
     (if done \<ge> count then Some ((done, pos), s)
      else do {
        (block, s) \<leftarrow> create_block i (cdiv pos 1024) s;
        if block = 0 then Some ((done, pos), s)
        else do {
          (bh, s) \<leftarrow> bread (uint (i_dev (inode_table s i))) block s;
          if bh = None then Some ((done, pos), s)
          else do {
            let b = the bh;
            let off = pos smod 1024;
            let s = upd_buffer b (b_dirt_update (\<lambda>_. True)) s;
            let c = min (1024 - off) (count - done);
            let pos = i32 (pos + c);
            let s = (if (word_of_int pos :: u32) > i_size (inode_table s i)
                     then upd_inode i (\<lambda>m. m\<lparr>i_size := word_of_int pos, i_dirt := True\<rparr>) s else s);
            let s = upd_buffer b (\<lambda>bh. bh\<lparr>b_data := from_user (nat c) (b_data bh) (nat off) buf s\<rparr>) s;
            s \<leftarrow> brelse (Some b) s;
            file_write_loop i pos (buf + word_of_int c) (done + c) count s } } })"

definition file_write ::
  "nat \<Rightarrow> nat \<Rightarrow> u32 \<Rightarrow> int \<Rightarrow> 'a fs_state_scheme \<Rightarrow> (int \<times> 'a fs_state_scheme) option" where
  "file_write i f buf count s = do {
     let append = (f_flags (file_table s f) AND ucast O_APPEND \<noteq> 0);
     let pos = (if append then sint (i_size (inode_table s i)) else f_pos (file_table s f));
     ((done, pos), s) \<leftarrow> file_write_loop i pos buf 0 count s;
     let s = upd_inode i (i_mtime_update (\<lambda>_. now s)) s;
     let s = (if \<not> append then upd_inode i (i_ctime_update (\<lambda>_. now s)) (upd_file f (f_pos_update (\<lambda>_. pos)) s)
              else s);
     Some (if done \<noteq> 0 then done else -1, s) }"

section \<open>Block devices\<close>

definition advance_pos :: "nat \<Rightarrow> int \<Rightarrow> 'a fs_state_scheme \<Rightarrow> 'a fs_state_scheme" where
  "advance_pos f chars = upd_file f (\<lambda>x. x\<lparr>f_pos := i32 (f_pos x + chars)\<rparr>)"

partial_function (option) block_write_loop ::
  "int \<Rightarrow> nat \<Rightarrow> int \<Rightarrow> int \<Rightarrow> u32 \<Rightarrow> int \<Rightarrow> int \<Rightarrow> 'a fs_state_scheme \<Rightarrow> (int \<times> 'a fs_state_scheme) option" where
  "block_write_loop dev f block off buf count written s =
     (if count > 0 then do {
        let chars = min (1024 - off) count;
        (bh, s) \<leftarrow> (if chars = 1024 then do { (b, s) \<leftarrow> getblk dev block s; Some (Some b, s) }
                    else breada dev block [block + 1, block + 2] s);
        if bh = None then Some (if written \<noteq> 0 then written else - EIO, s)
        else do {
          let b = the bh;
          let s = advance_pos f chars s;
          let s = upd_buffer b (\<lambda>bh. bh\<lparr>b_data := from_user (nat chars) (b_data bh) (nat off) buf s,
            b_dirt := True\<rparr>) s;
          s \<leftarrow> brelse (Some b) s;
          block_write_loop dev f (block + 1) 0 (buf + word_of_int chars) (count - chars) (written + chars) s } }
      else Some (written, s))"

definition block_write ::
  "int \<Rightarrow> nat \<Rightarrow> u32 \<Rightarrow> int \<Rightarrow> 'a fs_state_scheme \<Rightarrow> (int \<times> 'a fs_state_scheme) option" where
  "block_write dev f buf count s = (let pos = f_pos (file_table s f) in
     block_write_loop dev f (pos div 1024) (pos mod 1024) buf count 0 s)"

partial_function (option) block_read_loop ::
  "int \<Rightarrow> nat \<Rightarrow> int \<Rightarrow> int \<Rightarrow> u32 \<Rightarrow> int \<Rightarrow> int \<Rightarrow> 'a fs_state_scheme \<Rightarrow> (int \<times> 'a fs_state_scheme) option" where
  "block_read_loop dev f block off buf count nread s =
     (if count > 0 then do {
        let chars = min (1024 - off) count;
        (bh, s) \<leftarrow> breada dev block [block + 1, block + 2] s;
        if bh = None then Some (if nread \<noteq> 0 then nread else - EIO, s)
        else do {
          let s = advance_pos f chars s;
          s \<leftarrow> brelse bh (to_user (nat chars) (b_data (buffers s (the bh))) (nat off) buf s);
          block_read_loop dev f (block + 1) 0 (buf + word_of_int chars) (count - chars) (nread + chars) s } }
      else Some (nread, s))"

definition block_read ::
  "int \<Rightarrow> nat \<Rightarrow> u32 \<Rightarrow> int \<Rightarrow> 'a fs_state_scheme \<Rightarrow> (int \<times> 'a fs_state_scheme) option" where
  "block_read dev f buf count s = (let pos = f_pos (file_table s f) in
     block_read_loop dev f (pos div 1024) (pos mod 1024) buf count 0 s)"

section \<open>Character devices\<close>

type_synonym 's tty_fn = "int \<Rightarrow> int \<Rightarrow> u32 \<Rightarrow> int \<Rightarrow> 's \<Rightarrow> (int \<times> 's) option"

definition rw_ttyx ::
  "'a fs_state_scheme tty_fn \<Rightarrow> int \<Rightarrow> int \<Rightarrow> u32 \<Rightarrow> int \<Rightarrow> 'a fs_state_scheme \<Rightarrow> (int \<times> 'a fs_state_scheme) option" where
  "rw_ttyx tty rw minor buf count s = tty rw minor buf count s"

definition rw_tty ::
  "'a fs_state_scheme tty_fn \<Rightarrow> int \<Rightarrow> u32 \<Rightarrow> int \<Rightarrow> 'a fs_state_scheme \<Rightarrow> (int \<times> 'a fs_state_scheme) option" where
  "rw_tty tty rw buf count s =
     (if t_tty (cur s) < 0 then Some (-EPERM, s) else rw_ttyx tty rw (t_tty (cur s)) buf count s)"

primrec rw_port_loop ::
  "int \<Rightarrow> nat \<Rightarrow> int \<Rightarrow> u32 \<Rightarrow> 'a fs_state_scheme \<Rightarrow> int \<times> 'a fs_state_scheme" where
  "rw_port_loop rw 0 i buf s = (i, s)"
| "rw_port_loop rw (Suc n) i buf s =
     (if i < 65536 then
        rw_port_loop rw n (i + 1) (buf + 1)
          (if rw = READ then put_fs_byte (inb (word_of_int i) s) buf s
           else outb (get_fs_byte buf s) (word_of_int i) s)
      else (i, s))"

definition rw_port ::
  "int \<Rightarrow> u32 \<Rightarrow> int \<Rightarrow> nat \<Rightarrow> 'a fs_state_scheme \<Rightarrow> int \<times> 'a fs_state_scheme" where
  "rw_port rw buf count f s =
     (let pos = f_pos (file_table s f); (i, s) = rw_port_loop rw (nat count) pos buf s; i = i - pos
      in (i, advance_pos f i s))"

definition rw_memory ::
  "int \<Rightarrow> int \<Rightarrow> u32 \<Rightarrow> int \<Rightarrow> nat \<Rightarrow> 'a fs_state_scheme \<Rightarrow> int \<times> 'a fs_state_scheme" where
  "rw_memory rw minor buf count f s =
     (if minor = 0 then (-EIO, s)
      else if minor = 1 then (-EIO, s)
      else if minor = 2 then (-EIO, s)
      else if minor = 3 then (if rw = READ then 0 else count, s)
      else if minor = 4 then rw_port rw buf count f s
      else (-EIO, s))"

definition rw_char ::
  "'a fs_state_scheme tty_fn \<Rightarrow> int \<Rightarrow> int \<Rightarrow> u32 \<Rightarrow> int \<Rightarrow> nat \<Rightarrow> 'a fs_state_scheme
     \<Rightarrow> (int \<times> 'a fs_state_scheme) option" where
  "rw_char tty rw dev buf count f s =
     (if MAJOR dev \<ge> 8 then Some (-ENODEV, s)
      else if MAJOR dev = 1 then Some (rw_memory rw (MINOR dev) buf count f s)
      else if MAJOR dev = 4 then rw_ttyx tty rw (MINOR dev) buf count s
      else if MAJOR dev = 5 then rw_tty tty rw buf count s
      else Some (-ENODEV, s))"

section \<open>The system calls\<close>

definition IS_SEEKABLE :: "nat \<Rightarrow> bool" where
  "IS_SEEKABLE x \<longleftrightarrow> 1 \<le> x \<and> x \<le> 3"

definition sys_lseek :: "u32 \<Rightarrow> int \<Rightarrow> int \<Rightarrow> 'a fs_state_scheme \<Rightarrow> int \<times> 'a fs_state_scheme" where
  "sys_lseek fd offset origin s =
     (case (if unat fd \<ge> NR_OPEN then None else t_filp (cur s) (unat fd)) of
        None \<Rightarrow> (-EBADF, s)
      | Some f \<Rightarrow> (case f_inode (file_table s f) of
          None \<Rightarrow> (-EBADF, s)
        | Some i \<Rightarrow>
            let m = inode_table s i; set_pos = (\<lambda>p. (p, upd_file f (f_pos_update (\<lambda>_. p)) s)) in
            if \<not> IS_SEEKABLE (MAJOR (uint (i_dev m))) then (-EBADF, s)
            else if i_pipe m then (-ESPIPE, s)
            else if origin = 0 then (if offset < 0 then (-EINVAL, s) else set_pos offset)
            else if origin = 1 then
              let p = i32 (f_pos (file_table s f) + offset)
              in if p < 0 then (-EINVAL, s) else set_pos p
            else if origin = 2 then
              let p = i32 (uint (i_size m) + offset)
              in if p < 0 then (-EINVAL, s) else set_pos p
            else (-EINVAL, s)))"

text \<open>A pipe operation that sleeps does not return in the run of a single task.\<close>

definition pipe_returned :: "pipe_result \<times> 's \<Rightarrow> (int \<times> 's) option" where
  "pipe_returned r = (case r of (Returned n, s) \<Rightarrow> Some (n, s) | (Sleeps _ _ _, s) \<Rightarrow> None)"

definition sys_read ::
  "'a fs_state_scheme tty_fn \<Rightarrow> u32 \<Rightarrow> u32 \<Rightarrow> int \<Rightarrow> 'a fs_state_scheme \<Rightarrow> (int \<times> 'a fs_state_scheme) option" where
  "sys_read tty fd buf count s =
     (case (if unat fd \<ge> NR_OPEN \<or> count < 0 then None else t_filp (cur s) (unat fd)) of
        None \<Rightarrow> Some (-EINVAL, s)
      | Some f \<Rightarrow>
          if count = 0 then Some (0, s)
          else do {
            s \<leftarrow> verify_area buf count s;
            i \<leftarrow> f_inode (file_table s f);
            let m = inode_table s i;
            let zone = uint (i_zone m 0);
            if i_pipe m then
              (if f_mode (file_table s f) AND 1 \<noteq> 0 then do { r \<leftarrow> read_pipe i buf count 0 s; pipe_returned r }
               else Some (-EIO, s))
            else if S_ISCHR (i_mode m) then rw_char tty READ zone buf count f s
            else if S_ISBLK (i_mode m) then block_read zone f buf count s
            else if S_ISDIR (i_mode m) \<or> S_ISREG (i_mode m) then do {
              let pos = f_pos (file_table s f);
              let count = (if (word_of_int (count + pos) :: u32) > i_size m
                           then i32 (uint (i_size m) - pos) else count);
              if count \<le> 0 then Some (0, s) else file_read i f buf count s }
            else Some (-EINVAL, s) })"

definition sys_write ::
  "'a fs_state_scheme tty_fn \<Rightarrow> u32 \<Rightarrow> u32 \<Rightarrow> int \<Rightarrow> 'a fs_state_scheme \<Rightarrow> (int \<times> 'a fs_state_scheme) option" where
  "sys_write tty fd buf count s =
     (case (if unat fd \<ge> NR_OPEN \<or> count < 0 then None else t_filp (cur s) (unat fd)) of
        None \<Rightarrow> Some (-EINVAL, s)
      | Some f \<Rightarrow>
          if count = 0 then Some (0, s)
          else do {
            i \<leftarrow> f_inode (file_table s f);
            let m = inode_table s i;
            let zone = uint (i_zone m 0);
            if i_pipe m then
              (if f_mode (file_table s f) AND 2 \<noteq> 0 then do { r \<leftarrow> write_pipe i buf count 0 s; pipe_returned r }
               else Some (-EIO, s))
            else if S_ISCHR (i_mode m) then rw_char tty WRITE zone buf count f s
            else if S_ISBLK (i_mode m) then block_write zone f buf count s
            else if S_ISREG (i_mode m) then file_write i f buf count s
            else Some (-EINVAL, s) })"

section \<open>stat\<close>

text \<open>\<open>struct stat\<close> has 32 bytes, of which 7, 11, 14 and 15 are padding: they keep what the stack held
  (\<open>pad\<close>).\<close>

definition stat_bytes :: "m_inode \<Rightarrow> bytes \<Rightarrow> bytes" where
  "stat_bytes m pad =
     put_u32 28 (i_ctime m) (put_u32 24 (i_mtime m) (put_u32 20 (i_atime m) (put_u32 16 (i_size m)
       (put_u16 12 (i_zone m 0)
         ((put_u16 8 (i_uid m)
           ((put_u16 4 (i_mode m) (put_u16 2 (i_num m) (put_u16 0 (i_dev m) pad)))(6 := i_nlinks m)))
          (10 := i_gid m))))))"

definition cp_stat :: "bytes \<Rightarrow> nat \<Rightarrow> u32 \<Rightarrow> 'a fs_state_scheme \<Rightarrow> 'a fs_state_scheme option" where
  "cp_stat pad i statbuf s = do {
     s \<leftarrow> verify_area statbuf 32 s;
     Some (to_user 32 (stat_bytes (inode_table s i) pad) 0 statbuf s) }"

definition sys_stat :: "bytes \<Rightarrow> u32 \<Rightarrow> u32 \<Rightarrow> 'a fs_state_scheme \<Rightarrow> (int \<times> 'a fs_state_scheme) option" where
  "sys_stat pad filename statbuf s = do {
     (inode, s) \<leftarrow> namei filename s;
     case inode of
       None \<Rightarrow> Some (-ENOENT, s)
     | Some i \<Rightarrow> do {
         s \<leftarrow> cp_stat pad i statbuf s;
         s \<leftarrow> iput (Some i) s;
         Some (0, s) } }"

definition sys_fstat :: "bytes \<Rightarrow> u32 \<Rightarrow> u32 \<Rightarrow> 'a fs_state_scheme \<Rightarrow> (int \<times> 'a fs_state_scheme) option" where
  "sys_fstat pad fd statbuf s =
     (case (if unat fd \<ge> NR_OPEN then None else t_filp (cur s) (unat fd)) of
        None \<Rightarrow> Some (-EBADF, s)
      | Some f \<Rightarrow> (case f_inode (file_table s f) of
          None \<Rightarrow> Some (-EBADF, s)
        | Some i \<Rightarrow> do { s \<leftarrow> cp_stat pad i statbuf s; Some (0, s) }))"

section \<open>ioctl\<close>

text \<open>\<open>tty_ioctl\<close> serves the majors 4 and 5; the table has eight entries.\<close>

definition sys_ioctl ::
  "(int \<Rightarrow> u32 \<Rightarrow> u32 \<Rightarrow> 'a fs_state_scheme \<Rightarrow> (int \<times> 'a fs_state_scheme) option)
     \<Rightarrow> u32 \<Rightarrow> u32 \<Rightarrow> u32 \<Rightarrow> 'a fs_state_scheme \<Rightarrow> (int \<times> 'a fs_state_scheme) option" where
  "sys_ioctl tty_ioctl fd cmd arg s =
     (case (if unat fd \<ge> NR_OPEN then None else t_filp (cur s) (unat fd)) of
        None \<Rightarrow> Some (-EBADF, s)
      | Some f \<Rightarrow> do {
          i \<leftarrow> f_inode (file_table s f);
          let m = inode_table s i;
          let dev = uint (i_zone m 0);
          if \<not> S_ISCHR (i_mode m) \<and> \<not> S_ISBLK (i_mode m) then Some (-EINVAL, s)
          else if MAJOR dev \<ge> 8 then Some (-ENODEV, s)
          else if MAJOR dev = 4 \<or> MAJOR dev = 5 then tty_ioctl dev cmd arg s
          else Some (-ENOTTY, s) })"

end
