(* ===== verification/Process.thy ===== *)
theory Process
  imports Open
begin

text \<open>
  Creating and ending tasks: \<open>kernel/fork.c\<close>, \<open>kernel/exit.c\<close>, and signals, \<open>kernel/signal.c\<close>. The
  routines that call \<open>schedule\<close> in the middle are cut there: what the caller does when it runs again is a
  \<open>_resume\<close> definition.
\<close>

section \<open>fork\<close>

text \<open>The registers that \<open>copy_process\<close> finds on the stack.\<close>

record regs =
  r_ebp :: u32
  r_edi :: u32
  r_esi :: u32
  r_gs :: u32
  r_ebx :: u32
  r_ecx :: u32
  r_edx :: u32
  r_fs :: u32
  r_es :: u32
  r_ds :: u32
  r_eip :: u32
  r_cs :: u32
  r_eflags :: u32
  r_esp :: u32
  r_ss :: u32

definition copy_mem :: "nat \<Rightarrow> addr \<Rightarrow> 'a sched_state_scheme \<Rightarrow> (int \<times> 'a sched_state_scheme) option" where
  "copy_mem nr p s =
     (let code_limit = get_limit (t_ldt (cur s) 1);
          data_limit = get_limit (t_ldt (cur s) 2);
          old_code_base = get_base (t_ldt (cur s) 1);
          old_data_base = get_base (t_ldt (cur s) 2) in
      if old_data_base \<noteq> old_code_base then None
      else if data_limit < code_limit then None
      else
        let new_base = of_nat nr * 0x4000000;
            s = upd_task p (\<lambda>t. t\<lparr>t_start_code := new_base,
              t_ldt := (t_ldt t)(1 := set_base (t_ldt t 1) new_base, 2 := set_base (t_ldt t 2) new_base)\<rparr>) s
        in do {
          (r, s) \<leftarrow> copy_page_tables old_data_base new_base data_limit s;
          if r \<noteq> 0 then do {
            (r, s) \<leftarrow> free_page_tables new_base data_limit s;
            Some (-ENOMEM, s) }
          else Some (0, s) })"

definition child_task :: "nat \<Rightarrow> addr \<Rightarrow> regs \<Rightarrow> int \<Rightarrow> int \<Rightarrow> task_struct \<Rightarrow> task_struct" where
  "child_task nr p r newpid t0 t = t\<lparr>t_state := TASK_UNINTERRUPTIBLE, t_pid := newpid, t_father := t_pid t,
     t_counter := t_priority t, t_signal := 0, t_alarm := 0, t_leader := 0,
     t_utime := 0, t_stime := 0, t_cutime := 0, t_cstime := 0, t_start_time := t0,
     t_tss := (t_tss t)\<lparr>tss_back_link := 0, tss_esp0 := 4096 + p, tss_ss0 := 0x10,
       tss_eip := r_eip r, tss_eflags := r_eflags r, tss_eax := 0, tss_ecx := r_ecx r, tss_edx := r_edx r,
       tss_ebx := r_ebx r, tss_esp := r_esp r, tss_ebp := r_ebp r, tss_esi := r_esi r, tss_edi := r_edi r,
       tss_es := r_es r AND 0xffff, tss_cs := r_cs r AND 0xffff, tss_ss := r_ss r AND 0xffff,
       tss_ds := r_ds r AND 0xffff, tss_fs := r_fs r AND 0xffff, tss_gs := r_gs r AND 0xffff,
       tss_ldt := LDT_SEL nr, tss_trace_bitmap := 0x80000000\<rparr>\<rparr>"

definition set_task :: "nat \<Rightarrow> addr \<Rightarrow> 'a sched_state_scheme \<Rightarrow> 'a sched_state_scheme" where
  "set_task nr p s = s\<lparr>task := (task s)(nr := p)\<rparr>"

definition inc_inode :: "nat option \<Rightarrow> 'a fs_state_scheme \<Rightarrow> 'a fs_state_scheme" where
  "inc_inode i s = (case i of None \<Rightarrow> s | Some i \<Rightarrow> upd_inode i (\<lambda>m. m\<lparr>i_count := i_count m + 1\<rparr>) s)"

definition copy_process :: "nat \<Rightarrow> regs \<Rightarrow> 'a fs_state_scheme \<Rightarrow> (int \<times> 'a fs_state_scheme) option" where
  "copy_process nr r s =
     (let (p, s) = get_free_page s in
      if p = 0 then Some (-EAGAIN, s)
      else
        let s = set_task nr p s;
            s = upd_task p (\<lambda>_. child_task nr p r (last_pid s) (jiffies s) (cur s)) s
        in do {
          (err, s) \<leftarrow> copy_mem nr p s;
          if err \<noteq> 0 then do {
            s \<leftarrow> free_page p (set_task nr 0 s);
            Some (-EAGAIN, s) }
          else do {
            s \<leftarrow> for_range 0 NR_OPEN (\<lambda>i s. Some (case t_filp (tasks s p) i of
                None \<Rightarrow> s
              | Some f \<Rightarrow> upd_file f (\<lambda>x. x\<lparr>f_count := f_count x + 1\<rparr>) s)) s;
            let s = inc_inode (t_pwd (cur s)) s;
            let s = inc_inode (t_root (cur s)) s;
            let s = inc_inode (t_executable (cur s)) s;
            let s = set_tss_desc (2 * nr + FIRST_TSS_ENTRY) (p + TSS_OFFSET) s;
            let s = set_ldt_desc (2 * nr + FIRST_LDT_ENTRY) (p + LDT_OFFSET) s;
            let s = set_state p TASK_RUNNING s;
            Some (last_pid s, s) } })"

primrec pid_used :: "int \<Rightarrow> 'a sched_state_scheme \<Rightarrow> nat \<Rightarrow> bool" where
  "pid_used n s 0 = False"
| "pid_used n s (Suc k) = (task s k \<noteq> 0 \<and> t_pid (tasks s (task s k)) = n \<or> pid_used n s k)"

partial_function (option) next_pid :: "'a sched_state_scheme \<Rightarrow> int \<Rightarrow> int option" where
  "next_pid s n =
     (let n = i32 (n + 1); n = (if n < 0 then 1 else n)
      in if pid_used n s NR_TASKS then next_pid s n else Some n)"

definition find_empty_process :: "'a sched_state_scheme \<Rightarrow> (int \<times> 'a sched_state_scheme) option" where
  "find_empty_process s = do {
     n \<leftarrow> next_pid s (last_pid s);
     let s = s\<lparr>last_pid := n\<rparr>;
     Some (case first_from (\<lambda>i. task s i = 0) 1 63 of None \<Rightarrow> -EAGAIN | Some i \<Rightarrow> int i, s) }"

text \<open>\<open>sys_fork\<close> (\<open>kernel/system_call.s\<close>): \<open>js 1f\<close> returns the error of \<open>find_empty_process\<close>.\<close>

definition sys_fork :: "regs \<Rightarrow> 'a fs_state_scheme \<Rightarrow> (int \<times> 'a fs_state_scheme) option" where
  "sys_fork r s = do {
     (nr, s) \<leftarrow> find_empty_process s;
     if nr < 0 then Some (nr, s) else copy_process (nat nr) r s }"

section \<open>Sending signals\<close>

definition send_sig :: "int \<Rightarrow> addr \<Rightarrow> bool \<Rightarrow> 'a sched_state_scheme \<Rightarrow> int \<times> 'a sched_state_scheme" where
  "send_sig sig p priv s =
     (if p = 0 \<or> sig < 1 \<or> sig > 32 then (-EINVAL, s)
      else if priv \<or> t_euid (cur s) = t_euid (tasks s p) \<or> suser s then
        (0, upd_task p (\<lambda>t. t\<lparr>t_signal := t_signal t OR sigbit (nat sig)\<rparr>) s)
      else (-EPERM, s))"

primrec kill_session :: "nat \<Rightarrow> 'a sched_state_scheme \<Rightarrow> 'a sched_state_scheme" where
  "kill_session 0 s = s"
| "kill_session (Suc n) s =
     (let p = task s (Suc n) in
      kill_session n (if p \<noteq> 0 \<and> t_session (tasks s p) = t_session (cur s)
        then upd_task p (\<lambda>t. t\<lparr>t_signal := t_signal t OR sigbit SIGHUP\<rparr>) s else s))"

text \<open>The four loops of \<open>sys_kill\<close> differ in the tasks they select and in \<open>priv\<close>.\<close>

primrec kill_loop ::
  "('a sched_state_scheme \<Rightarrow> addr \<Rightarrow> bool) \<Rightarrow> int \<Rightarrow> bool \<Rightarrow> nat \<Rightarrow> int
     \<Rightarrow> 'a sched_state_scheme \<Rightarrow> int \<times> 'a sched_state_scheme" where
  "kill_loop sel sig priv 0 retval s = (retval, s)"
| "kill_loop sel sig priv (Suc n) retval s =
     (if sel s (task s (Suc n)) then
        let (err, s) = send_sig sig (task s (Suc n)) priv s
        in kill_loop sel sig priv n (if err \<noteq> 0 then err else retval) s
      else kill_loop sel sig priv n retval s)"

definition sys_kill :: "int \<Rightarrow> int \<Rightarrow> 'a sched_state_scheme \<Rightarrow> int \<times> 'a sched_state_scheme" where
  "sys_kill npid sig s =
     (if npid = 0 then kill_loop (\<lambda>s p. p \<noteq> 0 \<and> t_pgrp (tasks s p) = t_pid (cur s)) sig True 63 0 s
      else if npid > 0 then kill_loop (\<lambda>s p. p \<noteq> 0 \<and> t_pid (tasks s p) = npid) sig False 63 0 s
      else if npid = -1 then kill_loop (\<lambda>s p. True) sig False 63 0 s
      else kill_loop (\<lambda>s p. p \<noteq> 0 \<and> t_pgrp (tasks s p) = - npid) sig False 63 0 s)"

section \<open>exit\<close>

definition release :: "addr \<Rightarrow> 'a sched_state_scheme \<Rightarrow> 'a sched_state_scheme option" where
  "release p s =
     (if p = 0 then Some s
      else case first_from (\<lambda>i. task s i = p) 1 63 of
        None \<Rightarrow> None
      | Some i \<Rightarrow> do { s \<leftarrow> free_page p (set_task i 0 s); schedule s })"

text \<open>\<open>tell_father\<close> yields whether the task has released itself, in which case \<open>schedule\<close> has switched away from it for
  good.\<close>

definition tell_father :: "int \<Rightarrow> 'a sched_state_scheme \<Rightarrow> (bool \<times> 'a sched_state_scheme) option" where
  "tell_father npid s =
     (case (if npid \<noteq> 0 then first_from (\<lambda>i. task s i \<noteq> 0 \<and> t_pid (tasks s (task s i)) = npid) 0 NR_TASKS else None) of
        Some i \<Rightarrow> Some (False, upd_task (task s i) (\<lambda>t. t\<lparr>t_signal := t_signal t OR sigbit SIGCHLD\<rparr>) s)
      | None \<Rightarrow> do { s \<leftarrow> release (current s) s; Some (True, s) })"

definition adopt_children :: "'a sched_state_scheme \<Rightarrow> 'a sched_state_scheme option" where
  "adopt_children s = for_range 0 NR_TASKS (\<lambda>i s.
     Some (let p = task s i in
       if p \<noteq> 0 \<and> t_father (tasks s p) = t_pid (cur s) then
         let s = upd_task p (t_father_update (\<lambda>_. 1)) s
         in if t_state (tasks s p) = TASK_ZOMBIE then snd (send_sig (int SIGCHLD) (task s 1) True s) else s
       else s)) s"

text \<open>\<open>do_exit\<close> never returns to its caller; the result is the state in which the next task runs.\<close>

definition do_exit :: "int \<Rightarrow> 'a fs_state_scheme \<Rightarrow> 'a fs_state_scheme option" where
  "do_exit code s = do {
     (r, s) \<leftarrow> free_page_tables (get_base (t_ldt (cur s) 1)) (get_limit (t_ldt (cur s) 1)) s;
     (r, s) \<leftarrow> free_page_tables (get_base (t_ldt (cur s) 2)) (get_limit (t_ldt (cur s) 2)) s;
     s \<leftarrow> adopt_children s;
     s \<leftarrow> for_range 0 NR_OPEN (\<lambda>i s.
       if t_filp (cur s) i \<noteq> None then do { (r, s) \<leftarrow> sys_close (of_nat i) s; Some s } else Some s) s;
     s \<leftarrow> iput (t_pwd (cur s)) s;
     let s = upd_task (current s) (t_pwd_update (\<lambda>_. None)) s;
     s \<leftarrow> iput (t_root (cur s)) s;
     let s = upd_task (current s) (t_root_update (\<lambda>_. None)) s;
     s \<leftarrow> iput (t_executable (cur s)) s;
     let s = upd_task (current s) (t_executable_update (\<lambda>_. None)) s;
     let s = (if t_leader (cur s) \<noteq> 0 \<and> t_tty (cur s) \<ge> 0
              then s\<lparr>tty_pgrp := (tty_pgrp s)(nat (t_tty (cur s)) := 0)\<rparr> else s);
     let s = (if last_task_used_math s = current s then s\<lparr>last_task_used_math := 0\<rparr> else s);
     let s = (if t_leader (cur s) \<noteq> 0 then kill_session 63 s else s);
     let s = upd_task (current s) (\<lambda>t. t\<lparr>t_state := TASK_ZOMBIE, t_exit_code := code\<rparr>) s;
     (gone, s) \<leftarrow> tell_father (t_father (cur s)) s;
     if gone then Some s else schedule s }"

definition sys_exit :: "int \<Rightarrow> 'a fs_state_scheme \<Rightarrow> 'a fs_state_scheme option" where
  "sys_exit error_code s = do_exit ((error_code mod 256) * 256) s"

text \<open>\<open>waitpid\<close>: one scan of the task table. The call returns, or it has released a zombie and given up the
  processor (then \<open>waitpid_reaped\<close> follows), or it sleeps (then \<open>waitpid_resume\<close> follows).\<close>

datatype wait_result = Wait_returned int | Wait_reaped int int | Wait_sleeps

definition wait_selects :: "int \<Rightarrow> addr \<Rightarrow> 'a sched_state_scheme \<Rightarrow> bool" where
  "wait_selects npid p s \<longleftrightarrow> p \<noteq> 0 \<and> p \<noteq> current s \<and> t_father (tasks s p) = t_pid (cur s) \<and>
     (if npid > 0 then t_pid (tasks s p) = npid
      else if npid = 0 then t_pgrp (tasks s p) = t_pgrp (cur s)
      else if npid \<noteq> -1 then t_pgrp (tasks s p) = - npid
      else True)"

primrec wait_scan ::
  "int \<Rightarrow> u32 \<Rightarrow> u32 \<Rightarrow> nat \<Rightarrow> bool \<Rightarrow> 'a sched_state_scheme \<Rightarrow> (wait_result \<times> 'a sched_state_scheme) option" where
  "wait_scan npid stat_addr options 0 flag s =
     (if flag then
        (if options AND 1 \<noteq> 0 then Some (Wait_returned 0, s)
         else do {
           s \<leftarrow> schedule (set_state (current s) TASK_INTERRUPTIBLE s);
           Some (Wait_sleeps, s) })
      else Some (Wait_returned (-ECHILD), s))"
| "wait_scan npid stat_addr options (Suc n) flag s =
     (let p = task s (Suc n); t = tasks s p in
      if \<not> wait_selects npid p s then wait_scan npid stat_addr options n flag s
      else if t_state t = TASK_STOPPED then
        (if options AND 2 = 0 then wait_scan npid stat_addr options n flag s
         else Some (Wait_returned (t_pid t), put_fs_long 0x7f stat_addr s))
      else if t_state t = TASK_ZOMBIE then do {
        let s = upd_task (current s) (\<lambda>c. c\<lparr>t_cutime := i32 (t_cutime c + t_utime t),
          t_cstime := i32 (t_cstime c + t_stime t)\<rparr>) s;
        s \<leftarrow> release p s;
        Some (Wait_reaped (t_pid t) (t_exit_code t), s) }
      else wait_scan npid stat_addr options n True s)"

definition sys_waitpid ::
  "int \<Rightarrow> u32 \<Rightarrow> u32 \<Rightarrow> 'a sched_state_scheme \<Rightarrow> (wait_result \<times> 'a sched_state_scheme) option" where
  "sys_waitpid npid stat_addr options s = do {
     s \<leftarrow> verify_area stat_addr 4 s;
     wait_scan npid stat_addr options 63 False s }"

definition waitpid_reaped :: "int \<Rightarrow> int \<Rightarrow> u32 \<Rightarrow> 'a sched_state_scheme \<Rightarrow> int \<times> 'a sched_state_scheme" where
  "waitpid_reaped flag code stat_addr s = (flag, put_fs_long (word_of_int code) stat_addr s)"

text \<open>After the sleep: \<open>if (!(current->signal &= ~(1<<(SIGCHLD-1)))) goto repeat; else return -EINTR;\<close>\<close>

definition waitpid_resume ::
  "int \<Rightarrow> u32 \<Rightarrow> u32 \<Rightarrow> 'a sched_state_scheme \<Rightarrow> (wait_result \<times> 'a sched_state_scheme) option" where
  "waitpid_resume npid stat_addr options s =
     (let s = upd_task (current s) (\<lambda>t. t\<lparr>t_signal := t_signal t AND NOT (sigbit SIGCHLD)\<rparr>) s in
      if t_signal (cur s) = 0 then wait_scan npid stat_addr options 63 False s
      else Some (Wait_returned (-EINTR), s))"

section \<open>Signal handling\<close>

definition sys_sgetmask :: "'a sched_state_scheme \<Rightarrow> int" where
  "sys_sgetmask s = sint (t_blocked (cur s))"

definition sys_ssetmask :: "int \<Rightarrow> 'a sched_state_scheme \<Rightarrow> int \<times> 'a sched_state_scheme" where
  "sys_ssetmask newmask s = (sint (t_blocked (cur s)),
     upd_task (current s) (t_blocked_update (\<lambda>_. word_of_int newmask AND NOT (sigbit SIGKILL))) s)"

abbreviation (input) SA_NOMASK :: u32 where "SA_NOMASK \<equiv> 0x40000000"
abbreviation (input) SA_ONESHOT :: u32 where "SA_ONESHOT \<equiv> 0x80000000"

text \<open>\<open>struct sigaction\<close> as 16 bytes in user memory.\<close>

definition get_sigaction :: "u32 \<Rightarrow> 'a sched_state_scheme \<Rightarrow> sigaction" where
  "get_sigaction a s = \<lparr>sa_handler = get_fs_long a s, sa_mask = get_fs_long (a + 4) s,
     sa_flags = get_fs_long (a + 8) s, sa_restorer = get_fs_long (a + 12) s\<rparr>"

definition put_sigaction :: "sigaction \<Rightarrow> u32 \<Rightarrow> 'a sched_state_scheme \<Rightarrow> 'a sched_state_scheme" where
  "put_sigaction sa a s = put_fs_long (sa_restorer sa) (a + 12) (put_fs_long (sa_flags sa) (a + 8)
     (put_fs_long (sa_mask sa) (a + 4) (put_fs_long (sa_handler sa) a s)))"

definition save_old :: "sigaction \<Rightarrow> u32 \<Rightarrow> 'a sched_state_scheme \<Rightarrow> 'a sched_state_scheme option" where
  "save_old sa a s = do { s \<leftarrow> verify_area a 16 s; Some (put_sigaction sa a s) }"

definition set_sigaction :: "nat \<Rightarrow> sigaction \<Rightarrow> 'a sched_state_scheme \<Rightarrow> 'a sched_state_scheme" where
  "set_sigaction k sa s = upd_task (current s) (\<lambda>t. t\<lparr>t_sigaction := (t_sigaction t)(k := sa)\<rparr>) s"

definition sys_signal :: "int \<Rightarrow> u32 \<Rightarrow> u32 \<Rightarrow> 'a sched_state_scheme \<Rightarrow> int \<times> 'a sched_state_scheme" where
  "sys_signal signum handler restorer s =
     (if signum < 1 \<or> signum > 32 \<or> signum = int SIGKILL then (-1, s)
      else
        let k = nat signum - 1 in
        (sint (sa_handler (t_sigaction (cur s) k)),
         set_sigaction k \<lparr>sa_handler = handler, sa_mask = 0, sa_flags = SA_ONESHOT OR SA_NOMASK,
           sa_restorer = restorer\<rparr> s))"

definition sys_sigaction ::
  "int \<Rightarrow> u32 \<Rightarrow> u32 \<Rightarrow> 'a sched_state_scheme \<Rightarrow> (int \<times> 'a sched_state_scheme) option" where
  "sys_sigaction signum action oldaction s =
     (if signum < 1 \<or> signum > 32 \<or> signum = int SIGKILL then Some (-1, s)
      else do {
        let k = nat signum - 1;
        let old = t_sigaction (cur s) k;
        let s = set_sigaction k (get_sigaction action s) s;
        s \<leftarrow> (if oldaction \<noteq> 0 then save_old old oldaction s else Some s);
        let sa = t_sigaction (cur s) k;
        Some (0, set_sigaction k (if sa_flags sa AND SA_NOMASK \<noteq> 0 then sa\<lparr>sa_mask := 0\<rparr>
          else sa\<lparr>sa_mask := sa_mask sa OR sigbit (nat signum)\<rparr>) s) })"

text \<open>\<open>do_signal\<close> changes the return frame of the system call: it yields the new \<open>eip\<close> and \<open>esp\<close>, unless the
  task was killed, when the state is that of the next task.\<close>

datatype signal_result = Delivered u32 u32 | Killed

primrec push_longs :: "u32 list \<Rightarrow> u32 \<Rightarrow> 'a sched_state_scheme \<Rightarrow> 'a sched_state_scheme" where
  "push_longs [] a s = s"
| "push_longs (v # vs) a s = push_longs vs (a + 4) (put_fs_long v a s)"

definition do_signal ::
  "int \<Rightarrow> u32 \<Rightarrow> u32 \<Rightarrow> u32 \<Rightarrow> u32 \<Rightarrow> u32 \<Rightarrow> u32 \<Rightarrow> 'a fs_state_scheme \<Rightarrow> (signal_result \<times> 'a fs_state_scheme) option"
  where
  "do_signal signr eax ecx edx eip eflags esp s =
     (let k = nat signr - 1; sa = t_sigaction (cur s) k in
      if sa_handler sa = 1 then Some (Delivered eip esp, s)
      else if sa_handler sa = 0 then
        (if signr = int SIGCHLD then Some (Delivered eip esp, s)
         else do { s \<leftarrow> do_exit (sint (sigbit (nat signr))) s; Some (Killed, s) })
      else do {
        let s = (if sa_flags sa AND SA_ONESHOT \<noteq> 0 then set_sigaction k (sa\<lparr>sa_handler := 0\<rparr>) s else s);
        let nomask = (sa_flags sa AND SA_NOMASK \<noteq> 0);
        let longs = (if nomask then 7 else 8);
        let esp = esp - 4 * of_nat longs;
        s \<leftarrow> verify_area esp (int (longs * 4)) s;
        let s = push_longs ([sa_restorer sa, word_of_int signr] @ (if nomask then [] else [t_blocked (cur s)])
          @ [eax, ecx, edx, eflags, eip]) esp s;
        Some (Delivered (sa_handler sa) esp,
          upd_task (current s) (\<lambda>t. t\<lparr>t_blocked := t_blocked t OR sa_mask sa\<rparr>) s) })"

end
