(* ===== verification/Sys.thy ===== *)
theory Sys
  imports Process
begin

text \<open>
  The system calls of \<open>kernel/sys.c\<close>.
\<close>

section \<open>Calls that are not implemented\<close>

definition sys_ftime :: int where "sys_ftime = - ENOSYS"
definition sys_break :: int where "sys_break = - ENOSYS"
definition sys_ptrace :: int where "sys_ptrace = - ENOSYS"
definition sys_stty :: int where "sys_stty = - ENOSYS"
definition sys_gtty :: int where "sys_gtty = - ENOSYS"
definition sys_rename :: int where "sys_rename = - ENOSYS"
definition sys_prof :: int where "sys_prof = - ENOSYS"
definition sys_acct :: int where "sys_acct = - ENOSYS"
definition sys_phys :: int where "sys_phys = - ENOSYS"
definition sys_lock :: int where "sys_lock = - ENOSYS"
definition sys_mpx :: int where "sys_mpx = - ENOSYS"
definition sys_ulimit :: int where "sys_ulimit = - ENOSYS"

section \<open>User and group identities\<close>

text \<open>\<open>sys_setregid\<close> returns on the first refusal, with the changes made so far.\<close>

definition sys_setregid :: "int \<Rightarrow> int \<Rightarrow> 'a sched_state_scheme \<Rightarrow> int \<times> 'a sched_state_scheme" where
  "sys_setregid rgid egid s =
     (if rgid > 0 \<and> \<not> (uint (t_gid (cur s)) = rgid \<or> suser s) then (-EPERM, s)
      else
        let s = (if rgid > 0 then upd_task (current s) (t_gid_update (\<lambda>_. word_of_int rgid)) s else s) in
        if egid > 0 then
          (if uint (t_gid (cur s)) = egid \<or> uint (t_egid (cur s)) = egid \<or> uint (t_sgid (cur s)) = egid \<or> suser s
           then (0, upd_task (current s) (t_egid_update (\<lambda>_. word_of_int egid)) s)
           else (-EPERM, s))
        else (0, s))"

definition sys_setgid :: "int \<Rightarrow> 'a sched_state_scheme \<Rightarrow> int \<times> 'a sched_state_scheme" where
  "sys_setgid gid s = sys_setregid gid gid s"

definition sys_setreuid :: "int \<Rightarrow> int \<Rightarrow> 'a sched_state_scheme \<Rightarrow> int \<times> 'a sched_state_scheme" where
  "sys_setreuid ruid euid s =
     (let old_ruid = uint (t_uid (cur s)) in
      if ruid > 0 \<and> \<not> (uint (t_euid (cur s)) = ruid \<or> old_ruid = ruid \<or> suser s) then (-EPERM, s)
      else
        let s = (if ruid > 0 then upd_task (current s) (t_uid_update (\<lambda>_. word_of_int ruid)) s else s) in
        if euid > 0 then
          (if old_ruid = euid \<or> uint (t_euid (cur s)) = euid \<or> suser s
           then (0, upd_task (current s) (t_euid_update (\<lambda>_. word_of_int euid)) s)
           else (-EPERM, upd_task (current s) (t_uid_update (\<lambda>_. word_of_int old_ruid)) s))
        else (0, s))"

definition sys_setuid :: "int \<Rightarrow> 'a sched_state_scheme \<Rightarrow> int \<times> 'a sched_state_scheme" where
  "sys_setuid uid s = sys_setreuid uid uid s"

section \<open>Time\<close>

definition sys_time :: "u32 \<Rightarrow> 'a sched_state_scheme \<Rightarrow> (int \<times> 'a sched_state_scheme) option" where
  "sys_time tloc s =
     (let i = CURRENT_TIME s in
      if tloc \<noteq> 0 then do { s \<leftarrow> verify_area tloc 4 s; Some (i, put_fs_long (word_of_int i) tloc s) }
      else Some (i, s))"

definition sys_stime :: "u32 \<Rightarrow> 'a sched_state_scheme \<Rightarrow> int \<times> 'a sched_state_scheme" where
  "sys_stime tptr s =
     (if \<not> suser s then (-EPERM, s)
      else (0, s\<lparr>startup_time := i32 (uint (get_fs_long tptr s) - cdiv (jiffies s) HZ)\<rparr>))"

definition sys_times :: "u32 \<Rightarrow> 'a sched_state_scheme \<Rightarrow> (int \<times> 'a sched_state_scheme) option" where
  "sys_times tbuf s = do {
     s \<leftarrow> (if tbuf \<noteq> 0 then do {
         s \<leftarrow> verify_area tbuf 16 s;
         let t = cur s;
         Some (put_fs_long (word_of_int (t_cstime t)) (tbuf + 12) (put_fs_long (word_of_int (t_cutime t)) (tbuf + 8)
           (put_fs_long (word_of_int (t_stime t)) (tbuf + 4) (put_fs_long (word_of_int (t_utime t)) tbuf s)))) }
       else Some s);
     Some (jiffies s, s) }"

section \<open>Memory, groups and sessions\<close>

definition sys_brk :: "u32 \<Rightarrow> 'a sched_state_scheme \<Rightarrow> int \<times> 'a sched_state_scheme" where
  "sys_brk end_data_seg s =
     (let s = (if end_data_seg \<ge> t_end_code (cur s) \<and> end_data_seg < t_start_stack (cur s) - 16384
               then upd_task (current s) (t_brk_update (\<lambda>_. end_data_seg)) s else s)
      in (sint (t_brk (cur s)), s))"

definition sys_setpgid :: "int \<Rightarrow> int \<Rightarrow> 'a sched_state_scheme \<Rightarrow> int \<times> 'a sched_state_scheme" where
  "sys_setpgid npid pgid s =
     (let npid = (if npid = 0 then t_pid (cur s) else npid);
          pgid = (if pgid = 0 then t_pid (cur s) else pgid) in
      case first_from (\<lambda>i. task s i \<noteq> 0 \<and> t_pid (tasks s (task s i)) = npid) 0 NR_TASKS of
        None \<Rightarrow> (-ESRCH, s)
      | Some i \<Rightarrow>
          let p = task s i in
          if t_leader (tasks s p) \<noteq> 0 then (-EPERM, s)
          else if t_session (tasks s p) \<noteq> t_session (cur s) then (-EPERM, s)
          else (0, upd_task p (t_pgrp_update (\<lambda>_. pgid)) s))"

definition sys_getpgrp :: "'a sched_state_scheme \<Rightarrow> int" where
  "sys_getpgrp s = t_pgrp (cur s)"

definition sys_setsid :: "'a sched_state_scheme \<Rightarrow> int \<times> 'a sched_state_scheme" where
  "sys_setsid s =
     (if t_leader (cur s) \<noteq> 0 \<and> \<not> suser s then (-EPERM, s)
      else
        let s = upd_task (current s) (\<lambda>t. t\<lparr>t_leader := 1, t_session := t_pid t, t_pgrp := t_pid t, t_tty := -1\<rparr>) s
        in (t_pgrp (cur s), s))"

text \<open>\<open>thisname\<close> of \<open>sys_uname\<close>: five strings of eight characters and a final zero.\<close>

definition thisname :: "u8 list" where
  "thisname = concat (map (\<lambda>w. map of_char w @ [0])
     [''linux .0'', ''nodename'', ''release '', ''version '', ''machine ''])"

definition sys_uname :: "u32 \<Rightarrow> 'a sched_state_scheme \<Rightarrow> (int \<times> 'a sched_state_scheme) option" where
  "sys_uname name s =
     (if name = 0 then Some (- ERROR, s)
      else do {
        s \<leftarrow> verify_area name 45 s;
        Some (0, to_user 45 (\<lambda>k. thisname ! k) 0 name s) })"

definition sys_umask :: "int \<Rightarrow> 'a sched_state_scheme \<Rightarrow> int \<times> 'a sched_state_scheme" where
  "sys_umask msk s = (uint (t_umask (cur s)),
     upd_task (current s) (t_umask_update (\<lambda>_. word_of_int msk AND 0x1ff)) s)"

end
