(* ===== verification/Ramdisk.thy ===== *)
theory Ramdisk
  imports Super
begin

text \<open>
  Loading the RAM disk at start-up (\<open>rd_load\<close> of \<open>kernel/blk_drv/ramdisk.c\<close>): the image that follows the
  kernel on the boot floppy is copied block by block, and the RAM disk becomes the root device.
  Messages are left out. A shift count is taken modulo 32, as the processor does.
\<close>

text \<open>\<open>while (nblocks)\<close>: \<open>Some (True, _)\<close> when all blocks were copied, \<open>Some (False, _)\<close> when one could not be
  read. \<open>cp\<close> is the offset from \<open>rd_start\<close>.\<close>

partial_function (option) load_blocks ::
  "int \<Rightarrow> int \<Rightarrow> nat \<Rightarrow> 'a fs_state_scheme \<Rightarrow> (bool \<times> 'a fs_state_scheme) option" where
  "load_blocks nblocks block cp s =
     (if nblocks = 0 then Some (True, s)
      else do {
        (bh, s) \<leftarrow> (if nblocks > 2 then breada (ROOT_DEV s) block [block + 1, block + 2] s else bread (ROOT_DEV s) block s);
        case bh of
          None \<Rightarrow> Some (False, s)
        | Some b \<Rightarrow> do {
            let d = b_data (buffers s b);
            let s = s\<lparr>rd_mem := (\<lambda>i. if cp \<le> i \<and> i < cp + BLOCK_SIZE then d (i - cp) else rd_mem s i)\<rparr>;
            s \<leftarrow> brelse (Some b) s;
            load_blocks (i32 (nblocks - 1)) (i32 (block + 1)) (cp + BLOCK_SIZE) s } })"

definition rd_load :: "'a fs_state_scheme \<Rightarrow> 'a fs_state_scheme option" where
  "rd_load s =
     (if rd_length s = 0 \<or> MAJOR (ROOT_DEV s) \<noteq> 2 then Some s
      else do {
        (bh, s) \<leftarrow> breada (ROOT_DEV s) 257 [256, 258] s;
        case bh of
          None \<Rightarrow> Some s
        | Some b \<Rightarrow> do {
            let sb = get_d_super (b_data (buffers s b)) zero_super;
            s \<leftarrow> brelse (Some b) s;
            let nblocks = i32 (push_bit (unat (s_log_zone_size sb) mod 32) (uint (s_nzones sb)));
            if s_magic sb \<noteq> SUPER_MAGIC \<or> nblocks > rd_length s div 1024 then Some s
            else do {
              (ok, s) \<leftarrow> load_blocks nblocks 256 0 s;
              Some (if ok then s\<lparr>ROOT_DEV := 0x0101\<rparr> else s) } } })"

end
