(* ===== verification/Ctype.thy ===== *)
theory Ctype
  imports Kernel_Prelude
begin

text \<open>
  Character classes (\<open>include/ctype.h\<close>, \<open>lib/ctype.c\<close>). The table has an entry for \<open>EOF\<close> (-1) and one for
  each byte. The macros index it with a \<open>char\<close>, which is signed on the i386: for the codes below -1 they
  read memory in front of the table, whose contents the source does not fix. That memory is the argument
  \<open>below\<close> of the macros.
\<close>

abbreviation (input) ct_U :: u8 where "ct_U \<equiv> 0x01"
abbreviation (input) ct_L :: u8 where "ct_L \<equiv> 0x02"
abbreviation (input) ct_D :: u8 where "ct_D \<equiv> 0x04"
abbreviation (input) ct_C :: u8 where "ct_C \<equiv> 0x08"
abbreviation (input) ct_P :: u8 where "ct_P \<equiv> 0x10"
abbreviation (input) ct_S :: u8 where "ct_S \<equiv> 0x20"
abbreviation (input) ct_X :: u8 where "ct_X \<equiv> 0x40"
abbreviation (input) ct_SP :: u8 where "ct_SP \<equiv> 0x80"

definition ctype_table :: "u8 list" where
  "ctype_table =
     [0,
      ct_C, ct_C, ct_C, ct_C, ct_C, ct_C, ct_C, ct_C,
      ct_C, ct_C OR ct_S, ct_C OR ct_S, ct_C OR ct_S, ct_C OR ct_S, ct_C OR ct_S, ct_C, ct_C,
      ct_C, ct_C, ct_C, ct_C, ct_C, ct_C, ct_C, ct_C,
      ct_C, ct_C, ct_C, ct_C, ct_C, ct_C, ct_C, ct_C,
      ct_S OR ct_SP, ct_P, ct_P, ct_P, ct_P, ct_P, ct_P, ct_P,
      ct_P, ct_P, ct_P, ct_P, ct_P, ct_P, ct_P, ct_P,
      ct_D, ct_D, ct_D, ct_D, ct_D, ct_D, ct_D, ct_D,
      ct_D, ct_D, ct_P, ct_P, ct_P, ct_P, ct_P, ct_P,
      ct_P, ct_U OR ct_X, ct_U OR ct_X, ct_U OR ct_X, ct_U OR ct_X, ct_U OR ct_X, ct_U OR ct_X, ct_U,
      ct_U, ct_U, ct_U, ct_U, ct_U, ct_U, ct_U, ct_U,
      ct_U, ct_U, ct_U, ct_U, ct_U, ct_U, ct_U, ct_U,
      ct_U, ct_U, ct_U, ct_P, ct_P, ct_P, ct_P, ct_P,
      ct_P, ct_L OR ct_X, ct_L OR ct_X, ct_L OR ct_X, ct_L OR ct_X, ct_L OR ct_X, ct_L OR ct_X, ct_L,
      ct_L, ct_L, ct_L, ct_L, ct_L, ct_L, ct_L, ct_L,
      ct_L, ct_L, ct_L, ct_L, ct_L, ct_L, ct_L, ct_L,
      ct_L, ct_L, ct_L, ct_P, ct_P, ct_P, ct_P, ct_C]
     @ replicate 128 0"

text \<open>\<open>(_ctype + 1)[c]\<close>.\<close>

definition ctype_at :: "(int \<Rightarrow> u8) \<Rightarrow> int \<Rightarrow> u8" where
  "ctype_at below c = (if c < -1 then below c else ctype_table ! nat (c + 1))"

definition isalnum :: "(int \<Rightarrow> u8) \<Rightarrow> int \<Rightarrow> bool" where
  "isalnum below c \<longleftrightarrow> ctype_at below c AND (ct_U OR ct_L OR ct_D) \<noteq> 0"
definition isalpha :: "(int \<Rightarrow> u8) \<Rightarrow> int \<Rightarrow> bool" where
  "isalpha below c \<longleftrightarrow> ctype_at below c AND (ct_U OR ct_L) \<noteq> 0"
definition iscntrl :: "(int \<Rightarrow> u8) \<Rightarrow> int \<Rightarrow> bool" where
  "iscntrl below c \<longleftrightarrow> ctype_at below c AND ct_C \<noteq> 0"
definition isdigit :: "(int \<Rightarrow> u8) \<Rightarrow> int \<Rightarrow> bool" where
  "isdigit below c \<longleftrightarrow> ctype_at below c AND ct_D \<noteq> 0"
definition isgraph :: "(int \<Rightarrow> u8) \<Rightarrow> int \<Rightarrow> bool" where
  "isgraph below c \<longleftrightarrow> ctype_at below c AND (ct_P OR ct_U OR ct_L OR ct_D) \<noteq> 0"
definition islower :: "(int \<Rightarrow> u8) \<Rightarrow> int \<Rightarrow> bool" where
  "islower below c \<longleftrightarrow> ctype_at below c AND ct_L \<noteq> 0"
definition isprint :: "(int \<Rightarrow> u8) \<Rightarrow> int \<Rightarrow> bool" where
  "isprint below c \<longleftrightarrow> ctype_at below c AND (ct_P OR ct_U OR ct_L OR ct_D OR ct_SP) \<noteq> 0"
definition ispunct :: "(int \<Rightarrow> u8) \<Rightarrow> int \<Rightarrow> bool" where
  "ispunct below c \<longleftrightarrow> ctype_at below c AND ct_P \<noteq> 0"
definition isspace :: "(int \<Rightarrow> u8) \<Rightarrow> int \<Rightarrow> bool" where
  "isspace below c \<longleftrightarrow> ctype_at below c AND ct_S \<noteq> 0"
definition isupper :: "(int \<Rightarrow> u8) \<Rightarrow> int \<Rightarrow> bool" where
  "isupper below c \<longleftrightarrow> ctype_at below c AND ct_U \<noteq> 0"
definition isxdigit :: "(int \<Rightarrow> u8) \<Rightarrow> int \<Rightarrow> bool" where
  "isxdigit below c \<longleftrightarrow> ctype_at below c AND (ct_D OR ct_X) \<noteq> 0"

definition isascii :: "int \<Rightarrow> bool" where
  "isascii c \<longleftrightarrow> (word_of_int c :: u32) \<le> 0x7f"

definition toascii :: "int \<Rightarrow> u32" where
  "toascii c = word_of_int c AND 0x7f"

text \<open>The argument goes through the variable \<open>_ctmp\<close>, a \<open>char\<close>.\<close>

definition ctmp :: "int \<Rightarrow> int" where
  "ctmp c = signed_take_bit 7 c"

definition tolower :: "(int \<Rightarrow> u8) \<Rightarrow> int \<Rightarrow> int" where
  "tolower below c = (if isupper below (ctmp c) then ctmp c - (65 - 97) else ctmp c)"

definition toupper :: "(int \<Rightarrow> u8) \<Rightarrow> int \<Rightarrow> int" where
  "toupper below c = (if islower below (ctmp c) then ctmp c - (97 - 65) else ctmp c)"

lemmas ctype_defs = isalnum_def isalpha_def iscntrl_def isdigit_def isgraph_def islower_def isprint_def
  ispunct_def isspace_def isupper_def isxdigit_def

lemma ctmp_id [simp]: "- 128 \<le> c \<Longrightarrow> c \<le> 127 \<Longrightarrow> ctmp c = c"
  unfolding ctmp_def by (rule signed_take_bit_int_eq_self) simp_all

lemma length_ctype_table: "length ctype_table = 257"
  by (simp add: ctype_table_def)

text \<open>The table agrees with the character ranges on the ASCII codes and \<open>EOF\<close>. \<open>classes\<close> is the table
  written with ranges.\<close>

definition classes :: "int \<Rightarrow> u8" where
  "classes c = (if 65 \<le> c \<and> c \<le> 90 then ct_U else 0) OR (if 97 \<le> c \<and> c \<le> 122 then ct_L else 0)
     OR (if 48 \<le> c \<and> c \<le> 57 then ct_D else 0) OR (if 0 \<le> c \<and> c < 32 \<or> c = 127 then ct_C else 0)
     OR (if 33 \<le> c \<and> c < 48 \<or> 58 \<le> c \<and> c < 65 \<or> 91 \<le> c \<and> c < 97 \<or> 123 \<le> c \<and> c < 127 then ct_P else 0)
     OR (if 9 \<le> c \<and> c \<le> 13 \<or> c = 32 then ct_S else 0)
     OR (if 65 \<le> c \<and> c \<le> 70 \<or> 97 \<le> c \<and> c \<le> 102 then ct_X else 0) OR (if c = 32 then ct_SP else 0)"

lemma ctype_table_upto: "ctype_table = map (\<lambda>n. classes (int n - 1)) [0..<257]"
  by code_simp

lemma ctype_at_classes: "- 1 \<le> c \<Longrightarrow> c \<le> 255 \<Longrightarrow> ctype_at below c = classes c"
proof -
  assume c: "- 1 \<le> c" "c \<le> 255"
  then have "nat (c + 1) < 257" by simp
  then show ?thesis using c by (simp add: ctype_at_def ctype_table_upto nth_map del: upt_Suc)
qed

lemma isupper_range: "- 1 \<le> c \<Longrightarrow> c \<le> 255 \<Longrightarrow> isupper below c \<longleftrightarrow> 65 \<le> c \<and> c \<le> 90"
  by (auto simp: isupper_def ctype_at_classes classes_def)

lemma islower_range: "- 1 \<le> c \<Longrightarrow> c \<le> 255 \<Longrightarrow> islower below c \<longleftrightarrow> 97 \<le> c \<and> c \<le> 122"
  by (auto simp: islower_def ctype_at_classes classes_def)

text \<open>C16: On \<open>EOF\<close> and every byte value the classification macros agree with the character ranges of ASCII;
  \<open>isalnum\<close>, \<open>isgraph\<close> and \<open>isprint\<close> are the unions of the classes they are made of.\<close>

theorem ctype_ranges:
  assumes "- 1 \<le> c" "c \<le> 255"
  shows "isupper below c = (65 \<le> c \<and> c \<le> 90) \<and> islower below c = (97 \<le> c \<and> c \<le> 122)
    \<and> isdigit below c = (48 \<le> c \<and> c \<le> 57) \<and> isxdigit below c = (48 \<le> c \<and> c \<le> 57 \<or> 65 \<le> c \<and> c \<le> 70 \<or> 97 \<le> c \<and> c \<le> 102)
    \<and> iscntrl below c = (0 \<le> c \<and> c < 32 \<or> c = 127) \<and> isspace below c = (9 \<le> c \<and> c \<le> 13 \<or> c = 32)
    \<and> isalpha below c = (isupper below c \<or> islower below c) \<and> isalnum below c = (isalpha below c \<or> isdigit below c)
    \<and> isgraph below c = (32 < c \<and> c < 127) \<and> isprint below c = (32 \<le> c \<and> c < 127)
    \<and> ispunct below c = (isgraph below c \<and> \<not> isalnum below c)"
  unfolding ctype_defs ctype_at_classes [OF assms] classes_def by (intro conjI) (auto split: if_splits)

theorem ctype_ranges_witness:
  "isxdigit (\<lambda>_. 0) 70 \<and> \<not> isxdigit (\<lambda>_. 0) 71 \<and> \<not> isspace (\<lambda>_. 0) (-1) \<and> ispunct (\<lambda>_. 0) 126"
  using ctype_ranges [of 70 "\<lambda>_. 0"] ctype_ranges [of 71 "\<lambda>_. 0"] ctype_ranges [of "-1" "\<lambda>_. 0"]
    ctype_ranges [of 126 "\<lambda>_. 0"] by simp

end
