(* ===== verification/Tty_Queue.thy ===== *)
theory Tty_Queue
  imports Fs_State Ctype
begin

text \<open>
  The data of \<open>include/linux/tty.h\<close> and \<open>include/termios.h\<close>: ring buffers of 1024 characters, terminal
  settings and \<open>struct tty_struct\<close>. A queue keeps one slot free, so it holds at most 1023 characters; the
  macros themselves do not test for room. \<open>data\<close> is a port number for the queues of the serial lines and
  the number of complete lines for the \<open>secondary\<close> queues.

  \<open>chars_of\<close> reads a queue as a list; the locale \<open>char_queue\<close> states what the line discipline needs of it.
\<close>

section \<open>Queues\<close>

record tty_queue =
  q_data :: u32
  q_head :: u32
  q_tail :: u32
  q_proc_list :: addr
  q_buf :: "nat \<Rightarrow> u8"

definition INC :: "u32 \<Rightarrow> u32" where "INC a = (a + 1) AND 1023"
definition DEC :: "u32 \<Rightarrow> u32" where "DEC a = (a - 1) AND 1023"

definition EMPTY :: "tty_queue \<Rightarrow> bool" where "EMPTY q \<longleftrightarrow> q_head q = q_tail q"
definition LEFT_OF :: "tty_queue \<Rightarrow> u32" where "LEFT_OF q = (q_tail q - q_head q - 1) AND 1023"
definition LAST_OF :: "tty_queue \<Rightarrow> u8" where "LAST_OF q = q_buf q (unat (1023 AND (q_head q - 1)))"
definition FULL :: "tty_queue \<Rightarrow> bool" where "FULL q \<longleftrightarrow> LEFT_OF q = 0"
definition CHARS :: "tty_queue \<Rightarrow> u32" where "CHARS q = (q_head q - q_tail q) AND 1023"

definition GETCH :: "tty_queue \<Rightarrow> u8 \<times> tty_queue" where
  "GETCH q = (q_buf q (unat (q_tail q)), q\<lparr>q_tail := INC (q_tail q)\<rparr>)"

definition PUTCH :: "u8 \<Rightarrow> tty_queue \<Rightarrow> tty_queue" where
  "PUTCH c q = q\<lparr>q_buf := (q_buf q)(unat (q_head q) := c), q_head := INC (q_head q)\<rparr>"

definition DEC_HEAD :: "tty_queue \<Rightarrow> tty_queue" where
  "DEC_HEAD q = q\<lparr>q_head := DEC (q_head q)\<rparr>"

definition empty_queue :: "u32 \<Rightarrow> tty_queue" where
  "empty_queue d = \<lparr>q_data = d, q_head = 0, q_tail = 0, q_proc_list = 0, q_buf = (\<lambda>_. 0)\<rparr>"

section \<open>Terminals\<close>

text \<open>\<open>struct termios\<close> has 36 bytes; the last two are padding and travel with it.\<close>

record termios =
  c_iflag :: u32
  c_oflag :: u32
  c_cflag :: u32
  c_lflag :: u32
  c_line :: u8
  c_cc :: "nat \<Rightarrow> u8"
  c_pad :: u16

abbreviation (input) VINTR :: nat where "VINTR \<equiv> 0"
abbreviation (input) VQUIT :: nat where "VQUIT \<equiv> 1"
abbreviation (input) VERASE :: nat where "VERASE \<equiv> 2"
abbreviation (input) VKILL :: nat where "VKILL \<equiv> 3"
abbreviation (input) VEOF :: nat where "VEOF \<equiv> 4"
abbreviation (input) VTIME :: nat where "VTIME \<equiv> 5"
abbreviation (input) VMIN :: nat where "VMIN \<equiv> 6"
abbreviation (input) VSTART :: nat where "VSTART \<equiv> 8"
abbreviation (input) VSTOP :: nat where "VSTOP \<equiv> 9"

text \<open>The flags of \<open>termios.h\<close> (octal there) as bit numbers.\<close>

abbreviation (input) b_INLCR :: nat where "b_INLCR \<equiv> 6"
abbreviation (input) b_IGNCR :: nat where "b_IGNCR \<equiv> 7"
abbreviation (input) b_ICRNL :: nat where "b_ICRNL \<equiv> 8"
abbreviation (input) b_IUCLC :: nat where "b_IUCLC \<equiv> 9"
abbreviation (input) b_OPOST :: nat where "b_OPOST \<equiv> 0"
abbreviation (input) b_OLCUC :: nat where "b_OLCUC \<equiv> 1"
abbreviation (input) b_ONLCR :: nat where "b_ONLCR \<equiv> 2"
abbreviation (input) b_OCRNL :: nat where "b_OCRNL \<equiv> 3"
abbreviation (input) b_ONLRET :: nat where "b_ONLRET \<equiv> 5"
abbreviation (input) b_ISIG :: nat where "b_ISIG \<equiv> 0"
abbreviation (input) b_ICANON :: nat where "b_ICANON \<equiv> 1"
abbreviation (input) b_ECHO :: nat where "b_ECHO \<equiv> 3"
abbreviation (input) b_ECHOCTL :: nat where "b_ECHOCTL \<equiv> 9"
abbreviation (input) b_ECHOKE :: nat where "b_ECHOKE \<equiv> 11"

record tty_struct =
  tty_termios :: termios
  tty_stopped :: bool
  read_q :: tty_queue
  write_q :: tty_queue
  secondary :: tty_queue

definition L_FLAG :: "nat \<Rightarrow> tty_struct \<Rightarrow> bool" where "L_FLAG n t \<longleftrightarrow> bit (c_lflag (tty_termios t)) n"
definition I_FLAG :: "nat \<Rightarrow> tty_struct \<Rightarrow> bool" where "I_FLAG n t \<longleftrightarrow> bit (c_iflag (tty_termios t)) n"
definition O_FLAG :: "nat \<Rightarrow> tty_struct \<Rightarrow> bool" where "O_FLAG n t \<longleftrightarrow> bit (c_oflag (tty_termios t)) n"

text \<open>A character read from a queue is a \<open>char\<close>, which is signed; the control characters in \<open>c_cc\<close> are
  \<open>unsigned char\<close>. C compares them as \<open>int\<close>s.\<close>

definition CC :: "nat \<Rightarrow> tty_struct \<Rightarrow> int" where "CC n t = uint (c_cc (tty_termios t) n)"

text \<open>\<open>INIT_C_CC\<close>, and the initial table: the console and two serial lines.\<close>

definition INIT_C_CC :: "nat \<Rightarrow> u8" where
  "INIT_C_CC i = (if i < 17 then [3, 28, 127, 21, 4, 0, 1, 0, 17, 19, 26, 0, 18, 15, 23, 22, 0] ! i else 0)"

definition init_tty :: "nat \<Rightarrow> tty_struct" where
  "init_tty n =
     (if n = 0 then
        \<lparr>tty_termios = \<lparr>c_iflag = 0x100, c_oflag = 0x5, c_cflag = 0, c_lflag = 0xA0B, c_line = 0, c_cc = INIT_C_CC, c_pad = 0\<rparr>,
         tty_stopped = False, read_q = empty_queue 0, write_q = empty_queue 0, secondary = empty_queue 0\<rparr>
      else
        let port = (if n = 1 then 0x3f8 else 0x2f8)
        in \<lparr>tty_termios = \<lparr>c_iflag = 0, c_oflag = 0, c_cflag = 0x3B, c_lflag = 0, c_line = 0, c_cc = INIT_C_CC, c_pad = 0\<rparr>,
            tty_stopped = False, read_q = empty_queue port, write_q = empty_queue port, secondary = empty_queue 0\<rparr>)"

section \<open>A queue as a list\<close>

text \<open>Head and tail below 1024, as the macros keep them; the characters from the tail to the head.\<close>

definition queue_ok :: "tty_queue \<Rightarrow> bool" where
  "queue_ok q \<longleftrightarrow> q_head q < 1024 \<and> q_tail q < 1024"

definition chars_of :: "tty_queue \<Rightarrow> u8 list" where
  "chars_of q = map (\<lambda>i. q_buf q ((unat (q_tail q) + i) mod 1024)) [0..<unat (CHARS q)]"

lemma and_1023: "unat (w AND 1023 :: u32) = unat w mod 1024"
proof -
  have "w AND 1023 = take_bit 10 w" by (simp add: take_bit_eq_mask mask_eq_exp_minus_1)
  then show ?thesis by (simp only: unsigned_take_bit_eq) (simp add: take_bit_eq_mod)
qed

lemma and_1023_less: "(w AND 1023 :: u32) < 1024"
  by (simp add: word_less_nat_alt and_1023)

lemma unat_INC: "a < 1024 \<Longrightarrow> unat (INC a) = (unat a + 1) mod 1024"
  by (simp add: INC_def and_1023 word_less_nat_alt unat_word_ariths)

lemma mod_1024_sub:
  assumes "unat a < 1024" "unat b < 1024"
  shows "unat (a - b :: u32) mod 1024 = (unat a + 1024 - unat b) mod 1024"
proof -
  have "unat (a - b) = (if unat b \<le> unat a then unat a - unat b else unat a + 4294967296 - unat b)"
    by (simp add: unat_sub_if' word_size)
  moreover have "(unat a + 4294967296 - unat b) mod 1024 = (unat a + 1024 - unat b) mod 1024" if "unat a < unat b"
  proof -
    have "unat a + 4294967296 - unat b = (unat a + 1024 - unat b) + 1024 * 4194303" using assms that by simp
    then show ?thesis by (metis mod_mult_self2)
  qed
  moreover have "(unat a - unat b) mod 1024 = (unat a + 1024 - unat b) mod 1024" if "unat b \<le> unat a"
    using that by (metis Nat.add_diff_assoc2 mod_add_self2)
  ultimately show ?thesis by auto
qed

lemma ring_diff:
  "h < 1024 \<Longrightarrow> t < 1024 \<Longrightarrow> (h + 1024 - t) mod 1024 = (if t \<le> h then h - t else h + 1024 - (t :: nat))"
  by (simp add: mod_if)

lemma ring_next: "h < 1024 \<Longrightarrow> Suc h mod 1024 = (if h = 1023 then 0 else h + (1 :: nat))"
  by (simp add: mod_if)

lemma ring_prev: "h < 1024 \<Longrightarrow> (h + 1023) mod 1024 = (if h = 0 then 1023 else h - (1 :: nat))"
  by (simp add: mod_if)

lemma unat_CHARS: "queue_ok q \<Longrightarrow> unat (CHARS q) = (unat (q_head q) + 1024 - unat (q_tail q)) mod 1024"
  by (simp add: CHARS_def and_1023 queue_ok_def word_less_nat_alt mod_1024_sub)

lemma length_chars_of [simp]: "length (chars_of q) = unat (CHARS q)"
  by (simp add: chars_of_def)

lemma chars_bound: "unat (CHARS q) < 1024"
  by (simp add: CHARS_def and_1023)

lemma queue_ok_put [simp]: "queue_ok q \<Longrightarrow> queue_ok (PUTCH c q)"
  by (simp add: queue_ok_def PUTCH_def INC_def and_1023_less)

lemma queue_ok_get [simp]: "queue_ok q \<Longrightarrow> queue_ok (snd (GETCH q))"
  by (simp add: queue_ok_def GETCH_def INC_def and_1023_less)

lemma queue_ok_dec [simp]: "queue_ok q \<Longrightarrow> queue_ok (DEC_HEAD q)"
  by (simp add: queue_ok_def DEC_HEAD_def DEC_def and_1023_less)

lemma queue_ok_empty [simp]: "queue_ok (empty_queue d)"
  by (simp add: queue_ok_def empty_queue_def)

lemma chars_of_empty [simp]: "chars_of (empty_queue d) = []"
  by (simp add: chars_of_def CHARS_def empty_queue_def)

text \<open>The macros on lists.\<close>

lemma EMPTY_chars: "queue_ok q \<Longrightarrow> EMPTY q \<longleftrightarrow> chars_of q = []"
proof -
  assume q: "queue_ok q"
  have "EMPTY q \<longleftrightarrow> unat (q_head q) = unat (q_tail q)" by (simp add: EMPTY_def word_unat_eq_iff)
  also have "\<dots> \<longleftrightarrow> unat (CHARS q) = 0"
    using q ring_diff [of "unat (q_head q)" "unat (q_tail q)"]
    by (simp only: unat_CHARS [OF q]) (auto simp: queue_ok_def word_less_nat_alt)
  finally show ?thesis by (metis length_0_conv length_chars_of)
qed

lemma unat_LEFT:
  assumes "queue_ok q"
  shows "unat (LEFT_OF q) = 1023 - unat (CHARS q)"
proof -
  let ?h = "unat (q_head q)" let ?t = "unat (q_tail q)"
  have b: "?h < 1024" "?t < 1024" using assms by (simp_all add: queue_ok_def word_less_nat_alt)
  have "unat (LEFT_OF q) = unat (q_tail q - (q_head q + 1)) mod 1024"
    by (simp add: LEFT_OF_def and_1023 algebra_simps)
  also have "\<dots> = (?t + 1023 - ?h) mod 1024"
  proof (cases "?h = 1023")
    case True
    have "q_tail q - (q_head q + 1) = q_tail q - 1024" 
    proof -
      have "q_head q = 1023" using True by (simp add: word_unat_eq_iff)
      then show ?thesis by simp
    qed
    moreover have "unat (q_tail q - 1024) mod 1024 = unat (q_tail q)"
    proof -
      have "unat (q_tail q - 1024) = unat (q_tail q) + 1024 * 4194303" using b by (simp add: unat_sub_if' word_size)
      then show ?thesis using b by (metis mod_less mod_mult_self2)
    qed
    ultimately show ?thesis using b True by simp
  next
    case False
    then have "unat (q_head q + 1) = ?h + 1" using b by (simp add: unat_word_ariths)
    then show ?thesis using mod_1024_sub [of "q_tail q" "q_head q + 1"] b False by (simp add: add.commute)
  qed
  also have "\<dots> = 1023 - (?h + 1024 - ?t) mod 1024"
  proof (cases "?t \<le> ?h")
    case True
    then have "(?h + 1024 - ?t) mod 1024 = ?h - ?t" "(?t + 1023 - ?h) mod 1024 = 1023 - (?h - ?t)"
      using b by (simp_all add: mod_if add.commute)
    then show ?thesis by simp
  next
    case False
    then have "(?h + 1024 - ?t) mod 1024 = ?h + 1024 - ?t" "(?t + 1023 - ?h) mod 1024 = ?t - ?h - 1"
      using b by (simp_all add: mod_if)
    then show ?thesis using False b by simp
  qed
  finally show ?thesis using assms by (simp add: unat_CHARS)
qed

lemma FULL_chars: "queue_ok q \<Longrightarrow> FULL q \<longleftrightarrow> length (chars_of q) = 1023"
  using chars_bound [of q] by (simp add: FULL_def unat_eq_zero [symmetric] unat_LEFT) linarith

lemma chars_of_get:
  assumes "queue_ok q" "\<not> EMPTY q"
  shows "chars_of q = fst (GETCH q) # chars_of (snd (GETCH q))"
proof -
  let ?h = "unat (q_head q)" let ?t = "unat (q_tail q)"
  have b: "?h < 1024" "?t < 1024" using assms by (simp_all add: queue_ok_def word_less_nat_alt)
  have ne: "?h \<noteq> ?t" using assms(2) by (simp add: EMPTY_def word_unat_eq_iff)
  have t: "unat (q_tail (snd (GETCH q))) = (?t + 1) mod 1024"
    using assms(1) by (simp add: GETCH_def unat_INC queue_ok_def)
  have n: "unat (CHARS q) = Suc (unat (CHARS (snd (GETCH q))))"
  proof -
    have "unat (CHARS (snd (GETCH q))) = (?h + 1024 - (?t + 1) mod 1024) mod 1024"
      using assms(1) by (simp add: unat_CHARS t) (simp add: GETCH_def)
    moreover have "unat (CHARS q) = (?h + 1024 - ?t) mod 1024" using assms(1) by (simp add: unat_CHARS)
    ultimately show ?thesis using b ne by (simp add: ring_diff ring_next split: if_splits)
  qed
  have "chars_of q = q_buf q ?t # map (\<lambda>i. q_buf q ((?t + Suc i) mod 1024)) [0..<unat (CHARS (snd (GETCH q)))]"
    using b by (simp add: chars_of_def n upt_conv_Cons map_Suc_upt [symmetric] comp_def del: upt_Suc)
  moreover have "(?t + Suc i) mod 1024 = ((?t + 1) mod 1024 + i) mod 1024" for i
    by (simp add: mod_simps)
  ultimately show ?thesis by (simp add: chars_of_def t) (simp add: GETCH_def)
qed

lemma chars_of_put:
  assumes "queue_ok q" "\<not> FULL q"
  shows "chars_of (PUTCH c q) = chars_of q @ [c]"
proof -
  let ?h = "unat (q_head q)" let ?t = "unat (q_tail q)" let ?n = "unat (CHARS q)"
  have b: "?h < 1024" "?t < 1024" using assms by (simp_all add: queue_ok_def word_less_nat_alt)
  have n: "?n < 1023" using FULL_chars [OF assms(1)] assms(2) chars_bound [of q] by simp
  have h: "?h = (?t + ?n) mod 1024"
    using b assms(1) by (simp add: unat_CHARS mod_simps)
  have n': "unat (CHARS (PUTCH c q)) = Suc ?n"
  proof -
    have "unat (CHARS (PUTCH c q)) = ((?h + 1) mod 1024 + 1024 - ?t) mod 1024"
      using assms(1) by (simp add: unat_CHARS) (simp add: PUTCH_def unat_INC queue_ok_def)
    moreover have "?n = (?h + 1024 - ?t) mod 1024" using assms(1) by (simp add: unat_CHARS)
    ultimately show ?thesis using b n by (simp add: ring_diff ring_next split: if_splits)
  qed
  have "(?t + i) mod 1024 \<noteq> ?h" if "i < ?n" for i
  proof
    assume "(?t + i) mod 1024 = ?h"
    then have "(?t + i) mod 1024 = (?t + ?n) mod 1024" using h by simp
    then have "1024 dvd ?t + ?n - (?t + i)" using that by (subst mod_eq_dvd_iff_nat [symmetric]) simp_all
    then show False using that n by (auto dest!: dvd_imp_le)
  qed
  then have "map (\<lambda>i. ((q_buf q)(?h := c)) ((?t + i) mod 1024)) [0..<?n] = chars_of q"
    by (simp add: chars_of_def)
  moreover have "q_tail (PUTCH c q) = q_tail q" "q_buf (PUTCH c q) = (q_buf q)(?h := c)" by (simp_all add: PUTCH_def)
  ultimately show ?thesis using h by (simp add: chars_of_def n')
qed

lemma chars_of_dec:
  assumes "queue_ok q" "\<not> EMPTY q"
  shows "chars_of q = chars_of (DEC_HEAD q) @ [LAST_OF q]"
proof -
  let ?h = "unat (q_head q)" let ?t = "unat (q_tail q)" let ?n = "unat (CHARS q)"
  have b: "?h < 1024" "?t < 1024" using assms by (simp_all add: queue_ok_def word_less_nat_alt)
  have d: "unat (DEC (q_head q)) = (?h + 1023) mod 1024"
    using mod_1024_sub [of "q_head q" 1] b by (simp add: DEC_def and_1023 add.commute)
  have n0: "?n \<noteq> 0" using EMPTY_chars [OF assms(1)] assms(2) by (metis length_0_conv length_chars_of)
  have n: "?n = Suc (unat (CHARS (DEC_HEAD q)))"
  proof -
    have "unat (CHARS (DEC_HEAD q)) = ((?h + 1023) mod 1024 + 1024 - ?t) mod 1024"
      using assms(1) by (simp add: unat_CHARS) (simp add: DEC_HEAD_def d)
    moreover have "?n = (?h + 1024 - ?t) mod 1024" using assms(1) by (simp add: unat_CHARS)
    ultimately show ?thesis using b n0
      by (simp only: ring_prev [OF b(1)]) (cases "?h = 0"; simp add: ring_diff mod_if split: if_splits)
  qed
  have l: "unat (1023 AND (q_head q - 1)) = (?t + unat (CHARS (DEC_HEAD q))) mod 1024"
  proof -
    have "unat (1023 AND (q_head q - 1)) = (?h + 1023) mod 1024"
      using d by (simp add: DEC_def and.commute)
    moreover have "?h = (?t + ?n) mod 1024" using b assms(1) by (simp add: unat_CHARS mod_simps)
    ultimately show ?thesis using b n by (simp add: mod_simps)
  qed
  have "q_tail (DEC_HEAD q) = q_tail q" "q_buf (DEC_HEAD q) = q_buf q" by (simp_all add: DEC_HEAD_def)
  then show ?thesis by (simp add: chars_of_def n LAST_OF_def l)
qed

section \<open>The interface of a queue\<close>

text \<open>What the line discipline relies on: a queue is a list of bounded length; a character is put at its end
  and can be taken off its front (by the reader) or off its end (by the line editor).\<close>

locale char_queue =
  fixes ok :: "'q \<Rightarrow> bool" and list :: "'q \<Rightarrow> 'c list" and cap :: nat
    and put :: "'c \<Rightarrow> 'q \<Rightarrow> 'q" and get :: "'q \<Rightarrow> 'c \<times> 'q" and unput :: "'q \<Rightarrow> 'q" and latest :: "'q \<Rightarrow> 'c"
  assumes bound: "ok q \<Longrightarrow> length (list q) \<le> cap"
    and ok_put: "ok q \<Longrightarrow> ok (put c q)"
    and ok_get: "ok q \<Longrightarrow> ok (snd (get q))"
    and ok_unput: "ok q \<Longrightarrow> ok (unput q)"
    and list_put: "ok q \<Longrightarrow> length (list q) < cap \<Longrightarrow> list (put c q) = list q @ [c]"
    and list_get: "ok q \<Longrightarrow> list q \<noteq> [] \<Longrightarrow> list q = fst (get q) # list (snd (get q))"
    and list_unput: "ok q \<Longrightarrow> list q \<noteq> [] \<Longrightarrow> list q = list (unput q) @ [latest q]"
begin

primrec take_out :: "nat \<Rightarrow> 'q \<Rightarrow> 'c list \<times> 'q" where
  "take_out 0 q = ([], q)"
| "take_out (Suc n) q = (let (c, q) = get q; (cs, q) = take_out n q in (c # cs, q))"

lemma put_all:
  "ok q \<Longrightarrow> length (list q) + length cs \<le> cap \<Longrightarrow> ok (fold put cs q) \<and> list (fold put cs q) = list q @ cs"
  by (induction cs arbitrary: q) (simp_all add: ok_put list_put)

lemma take_all:
  "ok q \<Longrightarrow> n \<le> length (list q) \<Longrightarrow> fst (take_out n q) = take n (list q)
    \<and> ok (snd (take_out n q)) \<and> list (snd (take_out n q)) = drop n (list q)"
proof (induction n arbitrary: q)
  case (Suc n)
  obtain c q' where g: "get q = (c, q')" by (cases "get q")
  have l: "list q = c # list q'" using Suc.prems list_get [of q] g by (cases "list q") auto
  have "ok q'" using ok_get [OF Suc.prems(1)] g by simp
  with Suc.IH [of q'] Suc.prems(2) l g show ?case by (simp add: split_beta Let_def)
qed simp

lemma put_take:
  "ok q \<Longrightarrow> list q = [] \<Longrightarrow> length cs \<le> cap \<Longrightarrow> fst (take_out (length cs) (fold put cs q)) = cs"
  using put_all [of q cs] take_all [of "fold put cs q" "length cs"] by simp

lemma rub_out: "ok q \<Longrightarrow> length (list q) < cap \<Longrightarrow> list (unput (put c q)) = list q \<and> latest (put c q) = c"
  using list_put [of q c] list_unput [of "put c q"] ok_put [of q c] by simp

end

interpretation tq: char_queue queue_ok chars_of 1023 PUTCH GETCH DEC_HEAD LAST_OF
proof
  show "length (chars_of q) \<le> 1023" for q using chars_bound [of q] by simp
  show "chars_of (PUTCH c q) = chars_of q @ [c]" if "queue_ok q" "length (chars_of q) < 1023" for c q
    using that by (intro chars_of_put) (simp_all add: FULL_chars)
  show "chars_of q = fst (GETCH q) # chars_of (snd (GETCH q))" if "queue_ok q" "chars_of q \<noteq> []" for q
    using that by (intro chars_of_get) (simp_all add: EMPTY_chars)
  show "chars_of q = chars_of (DEC_HEAD q) @ [LAST_OF q]" if "queue_ok q" "chars_of q \<noteq> []" for q
    using that by (intro chars_of_dec) (simp_all add: EMPTY_chars)
qed simp_all

end
