(* ===== verification/Console.thy ===== *)
theory Console
  imports Tty_Queue
begin

text \<open>
  The console driver (\<open>kernel/chr_drv/console.c\<close>): the state of the VT102 emulation, cursor movement,
  scrolling, erasing, inserting and deleting. The escape state machine \<open>con_write\<close> is in \<open>Tty\<close>, because it
  and \<open>copy_to_cooked\<close> call each other.

  \<open>vram a\<close> is the \<open>short\<close> at the address \<open>a\<close> of the video memory. Every address the driver forms is even, as
  \<open>video_mem_start\<close> and \<open>video_size_row\<close> are. \<open>rep stosw\<close> and \<open>rep movsl\<close> are recursions on \<open>ecx\<close>.
\<close>

section \<open>State\<close>

record console =
  video_type :: u8
  video_num_columns :: u32
  video_size_row :: u32
  video_num_lines :: u32
  video_page :: u8
  video_mem_start :: u32
  video_mem_end :: u32
  video_port_reg :: u16
  video_port_val :: u16
  video_erase_char :: u16
  con_origin :: u32
  con_scr_end :: u32
  con_pos :: u32
  con_x :: u32
  con_y :: u32
  con_top :: u32
  con_bottom :: u32
  con_state :: u32
  con_npar :: u32
  con_par :: "nat \<Rightarrow> u32"
  con_ques :: u32
  con_attr :: u8
  saved_x :: u32
  saved_y :: u32
  vram :: "u32 \<Rightarrow> u16"

record tty_state = fs_state +
  con :: console
  tty_table :: "nat \<Rightarrow> tty_struct"
  cr_flag :: bool
  ctype_below :: "int \<Rightarrow> u8"

definition upd_con :: "(console \<Rightarrow> console) \<Rightarrow> 'a tty_state_scheme \<Rightarrow> 'a tty_state_scheme" where
  "upd_con f s = s\<lparr>con := f (con s)\<rparr>"

definition upd_tty :: "nat \<Rightarrow> (tty_struct \<Rightarrow> tty_struct) \<Rightarrow> 'a tty_state_scheme \<Rightarrow> 'a tty_state_scheme" where
  "upd_tty t f s = s\<lparr>tty_table := (tty_table s)(t := f (tty_table s t))\<rparr>"

abbreviation (input) VIDEO_TYPE_MDA :: u8 where "VIDEO_TYPE_MDA \<equiv> 0x10"
abbreviation (input) VIDEO_TYPE_CGA :: u8 where "VIDEO_TYPE_CGA \<equiv> 0x11"
abbreviation (input) VIDEO_TYPE_EGAM :: u8 where "VIDEO_TYPE_EGAM \<equiv> 0x20"
abbreviation (input) VIDEO_TYPE_EGAC :: u8 where "VIDEO_TYPE_EGAC \<equiv> 0x21"
abbreviation (input) NPAR :: nat where "NPAR \<equiv> 16"

section \<open>String instructions\<close>

text \<open>\<open>rep stosw\<close> and \<open>rep movsl\<close> with the direction flag clear (\<open>cld\<close>) or set (\<open>std\<close>); the moves also
  return \<open>edi\<close>. A \<open>movsl\<close> moves two shorts at once.\<close>

primrec stosw :: "nat \<Rightarrow> u32 \<Rightarrow> u16 \<Rightarrow> (u32 \<Rightarrow> u16) \<Rightarrow> (u32 \<Rightarrow> u16)" where
  "stosw 0 edi ax m = m"
| "stosw (Suc n) edi ax m = stosw n (edi + 2) ax (m(edi := ax))"

primrec stosw_down :: "nat \<Rightarrow> u32 \<Rightarrow> u16 \<Rightarrow> (u32 \<Rightarrow> u16) \<Rightarrow> (u32 \<Rightarrow> u16)" where
  "stosw_down 0 edi ax m = m"
| "stosw_down (Suc n) edi ax m = stosw_down n (edi - 2) ax (m(edi := ax))"

primrec movsl :: "nat \<Rightarrow> u32 \<Rightarrow> u32 \<Rightarrow> (u32 \<Rightarrow> u16) \<Rightarrow> (u32 \<Rightarrow> u16) \<times> u32" where
  "movsl 0 edi esi m = (m, edi)"
| "movsl (Suc n) edi esi m = movsl n (edi + 4) (esi + 4) (m(edi := m esi, edi + 2 := m (esi + 2)))"

primrec movsl_down :: "nat \<Rightarrow> u32 \<Rightarrow> u32 \<Rightarrow> (u32 \<Rightarrow> u16) \<Rightarrow> (u32 \<Rightarrow> u16) \<times> u32" where
  "movsl_down 0 edi esi m = (m, edi)"
| "movsl_down (Suc n) edi esi m = movsl_down n (edi - 4) (esi - 4) (m(edi := m esi, edi + 2 := m (esi + 2)))"

section \<open>Cursor and scrolling\<close>

definition gotoxy :: "u32 \<Rightarrow> u32 \<Rightarrow> console \<Rightarrow> console" where
  "gotoxy new_x new_y c =
     (if new_x > video_num_columns c \<or> new_y \<ge> video_num_lines c then c
      else c\<lparr>con_x := new_x, con_y := new_y, con_pos := con_origin c + new_y * video_size_row c + 2 * new_x\<rparr>)"

text \<open>The offset of an address in the video memory, in shorts, into the register pair \<open>n\<close>, \<open>n + 1\<close>.\<close>

definition set_crtc :: "u8 \<Rightarrow> u32 \<Rightarrow> 'a tty_state_scheme \<Rightarrow> 'a tty_state_scheme" where
  "set_crtc n a s =
     (let c = con s;
          s = outb n (video_port_reg c) s;
          s = outb (ucast (0xff AND drop_bit 9 (a - video_mem_start c))) (video_port_val c) s;
          s = outb (n + 1) (video_port_reg c) s
      in outb (ucast (0xff AND drop_bit 1 (a - video_mem_start c))) (video_port_val c) s)"

definition set_origin :: "'a tty_state_scheme \<Rightarrow> 'a tty_state_scheme" where
  "set_origin s = set_crtc 12 (con_origin (con s)) s"

definition set_cursor :: "'a tty_state_scheme \<Rightarrow> 'a tty_state_scheme" where
  "set_cursor s = set_crtc 14 (con_pos (con s)) s"

text \<open>Whether \<open>scrup\<close> moves the start of the screen instead of the text.\<close>

definition scrolls_by_origin :: "console \<Rightarrow> bool" where
  "scrolls_by_origin c \<longleftrightarrow> (video_type c = VIDEO_TYPE_EGAC \<or> video_type c = VIDEO_TYPE_EGAM)
     \<and> con_top c = 0 \<and> con_bottom c = video_num_lines c"

definition region_longs :: "console \<Rightarrow> nat" where
  "region_longs c = unat (drop_bit 1 ((con_bottom c - con_top c - 1) * video_num_columns c))"

definition scrup_region :: "console \<Rightarrow> console" where
  "scrup_region c =
     (let (m, edi) = movsl (region_longs c) (con_origin c + video_size_row c * con_top c)
            (con_origin c + video_size_row c * (con_top c + 1)) (vram c)
      in c\<lparr>vram := stosw (unat (video_num_columns c)) edi (video_erase_char c) m\<rparr>)"

definition scrup_origin :: "console \<Rightarrow> console" where
  "scrup_origin c =
     (let c = c\<lparr>con_origin := con_origin c + video_size_row c, con_pos := con_pos c + video_size_row c,
                con_scr_end := con_scr_end c + video_size_row c\<rparr>
      in if con_scr_end c > video_mem_end c then
           let (m, edi) = movsl (unat (drop_bit 1 ((video_num_lines c - 1) * video_num_columns c)))
                 (video_mem_start c) (con_origin c) (vram c)
           in c\<lparr>vram := stosw (unat (video_num_columns c)) edi (video_erase_char c) m,
                con_scr_end := con_scr_end c - (con_origin c - video_mem_start c),
                con_pos := con_pos c - (con_origin c - video_mem_start c),
                con_origin := video_mem_start c\<rparr>
         else c\<lparr>vram := stosw (unat (video_num_columns c)) (con_scr_end c - video_size_row c)
                  (video_erase_char c) (vram c)\<rparr>)"

definition scrup :: "'a tty_state_scheme \<Rightarrow> 'a tty_state_scheme" where
  "scrup s = (if scrolls_by_origin (con s) then set_origin (upd_con scrup_origin s) else upd_con scrup_region s)"

text \<open>\<open>scrdown\<close> does the same in both branches of its \<open>if\<close>.\<close>

definition scrdown :: "console \<Rightarrow> console" where
  "scrdown c =
     (let (m, edi) = movsl_down (region_longs c) (con_origin c + video_size_row c * con_bottom c - 4)
            (con_origin c + video_size_row c * (con_bottom c - 1) - 4) (vram c)
      in c\<lparr>vram := stosw_down (unat (video_num_columns c)) (edi + 2) (video_erase_char c) m\<rparr>)"

definition lf :: "'a tty_state_scheme \<Rightarrow> 'a tty_state_scheme" where
  "lf s = (if con_y (con s) + 1 < con_bottom (con s)
     then upd_con (\<lambda>c. c\<lparr>con_y := con_y c + 1, con_pos := con_pos c + video_size_row c\<rparr>) s
     else scrup s)"

definition ri :: "console \<Rightarrow> console" where
  "ri c = (if con_y c > con_top c then c\<lparr>con_y := con_y c - 1, con_pos := con_pos c - video_size_row c\<rparr>
     else scrdown c)"

definition cr :: "console \<Rightarrow> console" where
  "cr c = c\<lparr>con_pos := con_pos c - 2 * con_x c, con_x := 0\<rparr>"

definition del :: "console \<Rightarrow> console" where
  "del c = (if con_x c \<noteq> 0
     then c\<lparr>con_pos := con_pos c - 2, con_x := con_x c - 1, vram := (vram c)(con_pos c - 2 := video_erase_char c)\<rparr>
     else c)"

section \<open>Control sequences\<close>

definition erase :: "u32 \<Rightarrow> u32 \<Rightarrow> console \<Rightarrow> console" where
  "erase count start c = c\<lparr>vram := stosw (unat count) start (video_erase_char c) (vram c)\<rparr>"

definition csi_J :: "u32 \<Rightarrow> console \<Rightarrow> console" where
  "csi_J par c =
     (if par = 0 then erase (drop_bit 1 (con_scr_end c - con_pos c)) (con_pos c) c
      else if par = 1 then erase (drop_bit 1 (con_pos c - con_origin c)) (con_origin c) c
      else if par = 2 then erase (video_num_columns c * video_num_lines c) (con_origin c) c
      else c)"

definition csi_K :: "u32 \<Rightarrow> console \<Rightarrow> console" where
  "csi_K par c =
     (if par = 0 then
        (if con_x c \<ge> video_num_columns c then c
         else erase (video_num_columns c - con_x c) (con_pos c) c)
      else if par = 1 then
        erase (if con_x c < video_num_columns c then con_x c else video_num_columns c) (con_pos c - 2 * con_x c) c
      else if par = 2 then erase (video_num_columns c) (con_pos c - 2 * con_x c) c
      else c)"

definition sgr :: "u32 \<Rightarrow> console \<Rightarrow> console" where
  "sgr p c = (if p = 0 then c\<lparr>con_attr := 0x07\<rparr> else if p = 1 then c\<lparr>con_attr := 0x0f\<rparr>
     else if p = 4 then c\<lparr>con_attr := 0x0f\<rparr> else if p = 7 then c\<lparr>con_attr := 0x70\<rparr>
     else if p = 27 then c\<lparr>con_attr := 0x07\<rparr> else c)"

definition csi_m :: "console \<Rightarrow> console" where
  "csi_m c = fold (\<lambda>i. sgr (con_par c i)) [0..<Suc (unat (con_npar c))] c"

primrec push_right :: "nat \<Rightarrow> u32 \<Rightarrow> u16 \<Rightarrow> (u32 \<Rightarrow> u16) \<Rightarrow> (u32 \<Rightarrow> u16)" where
  "push_right 0 p old m = m"
| "push_right (Suc n) p old m = push_right n (p + 2) (m p) (m(p := old))"

primrec pull_left :: "nat \<Rightarrow> u32 \<Rightarrow> u16 \<Rightarrow> (u32 \<Rightarrow> u16) \<Rightarrow> (u32 \<Rightarrow> u16)" where
  "pull_left 0 p fill m = m(p := fill)"
| "pull_left (Suc n) p fill m = pull_left n (p + 2) fill (m(p := m (p + 2)))"

definition insert_char :: "console \<Rightarrow> console" where
  "insert_char c = c\<lparr>vram := push_right (unat (video_num_columns c) - unat (con_x c)) (con_pos c)
     (video_erase_char c) (vram c)\<rparr>"

definition delete_char :: "console \<Rightarrow> console" where
  "delete_char c = (if con_x c \<ge> video_num_columns c then c
     else c\<lparr>vram := pull_left (unat (video_num_columns c) - unat (con_x c) - 1) (con_pos c)
       (video_erase_char c) (vram c)\<rparr>)"

definition insert_line :: "console \<Rightarrow> console" where
  "insert_line c =
     (let oldtop = con_top c; oldbottom = con_bottom c;
          c = scrdown (c\<lparr>con_top := con_y c, con_bottom := video_num_lines c\<rparr>)
      in c\<lparr>con_top := oldtop, con_bottom := oldbottom\<rparr>)"

definition delete_line :: "'a tty_state_scheme \<Rightarrow> 'a tty_state_scheme" where
  "delete_line s =
     (let oldtop = con_top (con s); oldbottom = con_bottom (con s);
          s = scrup (upd_con (\<lambda>c. c\<lparr>con_top := con_y c, con_bottom := video_num_lines c\<rparr>) s)
      in upd_con (\<lambda>c. c\<lparr>con_top := oldtop, con_bottom := oldbottom\<rparr>) s)"

text \<open>\<open>if (nr > max) nr = max; else if (!nr) nr = 1; while (nr--)\<close>.\<close>

definition times_of :: "u32 \<Rightarrow> u32 \<Rightarrow> nat" where
  "times_of nr most = unat (if nr > most then most else if nr = 0 then 1 else nr)"

definition csi_at :: "u32 \<Rightarrow> console \<Rightarrow> console" where
  "csi_at nr c = (insert_char ^^ times_of nr (video_num_columns c)) c"

definition csi_L :: "u32 \<Rightarrow> console \<Rightarrow> console" where
  "csi_L nr c = (insert_line ^^ times_of nr (video_num_lines c)) c"

definition csi_P :: "u32 \<Rightarrow> console \<Rightarrow> console" where
  "csi_P nr c = (delete_char ^^ times_of nr (video_num_columns c)) c"

definition csi_M :: "u32 \<Rightarrow> 'a tty_state_scheme \<Rightarrow> 'a tty_state_scheme" where
  "csi_M nr s = (delete_line ^^ times_of nr (video_num_lines (con s))) s"

definition save_cur :: "console \<Rightarrow> console" where
  "save_cur c = c\<lparr>saved_x := con_x c, saved_y := con_y c\<rparr>"

definition restore_cur :: "console \<Rightarrow> console" where
  "restore_cur c = gotoxy (saved_x c) (saved_y c) c"

text \<open>\<open>beepcount = HZ/8\<close>.\<close>

definition sysbeep :: "'a tty_state_scheme \<Rightarrow> 'a tty_state_scheme" where
  "sysbeep s =
     (let s = outb (inb 0x61 s OR 3) 0x61 s;
          s = outb 0xB6 0x43 s;
          s = outb 0x37 0x42 s;
          s = outb 0x06 0x42 s
      in s\<lparr>beepcount := 12\<rparr>)"

section \<open>Characters\<close>

text \<open>A character is written with the current attribute.\<close>

definition put_cell :: "u8 \<Rightarrow> console \<Rightarrow> console" where
  "put_cell ch c = c\<lparr>vram := (vram c)(con_pos c := push_bit 8 (ucast (con_attr c)) OR ucast ch),
     con_pos := con_pos c + 2, con_x := con_x c + 1\<rparr>"

definition wrap_line :: "console \<Rightarrow> console" where
  "wrap_line c = c\<lparr>con_x := con_x c - video_num_columns c, con_pos := con_pos c - video_size_row c\<rparr>"

definition tab :: "console \<Rightarrow> console" where
  "tab c = (let d = 8 - (con_x c AND 7) in c\<lparr>con_x := con_x c + d, con_pos := con_pos c + 2 * d\<rparr>)"

text \<open>\<open>state\<close> 0: ordinary text. \<open>erase_char\<close> is \<open>ERASE_CHAR(tty)\<close>.\<close>

definition con_text :: "int \<Rightarrow> u8 \<Rightarrow> 'a tty_state_scheme \<Rightarrow> 'a tty_state_scheme" where
  "con_text erase_char ch s =
     (let c = sint ch in
      if c > 31 \<and> c < 127 then
        let s = (if con_x (con s) \<ge> video_num_columns (con s) then lf (upd_con wrap_line s) else s)
        in upd_con (put_cell ch) s
      else if c = 27 then upd_con (\<lambda>v. v\<lparr>con_state := 1\<rparr>) s
      else if c = 10 \<or> c = 11 \<or> c = 12 then lf s
      else if c = 13 then upd_con cr s
      else if c = erase_char then upd_con del s
      else if c = 8 then
        upd_con (\<lambda>v. if con_x v \<noteq> 0 then v\<lparr>con_x := con_x v - 1, con_pos := con_pos v - 2\<rparr> else v) s
      else if c = 9 then
        let s = upd_con tab s
        in if con_x (con s) > video_num_columns (con s) then lf (upd_con wrap_line s) else s
      else if c = 7 then sysbeep s
      else s)"

text \<open>\<open>state\<close> 1: after ESC, without \<open>ESC Z\<close>. The tests for \<open>7\<close> and \<open>8\<close> look at the column \<open>x\<close>, not at the
  character \<open>c\<close>.\<close>

definition con_escape :: "u8 \<Rightarrow> 'a tty_state_scheme \<Rightarrow> 'a tty_state_scheme" where
  "con_escape ch s =
     (let c = sint ch in
      if c = 91 then upd_con (\<lambda>v. v\<lparr>con_state := 2\<rparr>) s
      else if c = 69 then upd_con (\<lambda>v. gotoxy 0 (con_y v + 1) v) s
      else if c = 77 then upd_con ri s
      else if c = 68 then lf s
      else if con_x (con s) = 55 then upd_con save_cur s
      else if con_x (con s) = 56 then upd_con restore_cur s
      else s)"

text \<open>\<open>state\<close> 4: the final character of a control sequence.\<close>

definition set_par :: "nat \<Rightarrow> u32 \<Rightarrow> console \<Rightarrow> console" where
  "set_par i v c = c\<lparr>con_par := (con_par c)(i := v)\<rparr>"

definition dec_par :: "nat \<Rightarrow> console \<Rightarrow> console" where
  "dec_par i c = (if con_par c i \<noteq> 0 then set_par i (con_par c i - 1) c else c)"

definition inc_par :: "nat \<Rightarrow> console \<Rightarrow> console" where
  "inc_par i c = (if con_par c i = 0 then set_par i (con_par c i + 1) c else c)"

definition set_region :: "console \<Rightarrow> console" where
  "set_region c =
     (let c = dec_par 0 c;
          c = (if con_par c 1 = 0 then set_par 1 (video_num_lines c) c else c)
      in if con_par c 0 < con_par c 1 \<and> con_par c 1 \<le> video_num_lines c
         then c\<lparr>con_top := con_par c 0, con_bottom := con_par c 1\<rparr> else c)"

definition csi_cursor :: "int \<Rightarrow> console \<Rightarrow> console" where
  "csi_cursor c v =
     (if c = 71 \<or> c = 96 then (let v = dec_par 0 v in gotoxy (con_par v 0) (con_y v) v)
      else if c = 65 then (let v = inc_par 0 v in gotoxy (con_x v) (con_y v - con_par v 0) v)
      else if c = 66 \<or> c = 101 then (let v = inc_par 0 v in gotoxy (con_x v) (con_y v + con_par v 0) v)
      else if c = 67 \<or> c = 97 then (let v = inc_par 0 v in gotoxy (con_x v + con_par v 0) (con_y v) v)
      else if c = 68 then (let v = inc_par 0 v in gotoxy (con_x v - con_par v 0) (con_y v) v)
      else if c = 69 then (let v = inc_par 0 v in gotoxy 0 (con_y v + con_par v 0) v)
      else if c = 70 then (let v = inc_par 0 v in gotoxy 0 (con_y v - con_par v 0) v)
      else if c = 100 then (let v = dec_par 0 v in gotoxy (con_x v) (con_par v 0) v)
      else if c = 72 \<or> c = 102 then (let v = dec_par 1 (dec_par 0 v) in gotoxy (con_par v 1) (con_par v 0) v)
      else v)"

definition csi_final :: "u8 \<Rightarrow> 'a tty_state_scheme \<Rightarrow> 'a tty_state_scheme" where
  "csi_final ch s =
     (let c = sint ch; p = con_par (con s) 0 in
      if c = 74 then upd_con (csi_J p) s
      else if c = 75 then upd_con (csi_K p) s
      else if c = 76 then upd_con (csi_L p) s
      else if c = 77 then csi_M p s
      else if c = 80 then upd_con (csi_P p) s
      else if c = 64 then upd_con (csi_at p) s
      else if c = 109 then upd_con csi_m s
      else if c = 114 then upd_con set_region s
      else if c = 115 then upd_con save_cur s
      else if c = 117 then upd_con restore_cur s
      else upd_con (csi_cursor c) s)"

text \<open>\<open>state\<close> 3: the parameters; any other character is the final one. \<open>state\<close> 2 clears the parameters and
  falls through to 3 unless the character is a question mark.\<close>

definition con_params :: "u8 \<Rightarrow> 'a tty_state_scheme \<Rightarrow> 'a tty_state_scheme" where
  "con_params ch s =
     (let c = sint ch; v = con s in
      if c = 59 \<and> con_npar v < 15 then upd_con (\<lambda>v. v\<lparr>con_npar := con_npar v + 1\<rparr>) s
      else if c \<ge> 48 \<and> c \<le> 57 then
        upd_con (\<lambda>v. set_par (unat (con_npar v)) (10 * con_par v (unat (con_npar v)) + word_of_int (c - 48)) v) s
      else csi_final ch (upd_con (\<lambda>v. v\<lparr>con_state := 0\<rparr>) s))"

definition con_bracket :: "u8 \<Rightarrow> 'a tty_state_scheme \<Rightarrow> 'a tty_state_scheme" where
  "con_bracket ch s =
     (let ques = (sint ch = 63);
          s = upd_con (\<lambda>v. v\<lparr>con_par := (\<lambda>i. if i < NPAR then 0 else con_par v i), con_npar := 0, con_state := 3,
                con_ques := (if ques then 1 else 0)\<rparr>) s
      in if ques then s else con_params ch s)"

section \<open>Initialisation\<close>

text \<open>\<open>boot\<close> is the parameter block that \<open>setup.s\<close> left at \<open>0x90000\<close>. The gate of the keyboard interrupt is
  added in \<open>Start\<close>.\<close>

definition low_byte :: "u8 \<Rightarrow> u16 \<Rightarrow> u16" where
  "low_byte b w = (w AND 0xff00) OR ucast b"

definition show_desc :: "u8 list \<Rightarrow> u32 \<Rightarrow> (u32 \<Rightarrow> u16) \<Rightarrow> (u32 \<Rightarrow> u16)" where
  "show_desc cs p m = snd (fold (\<lambda>ch (p, m). (p + 2, m(p := low_byte ch (m p)))) cs (p, m))"

definition con_detect :: "bytes \<Rightarrow> console \<Rightarrow> console \<times> u8 list" where
  "con_detect boot c =
     (let ega = (get_u16 10 boot AND 0xff \<noteq> 0x10) in
      if get_u16 6 boot AND 0xff = 7 then
        let c = c\<lparr>video_mem_start := 0xb0000, video_port_reg := 0x3b4, video_port_val := 0x3b5\<rparr>
        in if ega then (c\<lparr>video_type := VIDEO_TYPE_EGAM, video_mem_end := 0xb8000\<rparr>, [69, 71, 65, 109])
           else (c\<lparr>video_type := VIDEO_TYPE_MDA, video_mem_end := 0xb2000\<rparr>, [42, 77, 68, 65])
      else
        let c = c\<lparr>video_mem_start := 0xb8000, video_port_reg := 0x3d4, video_port_val := 0x3d5\<rparr>
        in if ega then (c\<lparr>video_type := VIDEO_TYPE_EGAC, video_mem_end := 0xbc000\<rparr>, [69, 71, 65, 99])
           else (c\<lparr>video_type := VIDEO_TYPE_CGA, video_mem_end := 0xba000\<rparr>, [42, 67, 71, 65]))"

definition con_setup :: "bytes \<Rightarrow> console \<Rightarrow> console" where
  "con_setup boot c =
     (let c = c\<lparr>video_num_columns := ucast (drop_bit 8 (get_u16 6 boot AND 0xff00))\<rparr>;
          c = c\<lparr>video_size_row := video_num_columns c * 2, video_num_lines := 25,
                video_page := ucast (get_u16 4 boot), video_erase_char := 0x0720\<rparr>;
          (c, desc) = con_detect boot c
      in c\<lparr>vram := show_desc desc (video_mem_start c + video_size_row c - 8) (vram c),
           con_origin := video_mem_start c,
           con_scr_end := video_mem_start c + video_num_lines c * video_size_row c,
           con_top := 0, con_bottom := video_num_lines c\<rparr>)"

definition con_init :: "bytes \<Rightarrow> 'a tty_state_scheme \<Rightarrow> 'a tty_state_scheme" where
  "con_init boot s =
     (let s = upd_con (\<lambda>c. gotoxy (ucast (boot 0)) (ucast (boot 1)) (con_setup boot c)) s;
          s = outb (inb 0x21 s AND 0xfd) 0x21 s;
          a = inb 0x61 s;
          s = outb (a OR 0x80) 0x61 s
      in outb a 0x61 s)"

text \<open>The static initial values.\<close>

definition init_console :: console where
  "init_console = \<lparr>video_type = 0, video_num_columns = 0, video_size_row = 0, video_num_lines = 0, video_page = 0,
     video_mem_start = 0, video_mem_end = 0, video_port_reg = 0, video_port_val = 0, video_erase_char = 0,
     con_origin = 0, con_scr_end = 0, con_pos = 0, con_x = 0, con_y = 0, con_top = 0, con_bottom = 0, con_state = 0,
     con_npar = 0, con_par = (\<lambda>_. 0), con_ques = 0, con_attr = 0x07, saved_x = 0, saved_y = 0, vram = (\<lambda>_. 0)\<rparr>"

definition init_tty_state :: "addr \<Rightarrow> addr \<Rightarrow> tty_state" where
  "init_tty_state a b = fs_state.extend (init_fs a b)
     (tty_state.fields init_console init_tty False (\<lambda>_. 0))"

lemma init_tty_state_simps [simp]:
  "con (init_tty_state a b) = init_console" "tty_table (init_tty_state a b) = init_tty"
  "cr_flag (init_tty_state a b) = False" "ctype_below (init_tty_state a b) = (\<lambda>_. 0)"
  by (simp_all add: init_tty_state_def fs_state.defs tty_state.defs)

end
