(* ===== verification/Tty.thy ===== *)
theory Tty
  imports Console User_Memory
begin

text \<open>
  Terminals (\<open>kernel/chr_drv/tty_io.c\<close>, \<open>con_write\<close> of \<open>console.c\<close>, \<open>serial.c\<close>, \<open>tty_ioctl.c\<close>): the line
  discipline, reading and writing, the serial output and the settings.

  A terminal is an index of \<open>tty_table\<close>; 0 is the console, 1 and 2 are serial lines, and \<open>tty->write\<close> is
  \<open>con_write\<close> or \<open>rs_write\<close> accordingly. \<open>con_write\<close> answers \<open>ESC Z\<close> by putting characters into the read
  queue and calling \<open>copy_to_cooked\<close>, which echoes them with \<open>tty->write\<close>: the two are mutually
  recursive. \<open>copy_to_cooked\<close> therefore takes \<open>con_write\<close> as an argument, and \<open>con_write\<close> is a fixed point;
  a recursion that does not end is \<open>None\<close>.

  A task that has to wait in \<open>tty_read\<close> or \<open>tty_write\<close> stops with the rest of its work as the result, as
  with pipes.
\<close>

section \<open>Queues of a terminal\<close>

definition upd_read_q :: "nat \<Rightarrow> (tty_queue \<Rightarrow> tty_queue) \<Rightarrow> 'a tty_state_scheme \<Rightarrow> 'a tty_state_scheme" where
  "upd_read_q t f = upd_tty t (\<lambda>x. x\<lparr>read_q := f (read_q x)\<rparr>)"

definition upd_write_q :: "nat \<Rightarrow> (tty_queue \<Rightarrow> tty_queue) \<Rightarrow> 'a tty_state_scheme \<Rightarrow> 'a tty_state_scheme" where
  "upd_write_q t f = upd_tty t (\<lambda>x. x\<lparr>write_q := f (write_q x)\<rparr>)"

definition upd_secondary :: "nat \<Rightarrow> (tty_queue \<Rightarrow> tty_queue) \<Rightarrow> 'a tty_state_scheme \<Rightarrow> 'a tty_state_scheme" where
  "upd_secondary t f = upd_tty t (\<lambda>x. x\<lparr>secondary := f (secondary x)\<rparr>)"

definition secondary_waitq :: "nat \<Rightarrow> 'a tty_state_scheme waitq" where
  "secondary_waitq t = (\<lambda>s. q_proc_list (secondary (tty_table s t)),
     \<lambda>v. upd_secondary t (q_proc_list_update (\<lambda>_. v)))"

definition write_waitq :: "nat \<Rightarrow> 'a tty_state_scheme waitq" where
  "write_waitq t = (\<lambda>s. q_proc_list (write_q (tty_table s t)),
     \<lambda>v. upd_write_q t (q_proc_list_update (\<lambda>_. v)))"

section \<open>Signals\<close>

abbreviation (input) SIGINT :: nat where "SIGINT \<equiv> 2"
abbreviation (input) SIGQUIT :: nat where "SIGQUIT \<equiv> 3"

definition tty_intr :: "nat \<Rightarrow> u32 \<Rightarrow> 'a tty_state_scheme \<Rightarrow> 'a tty_state_scheme" where
  "tty_intr t msk s =
     (if tty_pgrp s t \<le> 0 then s
      else fold (\<lambda>i s. if task s i \<noteq> 0 \<and> t_pgrp (tasks s (task s i)) = tty_pgrp s t
             then upd_task (task s i) (\<lambda>p. p\<lparr>t_signal := t_signal p OR msk\<rparr>) s else s) [0..<NR_TASKS] s)"

section \<open>Serial lines\<close>

definition rs_write :: "nat \<Rightarrow> 'a tty_state_scheme \<Rightarrow> 'a tty_state_scheme" where
  "rs_write t s =
     (let q = write_q (tty_table s t); port = ucast (q_data q + 1)
      in if EMPTY q then s else outb (inb port s OR 0x02) port s)"

definition rs_init_line :: "u16 \<Rightarrow> 'a tty_state_scheme \<Rightarrow> 'a tty_state_scheme" where
  "rs_init_line port s =
     (let s = outb 0x80 (port + 3) s; s = outb 0x30 port s; s = outb 0x00 (port + 1) s;
          s = outb 0x03 (port + 3) s; s = outb 0x0b (port + 4) s
      in outb 0x0d (port + 1) s)"

definition rs_init :: "'a tty_state_scheme \<Rightarrow> 'a tty_state_scheme" where
  "rs_init s =
     (let s = rs_init_line (ucast (q_data (read_q (tty_table s 1)))) s;
          s = rs_init_line (ucast (q_data (read_q (tty_table s 2)))) s
      in outb (inb 0x21 s AND 0xE7) 0x21 s)"

definition tty_init :: "bytes \<Rightarrow> 'a tty_state_scheme \<Rightarrow> 'a tty_state_scheme" where
  "tty_init boot s = con_init boot (rs_init s)"

section \<open>The line discipline\<close>

type_synonym 's con_fn = "nat \<Rightarrow> 's \<Rightarrow> 's option"

text \<open>\<open>tty->write(tty)\<close>.\<close>

definition tty_out :: "'a tty_state_scheme con_fn \<Rightarrow> nat \<Rightarrow> 'a tty_state_scheme \<Rightarrow> 'a tty_state_scheme option" where
  "tty_out cw t s = (if t = 0 then cw t s else Some (rs_write t s))"

text \<open>The output for a character taken back from the line: two DELs for a control character.\<close>

definition echo_erase ::
  "'a tty_state_scheme con_fn \<Rightarrow> nat \<Rightarrow> int \<Rightarrow> 'a tty_state_scheme \<Rightarrow> 'a tty_state_scheme option" where
  "echo_erase cw t c s =
     (if L_FLAG b_ECHO (tty_table s t) then
        let s = (if c < 32 then upd_write_q t (PUTCH 127) s else s)
        in tty_out cw t (upd_write_q t (PUTCH 127) s)
      else Some s)"

text \<open>Whether the line has no last character to take back.\<close>

definition line_start :: "tty_struct \<Rightarrow> bool" where
  "line_start x \<longleftrightarrow> EMPTY (secondary x) \<or> sint (LAST_OF (secondary x)) = 10 \<or> sint (LAST_OF (secondary x)) = CC VEOF x"

definition kill_step ::
  "'a tty_state_scheme con_fn \<Rightarrow> nat \<Rightarrow> 'a tty_state_scheme \<Rightarrow> ('a tty_state_scheme + 'a tty_state_scheme) option" where
  "kill_step cw t s =
     (if line_start (tty_table s t) then Some (Inr s)
      else do {
        s \<leftarrow> echo_erase cw t (sint (LAST_OF (secondary (tty_table s t)))) s;
        Some (Inl (upd_secondary t DEC_HEAD s)) })"

definition erase_last ::
  "'a tty_state_scheme con_fn \<Rightarrow> nat \<Rightarrow> 'a tty_state_scheme \<Rightarrow> 'a tty_state_scheme option" where
  "erase_last cw t s =
     (if line_start (tty_table s t) then Some s
      else do {
        s \<leftarrow> echo_erase cw t (sint (LAST_OF (secondary (tty_table s t)))) s;
        Some (upd_secondary t DEC_HEAD s) })"

text \<open>The translation of an input character: \<open>None\<close> when it is dropped (\<open>IGNCR\<close>).\<close>

definition translate :: "(int \<Rightarrow> u8) \<Rightarrow> tty_struct \<Rightarrow> int \<Rightarrow> int option" where
  "translate below x c =
     (let c' = (if c = 13 then
                  (if I_FLAG b_ICRNL x then Some 10 else if I_FLAG b_IGNCR x then None else Some c)
                else if c = 10 \<and> I_FLAG b_INLCR x then Some 13 else Some c)
      in map_option (\<lambda>c. if I_FLAG b_IUCLC x then signed_take_bit 7 (tolower below c) else c) c')"

text \<open>A character that is part of the line: counted, echoed and queued.\<close>

definition echo_char ::
  "'a tty_state_scheme con_fn \<Rightarrow> nat \<Rightarrow> int \<Rightarrow> 'a tty_state_scheme \<Rightarrow> 'a tty_state_scheme option" where
  "echo_char cw t c s =
     (if L_FLAG b_ECHO (tty_table s t) then
        tty_out cw t
          (if c = 10 then upd_write_q t (PUTCH 13) (upd_write_q t (PUTCH 10) s)
           else if c < 32 then
             (if L_FLAG b_ECHOCTL (tty_table s t)
              then upd_write_q t (PUTCH (word_of_int (c + 64))) (upd_write_q t (PUTCH 94) s) else s)
           else upd_write_q t (PUTCH (word_of_int c)) s)
      else Some s)"

definition accept ::
  "'a tty_state_scheme con_fn \<Rightarrow> nat \<Rightarrow> int \<Rightarrow> 'a tty_state_scheme \<Rightarrow> 'a tty_state_scheme option" where
  "accept cw t c s = do {
     let s = (if c = 10 \<or> c = CC VEOF (tty_table s t)
              then upd_secondary t (\<lambda>q. q\<lparr>q_data := q_data q + 1\<rparr>) s else s);
     s \<leftarrow> echo_char cw t c s;
     Some (upd_secondary t (PUTCH (word_of_int c)) s) }"

text \<open>What one character does after the translation.\<close>

definition cook_char ::
  "'a tty_state_scheme con_fn \<Rightarrow> nat \<Rightarrow> int \<Rightarrow> 'a tty_state_scheme \<Rightarrow> 'a tty_state_scheme option" where
  "cook_char cw t c s =
     (let x = tty_table s t in
      if L_FLAG b_ICANON x \<and> c = CC VKILL x then iter (kill_step cw t) s
      else if L_FLAG b_ICANON x \<and> c = CC VERASE x then erase_last cw t s
      else if L_FLAG b_ICANON x \<and> c = CC VSTOP x then Some (upd_tty t (tty_stopped_update (\<lambda>_. True)) s)
      else if L_FLAG b_ICANON x \<and> c = CC VSTART x then Some (upd_tty t (tty_stopped_update (\<lambda>_. False)) s)
      else if L_FLAG b_ISIG x \<and> c = CC VINTR x then Some (tty_intr t (sigbit SIGINT) s)
      else if L_FLAG b_ISIG x \<and> c = CC VQUIT x then Some (tty_intr t (sigbit SIGQUIT) s)
      else accept cw t c s)"

definition cook_step ::
  "'a tty_state_scheme con_fn \<Rightarrow> nat \<Rightarrow> 'a tty_state_scheme \<Rightarrow> ('a tty_state_scheme + 'a tty_state_scheme) option" where
  "cook_step cw t s =
     (if EMPTY (read_q (tty_table s t)) \<or> FULL (secondary (tty_table s t)) then Some (Inr s)
      else do {
        let ch = fst (GETCH (read_q (tty_table s t)));
        let s = upd_read_q t (\<lambda>q. snd (GETCH q)) s;
        case translate (ctype_below s) (tty_table s t) (sint ch) of
          None \<Rightarrow> Some (Inl s)
        | Some c \<Rightarrow> do { s \<leftarrow> cook_char cw t c s; Some (Inl s) } })"

definition copy_to_cooked_with ::
  "'a tty_state_scheme con_fn \<Rightarrow> nat \<Rightarrow> 'a tty_state_scheme \<Rightarrow> 'a tty_state_scheme option" where
  "copy_to_cooked_with cw t s = do {
     s \<leftarrow> iter (cook_step cw t) s;
     Some (wake_up (Some (secondary_waitq t)) s) }"

section \<open>Console output\<close>

text \<open>The answer to \<open>ESC Z\<close>: \<open>ESC [ ? 1 ; 2 c\<close>.\<close>

definition respond ::
  "'a tty_state_scheme con_fn \<Rightarrow> nat \<Rightarrow> 'a tty_state_scheme \<Rightarrow> 'a tty_state_scheme option" where
  "respond cw t s = copy_to_cooked_with cw t (upd_read_q t (fold PUTCH [27, 91, 63, 49, 59, 50, 99]) s)"

definition con_char ::
  "'a tty_state_scheme con_fn \<Rightarrow> nat \<Rightarrow> u8 \<Rightarrow> 'a tty_state_scheme \<Rightarrow> 'a tty_state_scheme option" where
  "con_char cw t ch s =
     (let st = con_state (con s) in
      if st = 0 then Some (con_text (CC VERASE (tty_table s t)) ch s)
      else if st = 1 then
        let s = upd_con (\<lambda>v. v\<lparr>con_state := 0\<rparr>) s
        in if sint ch = 90 then respond cw t s else Some (con_escape ch s)
      else if st = 2 then Some (con_bracket ch s)
      else if st = 3 then Some (con_params ch s)
      else if st = 4 then Some (csi_final ch (upd_con (\<lambda>v. v\<lparr>con_state := 0\<rparr>) s))
      else Some s)"

definition con_step ::
  "'a tty_state_scheme con_fn \<Rightarrow> nat \<Rightarrow> 'a tty_state_scheme \<Rightarrow> 'a tty_state_scheme option" where
  "con_step cw t s =
     con_char cw t (fst (GETCH (write_q (tty_table s t)))) (upd_write_q t (\<lambda>q. snd (GETCH q)) s)"

lemma kill_step_mono [partial_function_mono]:
  "(\<And>t s. mono_option (\<lambda>g. F g t s)) \<Longrightarrow> mono_option (\<lambda>g. kill_step (F g) t s)"
  unfolding kill_step_def echo_erase_def tty_out_def by (intro routine_mono)

lemma cook_step_mono [partial_function_mono]:
  "(\<And>t s. mono_option (\<lambda>g. F g t s)) \<Longrightarrow> mono_option (\<lambda>g. cook_step (F g) t s)"
  unfolding cook_step_def cook_char_def erase_last_def accept_def echo_char_def echo_erase_def tty_out_def
  by (intro routine_mono kill_step_mono)

lemma con_step_mono [partial_function_mono]:
  "(\<And>t s. mono_option (\<lambda>g. F g t s)) \<Longrightarrow> mono_option (\<lambda>g. con_step (F g) t s)"
  unfolding con_step_def con_char_def respond_def copy_to_cooked_with_def by (intro routine_mono cook_step_mono)

partial_function (option) con_write :: "nat \<Rightarrow> 'a tty_state_scheme \<Rightarrow> 'a tty_state_scheme option" where
  "con_write t s = do {
     s \<leftarrow> for_range 0 (unat (CHARS (write_q (tty_table s t)))) (\<lambda>_. con_step con_write t) s;
     Some (set_cursor s) }"

definition copy_to_cooked :: "nat \<Rightarrow> 'a tty_state_scheme \<Rightarrow> 'a tty_state_scheme option" where
  "copy_to_cooked = copy_to_cooked_with con_write"

definition do_tty_interrupt :: "nat \<Rightarrow> 'a tty_state_scheme \<Rightarrow> 'a tty_state_scheme option" where
  "do_tty_interrupt t s = copy_to_cooked t s"

section \<open>Reading\<close>

text \<open>The local variables of \<open>tty_read\<close>: \<open>b\<close>, \<open>b - buf\<close>, \<open>nr\<close>, \<open>minimum\<close>, \<open>time\<close>, \<open>flag\<close> and \<open>oldalarm\<close>.
  When the queue offers nothing the task sleeps (\<open>Read_sleeps\<close>); with an incomplete line in canonical mode
  \<open>sleep_if_empty\<close> returns at once and the loop goes round until an interrupt changes the queue
  (\<open>Read_spins\<close>). Either way the loop continues from its top.\<close>

record read_job =
  rj_b :: u32
  rj_count :: int
  rj_nr :: int
  rj_minimum :: int
  rj_time :: int
  rj_flag :: bool
  rj_oldalarm :: int

datatype read_outcome = Read_returned int | Read_sleeps read_job | Read_spins read_job

definition set_alarm :: "int \<Rightarrow> 'a tty_state_scheme \<Rightarrow> 'a tty_state_scheme" where
  "set_alarm v s = upd_task (current s) (t_alarm_update (\<lambda>_. v)) s"

text \<open>The \<open>do\<close> loop, for at most \<open>k\<close> characters; the first component says that it met the end of file.\<close>

primrec read_chars ::
  "nat \<Rightarrow> nat \<Rightarrow> u32 \<Rightarrow> int \<Rightarrow> 'a tty_state_scheme \<Rightarrow> bool \<times> u32 \<times> int \<times> 'a tty_state_scheme" where
  "read_chars 0 t b count s = (False, b, count, s)"
| "read_chars (Suc k) t b count s =
     (let (ch, q) = GETCH (secondary (tty_table s t));
          eof = (sint ch = CC VEOF (tty_table s t));
          q = (if eof \<or> sint ch = 10 then q\<lparr>q_data := q_data q - 1\<rparr> else q);
          s = upd_secondary t (\<lambda>_. q) s
      in if eof \<and> L_FLAG b_ICANON (tty_table s t) then (True, b, count, s)
         else
           let s = put_fs_byte ch b s
           in if k = 0 \<or> EMPTY (secondary (tty_table s t)) then (False, b + 1, count + 1, s)
              else read_chars k t (b + 1) (count + 1) s)"

definition tty_read_end :: "read_job \<Rightarrow> 'a tty_state_scheme \<Rightarrow> read_outcome \<times> 'a tty_state_scheme" where
  "tty_read_end j s =
     (let s = set_alarm (rj_oldalarm j) s
      in (Read_returned (if t_signal (cur s) \<noteq> 0 \<and> rj_count j = 0 then - EINTR else rj_count j), s))"

definition read_step ::
  "nat \<Rightarrow> read_job \<times> 'a tty_state_scheme
     \<Rightarrow> (read_job \<times> 'a tty_state_scheme) + (read_outcome \<times> 'a tty_state_scheme)" where
  "read_step t = (\<lambda>(j, s).
     let x = tty_table s t; canon = L_FLAG b_ICANON x in
     if rj_nr j \<le> 0 then Inr (tty_read_end j s)
     else if rj_flag j \<and> t_signal (cur s) AND sigbit SIGALRM \<noteq> 0 then
       Inr (tty_read_end j (upd_task (current s) (\<lambda>p. p\<lparr>t_signal := t_signal p AND NOT (sigbit SIGALRM)\<rparr>) s))
     else if t_signal (cur s) \<noteq> 0 then Inr (tty_read_end j s)
     else if EMPTY (secondary x) then Inr (Read_sleeps j, s)
     else if canon \<and> q_data (secondary x) = 0 \<and> LEFT_OF (secondary x) > 20 then Inr (Read_spins j, s)
     else
       let (eof, b, n, s) = read_chars (nat (rj_nr j)) t (rj_b j) (rj_count j) s
       in if eof then Inr (Read_returned n, s)
          else
            let j = j\<lparr>rj_b := b, rj_nr := rj_nr j - (n - rj_count j), rj_count := n\<rparr>;
                again = (rj_oldalarm j = 0 \<or> i32 (rj_time j + jiffies s) < rj_oldalarm j);
                (j, s) = (if rj_time j \<noteq> 0 \<and> \<not> canon
                  then (j\<lparr>rj_flag := again\<rparr>,
                        set_alarm (if again then i32 (rj_time j + jiffies s) else rj_oldalarm j) s)
                  else (j, s))
            in if (if canon then n \<noteq> 0 else n \<ge> rj_minimum j) then Inr (tty_read_end j s)
               else Inl (j, s))"

definition tty_read_loop ::
  "nat \<Rightarrow> read_job \<times> 'a tty_state_scheme \<Rightarrow> (read_outcome \<times> 'a tty_state_scheme) option" where
  "tty_read_loop t = iter (\<lambda>js. Some (read_step t js))"

definition tty_read ::
  "u32 \<Rightarrow> u32 \<Rightarrow> int \<Rightarrow> 'a tty_state_scheme \<Rightarrow> (read_outcome \<times> 'a tty_state_scheme) option" where
  "tty_read channel buf nr s =
     (if channel > 2 \<or> nr < 0 then Some (Read_returned (-1), s)
      else
        let t = unat channel;
            oldalarm = t_alarm (cur s);
            time = 10 * CC VTIME (tty_table s t);
            minimum = CC VMIN (tty_table s t);
            waits = (time \<noteq> 0 \<and> minimum = 0);
            flag = (waits \<and> (oldalarm = 0 \<or> i32 (time + jiffies s) < oldalarm));
            s = (if flag then set_alarm (i32 (time + jiffies s)) s else s);
            minimum = (if waits then 1 else minimum)
        in tty_read_loop t
             (\<lparr>rj_b = buf, rj_count = 0, rj_nr = nr, rj_minimum = min minimum nr, rj_time = time,
               rj_flag = flag, rj_oldalarm = oldalarm\<rparr>, s))"

section \<open>Writing\<close>

text \<open>\<open>tty_write\<close> waits in two places: in \<open>sleep_if_full\<close>, until 128 characters fit (\<open>Write_full\<close>), and
  in \<open>schedule\<close>, after a part of the data was given to the driver (\<open>Write_yields\<close>). Its other local
  variables are \<open>b\<close>, \<open>b - buf\<close> and \<open>nr\<close>.\<close>

datatype write_outcome = Write_returned int | Write_full u32 int int | Write_yields u32 int int

text \<open>One round of the inner loop.\<close>

definition fill_step ::
  "nat \<Rightarrow> (u32 \<times> int \<times> int) \<times> 'a tty_state_scheme
     \<Rightarrow> ((u32 \<times> int \<times> int) \<times> 'a tty_state_scheme) + ((u32 \<times> int \<times> int) \<times> 'a tty_state_scheme)" where
  "fill_step t = (\<lambda>((b, n, nr), s).
     let x = tty_table s t in
     if nr \<le> 0 \<or> FULL (write_q x) then Inr ((b, n, nr), s)
     else
       let c = sint (get_fs_byte b s);
           post = O_FLAG b_OPOST x;
           c = (if post then
                  (if c = 13 \<and> O_FLAG b_OCRNL x then 10 else if c = 10 \<and> O_FLAG b_ONLRET x then 13 else c)
                else c)
       in if post \<and> c = 10 \<and> \<not> cr_flag s \<and> O_FLAG b_ONLCR x then
            Inl ((b, n, nr), upd_write_q t (PUTCH 13) (s\<lparr>cr_flag := True\<rparr>))
          else
            let c = (if post \<and> O_FLAG b_OLCUC x then toupper (ctype_below s) c else c)
            in Inl ((b + 1, n + 1, nr - 1), upd_write_q t (PUTCH (word_of_int c)) (s\<lparr>cr_flag := False\<rparr>)))"

text \<open>The part of a round after \<open>sleep_if_full\<close>.\<close>

definition tty_write_round ::
  "nat \<Rightarrow> (u32 \<times> int \<times> int) \<times> 'a tty_state_scheme \<Rightarrow> (write_outcome \<times> 'a tty_state_scheme) option" where
  "tty_write_round t = (\<lambda>((b, n, nr), s).
     if t_signal (cur s) \<noteq> 0 then Some (Write_returned n, s)
     else do {
       ((b, n, nr), s) \<leftarrow> iter (\<lambda>x. Some (fill_step t x)) ((b, n, nr), s);
       s \<leftarrow> tty_out con_write t s;
       Some (if nr > 0 then Write_yields b n nr else Write_returned n, s) })"

definition tty_write_from ::
  "nat \<Rightarrow> (u32 \<times> int \<times> int) \<times> 'a tty_state_scheme \<Rightarrow> (write_outcome \<times> 'a tty_state_scheme) option" where
  "tty_write_from t = (\<lambda>((b, n, nr), s).
     if nr \<le> 0 then Some (Write_returned n, s)
     else
       let q = write_q (tty_table s t)
       in if FULL q \<and> t_signal (cur s) = 0 \<and> LEFT_OF q < 128 then Some (Write_full b n nr, s)
          else tty_write_round t ((b, n, nr), s))"

definition tty_write ::
  "u32 \<Rightarrow> u32 \<Rightarrow> int \<Rightarrow> 'a tty_state_scheme \<Rightarrow> (write_outcome \<times> 'a tty_state_scheme) option" where
  "tty_write channel buf nr s =
     (if channel > 2 \<or> nr < 0 then Some (Write_returned (-1), s)
      else tty_write_from (unat channel) ((buf, 0, nr), s))"

text \<open>The task runs again: after \<open>Write_full\<close> it looks at the loop condition of \<open>sleep_if_full\<close>, after
  \<open>Write_yields\<close> it starts the next round.\<close>

definition tty_write_resume ::
  "nat \<Rightarrow> write_outcome \<Rightarrow> 'a tty_state_scheme \<Rightarrow> (write_outcome \<times> 'a tty_state_scheme) option" where
  "tty_write_resume t w s = (case w of
     Write_returned n \<Rightarrow> Some (w, s)
   | Write_full b n nr \<Rightarrow>
       if t_signal (cur s) = 0 \<and> LEFT_OF (write_q (tty_table s t)) < 128 then Some (w, s)
       else tty_write_round t ((b, n, nr), s)
   | Write_yields b n nr \<Rightarrow> tty_write_from t ((b, n, nr), s))"

section \<open>Settings\<close>

definition quotient :: "u16 list" where
  "quotient = [0, 2304, 1536, 1047, 857, 768, 576, 384, 192, 96, 64, 48, 24, 12, 6, 3]"

definition change_speed :: "nat \<Rightarrow> 'a tty_state_scheme \<Rightarrow> 'a tty_state_scheme" where
  "change_speed t s =
     (let port = ucast (q_data (read_q (tty_table s t))) :: u16;
          quot = quotient ! unat (c_cflag (tty_termios (tty_table s t)) AND 0xF)
      in if port = 0 then s
         else
           let s = outb 0x80 (port + 3) s;
               s = outb (ucast (quot AND 0xff)) port s;
               s = outb (ucast (drop_bit 8 quot)) (port + 1) s
           in outb 0x03 (port + 3) s)"

definition flush :: "tty_queue \<Rightarrow> tty_queue" where
  "flush q = q\<lparr>q_head := q_tail q\<rparr>"

text \<open>\<open>struct termios\<close> and \<open>struct termio\<close> as bytes. The last byte of a \<open>struct termio\<close> on the stack is
  padding, whatever the stack held (\<open>pad\<close>).\<close>

definition termios_bytes :: "termios \<Rightarrow> bytes" where
  "termios_bytes x =
     (\<lambda>i. if i = 16 then c_line x else if 17 \<le> i \<and> i < 34 then c_cc x (i - 17)
          else put_u16 34 (c_pad x) (put_u32 12 (c_lflag x) (put_u32 8 (c_cflag x) (put_u32 4 (c_oflag x)
            (put_u32 0 (c_iflag x) (\<lambda>_. 0))))) i)"

definition bytes_termios :: "bytes \<Rightarrow> termios" where
  "bytes_termios d = \<lparr>c_iflag = get_u32 0 d, c_oflag = get_u32 4 d, c_cflag = get_u32 8 d, c_lflag = get_u32 12 d,
     c_line = d 16, c_cc = (\<lambda>i. if i < 17 then d (17 + i) else 0), c_pad = get_u16 34 d\<rparr>"

definition termio_bytes :: "termios \<Rightarrow> u8 \<Rightarrow> bytes" where
  "termio_bytes x pad =
     (\<lambda>i. if i = 8 then c_line x else if 9 \<le> i \<and> i < 17 then c_cc x (i - 9) else if i = 17 then pad
          else put_u16 6 (ucast (c_lflag x)) (put_u16 4 (ucast (c_cflag x)) (put_u16 2 (ucast (c_oflag x))
            (put_u16 0 (ucast (c_iflag x)) (\<lambda>_. 0)))) i)"

text \<open>A store to the low half of a \<open>long\<close>.\<close>

definition low_half :: "u16 \<Rightarrow> u32 \<Rightarrow> u32" where
  "low_half v w = (w AND 0xffff0000) OR ucast v"

definition from_termio :: "bytes \<Rightarrow> termios \<Rightarrow> termios" where
  "from_termio d x = x\<lparr>c_iflag := low_half (get_u16 0 d) (c_iflag x), c_oflag := low_half (get_u16 2 d) (c_oflag x),
     c_cflag := low_half (get_u16 4 d) (c_cflag x), c_lflag := low_half (get_u16 6 d) (c_lflag x),
     c_line := d 8, c_cc := (\<lambda>i. if i < 8 then d (9 + i) else c_cc x i)\<rparr>"

definition get_termios :: "nat \<Rightarrow> u32 \<Rightarrow> 'a tty_state_scheme \<Rightarrow> (int \<times> 'a tty_state_scheme) option" where
  "get_termios t p s = do {
     s \<leftarrow> verify_area p 36 s;
     Some (0, to_user 36 (termios_bytes (tty_termios (tty_table s t))) 0 p s) }"

definition set_termios :: "nat \<Rightarrow> u32 \<Rightarrow> 'a tty_state_scheme \<Rightarrow> (int \<times> 'a tty_state_scheme) option" where
  "set_termios t p s =
     Some (0, change_speed t (upd_tty t (\<lambda>x. x\<lparr>tty_termios := bytes_termios (from_user 36 (\<lambda>_. 0) 0 p s)\<rparr>) s))"

definition get_termio :: "u8 \<Rightarrow> nat \<Rightarrow> u32 \<Rightarrow> 'a tty_state_scheme \<Rightarrow> (int \<times> 'a tty_state_scheme) option" where
  "get_termio pad t p s = do {
     s \<leftarrow> verify_area p 18 s;
     Some (0, to_user 18 (termio_bytes (tty_termios (tty_table s t)) pad) 0 p s) }"

definition set_termio :: "nat \<Rightarrow> u32 \<Rightarrow> 'a tty_state_scheme \<Rightarrow> (int \<times> 'a tty_state_scheme) option" where
  "set_termio t p s =
     Some (0, change_speed t
       (upd_tty t (\<lambda>x. x\<lparr>tty_termios := from_termio (from_user 18 (\<lambda>_. 0) 0 p s) (tty_termios x)\<rparr>) s))"

text \<open>The device is not checked against the size of \<open>tty_table\<close>; an index above 2 is whatever follows it.\<close>

definition tty_ioctl ::
  "u8 \<Rightarrow> int \<Rightarrow> u32 \<Rightarrow> u32 \<Rightarrow> 'a tty_state_scheme \<Rightarrow> (int \<times> 'a tty_state_scheme) option" where
  "tty_ioctl pad dev cmd arg s =
     (let dev = (if MAJOR dev = 5 then t_tty (cur s) else MINOR dev);
          t = nat dev;
          put = (\<lambda>v s. do { s \<leftarrow> verify_area arg 4 s; Some (0, put_fs_long (v s) arg s) })
      in
      if dev < 0 then None
      else if cmd = 0x5401 then get_termios t arg s
      else if cmd = 0x5404 then set_termios t arg (upd_read_q t flush s)
      else if cmd = 0x5403 \<or> cmd = 0x5402 then set_termios t arg s
      else if cmd = 0x5405 then get_termio pad t arg s
      else if cmd = 0x5408 then set_termio t arg (upd_read_q t flush s)
      else if cmd = 0x5407 \<or> cmd = 0x5406 then set_termio t arg s
      else if cmd = 0x5409 then Some (0, s)
      else if cmd = 0x540B then
        (if arg = 0 then Some (0, upd_read_q t flush s)
         else if arg = 1 then Some (0, upd_write_q t flush s)
         else if arg = 2 then Some (0, upd_write_q t flush (upd_read_q t flush s))
         else Some (- EINVAL, s))
      else if cmd = 0x540F then put (\<lambda>s. word_of_int (tty_pgrp s t)) s
      else if cmd = 0x5410 then Some (0, s\<lparr>tty_pgrp := (tty_pgrp s)(t := sint (get_fs_long arg s))\<rparr>)
      else if cmd = 0x5411 then put (\<lambda>s. CHARS (write_q (tty_table s t))) s
      else if cmd = 0x541B then put (\<lambda>s. CHARS (secondary (tty_table s t))) s
      else Some (- EINVAL, s))"

end
