(* ===== verification/Disk_Io.thy ===== *)
theory Disk_Io
  imports Tty
begin

text \<open>
  What the drivers of the two disk controllers share. A controller answers from outside the program:
  \<open>io_in n p\<close> is the value of the \<open>n\<close>-th byte read from a port when the port is \<open>p\<close>, so that any sequence of
  answers is allowed. Reading a field of a \<open>NULL\<close> request reads physical memory.
\<close>

record io_state = tty_state +
  io_in :: "nat \<Rightarrow> u16 \<Rightarrow> u8"
  io_reads :: nat

definition io_inb :: "u16 \<Rightarrow> 'a io_state_scheme \<Rightarrow> u8 \<times> 'a io_state_scheme" where
  "io_inb port s = (io_in s (io_reads s) port, s\<lparr>io_reads := io_reads s + 1\<rparr>)"

text \<open>\<open>CURRENT->errors\<close> after \<open>end_request\<close>: the next request, or memory at address 8 when there is none.\<close>

definition current_errors :: "nat \<Rightarrow> 'a fs_state_scheme \<Rightarrow> int" where
  "current_errors major s = (case current_request s major of
     None \<Rightarrow> sint (phys s 8)
   | Some r \<Rightarrow> rq_errors (requests_tab s r))"

definition request_bad :: "nat \<Rightarrow> nat \<Rightarrow> 'a fs_state_scheme \<Rightarrow> bool" where
  "request_bad major r s \<longleftrightarrow> MAJOR (rq_dev (requests_tab s r)) \<noteq> major
     \<or> (case rq_bh (requests_tab s r) of None \<Rightarrow> False | Some b \<Rightarrow> \<not> b_lock (buffers s b))"

end
