(* ===== verification/Hd.thy ===== *)
theory Hd
  imports Dir_Ops User_Memory Ramdisk Disk_Io
begin

text \<open>
  The hard disk driver (\<open>kernel/blk_drv/hd.c\<close>): the commands to the controller, the interrupt handlers that
  move the sectors, the retries, and \<open>sys_setup\<close> with the partition tables.

  \<open>sector_in n\<close> is the 512 bytes of the \<open>n\<close>-th \<open>rep insw\<close>, and \<open>rep outsw\<close> appends its 512 bytes to
  \<open>sectors_out\<close>. A \<open>panic\<close> and a store through a \<open>NULL\<close> request are \<open>None\<close>. Delays are left out.

  The rest of the file system uses \<open>hw_transfer\<close> for a block of a disk; what the driver does to carry it
  out is the subject of \<open>Hd_Transfer\<close>.
\<close>

section \<open>State\<close>

record hd_i_struct =
  hdi_head :: int
  hdi_sect :: int
  hdi_cyl :: int
  hdi_wpcom :: int
  hdi_lzone :: int
  hdi_ctl :: int

record hd_struct =
  start_sect :: int
  nr_sects :: int

text \<open>The interrupt handlers that \<open>do_hd\<close> points to.\<close>

datatype hd_handler = Read_intr | Write_intr | Recal_intr

record hd_state = io_state +
  do_hd :: "hd_handler option"
  hd_recalibrate :: bool
  hd_reset :: bool
  hd_info :: "nat \<Rightarrow> hd_i_struct"
  NR_HD :: nat
  hd_parts :: "nat \<Rightarrow> hd_struct"
  setup_callable :: bool
  sector_in :: "nat \<Rightarrow> bytes"
  sectors_read :: nat
  sectors_out :: "bytes list"

abbreviation (input) HD_DATA :: u16 where "HD_DATA \<equiv> 0x1f0"
abbreviation (input) HD_ERROR :: u16 where "HD_ERROR \<equiv> 0x1f1"
abbreviation (input) HD_STATUS :: u16 where "HD_STATUS \<equiv> 0x1f7"
abbreviation (input) HD_CMD :: u16 where "HD_CMD \<equiv> 0x3f6"
abbreviation (input) WIN_RESTORE :: u8 where "WIN_RESTORE \<equiv> 0x10"
abbreviation (input) WIN_READ :: u8 where "WIN_READ \<equiv> 0x20"
abbreviation (input) WIN_WRITE :: u8 where "WIN_WRITE \<equiv> 0x30"
abbreviation (input) WIN_SPECIFY :: u8 where "WIN_SPECIFY \<equiv> 0x91"

definition ERR_STAT :: u8 where "ERR_STAT = 0x01"
definition DRQ_STAT :: u8 where "DRQ_STAT = 0x08"
definition SEEK_STAT :: u8 where "SEEK_STAT = 0x10"
definition WRERR_STAT :: u8 where "WRERR_STAT = 0x20"
definition READY_STAT :: u8 where "READY_STAT = 0x40"
definition BUSY_STAT :: u8 where "BUSY_STAT = 0x80"

lemmas hd_stats = ERR_STAT_def DRQ_STAT_def SEEK_STAT_def WRERR_STAT_def READY_STAT_def BUSY_STAT_def

section \<open>The controller\<close>

text \<open>\<open>while (--retries && (inb_p(HD_STATUS)&0xc0)!=0x40);\<close>\<close>

primrec ready_loop :: "nat \<Rightarrow> 'a io_state_scheme \<Rightarrow> nat \<times> 'a io_state_scheme" where
  "ready_loop 0 s = (0, s)"
| "ready_loop (Suc retries) s =
     (if retries = 0 then (0, s)
      else let (v, s) = io_inb HD_STATUS s in if v AND 0xc0 \<noteq> 0x40 then ready_loop retries s else (retries, s))"

definition controller_ready :: "'a io_state_scheme \<Rightarrow> nat \<times> 'a io_state_scheme" where
  "controller_ready = ready_loop 10000"

text \<open>The result is true when the command has failed.\<close>

definition win_result :: "'a io_state_scheme \<Rightarrow> bool \<times> 'a io_state_scheme" where
  "win_result s =
     (let (i, s) = io_inb HD_STATUS s in
      if i AND (BUSY_STAT OR READY_STAT OR WRERR_STAT OR SEEK_STAT OR ERR_STAT) = READY_STAT OR SEEK_STAT then (False, s)
      else (True, if i AND 1 \<noteq> 0 then snd (io_inb HD_ERROR s) else s))"

definition hd_out ::
  "u32 \<Rightarrow> u32 \<Rightarrow> u32 \<Rightarrow> u32 \<Rightarrow> u32 \<Rightarrow> u8 \<Rightarrow> hd_handler \<Rightarrow> 'a hd_state_scheme \<Rightarrow> 'a hd_state_scheme option" where
  "hd_out drive nsect sect head cyl cmd intr_addr s =
     (if drive > 1 \<or> head > 15 then None
      else
        let (ready, s) = controller_ready s in
        if ready = 0 then None
        else
          let s = s\<lparr>do_hd := Some intr_addr\<rparr>;
              inf = hd_info s (unat drive);
              s = outb (word_of_int (hdi_ctl inf)) HD_CMD s;
              s = outb (word_of_int (hdi_wpcom inf div 4)) (HD_DATA + 1) s;
              s = outb (ucast nsect) (HD_DATA + 2) s;
              s = outb (ucast sect) (HD_DATA + 3) s;
              s = outb (ucast cyl) (HD_DATA + 4) s;
              s = outb (ucast (drop_bit 8 cyl)) (HD_DATA + 5) s;
              s = outb (ucast (0xA0 OR push_bit 4 drive OR head)) (HD_DATA + 6) s
          in Some (outb cmd (HD_DATA + 7) s))"

primrec busy_loop :: "nat \<Rightarrow> 'a io_state_scheme \<Rightarrow> 'a io_state_scheme" where
  "busy_loop 0 s = s"
| "busy_loop (Suc n) s =
     (let (v, s) = io_inb HD_STATUS s in if READY_STAT = v AND (BUSY_STAT OR READY_STAT) then s else busy_loop n s)"

definition drive_busy :: "'a io_state_scheme \<Rightarrow> bool \<times> 'a io_state_scheme" where
  "drive_busy s =
     (let (i, s) = io_inb HD_STATUS (busy_loop 10000 s)
      in (i AND (BUSY_STAT OR READY_STAT OR SEEK_STAT) \<noteq> READY_STAT OR SEEK_STAT, s))"

text \<open>What \<open>drive_busy\<close> and the error register report is only printed.\<close>

definition reset_controller :: "'a hd_state_scheme \<Rightarrow> 'a hd_state_scheme" where
  "reset_controller s =
     (let s = outb 4 HD_CMD s;
          s = outb (word_of_int (hdi_ctl (hd_info s 0)) AND 0x0f) HD_CMD s;
          (busy, s) = drive_busy s;
          (i, s) = io_inb HD_ERROR s
      in s)"

definition reset_hd :: "nat \<Rightarrow> 'a hd_state_scheme \<Rightarrow> 'a hd_state_scheme option" where
  "reset_hd nr s =
     (let s = reset_controller s; inf = hd_info s nr
      in hd_out (of_nat nr) (word_of_int (hdi_sect inf)) (word_of_int (hdi_sect inf)) (word_of_int (hdi_head inf - 1))
           (word_of_int (hdi_cyl inf)) WIN_SPECIFY Recal_intr s)"

section \<open>Errors\<close>

abbreviation (input) MAX_ERRORS :: int where "MAX_ERRORS \<equiv> 7"

definition bad_rw_intr :: "'a hd_state_scheme \<Rightarrow> 'a hd_state_scheme option" where
  "bad_rw_intr s = (case current_request s 3 of
     None \<Rightarrow> None
   | Some r \<Rightarrow>
       let s = upd_request r (rq_errors_update (\<lambda>e. i32 (e + 1))) s;
           s = (if rq_errors (requests_tab s r) \<ge> MAX_ERRORS then end_request 3 False s else s)
       in Some (if current_errors 3 s > MAX_ERRORS div 2 then s\<lparr>hd_reset := True\<rparr> else s))"

section \<open>Moving data\<close>

text \<open>\<open>port_read(HD_DATA, CURRENT->buffer, 256)\<close> and \<open>port_write\<close>.\<close>

definition port_read :: "nat \<Rightarrow> 'a hd_state_scheme \<Rightarrow> 'a hd_state_scheme" where
  "port_read r s =
     (let d = sector_in s (sectors_read s); k = rq_offset (requests_tab s r)
      in upd_buffer (rq_buffer (requests_tab s r))
           (b_data_update (\<lambda>b i. if k \<le> i \<and> i < k + 512 then d (i - k) else b i))
           (s\<lparr>sectors_read := sectors_read s + 1\<rparr>))"

definition port_write :: "nat \<Rightarrow> 'a hd_state_scheme \<Rightarrow> 'a hd_state_scheme" where
  "port_write r s =
     (let rq = requests_tab s r; b = b_data (buffers s (rq_buffer rq))
      in s\<lparr>sectors_out := sectors_out s @ [\<lambda>i. if i < 512 then b (rq_offset rq + i) else 0]\<rparr>)"

text \<open>\<open>for (i=0; i<3000 && !(r = inb_p(HD_STATUS)&DRQ_STAT); i++)\<close>\<close>

primrec wait_drq :: "nat \<Rightarrow> 'a io_state_scheme \<Rightarrow> bool \<times> 'a io_state_scheme" where
  "wait_drq 0 s = (False, s)"
| "wait_drq (Suc n) s =
     (let (v, s) = io_inb HD_STATUS s in if v AND DRQ_STAT \<noteq> 0 then (True, s) else wait_drq n s)"

section \<open>do_hd_request\<close>

text \<open>The two divisions: the drive, sector, head and cylinder of a block of partition \<open>dev\<close>; \<open>None\<close> for a
  divide error.\<close>

definition hd_address :: "nat \<Rightarrow> u32 \<Rightarrow> 'a hd_state_scheme \<Rightarrow> (nat \<times> u32 \<times> u32 \<times> u32) option" where
  "hd_address dev block s =
     (let block = block + word_of_int (start_sect (hd_parts s dev));
          dev = dev div 5;
          nsec = word_of_int (hdi_sect (hd_info s dev));
          nhead = word_of_int (hdi_head (hd_info s dev))
      in if nsec = 0 then None
         else
           let sec = block mod nsec; block = block div nsec in
           if nhead = 0 then None
           else Some (dev, sec + 1, block mod nhead, block div nhead))"

partial_function (option) do_hd_request :: "'a hd_state_scheme \<Rightarrow> 'a hd_state_scheme option" where
  "do_hd_request s = (case current_request s 3 of
     None \<Rightarrow> Some s
   | Some r \<Rightarrow>
       if request_bad 3 r s then None
       else if nat (MINOR (rq_dev (requests_tab s r))) \<ge> 5 * NR_HD s
         \<or> rq_sector (requests_tab s r) + 2 > word_of_int (nr_sects (hd_parts s (nat (MINOR (rq_dev (requests_tab s r))))))
       then do_hd_request (end_request 3 False s)
       else do {
         (dev, sec, head, cyl) \<leftarrow> hd_address (nat (MINOR (rq_dev (requests_tab s r)))) (rq_sector (requests_tab s r)) s;
         if hd_reset s then reset_hd dev (s\<lparr>hd_reset := False, hd_recalibrate := True\<rparr>)
         else if hd_recalibrate s then
           hd_out (of_nat dev) (word_of_int (hdi_sect (hd_info s dev))) 0 0 0 WIN_RESTORE Recal_intr (s\<lparr>hd_recalibrate := False\<rparr>)
         else if rq_cmd (requests_tab s r) = WRITE then do {
           s \<leftarrow> hd_out (of_nat dev) (rq_nr_sectors (requests_tab s r)) sec head cyl WIN_WRITE Write_intr s;
           case wait_drq 3000 s of
             (drq, s) \<Rightarrow> if \<not> drq then do { s \<leftarrow> bad_rw_intr s; do_hd_request s } else Some (port_write r s) }
         else if rq_cmd (requests_tab s r) = READ then
           hd_out (of_nat dev) (rq_nr_sectors (requests_tab s r)) sec head cyl WIN_READ Read_intr s
         else None })"

section \<open>Interrupts\<close>

definition next_sector :: "nat \<Rightarrow> 'a fs_state_scheme \<Rightarrow> 'a fs_state_scheme" where
  "next_sector r = upd_request r (\<lambda>q. q\<lparr>rq_offset := rq_offset q + 512, rq_sector := rq_sector q + 1\<rparr>)"

definition read_intr :: "'a hd_state_scheme \<Rightarrow> 'a hd_state_scheme option" where
  "read_intr s =
     (let (bad, s) = win_result s in
      if bad then do { s \<leftarrow> bad_rw_intr s; do_hd_request s }
      else case current_request s 3 of
        None \<Rightarrow> None
      | Some r \<Rightarrow>
          let s = port_read r s;
              s = next_sector r (upd_request r (rq_errors_update (\<lambda>_. 0)) s);
              s = upd_request r (rq_nr_sectors_update (\<lambda>n. n - 1)) s
          in if rq_nr_sectors (requests_tab s r) \<noteq> 0 then Some (s\<lparr>do_hd := Some Read_intr\<rparr>)
             else do_hd_request (end_request 3 True s))"

definition write_intr :: "'a hd_state_scheme \<Rightarrow> 'a hd_state_scheme option" where
  "write_intr s =
     (let (bad, s) = win_result s in
      if bad then do { s \<leftarrow> bad_rw_intr s; do_hd_request s }
      else case current_request s 3 of
        None \<Rightarrow> None
      | Some r \<Rightarrow>
          let s = upd_request r (rq_nr_sectors_update (\<lambda>n. n - 1)) s
          in if rq_nr_sectors (requests_tab s r) \<noteq> 0
             then Some (port_write r ((next_sector r s)\<lparr>do_hd := Some Write_intr\<rparr>))
             else do_hd_request (end_request 3 True s))"

definition recal_intr :: "'a hd_state_scheme \<Rightarrow> 'a hd_state_scheme option" where
  "recal_intr s =
     (let (bad, s) = win_result s
      in if bad then do { s \<leftarrow> bad_rw_intr s; do_hd_request s } else do_hd_request s)"

text \<open>\<open>hd_interrupt\<close> of \<open>system_call.s\<close>: the handler is taken once; without one the interrupt is only reported
  (\<open>unexpected_hd_interrupt\<close>).\<close>

definition hd_interrupt :: "'a hd_state_scheme \<Rightarrow> 'a hd_state_scheme option" where
  "hd_interrupt s =
     (let s' = outb 0x20 0x20 (outb 0x20 0xA0 s)\<lparr>do_hd := None\<rparr> in
      case do_hd s of
        None \<Rightarrow> Some s'
      | Some Read_intr \<Rightarrow> read_intr s'
      | Some Write_intr \<Rightarrow> write_intr s'
      | Some Recal_intr \<Rightarrow> recal_intr s')"

section \<open>Start-up\<close>

text \<open>The gate of the interrupt is added in \<open>Start\<close>.\<close>

definition hd_init :: "'a io_state_scheme \<Rightarrow> 'a io_state_scheme" where
  "hd_init s =
     (let s = s\<lparr>request_fn := (request_fn s)(3 := True)\<rparr>;
          (v, s) = io_inb 0x21 s;
          s = outb (v AND 0xfb) 0x21 s;
          (v, s) = io_inb 0xA1 s
      in outb (v AND 0xbf) 0xA1 s)"

definition bios_u16 :: "addr \<Rightarrow> 'a mm_state_scheme \<Rightarrow> int" where
  "bios_u16 a s = uint (get_byte a s) + 256 * uint (get_byte (a + 1) s)"

definition bios_disk :: "addr \<Rightarrow> 'a mm_state_scheme \<Rightarrow> hd_i_struct" where
  "bios_disk p s = \<lparr>hdi_head = uint (get_byte (p + 2) s), hdi_sect = uint (get_byte (p + 14) s), hdi_cyl = bios_u16 p s,
     hdi_wpcom = bios_u16 (p + 5) s, hdi_lzone = bios_u16 (p + 12) s, hdi_ctl = uint (get_byte (p + 8) s)\<rparr>"

definition CMOS_READ :: "u8 \<Rightarrow> 'a io_state_scheme \<Rightarrow> u8 \<times> 'a io_state_scheme" where
  "CMOS_READ a s = io_inb 0x71 (outb (0x80 OR a) 0x70 s)"

definition whole_disk :: "int \<Rightarrow> nat \<Rightarrow> 'a hd_state_scheme \<Rightarrow> 'a hd_state_scheme" where
  "whole_disk n i s = s\<lparr>hd_parts := (hd_parts s)(i * 5 := \<lparr>start_sect = 0, nr_sects = n\<rparr>)\<rparr>"

definition get_partition :: "bytes \<Rightarrow> nat \<Rightarrow> hd_struct" where
  "get_partition d i = \<lparr>start_sect = sint (get_u32 (0x1BE + 16 * i + 8) d), nr_sects = sint (get_u32 (0x1BE + 16 * i + 12) d)\<rparr>"

definition read_partitions :: "nat \<Rightarrow> 'a hd_state_scheme \<Rightarrow> 'a hd_state_scheme option" where
  "read_partitions drive s = do {
     (bh, s) \<leftarrow> bread (0x300 + int drive * 5) 0 s;
     b \<leftarrow> bh;
     let d = b_data (buffers s b);
     if d 510 \<noteq> 0x55 \<or> d 511 \<noteq> 0xAA then None
     else brelse (Some b) (s\<lparr>hd_parts := fold (\<lambda>i h. h(i + 5 * drive := get_partition d (i - 1))) [1..<5] (hd_parts s)\<rparr>) }"

definition find_disks :: "addr \<Rightarrow> 'a hd_state_scheme \<Rightarrow> 'a hd_state_scheme" where
  "find_disks BIOS s =
     (let s = s\<lparr>hd_info := (hd_info s)(0 := bios_disk BIOS s, 1 := bios_disk (BIOS + 16) s)\<rparr>;
          s = s\<lparr>NR_HD := (if hdi_cyl (hd_info s 1) \<noteq> 0 then 2 else 1)\<rparr>;
          s = fold (\<lambda>i s. whole_disk (i32 (hdi_head (hd_info s i) * hdi_sect (hd_info s i) * hdi_cyl (hd_info s i))) i s)
                [0..<NR_HD s] s;
          (cmos_disks, s) = CMOS_READ 0x12 s;
          s = s\<lparr>NR_HD := (if cmos_disks AND 0xf0 \<noteq> 0 then if cmos_disks AND 0x0f \<noteq> 0 then 2 else 1 else 0)\<rparr>
      in fold (whole_disk 0) [NR_HD s..<2] s)"

text \<open>\<open>keypress\<close> is \<open>wait_for_keypress\<close>. An unreadable or bad partition table is a panic.\<close>

definition sys_setup ::
  "('a hd_state_scheme \<Rightarrow> 'a hd_state_scheme option) \<Rightarrow> addr \<Rightarrow> 'a hd_state_scheme
    \<Rightarrow> (int \<times> 'a hd_state_scheme) option" where
  "sys_setup keypress BIOS s =
     (if \<not> setup_callable s then Some (-1, s)
      else do {
        let s = find_disks BIOS (s\<lparr>setup_callable := False\<rparr>);
        s \<leftarrow> for_range 0 (NR_HD s) read_partitions s;
        s \<leftarrow> rd_load s;
        (_, s) \<leftarrow> mount_root keypress s;
        Some (0, s) })"

section \<open>The static initial values\<close>

definition init_hd :: "tty_state \<Rightarrow> (nat \<Rightarrow> u16 \<Rightarrow> u8) \<Rightarrow> (nat \<Rightarrow> bytes) \<Rightarrow> hd_state" where
  "init_hd s answers sectors = io_state.extend (tty_state.extend s (io_state.fields answers 0))
     (hd_state.fields None True True (\<lambda>_. \<lparr>hdi_head = 0, hdi_sect = 0, hdi_cyl = 0, hdi_wpcom = 0, hdi_lzone = 0, hdi_ctl = 0\<rparr>)
       0 (\<lambda>_. \<lparr>start_sect = 0, nr_sects = 0\<rparr>) True sectors 0 [])"

lemmas init_hd_simps = init_hd_def fs_state.defs tty_state.defs io_state.defs hd_state.defs

end
