(* ===== verification/Floppy.thy ===== *)
theory Floppy
  imports Hd
begin

text \<open>
  The floppy driver (\<open>kernel/blk_drv/floppy.c\<close>): seek, DMA set-up, the command bytes and the results of the
  controller, reset and recalibration, and the interrupt handlers that chain them. \<open>floppy_change\<close> is with
  the super blocks (\<open>Super\<close>), the motor timers are with the scheduler.

  \<open>do_fd_request\<close> calls itself through other functions when a command cannot be given; these take it as an
  argument here (\<open>_with\<close>) and are closed after it. \<open>block_addr\<close> is where the block of a buffer lies in
  memory, and \<open>tmp_floppy_addr\<close> where \<open>tmp_floppy_area\<close> lies. What the controller moves by DMA is not part of these definitions.
  A \<open>panic\<close>, an access through a \<open>NULL\<close> request other than to \<open>errors\<close> and an index behind \<open>floppy_type\<close> are
  \<open>None\<close>. Delays and messages are left out.
\<close>

section \<open>State\<close>

record floppy_struct =
  fl_size :: u32
  fl_sect :: u32
  fl_head :: u32
  fl_track :: u32
  fl_stretch :: u32
  fl_gap :: u8
  fl_rate :: u8
  fl_spec1 :: u8

definition floppy_type :: "floppy_struct list" where
  "floppy_type = map (\<lambda>(n, s, h, t, st, g, r, sp).
     \<lparr>fl_size = n, fl_sect = s, fl_head = h, fl_track = t, fl_stretch = st, fl_gap = g, fl_rate = r, fl_spec1 = sp\<rparr>)
   [(   0,  0, 0,  0, 0, 0x00, 0x00, 0x00),
    ( 720,  9, 2, 40, 0, 0x2A, 0x02, 0xDF),
    (2400, 15, 2, 80, 0, 0x1B, 0x00, 0xDF),
    ( 720,  9, 2, 40, 1, 0x2A, 0x02, 0xDF),
    (1440,  9, 2, 80, 0, 0x2A, 0x02, 0xDF),
    ( 720,  9, 2, 40, 1, 0x23, 0x01, 0xDF),
    (1440,  9, 2, 80, 0, 0x23, 0x01, 0xDF),
    (2880, 18, 2, 80, 0, 0x1B, 0x00, 0xCF)]"

datatype fd_handler = Rw_interrupt | Seek_interrupt | Recal_interrupt | Reset_interrupt

record fd_state = hd_state +
  do_floppy :: "fd_handler option"
  fd_recalibrate :: bool
  fd_reset :: bool
  fd_seek :: bool
  cur_spec1 :: int
  cur_rate :: int
  fd_type :: floppy_struct
  current_drive :: u8
  fd_sector :: u8
  fd_head :: u8
  fd_track :: u8
  seek_track :: u8
  current_track :: u8
  fd_command :: u8
  wait_on_floppy_select :: addr
  reply_buffer :: "nat \<Rightarrow> u8"
  tmp_floppy_area :: bytes
  tmp_floppy_addr :: addr
  block_addr :: "nat \<Rightarrow> addr"

abbreviation (input) FD_STATUS :: u16 where "FD_STATUS \<equiv> 0x3f4"
abbreviation (input) FD_DATA :: u16 where "FD_DATA \<equiv> 0x3f5"
abbreviation (input) FD_DCR :: u16 where "FD_DCR \<equiv> 0x3f7"
abbreviation (input) FD_RECALIBRATE :: u8 where "FD_RECALIBRATE \<equiv> 0x07"
abbreviation (input) FD_SEEK :: u8 where "FD_SEEK \<equiv> 0x0F"
abbreviation (input) FD_READ :: u8 where "FD_READ \<equiv> 0xE6"
abbreviation (input) FD_WRITE :: u8 where "FD_WRITE \<equiv> 0xC5"
abbreviation (input) FD_SENSEI :: u8 where "FD_SENSEI \<equiv> 0x08"
abbreviation (input) FD_SPECIFY :: u8 where "FD_SPECIFY \<equiv> 0x03"
abbreviation (input) DMA_READ :: u8 where "DMA_READ \<equiv> 0x46"
abbreviation (input) DMA_WRITE :: u8 where "DMA_WRITE \<equiv> 0x4A"

definition STATUS_BUSY :: u8 where "STATUS_BUSY = 0x10"
definition STATUS_DIR :: u8 where "STATUS_DIR = 0x40"
definition STATUS_READY :: u8 where "STATUS_READY = 0x80"

definition select_waitq :: "'a fd_state_scheme waitq" where
  "select_waitq = (wait_on_floppy_select, \<lambda>v s. s\<lparr>wait_on_floppy_select := v\<rparr>)"

definition floppy_deselect :: "nat \<Rightarrow> 'a fd_state_scheme \<Rightarrow> 'a fd_state_scheme" where
  "floppy_deselect nr s = wake_up (Some select_waitq) (s\<lparr>selected := 0\<rparr>)"

section \<open>The controller\<close>

definition send_byte :: "u8 \<Rightarrow> 'a fd_state_scheme \<Rightarrow> bool \<times> 'a fd_state_scheme" where
  "send_byte byte s =
     (let (v, s) = io_inb FD_STATUS s
      in if v AND (STATUS_READY OR STATUS_DIR) = STATUS_READY then (True, outb byte FD_DATA s) else (False, s))"

primrec send_loop :: "nat \<Rightarrow> u8 \<Rightarrow> 'a fd_state_scheme \<Rightarrow> 'a fd_state_scheme" where
  "send_loop 0 byte s = s\<lparr>fd_reset := True\<rparr>"
| "send_loop (Suc n) byte s = (let (sent, s) = send_byte byte s in if sent then s else send_loop n byte s)"

definition output_byte :: "u8 \<Rightarrow> 'a fd_state_scheme \<Rightarrow> 'a fd_state_scheme" where
  "output_byte byte s = (if fd_reset s then s else send_loop 10000 byte s)"

abbreviation (input) MAX_REPLIES :: nat where "MAX_REPLIES \<equiv> 7"

primrec result_loop :: "nat \<Rightarrow> nat \<Rightarrow> 'a fd_state_scheme \<Rightarrow> int \<times> 'a fd_state_scheme" where
  "result_loop 0 i s = (-1, s\<lparr>fd_reset := True\<rparr>)"
| "result_loop (Suc n) i s =
     (let (v, s) = io_inb FD_STATUS s; status = v AND (STATUS_DIR OR STATUS_READY OR STATUS_BUSY)
      in if status = STATUS_READY then (int i, s)
         else if status = STATUS_DIR OR STATUS_READY OR STATUS_BUSY then
           if i \<ge> MAX_REPLIES then (-1, s\<lparr>fd_reset := True\<rparr>)
           else let (v, s) = io_inb FD_DATA s in result_loop n (i + 1) (s\<lparr>reply_buffer := (reply_buffer s)(i := v)\<rparr>)
         else result_loop n i s)"

definition fd_result :: "'a fd_state_scheme \<Rightarrow> int \<times> 'a fd_state_scheme" where
  "fd_result s = (if fd_reset s then (-1, s) else result_loop 10000 0 s)"

section \<open>DMA\<close>

definition buffer_addr :: "nat \<Rightarrow> 'a fd_state_scheme \<Rightarrow> addr" where
  "buffer_addr r s = block_addr s (rq_buffer (requests_tab s r)) + of_nat (rq_offset (requests_tab s r))"

text \<open>\<open>copy_buffer\<close>, to and from the buffer of a request.\<close>

definition copy_to_area :: "nat \<Rightarrow> 'a fd_state_scheme \<Rightarrow> 'a fd_state_scheme" where
  "copy_to_area r s =
     (let rq = requests_tab s r; d = b_data (buffers s (rq_buffer rq))
      in s\<lparr>tmp_floppy_area := (\<lambda>i. if i < BLOCK_SIZE then d (rq_offset rq + i) else tmp_floppy_area s i)\<rparr>)"

definition put_block :: "nat \<Rightarrow> bytes \<Rightarrow> 'a fs_state_scheme \<Rightarrow> 'a fs_state_scheme" where
  "put_block r d s =
     (let rq = requests_tab s r; k = rq_offset rq
      in upd_buffer (rq_buffer rq) (b_data_update (\<lambda>b i. if k \<le> i \<and> i < k + BLOCK_SIZE then d (i - k) else b i)) s)"

definition setup_DMA :: "nat \<Rightarrow> 'a fd_state_scheme \<Rightarrow> 'a fd_state_scheme" where
  "setup_DMA r s =
     (let addr = buffer_addr r s;
          (addr, s) = (if 0x100000 <=s addr
                       then (tmp_floppy_addr s, if fd_command s = FD_WRITE then copy_to_area r s else s)
                       else (addr, s));
          s = outb (4 OR 2) 10 s;
          mode = (if fd_command s = FD_READ then DMA_READ else DMA_WRITE);
          s = outb mode 11 (outb mode 12 s);
          s = outb (ucast addr) 4 s;
          s = outb (ucast (drop_bit 8 addr)) 4 s;
          s = outb (ucast (drop_bit 16 addr)) 0x81 s;
          s = outb 0xff 5 s;
          s = outb 3 5 s
      in outb (0 OR 2) 10 s)"

section \<open>Errors\<close>

abbreviation (input) FD_MAX_ERRORS :: int where "FD_MAX_ERRORS \<equiv> 8"

definition bad_flp_intr :: "'a fd_state_scheme \<Rightarrow> 'a fd_state_scheme option" where
  "bad_flp_intr s = (case current_request s 2 of
     None \<Rightarrow> None
   | Some r \<Rightarrow>
       let s = upd_request r (rq_errors_update (\<lambda>e. i32 (e + 1))) s;
           s = (if rq_errors (requests_tab s r) > FD_MAX_ERRORS
                then end_request 2 False (floppy_deselect (unat (current_drive s)) s) else s)
       in Some (if current_errors 2 s > FD_MAX_ERRORS div 2 then s\<lparr>fd_reset := True\<rparr> else s\<lparr>fd_recalibrate := True\<rparr>))"

section \<open>Commands\<close>

definition head_drive :: "'a fd_state_scheme \<Rightarrow> u8" where
  "head_drive s = push_bit 2 (fd_head s) OR current_drive s"

definition output_bytes :: "u8 list \<Rightarrow> 'a fd_state_scheme \<Rightarrow> 'a fd_state_scheme" where
  "output_bytes bs s = fold output_byte bs s"

definition setup_rw_floppy_with ::
  "('a fd_state_scheme \<Rightarrow> 'a fd_state_scheme option) \<Rightarrow> 'a fd_state_scheme \<Rightarrow> 'a fd_state_scheme option" where
  "setup_rw_floppy_with do_fd_request s = (case current_request s 2 of
     None \<Rightarrow> None
   | Some r \<Rightarrow>
       let s = (setup_DMA r s)\<lparr>do_floppy := Some Rw_interrupt\<rparr>;
           s = output_bytes [fd_command s, head_drive s, fd_track s, fd_head s, fd_sector s, 2,
                 ucast (fl_sect (fd_type s)), fl_gap (fd_type s), 0xFF] s
       in if fd_reset s then do_fd_request s else Some s)"

definition transfer_with ::
  "('a fd_state_scheme \<Rightarrow> 'a fd_state_scheme option) \<Rightarrow> 'a fd_state_scheme \<Rightarrow> 'a fd_state_scheme option" where
  "transfer_with do_fd_request s =
     (let s = (if cur_spec1 s \<noteq> uint (fl_spec1 (fd_type s)) then
                 let s = s\<lparr>cur_spec1 := uint (fl_spec1 (fd_type s))\<rparr>
                 in output_bytes [FD_SPECIFY, word_of_int (cur_spec1 s), 6] s
               else s);
          s = (if cur_rate s \<noteq> uint (fl_rate (fd_type s)) then
                 let s = s\<lparr>cur_rate := uint (fl_rate (fd_type s))\<rparr> in outb (word_of_int (cur_rate s)) FD_DCR s
               else s)
      in if fd_reset s then do_fd_request s
         else if \<not> fd_seek s then setup_rw_floppy_with do_fd_request s
         else
           let s = s\<lparr>do_floppy := Some Seek_interrupt\<rparr>;
               s = output_bytes (if seek_track s \<noteq> 0 then [FD_SEEK, head_drive s, seek_track s]
                     else [FD_RECALIBRATE, head_drive s]) s
           in if fd_reset s then do_fd_request s else Some s)"

definition recalibrate_floppy_with ::
  "('a fd_state_scheme \<Rightarrow> 'a fd_state_scheme option) \<Rightarrow> 'a fd_state_scheme \<Rightarrow> 'a fd_state_scheme option" where
  "recalibrate_floppy_with do_fd_request s =
     (let s = s\<lparr>fd_recalibrate := False, current_track := 0, do_floppy := Some Recal_interrupt\<rparr>;
          s = output_bytes [FD_RECALIBRATE, head_drive s] s
      in if fd_reset s then do_fd_request s else Some s)"

definition reset_floppy :: "'a fd_state_scheme \<Rightarrow> 'a fd_state_scheme" where
  "reset_floppy s =
     (let s = s\<lparr>fd_reset := False, cur_spec1 := -1, cur_rate := -1, fd_recalibrate := True, do_floppy := Some Reset_interrupt\<rparr>
      in outb (current_DOR s) FD_DOR (outb (current_DOR s AND NOT 0x04) FD_DOR s))"

text \<open>The addresses of the two functions that timers call; which they are does not matter.\<close>

definition transfer_fn :: u32 where "transfer_fn = 1"
definition floppy_on_fn :: u32 where "floppy_on_fn = 2"

text \<open>\<open>add_timer\<close> calls the function at once when no time is left.\<close>

definition start_timer ::
  "int \<Rightarrow> u32 \<Rightarrow> ('a fd_state_scheme \<Rightarrow> 'a fd_state_scheme option) \<Rightarrow> 'a fd_state_scheme \<Rightarrow> 'a fd_state_scheme option" where
  "start_timer j fn f s = (if j \<le> 0 then f s else add_timer (\<lambda>_. Some) j fn s)"

definition floppy_on_interrupt_with ::
  "('a fd_state_scheme \<Rightarrow> 'a fd_state_scheme option) \<Rightarrow> 'a fd_state_scheme \<Rightarrow> 'a fd_state_scheme option" where
  "floppy_on_interrupt_with do_fd_request s =
     (let s = s\<lparr>selected := 1\<rparr> in
      if current_drive s \<noteq> current_DOR s AND 3 then
        let s = s\<lparr>current_DOR := (current_DOR s AND 0xFC) OR current_drive s\<rparr>
        in start_timer 2 transfer_fn (transfer_with do_fd_request) (outb (current_DOR s) FD_DOR s)
      else transfer_with do_fd_request s)"

section \<open>do_fd_request\<close>

text \<open>Where the block of a request lies on the medium, and the command; \<open>None\<close> is the panic or a divide error.\<close>

definition set_position :: "nat \<Rightarrow> 'a fd_state_scheme \<Rightarrow> 'a fd_state_scheme option" where
  "set_position r s =
     (if fl_sect (fd_type s) = 0 \<or> fl_head (fd_type s) = 0 then None
      else
      let block = rq_sector (requests_tab s r);
          s = s\<lparr>fd_sector := ucast (block mod fl_sect (fd_type s))\<rparr>;
          block = block div fl_sect (fd_type s);
          s = s\<lparr>fd_head := ucast (block mod fl_head (fd_type s)), fd_track := ucast (block div fl_head (fd_type s))\<rparr>;
          s = s\<lparr>seek_track := push_bit (unat (fl_stretch (fd_type s))) (fd_track s)\<rparr>;
          s = (if seek_track s \<noteq> current_track s then s\<lparr>fd_seek := True\<rparr> else s);
          s = s\<lparr>fd_sector := fd_sector s + 1\<rparr>
      in if rq_cmd (requests_tab s r) = READ then Some (s\<lparr>fd_command := FD_READ\<rparr>)
         else if rq_cmd (requests_tab s r) = WRITE then Some (s\<lparr>fd_command := FD_WRITE\<rparr>)
         else None)"

text \<open>From \<open>INIT_REQUEST\<close> to the acceptance of a request: the requests that lie beyond the end of the medium
  are ended. The result is the request.\<close>

partial_function (option) accept_request :: "'a fd_state_scheme \<Rightarrow> (nat option \<times> 'a fd_state_scheme) option" where
  "accept_request s = (case current_request s 2 of
     None \<Rightarrow> Some (None, s)
   | Some r \<Rightarrow>
       if request_bad 2 r s \<or> nat (MINOR (rq_dev (requests_tab s r))) div 4 \<ge> length floppy_type then None
       else
         let s = s\<lparr>fd_type := floppy_type ! (nat (MINOR (rq_dev (requests_tab s r))) div 4)\<rparr>;
             drive = word_of_int (rq_dev (requests_tab s r)) AND 3;
             s = (if current_drive s \<noteq> drive then s\<lparr>fd_seek := True\<rparr> else s);
             s = s\<lparr>current_drive := drive\<rparr>
         in if rq_sector (requests_tab s r) + 2 > fl_size (fd_type s) then accept_request (end_request 2 False s)
            else Some (Some r, s))"

lemma setup_rw_floppy_with_mono [partial_function_mono]:
  "mono_option (\<lambda>f. setup_rw_floppy_with f s)"
  unfolding setup_rw_floppy_with_def by (intro routine_mono call_mono)

lemma transfer_with_mono [partial_function_mono]: "mono_option (\<lambda>f. transfer_with f s)"
  unfolding transfer_with_def by (intro routine_mono call_mono setup_rw_floppy_with_mono)

lemma recalibrate_floppy_with_mono [partial_function_mono]: "mono_option (\<lambda>f. recalibrate_floppy_with f s)"
  unfolding recalibrate_floppy_with_def by (intro routine_mono call_mono)

lemma start_timer_mono [partial_function_mono]:
  "(\<And>s. mono_option (\<lambda>g. F g s)) \<Longrightarrow> mono_option (\<lambda>g. start_timer j fn (F g) s)"
  unfolding start_timer_def by (intro routine_mono)

lemma floppy_on_interrupt_with_mono [partial_function_mono]: "mono_option (\<lambda>f. floppy_on_interrupt_with f s)"
  unfolding floppy_on_interrupt_with_def by (intro routine_mono start_timer_mono transfer_with_mono)

partial_function (option) do_fd_request :: "'a fd_state_scheme \<Rightarrow> 'a fd_state_scheme option" where
  "do_fd_request s =
     (let s = s\<lparr>fd_seek := False\<rparr> in
      if fd_reset s then Some (reset_floppy s)
      else if fd_recalibrate s then recalibrate_floppy_with do_fd_request s
      else do {
        (r, s) \<leftarrow> accept_request s;
        case r of
          None \<Rightarrow> Some s
        | Some r \<Rightarrow> do {
            s \<leftarrow> set_position r s;
            (ticks, s) \<leftarrow> ticks_to_floppy_on (unat (current_drive s)) s;
            start_timer ticks floppy_on_fn (floppy_on_interrupt_with do_fd_request) s } })"

definition setup_rw_floppy :: "'a fd_state_scheme \<Rightarrow> 'a fd_state_scheme option" where
  "setup_rw_floppy = setup_rw_floppy_with do_fd_request"

definition transfer :: "'a fd_state_scheme \<Rightarrow> 'a fd_state_scheme option" where
  "transfer = transfer_with do_fd_request"

definition recalibrate_floppy :: "'a fd_state_scheme \<Rightarrow> 'a fd_state_scheme option" where
  "recalibrate_floppy = recalibrate_floppy_with do_fd_request"

definition floppy_on_interrupt :: "'a fd_state_scheme \<Rightarrow> 'a fd_state_scheme option" where
  "floppy_on_interrupt = floppy_on_interrupt_with do_fd_request"

text \<open>A timer that fires.\<close>

definition floppy_timer :: "u32 \<Rightarrow> 'a fd_state_scheme \<Rightarrow> 'a fd_state_scheme option" where
  "floppy_timer fn s =
     (if fn = transfer_fn then transfer s else if fn = floppy_on_fn then floppy_on_interrupt s else Some s)"

section \<open>Interrupts\<close>

definition rw_interrupt :: "'a fd_state_scheme \<Rightarrow> 'a fd_state_scheme option" where
  "rw_interrupt s =
     (let (n, s) = fd_result s; st = reply_buffer s in
      if n \<noteq> 7 \<or> st 0 AND 0xf8 \<noteq> 0 \<or> st 1 AND 0xbf \<noteq> 0 \<or> st 2 AND 0x73 \<noteq> 0 then do {
        s \<leftarrow> (if st 1 AND 0x02 \<noteq> 0
              then (if current_request s 2 = None then None
                    else Some (end_request 2 False (floppy_deselect (unat (current_drive s)) s)))
              else bad_flp_intr s);
        do_fd_request s }
      else case current_request s 2 of
        None \<Rightarrow> None
      | Some r \<Rightarrow>
          let s = (if fd_command s = FD_READ \<and> buffer_addr r s \<ge> 0x100000 then put_block r (tmp_floppy_area s) s else s)
          in do_fd_request (end_request 2 True (floppy_deselect (unat (current_drive s)) s)))"

definition seek_interrupt :: "'a fd_state_scheme \<Rightarrow> 'a fd_state_scheme option" where
  "seek_interrupt s =
     (let (n, s) = fd_result (output_byte FD_SENSEI s); st = reply_buffer s in
      if n \<noteq> 2 \<or> st 0 AND 0xF8 \<noteq> 0x20 \<or> st 1 \<noteq> seek_track s then do {
        s \<leftarrow> bad_flp_intr s;
        do_fd_request s }
      else setup_rw_floppy (s\<lparr>current_track := st 1\<rparr>))"

definition recal_interrupt :: "'a fd_state_scheme \<Rightarrow> 'a fd_state_scheme option" where
  "recal_interrupt s =
     (let (n, s) = fd_result (output_byte FD_SENSEI s) in
      do_fd_request (if n \<noteq> 2 \<or> reply_buffer s 0 AND 0xE0 = 0x60 then s\<lparr>fd_reset := True\<rparr>
        else s\<lparr>fd_recalibrate := False\<rparr>))"

definition unexpected_floppy_interrupt :: "'a fd_state_scheme \<Rightarrow> 'a fd_state_scheme" where
  "unexpected_floppy_interrupt s =
     (let (n, s) = fd_result (output_byte FD_SENSEI s) in
      if n \<noteq> 2 \<or> reply_buffer s 0 AND 0xE0 = 0x60 then s\<lparr>fd_reset := True\<rparr> else s\<lparr>fd_recalibrate := True\<rparr>)"

definition reset_interrupt :: "'a fd_state_scheme \<Rightarrow> 'a fd_state_scheme option" where
  "reset_interrupt s =
     (let (n, s) = fd_result (output_byte FD_SENSEI s)
      in do_fd_request (output_bytes [FD_SPECIFY, word_of_int (cur_spec1 s), 6] s))"

text \<open>\<open>floppy_interrupt\<close> of \<open>system_call.s\<close>.\<close>

definition floppy_interrupt :: "'a fd_state_scheme \<Rightarrow> 'a fd_state_scheme option" where
  "floppy_interrupt s =
     (let s' = (outb 0x20 0x20 s)\<lparr>do_floppy := None\<rparr> in
      case do_floppy s of
        None \<Rightarrow> Some (unexpected_floppy_interrupt s')
      | Some Rw_interrupt \<Rightarrow> rw_interrupt s'
      | Some Seek_interrupt \<Rightarrow> seek_interrupt s'
      | Some Recal_interrupt \<Rightarrow> recal_interrupt s'
      | Some Reset_interrupt \<Rightarrow> reset_interrupt s')"

text \<open>The gate of the interrupt is added in \<open>Start\<close>.\<close>

definition floppy_init :: "'a io_state_scheme \<Rightarrow> 'a io_state_scheme" where
  "floppy_init s =
     (let s = s\<lparr>request_fn := (request_fn s)(2 := True)\<rparr>;
          (v, s) = io_inb 0x21 s
      in outb (v AND NOT 0x40) 0x21 s)"

section \<open>The static initial values\<close>

definition init_fd :: "hd_state \<Rightarrow> fd_state" where
  "init_fd s = hd_state.extend s
     (fd_state.fields None False False False (-1) (-1) (floppy_type ! 0) 0 0 0 0 0 255 0 0 (\<lambda>_. 0) (\<lambda>_. 0) 0x4000 (\<lambda>_. 0x100000))"

lemmas init_fd_simps = init_fd_def fd_state.defs init_hd_simps init_tty_state_def

end
