(* ===== verification/Vsprintf.thy ===== *)
theory Vsprintf
  imports Kernel_Prelude
begin

text \<open>
  \<open>kernel/vsprintf.c\<close>. The output buffer is the list of characters written so far, a format is the list
  of its characters up to the terminating NUL (its end is read as NUL), and the variadic arguments are the
  longs that follow the format on the stack: \<open>args k\<close> is what the \<open>k\<close>-th \<open>va_arg\<close> reads. Strings
  (\<open>%s\<close>) and counters (\<open>%n\<close>) live in \<open>vs_mem\<close>, which neither the format nor the output buffer overlaps.
\<close>

abbreviation NUL :: char where "NUL \<equiv> CHR 0x00"

definition is_digit :: "char \<Rightarrow> bool" where
  "is_digit c \<longleftrightarrow> of_char c \<ge> (48 :: nat) \<and> of_char c \<le> (57 :: nat)"

definition peek :: "string \<Rightarrow> char" where
  "peek fmt = (case fmt of [] \<Rightarrow> NUL | c # _ \<Rightarrow> c)"

text \<open>The loop of \<open>skip_atoi\<close>, with the value read so far.\<close>

fun skip_atoi :: "string \<Rightarrow> int \<Rightarrow> int \<times> string" where
  "skip_atoi [] i = (i, [])"
| "skip_atoi (c # s) i = (if is_digit c then skip_atoi s (i32 (i * 10 + of_char c - 48)) else (i, c # s))"

definition ZEROPAD :: u32 where "ZEROPAD = 1"
definition SIGN :: u32 where "SIGN = 2"
definition PLUS :: u32 where "PLUS = 4"
definition SPACE :: u32 where "SPACE = 8"
definition LEFT :: u32 where "LEFT = 16"
definition SPECIAL :: u32 where "SPECIAL = 32"
definition SMALL :: u32 where "SMALL = 64"

lemmas flag_defs = ZEROPAD_def SIGN_def PLUS_def SPACE_def LEFT_def SPECIAL_def SMALL_def

section \<open>number\<close>

text \<open>\<open>while (num != 0) tmp[i++] = digits[do_div(num, base)]\<close>: \<open>divl\<close> divides the unsigned number, so the
  loop is one on natural numbers; the least significant digit comes first.\<close>

function tmp_digits :: "string \<Rightarrow> nat \<Rightarrow> nat \<Rightarrow> string" where
  "tmp_digits digits base n = (if n = 0 \<or> base < 2 then [] else digits ! (n mod base) # tmp_digits digits base (n div base))"
  by auto
termination by (relation "measure (\<lambda>(_, _, n). n)") (auto intro!: div_less_dividend)

declare tmp_digits.simps [simp del]

text \<open>\<open>while (size-- > 0) *str++ = c\<close>: what it writes and the value it leaves in \<open>size\<close>.\<close>

function pad_loop :: "char \<Rightarrow> int \<Rightarrow> string \<times> int" where
  "pad_loop c width = (if width > 0 then (let (s, left) = pad_loop c (width - 1) in (c # s, left)) else ([], i32 (width - 1)))"
  by auto
termination by (relation "measure (\<lambda>(_, width). nat width)") auto

declare pad_loop.simps [simp del]

definition digit_chars :: "u32 \<Rightarrow> string" where
  "digit_chars type = (if type AND SMALL \<noteq> 0 then ''0123456789abcdefghijklmnopqrstuvwxyz''
     else ''0123456789ABCDEFGHIJKLMNOPQRSTUVWXYZ'')"

text \<open>What \<open>number\<close> appends to the buffer; \<open>None\<close> is its NULL result for a bad base.\<close>

definition number :: "u32 \<Rightarrow> nat \<Rightarrow> int \<Rightarrow> int \<Rightarrow> u32 \<Rightarrow> string option" where
  "number num base width precision type =
     (let digits = digit_chars type;
          type = (if type AND LEFT \<noteq> 0 then type AND NOT ZEROPAD else type)
      in if base < 2 \<or> base > 36 then None
      else
        let c = (if type AND ZEROPAD \<noteq> 0 then CHR ''0'' else CHR '' '');
            negative = type AND SIGN \<noteq> 0 \<and> sint num < 0;
            num = (if negative then - num else num);
            sign = (if negative then ''-'' else if type AND PLUS \<noteq> 0 then ''+'' else if type AND SPACE \<noteq> 0 then '' '' else []);
            width = (if sign \<noteq> [] then i32 (width - 1) else width);
            width = (if type AND SPECIAL \<noteq> 0 then
                      (if base = 16 then i32 (width - 2) else if base = 8 then i32 (width - 1) else width)
                    else width);
            tmp = (if num = 0 then ''0'' else tmp_digits digits base (unat num));
            i = int (length tmp);
            precision = (if i > precision then i else precision);
            width = i32 (width - precision);
            (blanks, width) = (if type AND (ZEROPAD + LEFT) = 0 then pad_loop (CHR '' '') width else ([], width));
            prefix = (if type AND SPECIAL \<noteq> 0 then
                        (if base = 8 then ''0'' else if base = 16 then [CHR ''0'', digits ! 33] else [])
                      else []);
            (fill, width) = (if type AND LEFT = 0 then pad_loop c width else ([], width));
            (zeros, _) = pad_loop (CHR ''0'') (precision - i);
            (trail, _) = pad_loop (CHR '' '') width
        in Some (blanks @ sign @ prefix @ fill @ zeros @ rev tmp @ trail))"

section \<open>vsprintf\<close>

record vs_state =
  vs_out :: string
  vs_mem :: "addr \<Rightarrow> u8"
  vs_argi :: nat

definition emit :: "string \<Rightarrow> vs_state \<Rightarrow> vs_state" where
  "emit t s = s\<lparr>vs_out := vs_out s @ t\<rparr>"

definition va_arg :: "(nat \<Rightarrow> u32) \<Rightarrow> vs_state \<Rightarrow> u32 \<times> vs_state" where
  "va_arg args s = (args (vs_argi s), s\<lparr>vs_argi := vs_argi s + 1\<rparr>)"

text \<open>The characters of a C string in memory: \<open>strlen\<close> and the loop that copies them. A memory without a
  NUL has no such list.\<close>

partial_function (option) c_string :: "(addr \<Rightarrow> u8) \<Rightarrow> addr \<Rightarrow> string option" where
  "c_string m a = (if m a = 0 then Some [] else do { t \<leftarrow> c_string m (a + 1); Some (char_of (unat (m a)) # t) })"

fun scan_flags :: "string \<Rightarrow> u32 \<Rightarrow> u32 \<times> string" where
  "scan_flags [] flags = (flags, [])"
| "scan_flags (c # fmt) flags =
    (if c = CHR ''-'' then scan_flags fmt (flags OR LEFT)
     else if c = CHR ''+'' then scan_flags fmt (flags OR PLUS)
     else if c = CHR '' '' then scan_flags fmt (flags OR SPACE)
     else if c = CHR ''#'' then scan_flags fmt (flags OR SPECIAL)
     else if c = CHR ''0'' then scan_flags fmt (flags OR ZEROPAD)
     else (flags, c # fmt))"

definition scan_width :: "(nat \<Rightarrow> u32) \<Rightarrow> string \<Rightarrow> u32 \<Rightarrow> vs_state \<Rightarrow> int \<times> u32 \<times> string \<times> vs_state" where
  "scan_width args fmt flags s =
     (if is_digit (peek fmt) then (let (w, fmt) = skip_atoi fmt 0 in (w, flags, fmt, s))
      else if peek fmt = CHR ''*'' then
        (let (v, s) = va_arg args s; w = sint v
         in if w < 0 then (i32 (- w), flags OR LEFT, fmt, s) else (w, flags, fmt, s))
      else (-1, flags, fmt, s))"

definition scan_precision :: "(nat \<Rightarrow> u32) \<Rightarrow> string \<Rightarrow> vs_state \<Rightarrow> int \<times> string \<times> vs_state" where
  "scan_precision args fmt s =
     (if peek fmt = CHR ''.'' then
        (let fmt = List.tl fmt;
             (p, fmt, s) = (if is_digit (peek fmt) then (let (p, fmt) = skip_atoi fmt 0 in (p, fmt, s))
                            else if peek fmt = CHR ''*'' then (let (v, s) = va_arg args s in (sint v, fmt, s))
                            else (-1, fmt, s))
         in (if p < 0 then 0 else p, fmt, s))
      else (-1, fmt, s))"

definition skip_qualifier :: "string \<Rightarrow> string" where
  "skip_qualifier fmt = (if peek fmt \<in> {CHR ''h'', CHR ''l'', CHR ''L''} then List.tl fmt else fmt)"

text \<open>\<open>while (--n > 0) *str++ = ' '\<close> and \<open>while (len < n--) *str++ = ' '\<close>, with the value left in \<open>n\<close>.\<close>

definition pad_char :: "int \<Rightarrow> string \<times> int" where
  "pad_char n = (fst (pad_loop (CHR '' '') (i32 (n - 1))), if i32 (n - 1) > 0 then 0 else i32 (n - 1))"

definition pad_string :: "int \<Rightarrow> int \<Rightarrow> string \<times> int" where
  "pad_string len n = (fst (pad_loop (CHR '' '') (n - len)), if len < n then i32 (len - 1) else i32 (n - 1))"

text \<open>The \<open>switch\<close> on the conversion character \<open>c\<close>.\<close>

definition put_number :: "u32 \<Rightarrow> nat \<Rightarrow> int \<Rightarrow> int \<Rightarrow> u32 \<Rightarrow> vs_state \<Rightarrow> vs_state option" where
  "put_number v base width precision flags s = do { t \<leftarrow> number v base width precision flags; Some (emit t s) }"

definition convert :: "(nat \<Rightarrow> u32) \<Rightarrow> char \<Rightarrow> u32 \<Rightarrow> int \<Rightarrow> int \<Rightarrow> vs_state \<Rightarrow> vs_state option" where
  "convert args c flags width precision s =
     (if c = CHR ''c'' then
        (let (before, width) = (if flags AND LEFT = 0 then pad_char width else ([], width));
             (v, s) = va_arg args s;
             (after, _) = pad_char width
         in Some (emit (before @ [char_of (unat v)] @ after) s))
      else if c = CHR ''s'' then
        (let (v, s) = va_arg args s
         in do {
           t \<leftarrow> c_string (vs_mem s) v;
           let len = int (length t);
           let len = (if precision < 0 then len else if len > precision then precision else len);
           let (before, width) = (if flags AND LEFT = 0 then pad_string len width else ([], width));
           let (after, _) = pad_string len width;
           Some (emit (before @ take (nat len) t @ after) s) })
      else if c = CHR ''o'' then (let (v, s) = va_arg args s in put_number v 8 width precision flags s)
      else if c = CHR ''p'' then
        (let (width, flags) = (if width = -1 then (8, flags OR ZEROPAD) else (width, flags));
             (v, s) = va_arg args s
         in put_number v 16 width precision flags s)
      else if c = CHR ''x'' then (let (v, s) = va_arg args s in put_number v 16 width precision (flags OR SMALL) s)
      else if c = CHR ''X'' then (let (v, s) = va_arg args s in put_number v 16 width precision flags s)
      else if c = CHR ''d'' \<or> c = CHR ''i'' then (let (v, s) = va_arg args s in put_number v 10 width precision (flags OR SIGN) s)
      else if c = CHR ''u'' then (let (v, s) = va_arg args s in put_number v 10 width precision flags s)
      else if c = CHR ''n'' then
        (let (v, s) = va_arg args s; w = of_nat (length (vs_out s)) :: u32
         in Some (s\<lparr>vs_mem := (vs_mem s)(v := ucast w, v + 1 := ucast (drop_bit 8 w),
                                          v + 2 := ucast (drop_bit 16 w), v + 3 := ucast (drop_bit 24 w))\<rparr>))
      else Some (emit (if c = CHR ''%'' then [c] else [CHR ''%'', c]) s))"

lemma skip_atoi_length: "skip_atoi s i = (j, t) \<Longrightarrow> length t \<le> length s"
  by (induction s i rule: skip_atoi.induct) (auto split: if_splits)

lemma scan_flags_length: "scan_flags s f = (g, t) \<Longrightarrow> length t \<le> length s"
  by (induction s f rule: scan_flags.induct) (auto split: if_splits)

lemma scan_width_length: "scan_width args fmt f s = (w, g, t, s') \<Longrightarrow> length t \<le> length fmt"
  by (auto simp: scan_width_def Let_def split: if_splits prod.splits dest: skip_atoi_length)

lemma scan_precision_length: "scan_precision args fmt s = (p, t, s') \<Longrightarrow> length t \<le> length fmt"
  by (auto simp: scan_precision_def Let_def split: if_splits prod.splits dest!: skip_atoi_length)

lemma skip_qualifier_length: "length (skip_qualifier fmt) \<le> length fmt"
  by (simp add: skip_qualifier_def)

lemmas scan_lengths = scan_flags_length scan_width_length scan_precision_length skip_qualifier_length

text \<open>The main loop. At the end of the format the conversion character is NUL: the loop has written \<open>%\<close> and
  steps back, so that it meets the NUL again and stops.\<close>

function vs_loop :: "(nat \<Rightarrow> u32) \<Rightarrow> string \<Rightarrow> vs_state \<Rightarrow> vs_state option" where
  "vs_loop args [] s = Some s"
| "vs_loop args (c # fmt) s =
    (if c \<noteq> CHR ''%'' then vs_loop args fmt (emit [c] s)
     else
       let (flags, fmt) = scan_flags fmt 0;
           (width, flags, fmt, s) = scan_width args fmt flags s;
           (precision, fmt, s) = scan_precision args fmt s;
           fmt = skip_qualifier fmt
       in if fmt = [] then Some (emit ''%'' s)
       else do { s \<leftarrow> convert args (hd fmt) flags width precision s; vs_loop args (List.tl fmt) s })"
  by pat_completeness auto
termination
proof (relation "measure (\<lambda>(_, fmt, _). length fmt)", goal_cases)
  case (3 args c fmt s a f1 fmt1 b w c1 f2 d fmt2 s2 e p g fmt3 s3 fmt4 s4)
  have "length fmt4 \<le> length fmt3" using 3 skip_qualifier_length by metis
  moreover have "length fmt3 \<le> length fmt2" using 3 scan_precision_length by metis
  moreover have "length fmt2 \<le> length fmt1" using 3 scan_width_length by metis
  moreover have "length fmt1 \<le> length fmt" using 3 scan_flags_length by metis
  ultimately show ?case by simp
qed auto

text \<open>\<open>vsprintf\<close> returns the length of what it wrote, without the final NUL.\<close>

definition vsprintf :: "(nat \<Rightarrow> u32) \<Rightarrow> string \<Rightarrow> (addr \<Rightarrow> u8) \<Rightarrow> (int \<times> string \<times> (addr \<Rightarrow> u8)) option" where
  "vsprintf args fmt m = do {
     s \<leftarrow> vs_loop args fmt \<lparr>vs_out = [], vs_mem = m, vs_argi = 0\<rparr>;
     Some (i32 (int (length (vs_out s))), vs_out s @ [NUL], vs_mem s) }"

section \<open>What number prints\<close>

definition digit_value :: "char \<Rightarrow> nat" where
  "digit_value c = (if is_digit c then of_char c - 48 else if of_char c \<ge> (97 :: nat) then of_char c - 87 else of_char c - 55)"

definition from_digits :: "nat \<Rightarrow> string \<Rightarrow> nat" where
  "from_digits base ds = foldl (\<lambda>a c. a * base + digit_value c) 0 ds"

definition negative_arg :: "u32 \<Rightarrow> u32 \<Rightarrow> bool" where
  "negative_arg num type \<longleftrightarrow> type AND SIGN \<noteq> 0 \<and> sint num < 0"

definition magnitude :: "u32 \<Rightarrow> u32 \<Rightarrow> nat" where
  "magnitude num type = (if negative_arg num type then nat (- sint num) else unat num)"

definition sign_part :: "u32 \<Rightarrow> u32 \<Rightarrow> string" where
  "sign_part num type = (if negative_arg num type then ''-'' else if type AND PLUS \<noteq> 0 then ''+''
     else if type AND SPACE \<noteq> 0 then '' '' else [])"

definition prefix_part :: "nat \<Rightarrow> u32 \<Rightarrow> string" where
  "prefix_part base type = (if type AND SPECIAL = 0 then [] else if base = 8 then ''0''
     else if base = 16 then (if type AND SMALL \<noteq> 0 then ''0x'' else ''0X'') else [])"

lemma pad_loop_eq: "pad_loop c n = (replicate (nat n) c, i32 (min n 0 - 1))"
proof (induction c n rule: pad_loop.induct)
  case (1 c n)
  show ?case
  proof (cases "n > 0")
    case True
    then have "nat n = Suc (nat (n - 1))" by simp
    with True 1 show ?thesis by (simp add: pad_loop.simps [of c n])
  qed (simp add: pad_loop.simps [of c n])
qed

lemma digit_tables: "list_all (\<lambda>d. digit_value (''0123456789abcdefghijklmnopqrstuvwxyz'' ! d) = d
    \<and> digit_value (''0123456789ABCDEFGHIJKLMNOPQRSTUVWXYZ'' ! d) = d) [0..<36]"
  by code_simp

lemma digit_value_chars: "d < 36 \<Longrightarrow> digit_value (digit_chars type ! d) = d"
  using digit_tables by (simp add: list_all_iff digit_chars_def del: upt_rec_numeral)

lemma from_digits_append: "from_digits b (xs @ [c]) = from_digits b xs * b + digit_value c"
  by (simp add: from_digits_def)

lemma from_digits_zeros: "from_digits b (replicate n (CHR ''0'') @ ds) = from_digits b ds"
proof (induction n)
  case (Suc n)
  then show ?case by (simp add: from_digits_def digit_value_def is_digit_def)
qed simp

lemma from_tmp_digits:
  "2 \<le> base \<Longrightarrow> base \<le> 36 \<Longrightarrow> from_digits base (rev (tmp_digits (digit_chars type) base n)) = n"
proof (induction n rule: less_induct)
  case (less n)
  show ?case
  proof (cases "n = 0")
    case True
    then show ?thesis by (simp add: tmp_digits.simps from_digits_def)
  next
    case False
    then have "n div base < n" using less.prems by (auto intro!: div_less_dividend)
    moreover have "n mod base < 36" using mod_less_divisor [of base n] less.prems by linarith
    ultimately have *: "from_digits base (rev (tmp_digits (digit_chars type) base (n div base))) = n div base"
        "digit_value (digit_chars type ! (n mod base)) = n mod base"
      using less digit_value_chars by blast+
    show ?thesis
      using False less.prems * by (subst tmp_digits.simps) (simp add: from_digits_append)
  qed
qed

lemma tmp_digits_length: "2 \<le> base \<Longrightarrow> n < base ^ k \<Longrightarrow> length (tmp_digits ds base n) \<le> k"
proof (induction k arbitrary: n)
  case 0
  then show ?case by (simp add: tmp_digits.simps)
next
  case (Suc k)
  have "n div base < base ^ k" using Suc.prems by (simp add: less_mult_imp_div_less mult.commute)
  then show ?case using Suc by (subst tmp_digits.simps) simp
qed

lemma unat_uminus_neg:
  assumes "sint (w :: u32) < 0"
  shows "unat (- w) = nat (- sint w)"
proof -
  have "- w = word_of_int (- sint w)" by simp
  then have "uint (- w) = take_bit LENGTH(32) (- sint w)" using uint_word_of_int_eq [where 'a = 32, of "- sint w"] by argo
  moreover have "- 2147483648 \<le> sint w" using sint_ge [of w] by simp
  ultimately have "uint (- w) = - sint w" using assms by (simp add: take_bit_int_eq_self)
  then show ?thesis by (simp add: unat_eq_nat_uint)
qed

lemma printed_number:
  "2 \<le> base \<Longrightarrow> base \<le> 36 \<Longrightarrow>
    unat (if negative_arg num type then - num else num) = magnitude num type"
  by (simp add: magnitude_def negative_arg_def unat_uminus_neg)

definition printed_digits :: "u32 \<Rightarrow> nat \<Rightarrow> u32 \<Rightarrow> string" where
  "printed_digits num base type =
     (if magnitude num type = 0 then ''0'' else rev (tmp_digits (digit_chars type) base (magnitude num type)))"

lemma flags_without_zeropad [simp]:
  "(type AND NOT ZEROPAD) AND SIGN = type AND SIGN" "(type AND NOT ZEROPAD) AND PLUS = type AND PLUS"
  "(type AND NOT ZEROPAD) AND SPACE = type AND SPACE" "(type AND NOT ZEROPAD) AND SPECIAL = type AND SPECIAL"
  "(type AND NOT ZEROPAD) AND LEFT = type AND LEFT" "(type AND NOT ZEROPAD) AND ZEROPAD = 0"
  by (simp_all add: flag_defs and.assoc)

lemma zeropad_left: "type AND (ZEROPAD + LEFT) = 0 \<longleftrightarrow> type AND ZEROPAD = 0 \<and> type AND LEFT = 0"
proof -
  have "type AND (ZEROPAD + LEFT) = (type AND ZEROPAD) OR (type AND LEFT)"
    by (simp add: flag_defs bit.conj_disj_distrib [symmetric])
  then show ?thesis by (simp only: or_eq_0_iff)
qed

lemma printed_digits_length:
  assumes "2 \<le> base"
  shows "1 \<le> length (printed_digits num base type)" "length (printed_digits num base type) \<le> 32"
proof -
  have m: "magnitude num type < 2 ^ 32"
    using sint_ge [of num] unsigned_less [of num, where ?'a = nat]
    by (auto simp: magnitude_def negative_arg_def nat_less_iff)
  then have "magnitude num type < base ^ 32" using power_mono [of 2 base 32] assms by simp
  then have "length (tmp_digits (digit_chars type) base (magnitude num type)) \<le> 32"
    using assms by (rule tmp_digits_length [rotated])
  then show "length (printed_digits num base type) \<le> 32" by (simp add: printed_digits_def)
  show "1 \<le> length (printed_digits num base type)"
    using assms by (simp add: printed_digits_def tmp_digits.simps Suc_le_eq)
qed

lemma number_parts:
  fixes num type :: u32
  assumes "2 \<le> base" "base \<le> 36" "-1 \<le> width" "width \<le> 2147483647" "-1 \<le> precision" "precision \<le> 2147483000"
  defines "sg \<equiv> sign_part num type" and "pr \<equiv> prefix_part base type" and "ds \<equiv> printed_digits num base type"
  defines "W \<equiv> nat (width - int (length sg) - int (length pr) - max precision (int (length ds)))"
  shows "number num base width precision type = Some (
     replicate (if type AND LEFT = 0 \<and> type AND ZEROPAD = 0 then W else 0) (CHR '' '') @ sg @ pr
     @ replicate (if type AND LEFT = 0 \<and> type AND ZEROPAD \<noteq> 0 then W else 0) (CHR ''0'')
     @ replicate (nat (precision - int (length ds))) (CHR ''0'') @ ds
     @ replicate (if type AND LEFT = 0 then 0 else W) (CHR '' ''))"
proof -
  have len: "1 \<le> length ds" "length ds \<le> 32" using printed_digits_length [OF assms(1)] by (simp_all add: ds_def)
  define mx where "mx = (if negative_arg num type then - num else num)"
  have mx0: "mx = 0 \<longleftrightarrow> magnitude num type = 0"
    using printed_number [OF assms(1,2), of num type] by (simp add: mx_def unat_eq_zero [symmetric])
  have tmp: "(if mx = 0 then ''0'' else tmp_digits (digit_chars type) base (unat mx)) = rev ds"
    using mx0 printed_number [OF assms(1,2), of num type] by (simp add: mx_def ds_def printed_digits_def)
  define ty where "ty = (if type AND LEFT \<noteq> 0 then type AND NOT ZEROPAD else type)"
  have ty: "ty AND SIGN = type AND SIGN" "ty AND PLUS = type AND PLUS" "ty AND SPACE = type AND SPACE"
      "ty AND SPECIAL = type AND SPECIAL" "ty AND LEFT = type AND LEFT"
      "ty AND (ZEROPAD + LEFT) = 0 \<longleftrightarrow> type AND ZEROPAD = 0 \<and> type AND LEFT = 0"
      "type AND LEFT = 0 \<Longrightarrow> ty AND ZEROPAD = type AND ZEROPAD"
      "negative_arg num ty = negative_arg num type"
    by (simp_all add: ty_def zeropad_left negative_arg_def)
  define w1 where "w1 = width - int (length sg)"
  have w1: "(if sg \<noteq> [] then i32 (width - 1) else width) = w1"
    using assms(3,4) by (simp add: w1_def sg_def sign_part_def)
  define w2 where "w2 = w1 - int (length pr)"
  have "length sg \<le> 1" "length pr \<le> 2" by (simp_all add: sg_def sign_part_def pr_def prefix_part_def)
  then have b: "- 2 \<le> w1" "w1 \<le> width" "- 4 \<le> w2" "w2 \<le> width" using assms(3) by (simp_all add: w1_def w2_def)
  have w2: "(if type AND SPECIAL \<noteq> 0 then (if base = 16 then i32 (w1 - 2) else if base = 8 then i32 (w1 - 1) else w1) else w1) = w2"
    using b assms(3,4) by (simp add: w2_def pr_def prefix_part_def)
  define P where "P = (if int (length ds) > precision then int (length ds) else precision)"
  have P: "P = max precision (int (length ds))" "0 \<le> P" "P \<le> 2147483000" using len assms(6) by (simp_all add: P_def)
  define w3 where "w3 = i32 (w2 - P)"
  have w3: "w3 = w2 - P" unfolding w3_def by (rule i32_id) (use b P(2,3) assms(4) in linarith)+
  have W: "nat w3 = W" by (simp add: w3 W_def w2_def w1_def P(1))
  have sg: "(if negative_arg num type then ''-'' else if type AND PLUS \<noteq> 0 then ''+'' else if type AND SPACE \<noteq> 0 then '' '' else []) = sg"
    by (simp add: sg_def sign_part_def)
  have pr: "(if type AND SPECIAL \<noteq> 0 then (if base = 8 then ''0'' else if base = 16 then [CHR ''0'', digit_chars type ! 33] else []) else []) = pr"
    by (simp add: pr_def prefix_part_def digit_chars_def)
  have nb: "\<not> (base < 2 \<or> base > 36)" using assms(1,2) by simp
  have eq: "number num base width precision type =
      (let (blanks, size) = (if type AND ZEROPAD = 0 \<and> type AND LEFT = 0 then pad_loop (CHR '' '') w3 else ([], w3));
           (fill, size) = (if type AND LEFT = 0 then pad_loop (if ty AND ZEROPAD \<noteq> 0 then CHR ''0'' else CHR '' '') size else ([], size));
           (zeros, _) = pad_loop (CHR ''0'') (P - int (length ds)); (trail, _) = pad_loop (CHR '' '') size
       in Some (blanks @ sg @ pr @ fill @ zeros @ ds @ trail))"
    unfolding number_def Let_def ty_def [symmetric] ty negative_arg_def [symmetric] mx_def [symmetric] tmp sg w1 w2 pr
      length_rev P_def [symmetric] w3_def [symmetric] rev_rev_ident if_not_P [OF nb] ..
  have z: "nat (P - int (length ds)) = nat (precision - int (length ds))" by (simp add: P_def)
  have "i32 (min w3 0 - 1) = min w3 0 - 1" by (rule i32_id) (use w3 b P(2,3) in linarith)+
  moreover have "i32 (min w3 0 - 1 - 1) = min w3 0 - 1 - 1" by (rule i32_id) (use w3 b P(2,3) in linarith)+
  ultimately have neg: "nat (i32 (min w3 0 - 1)) = 0" "nat (i32 (i32 (min w3 0 - 1) - 1)) = 0" by simp_all
  show ?thesis
    unfolding eq pad_loop_eq z using neg W ty(7)
    by (cases "type AND LEFT = 0"; cases "type AND ZEROPAD = 0") (simp_all add: pad_loop_eq z)
qed

text \<open>C11: \<open>number\<close> prints, in any base it accepts, blanks, the sign, the prefix, digits and blanks; the digits
  read back as the number printed (its absolute value when it is printed as signed), there are at least
  \<open>precision\<close> of them, blanks are only on the side the flags name, and the field has exactly the width asked
  for unless the number needs more.\<close>

theorem number_reads_back:
  fixes num type :: u32
  assumes "2 \<le> base" "base \<le> 36" "-1 \<le> width" "width \<le> 2147483647" "-1 \<le> precision" "precision \<le> 2147483000"
  shows "\<exists>a ds b. number num base width precision type
           = Some (replicate a (CHR '' '') @ sign_part num type @ prefix_part base type @ ds @ replicate b (CHR '' ''))
         \<and> from_digits base ds = magnitude num type \<and> ds \<noteq> [] \<and> precision \<le> int (length ds)
         \<and> (if type AND LEFT = 0 then b = 0 else a = 0)
         \<and> int (a + length (sign_part num type) + length (prefix_part base type) + length ds + b)
            = max width (int (length (sign_part num type)) + int (length (prefix_part base type))
                         + max precision (int (length (printed_digits num base type))))"
proof -
  define pd where "pd = printed_digits num base type"
  define W where "W = nat (width - int (length (sign_part num type)) - int (length (prefix_part base type)) - max precision (int (length pd)))"
  define a where "a = (if type AND LEFT = 0 \<and> type AND ZEROPAD = 0 then W else 0)"
  define z where "z = (if type AND LEFT = 0 \<and> type AND ZEROPAD \<noteq> 0 then W else 0) + nat (precision - int (length pd))"
  define b where "b = (if type AND LEFT = 0 then 0 else W)"
  define ds where "ds = replicate z (CHR ''0'') @ pd"
  have n: "number num base width precision type
      = Some (replicate a (CHR '' '') @ sign_part num type @ prefix_part base type @ ds @ replicate b (CHR '' ''))"
    using number_parts [OF assms, of num type]
    by (simp add: a_def b_def ds_def z_def W_def pd_def replicate_add)
  have pd: "1 \<le> length pd" using printed_digits_length [OF assms(1)] by (simp add: pd_def)
  have "from_digits base pd = magnitude num type"
    using from_tmp_digits [OF assms(1,2)]
    by (simp add: pd_def printed_digits_def from_digits_def digit_value_def is_digit_def)
  then have val: "from_digits base ds = magnitude num type" by (simp add: ds_def from_digits_zeros)
  have len: "ds \<noteq> []" "precision \<le> int (length ds)" using pd by (auto simp: ds_def z_def)
  have left: "if type AND LEFT = 0 then b = 0 else a = 0" by (simp add: a_def b_def)
  have "int (length ds) = max precision (int (length pd)) + int (if type AND LEFT = 0 \<and> type AND ZEROPAD \<noteq> 0 then W else 0)"
    by (simp add: ds_def z_def)
  moreover have "a + (if type AND LEFT = 0 \<and> type AND ZEROPAD \<noteq> 0 then W else 0) + b = W"
    by (simp add: a_def b_def)
  moreover have "int W = max 0 (width - int (length (sign_part num type)) - int (length (prefix_part base type)) - max precision (int (length pd)))"
    unfolding W_def by linarith
  ultimately have "int (a + length (sign_part num type) + length (prefix_part base type) + length ds + b)
            = max width (int (length (sign_part num type)) + int (length (prefix_part base type))
                         + max precision (int (length pd)))"
    by linarith
  then show ?thesis using n val len left unfolding pd_def by blast
qed

theorem number_reads_back_witness:
  "\<exists>a ds b. number (- 42) 10 8 5 (SIGN OR LEFT)
           = Some (replicate a (CHR '' '') @ sign_part (- 42) (SIGN OR LEFT) @ prefix_part 10 (SIGN OR LEFT) @ ds @ replicate b (CHR '' ''))
         \<and> from_digits 10 ds = magnitude (- 42) (SIGN OR LEFT) \<and> ds \<noteq> [] \<and> 5 \<le> int (length ds)
         \<and> (if (SIGN OR LEFT) AND LEFT = 0 then b = 0 else a = 0)
         \<and> int (a + length (sign_part (- 42) (SIGN OR LEFT)) + length (prefix_part 10 (SIGN OR LEFT)) + length ds + b)
            = max 8 (int (length (sign_part (- 42) (SIGN OR LEFT))) + int (length (prefix_part 10 (SIGN OR LEFT)))
                         + max 5 (int (length (printed_digits (- 42) 10 (SIGN OR LEFT)))))"
  by (rule number_reads_back) simp_all

section \<open>A width or precision that is an argument\<close>

lemma scan_flags_all:
  "set fl \<subseteq> set ''-+ #0'' \<Longrightarrow> c \<notin> set ''-+ #0'' \<Longrightarrow> \<exists>g. scan_flags (fl @ c # fmt) f = (g, c # fmt)"
  by (induction fl arbitrary: f) auto

lemma skip_atoi_all: "\<forall>d\<in>set ds. is_digit d \<Longrightarrow> \<not> is_digit c \<Longrightarrow> \<exists>j. skip_atoi (ds @ c # fmt) i = (j, c # fmt)"
  by (induction ds arbitrary: i) auto

lemma convert_star: "convert args CHR ''*'' flags width precision s = Some (emit ''%*'' s)"
  by (simp add: convert_def)

lemma star_width:
  assumes "set fl \<subseteq> set ''-+ #0''"
  shows "vs_loop args (CHR ''%'' # fl @ CHR ''*'' # rest) s = vs_loop args rest (emit ''%*'' (s\<lparr>vs_argi := vs_argi s + 1\<rparr>))"
proof -
  obtain g where "scan_flags (fl @ CHR ''*'' # rest) 0 = (g, CHR ''*'' # rest)" using scan_flags_all [OF assms, of "CHR ''*''"] by auto
  moreover obtain w h where "scan_width args (CHR ''*'' # rest) g s = (w, h, CHR ''*'' # rest, s\<lparr>vs_argi := vs_argi s + 1\<rparr>)"
    by (cases "sint (args (vs_argi s)) < 0") (auto simp: scan_width_def peek_def is_digit_def va_arg_def Let_def)
  moreover have "scan_precision args (CHR ''*'' # rest) t = (-1, CHR ''*'' # rest, t)" for t by (simp add: scan_precision_def peek_def)
  ultimately show ?thesis by (simp add: skip_qualifier_def peek_def convert_star)
qed

lemma star_precision:
  assumes "set fl \<subseteq> set ''-+ #0''" "\<forall>d\<in>set ds. is_digit d" "ds = [] \<or> hd ds \<noteq> CHR ''0''"
  shows "vs_loop args (CHR ''%'' # fl @ ds @ CHR ''.'' # CHR ''*'' # rest) s = vs_loop args rest (emit ''%*'' (s\<lparr>vs_argi := vs_argi s + 1\<rparr>))"
proof -
  let ?r = "CHR ''.'' # CHR ''*'' # rest"
  obtain c fmt where c: "ds @ ?r = c # fmt" "c \<notin> set ''-+ #0''"
  proof (cases ds)
    case (Cons d ds')
    then have "is_digit d" "d \<noteq> CHR ''0''" using assms(2,3) by auto
    then have "d \<notin> set ''-+ #0''" by (auto simp: is_digit_def)
    then show thesis using that Cons by simp
  qed (use that in simp)
  obtain g where "scan_flags (fl @ ds @ ?r) 0 = (g, ds @ ?r)" using scan_flags_all [OF assms(1) c(2)] unfolding c(1) by blast
  moreover obtain w where "scan_width args (ds @ ?r) g s = (w, g, ?r, s)"
  proof (cases ds)
    case Nil
    then show thesis using that by (simp add: scan_width_def peek_def is_digit_def)
  next
    case (Cons d ds')
    obtain j where "skip_atoi (ds @ ?r) 0 = (j, ?r)" using skip_atoi_all [OF assms(2), of "CHR ''.''"] by (auto simp: is_digit_def)
    moreover have "is_digit (peek (ds @ ?r))" using assms(2) Cons by (simp add: peek_def)
    ultimately show thesis using that by (simp add: scan_width_def)
  qed
  moreover obtain p where "scan_precision args ?r s = (p, CHR ''*'' # rest, s\<lparr>vs_argi := vs_argi s + 1\<rparr>)"
    by (auto simp: scan_precision_def peek_def is_digit_def va_arg_def Let_def)
  ultimately show ?thesis by (simp add: skip_qualifier_def peek_def convert_star)
qed

text \<open>C12: In every format, a width or a precision given as \<open>*\<close> consumes its argument but is not skipped, after any flags and
  (for a precision) any width: the \<open>*\<close> is taken for the conversion, \<open>%*\<close> is printed in place of the flags, the width and the \<open>*\<close>, and the
  rest of the format, with the conversion character that was meant, is treated as text. No argument is ever converted by such
  a directive.\<close>

theorem star_width_not_skipped:
  assumes "set fl \<subseteq> set ''-+ #0''" "\<forall>d\<in>set ds. is_digit d" "ds = [] \<or> hd ds \<noteq> CHR ''0''"
    "star = ''*'' \<and> ds = [] \<or> star = ''.*''"
  shows "vs_loop args (''%'' @ fl @ ds @ star @ rest) s = vs_loop args rest (s\<lparr>vs_out := vs_out s @ ''%*'', vs_argi := vs_argi s + 1\<rparr>)"
proof -
  have e: "emit ''%*'' (s\<lparr>vs_argi := vs_argi s + 1\<rparr>) = s\<lparr>vs_out := vs_out s @ ''%*'', vs_argi := vs_argi s + 1\<rparr>" by (simp add: emit_def)
  show ?thesis
    using assms(4) star_width [OF assms(1), of args rest s] star_precision [OF assms(1-3), of args rest s]
    unfolding e by (auto simp del: vs_loop.simps)
qed

theorem star_width_not_skipped_witness:
  "vsprintf (\<lambda>_. 7) ''%-8.*d'' (\<lambda>_. 0) = Some (3, ''%*d'' @ [NUL], \<lambda>_. 0)"
proof -
  have "vs_loop (\<lambda>_. 7) (''%'' @ ''-'' @ ''8'' @ ''.*'' @ ''d'') s = vs_loop (\<lambda>_. 7) ''d'' (s\<lparr>vs_out := vs_out s @ ''%*'', vs_argi := vs_argi s + 1\<rparr>)" for s
    by (rule star_width_not_skipped) (simp_all add: is_digit_def)
  from this [of "\<lparr>vs_out = [], vs_mem = \<lambda>_. 0, vs_argi = 0\<rparr>"]
  have "vs_loop (\<lambda>_. 7) ''%-8.*d'' \<lparr>vs_out = [], vs_mem = \<lambda>_. 0, vs_argi = 0\<rparr> = Some \<lparr>vs_out = ''%*d'', vs_mem = \<lambda>_. 0, vs_argi = 1\<rparr>"
    by (simp only: append_Cons append_Nil vs_state.simps) (simp add: emit_def)
  then show ?thesis by (simp only: vsprintf_def bind.simps vs_state.simps) simp
qed

end
