(* ===== verification/Console_Screen.thy ===== *)
theory Console_Screen
  imports Tty
begin

text \<open>
  The console as a screen: \<open>screen_ok\<close> is the invariant of the driver (the screen lies inside the video memory,
  the cursor on it, the scrolling region within its lines), every operation keeps it and stores only inside
  the video memory, and so does \<open>con_write\<close> with everything it calls. Text without escape characters is
  consumed completely and appears at the cursor.
\<close>


section \<open>What the string instructions change\<close>

lemma two_of_nat_Suc: "d + 2 + 2 * of_nat i = d + 2 * (of_nat (Suc i) :: u32)"
  by simp

lemma stosw_frame: "(\<And>i. i < n \<Longrightarrow> a \<noteq> d + 2 * of_nat i) \<Longrightarrow> stosw n d v m a = m a"
proof (induction n arbitrary: d m)
  case (Suc n)
  have "stosw n (d + 2) v (m(d := v)) a = (m(d := v)) a"
    by (rule Suc.IH) (use Suc.prems two_of_nat_Suc in \<open>metis Suc_mono\<close>)
  then show ?case using Suc.prems [of 0] by simp
qed simp

lemma movsl_frame:
  "(\<And>i. i < 2 * n \<Longrightarrow> a \<noteq> d + 2 * of_nat i) \<Longrightarrow> fst (movsl n d e m) a = m a"
proof (induction n arbitrary: d e m)
  case (Suc n)
  have "fst (movsl n (d + 4) (e + 4) (m(d := m e, d + 2 := m (e + 2)))) a = (m(d := m e, d + 2 := m (e + 2))) a"
  proof (rule Suc.IH)
    fix i assume "i < 2 * n"
    then show "a \<noteq> d + 4 + 2 * of_nat i" using Suc.prems [of "Suc (Suc i)"] by (simp add: add.assoc)
  qed
  then show ?case using Suc.prems [of 0] Suc.prems [of 1] by simp
qed simp

lemma movsl_edi: "snd (movsl n d e m) = d + 4 * of_nat n"
  by (induction n arbitrary: d e m) (simp_all add: algebra_simps)

lemma movsl_down_frame:
  "(\<And>i. i < 2 * n \<Longrightarrow> a \<noteq> d + 2 - 2 * of_nat i) \<Longrightarrow> fst (movsl_down n d e m) a = m a"
proof (induction n arbitrary: d e m)
  case (Suc n)
  have "fst (movsl_down n (d - 4) (e - 4) (m(d := m e, d + 2 := m (e + 2)))) a = (m(d := m e, d + 2 := m (e + 2))) a"
  proof (rule Suc.IH)
    fix i assume "i < 2 * n"
    then show "a \<noteq> d - 4 + 2 - 2 * of_nat i" using Suc.prems [of "Suc (Suc i)"] by (simp add: algebra_simps)
  qed
  then show ?case using Suc.prems [of 0] Suc.prems [of 1] by (simp add: algebra_simps)
qed simp

lemma movsl_down_edi: "snd (movsl_down n d e m) = d - 4 * of_nat n"
proof (induction n arbitrary: d e m)
  case (Suc n)
  have "d - 4 - 4 * of_nat n = d - 4 * (of_nat (Suc n) :: u32)" by (simp add: algebra_simps)
  then show ?case by (simp add: Suc del: of_nat_Suc)
qed simp

lemma stosw_down_frame: "(\<And>i. i < n \<Longrightarrow> a \<noteq> d - 2 * of_nat i) \<Longrightarrow> stosw_down n d v m a = m a"
proof (induction n arbitrary: d m)
  case (Suc n)
  have "stosw_down n (d - 2) v (m(d := v)) a = (m(d := v)) a"
  proof (rule Suc.IH)
    fix i assume "i < n"
    then show "a \<noteq> d - 2 - 2 * of_nat i" using Suc.prems [of "Suc i"] by (simp add: algebra_simps)
  qed
  then show ?case using Suc.prems [of 0] by simp
qed simp

lemma push_right_frame: "(\<And>i. i < n \<Longrightarrow> a \<noteq> d + 2 * of_nat i) \<Longrightarrow> push_right n d v m a = m a"
proof (induction n arbitrary: d m v)
  case (Suc n)
  have "push_right n (d + 2) (m d) (m(d := v)) a = (m(d := v)) a"
    by (rule Suc.IH) (use Suc.prems two_of_nat_Suc in \<open>metis Suc_mono\<close>)
  then show ?case using Suc.prems [of 0] by simp
qed simp

lemma pull_left_frame: "(\<And>i. i \<le> n \<Longrightarrow> a \<noteq> d + 2 * of_nat i) \<Longrightarrow> pull_left n d v m a = m a"
proof (induction n arbitrary: d m)
  case 0
  then show ?case using 0 [of 0] by simp
next
  case (Suc n)
  have "pull_left n (d + 2) v (m(d := m (d + 2))) a = (m(d := m (d + 2))) a"
    by (rule Suc.IH) (use Suc.prems two_of_nat_Suc in \<open>metis Suc_le_mono\<close>)
  then show ?case using Suc.prems [of 0] by simp
qed

section \<open>The screen\<close>

abbreviation (input) cols :: "console \<Rightarrow> nat" where "cols c \<equiv> unat (video_num_columns c)"
abbreviation (input) rows :: "console \<Rightarrow> nat" where "rows c \<equiv> unat (video_num_lines c)"

definition cell :: "console \<Rightarrow> nat \<Rightarrow> u32" where "cell c k = con_origin c + 2 * of_nat k"

definition screen_ok :: "console \<Rightarrow> bool" where
  "screen_ok c \<longleftrightarrow> video_size_row c = 2 * video_num_columns c \<and> 8 \<le> cols c \<and> cols c < 256 \<and> 0 < rows c \<and> rows c < 256
     \<and> unat (video_mem_start c) \<le> unat (con_origin c) \<and> unat (video_mem_end c) < 2147483648
     \<and> unat (con_origin c) + 2 * (rows c * cols c) \<le> unat (video_mem_end c)
     \<and> con_scr_end c = cell c (rows c * cols c)
     \<and> con_x c \<le> video_num_columns c \<and> con_y c < video_num_lines c
     \<and> con_pos c = con_origin c + 2 * (con_y c * video_num_columns c + con_x c)
     \<and> con_top c < con_bottom c \<and> con_bottom c \<le> video_num_lines c \<and> con_npar c < 16"

definition in_video :: "console \<Rightarrow> u32 \<Rightarrow> bool" where
  "in_video c a \<longleftrightarrow> video_mem_start c \<le> a \<and> a < video_mem_end c"

text \<open>\<open>con_rel c c'\<close>: the same display, still in order, and nothing stored outside its memory.\<close>

definition con_rel :: "console \<Rightarrow> console \<Rightarrow> bool" where
  "con_rel c c' \<longleftrightarrow> screen_ok c' \<and> video_mem_start c' = video_mem_start c \<and> video_mem_end c' = video_mem_end c
     \<and> video_num_columns c' = video_num_columns c \<and> video_num_lines c' = video_num_lines c
     \<and> (\<forall>a. \<not> in_video c a \<longrightarrow> vram c' a = vram c a)"

lemma con_rel_refl: "screen_ok c \<Longrightarrow> con_rel c c"
  by (simp add: con_rel_def)

lemma con_rel_trans: "con_rel a b \<Longrightarrow> con_rel b c \<Longrightarrow> con_rel a c"
  by (auto simp: con_rel_def in_video_def)

lemma con_rel_ok: "con_rel a b \<Longrightarrow> screen_ok b"
  by (simp add: con_rel_def)

lemma cells_bound:
  assumes "screen_ok c"
  shows "rows c * cols c < 65536"
proof -
  have "rows c * cols c \<le> 255 * 255" using assms by (intro mult_le_mono) (auto simp: screen_ok_def)
  then show ?thesis by simp
qed

lemma unat_cell:
  assumes "screen_ok c" "k \<le> rows c * cols c"
  shows "unat (cell c k) = unat (con_origin c) + 2 * k"
proof -
  have k: "k < 65536" using cells_bound [OF assms(1)] assms(2) by simp
  have "2 * of_nat k = (of_nat (2 * k) :: u32)" by simp
  then have "unat (2 * of_nat k :: u32) = 2 * k" using k by (simp only: unat_of_nat_u32)
  moreover have "unat (con_origin c) + 2 * k < 4294967296"
    using assms by (auto simp: screen_ok_def)
  ultimately show ?thesis by (simp add: cell_def unat_word_ariths)
qed

lemma cell_in_video:
  assumes "screen_ok c" "k < rows c * cols c"
  shows "in_video c (cell c k)"
  using assms unat_cell [OF assms(1), of k] by (auto simp: in_video_def screen_ok_def word_le_nat_alt word_less_nat_alt)

lemma cell_add: "cell c k + 2 * of_nat i = cell c (k + i)"
  by (simp add: cell_def algebra_simps)

lemma cursor_cell:
  assumes "screen_ok c"
  shows "unat (con_y c) * cols c + unat (con_x c) \<le> rows c * cols c"
    "unat (con_y c) * cols c + cols c \<le> rows c * cols c"
proof -
  have "unat (con_y c) + 1 \<le> rows c" "unat (con_x c) \<le> cols c"
    using assms by (auto simp: screen_ok_def word_le_nat_alt word_less_nat_alt)
  then have "(unat (con_y c) + 1) * cols c \<le> rows c * cols c" by (intro mult_le_mono1)
  then show "unat (con_y c) * cols c + unat (con_x c) \<le> rows c * cols c"
    "unat (con_y c) * cols c + cols c \<le> rows c * cols c" using \<open>unat (con_x c) \<le> cols c\<close> by (simp_all add: algebra_simps)
qed

lemma cell_sub: "i \<le> k \<Longrightarrow> cell c k - 2 * of_nat i = cell c (k - i)"
  by (simp add: cell_def of_nat_diff algebra_simps)

lemma pos_cell: "screen_ok c \<Longrightarrow> con_pos c = cell c (unat (con_y c) * cols c + unat (con_x c))"
  by (simp add: screen_ok_def cell_def)

lemma row_cell: "screen_ok c \<Longrightarrow> con_origin c + video_size_row c * w = cell c (unat w * cols c)"
  by (simp add: screen_ok_def cell_def algebra_simps)

lemma screen_ok_vram [simp]: "screen_ok (c\<lparr>vram := m\<rparr>) = screen_ok c"
  by (simp add: screen_ok_def cell_def)

lemma con_rel_vram: "screen_ok c \<Longrightarrow> (\<And>a. \<not> in_video c a \<Longrightarrow> m a = vram c a) \<Longrightarrow> con_rel c (c\<lparr>vram := m\<rparr>)"
  by (simp add: con_rel_def)

lemma stosw_screen:
  assumes "screen_ok c" "k + n \<le> rows c * cols c" "\<not> in_video c a"
  shows "stosw n (cell c k) v m a = m a"
proof (rule stosw_frame)
  fix i assume "i < n"
  then show "a \<noteq> cell c k + 2 * of_nat i" using assms cell_in_video [OF assms(1), of "k + i"] by (auto simp: cell_add)
qed

lemma movsl_screen:
  assumes "screen_ok c" "k + 2 * n \<le> rows c * cols c" "\<not> in_video c a"
  shows "fst (movsl n (cell c k) e m) a = m a"
proof (rule movsl_frame)
  fix i assume "i < 2 * n"
  then show "a \<noteq> cell c k + 2 * of_nat i" using assms cell_in_video [OF assms(1), of "k + i"] by (auto simp: cell_add)
qed

lemma movsl_down_screen:
  assumes "screen_ok c" "k < rows c * cols c" "2 * n \<le> Suc k" "\<not> in_video c a" "d + 2 = cell c k"
  shows "fst (movsl_down n d e m) a = m a"
proof (rule movsl_down_frame)
  fix i assume "i < 2 * n"
  then show "a \<noteq> d + 2 - 2 * of_nat i"
    using assms cell_in_video [OF assms(1), of "k - i"] by (auto simp: cell_sub)
qed

lemma stosw_down_screen:
  assumes "screen_ok c" "k < rows c * cols c" "n \<le> Suc k" "\<not> in_video c a"
  shows "stosw_down n (cell c k) v m a = m a"
proof (rule stosw_down_frame)
  fix i assume "i < n"
  then show "a \<noteq> cell c k - 2 * of_nat i"
    using assms cell_in_video [OF assms(1), of "k - i"] by (auto simp: cell_sub)
qed

lemma region_longs_le:
  assumes "screen_ok c"
  shows "unat (con_top c) * cols c + 2 * region_longs c + cols c \<le> unat (con_bottom c) * cols c"
proof -
  let ?h = "unat (con_bottom c) - unat (con_top c) - 1"
  have b: "unat (con_top c) < unat (con_bottom c)" "unat (con_bottom c) \<le> rows c" "rows c < 256" "cols c < 256"
    using assms by (auto simp: screen_ok_def word_le_nat_alt word_less_nat_alt)
  have h: "unat (con_bottom c - con_top c - 1) = ?h"
    using b by (simp add: unat_sub_if' word_size) 
  have "?h * cols c \<le> 255 * 255" using b by (intro mult_le_mono) simp_all
  then have "unat ((con_bottom c - con_top c - 1) * video_num_columns c) = ?h * cols c"
    using h by (simp add: unat_word_ariths)
  then have "2 * region_longs c \<le> ?h * cols c"
    by (simp add: region_longs_def drop_bit_eq_div unat_div)
  moreover have "unat (con_bottom c) = unat (con_top c) + ?h + 1" using b(1) by simp
  then have "unat (con_bottom c) * cols c = unat (con_top c) * cols c + ?h * cols c + cols c"
    by (metis add_mult_distrib mult_1)
  ultimately show ?thesis by simp
qed

lemma bottom_cells:
  assumes "screen_ok c"
  shows "unat (con_bottom c) * cols c \<le> rows c * cols c" "unat (con_top c) \<le> unat (con_bottom c)"
    "cols c \<le> unat (con_bottom c) * cols c"
  using assms by (auto simp: screen_ok_def word_le_nat_alt word_less_nat_alt intro: mult_le_mono1)

lemma scrup_region_rel:
  assumes "screen_ok c"
  shows "con_rel c (scrup_region c)"
proof -
  let ?k = "unat (con_top c) * cols c" let ?n = "region_longs c"
  have le: "?k + 2 * ?n + cols c \<le> rows c * cols c"
    using region_longs_le [OF assms] bottom_cells(1) [OF assms] by linarith
  obtain m edi where m: "movsl ?n (con_origin c + video_size_row c * con_top c)
      (con_origin c + video_size_row c * (con_top c + 1)) (vram c) = (m, edi)" by fastforce
  have top: "con_origin c + video_size_row c * con_top c = cell c ?k" by (rule row_cell [OF assms])
  have "edi = cell c ?k + 4 * of_nat ?n"
    using movsl_edi [of ?n "cell c ?k" "con_origin c + video_size_row c * (con_top c + 1)" "vram c"] m [unfolded top] by simp
  then have "edi = cell c ?k + 2 * of_nat (2 * ?n)" by simp
  then have edi: "edi = cell c (?k + 2 * ?n)" by (simp only: cell_add)
  have "m = fst (movsl ?n (cell c ?k) (con_origin c + video_size_row c * (con_top c + 1)) (vram c))"
    using m [unfolded top] by simp
  moreover have "stosw (cols c) (cell c (?k + 2 * ?n)) (video_erase_char c) m a = vram c a" if "\<not> in_video c a" for a
    using stosw_screen [OF assms le that] movsl_screen [OF assms _ that] le calculation by simp
  ultimately show ?thesis
    by (auto simp: scrup_region_def m edi intro!: con_rel_vram [OF assms])
qed

lemma scrdown_rel:
  assumes "screen_ok c"
  shows "con_rel c (scrdown c)"
proof -
  let ?k = "unat (con_bottom c) * cols c - 1" let ?n = "region_longs c"
  have pos: "0 < cols c" using assms by (simp add: screen_ok_def)
  have le: "unat (con_top c) * cols c + 2 * ?n + cols c \<le> Suc ?k" "?k < rows c * cols c"
    using region_longs_le [OF assms] bottom_cells(1,3) [OF assms] pos by linarith+
  let ?d = "con_origin c + video_size_row c * con_bottom c - 4"
  have d: "?d + 2 = cell c ?k"
    using row_cell [OF assms, of "con_bottom c"] cell_sub [of 1 "Suc ?k" c] bottom_cells(3) [OF assms] pos
    by (simp add: algebra_simps)
  obtain m edi where m: "movsl_down ?n ?d (con_origin c + video_size_row c * (con_bottom c - 1) - 4) (vram c) = (m, edi)"
    by fastforce
  have "edi = ?d - 4 * of_nat ?n" using movsl_down_edi [of ?n ?d] m by (metis snd_conv)
  then have "edi + 2 = cell c ?k - 2 * of_nat (2 * ?n)" using d by (simp add: algebra_simps)
  then have edi: "edi + 2 = cell c (?k - 2 * ?n)" using cell_sub [of "2 * ?n" ?k c] le pos by simp
  have "m a = vram c a" if "\<not> in_video c a" for a
    using movsl_down_screen [OF assms le(2) _ that d, of ?n] le(1) m by (metis fst_conv add_leD1 add_leD2)
  moreover have "stosw_down (cols c) (cell c (?k - 2 * ?n)) (video_erase_char c) m a = m a" if "\<not> in_video c a" for a
    by (rule stosw_down_screen [OF assms _ _ that]) (use le in linarith)+
  ultimately show ?thesis by (auto simp: scrdown_def m edi intro!: con_rel_vram [OF assms])
qed

lemma scrup_origin_rel:
  assumes "screen_ok c"
  shows "con_rel c (scrup_origin c)"
proof -
  let ?cells = "rows c * cols c"
  define c1 where "c1 = c\<lparr>con_origin := con_origin c + video_size_row c, con_pos := con_pos c + video_size_row c,
                con_scr_end := con_scr_end c + video_size_row c\<rparr>"
  have row: "video_size_row c = 2 * of_nat (cols c)" using assms by (simp add: screen_ok_def)
  have cells: "?cells = (rows c - 1) * cols c + cols c"
    using assms by (cases "rows c") (simp_all add: screen_ok_def)
  have org: "unat (con_origin c + video_size_row c) = unat (con_origin c) + 2 * cols c"
    using unat_cell [OF assms, of "cols c"] cells by (simp add: cell_def row)
  have scr: "unat (con_scr_end c) = unat (con_origin c) + 2 * ?cells"
    using unat_cell [OF assms, of ?cells] assms by (simp add: screen_ok_def)
  have scr': "unat (con_scr_end c + video_size_row c) = unat (con_origin c) + 2 * ?cells + 2 * cols c"
  proof -
    have "unat (video_size_row c) = 2 * cols c"
    proof -
      have "cols c < 256" using assms by (simp add: screen_ok_def)
      then show ?thesis using row by (simp add: unat_word_ariths)
    qed
    then show ?thesis using scr assms by (simp add: unat_word_ariths screen_ok_def)
  qed
  show ?thesis
  proof (cases "con_scr_end c1 > video_mem_end c1")
    case False
    then have "unat (con_origin c) + 2 * ?cells + 2 * cols c \<le> unat (video_mem_end c)"
      using scr' by (simp add: c1_def word_less_nat_alt)
    then have ok: "screen_ok c1" using assms org row by (simp add: screen_ok_def c1_def cell_def algebra_simps)
    have d: "con_scr_end c1 - video_size_row c1 = cell c1 ((rows c1 - 1) * cols c1)"
      using assms cells by (simp add: c1_def screen_ok_def cell_def)
    have "con_rel c1 (c1\<lparr>vram := stosw (cols c1) (con_scr_end c1 - video_size_row c1) (video_erase_char c1) (vram c1)\<rparr>)"
      unfolding d by (rule con_rel_vram [OF ok], rule stosw_screen [OF ok]) (use cells in \<open>simp_all add: c1_def\<close>)
    moreover have "con_rel c c1" using ok by (simp add: con_rel_def c1_def)
    ultimately show ?thesis using False con_rel_trans by (simp add: scrup_origin_def c1_def [symmetric] Let_def)
  next
    case True
    define c2 where "c2 = c1\<lparr>con_scr_end := con_scr_end c1 - (con_origin c1 - video_mem_start c1),
                con_pos := con_pos c1 - (con_origin c1 - video_mem_start c1), con_origin := video_mem_start c1\<rparr>"
    have ok: "screen_ok c2" using assms by (auto simp: screen_ok_def c1_def c2_def cell_def algebra_simps)
    let ?n = "unat (drop_bit 1 ((video_num_lines c1 - 1) * video_num_columns c1))"
    have n: "2 * ?n + cols c \<le> ?cells"
    proof -
      have "(rows c - 1) * cols c < 65536" using cells_bound [OF assms] cells by linarith
      moreover have "unat (video_num_lines c - 1) = rows c - 1" using assms by (simp add: screen_ok_def unat_sub_if' word_size)
      ultimately have "unat ((video_num_lines c1 - 1) * video_num_columns c1) = (rows c - 1) * cols c"
        by (simp add: c1_def unat_word_ariths)
      then show ?thesis using cells by (simp add: drop_bit_eq_div unat_div)
    qed
    obtain m edi where m: "movsl ?n (video_mem_start c1) (con_origin c1) (vram c1) = (m, edi)" by fastforce
    have start: "video_mem_start c1 = cell c2 0" by (simp add: c2_def cell_def)
    have edi: "edi = cell c2 (2 * ?n)"
      using movsl_edi [of ?n "video_mem_start c1" "con_origin c1" "vram c1"] m by (simp add: cell_def c2_def)
    have fr: "stosw (cols c1) edi (video_erase_char c1) m a = vram c2 a" if "\<not> in_video c2 a" for a
    proof -
      have "stosw (cols c1) edi (video_erase_char c1) m a = m a"
        unfolding edi by (rule stosw_screen [OF ok _ that]) (use n in \<open>simp add: c1_def c2_def\<close>)
      moreover have "m = fst (movsl ?n (cell c2 0) (con_origin c1) (vram c1))" using m by (simp only: start fst_conv)
      then have "m a = vram c1 a"
        using movsl_screen [OF ok _ that, of 0 ?n] n by (simp add: c2_def c1_def)
      ultimately show ?thesis by (simp add: c2_def)
    qed
    have "con_rel c2 (c2\<lparr>vram := stosw (cols c1) edi (video_erase_char c1) m\<rparr>)" by (rule con_rel_vram [OF ok fr])
    moreover have "con_rel c c2" using ok by (simp add: con_rel_def c1_def c2_def)
    ultimately have "con_rel c (c2\<lparr>vram := stosw (cols c1) edi (video_erase_char c1) m\<rparr>)" by (rule con_rel_trans [rotated])
    moreover have "scrup_origin c = c2\<lparr>vram := stosw (cols c1) edi (video_erase_char c1) m\<rparr>"
      using True m by (simp add: scrup_origin_def c1_def [symmetric] c2_def Let_def)
    ultimately show ?thesis by simp
  qed
qed

section \<open>The operations of the driver\<close>

lemma con_set_crtc [simp]: "con (set_crtc n a s) = con s"
  by (simp add: set_crtc_def outb_def Let_def)

lemma con_upd_con [simp]: "con (upd_con f s) = f (con s)"
  by (simp add: upd_con_def)

lemma scrup_rel: "screen_ok (con s) \<Longrightarrow> con_rel (con s) (con (scrup s))"
  by (simp add: scrup_def set_origin_def scrup_origin_rel scrup_region_rel)

lemma con_rel_move:
  assumes "screen_ok c" "screen_ok c'" "video_mem_start c' = video_mem_start c" "video_mem_end c' = video_mem_end c"
    "video_num_columns c' = video_num_columns c" "video_num_lines c' = video_num_lines c" "vram c' = vram c"
  shows "con_rel c c'"
  using assms by (simp add: con_rel_def)

lemma lf_rel: "screen_ok (con s) \<Longrightarrow> con_rel (con s) (con (lf s))"
proof (cases "con_y (con s) + 1 < con_bottom (con s)")
  case True
  assume ok: "screen_ok (con s)"
  have "con_y (con s) + 1 < video_num_lines (con s)" using True ok by (auto simp: screen_ok_def)
  then have "screen_ok ((con s)\<lparr>con_y := con_y (con s) + 1, con_pos := con_pos (con s) + video_size_row (con s)\<rparr>)"
    using ok by (simp add: screen_ok_def cell_def algebra_simps)
  then show ?thesis using True ok by (simp add: lf_def con_rel_move)
qed (simp add: lf_def scrup_rel)

lemma gotoxy_rel: "screen_ok c \<Longrightarrow> con_rel c (gotoxy a b c)"
  by (auto simp: gotoxy_def con_rel_def screen_ok_def cell_def not_le not_less algebra_simps)

lemma ri_rel: "screen_ok c \<Longrightarrow> con_rel c (ri c)"
proof (cases "con_y c > con_top c")
  case True
  assume ok: "screen_ok c"
  have "con_y c - 1 < con_y c" using True by (simp add: word_gt_0 word_neq_0_conv word_less_nat_alt unat_sub_if' word_size) 
  then have "con_y c - 1 < video_num_lines c" using ok by (auto simp: screen_ok_def)
  then have "screen_ok (c\<lparr>con_y := con_y c - 1, con_pos := con_pos c - video_size_row c\<rparr>)"
    using ok by (simp add: screen_ok_def cell_def algebra_simps)
  then show ?thesis using True ok by (simp add: ri_def con_rel_move)
qed (simp add: ri_def scrdown_rel)

lemma cr_rel: "screen_ok c \<Longrightarrow> con_rel c (cr c)"
  by (rule con_rel_move) (auto simp: cr_def screen_ok_def cell_def algebra_simps)

lemma x_pred: "screen_ok c \<Longrightarrow> con_x c \<noteq> 0 \<Longrightarrow> con_x c - 1 < video_num_columns c"
proof -
  assume ok: "screen_ok c" "con_x c \<noteq> 0"
  then have "0 < unat (con_x c)" by (simp add: unat_gt_0)
  then show ?thesis using ok by (auto simp: screen_ok_def word_less_nat_alt word_le_nat_alt unat_sub_if' word_size)
qed

lemma left_ok:
  assumes "screen_ok c" "con_x c \<noteq> 0"
  shows "screen_ok (c\<lparr>con_pos := con_pos c - 2, con_x := con_x c - 1\<rparr>)"
  using assms x_pred [OF assms] by (simp add: screen_ok_def cell_def algebra_simps)

lemma cursor_in_video: "screen_ok c \<Longrightarrow> con_x c < video_num_columns c \<Longrightarrow> in_video c (con_pos c)"
  using cell_in_video [of c] pos_cell [of c] cursor_cell(2) [of c] by (auto simp: word_less_nat_alt)

lemma del_rel:
  assumes "screen_ok c"
  shows "con_rel c (del c)"
proof (cases "con_x c = 0")
  case False
  let ?c = "c\<lparr>con_pos := con_pos c - 2, con_x := con_x c - 1\<rparr>"
  have ok: "screen_ok ?c" by (rule left_ok [OF assms False])
  have "in_video ?c (con_pos ?c)" using cursor_in_video [OF ok] x_pred [OF assms False] by simp
  then have "con_rel ?c (?c\<lparr>vram := (vram ?c)(con_pos ?c := video_erase_char c)\<rparr>)"
    by (intro con_rel_vram [OF ok]) auto
  moreover have "con_rel c ?c" using ok assms by (intro con_rel_move) simp_all
  ultimately have "con_rel c (?c\<lparr>vram := (vram ?c)(con_pos ?c := video_erase_char c)\<rparr>)" by (rule con_rel_trans [rotated])
  then show ?thesis using False by (simp add: del_def)
qed (simp add: del_def assms con_rel_refl)

lemma erase_rel:
  assumes "screen_ok c" "k + unat n \<le> rows c * cols c" "d = cell c k"
  shows "con_rel c (erase n d c)"
  unfolding erase_def assms(3) by (rule con_rel_vram [OF assms(1)], rule stosw_screen [OF assms(1,2)])

lemma unat_cell_diff:
  assumes "screen_ok c" "j \<le> k" "k \<le> rows c * cols c"
  shows "unat (drop_bit 1 (cell c k - cell c j)) = k - j"
proof -
  have "cell c j \<le> cell c k" using assms unat_cell by (simp add: word_le_nat_alt)
  then have "unat (cell c k - cell c j) = 2 * (k - j)" using assms unat_cell by (simp add: unat_sub)
  then show ?thesis by (simp add: drop_bit_eq_div unat_div)
qed

lemma cell_0: "con_origin c = cell c 0"
  by (simp add: cell_def)

lemma csi_J_rel:
  assumes "screen_ok c"
  shows "con_rel c (csi_J n c)"
proof -
  let ?k = "unat (con_y c) * cols c + unat (con_x c)"
  have e: "con_scr_end c = cell c (rows c * cols c)" using assms by (simp add: screen_ok_def)
  have all: "unat (video_num_columns c * video_num_lines c) = rows c * cols c"
    using cells_bound [OF assms] by (simp add: unat_word_ariths mult.commute)
  show ?thesis
    using cursor_cell(1) [OF assms] unat_cell_diff [OF assms, of ?k "rows c * cols c"] unat_cell_diff [OF assms, of 0 ?k]
    by (auto simp: csi_J_def con_rel_refl [OF assms] e pos_cell [OF assms] cell_0 all
        intro!: erase_rel [OF assms] split: if_splits)
qed

lemma csi_K_rel:
  assumes "screen_ok c"
  shows "con_rel c (csi_K n c)"
proof -
  let ?r = "unat (con_y c) * cols c"
  have r: "con_pos c - 2 * con_x c = cell c ?r" by (simp add: pos_cell [OF assms] cell_def)
  have "csi_K n c = c" if "\<not> (n = 0 \<and> con_x c < video_num_columns c)" "n \<noteq> 1" "n \<noteq> 2"
    using that by (simp add: csi_K_def not_le [symmetric])
  then consider "n = 0" "con_x c < video_num_columns c" | "n = 1" | "n = 2" | "csi_K n c = c" by blast
  then show ?thesis
  proof cases
    case 1
    then have "con_x c \<le> video_num_columns c" by simp
    then have "unat (con_x c) \<le> cols c" "unat (video_num_columns c - con_x c) = cols c - unat (con_x c)"
      by (simp_all only: unat_sub word_le_nat_alt)
    then show ?thesis using 1 cursor_cell(2) [OF assms]
      by (simp add: csi_K_def not_le [symmetric] erase_rel [OF assms _ pos_cell [OF assms]])
  next
    case 2
    have "unat (if con_x c < video_num_columns c then con_x c else video_num_columns c) \<le> cols c"
      by (simp add: word_less_nat_alt)
    then show ?thesis using 2 cursor_cell(2) [OF assms]
      by (simp only: csi_K_def) (simp add: erase_rel [OF assms _ r])
  next
    case 3
    then show ?thesis using cursor_cell(2) [OF assms] by (simp add: csi_K_def erase_rel [OF assms _ r])
  qed (simp add: con_rel_refl assms)
qed

lemma push_right_screen:
  assumes "screen_ok c" "k + n \<le> rows c * cols c" "\<not> in_video c a"
  shows "push_right n (cell c k) v m a = m a"
proof (rule push_right_frame)
  fix i assume "i < n"
  then show "a \<noteq> cell c k + 2 * of_nat i" using assms cell_in_video [OF assms(1), of "k + i"] by (auto simp: cell_add)
qed

lemma pull_left_screen:
  assumes "screen_ok c" "k + n < rows c * cols c" "\<not> in_video c a"
  shows "pull_left n (cell c k) v m a = m a"
proof (rule pull_left_frame)
  fix i assume "i \<le> n"
  then show "a \<noteq> cell c k + 2 * of_nat i" using assms cell_in_video [OF assms(1), of "k + i"] by (auto simp: cell_add)
qed

lemma insert_char_rel:
  assumes "screen_ok c"
  shows "con_rel c (insert_char c)"
proof -
  have "unat (con_y c) * cols c + unat (con_x c) + (cols c - unat (con_x c)) \<le> rows c * cols c"
    using cursor_cell [OF assms] by (cases "unat (con_x c) \<le> cols c") simp_all
  then show ?thesis unfolding insert_char_def pos_cell [OF assms]
    by (intro con_rel_vram [OF assms] push_right_screen [OF assms])
qed

lemma delete_char_rel:
  assumes "screen_ok c"
  shows "con_rel c (delete_char c)"
proof (cases "con_x c \<ge> video_num_columns c")
  case False
  then have "unat (con_x c) < cols c" by (simp add: word_le_nat_alt)
  then have "unat (con_y c) * cols c + unat (con_x c) + (cols c - unat (con_x c) - 1) < rows c * cols c"
    using cursor_cell(2) [OF assms] by simp
  then show ?thesis using False unfolding delete_char_def pos_cell [OF assms]
    by (auto intro!: con_rel_vram [OF assms] pull_left_screen [OF assms])
qed (simp add: delete_char_def con_rel_refl assms)

text \<open>\<open>insert_line\<close> and \<open>delete_line\<close> scroll a region that starts at the line of the cursor.\<close>

lemma region_ok:
  assumes "screen_ok c" "t < b" "b \<le> video_num_lines c"
  shows "screen_ok (c\<lparr>con_top := t, con_bottom := b\<rparr>)"
  using assms by (simp add: screen_ok_def cell_def)

lemma region_rel:
  assumes "screen_ok c" "con_rel (c\<lparr>con_top := con_y c, con_bottom := video_num_lines c\<rparr>) d"
  shows "con_rel c (d\<lparr>con_top := con_top c, con_bottom := con_bottom c\<rparr>)"
proof -
  have "screen_ok d" "video_num_lines d = video_num_lines c" using assms(2) by (simp_all add: con_rel_def)
  then have "screen_ok (d\<lparr>con_top := con_top c, con_bottom := con_bottom c\<rparr>)"
    using assms(1) by (intro region_ok) (simp_all add: screen_ok_def)
  then show ?thesis using assms(2) by (simp add: con_rel_def in_video_def)
qed

lemma cursor_region_ok: "screen_ok c \<Longrightarrow> screen_ok (c\<lparr>con_top := con_y c, con_bottom := video_num_lines c\<rparr>)"
  by (rule region_ok) (simp_all add: screen_ok_def)

lemma insert_line_rel: "screen_ok c \<Longrightarrow> con_rel c (insert_line c)"
  using region_rel [OF _ scrdown_rel [OF cursor_region_ok]] by (simp add: insert_line_def Let_def)

lemma delete_line_rel: "screen_ok (con s) \<Longrightarrow> con_rel (con s) (con (delete_line s))"
  using region_rel [of "con s"] scrup_rel [of "upd_con (\<lambda>c. c\<lparr>con_top := con_y c, con_bottom := video_num_lines c\<rparr>) s"]
    cursor_region_ok [of "con s"] by (simp add: delete_line_def Let_def)

lemma funpow_rel:
  assumes "\<And>c. screen_ok (g c) \<Longrightarrow> con_rel (g c) (g (f c))" "screen_ok (g c)"
  shows "con_rel (g c) (g ((f ^^ n) c))"
proof (induction n)
  case (Suc n)
  then show ?case using assms(1) [of "(f ^^ n) c"] con_rel_trans con_rel_ok by fastforce
qed (simp add: assms(2) con_rel_refl)

lemma repeat_rels:
  "screen_ok c \<Longrightarrow> con_rel c (csi_at n c)" "screen_ok c \<Longrightarrow> con_rel c (csi_L n c)"
  "screen_ok c \<Longrightarrow> con_rel c (csi_P n c)" "screen_ok (con s) \<Longrightarrow> con_rel (con s) (con (csi_M n s))"
  using funpow_rel [of "\<lambda>c. c" insert_char c] insert_char_rel funpow_rel [of "\<lambda>c. c" insert_line c] insert_line_rel
    funpow_rel [of "\<lambda>c. c" delete_char c] delete_char_rel
  by (simp_all add: csi_at_def csi_L_def csi_P_def csi_M_def funpow_rel [of con delete_line s, OF delete_line_rel])

lemma sgr_rel: "screen_ok c \<Longrightarrow> con_rel c (sgr p c)"
  by (rule con_rel_move) (auto simp: sgr_def screen_ok_def cell_def)

lemma csi_m_rel: "screen_ok c \<Longrightarrow> con_rel c (csi_m c)"
proof -
  have "con_rel c (fold (\<lambda>i. sgr (f i)) is c)" if "screen_ok c" for f :: "nat \<Rightarrow> u32" and "is" c
    using that
  proof (induction "is" arbitrary: c)
    case (Cons i "is")
    then show ?case using sgr_rel [OF Cons.prems, of "f i"] con_rel_ok con_rel_trans by fastforce
  qed (simp add: con_rel_refl)
  then show "screen_ok c \<Longrightarrow> con_rel c (csi_m c)" by (simp only: csi_m_def)
qed

lemma con_rel_con_only:
  "screen_ok c \<Longrightarrow> screen_ok c' = screen_ok c \<Longrightarrow> video_mem_start c' = video_mem_start c \<Longrightarrow> video_mem_end c' = video_mem_end c
    \<Longrightarrow> video_num_columns c' = video_num_columns c \<Longrightarrow> video_num_lines c' = video_num_lines c \<Longrightarrow> vram c' = vram c
    \<Longrightarrow> con_rel c c'"
  by (simp add: con_rel_def)

lemma screen_ok_misc [simp]:
  "screen_ok (c\<lparr>con_state := v\<rparr>) = screen_ok c" "screen_ok (c\<lparr>saved_x := v, saved_y := w\<rparr>) = screen_ok c"
  "screen_ok (set_par i v c) = screen_ok c"
  by (simp_all add: screen_ok_def cell_def set_par_def)

lemma state_rel: "screen_ok c \<Longrightarrow> con_rel c (c\<lparr>con_state := v\<rparr>)"
  by (rule con_rel_con_only) simp_all

lemma set_par_rel: "screen_ok c \<Longrightarrow> con_rel c (set_par i v c)"
  by (rule con_rel_con_only) (simp_all, simp_all add: set_par_def)

lemma dec_par_rel: "screen_ok c \<Longrightarrow> con_rel c (dec_par i c)"
  by (simp add: dec_par_def con_rel_refl set_par_rel)

lemma inc_par_rel: "screen_ok c \<Longrightarrow> con_rel c (inc_par i c)"
  by (simp add: inc_par_def con_rel_refl set_par_rel)

lemma save_cur_rel: "screen_ok c \<Longrightarrow> con_rel c (save_cur c)"
  by (rule con_rel_con_only) (simp_all add: save_cur_def)

lemma restore_cur_rel: "screen_ok c \<Longrightarrow> con_rel c (restore_cur c)"
  by (simp add: restore_cur_def gotoxy_rel)

lemma set_region_rel:
  assumes "screen_ok c"
  shows "con_rel c (set_region c)"
proof -
  define d where "d = (if con_par (dec_par 0 c) 1 = 0 then set_par 1 (video_num_lines (dec_par 0 c)) (dec_par 0 c) else dec_par 0 c)"
  have d: "con_rel c d"
    using dec_par_rel [OF assms, of 0] set_par_rel [of "dec_par 0 c" 1] con_rel_trans con_rel_ok by (fastforce simp: d_def)
  have "con_rel d (if con_par d 0 < con_par d 1 \<and> con_par d 1 \<le> video_num_lines d
         then d\<lparr>con_top := con_par d 0, con_bottom := con_par d 1\<rparr> else d)"
    using con_rel_ok [OF d] by (auto intro!: con_rel_move region_ok con_rel_refl)
  from con_rel_trans [OF d this] show ?thesis unfolding set_region_def Let_def d_def by simp
qed

lemma par_goto_rels:
  assumes "screen_ok c"
  shows "con_rel c (gotoxy a b (dec_par i c))" "con_rel c (gotoxy a b (inc_par i c))"
    "con_rel c (gotoxy a b (dec_par j (dec_par i c)))"
  using con_rel_trans [OF dec_par_rel gotoxy_rel, OF assms con_rel_ok [OF dec_par_rel [OF assms]]]
    con_rel_trans [OF inc_par_rel gotoxy_rel, OF assms con_rel_ok [OF inc_par_rel [OF assms]]]
    con_rel_trans [OF dec_par_rel con_rel_trans [OF dec_par_rel gotoxy_rel], OF assms con_rel_ok [OF dec_par_rel [OF assms]]
      con_rel_ok [OF dec_par_rel [OF con_rel_ok [OF dec_par_rel [OF assms]]]]]
  by simp_all

lemma csi_cursor_rel: "screen_ok c \<Longrightarrow> con_rel c (csi_cursor ch c)"
  by (simp add: csi_cursor_def Let_def par_goto_rels con_rel_refl)

lemma csi_final_rel: "screen_ok (con s) \<Longrightarrow> con_rel (con s) (con (csi_final ch s))"
  by (simp add: csi_final_def Let_def csi_J_rel csi_K_rel repeat_rels csi_m_rel set_region_rel save_cur_rel
      restore_cur_rel csi_cursor_rel)

lemma wrap_ok:
  assumes "screen_ok c" "video_num_columns c \<le> con_x c" 
  shows "screen_ok (wrap_line c)"
  using assms by (simp add: screen_ok_def wrap_line_def cell_def algebra_simps)

lemma wrap_rel: "screen_ok c \<Longrightarrow> video_num_columns c \<le> con_x c \<Longrightarrow> con_rel c (wrap_line c)"
  by (rule con_rel_move) (simp_all add: wrap_ok, simp_all add: wrap_line_def)

lemma put_cell_rel:
  assumes "screen_ok c" "con_x c < video_num_columns c"
  shows "con_rel c (put_cell ch c)"
proof -
  let ?c = "c\<lparr>vram := (vram c)(con_pos c := push_bit 8 (ucast (con_attr c)) OR ucast ch)\<rparr>"
  have "con_rel c ?c" using cursor_in_video [OF assms] by (intro con_rel_vram [OF assms(1)]) auto
  moreover have "con_rel ?c (put_cell ch c)"
  proof (rule con_rel_move)
    have "con_x c + 1 \<le> video_num_columns c" using assms(2) by (simp add: inc_le)
    then show "screen_ok (put_cell ch c)"
      using assms(1) by (simp add: screen_ok_def put_cell_def cell_def algebra_simps)
  qed (simp_all add: assms(1), simp_all add: put_cell_def)
  ultimately show ?thesis by (rule con_rel_trans)
qed

lemma lf_cursor:
  "con_x (con (lf s)) = con_x (con s)" "video_num_columns (con (lf s)) = video_num_columns (con s)"
  by (simp_all add: lf_def scrup_def set_origin_def scrup_region_def scrup_origin_def Let_def split_beta)

lemma tab_rel:
  assumes "screen_ok (con s)"
  shows "con_rel (con s) (con (if con_x (tab (con s)) > video_num_columns (con s)
    then lf (upd_con wrap_line (upd_con tab s)) else upd_con tab s))"
proof -
  let ?c = "con s"
  define d where "d = 8 - (con_x ?c AND 7)"
  have "con_x ?c AND 7 \<le> 7" by (simp add: word_and_le1)
  then have d: "unat d \<le> 8" by (simp add: d_def unat_sub_if' word_le_nat_alt)
  have t: "tab ?c = ?c\<lparr>con_x := con_x ?c + d, con_pos := con_pos ?c + 2 * d\<rparr>" by (simp add: tab_def d_def)
  have x: "unat (con_x ?c) \<le> cols ?c" "cols ?c < 256" "8 \<le> cols ?c"
    using assms by (simp_all add: screen_ok_def word_le_nat_alt)
  then have xd: "unat (con_x ?c + d) = unat (con_x ?c) + unat d" using d by (simp add: unat_word_ariths)
  show ?thesis
  proof (cases "con_x (tab ?c) > video_num_columns ?c")
    case True
    then have "unat (con_x ?c + d - video_num_columns ?c) = unat (con_x ?c) + unat d - cols ?c"
      using xd by (simp add: t unat_sub)
    then have "con_x ?c + d - video_num_columns ?c \<le> video_num_columns ?c" using x d by (simp add: word_le_nat_alt)
    then have "screen_ok (wrap_line (tab ?c))"
      using assms by (simp add: screen_ok_def wrap_line_def t cell_def algebra_simps)
    then have w: "con_rel ?c (wrap_line (tab ?c))" using assms by (intro con_rel_move) (simp_all add: wrap_line_def t)
    then have "con_rel (wrap_line (tab ?c)) (con (lf (upd_con wrap_line (upd_con tab s))))"
      using lf_rel [of "upd_con wrap_line (upd_con tab s)"] con_rel_ok [OF w] by simp
    then show ?thesis using True con_rel_trans [OF w] by simp
  next
    case False
    then have "screen_ok (tab ?c)" using assms by (simp add: screen_ok_def t cell_def algebra_simps)
    then show ?thesis using False assms by (auto intro!: con_rel_move simp: t)
  qed
qed

lemma tab_cols: "video_num_columns (tab c) = video_num_columns c"
  by (simp add: tab_def Let_def)

lemma con_text_rel:
  assumes ok: "screen_ok (con s)"
  shows "con_rel (con s) (con (con_text k ch s))"
proof -
  let ?s = "if con_x (con s) \<ge> video_num_columns (con s) then lf (upd_con wrap_line s) else s"
  have print: "con_rel (con s) (con (upd_con (put_cell ch) ?s))"
  proof (cases "con_x (con s) \<ge> video_num_columns (con s)")
    case True
    have w: "con_rel (con s) (wrap_line (con s))" by (rule wrap_rel [OF ok True])
    have l: "con_rel (wrap_line (con s)) (con (lf (upd_con wrap_line s)))"
      using lf_rel [of "upd_con wrap_line s"] con_rel_ok [OF w] by simp
    have "con_x (con s) = video_num_columns (con s)" using ok True by (simp add: screen_ok_def)
    moreover have "0 < cols (con s)" using ok by (simp add: screen_ok_def)
    ultimately have "con_x (con (lf (upd_con wrap_line s))) < video_num_columns (con (lf (upd_con wrap_line s)))"
      by (simp add: lf_cursor wrap_line_def word_less_nat_alt)
    from put_cell_rel [OF con_rel_ok [OF l] this] show ?thesis
      using True con_rel_trans [OF con_rel_trans [OF w l]] by simp
  next
    case False
    then show ?thesis using put_cell_rel [OF ok] by simp
  qed
  have bs: "con_rel (con s) ((con s)\<lparr>con_x := con_x (con s) - 1, con_pos := con_pos (con s) - 2\<rparr>)" if "con_x (con s) \<noteq> 0"
  proof -
    have "(con s)\<lparr>con_x := con_x (con s) - 1, con_pos := con_pos (con s) - 2\<rparr>
      = (con s)\<lparr>con_pos := con_pos (con s) - 2, con_x := con_x (con s) - 1\<rparr>" by simp
    moreover have "con_rel (con s) ((con s)\<lparr>con_pos := con_pos (con s) - 2, con_x := con_x (con s) - 1\<rparr>)"
      by (rule con_rel_move [OF ok left_ok [OF ok that]]) simp_all
    ultimately show ?thesis by (simp only:)
  qed
  show ?thesis
    using print bs tab_rel [OF ok] lf_rel [OF ok] cr_rel [OF ok] del_rel [OF ok] con_rel_refl [OF ok] state_rel [OF ok, of 1]
    by (simp add: con_text_def Let_def sysbeep_def outb_def tab_cols split: if_splits)
qed

lemma con_escape_rel: "screen_ok (con s) \<Longrightarrow> con_rel (con s) (con (con_escape ch s))"
  by (simp add: con_escape_def Let_def state_rel gotoxy_rel ri_rel lf_rel save_cur_rel restore_cur_rel con_rel_refl)

lemma con_params_rel:
  assumes ok: "screen_ok (con s)"
  shows "con_rel (con s) (con (con_params ch s))"
proof -
  have next_par: "con_rel (con s) ((con s)\<lparr>con_npar := con_npar (con s) + 1\<rparr>)" if "con_npar (con s) < 15"
  proof (rule con_rel_move [OF ok])
    have "con_npar (con s) + 1 < 16" using that by (simp add: word_less_nat_alt unat_word_ariths)
    then show "screen_ok ((con s)\<lparr>con_npar := con_npar (con s) + 1\<rparr>)" using ok by (simp add: screen_ok_def cell_def)
  qed simp_all
  let ?d = "upd_con (\<lambda>v. v\<lparr>con_state := 0\<rparr>) s"
  have "con_rel (con s) (con (csi_final ch ?d))"
    using con_rel_trans [OF state_rel [OF ok, of 0]] csi_final_rel [of ?d ch] ok by simp
  then show ?thesis using next_par set_par_rel [OF ok] by (simp add: con_params_def Let_def)
qed

lemma con_bracket_rel:
  assumes ok: "screen_ok (con s)"
  shows "con_rel (con s) (con (con_bracket ch s))"
proof -
  define d where "d q = upd_con (\<lambda>v. v\<lparr>con_par := (\<lambda>i. if i < NPAR then 0 else con_par v i), con_npar := 0,
    con_state := 3, con_ques := q\<rparr>) s" for q
  have d: "con_rel (con s) (con (d q))" for q
    using ok by (intro con_rel_move) (simp_all add: d_def screen_ok_def cell_def)
  have "con_rel (con s) (con (con_params ch (d q)))" for q
    using con_rel_trans [OF d con_params_rel [OF con_rel_ok [OF d]]] .
  with d show ?thesis by (simp add: con_bracket_def d_def [symmetric] Let_def)
qed

section \<open>The terminal around it\<close>

lemma con_upd_tty [simp]:
  "con (upd_tty t f s) = con s" "con (upd_read_q t g s) = con s" "con (upd_write_q t g s) = con s"
  "con (upd_secondary t g s) = con s"
  by (simp_all add: upd_tty_def upd_read_q_def upd_write_q_def upd_secondary_def)

lemma con_rs_write [simp]: "con (rs_write t s) = con s"
  by (simp add: rs_write_def outb_def Let_def)

lemma con_tty_intr [simp]: "con (tty_intr t msk s) = con s"
proof -
  have "con (fold (\<lambda>i s. if task s i \<noteq> 0 \<and> t_pgrp (tasks s (task s i)) = tty_pgrp s t
             then upd_task (task s i) (\<lambda>p. p\<lparr>t_signal := t_signal p OR msk\<rparr>) s else s) xs s) = con s" for xs
    by (induction xs arbitrary: s) (simp_all add: upd_task_def)
  then show ?thesis by (simp add: tty_intr_def)
qed

lemma con_wake_secondary [simp]: "con (wake_up (Some (secondary_waitq t)) s) = con s"
  by (simp add: wake_up_def secondary_waitq_def set_state_def upd_task_def)

text \<open>A driver that keeps the screen in order.\<close>

definition keeps_screen :: "'a tty_state_scheme con_fn \<Rightarrow> bool" where
  "keeps_screen cw \<longleftrightarrow> (\<forall>t s s'. screen_ok (con s) \<longrightarrow> cw t s = Some s' \<longrightarrow> con_rel (con s) (con s'))"

lemma tty_out_rel: "keeps_screen cw \<Longrightarrow> screen_ok (con s) \<Longrightarrow> tty_out cw t s = Some s' \<Longrightarrow> con_rel (con s) (con s')"
  by (auto simp: keeps_screen_def tty_out_def con_rel_refl split: if_splits)

lemma echo_erase_rel:
  "keeps_screen cw \<Longrightarrow> screen_ok (con s) \<Longrightarrow> echo_erase cw t c s = Some s' \<Longrightarrow> con_rel (con s) (con s')"
  using tty_out_rel [of cw "upd_write_q t (PUTCH 127) (upd_write_q t (PUTCH 127) s)"] tty_out_rel [of cw "upd_write_q t (PUTCH 127) s"]
  by (auto simp: echo_erase_def con_rel_refl Let_def split: if_splits)

lemma kill_rel:
  assumes "keeps_screen cw" "screen_ok (con s)" "iter (kill_step cw t) s = Some s'"
  shows "con_rel (con s) (con s')"
proof (rule iter_invariant [OF assms(3), where I = "\<lambda>s'. con_rel (con s) (con s')"])
  show "con_rel (con s) (con s2)" if "kill_step cw t s1 = Some (Inl s2)" "con_rel (con s) (con s1)" for s1 s2
    using that echo_erase_rel [OF assms(1) con_rel_ok [OF that(2)]] con_rel_trans [OF that(2)]
    by (auto simp: kill_step_def bind_eq_Some_conv split: if_splits)
qed (auto simp: kill_step_def bind_eq_Some_conv con_rel_refl assms(2) split: if_splits)

lemma echo_char_rel:
  "keeps_screen cw \<Longrightarrow> screen_ok (con s) \<Longrightarrow> echo_char cw t c s = Some s' \<Longrightarrow> con_rel (con s) (con s')"
  using tty_out_rel [of cw "upd_write_q t (PUTCH 13) (upd_write_q t (PUTCH 10) s)"]
    tty_out_rel [of cw "upd_write_q t (PUTCH (word_of_int (c + 64))) (upd_write_q t (PUTCH 94) s)"]
    tty_out_rel [of cw s] tty_out_rel [of cw "upd_write_q t (PUTCH (word_of_int c)) s"]
  by (auto simp: echo_char_def con_rel_refl split: if_splits)

lemma accept_rel:
  assumes "keeps_screen cw" "screen_ok (con s)" "accept cw t c s = Some s'"
  shows "con_rel (con s) (con s')"
proof -
  define s0 where "s0 = (if c = 10 \<or> c = CC VEOF (tty_table s t) then upd_secondary t (\<lambda>q. q\<lparr>q_data := q_data q + 1\<rparr>) s else s)"
  have "con s0 = con s" by (simp add: s0_def)
  moreover obtain s1 where "echo_char cw t c s0 = Some s1" "con s' = con s1"
    using assms(3) by (auto simp: accept_def s0_def [symmetric] Let_def bind_eq_Some_conv)
  ultimately show ?thesis using echo_char_rel [OF assms(1), of s0] assms(2) by simp
qed

lemma erase_last_rel:
  "keeps_screen cw \<Longrightarrow> screen_ok (con s) \<Longrightarrow> erase_last cw t s = Some s' \<Longrightarrow> con_rel (con s) (con s')"
  by (auto simp: erase_last_def bind_eq_Some_conv con_rel_refl dest: echo_erase_rel split: if_splits)

lemma cook_char_rel:
  "keeps_screen cw \<Longrightarrow> screen_ok (con s) \<Longrightarrow> cook_char cw t c s = Some s' \<Longrightarrow> con_rel (con s) (con s')"
  using kill_rel [of cw s t] erase_last_rel [of cw s t] accept_rel [of cw s t c]
  by (auto simp: cook_char_def Let_def con_rel_refl split: if_splits)

lemma copy_to_cooked_rel:
  assumes "keeps_screen cw" "screen_ok (con s)" "copy_to_cooked_with cw t s = Some s'"
  shows "con_rel (con s) (con s')"
proof -
  obtain s1 where s1: "iter (cook_step cw t) s = Some s1" "con s' = con s1"
    using assms(3) by (auto simp: copy_to_cooked_with_def bind_eq_Some_conv)
  have "con_rel (con s) (con s1)"
  proof (rule iter_invariant [OF s1(1), where I = "\<lambda>s'. con_rel (con s) (con s')"])
    show "con_rel (con s) (con s2)" if "cook_step cw t s1 = Some (Inl s2)" "con_rel (con s) (con s1)" for s1 s2
      using that cook_char_rel [OF assms(1), of "upd_read_q t (\<lambda>q. snd (GETCH q)) s1" t _ s2] con_rel_trans [OF that(2)]
        con_rel_ok [OF that(2)]
      by (auto simp: cook_step_def bind_eq_Some_conv Let_def split: if_splits option.splits)
  qed (auto simp: cook_step_def bind_eq_Some_conv Let_def con_rel_refl assms(2) split: if_splits option.splits)
  then show ?thesis by (simp add: s1(2))
qed

lemma con_char_rel:
  assumes "keeps_screen cw" "screen_ok (con s)" "con_char cw t ch s = Some s'"
  shows "con_rel (con s) (con s')"
proof -
  let ?d = "upd_con (\<lambda>v. v\<lparr>con_state := 0\<rparr>) s"
  note d = con_rel_trans [OF state_rel [OF assms(2), of 0]]
  have ok: "screen_ok (con ?d)" using assms(2) by simp
  have "con_rel (con ?d) (con s'')" if "respond cw t ?d = Some s''" for s''
    using copy_to_cooked_rel [OF assms(1) _ that [unfolded respond_def]] ok by simp
  then show ?thesis
    using assms(3) d con_text_rel [OF assms(2)] con_escape_rel [OF ok] con_bracket_rel [OF assms(2)]
      con_params_rel [OF assms(2)] csi_final_rel [OF ok] con_rel_refl [OF assms(2)]
    by (auto simp: con_char_def Let_def split: if_splits)
qed

lemma con_write_keeps: "keeps_screen con_write"
proof -
  have "screen_ok (con s) \<longrightarrow> con_rel (con s) (con s')" if "con_write t s = Some s'" for t and s s' :: "'a tty_state_scheme"
  proof (rule con_write.raw_induct [OF _ that], intro impI)
    fix cw :: "nat \<Rightarrow> 'a tty_state_scheme \<Rightarrow> 'a tty_state_scheme option" and t s s'
    assume IH: "\<And>t s s'. cw t s = Some s' \<Longrightarrow> screen_ok (con s) \<longrightarrow> con_rel (con s) (con s')"
      and step: "Option.bind (for_range 0 (unat (CHARS (write_q (tty_table s t)))) (\<lambda>_. con_step cw t) s)
        (\<lambda>s. Some (set_cursor s)) = Some s'" and ok: "screen_ok (con s)"
    have k: "keeps_screen cw" using IH by (auto simp: keeps_screen_def)
    obtain s1 where s1: "for_range 0 (unat (CHARS (write_q (tty_table s t)))) (\<lambda>_. con_step cw t) s = Some s1" "con s' = con s1"
      using step by (auto simp: bind_eq_Some_conv set_cursor_def)
    have "con_rel (con s) (con s1)"
    proof (rule for_range_inv [OF s1(1)])
      show "con_rel (con s) (con s3)" if "con_rel (con s) (con s2)" "con_step cw t s2 = Some s3" for s2 s3
        using con_char_rel [OF k _ that(2) [unfolded con_step_def]] con_rel_ok [OF that(1)] con_rel_trans [OF that(1)] by simp
    qed (rule con_rel_refl [OF ok])
    then show "con_rel (con s) (con s')" by (simp add: s1(2))
  qed
  then show ?thesis by (simp add: keeps_screen_def)
qed

section \<open>Ordinary text\<close>

text \<open>What \<open>con_text\<close> does to the console alone.\<close>

definition lf_con :: "console \<Rightarrow> console" where
  "lf_con c = (if con_y c + 1 < con_bottom c then c\<lparr>con_y := con_y c + 1, con_pos := con_pos c + video_size_row c\<rparr>
     else if scrolls_by_origin c then scrup_origin c else scrup_region c)"

definition text_con :: "int \<Rightarrow> u8 \<Rightarrow> console \<Rightarrow> console" where
  "text_con k ch c =
     (let n = sint ch in
      if n > 31 \<and> n < 127 then put_cell ch (if con_x c \<ge> video_num_columns c then lf_con (wrap_line c) else c)
      else if n = 27 then c\<lparr>con_state := 1\<rparr>
      else if n = 10 \<or> n = 11 \<or> n = 12 then lf_con c
      else if n = 13 then cr c
      else if n = k then del c
      else if n = 8 then (if con_x c \<noteq> 0 then c\<lparr>con_x := con_x c - 1, con_pos := con_pos c - 2\<rparr> else c)
      else if n = 9 then (if con_x (tab c) > video_num_columns (tab c) then lf_con (wrap_line (tab c)) else tab c)
      else c)"

lemma con_lf: "con (lf s) = lf_con (con s)"
  by (simp add: lf_def lf_con_def scrup_def set_origin_def)

lemma con_con_text: "con (con_text k ch s) = text_con k ch (con s)"
  by (simp add: con_text_def text_con_def Let_def con_lf sysbeep_def outb_def)

lemma outb_tty [simp]: "tty_table (outb v p s) = tty_table s"
  by (simp add: outb_def)

lemma upd_con_tty [simp]: "tty_table (upd_con f s) = tty_table s"
  by (simp add: upd_con_def)

lemma lf_tty [simp]: "tty_table (lf s) = tty_table s"
  by (simp add: lf_def scrup_def set_origin_def set_crtc_def Let_def)

lemma con_text_tty [simp]: "tty_table (con_text k ch s) = tty_table s"
  by (simp add: con_text_def Let_def sysbeep_def)

lemma lf_con_state [simp]: "con_state (lf_con c) = con_state c"
  by (simp add: lf_con_def scrup_origin_def scrup_region_def Let_def split_beta)

lemma text_con_state: "sint ch \<noteq> 27 \<Longrightarrow> con_state (text_con k ch c) = con_state c"
  by (simp add: text_con_def Let_def put_cell_def wrap_line_def cr_def del_def tab_def)

lemma write_q_upd [simp]:
  "write_q (tty_table (upd_write_q t f s) t) = f (write_q (tty_table s t))"
  "tty_termios (tty_table (upd_write_q t f s) t) = tty_termios (tty_table s t)"
  by (simp_all add: upd_write_q_def upd_tty_def)

lemma CC_write_q [simp]: "CC n (tty_table (upd_write_q t f s) t) = CC n (tty_table s t)"
  by (simp add: CC_def)

text \<open>What output leaves alone: the input side of the terminal, and the tasks.\<close>

definition same_input :: "nat \<Rightarrow> 'a tty_state_scheme \<Rightarrow> 'a tty_state_scheme \<Rightarrow> bool" where
  "same_input t s s' \<longleftrightarrow> read_q (tty_table s' t) = read_q (tty_table s t) \<and> secondary (tty_table s' t) = secondary (tty_table s t)
     \<and> tty_termios (tty_table s' t) = tty_termios (tty_table s t) \<and> tty_stopped (tty_table s' t) = tty_stopped (tty_table s t)
     \<and> ctype_below s' = ctype_below s \<and> tasks s' = tasks s \<and> task s' = task s \<and> tty_pgrp s' = tty_pgrp s"

lemma same_input_refl: "same_input t s s"
  by (simp add: same_input_def)

lemma same_input_trans: "same_input t a b \<Longrightarrow> same_input t b c \<Longrightarrow> same_input t a c"
  by (simp add: same_input_def)

lemma same_input_outb: "same_input t s (outb v p s)"
  by (simp add: same_input_def) (simp add: outb_def)

lemma same_input_con: "same_input t s (upd_con f s)"
  by (simp add: same_input_def) (simp add: upd_con_def)

lemma same_input_write_q: "same_input t s (upd_write_q t f s)"
  by (simp add: same_input_def upd_write_q_def upd_tty_def)

lemma same_input_crtc: "same_input t s (set_crtc n a s)"
  unfolding set_crtc_def Let_def
  by (rule same_input_trans [OF same_input_trans [OF same_input_trans]]) (rule same_input_outb)+

lemma same_input_lf: "same_input t s (lf s)"
  by (simp add: lf_def scrup_def set_origin_def same_input_con same_input_trans [OF same_input_con same_input_crtc])

lemma same_input_beep: "same_input t s (sysbeep s)"
  by (simp add: same_input_def sysbeep_def Let_def outb_def)

lemma same_input_text: "same_input t s (con_text k ch s)"
  by (simp add: con_text_def Let_def same_input_refl same_input_con same_input_lf same_input_beep
      same_input_trans [OF same_input_trans [OF same_input_con same_input_lf] same_input_con]
      same_input_trans [OF same_input_con same_input_trans [OF same_input_con same_input_lf]])

text \<open>The loop of \<open>con_write\<close> on text without an escape character.\<close>

lemma con_write_loop:
  assumes "queue_ok (write_q (tty_table s t))" "chars_of (write_q (tty_table s t)) = cs"
    "27 \<notin> set cs" "con_state (con s) = 0"
  shows "\<exists>s'. for_range i (length cs) (\<lambda>_. con_step cw t) s = Some s'
    \<and> queue_ok (write_q (tty_table s' t)) \<and> chars_of (write_q (tty_table s' t)) = []
    \<and> con s' = fold (text_con (CC VERASE (tty_table s t))) cs (con s) \<and> same_input t s s'"
  using assms
proof (induction cs arbitrary: i s)
  case (Cons c cs)
  let ?q = "write_q (tty_table s t)"
  let ?s = "upd_write_q t (\<lambda>q. snd (GETCH q)) s"
  let ?s1 = "con_text (CC VERASE (tty_table s t)) c ?s"
  have ne: "\<not> EMPTY ?q" using Cons.prems(1,2) by (simp add: EMPTY_chars)
  have g: "fst (GETCH ?q) = c" "chars_of (snd (GETCH ?q)) = cs"
    using chars_of_get [OF Cons.prems(1) ne] Cons.prems(2) by simp_all
  have c: "sint c \<noteq> 27"
  proof
    assume "sint c = 27"
    then have "c = 27" by (intro signed_word_eqI) simp
    then show False using Cons.prems(3) by simp
  qed
  have step: "con_step cw t s = Some ?s1"
    using Cons.prems(4) g by (simp add: con_step_def con_char_def Let_def)
  have "\<exists>s'. for_range (Suc i) (length cs) (\<lambda>_. con_step cw t) ?s1 = Some s'
    \<and> queue_ok (write_q (tty_table s' t)) \<and> chars_of (write_q (tty_table s' t)) = []
    \<and> con s' = fold (text_con (CC VERASE (tty_table ?s1 t))) cs (con ?s1) \<and> same_input t ?s1 s'"
    by (rule Cons.IH) (use Cons.prems g c in \<open>simp_all add: con_con_text text_con_state\<close>)
  then show ?case
    using step same_input_trans [OF same_input_trans [OF same_input_write_q same_input_text]] by (fastforce simp: con_con_text)
qed (simp add: same_input_refl)

lemma con_write_text_run:
  assumes "queue_ok (write_q (tty_table s t))" "27 \<notin> set (chars_of (write_q (tty_table s t)))" "con_state (con s) = 0"
  shows "\<exists>s'. con_write t s = Some s' \<and> queue_ok (write_q (tty_table s' t)) \<and> chars_of (write_q (tty_table s' t)) = []
    \<and> con s' = fold (text_con (CC VERASE (tty_table s t))) (chars_of (write_q (tty_table s t))) (con s) \<and> same_input t s s'"
proof -
  obtain s1 where s1: "for_range 0 (length (chars_of (write_q (tty_table s t)))) (\<lambda>_. con_step con_write t) s = Some s1"
    "queue_ok (write_q (tty_table s1 t))" "chars_of (write_q (tty_table s1 t)) = []"
    "con s1 = fold (text_con (CC VERASE (tty_table s t))) (chars_of (write_q (tty_table s t))) (con s)" "same_input t s s1"
    using con_write_loop [OF assms(1) refl assms(2,3), of 0 con_write] by blast
  have "con_write t s = Some (set_cursor s1)" using s1(1) by (subst con_write.simps) simp
  moreover have "same_input t s (set_cursor s1)"
    unfolding set_cursor_def by (rule same_input_trans [OF s1(5) same_input_crtc])
  moreover have "tty_table (set_cursor s1) = tty_table s1" by (simp add: set_cursor_def set_crtc_def Let_def)
  ultimately show ?thesis using s1 by (simp add: set_cursor_def)
qed

text \<open>More than one character at once.\<close>

definition send :: "nat \<Rightarrow> u8 list \<Rightarrow> 'a tty_state_scheme \<Rightarrow> 'a tty_state_scheme" where
  "send t cs s = fold (\<lambda>c. upd_write_q t (PUTCH c)) cs s"

lemma send_queue: "write_q (tty_table (send t cs s) t) = fold PUTCH cs (write_q (tty_table s t))"
  by (induction cs arbitrary: s) (simp_all add: send_def)

lemma send_con: "con (send t cs s) = con s"
  by (induction cs arbitrary: s) (simp_all add: send_def)

lemma same_input_send: "same_input t s (send t cs s)"
proof (induction cs arbitrary: s)
  case (Cons c cs)
  then show ?case using same_input_trans [OF same_input_write_q Cons.IH] by (simp add: send_def)
qed (simp add: send_def same_input_refl)

lemma text_run:
  assumes "\<forall>ch\<in>set cs. 31 < sint ch \<and> sint ch < 127" "unat (con_x c) + length cs \<le> cols c" "cols c < 256"
    "d = fold (text_con k) cs c"
  shows "con_pos d = con_pos c + 2 * of_nat (length cs) \<and> con_x d = con_x c + of_nat (length cs) \<and> con_y d = con_y c
    \<and> (\<forall>i<length cs. vram d (con_pos c + 2 * of_nat i) = push_bit 8 (ucast (con_attr c)) OR ucast (cs ! i))
    \<and> (\<forall>a. (\<forall>i<length cs. a \<noteq> con_pos c + 2 * of_nat i) \<longrightarrow> vram d a = vram c a)"
  using assms
proof (induction cs arbitrary: c)
  case (Cons ch cs)
  let ?c = "put_cell ch c"
  have x: "con_x c < video_num_columns c" using Cons.prems(2) by (simp add: word_less_nat_alt)
  then have t: "text_con k ch c = ?c" using Cons.prems(1) by (simp add: text_con_def Let_def not_le [symmetric])
  have x1: "unat (con_x c + 1) = unat (con_x c) + 1" using Cons.prems(2,3) by (simp add: unat_word_ariths)
  have pc: "con_x ?c = con_x c + 1" "con_pos ?c = con_pos c + 2" "con_y ?c = con_y c" "con_attr ?c = con_attr c"
    "video_num_columns ?c = video_num_columns c" "vram ?c = (vram c)(con_pos c := push_bit 8 (ucast (con_attr c)) OR ucast ch)"
    by (simp_all add: put_cell_def)
  have "con_pos d = con_pos ?c + 2 * of_nat (length cs) \<and> con_x d = con_x ?c + of_nat (length cs) \<and> con_y d = con_y ?c
    \<and> (\<forall>i<length cs. vram d (con_pos ?c + 2 * of_nat i) = push_bit 8 (ucast (con_attr ?c)) OR ucast (cs ! i))
    \<and> (\<forall>a. (\<forall>i<length cs. a \<noteq> con_pos ?c + 2 * of_nat i) \<longrightarrow> vram d a = vram ?c a)"
    by (rule Cons.IH) (use Cons.prems t x1 in \<open>simp_all add: pc\<close>)
  note IH = this [unfolded pc]
  have apart: "con_pos c \<noteq> con_pos c + 2 + 2 * of_nat i" if "i < length cs" for i
  proof
    assume "con_pos c = con_pos c + 2 + 2 * of_nat i"
    then have "(of_nat (2 * i + 2) :: u32) = 0" by (simp add: algebra_simps)
    moreover have "2 * i + 2 < 4294967296" using that Cons.prems(2,3) by simp
    ultimately show False by (metis unat_of_nat_u32 unsigned_0 add_is_0 zero_neq_numeral)
  qed
  have "vram d (con_pos c + 2 * of_nat i) = push_bit 8 (ucast (con_attr c)) OR ucast ((ch # cs) ! i)" if "i < Suc (length cs)" for i
  proof (cases i)
    case 0
    have "vram d (con_pos c) = ((vram c)(con_pos c := push_bit 8 (ucast (con_attr c)) OR ucast ch)) (con_pos c)"
      using IH apart by blast
    then show ?thesis using 0 by simp
  next
    case (Suc j)
    have "con_pos c + 2 * of_nat i = con_pos c + 2 + 2 * of_nat j" using Suc by simp
    then show ?thesis using IH that Suc by (simp only:) simp
  qed
  moreover have "vram d a = vram c a" if "\<And>i. i < Suc (length cs) \<Longrightarrow> a \<noteq> con_pos c + 2 * of_nat i" for a
  proof -
    have "a \<noteq> con_pos c + 2 + 2 * of_nat i" if "i < length cs" for i
      using \<open>\<And>i. i < Suc (length cs) \<Longrightarrow> a \<noteq> con_pos c + 2 * of_nat i\<close> [of "Suc i"] that by (simp add: add.assoc)
    then show ?thesis using IH that [of 0] by simp
  qed
  ultimately show ?case using IH by (simp add: algebra_simps)
qed simp

section \<open>The screen after \<open>con_init\<close>\<close>

lemma columns_byte: "ucast (drop_bit 8 (get_u16 6 boot AND 0xff00)) = (ucast (boot 7) :: u32)"
proof (rule bit_word_eqI)
  fix n assume "n < LENGTH(32)"
  have "drop_bit 8 (get_u16 6 boot AND 0xff00) = take_bit 8 (drop_bit 8 (get_u16 6 boot))"
    by (simp add: take_bit_eq_mask mask_eq_exp_minus_1)
  then have "bit (ucast (drop_bit 8 (get_u16 6 boot AND 0xff00)) :: u32) n
      = bit (ucast (take_bit 8 (drop_bit 8 (get_u16 6 boot))) :: u32) n" by simp
  also have "\<dots> = bit (ucast (boot 7) :: u32) n"
    by (cases "n < 8") (simp_all add: get_u16_def bit_simps, auto dest: bit_imp_le_length)
  finally show "bit (ucast (drop_bit 8 (get_u16 6 boot AND 0xff00)) :: u32) n = bit (ucast (boot 7) :: u32) n" .
qed

lemma con_detect_fields:
  assumes "con_detect boot c = (d, desc)"
  shows "video_num_columns d = video_num_columns c" "video_size_row d = video_size_row c" "video_num_lines d = video_num_lines c"
    "con_npar d = con_npar c" "video_mem_start d \<in> {0xb0000, 0xb8000}"
    "unat (video_mem_start d) + 0x2000 \<le> unat (video_mem_end d)" "unat (video_mem_end d) \<le> 0xbc000"
  using assms by (auto simp: con_detect_def Let_def split: if_splits)

lemma con_init_con:
  "con (con_init boot s) = gotoxy (ucast (boot 0)) (ucast (boot 1)) (con_setup boot (con s))"
  by (simp add: con_init_def outb_def Let_def)

lemma con_init_screen:
  assumes "8 \<le> boot 7" "boot 7 \<le> 163" "boot 0 \<le> boot 7" "boot 1 < 25" "con_npar (con s) < 16"
  shows "screen_ok (con (con_init boot s))"
proof -
  have b: "unat (boot 7) \<le> 163" "8 \<le> unat (boot 7)"
    using assms by (simp_all add: word_le_nat_alt)
  have u: "unat (ucast (boot k) :: u32) = unat (boot k)" for k
    using unsigned_less [of "boot k", where 'a = nat] by (simp add: unsigned_ucast_eq take_bit_nat_eq_self)
  have xy: "ucast (boot 0) \<le> (ucast (boot 7) :: u32)" "(ucast (boot 1) :: u32) < 25"
    using assms(3,4) by (simp_all add: word_le_nat_alt word_less_nat_alt u)
  define c where "c = (con s)\<lparr>video_num_columns := ucast (boot 7), video_size_row := ucast (boot 7) * 2, video_num_lines := 25,
                video_page := ucast (get_u16 4 boot), video_erase_char := 0x0720\<rparr>"
  obtain d desc where d: "con_detect boot c = (d, desc)" by fastforce
  note f = con_detect_fields [OF d]
  define e where "e = con_setup boot (con s)"
  have e: "video_num_columns e = ucast (boot 7)" "video_size_row e = 2 * ucast (boot 7)" "video_num_lines e = 25"
    "con_npar e = con_npar (con s)" "video_mem_start e = video_mem_start d" "video_mem_end e = video_mem_end d"
    "con_origin e = video_mem_start d" "con_scr_end e = video_mem_start d + 50 * ucast (boot 7)" "con_top e = 0" "con_bottom e = 25"
    unfolding e_def con_setup_def Let_def columns_byte using d f by (simp_all add: c_def)
  define g where "g = e\<lparr>con_x := ucast (boot 0), con_y := ucast (boot 1),
      con_pos := con_origin e + ucast (boot 1) * video_size_row e + 2 * ucast (boot 0)\<rparr>"
  have "gotoxy (ucast (boot 0)) (ucast (boot 1)) e = g"
    using xy by (simp add: g_def gotoxy_def e not_less not_le)
  moreover have "screen_ok g"
    unfolding screen_ok_def cell_def g_def
    by (intro conjI; use b f(6,7) xy assms(5) in \<open>simp add: e u\<close>)
  ultimately show ?thesis by (simp only: con_init_con e_def)
qed

section \<open>A screen of 80 columns\<close>

definition demo_boot :: bytes where "demo_boot = (\<lambda>_. 0)(7 := 80, 0 := 3, 1 := 24)"

definition demo_tty :: tty_state where
  "demo_tty = upd_write_q 0 (fold PUTCH [72, 105]) (con_init demo_boot (init_tty_state 0x1000 0))"

lemma tty_con_init [simp]: "tty_table (con_init boot s) = tty_table s"
  by (simp add: con_init_def Let_def)

lemma demo_queue:
  "queue_ok (write_q (tty_table demo_tty 0))" "chars_of (write_q (tty_table demo_tty 0)) = [72, 105]"
proof -
  have "queue_ok (write_q (init_tty 0)) \<and> chars_of (write_q (init_tty 0)) = []" by (simp add: init_tty_def)
  then show "queue_ok (write_q (tty_table demo_tty 0))" "chars_of (write_q (tty_table demo_tty 0)) = [72, 105]"
    using tq.put_all [of "write_q (init_tty 0)" "[72, 105]"] by (simp_all add: demo_tty_def)
qed

lemma demo_con_eq: "con demo_tty = gotoxy 3 24 (con_setup demo_boot init_console)"
  by (simp add: demo_tty_def con_init_con demo_boot_def)

lemma demo_con:
  "screen_ok (con demo_tty)" "con_state (con demo_tty) = 0" "con_x (con demo_tty) = 3" "video_num_columns (con demo_tty) = 80"
  "con_attr (con demo_tty) = 7" "con_pos (con demo_tty) = 0xb8f06"
proof -
  show "screen_ok (con demo_tty)"
    using con_init_screen [of demo_boot "init_tty_state 0x1000 0"]
    by (simp add: demo_tty_def demo_boot_def init_console_def)
  show "con_state (con demo_tty) = 0" "con_x (con demo_tty) = 3" "video_num_columns (con demo_tty) = 80"
    "con_attr (con demo_tty) = 7" "con_pos (con demo_tty) = 0xb8f06"
    unfolding demo_con_eq con_setup_def Let_def columns_byte
    by (simp_all add: gotoxy_def con_detect_def get_u16_def demo_boot_def init_console_def)
qed

section \<open>The properties\<close>

text \<open>\<open>con_init\<close> sets up a screen that lies within the memory of the display it found, with the cursor on it,
  for every width from 8 to 163 columns and every cursor position that \<open>setup.s\<close> can report for it.\<close>

theorem con_init_ok:
  assumes "8 \<le> boot 7" "boot 7 \<le> 163" "boot 0 \<le> boot 7" "boot 1 < 25" "con_npar (con s) < 16"
  shows "screen_ok (con (con_init boot s))"
  by (rule con_init_screen) (fact assms)+

theorem con_init_ok_witness:
  "screen_ok (con (con_init demo_boot (init_tty_state 0x1000 0)))"
  by (rule con_init_ok) (simp_all add: demo_boot_def init_console_def)

text \<open>C17: Whatever is written to the console, in ordinary text and in escape sequences, also when the answer to
  \<open>ESC Z\<close> is echoed from within \<open>con_write\<close>: the cursor stays on the screen (or right behind the last column),
  the screen stays inside the video memory and no store falls outside of it.\<close>

theorem con_write_stays_in_bounds:
  assumes "con_write t s = Some s'" "screen_ok (con s)"
  shows "screen_ok (con s') \<and> video_mem_start (con s') = video_mem_start (con s) \<and> video_mem_end (con s') = video_mem_end (con s)
    \<and> (\<forall>a. a < video_mem_start (con s) \<or> video_mem_end (con s) \<le> a \<longrightarrow> vram (con s') a = vram (con s) a)"
  using con_write_keeps assms by (fastforce simp: keeps_screen_def con_rel_def in_video_def not_le not_less)

theorem con_write_stays_in_bounds_witness:
  "\<exists>s'. con_write 0 demo_tty = Some s' \<and> screen_ok (con s') \<and> vram (con s') 0xb7ffe = vram (con demo_tty) 0xb7ffe"
proof -
  obtain s' where s': "con_write 0 demo_tty = Some s'"
    using con_write_text_run [of demo_tty 0] demo_queue demo_con by auto
  have "video_mem_start (con demo_tty) = 0xb8000"
    unfolding demo_con_eq con_setup_def Let_def
    by (simp add: gotoxy_def con_detect_def get_u16_def demo_boot_def init_console_def)
  then show ?thesis using con_write_stays_in_bounds [OF s' demo_con(1)] s' by simp
qed

text \<open>\<open>con_write\<close> called with ordinary text and control characters (anything but ESC) in the write queue
  returns, and has then emptied the queue: each character was taken once.\<close>

theorem con_write_drains:
  assumes "queue_ok (write_q (tty_table s t))" "27 \<notin> set (chars_of (write_q (tty_table s t)))" "con_state (con s) = 0"
  shows "\<exists>s'. con_write t s = Some s' \<and> chars_of (write_q (tty_table s' t)) = []"
  using con_write_text_run [OF assms] by blast

theorem con_write_drains_witness:
  "\<exists>s'. con_write 0 demo_tty = Some s' \<and> chars_of (write_q (tty_table s' 0)) = []"
  by (rule con_write_drains) (simp_all add: demo_queue demo_con)

text \<open>Printable characters that fit on the line appear at the cursor, one cell each, with the current
  attribute; the cursor moves behind them and no other cell changes.\<close>

theorem con_write_prints:
  assumes "queue_ok (write_q (tty_table s t))" "chars_of (write_q (tty_table s t)) = cs"
    and "\<forall>ch\<in>set cs. 31 < sint ch \<and> sint ch < 127" "con_state (con s) = 0" "screen_ok (con s)"
    and "unat (con_x (con s)) + length cs \<le> unat (video_num_columns (con s))"
  shows "\<exists>s'. con_write t s = Some s' \<and> con_x (con s') = con_x (con s) + of_nat (length cs) \<and> con_y (con s') = con_y (con s)
    \<and> (\<forall>i<length cs. vram (con s') (con_pos (con s) + 2 * of_nat i) = push_bit 8 (ucast (con_attr (con s))) OR ucast (cs ! i))
    \<and> (\<forall>a. (\<forall>i<length cs. a \<noteq> con_pos (con s) + 2 * of_nat i) \<longrightarrow> vram (con s') a = vram (con s) a)"
proof -
  have "27 \<notin> set cs" using assms(3) by force
  then obtain s' where s': "con_write t s = Some s'" "con s' = fold (text_con (CC VERASE (tty_table s t))) cs (con s)"
    using con_write_text_run [OF assms(1) _ assms(4)] assms(2) by auto
  have "unat (video_num_columns (con s)) < 256" using assms(5) by (simp add: screen_ok_def)
  from text_run [OF assms(3,6) this s'(2)] s'(1) show ?thesis by blast
qed

theorem con_write_prints_witness:
  "\<exists>s'. con_write 0 demo_tty = Some s' \<and> vram (con s') 0xb8f06 = 0x748 \<and> vram (con s') 0xb8f08 = 0x769"
proof -
  have "\<forall>ch\<in>set [72, 105 :: u8]. 31 < sint ch \<and> sint ch < 127"
    "unat (con_x (con demo_tty)) + length [72, 105 :: u8] \<le> unat (video_num_columns (con demo_tty))"
    by (simp_all add: demo_con)
  from con_write_prints [OF demo_queue this(1) demo_con(2,1) this(2)]
  obtain s' where s': "con_write 0 demo_tty = Some s'"
    "\<forall>i<length [72, 105 :: u8]. vram (con s') (con_pos (con demo_tty) + 2 * of_nat i)
      = push_bit 8 (ucast (con_attr (con demo_tty))) OR ucast ([72, 105 :: u8] ! i)"
    by blast
  then show ?thesis using s'(2) [rule_format, of 0] s'(2) [rule_format, of 1] by (simp add: demo_con)
qed

end
