(* ===== verification/Traps.thy ===== *)
theory Traps
  imports Floppy Vsprintf Process Console_Screen
begin

text \<open>
  Kernel messages, \<open>panic\<close>, the exceptions of the processor and the gates of the IDT: \<open>kernel/printk.c\<close>,
  \<open>kernel/panic.c\<close>, \<open>kernel/traps.c\<close>, \<open>kernel/math/math_emulate.c\<close> and the gate macros of
  \<open>include/asm/system.h\<close>.

  What the linker decides is a record \<open>kernel_image\<close>: where the buffer of \<open>printk\<close> and the string literals lie
  and at which address each entry point of \<open>asm.s\<close> and \<open>system_call.s\<close> begins.
\<close>

section \<open>What the linker decides\<close>

text \<open>The entry points that the IDT refers to.\<close>

datatype entry_point = Divide_error | Debug | Nmi | Int3 | Overflow | Bounds | Invalid_op | Device_not_available
  | Double_fault | Coprocessor_segment_overrun | Invalid_TSS | Segment_not_present | Stack_segment
  | General_protection | Page_fault | Reserved | Coprocessor_error | Irq13 | Parallel_interrupt
  | Timer_interrupt | System_call | Keyboard_interrupt | Rs1_interrupt | Rs2_interrupt | Hd_interrupt
  | Floppy_interrupt | Ignore_int

record kernel_image =
  printk_buf :: addr
  literal :: "string \<Rightarrow> addr"
  entry_addr :: "entry_point \<Rightarrow> u32"

section \<open>printk\<close>

text \<open>The kernel's data segment as bytes. \<open>store_bytes\<close> makes a sequence of bytes the contents of memory.\<close>

definition kernel_bytes :: "'a mm_state_scheme \<Rightarrow> addr \<Rightarrow> u8" where
  "kernel_bytes s = (\<lambda>a. get_byte a s)"

definition store_bytes :: "(addr \<Rightarrow> u8) \<Rightarrow> 'a mm_state_scheme \<Rightarrow> 'a mm_state_scheme" where
  "store_bytes m s = s\<lparr>phys := (\<lambda>p. if p AND 3 = 0 then ucast (m p) OR push_bit 8 (ucast (m (p + 1)))
     OR push_bit 16 (ucast (m (p + 2))) OR push_bit 24 (ucast (m (p + 3))) else phys s p)\<rparr>"

definition place_string :: "addr \<Rightarrow> string \<Rightarrow> (addr \<Rightarrow> u8) \<Rightarrow> addr \<Rightarrow> u8" where
  "place_string buf out m = (\<lambda>a. if unat (a - buf) < length out then of_char (out ! unat (a - buf)) else m a)"

text \<open>\<open>printk\<close> formats into its buffer, points \<open>fs\<close> to the kernel's data and calls \<open>tty_write(0, buf, i)\<close>;
  \<open>fs\<close> is restored afterwards. The outcome is that of \<open>tty_write\<close>, which can find no room.\<close>

definition printk ::
  "kernel_image \<Rightarrow> string \<Rightarrow> u32 list \<Rightarrow> 'a tty_state_scheme \<Rightarrow> (write_outcome \<times> 'a tty_state_scheme) option" where
  "printk im fmt args s = do {
     (i, out, m) \<leftarrow> vsprintf (\<lambda>k. args ! k) fmt (kernel_bytes s);
     let m = place_string (printk_buf im) out m;
     let user = fs_mem s;
     (w, s) \<leftarrow> tty_write 0 (printk_buf im) i ((store_bytes m s)\<lparr>fs_mem := m\<rparr>);
     Some (w, s\<lparr>fs_mem := user\<rparr>) }"

text \<open>A \<open>printk\<close> within a routine of the kernel: \<open>None\<close> when it has to wait for the terminal.\<close>

definition say :: "kernel_image \<Rightarrow> string \<Rightarrow> u32 list \<Rightarrow> 'a tty_state_scheme \<Rightarrow> 'a tty_state_scheme option" where
  "say im fmt args s = do {
     (w, s) \<leftarrow> printk im fmt args s;
     case w of Write_returned _ \<Rightarrow> Some s | Write_full _ _ _ \<Rightarrow> None | Write_yields _ _ _ \<Rightarrow> None }"

abbreviation (input) TAB :: char where "TAB \<equiv> CHR 0x09"
abbreviation (input) LF :: char where "LF \<equiv> CHR 0x0A"
abbreviation (input) CR :: char where "CR \<equiv> CHR 0x0D"

section \<open>panic\<close>

text \<open>\<open>panic\<close> does not return; its result is the state in which it loops. In the other theories, which do not look
  beyond it, a call of \<open>panic\<close> is \<open>None\<close>.\<close>

definition panic :: "kernel_image \<Rightarrow> string \<Rightarrow> 'a tty_state_scheme \<Rightarrow> 'a tty_state_scheme option" where
  "panic im msg s = do {
     s \<leftarrow> say im (''Kernel panic: %s'' @ [LF, CR]) [literal im msg] s;
     if current s = task s 0 then say im (''In swapper task - not syncing'' @ [LF, CR]) [] s
     else do { (_, s) \<leftarrow> sys_sync s; Some s } }"

section \<open>Exceptions\<close>

text \<open>The long at index \<open>k\<close> of the stack frame at \<open>esp\<close>: \<open>eip\<close>, \<open>cs\<close>, \<open>eflags\<close>, and for a user program \<open>esp\<close>
  and \<open>ss\<close>.\<close>

definition frame_long :: "addr \<Rightarrow> nat \<Rightarrow> 'a mm_state_scheme \<Rightarrow> u32" where
  "frame_long esp k s = phys s (esp + 4 * of_nat k)"

text \<open>\<open>get_seg_byte\<close> for the selectors that can be in \<open>cs\<close>: the kernel's, and those of the task. Another
  selector makes the access fault.\<close>

definition get_seg_byte :: "u32 \<Rightarrow> u32 \<Rightarrow> 'a sched_state_scheme \<Rightarrow> u8 option" where
  "get_seg_byte seg a s =
     (if seg AND 0xffff = 0x08 \<or> seg AND 0xffff = 0x10 then Some (get_byte a s)
      else if seg AND 0xffff = 0x0f \<or> seg AND 0xffff = 0x17 then Some (get_fs_byte a s) else None)"

text \<open>\<open>get_seg_long(0x17, a)\<close>, and the task register, which selects the slot of the current task (\<open>str\<close>).\<close>

definition get_seg_long :: "u32 \<Rightarrow> 'a sched_state_scheme \<Rightarrow> u32" where
  "get_seg_long a s = get_fs_long a s"

definition str :: "'a sched_state_scheme \<Rightarrow> nat option" where
  "str s = first_from (\<lambda>i. task s i = current s) 0 NR_TASKS"

text \<open>The two loops of \<open>die\<close>. The entry code of \<open>asm.s\<close> has loaded \<open>fs\<close> with 0x10.\<close>

definition die_stack :: "kernel_image \<Rightarrow> u32 \<Rightarrow> 'a tty_state_scheme \<Rightarrow> 'a tty_state_scheme option" where
  "die_stack im user_esp s = do {
     s \<leftarrow> say im ''Stack: '' [] s;
     s \<leftarrow> for_range 0 4 (\<lambda>i s. say im ''%p '' [get_seg_long (user_esp + 4 * of_nat i) s] s) s;
     say im [LF] [] s }"

definition die_code :: "kernel_image \<Rightarrow> addr \<Rightarrow> 'a tty_state_scheme \<Rightarrow> 'a tty_state_scheme option" where
  "die_code im esp s = for_range 0 10 (\<lambda>i s. do {
     b \<leftarrow> get_seg_byte (frame_long esp 1 s) (frame_long esp 0 s + of_nat i) s;
     say im ''%02x '' [ucast b] s }) s"

definition die :: "kernel_image \<Rightarrow> string \<Rightarrow> addr \<Rightarrow> u32 \<Rightarrow> 'a tty_state_scheme \<Rightarrow> 'a tty_state_scheme option" where
  "die im msg esp nr s = do {
     s \<leftarrow> say im (''%s: %04x'' @ [LF, CR]) [literal im msg, nr AND 0xffff] s;
     s \<leftarrow> say im (''EIP:'' @ [TAB] @ ''%04x:%p'' @ [LF] @ ''EFLAGS:'' @ [TAB] @ ''%p'' @ [LF] @ ''ESP:'' @ [TAB] @ ''%04x:%p'' @ [LF])
            [frame_long esp 1 s, frame_long esp 0 s, frame_long esp 2 s, frame_long esp 4 s, frame_long esp 3 s] s;
     s \<leftarrow> say im (''fs: %04x'' @ [LF]) [0x10] s;
     s \<leftarrow> say im (''base: %p, limit: %p'' @ [LF]) [get_base (t_ldt (cur s) 1), get_limit (t_ldt (cur s) 2)] s;
     s \<leftarrow> (if frame_long esp 4 s = 0x17 then die_stack im (frame_long esp 3 s) s else Some s);
     i \<leftarrow> str s;
     s \<leftarrow> say im (''Pid: %d, process nr: %d'' @ [LF, CR]) [word_of_int (t_pid (cur s)), 0xffff AND of_nat i] s;
     s \<leftarrow> die_code im esp s;
     s \<leftarrow> say im [LF, CR] [] s;
     do_exit 11 s }"

type_synonym 's trap_handler = "kernel_image \<Rightarrow> addr \<Rightarrow> u32 \<Rightarrow> 's \<Rightarrow> 's option"

definition do_double_fault :: "'a tty_state_scheme trap_handler" where
  "do_double_fault im esp error_code = die im ''double fault'' esp error_code"
definition do_general_protection :: "'a tty_state_scheme trap_handler" where
  "do_general_protection im esp error_code = die im ''general protection'' esp error_code"
definition do_divide_error :: "'a tty_state_scheme trap_handler" where
  "do_divide_error im esp error_code = die im ''divide error'' esp error_code"
definition do_nmi :: "'a tty_state_scheme trap_handler" where
  "do_nmi im esp error_code = die im ''nmi'' esp error_code"
definition do_debug :: "'a tty_state_scheme trap_handler" where
  "do_debug im esp error_code = die im ''debug'' esp error_code"
definition do_overflow :: "'a tty_state_scheme trap_handler" where
  "do_overflow im esp error_code = die im ''overflow'' esp error_code"
definition do_bounds :: "'a tty_state_scheme trap_handler" where
  "do_bounds im esp error_code = die im ''bounds'' esp error_code"
definition do_invalid_op :: "'a tty_state_scheme trap_handler" where
  "do_invalid_op im esp error_code = die im ''invalid operand'' esp error_code"
definition do_device_not_available :: "'a tty_state_scheme trap_handler" where
  "do_device_not_available im esp error_code = die im ''device not available'' esp error_code"
definition do_coprocessor_segment_overrun :: "'a tty_state_scheme trap_handler" where
  "do_coprocessor_segment_overrun im esp error_code = die im ''coprocessor segment overrun'' esp error_code"
definition do_invalid_TSS :: "'a tty_state_scheme trap_handler" where
  "do_invalid_TSS im esp error_code = die im ''invalid TSS'' esp error_code"
definition do_segment_not_present :: "'a tty_state_scheme trap_handler" where
  "do_segment_not_present im esp error_code = die im ''segment not present'' esp error_code"
definition do_stack_segment :: "'a tty_state_scheme trap_handler" where
  "do_stack_segment im esp error_code = die im ''stack segment'' esp error_code"
definition do_coprocessor_error :: "'a tty_state_scheme trap_handler" where
  "do_coprocessor_error im esp error_code s =
     (if last_task_used_math s \<noteq> current s then Some s else die im ''coprocessor error'' esp error_code s)"
definition do_reserved :: "'a tty_state_scheme trap_handler" where
  "do_reserved im esp error_code = die im ''reserved (15,17-47) error'' esp error_code"

text \<open>\<open>do_int3\<close> prints the registers, which \<open>asm.s\<close> has pushed, and returns to the program. \<open>_TSS\<close> of the task's
  slot is what the task register holds.\<close>

definition do_int3 :: "kernel_image \<Rightarrow> addr \<Rightarrow> regs \<Rightarrow> u32 \<Rightarrow> 'a tty_state_scheme \<Rightarrow> 'a tty_state_scheme option" where
  "do_int3 im esp r eax s = do {
     i \<leftarrow> str s;
     let tr = push_bit 4 (of_nat i) + push_bit 3 (of_nat FIRST_TSS_ENTRY);
     let four = (\<lambda>a b c d. a @ [TAB, TAB] @ b @ [TAB, TAB] @ c @ [TAB, TAB] @ d @ [LF, CR]
                   @ ''%8x'' @ [TAB] @ ''%8x'' @ [TAB] @ ''%8x'' @ [TAB] @ ''%8x'' @ [LF, CR]);
     s \<leftarrow> say im (four ''eax'' ''ebx'' ''ecx'' ''edx'') [eax, r_ebx r, r_ecx r, r_edx r] s;
     s \<leftarrow> say im (four ''esi'' ''edi'' ''ebp'' ''esp'') [r_esi r, r_edi r, r_ebp r, esp] s;
     s \<leftarrow> say im ([LF, CR] @ ''ds'' @ [TAB] @ ''es'' @ [TAB] @ ''fs'' @ [TAB] @ ''tr'' @ [LF, CR]
                  @ ''%4x'' @ [TAB] @ ''%4x'' @ [TAB] @ ''%4x'' @ [TAB] @ ''%4x'' @ [LF, CR]) [r_ds r, r_es r, r_fs r, tr] s;
     say im (''EIP: %8x   CS: %4x  EFLAGS: %8x'' @ [LF, CR]) [frame_long esp 0 s, frame_long esp 1 s, frame_long esp 2 s] s }"

section \<open>The coprocessor\<close>

abbreviation (input) SIGFPE :: nat where "SIGFPE \<equiv> 8"

text \<open>\<open>math_emulate\<close> advances \<open>eip\<close> in the stack frame by the two bytes it has looked at; the result is the new \<open>eip\<close>.
  A caller in the kernel ends in \<open>panic\<close>.\<close>

definition math_emulate :: "kernel_image \<Rightarrow> u32 \<Rightarrow> u16 \<Rightarrow> 'a tty_state_scheme \<Rightarrow> (u32 \<times> 'a tty_state_scheme) option" where
  "math_emulate im eip cs s =
     (if cs \<noteq> 0x000F then None
      else do {
        let fst_byte = get_fs_byte eip s;
        let snd_byte = get_fs_byte (eip + 1) s;
        let eip = eip + 2;
        s \<leftarrow> say im (''%04x:%08x %02x %02x'' @ [LF, CR]) [ucast cs, eip - 2, ucast fst_byte, ucast snd_byte] s;
        Some (eip, upd_task (current s) (\<lambda>t. t\<lparr>t_signal := t_signal t OR sigbit SIGFPE\<rparr>) s) })"

definition math_error :: "'a sched_state_scheme \<Rightarrow> 'a sched_state_scheme" where
  "math_error s =
     (if last_task_used_math s \<noteq> 0
      then upd_task (last_task_used_math s) (\<lambda>t. t\<lparr>t_signal := t_signal t OR sigbit SIGFPE\<rparr>) s else s)"

section \<open>Gates\<close>

record kernel_state = fd_state +
  idt :: "nat \<Rightarrow> desc_struct"
  who_msg :: bytes
  drive_info :: bytes
  memory_end :: int
  buffer_memory_end :: int
  main_memory_start :: int

text \<open>\<open>_set_gate\<close>: \<open>eax\<close> is the code selector and the low half of the address, \<open>edx\<close> its high half and the type.\<close>

definition gate :: "u32 \<Rightarrow> u32 \<Rightarrow> u32 \<Rightarrow> desc_struct" where
  "gate type dpl a = \<lparr>desc_a = 0x00080000 OR (a AND 0xffff),
     desc_b = (a AND 0xffff0000) OR (0x8000 + push_bit 13 dpl + push_bit 8 type)\<rparr>"

definition set_gate :: "nat \<Rightarrow> desc_struct \<Rightarrow> 'a kernel_state_scheme \<Rightarrow> 'a kernel_state_scheme" where
  "set_gate n d s = s\<lparr>idt := (idt s)(n := d)\<rparr>"

definition set_intr_gate :: "nat \<Rightarrow> u32 \<Rightarrow> 'a kernel_state_scheme \<Rightarrow> 'a kernel_state_scheme" where
  "set_intr_gate n a = set_gate n (gate 14 0 a)"

definition set_trap_gate :: "nat \<Rightarrow> u32 \<Rightarrow> 'a kernel_state_scheme \<Rightarrow> 'a kernel_state_scheme" where
  "set_trap_gate n a = set_gate n (gate 15 0 a)"

definition set_system_gate :: "nat \<Rightarrow> u32 \<Rightarrow> 'a kernel_state_scheme \<Rightarrow> 'a kernel_state_scheme" where
  "set_system_gate n a = set_gate n (gate 15 3 a)"

definition trap_init :: "kernel_image \<Rightarrow> 'a kernel_state_scheme \<Rightarrow> 'a kernel_state_scheme" where
  "trap_init im s =
     (let at = entry_addr im;
          s = set_trap_gate 0 (at Divide_error) s;
          s = set_trap_gate 1 (at Debug) s;
          s = set_trap_gate 2 (at Nmi) s;
          s = set_system_gate 3 (at Int3) s;
          s = set_system_gate 4 (at Overflow) s;
          s = set_system_gate 5 (at Bounds) s;
          s = set_trap_gate 6 (at Invalid_op) s;
          s = set_trap_gate 7 (at Device_not_available) s;
          s = set_trap_gate 8 (at Double_fault) s;
          s = set_trap_gate 9 (at Coprocessor_segment_overrun) s;
          s = set_trap_gate 10 (at Invalid_TSS) s;
          s = set_trap_gate 11 (at Segment_not_present) s;
          s = set_trap_gate 12 (at Stack_segment) s;
          s = set_trap_gate 13 (at General_protection) s;
          s = set_trap_gate 14 (at Page_fault) s;
          s = set_trap_gate 15 (at Reserved) s;
          s = set_trap_gate 16 (at Coprocessor_error) s;
          s = fold (\<lambda>i. set_trap_gate i (at Reserved)) [17..<48] s;
          s = set_trap_gate 45 (at Irq13) s;
          s = outb (inb 0x21 s AND 0xfb) 0x21 s;
          s = outb (inb 0xA1 s AND 0xdf) 0xA1 s
      in set_trap_gate 39 (at Parallel_interrupt) s)"

text \<open>The static initial values of all variables, on a machine whose devices answer with zeros.\<close>

definition init_kernel :: "addr \<Rightarrow> addr \<Rightarrow> kernel_state" where
  "init_kernel a b = fd_state.extend (init_fd (init_hd (init_tty_state a b) (\<lambda>_ _. 0) (\<lambda>_ _. 0)))
     (kernel_state.fields (\<lambda>_. \<lparr>desc_a = 0, desc_b = 0\<rparr>) (\<lambda>_. 0) (\<lambda>_. 0) 0 0 0)"

lemmas init_kernel_simps = init_kernel_def init_fd_simps kernel_state.defs init_fs_def

end
