(* ===== verification/Who.thy ===== *)
theory Who
  imports Traps
begin

text \<open>
  \<open>iam\<close> and \<open>whoami\<close> of \<open>kernel/who.c\<close>. The message buffer \<open>msg\<close> is passed explicitly. Both print a line first, and
  are \<open>None\<close> when that has to wait for the terminal.
\<close>

text \<open>\<open>sys_iam\<close> copies up to \<open>maxSize\<close> = 24 bytes; \<open>read_name\<close> is the loop, which stops at the terminating
  zero and otherwise at 24. \<open>strcpy\<close> copies the name with its zero.\<close>

primrec read_name :: "u32 \<Rightarrow> nat \<Rightarrow> nat \<Rightarrow> 'a sched_state_scheme \<Rightarrow> nat" where
  "read_name name i 0 s = i"
| "read_name name i (Suc n) s =
     (if get_fs_byte (name + of_nat i) s = 0 then i else read_name name (i + 1) n s)"

definition sys_iam ::
  "kernel_image \<Rightarrow> u32 \<Rightarrow> bytes \<Rightarrow> 'a tty_state_scheme \<Rightarrow> (int \<times> bytes \<times> 'a tty_state_scheme) option" where
  "sys_iam im name msg s = do {
     s \<leftarrow> say im (''hello, i'm sys_iam'' @ [LF]) [] s;
     let i = read_name name 0 24 s in
     Some (if i = 24 then (- EINVAL, msg, s)
           else (int i, (\<lambda>k. if k \<le> i then get_fs_byte (name + of_nat k) s else msg k), s)) }"

text \<open>\<open>while (msg[msg_size] != 0) msg_size++;\<close> within the 24 bytes, the last of which is always 0.\<close>

primrec msg_length :: "bytes \<Rightarrow> nat \<Rightarrow> nat \<Rightarrow> nat" where
  "msg_length msg i 0 = i"
| "msg_length msg i (Suc n) = (if msg i = 0 then i else msg_length msg (i + 1) n)"

primrec put_name ::
  "bytes \<Rightarrow> u32 \<Rightarrow> nat \<Rightarrow> nat \<Rightarrow> 'a sched_state_scheme \<Rightarrow> nat \<times> 'a sched_state_scheme" where
  "put_name msg name i 0 s = (i, s)"
| "put_name msg name i (Suc n) s =
     (let s = put_fs_byte (msg i) (name + of_nat i) s in
      if msg i = 0 then (i, s) else put_name msg name (i + 1) n s)"

definition sys_whoami ::
  "kernel_image \<Rightarrow> u32 \<Rightarrow> u32 \<Rightarrow> bytes \<Rightarrow> 'a tty_state_scheme \<Rightarrow> (int \<times> 'a tty_state_scheme) option" where
  "sys_whoami im name sz msg s = do {
     s \<leftarrow> say im (''hello, i'm sys_whoami'' @ [LF]) [] s;
     Some (if unat sz < msg_length msg 0 23 then (- EINVAL, s)
           else let (i, s) = put_name msg name 0 (unat sz) s in (int i, s)) }"

end
