(* ===== verification/Mktime.thy ===== *)
theory Mktime
  imports Kernel_Prelude "HOL-Library.Signed_Division"
begin

text \<open>
  \<open>kernel_mktime\<close> (\<open>kernel/mktime.c\<close>), compared with the Gregorian calendar counted year by year and month
  by month. \<open>tm_year\<close> counts from 1900 and \<open>tm_mon\<close> from 0, as in \<open>struct tm\<close>.
\<close>

record tm =
  tm_sec :: int
  tm_min :: int
  tm_hour :: int
  tm_mday :: int
  tm_mon :: int
  tm_year :: int
  tm_wday :: int
  tm_yday :: int
  tm_isdst :: int

definition MINUTE :: int where "MINUTE = 60"
definition HOUR :: int where "HOUR = 60 * MINUTE"
definition DAY :: int where "DAY = 24 * HOUR"
definition YEAR :: int where "YEAR = 365 * DAY"

definition month_offsets :: "int list" where
  "month_offsets = map (\<lambda>d. DAY * d)
     [0, 31, 31 + 29, 31 + 29 + 31, 31 + 29 + 31 + 30, 31 + 29 + 31 + 30 + 31, 31 + 29 + 31 + 30 + 31 + 30,
      31 + 29 + 31 + 30 + 31 + 30 + 31, 31 + 29 + 31 + 30 + 31 + 30 + 31 + 31,
      31 + 29 + 31 + 30 + 31 + 30 + 31 + 31 + 30, 31 + 29 + 31 + 30 + 31 + 30 + 31 + 31 + 30 + 31,
      31 + 29 + 31 + 30 + 31 + 30 + 31 + 31 + 30 + 31 + 30]"

definition kernel_mktime :: "tm \<Rightarrow> int" where
  "kernel_mktime tm =
     (let year = i32 (tm_year tm - 70);
          res = i32 (YEAR * year + DAY * (i32 (year + 1) sdiv 4));
          res = i32 (res + month_offsets ! nat (tm_mon tm));
          res = (if tm_mon tm > 1 \<and> i32 (year + 2) smod 4 \<noteq> 0 then i32 (res - DAY) else res);
          res = i32 (res + DAY * (tm_mday tm - 1));
          res = i32 (res + HOUR * tm_hour tm);
          res = i32 (res + MINUTE * tm_min tm)
      in i32 (res + tm_sec tm))"

section \<open>The calendar\<close>

definition leap :: "nat \<Rightarrow> bool" where
  "leap y \<longleftrightarrow> y mod 4 = 0 \<and> (y mod 100 \<noteq> 0 \<or> y mod 400 = 0)"

definition month_days :: "nat \<Rightarrow> nat \<Rightarrow> nat" where
  "month_days y m = [31, if leap y then 29 else 28, 31, 30, 31, 30, 31, 31, 30, 31, 30, 31] ! m"

text \<open>Days from 1 January 1970 to the first day of year \<open>1970 + n\<close>, and of a month in a year.\<close>

primrec days_to_year :: "nat \<Rightarrow> nat" where
  "days_to_year 0 = 0"
| "days_to_year (Suc n) = days_to_year n + (if leap (1970 + n) then 366 else 365)"

primrec days_to_month :: "nat \<Rightarrow> nat \<Rightarrow> nat" where
  "days_to_month y 0 = 0"
| "days_to_month y (Suc m) = days_to_month y m + month_days y m"

definition valid_tm :: "tm \<Rightarrow> bool" where
  "valid_tm tm \<longleftrightarrow> 70 \<le> tm_year tm \<and> tm_year tm < 138 \<and> 0 \<le> tm_mon tm \<and> tm_mon tm < 12
     \<and> 1 \<le> tm_mday tm \<and> tm_mday tm \<le> int (month_days (1900 + nat (tm_year tm)) (nat (tm_mon tm)))
     \<and> 0 \<le> tm_hour tm \<and> tm_hour tm < 24 \<and> 0 \<le> tm_min tm \<and> tm_min tm < 60 \<and> 0 \<le> tm_sec tm \<and> tm_sec tm < 60"

definition seconds_since_1970 :: "tm \<Rightarrow> int" where
  "seconds_since_1970 tm =
     (let y = 1900 + nat (tm_year tm)
      in 86400 * (int (days_to_year (nat (tm_year tm) - 70)) + int (days_to_month y (nat (tm_mon tm))) + (tm_mday tm - 1))
         + 3600 * tm_hour tm + 60 * tm_min tm + tm_sec tm)"

lemma leap_range: "1970 \<le> y \<Longrightarrow> y < 2100 \<Longrightarrow> leap y \<longleftrightarrow> y mod 4 = 0"
proof -
  assume r: "1970 \<le> y" "y < 2100"
  have *: "y = 2000" if "y mod 100 = 0"
  proof -
    define k where "k = y div 100"
    have "y = 100 * k" using that div_mult_mod_eq [of y 100] by (simp add: k_def)
    then show ?thesis using r by presburger
  qed
  show ?thesis
  proof (cases "y mod 100 = 0")
    case True
    then have "y = 2000" by (rule *)
    then show ?thesis by (simp add: leap_def)
  qed (simp add: leap_def)
qed

lemma days_to_year_eq: "n \<le> 129 \<Longrightarrow> days_to_year n = 365 * n + (n + 1) div 4"
proof (induction n)
  case (Suc n)
  have "leap (1970 + n) \<longleftrightarrow> (1970 + n) mod 4 = 0" by (rule leap_range) (use Suc.prems in simp_all)
  then have "leap (1970 + n) \<longleftrightarrow> (n + 2) mod 4 = 0" by presburger
  moreover have "(Suc n + 1) div 4 = (n + 1) div 4 + (if (n + 2) mod 4 = 0 then 1 else 0)" by presburger
  ultimately show ?case using Suc by simp
qed simp

lemma days_to_month_eq:
  "m < 12 \<Longrightarrow> DAY * int (days_to_month y m) = month_offsets ! m - (if 1 < m \<and> \<not> leap y then DAY else 0)"
proof -
  assume "m < 12"
  then have "m \<in> {0, 1, 2, 3, 4, 5, 6, 7, 8, 9, 10, 11}" by (simp; presburger)
  then show ?thesis
    by (elim insertE emptyE)
      (simp_all add: month_offsets_def month_days_def DAY_def HOUR_def MINUTE_def eval_nat_numeral)
qed

lemma month_offset_bounds: "m < 12 \<Longrightarrow> 0 \<le> month_offsets ! m \<and> month_offsets ! m \<le> 335 * DAY"
proof -
  assume "m < 12"
  then have "m \<in> {0, 1, 2, 3, 4, 5, 6, 7, 8, 9, 10, 11}" by (simp; presburger)
  then show ?thesis
    by (elim insertE emptyE) (simp_all add: month_offsets_def DAY_def HOUR_def MINUTE_def eval_nat_numeral)
qed

lemma sdiv_nonneg: "0 \<le> a \<Longrightarrow> 0 < b \<Longrightarrow> a sdiv b = a div b" for a b :: int
  by (cases "a = 0") (auto simp: signed_divide_int_def)

lemma smod_nonneg: "0 \<le> a \<Longrightarrow> 0 < b \<Longrightarrow> a smod b = a mod b" for a b :: int
  by (cases "a = 0") (auto simp: signed_modulo_int_def)

lemma mktime_seconds:
  assumes "valid_tm tm"
  shows "kernel_mktime tm = seconds_since_1970 tm"
proof -
  define n where "n = nat (tm_year tm) - 70"
  define m where "m = nat (tm_mon tm)"
  have v: "tm_year tm = int n + 70" "n < 68" "tm_mon tm = int m" "m < 12" "1900 + nat (tm_year tm) = 1970 + n"
    using assms by (auto simp: valid_tm_def n_def m_def)
  have d: "1 \<le> tm_mday tm" "tm_mday tm \<le> 31"
  proof -
    have "m \<in> {0, 1, 2, 3, 4, 5, 6, 7, 8, 9, 10, 11}" using v(4) by (simp; presburger)
    then have "month_days (1970 + n) m \<le> 31"
      by (elim insertE emptyE) (simp_all add: month_days_def eval_nat_numeral)
    moreover have "1 \<le> tm_mday tm" "tm_mday tm \<le> int (month_days (1970 + n) m)"
      using assms unfolding valid_tm_def v(5) m_def by blast+
    ultimately show "1 \<le> tm_mday tm" "tm_mday tm \<le> 31" by simp_all
  qed
  have t: "0 \<le> tm_hour tm" "tm_hour tm \<le> 23" "0 \<le> tm_min tm" "tm_min tm \<le> 59" "0 \<le> tm_sec tm" "tm_sec tm \<le> 59"
    using assms by (auto simp: valid_tm_def)
  define q where "q = (int n + 1) div 4"
  have q: "0 \<le> q" "q \<le> 17" using v(2) by (auto simp: q_def)
  have yr: "int (days_to_year n) = 365 * int n + q"
    using days_to_year_eq [of n] v(2) by (simp add: q_def zdiv_int)
  have "leap (1970 + n) \<longleftrightarrow> (1970 + n) mod 4 = 0" by (rule leap_range) (use v(2) in simp_all)
  then have lp: "leap (1970 + n) \<longleftrightarrow> (int n + 2) mod 4 = 0" by presburger
  define M where "M = month_offsets ! m"
  have M: "0 \<le> M" "M \<le> 335 * 86400"
    using month_offset_bounds [OF v(4)] by (simp_all add: M_def DAY_def HOUR_def MINUTE_def)
  have Mlow: "m > 1 \<Longrightarrow> 86400 \<le> M"
  proof -
    assume "m > 1"
    then have "m \<in> {2, 3, 4, 5, 6, 7, 8, 9, 10, 11}" using v(4) by (simp; presburger)
    then show ?thesis unfolding M_def
      by (elim insertE emptyE) (simp_all add: month_offsets_def DAY_def HOUR_def MINUTE_def eval_nat_numeral)
  qed
  have mo: "86400 * int (days_to_month (1970 + n) m) = M - (if 1 < m \<and> (int n + 2) mod 4 \<noteq> 0 then 86400 else 0)"
    using days_to_month_eq [OF v(4), of "1970 + n"] lp by (simp add: M_def DAY_def HOUR_def MINUTE_def)
  have Y: "i32 (int n + 1) sdiv 4 = q" "i32 (int n + 2) smod 4 = (int n + 2) mod 4"
    using v(2) by (simp_all add: sdiv_nonneg smod_nonneg q_def)
  have k: "kernel_mktime tm = 31536000 * int n + 86400 * q + M
      - (if 1 < m \<and> (int n + 2) mod 4 \<noteq> 0 then 86400 else 0)
      + 86400 * (tm_mday tm - 1) + 3600 * tm_hour tm + 60 * tm_min tm + tm_sec tm"
  proof -
    have i: "i32 (tm_year tm - 70) = int n" using v by simp
    show ?thesis
      unfolding kernel_mktime_def Let_def i Y
      using v(2-4) q M Mlow d t
      by (simp add: YEAR_def DAY_def HOUR_def MINUTE_def m_def [symmetric] M_def [symmetric] v(3))
  qed
  have "seconds_since_1970 tm = 86400 * int (days_to_year n) + 86400 * int (days_to_month (1970 + n) m)
      + 86400 * (tm_mday tm - 1) + 3600 * tm_hour tm + 60 * tm_min tm + tm_sec tm"
    using v by (simp add: seconds_since_1970_def Let_def n_def [symmetric] m_def [symmetric] algebra_simps)
  then show ?thesis unfolding k yr mo by simp
qed

text \<open>C10: for every valid date from 1970 to the end of 2037, \<open>kernel_mktime\<close> is the number of seconds since
  1 January 1970, with Gregorian leap years, and no intermediate result leaves the range of \<open>long\<close>.\<close>

theorem kernel_mktime_correct:
  assumes "valid_tm tm"
  shows "kernel_mktime tm = seconds_since_1970 tm"
  by (rule mktime_seconds [OF assms])

theorem kernel_mktime_correct_witness:
  "kernel_mktime \<lparr>tm_sec = 59, tm_min = 59, tm_hour = 23, tm_mday = 29, tm_mon = 1, tm_year = 100, tm_wday = 2, tm_yday = 59, tm_isdst = 0\<rparr>
    = seconds_since_1970 \<lparr>tm_sec = 59, tm_min = 59, tm_hour = 23, tm_mday = 29, tm_mon = 1, tm_year = 100, tm_wday = 2, tm_yday = 59, tm_isdst = 0\<rparr>"
  by (rule kernel_mktime_correct) (simp add: valid_tm_def month_days_def leap_def)

end
