(* ===== verification/Line_Editor.thy ===== *)
theory Line_Editor
  imports Console_Screen
begin

text \<open>
  The line discipline against a reference: \<open>line_editor\<close> is a line editor on lists of characters, and
  \<open>copy_to_cooked\<close> does on the ring buffers of a terminal what it does on lists, on the serial lines and on
  the console. What the discipline needs of the output driver is the locale \<open>line_driver\<close>.
\<close>

section \<open>The reference editor\<close>

record editor =
  ed_text :: "int list"
  ed_lines :: u32
  ed_stopped :: bool
  ed_sigs :: "u32 list"

definition ends_line :: "tty_struct \<Rightarrow> int \<Rightarrow> bool" where
  "ends_line x c \<longleftrightarrow> c = 10 \<or> c = CC VEOF x"

definition edit :: "tty_struct \<Rightarrow> int \<Rightarrow> editor \<Rightarrow> editor" where
  "edit x c e =
     (if L_FLAG b_ICANON x \<and> c = CC VKILL x then
        e\<lparr>ed_text := rev (dropWhile (\<lambda>d. \<not> ends_line x d) (rev (ed_text e)))\<rparr>
      else if L_FLAG b_ICANON x \<and> c = CC VERASE x then
        (if ed_text e = [] \<or> ends_line x (last (ed_text e)) then e else e\<lparr>ed_text := butlast (ed_text e)\<rparr>)
      else if L_FLAG b_ICANON x \<and> c = CC VSTOP x then e\<lparr>ed_stopped := True\<rparr>
      else if L_FLAG b_ICANON x \<and> c = CC VSTART x then e\<lparr>ed_stopped := False\<rparr>
      else if L_FLAG b_ISIG x \<and> c = CC VINTR x then e\<lparr>ed_sigs := ed_sigs e @ [sigbit SIGINT]\<rparr>
      else if L_FLAG b_ISIG x \<and> c = CC VQUIT x then e\<lparr>ed_sigs := ed_sigs e @ [sigbit SIGQUIT]\<rparr>
      else e\<lparr>ed_text := ed_text e @ [c], ed_lines := (if ends_line x c then ed_lines e + 1 else ed_lines e)\<rparr>)"

primrec line_editor :: "(int \<Rightarrow> u8) \<Rightarrow> tty_struct \<Rightarrow> int list \<Rightarrow> editor \<Rightarrow> int list \<times> editor" where
  "line_editor below x [] e = ([], e)"
| "line_editor below x (c # cs) e =
     (if length (ed_text e) = 1023 then (c # cs, e)
      else case translate below x c of
        None \<Rightarrow> line_editor below x cs e
      | Some d \<Rightarrow> line_editor below x cs (edit x d e))"

text \<open>What the echo of a character sends to the driver.\<close>

definition echo_list :: "tty_struct \<Rightarrow> int \<Rightarrow> u8 list" where
  "echo_list x c = (if c = 10 then [10, 13]
     else if c < 32 then (if L_FLAG b_ECHOCTL x then [94, word_of_int (c + 64)] else [])
     else [word_of_int c])"

section \<open>The driver\<close>

definition same_output :: "nat \<Rightarrow> 'a tty_state_scheme \<Rightarrow> 'a tty_state_scheme \<Rightarrow> bool" where
  "same_output t s s' \<longleftrightarrow> write_q (tty_table s' t) = write_q (tty_table s t) \<and> con s' = con s"

lemma flags_same: "tty_termios x = tty_termios y \<Longrightarrow> L_FLAG n x = L_FLAG n y \<and> I_FLAG n x = I_FLAG n y \<and> CC n x = CC n y"
  by (simp add: L_FLAG_def I_FLAG_def CC_def)

locale line_driver =
  fixes cw :: "'a tty_state_scheme con_fn" and t :: nat
    and ready :: "'a tty_state_scheme \<Rightarrow> bool" and sendable :: "u8 \<Rightarrow> bool"
  assumes sends: "ready s \<Longrightarrow> \<forall>c\<in>set cs. sendable c \<Longrightarrow> length cs \<le> 2
      \<Longrightarrow> \<exists>s'. tty_out cw t (send t cs s) = Some s' \<and> ready s' \<and> same_input t s s'"
    and ready_output: "ready s \<Longrightarrow> same_output t s s' \<Longrightarrow> ready s'"
    and del_sendable: "sendable 127"
begin

lemma echo_erase_run: "ready s \<Longrightarrow> \<exists>s'. echo_erase cw t c s = Some s' \<and> ready s' \<and> same_input t s s'"
  using sends [of s "[127]"] sends [of s "[127, 127]"] del_sendable
  by (auto simp: echo_erase_def send_def same_input_refl Let_def)

lemma echo_char_run:
  assumes "ready s" "L_FLAG b_ECHO (tty_table s t) \<Longrightarrow> \<forall>d\<in>set (echo_list (tty_table s t) c). sendable d"
  shows "\<exists>s'. echo_char cw t c s = Some s' \<and> ready s' \<and> same_input t s s'"
proof (cases "L_FLAG b_ECHO (tty_table s t)")
  case True
  have "length (echo_list (tty_table s t) c) \<le> 2" by (simp add: echo_list_def)
  then obtain s' where "tty_out cw t (send t (echo_list (tty_table s t) c) s) = Some s'" "ready s'" "same_input t s s'"
    using sends [OF assms(1) assms(2)] True by blast
  moreover have "echo_char cw t c s = tty_out cw t (send t (echo_list (tty_table s t) c) s)"
    using True by (simp add: echo_char_def echo_list_def send_def)
  ultimately show ?thesis by simp
qed (simp add: echo_char_def assms(1) same_input_refl)

end

section \<open>The terminal and the editor\<close>

text \<open>\<open>reads s0 t cs e s\<close>: from the state \<open>s0\<close> the discipline has come to \<open>s\<close>, where the input \<open>cs\<close> is left and the
  editor is \<open>e\<close>.\<close>

definition edits :: "'a tty_state_scheme \<Rightarrow> nat \<Rightarrow> int list \<Rightarrow> editor \<Rightarrow> 'a tty_state_scheme \<Rightarrow> bool" where
  "edits s0 t cs e s \<longleftrightarrow> queue_ok (read_q (tty_table s t)) \<and> queue_ok (secondary (tty_table s t))
     \<and> map sint (chars_of (read_q (tty_table s t))) = cs \<and> map sint (chars_of (secondary (tty_table s t))) = ed_text e
     \<and> q_data (secondary (tty_table s t)) = ed_lines e \<and> tty_stopped (tty_table s t) = ed_stopped e
     \<and> tty_termios (tty_table s t) = tty_termios (tty_table s0 t) \<and> ctype_below s = ctype_below s0
     \<and> task s = task s0 \<and> tty_pgrp s = tty_pgrp s0 \<and> tasks s = tasks (fold (tty_intr t) (ed_sigs e) s0)"

lemma edits_same_input: "edits s0 t cs e s \<Longrightarrow> same_input t s s' \<Longrightarrow> edits s0 t cs e s'"
  by (simp add: edits_def same_input_def)

lemma secondary_upd [simp]:
  "tty_table (upd_secondary t f s) t = (tty_table s t)\<lparr>secondary := f (secondary (tty_table s t))\<rparr>"
  "ctype_below (upd_secondary t f s) = ctype_below s" "task (upd_secondary t f s) = task s"
  "tasks (upd_secondary t f s) = tasks s" "tty_pgrp (upd_secondary t f s) = tty_pgrp s"
  by (simp_all add: upd_secondary_def upd_tty_def)

lemma same_output_upd:
  "same_output t s (upd_secondary t f s)" "same_output t s (upd_read_q t g s)" "same_output t s (upd_tty t (tty_stopped_update h) s)"
  by (simp_all add: same_output_def) (simp_all add: upd_read_q_def upd_tty_def)

lemma last_char:
  assumes "queue_ok q" "\<not> EMPTY q"
  shows "sint (LAST_OF q) = last (map sint (chars_of q))" "map sint (chars_of (DEC_HEAD q)) = butlast (map sint (chars_of q))"
    "chars_of q \<noteq> []"
  using chars_of_dec [OF assms] by (simp_all add: butlast_append)

lemma line_start_text:
  assumes "queue_ok (secondary x)" "map sint (chars_of (secondary x)) = txt"
  shows "line_start x \<longleftrightarrow> txt = [] \<or> ends_line x (last txt)"
  using last_char(1) [OF assms(1)] assms by (auto simp: line_start_def ends_line_def EMPTY_chars)

lemma edits_dec:
  assumes "edits s0 t cs e s" "\<not> EMPTY (secondary (tty_table s t))"
  shows "edits s0 t cs (e\<lparr>ed_text := butlast (ed_text e)\<rparr>) (upd_secondary t DEC_HEAD s)"
  using assms last_char(2) [of "secondary (tty_table s t)"] by (simp add: edits_def) (simp add: DEC_HEAD_def)

lemma edits_line_start:
  assumes "edits s0 t cs e s"
  shows "line_start (tty_table s t) \<longleftrightarrow> ed_text e = [] \<or> ends_line (tty_table s0 t) (last (ed_text e))"
  using assms line_start_text [of "tty_table s t" "ed_text e"] flags_same [of "tty_table s t" "tty_table s0 t"]
  by (simp add: edits_def ends_line_def)

lemma tty_intr_cong:
  "tasks s = tasks s' \<Longrightarrow> task s = task s' \<Longrightarrow> tty_pgrp s = tty_pgrp s' \<Longrightarrow> tasks (tty_intr t m s) = tasks (tty_intr t m s')"
proof -
  assume a: "tasks s = tasks s'" "task s = task s'" "tty_pgrp s = tty_pgrp s'"
  let ?f = "\<lambda>i s. if task s i \<noteq> 0 \<and> t_pgrp (tasks s (task s i)) = tty_pgrp s t
             then upd_task (task s i) (\<lambda>p. p\<lparr>t_signal := t_signal p OR m\<rparr>) s else s"
  have "tasks (fold ?f xs s) = tasks (fold ?f xs s')" for xs
    using a by (induction xs arbitrary: s s') (auto simp: upd_task_def)
  then show ?thesis using a by (simp add: tty_intr_def)
qed

lemma tty_intr_frame [simp]:
  "task (tty_intr t m s) = task s" "tty_pgrp (tty_intr t m s) = tty_pgrp s" "tty_table (tty_intr t m s) = tty_table s"
  "ctype_below (tty_intr t m s) = ctype_below s"
proof -
  let ?f = "\<lambda>i s. if task s i \<noteq> 0 \<and> t_pgrp (tasks s (task s i)) = tty_pgrp s t
             then upd_task (task s i) (\<lambda>p. p\<lparr>t_signal := t_signal p OR m\<rparr>) s else s"
  have "task (fold ?f xs s) = task s \<and> tty_pgrp (fold ?f xs s) = tty_pgrp s \<and> tty_table (fold ?f xs s) = tty_table s
      \<and> ctype_below (fold ?f xs s) = ctype_below s" for xs
    by (induction xs arbitrary: s) (auto simp: upd_task_def)
  then show "task (tty_intr t m s) = task s" "tty_pgrp (tty_intr t m s) = tty_pgrp s"
    "tty_table (tty_intr t m s) = tty_table s" "ctype_below (tty_intr t m s) = ctype_below s"
    by (simp_all add: tty_intr_def)
qed

lemma same_output_intr: "same_output t s (tty_intr t m s)"
  by (simp add: same_output_def)

lemma translate_range:
  assumes "c = sint (ch :: u8)" "translate below x c = Some d"
  shows "- 128 \<le> d \<and> d < 128"
proof -
  have c: "- 128 \<le> c" "c < 128" using sint_range_size [of ch] assms(1) by (simp_all add: word_size)
  have "- 128 \<le> signed_take_bit 7 i \<and> signed_take_bit 7 i < 128" for i :: int
    using signed_take_bit_int_greater_eq_minus_exp [of 7 i] signed_take_bit_int_less_exp [of 7 i] by simp
  then show ?thesis using c assms(2) by (auto simp: translate_def Let_def split: if_splits)
qed

lemma fold_intr_frame: "task (fold (tty_intr t) ms s) = task s" "tty_pgrp (fold (tty_intr t) ms s) = tty_pgrp s"
  by (induction ms arbitrary: s) simp_all

lemma edits_intr: "edits s0 t cs e s \<Longrightarrow> edits s0 t cs (e\<lparr>ed_sigs := ed_sigs e @ [m]\<rparr>) (tty_intr t m s)"
  using tty_intr_cong [of s "fold (tty_intr t) (ed_sigs e) s0"] by (simp add: edits_def fold_intr_frame)

context line_driver begin

lemma erase_step:
  assumes "edits s0 t cs e s" "ready s" "\<not> line_start (tty_table s t)"
  shows "\<exists>s1. echo_erase cw t c s = Some s1 \<and> ready (upd_secondary t DEC_HEAD s1)
    \<and> edits s0 t cs (e\<lparr>ed_text := butlast (ed_text e)\<rparr>) (upd_secondary t DEC_HEAD s1)"
proof -
  obtain s1 where s1: "echo_erase cw t c s = Some s1" "ready s1" "same_input t s s1" using echo_erase_run [OF assms(2)] by blast
  have "\<not> EMPTY (secondary (tty_table s1 t))" using assms(3) s1(3) by (simp add: line_start_def same_input_def)
  then show ?thesis
    using s1 edits_dec [OF edits_same_input [OF assms(1) s1(3)]] ready_output [OF s1(2) same_output_upd(1)] by blast
qed

lemma kill_run:
  assumes "edits s0 t cs e s" "ready s"
  shows "\<exists>s'. iter (kill_step cw t) s = Some s' \<and> ready s'
    \<and> edits s0 t cs (e\<lparr>ed_text := rev (dropWhile (\<lambda>d. \<not> ends_line (tty_table s0 t) d) (rev (ed_text e)))\<rparr>) s'"
  using assms
proof (induction "length (ed_text e)" arbitrary: e s)
  case 0
  then show ?case using edits_line_start [OF "0.prems"(1)] by (subst iter_unfold) (simp add: kill_step_def edits_def)
next
  case (Suc n)
  show ?case
  proof (cases "line_start (tty_table s t)")
    case True
    obtain us u where u: "ed_text e = us @ [u]" using Suc.hyps(2) by (metis length_Suc_conv_rev)
    then have "ends_line (tty_table s0 t) u" using True edits_line_start [OF Suc.prems(1)] by simp
    then have "e\<lparr>ed_text := rev (dropWhile (\<lambda>d. \<not> ends_line (tty_table s0 t) d) (rev (ed_text e)))\<rparr> = e"
      using u by simp
    then show ?thesis using True Suc.prems by (subst iter_unfold) (simp add: kill_step_def)
  next
    case False
    obtain us u where u: "ed_text e = us @ [u]" using Suc.hyps(2) by (metis length_Suc_conv_rev)
    let ?c = "sint (LAST_OF (secondary (tty_table s t)))"
    obtain s1 where s1: "echo_erase cw t ?c s = Some s1" "ready (upd_secondary t DEC_HEAD s1)"
      "edits s0 t cs (e\<lparr>ed_text := butlast (ed_text e)\<rparr>) (upd_secondary t DEC_HEAD s1)"
      using erase_step [OF Suc.prems False] by blast
    have "n = length (ed_text (e\<lparr>ed_text := butlast (ed_text e)\<rparr>))" using Suc.hyps(2) by simp
    from Suc.hyps(1) [OF this s1(3,2)]
    obtain s' where s': "iter (kill_step cw t) (upd_secondary t DEC_HEAD s1) = Some s'" "ready s'"
      "edits s0 t cs (e\<lparr>ed_text := rev (dropWhile (\<lambda>d. \<not> ends_line (tty_table s0 t) d) (rev us))\<rparr>) s'"
      using u by auto
    have "\<not> ends_line (tty_table s0 t) u" using False edits_line_start [OF Suc.prems(1)] u by simp
    then show ?thesis using s' s1(1) False u by (subst iter_unfold) (simp add: kill_step_def)
  qed
qed

lemma accept_run:
  assumes "edits s0 t cs e s" "ready s" "length (ed_text e) < 1023" "- 128 \<le> c" "c < 128"
    "L_FLAG b_ECHO (tty_table s0 t) \<Longrightarrow> \<forall>d\<in>set (echo_list (tty_table s0 t) c). sendable d"
  shows "\<exists>s'. accept cw t c s = Some s' \<and> ready s' \<and> edits s0 t cs (e\<lparr>ed_text := ed_text e @ [c],
      ed_lines := (if ends_line (tty_table s0 t) c then ed_lines e + 1 else ed_lines e)\<rparr>) s'"
proof -
  let ?e = "e\<lparr>ed_lines := (if ends_line (tty_table s0 t) c then ed_lines e + 1 else ed_lines e)\<rparr>"
  define s1 where "s1 = (if c = 10 \<or> c = CC VEOF (tty_table s t) then upd_secondary t (\<lambda>q. q\<lparr>q_data := q_data q + 1\<rparr>) s else s)"
  have same: "tty_termios (tty_table s t) = tty_termios (tty_table s0 t)" using assms(1) by (simp add: edits_def)
  have e1: "edits s0 t cs ?e s1"
    using assms(1) flags_same [OF same] by (auto simp: edits_def s1_def ends_line_def queue_ok_def chars_of_def CHARS_def)
  have "ready s1" using assms(2) ready_output [OF assms(2) same_output_upd(1)] by (simp add: s1_def)
  have "tty_termios (tty_table s1 t) = tty_termios (tty_table s0 t)" using e1 by (simp add: edits_def)
  then have "echo_list (tty_table s1 t) c = echo_list (tty_table s0 t) c" "L_FLAG b_ECHO (tty_table s1 t) = L_FLAG b_ECHO (tty_table s0 t)"
    using flags_same [of "tty_table s1 t" "tty_table s0 t"] by (simp_all add: echo_list_def)
  with echo_char_run [OF \<open>ready s1\<close>, of c] assms(6)
  obtain s2 where s2: "echo_char cw t c s1 = Some s2" "ready s2" "same_input t s1 s2" by auto
  have e2: "edits s0 t cs ?e s2" by (rule edits_same_input [OF e1 s2(3)])
  let ?q = "secondary (tty_table s2 t)"
  have q: "queue_ok ?q" "map sint (chars_of ?q) = ed_text e" using e2 by (simp_all add: edits_def)
  then have "\<not> FULL ?q" using assms(3) by (metis FULL_chars length_map less_irrefl)
  then have "chars_of (PUTCH (word_of_int c) ?q) = chars_of ?q @ [word_of_int c]" by (rule chars_of_put [OF q(1)])
  moreover have "sint (word_of_int c :: u8) = c" using assms(4,5) by (simp add: sint_sbintrunc' signed_take_bit_int_eq_self)
  ultimately have "edits s0 t cs (e\<lparr>ed_text := ed_text e @ [c],
      ed_lines := (if ends_line (tty_table s0 t) c then ed_lines e + 1 else ed_lines e)\<rparr>) (upd_secondary t (PUTCH (word_of_int c)) s2)"
    using e2 by (simp add: edits_def) (simp add: PUTCH_def)
  moreover have "accept cw t c s = Some (upd_secondary t (PUTCH (word_of_int c)) s2)"
    using s2(1) by (simp add: accept_def s1_def [symmetric] Let_def)
  ultimately show ?thesis using ready_output [OF s2(2) same_output_upd(1)] by blast
qed

definition echo_sendable :: "tty_struct \<Rightarrow> int \<Rightarrow> bool" where
  "echo_sendable x c \<longleftrightarrow> (L_FLAG b_ECHO x \<longrightarrow> (\<forall>d\<in>set (echo_list x c). sendable d))"

lemma cook_char_run:
  assumes "edits s0 t cs e s" "ready s" "length (ed_text e) < 1023" "- 128 \<le> c" "c < 128" "echo_sendable (tty_table s0 t) c"
  shows "\<exists>s'. cook_char cw t c s = Some s' \<and> ready s' \<and> edits s0 t cs (edit (tty_table s0 t) c e) s'"
proof -
  have same: "tty_termios (tty_table s t) = tty_termios (tty_table s0 t)" using assms(1) by (simp add: edits_def)
  note fl = flags_same [OF same]
  let ?x = "tty_table s0 t"
  have stop: "\<exists>s'. Some (upd_tty t (tty_stopped_update (\<lambda>_. v)) s) = Some s' \<and> ready s'
      \<and> edits s0 t cs (e\<lparr>ed_stopped := v\<rparr>) s'" for v
    using assms(1) ready_output [OF assms(2) same_output_upd(3), of "\<lambda>_. v"] by (simp add: edits_def upd_tty_def)
  have intr: "\<exists>s'. Some (tty_intr t m s) = Some s' \<and> ready s' \<and> edits s0 t cs (e\<lparr>ed_sigs := ed_sigs e @ [m]\<rparr>) s'" for m
    using edits_intr [OF assms(1)] ready_output [OF assms(2) same_output_intr] by blast
  have erase: "\<exists>s'. erase_last cw t s = Some s' \<and> ready s'
      \<and> edits s0 t cs (if ed_text e = [] \<or> ends_line ?x (last (ed_text e)) then e else e\<lparr>ed_text := butlast (ed_text e)\<rparr>) s'"
  proof (cases "line_start (tty_table s t)")
    case False
    obtain s1 where "echo_erase cw t (sint (LAST_OF (secondary (tty_table s t)))) s = Some s1" "ready (upd_secondary t DEC_HEAD s1)"
      "edits s0 t cs (e\<lparr>ed_text := butlast (ed_text e)\<rparr>) (upd_secondary t DEC_HEAD s1)"
      using erase_step [OF assms(1,2) False] by blast
    then show ?thesis using False edits_line_start [OF assms(1)] by (simp add: erase_last_def)
  qed (use edits_line_start [OF assms(1)] assms(1,2) in \<open>simp add: erase_last_def\<close>)
  have acc: "\<exists>s'. accept cw t c s = Some s' \<and> ready s' \<and> edits s0 t cs (e\<lparr>ed_text := ed_text e @ [c],
      ed_lines := (if ends_line ?x c then ed_lines e + 1 else ed_lines e)\<rparr>) s'"
    by (rule accept_run [OF assms(1-5)]) (use assms(6) in \<open>simp add: echo_sendable_def\<close>)
  have eqs: "L_FLAG n (tty_table s t) = L_FLAG n ?x" "CC n (tty_table s t) = CC n ?x" for n using fl by simp_all
  show ?thesis
    unfolding cook_char_def edit_def Let_def eqs
    using kill_run [OF assms(1,2)] erase stop [of True] stop [of False] intr [of "sigbit SIGINT"] intr [of "sigbit SIGQUIT"] acc
    by presburger
qed

lemma cook_run:
  assumes "edits s0 t cs e s" "ready s"
    "\<forall>c\<in>set cs. \<forall>d. translate (ctype_below s0) (tty_table s0 t) c = Some d \<longrightarrow> echo_sendable (tty_table s0 t) d"
  shows "\<exists>s'. iter (cook_step cw t) s = Some s' \<and> ready s'
    \<and> (case line_editor (ctype_below s0) (tty_table s0 t) cs e of (rest, e') \<Rightarrow> edits s0 t rest e' s')"
  using assms
proof (induction cs arbitrary: e s)
  case Nil
  then have "EMPTY (read_q (tty_table s t))" by (simp add: edits_def EMPTY_chars)
  then show ?case using Nil by (subst iter_unfold) (simp add: cook_step_def)
next
  case (Cons c cs)
  let ?q = "read_q (tty_table s t)" let ?txt = "secondary (tty_table s t)"
  let ?s1 = "upd_read_q t (\<lambda>q. snd (GETCH q)) s"
  have q: "queue_ok ?q" "map sint (chars_of ?q) = c # cs" "queue_ok ?txt" "map sint (chars_of ?txt) = ed_text e"
    using Cons.prems(1) by (simp_all add: edits_def)
  have ne: "\<not> EMPTY ?q" using q(1,2) by (auto simp: EMPTY_chars)
  have full: "FULL ?txt \<longleftrightarrow> length (ed_text e) = 1023" using FULL_chars [OF q(3)] q(4) by (metis length_map)
  have len: "length (ed_text e) \<le> 1023" using tq.bound [OF q(3)] q(4) by (metis length_map)
  show ?case
  proof (cases "length (ed_text e) = 1023")
    case True
    then show ?thesis using Cons.prems full by (subst iter_unfold) (simp add: cook_step_def)
  next
    case False
    have g: "sint (fst (GETCH ?q)) = c" "map sint (chars_of (snd (GETCH ?q))) = cs"
      using chars_of_get [OF q(1) ne] q(2) by simp_all
    have e1: "edits s0 t cs e ?s1"
      using Cons.prems(1) g(2) by (simp add: edits_def) (simp add: upd_read_q_def upd_tty_def)
    have r1: "ready ?s1" by (rule ready_output [OF Cons.prems(2) same_output_upd(2)])
    have same: "tty_termios (tty_table ?s1 t) = tty_termios (tty_table s0 t)" "ctype_below ?s1 = ctype_below s0"
      using e1 by (simp_all add: edits_def)
    have tr: "translate (ctype_below ?s1) (tty_table ?s1 t) c = translate (ctype_below s0) (tty_table s0 t) c"
      using flags_same [OF same(1)] same(2) by (simp add: translate_def)
    have step: "cook_step cw t s = (case translate (ctype_below s0) (tty_table s0 t) c of
          None \<Rightarrow> Some (Inl ?s1) | Some c \<Rightarrow> do { s \<leftarrow> cook_char cw t c ?s1; Some (Inl s) })"
      using False ne full g(1) tr by (simp add: cook_step_def Let_def)
    show ?thesis
    proof (cases "translate (ctype_below s0) (tty_table s0 t) c")
      case None
      then show ?thesis using Cons.IH [OF e1 r1] Cons.prems(3) False step by (subst iter_unfold) simp
    next
      case (Some d)
      have "c = sint (fst (GETCH ?q))" using g(1) by simp
      then have d: "- 128 \<le> d" "d < 128" using translate_range [OF _ Some] by simp_all
      have "echo_sendable (tty_table s0 t) d" using Cons.prems(3) Some by simp
      from cook_char_run [OF e1 r1 _ d this] False len
      obtain s2 where s2: "cook_char cw t d ?s1 = Some s2" "ready s2" "edits s0 t cs (edit (tty_table s0 t) d e) s2" by auto
      then show ?thesis using Cons.IH [OF s2(3,2)] Cons.prems(3) False step Some by (subst iter_unfold) simp
    qed
  qed
qed

end

section \<open>The drivers of the kernel\<close>

text \<open>A serial line takes any character; the console is ready between two outputs that contain no ESC.\<close>

definition serial_ready :: "'a tty_state_scheme \<Rightarrow> bool" where
  "serial_ready s \<longleftrightarrow> True"

definition console_ready :: "'a tty_state_scheme \<Rightarrow> bool" where
  "console_ready s \<longleftrightarrow> con_state (con s) = 0 \<and> queue_ok (write_q (tty_table s 0)) \<and> chars_of (write_q (tty_table s 0)) = []"

lemma rs_write_same_input: "same_input t s (rs_write u s)"
  by (simp add: rs_write_def Let_def same_input_refl same_input_outb)

lemma serial_sends:
  "t \<noteq> 0 \<Longrightarrow> \<exists>s'. tty_out cw t (send t cs s) = Some s' \<and> same_input t s s'"
  using same_input_trans [OF same_input_send rs_write_same_input] by (simp add: tty_out_def)

interpretation rs1: line_driver con_write 1 serial_ready "\<lambda>_. True"
  by unfold_locales (simp_all add: serial_ready_def serial_sends)

interpretation rs2: line_driver con_write 2 serial_ready "\<lambda>_. True"
  by unfold_locales (simp_all add: serial_ready_def serial_sends)

lemma fold_text_state: "27 \<notin> set cs \<Longrightarrow> con_state (fold (text_con k) cs c) = con_state c"
proof (induction cs arbitrary: c)
  case (Cons ch cs)
  then have "sint ch \<noteq> 27" using signed_word_eqI [of ch 27] by auto
  then show ?case using Cons by (simp add: text_con_state)
qed simp

lemma console_sends:
  assumes "console_ready s" "\<forall>c\<in>set cs. c \<noteq> 27" "length cs \<le> 2"
  shows "\<exists>s'. tty_out con_write 0 (send 0 cs s) = Some s' \<and> console_ready s' \<and> same_input 0 s s'"
proof -
  let ?s = "send 0 cs s"
  have q: "queue_ok (write_q (tty_table ?s 0))" "chars_of (write_q (tty_table ?s 0)) = cs"
    using tq.put_all [of "write_q (tty_table s 0)" cs] assms
    by (simp_all add: send_queue console_ready_def del: length_chars_of)
  moreover have "27 \<notin> set cs" using assms(2) by blast
  moreover have "con_state (con ?s) = 0" using assms(1) by (simp add: send_con console_ready_def)
  ultimately obtain s' where "con_write 0 ?s = Some s'" "queue_ok (write_q (tty_table s' 0))" "chars_of (write_q (tty_table s' 0)) = []"
    "con s' = fold (text_con (CC VERASE (tty_table ?s 0))) cs (con ?s)" "same_input 0 ?s s'"
    using con_write_text_run [of ?s 0] by auto
  then show ?thesis using \<open>con_state (con ?s) = 0\<close> \<open>27 \<notin> set cs\<close> same_input_trans [OF same_input_send]
    by (auto simp: tty_out_def console_ready_def fold_text_state)
qed

interpretation console: line_driver con_write 0 console_ready "\<lambda>c. c \<noteq> 27"
proof
  show "console_ready s'" if "console_ready s" "same_output 0 s s'" for s s' :: "'a tty_state_scheme"
    using that by (simp add: console_ready_def same_output_def)
qed (use console_sends in auto)

section \<open>The properties\<close>

text \<open>The editor at the start, and what it has done in the end.\<close>

definition editor_of :: "tty_struct \<Rightarrow> editor" where
  "editor_of x = \<lparr>ed_text = map sint (chars_of (secondary x)), ed_lines = q_data (secondary x), ed_stopped = tty_stopped x, ed_sigs = []\<rparr>"

definition edited :: "'a tty_state_scheme \<Rightarrow> nat \<Rightarrow> int list \<times> editor \<Rightarrow> 'a tty_state_scheme \<Rightarrow> bool" where
  "edited s t r s' \<longleftrightarrow> map sint (chars_of (read_q (tty_table s' t))) = fst r
     \<and> map sint (chars_of (secondary (tty_table s' t))) = ed_text (snd r) \<and> q_data (secondary (tty_table s' t)) = ed_lines (snd r)
     \<and> tty_stopped (tty_table s' t) = ed_stopped (snd r)
     \<and> (\<forall>p. t_signal (tasks s' p) = t_signal (tasks (fold (tty_intr t) (ed_sigs (snd r)) s) p))"

lemma edits_start:
  "queue_ok (read_q (tty_table s t)) \<Longrightarrow> queue_ok (secondary (tty_table s t))
    \<Longrightarrow> edits s t (map sint (chars_of (read_q (tty_table s t)))) (editor_of (tty_table s t)) s"
  by (simp add: edits_def editor_of_def)

lemma tty_upd_task [simp]: "tty_table (upd_task p f s) = tty_table s"
  by (simp add: upd_task_def)

lemma proc_list_chars [simp]: "chars_of (q\<lparr>q_proc_list := v\<rparr>) = chars_of q"
  by (simp add: chars_of_def CHARS_def)

lemma edits_wake:
  assumes "edits s t cs e s1"
  shows "edited s t (cs, e) (wake_up (Some (secondary_waitq t)) s1)"
  using assms by (simp add: edited_def wake_up_def secondary_waitq_def set_state_def edits_def)

lemma cooked_edited:
  assumes "iter (cook_step con_write t) s = Some s1" "case r of (rest, e) \<Rightarrow> edits s t rest e s1"
  shows "copy_to_cooked t s = Some (wake_up (Some (secondary_waitq t)) s1)
    \<and> edited s t r (wake_up (Some (secondary_waitq t)) s1)"
  using assms edits_wake by (cases r) (simp add: copy_to_cooked_def copy_to_cooked_with_def)

lemma signed_27: "sint (27 :: u8) = 27"
  by simp

lemma console_echo:
  assumes "- 128 \<le> d" "d < 128" "d \<noteq> - 37"
  shows "27 \<notin> set (echo_list x d)"
proof
  assume "27 \<in> set (echo_list x d)"
  then consider "d < 32" "(word_of_int (d + 64) :: u8) = 27" | "32 \<le> d" "(word_of_int d :: u8) = 27"
    by (auto simp: echo_list_def split: if_splits)
  then show False
  proof cases
    case 1
    have "signed_take_bit 7 (d + 64) = sint (word_of_int (d + 64) :: u8)" by (simp only: sint_sbintrunc') simp
    also have "\<dots> = 27" by (simp only: 1(2) signed_27)
    finally have "signed_take_bit 7 (d + 64) = 27" .
    then have "d + 64 = 27" using 1 assms by (subst (asm) signed_take_bit_int_eq_self) simp_all
    then show False using assms(3) by simp
  next
    case 2
    have "signed_take_bit 7 d = sint (word_of_int d :: u8)" by (simp only: sint_sbintrunc') simp
    also have "\<dots> = 27" by (simp only: 2(2) signed_27)
    finally have "signed_take_bit 7 d = 27" .
    then have "d = 27" using assms by (subst (asm) signed_take_bit_int_eq_self) simp_all
    then show False using 2 by simp
  qed
qed

section \<open>A line typed\<close>

text \<open>The characters \<open>ab\<close>, DEL, \<open>c\<close> and newline wait in the queue of a terminal with the settings of the console.\<close>

definition typed_line :: "nat \<Rightarrow> tty_state \<Rightarrow> tty_state" where
  "typed_line t s = upd_tty t (\<lambda>x. x\<lparr>tty_termios := tty_termios (init_tty 0), read_q := fold PUTCH [97, 98, 127, 99, 10] (read_q x)\<rparr>) s"

lemma typed_queues:
  assumes "tty_table s t = init_tty n"
  shows "queue_ok (read_q (tty_table (typed_line t s) t))" "chars_of (read_q (tty_table (typed_line t s) t)) = [97, 98, 127, 99, 10]"
    "queue_ok (secondary (tty_table (typed_line t s) t))" "chars_of (secondary (tty_table (typed_line t s) t)) = []"
    "write_q (tty_table (typed_line t s) t) = write_q (init_tty n)" "con (typed_line t s) = con s"
    "tty_termios (tty_table (typed_line t s) t) = tty_termios (init_tty 0)" "ctype_below (typed_line t s) = ctype_below s"
proof -
  have "queue_ok (read_q (init_tty n)) \<and> chars_of (read_q (init_tty n)) = []" by (simp add: init_tty_def Let_def)
  then show "queue_ok (read_q (tty_table (typed_line t s) t))" "chars_of (read_q (tty_table (typed_line t s) t)) = [97, 98, 127, 99, 10]"
    using tq.put_all [of "read_q (init_tty n)" "[97, 98, 127, 99, 10]"] assms
    by (simp_all add: typed_line_def upd_tty_def del: length_chars_of)
qed (simp_all add: typed_line_def upd_tty_def assms, simp_all add: init_tty_def Let_def)

lemma typed_flags:
  assumes "tty_termios x = tty_termios (init_tty 0)"
  shows "L_FLAG b_ICANON x" "L_FLAG b_ISIG x" "I_FLAG b_ICRNL x" "\<not> I_FLAG b_INLCR x" "\<not> I_FLAG b_IUCLC x"
    "CC VKILL x = 21" "CC VERASE x = 127" "CC VSTOP x = 19" "CC VSTART x = 17" "CC VINTR x = 3" "CC VQUIT x = 28" "CC VEOF x = 4"
  using assms by (simp_all add: L_FLAG_def I_FLAG_def CC_def init_tty_def INIT_C_CC_def bit_numeral_rec)

lemma typed_text:
  assumes "tty_table s t = init_tty n"
  shows "ed_text (snd (line_editor b (tty_table (typed_line t s) t) (map sint (chars_of (read_q (tty_table (typed_line t s) t))))
    (editor_of (tty_table (typed_line t s) t)))) = [97, 99, 10]"
proof -
  let ?x = "tty_table (typed_line t s) t"
  note fl = typed_flags [OF typed_queues(7) [OF assms]] and q = typed_queues [OF assms]
  have tr: "translate b ?x c = Some c" if "c \<noteq> 13" for c using that fl by (simp add: translate_def)
  have q1: "map sint (chars_of (read_q ?x)) = [97, 98, 127, 99, 10]" by (simp add: q)
  have e1: "ed_text (editor_of ?x) = []" by (simp add: editor_of_def q)
  show ?thesis unfolding q1 by (simp add: tr edit_def ends_line_def fl [unfolded One_nat_def] e1)
qed

lemma map_sint_inj: "map sint xs = map sint ys \<longleftrightarrow> xs = (ys :: u8 list)"
  by (rule inj_map_eq_map) (simp add: inj_on_def signed_word_eqI)

text \<open>C18: On a serial line the line discipline is the reference editor, whatever the settings: \<open>copy_to_cooked\<close>
  returns, has taken from the read queue what the editor takes (it stops at a full line buffer), and has left
  in \<open>secondary\<close> the text the editor makes of it, with erase and kill working back to the start of the
  line, the number of complete lines, the stop flag and the signals of the control characters.\<close>

theorem serial_line_editor:
  assumes "t \<in> {1, 2}" "queue_ok (read_q (tty_table s t))" "queue_ok (secondary (tty_table s t))"
  shows "\<exists>s'. copy_to_cooked t s = Some s' \<and> edited s t (line_editor (ctype_below s) (tty_table s t)
      (map sint (chars_of (read_q (tty_table s t)))) (editor_of (tty_table s t))) s'"
proof (cases "t = 1")
  case True
  have "serial_ready s" by (simp add: serial_ready_def)
  from rs1.cook_run [OF edits_start [OF assms(2,3) [unfolded True]] this] show ?thesis
    unfolding True rs1.echo_sendable_def by (auto dest: cooked_edited)
next
  case False
  then have t: "t = 2" using assms(1) by simp
  have "serial_ready s" by (simp add: serial_ready_def)
  from rs2.cook_run [OF edits_start [OF assms(2,3) [unfolded t]] this] show ?thesis
    unfolding t rs2.echo_sendable_def by (auto dest: cooked_edited)
qed

theorem serial_line_editor_witness:
  "\<exists>s'. copy_to_cooked 1 (typed_line 1 (init_tty_state 0x1000 0)) = Some s'
     \<and> chars_of (secondary (tty_table s' 1)) = [97, 99, 10]"
proof -
  have i: "tty_table (init_tty_state 0x1000 0) 1 = init_tty 1" by simp
  from serial_line_editor [of 1 "typed_line 1 (init_tty_state 0x1000 0)"] typed_queues [OF i] typed_text [OF i]
  have "\<exists>s'. copy_to_cooked 1 (typed_line 1 (init_tty_state 0x1000 0)) = Some s'
     \<and> map sint (chars_of (secondary (tty_table s' 1))) = map sint [97, 99, 10 :: u8]"
    by (force simp: edited_def)
  then show ?thesis unfolding map_sint_inj .
qed

text \<open>C19: On the console the same holds between two outputs, as long as the echo sends no ESC to the screen
  (only the character 0xDB is echoed with one, as \<open>^ESC\<close>).\<close>

theorem console_line_editor:
  assumes "console_ready s" "queue_ok (read_q (tty_table s 0))" "queue_ok (secondary (tty_table s 0))"
    and "\<forall>c\<in>set (chars_of (read_q (tty_table s 0))).
      translate (ctype_below s) (tty_table s 0) (sint c) \<noteq> Some (- 37)"
  shows "\<exists>s'. copy_to_cooked 0 s = Some s' \<and> console_ready s' \<and> edited s 0 (line_editor (ctype_below s) (tty_table s 0)
      (map sint (chars_of (read_q (tty_table s 0)))) (editor_of (tty_table s 0))) s'"
proof -
  have "\<forall>c\<in>set (map sint (chars_of (read_q (tty_table s 0)))). \<forall>d. translate (ctype_below s) (tty_table s 0) c = Some d
      \<longrightarrow> console.echo_sendable (tty_table s 0) d"
  proof (intro ballI allI impI)
    fix c d assume c: "c \<in> set (map sint (chars_of (read_q (tty_table s 0))))" "translate (ctype_below s) (tty_table s 0) c = Some d"
    then obtain ch where ch: "ch \<in> set (chars_of (read_q (tty_table s 0)))" "c = sint ch" by auto
    then have "d \<noteq> - 37" using assms(4) c(2) by auto
    then have "27 \<notin> set (echo_list (tty_table s 0) d)" using translate_range [OF ch(2) c(2)] console_echo by simp
    then show "console.echo_sendable (tty_table s 0) d" unfolding console.echo_sendable_def by blast
  qed
  from console.cook_run [OF edits_start [OF assms(2,3)] assms(1) this]
  obtain s1 where s1: "iter (cook_step con_write 0) s = Some s1" "console_ready s1"
    "case line_editor (ctype_below s) (tty_table s 0) (map sint (chars_of (read_q (tty_table s 0)))) (editor_of (tty_table s 0))
      of (rest, e) \<Rightarrow> edits s 0 rest e s1" by (elim exE conjE) (rule that; assumption)
  have "same_output 0 s1 (wake_up (Some (secondary_waitq 0)) s1)"
    by (simp add: same_output_def) (simp add: wake_up_def secondary_waitq_def set_state_def)
  then have "console_ready (wake_up (Some (secondary_waitq 0)) s1)" using s1(2) by (simp add: console_ready_def same_output_def)
  then show ?thesis using cooked_edited [OF s1(1,3)] by blast
qed

theorem console_line_editor_witness:
  "\<exists>s'. copy_to_cooked 0 (typed_line 0 (con_init demo_boot (init_tty_state 0x1000 0))) = Some s'
     \<and> chars_of (secondary (tty_table s' 0)) = [97, 99, 10]"
proof -
  let ?i = "con_init demo_boot (init_tty_state 0x1000 0)"
  have i: "tty_table ?i 0 = init_tty 0" by simp
  have "console_ready (typed_line 0 ?i)"
    using demo_con(2) typed_queues [OF i] by (simp add: console_ready_def demo_tty_def init_tty_def)
  moreover have "\<forall>c\<in>set (chars_of (read_q (tty_table (typed_line 0 ?i) 0))).
      translate (ctype_below (typed_line 0 ?i)) (tty_table (typed_line 0 ?i) 0) (sint c) \<noteq> Some (- 37)"
    using typed_flags [OF typed_queues(7) [OF i]] by (simp add: typed_queues [OF i] translate_def)
  ultimately
  have "\<exists>s'. copy_to_cooked 0 (typed_line 0 ?i) = Some s'
     \<and> map sint (chars_of (secondary (tty_table s' 0))) = map sint [97, 99, 10 :: u8]"
    using console_line_editor [of "typed_line 0 ?i"] typed_queues [OF i] typed_text [OF i] by (force simp: edited_def)
  then show ?thesis unfolding map_sint_inj .
qed
end
