(* ===== verification/Kernel_String.thy ===== *)
theory Kernel_String
  imports Kernel_Prelude
begin

text \<open>
  The string routines of \<open>include/string.h\<close>. Each is one piece of inline assembler, translated by its
  instructions: the index registers \<open>esi\<close> and \<open>edi\<close>, the counter \<open>ecx\<close>, the byte in \<open>al\<close> and the zero flag
  are arguments of its loop, the data segment is a function from addresses to bytes, and addresses wrap at
  32 bits. A loop that counts no register down is a \<open>partial_function\<close>: \<open>None\<close> means that it runs for ever.
\<close>

type_synonym segment = "u32 \<Rightarrow> u8"

section \<open>String instructions\<close>

text \<open>\<open>rep movsb\<close> upwards and downwards, \<open>rep stosb\<close>, and \<open>repne scasb\<close>, which gives \<open>ecx\<close>, \<open>edi\<close> and the
  zero flag. With \<open>ecx = 0\<close> nothing is compared and the flags stay.\<close>

primrec rep_movsb :: "nat \<Rightarrow> u32 \<Rightarrow> u32 \<Rightarrow> segment \<Rightarrow> segment" where
  "rep_movsb 0 esi edi m = m"
| "rep_movsb (Suc n) esi edi m = rep_movsb n (esi + 1) (edi + 1) (m(edi := m esi))"

primrec rep_movsb_std :: "nat \<Rightarrow> u32 \<Rightarrow> u32 \<Rightarrow> segment \<Rightarrow> segment" where
  "rep_movsb_std 0 esi edi m = m"
| "rep_movsb_std (Suc n) esi edi m = rep_movsb_std n (esi - 1) (edi - 1) (m(edi := m esi))"

primrec rep_stosb :: "nat \<Rightarrow> u8 \<Rightarrow> u32 \<Rightarrow> segment \<Rightarrow> segment" where
  "rep_stosb 0 al edi m = m"
| "rep_stosb (Suc n) al edi m = rep_stosb n al (edi + 1) (m(edi := al))"

primrec repne_scasb :: "nat \<Rightarrow> u8 \<Rightarrow> segment \<Rightarrow> u32 \<Rightarrow> bool \<Rightarrow> u32 \<times> u32 \<times> bool" where
  "repne_scasb 0 al m edi zf = (0, edi, zf)"
| "repne_scasb (Suc n) al m edi zf =
     (if m edi = al then (of_nat n, edi + 1, True) else repne_scasb n al m (edi + 1) False)"

text \<open>\<open>repe cmpsb\<close>: the new index registers, the zero flag and "less" of the last comparison.\<close>

primrec repe_cmpsb :: "nat \<Rightarrow> segment \<Rightarrow> u32 \<Rightarrow> u32 \<Rightarrow> bool \<times> bool \<Rightarrow> u32 \<times> u32 \<times> bool \<times> bool" where
  "repe_cmpsb 0 m esi edi fl = (esi, edi, fl)"
| "repe_cmpsb (Suc n) m esi edi fl =
     (if m esi = m edi then repe_cmpsb n m (esi + 1) (edi + 1) (True, False)
      else (esi + 1, edi + 1, False, sint (m esi) < sint (m edi)))"

section \<open>Copying\<close>

text \<open>\<open>1: lodsb; stosb; testb %al,%al; jne 1b\<close>\<close>

partial_function (option) copy_loop :: "u32 \<Rightarrow> u32 \<Rightarrow> segment \<Rightarrow> segment option" where
  "copy_loop esi edi m =
     (let al = m esi; m = m(edi := al)
      in if al \<noteq> 0 then copy_loop (esi + 1) (edi + 1) m else Some m)"

definition strcpy :: "u32 \<Rightarrow> u32 \<Rightarrow> segment \<Rightarrow> (u32 \<times> segment) option" where
  "strcpy dest src m = map_option (Pair dest) (copy_loop src dest m)"

lemma unat_count: "\<not> bit (ecx - 1 :: u32) 31 \<Longrightarrow> unat (ecx - 1) < unat ecx"
  using unat_gt_0 [of ecx] by (cases "ecx = 0") (simp_all add: unat_sub_if' Suc_le_eq)

text \<open>\<open>1: decl %ecx; js 2f; lodsb; stosb; testb %al,%al; jne 1b\<close> ends with the registers \<open>ecx\<close> and \<open>edi\<close>,
  and tells whether the NUL was copied.\<close>

function ncopy_loop :: "u32 \<Rightarrow> u32 \<Rightarrow> u32 \<Rightarrow> segment \<Rightarrow> bool \<times> u32 \<times> u32 \<times> segment" where
  "ncopy_loop ecx esi edi m =
     (if bit (ecx - 1) 31 then (False, ecx - 1, edi, m)
      else let al = m esi; m = m(edi := al)
           in if al \<noteq> 0 then ncopy_loop (ecx - 1) (esi + 1) (edi + 1) m else (True, ecx - 1, edi + 1, m))"
  by pat_completeness auto

termination by (relation "measure (\<lambda>(ecx, _). unat ecx)") (simp_all add: unat_count)

declare ncopy_loop.simps [simp del]

definition strncpy :: "u32 \<Rightarrow> u32 \<Rightarrow> int \<Rightarrow> segment \<Rightarrow> u32 \<times> segment" where
  "strncpy dest src n m =
     (case ncopy_loop (word_of_int n) src dest m of
        (nul, ecx, edi, m) \<Rightarrow> (dest, if nul then rep_stosb (unat ecx) 0 edi m else m))"

text \<open>\<open>repne scasb\<close> from \<open>ecx = 0xffffffff\<close> for a NUL; \<open>decl\<close> takes \<open>edi\<close> back to it.\<close>

definition scan_nul :: "segment \<Rightarrow> u32 \<Rightarrow> u32 \<times> u32 \<times> bool" where
  "scan_nul m edi = repne_scasb (unat (0xffffffff :: u32)) 0 m edi False"

definition strcat :: "u32 \<Rightarrow> u32 \<Rightarrow> segment \<Rightarrow> (u32 \<times> segment) option" where
  "strcat dest src m =
     (case scan_nul m dest of (_, edi, _) \<Rightarrow> map_option (Pair dest) (copy_loop src (edi - 1) m))"

definition strncat :: "u32 \<Rightarrow> u32 \<Rightarrow> int \<Rightarrow> segment \<Rightarrow> u32 \<times> segment" where
  "strncat dest src n m =
     (case scan_nul m dest of (_, edi, _) \<Rightarrow>
        (case ncopy_loop (word_of_int n) src (edi - 1) m of (_, _, edi, m) \<Rightarrow> (dest, m(edi := 0))))"

section \<open>Comparing\<close>

partial_function (option) cmp_loop :: "u32 \<Rightarrow> u32 \<Rightarrow> segment \<Rightarrow> int option" where
  "cmp_loop esi edi m =
     (let al = m esi
      in if al \<noteq> m edi then Some (if sint al < sint (m edi) then 1 else - 1)
         else if al \<noteq> 0 then cmp_loop (esi + 1) (edi + 1) m else Some 0)"

definition strcmp :: "u32 \<Rightarrow> u32 \<Rightarrow> segment \<Rightarrow> int option" where
  "strcmp cs ct m = cmp_loop ct cs m"

function ncmp_loop :: "u32 \<Rightarrow> u32 \<Rightarrow> u32 \<Rightarrow> segment \<Rightarrow> int" where
  "ncmp_loop ecx esi edi m =
     (if bit (ecx - 1) 31 then 0
      else let al = m esi
           in if al \<noteq> m edi then (if sint al < sint (m edi) then 1 else - 1)
              else if al \<noteq> 0 then ncmp_loop (ecx - 1) (esi + 1) (edi + 1) m else 0)"
  by pat_completeness auto

termination by (relation "measure (\<lambda>(ecx, _). unat ecx)") (simp_all add: unat_count)

declare ncmp_loop.simps [simp del]

definition strncmp :: "u32 \<Rightarrow> u32 \<Rightarrow> int \<Rightarrow> segment \<Rightarrow> int" where
  "strncmp cs ct n m = ncmp_loop (word_of_int n) ct cs m"

section \<open>Searching\<close>

partial_function (option) chr_loop :: "u8 \<Rightarrow> u32 \<Rightarrow> segment \<Rightarrow> u32 option" where
  "chr_loop ah esi m =
     (let al = m esi; esi = esi + 1
      in if al = ah then Some (esi - 1) else if al \<noteq> 0 then chr_loop ah esi m else Some 0)"

definition strchr :: "u32 \<Rightarrow> u8 \<Rightarrow> segment \<Rightarrow> u32 option" where
  "strchr s c m = chr_loop c s m"

partial_function (option) rchr_loop :: "u8 \<Rightarrow> u32 \<Rightarrow> u32 \<Rightarrow> segment \<Rightarrow> u32 option" where
  "rchr_loop ah edx esi m =
     (let al = m esi; edx = (if al = ah then esi else edx)
      in if al \<noteq> 0 then rchr_loop ah edx (esi + 1) m else Some edx)"

definition strrchr :: "u32 \<Rightarrow> u8 \<Rightarrow> segment \<Rightarrow> u32 option" where
  "strrchr s c m = rchr_loop c 0 s m"

definition strlen :: "u32 \<Rightarrow> segment \<Rightarrow> int" where
  "strlen s m = (case scan_nul m s of (ecx, _, _) \<Rightarrow> sint (NOT ecx - 1))"

text \<open>The length of the set of characters \<open>ct\<close>, and the test whether \<open>al\<close> is in it. The zero flag at the test
  is that of \<open>testb %al,%al\<close> with \<open>al \<noteq> 0\<close>.\<close>

definition set_len :: "segment \<Rightarrow> u32 \<Rightarrow> u32" where
  "set_len m ct = (case scan_nul m ct of (ecx, _, _) \<Rightarrow> NOT ecx - 1)"

definition in_set :: "segment \<Rightarrow> u32 \<Rightarrow> u32 \<Rightarrow> u8 \<Rightarrow> bool" where
  "in_set m ct edx al = (case repne_scasb (unat edx) al m ct False of (_, _, zf) \<Rightarrow> zf)"

text \<open>\<open>1: lodsb; testb; je 2f; repne scasb; je 1b (or jne 1b)\<close>: the value of \<open>esi\<close> behind the character that
  ended the loop, and whether that was the NUL.\<close>

partial_function (option) spn_loop :: "bool \<Rightarrow> u32 \<Rightarrow> u32 \<Rightarrow> u32 \<Rightarrow> segment \<Rightarrow> (bool \<times> u32) option" where
  "spn_loop while_in ct edx esi m =
     (let al = m esi; esi = esi + 1
      in if al = 0 then Some (True, esi)
         else if in_set m ct edx al = while_in then spn_loop while_in ct edx esi m else Some (False, esi))"

definition strspn :: "u32 \<Rightarrow> u32 \<Rightarrow> segment \<Rightarrow> int option" where
  "strspn cs ct m = map_option (\<lambda>(_, esi). sint (esi - 1 - cs)) (spn_loop True ct (set_len m ct) cs m)"

definition strcspn :: "u32 \<Rightarrow> u32 \<Rightarrow> segment \<Rightarrow> int option" where
  "strcspn cs ct m = map_option (\<lambda>(_, esi). sint (esi - 1 - cs)) (spn_loop False ct (set_len m ct) cs m)"

definition strpbrk :: "u32 \<Rightarrow> u32 \<Rightarrow> segment \<Rightarrow> u32 option" where
  "strpbrk cs ct m = map_option (\<lambda>(nul, esi). if nul then 0 else esi - 1) (spn_loop False ct (set_len m ct) cs m)"

text \<open>In \<open>strstr\<close> \<open>eax\<close> keeps the position that is tried; when it fails, \<open>esi\<close> is behind the character that
  differed, and a NUL there ends the search. For an empty \<open>ct\<close> the zero flag is that of \<open>decl %ecx\<close>.\<close>

partial_function (option) str_loop :: "u32 \<Rightarrow> u32 \<Rightarrow> u32 \<Rightarrow> segment \<Rightarrow> u32 option" where
  "str_loop ct edx esi m =
     (case repe_cmpsb (unat edx) m esi ct (edx = 0, False) of
        (esi', _, zf, _) \<Rightarrow>
          if zf then Some esi
          else if m (esi' - 1) \<noteq> 0 then str_loop ct edx (esi + 1) m else Some 0)"

definition strstr :: "u32 \<Rightarrow> u32 \<Rightarrow> segment \<Rightarrow> u32 option" where
  "strstr cs ct m = str_loop ct (set_len m ct) cs m"

section \<open>strtok\<close>

text \<open>\<open>tok\<close> is the variable \<open>___strtok\<close>. The result has the token, the new \<open>___strtok\<close> and the memory.\<close>

definition strtok :: "u32 \<Rightarrow> u32 \<Rightarrow> u32 \<Rightarrow> segment \<Rightarrow> (u32 \<times> u32 \<times> segment) option" where
  "strtok s ct tok m =
     (if s = 0 \<and> tok = 0 then Some (0, 0, m)
      else let esi = (if s = 0 then tok else s); edx = set_len m ct
           in if edx = 0 then Some (0, 0, m)
              else do {
                (nul, esi) \<leftarrow> spn_loop True ct edx esi m;
                if nul \<or> m (esi - 1) = 0 then Some (0, 0, m)
                else do {
                  let ebx = esi - 1;
                  (nul, esi) \<leftarrow> spn_loop False ct edx ebx m;
                  let (esi, m) = (if nul \<or> m (esi - 1) = 0 then (0, m) else (esi, m(esi - 1 := 0)));
                  Some (if m ebx = 0 then (0, 0, m) else (ebx, esi, m))
                }
              })"

section \<open>Blocks of memory\<close>

definition memcpy :: "u32 \<Rightarrow> u32 \<Rightarrow> int \<Rightarrow> segment \<Rightarrow> u32 \<times> segment" where
  "memcpy dest src n m = (dest, rep_movsb (unat (word_of_int n :: u32)) src dest m)"

definition memmove :: "u32 \<Rightarrow> u32 \<Rightarrow> int \<Rightarrow> segment \<Rightarrow> u32 \<times> segment" where
  "memmove dest src n m =
     (let ecx = word_of_int n :: u32
      in (dest, if dest < src then rep_movsb (unat ecx) src dest m
                else rep_movsb_std (unat ecx) (src + ecx - 1) (dest + ecx - 1) m))"

text \<open>With a count of 0 the result of \<open>memcmp\<close> is that of the flags \<open>fl\<close> which the code before left.\<close>

definition memcmp :: "bool \<times> bool \<Rightarrow> u32 \<Rightarrow> u32 \<Rightarrow> int \<Rightarrow> segment \<Rightarrow> int" where
  "memcmp fl cs ct n m =
     (case repe_cmpsb (unat (word_of_int n :: u32)) m ct cs fl of
        (_, _, zf, lt) \<Rightarrow> if zf then 0 else if lt then 1 else - 1)"

definition memchr :: "u32 \<Rightarrow> u8 \<Rightarrow> int \<Rightarrow> segment \<Rightarrow> u32" where
  "memchr cs c n m =
     (if n = 0 then 0
      else case repne_scasb (unat (word_of_int n :: u32)) c m cs False of
        (_, edi, zf) \<Rightarrow> if zf then edi - 1 else 0)"

definition memset :: "u32 \<Rightarrow> u8 \<Rightarrow> int \<Rightarrow> segment \<Rightarrow> u32 \<times> segment" where
  "memset s c n m = (s, rep_stosb (unat (word_of_int n :: u32)) c s m)"

section \<open>Strings\<close>

text \<open>\<open>cs\<close> is the string at \<open>s\<close>: its characters, none of them NUL, and a NUL behind them.\<close>

primrec cstr :: "segment \<Rightarrow> u32 \<Rightarrow> u8 list \<Rightarrow> bool" where
  "cstr m s [] \<longleftrightarrow> m s = 0"
| "cstr m s (c # cs) \<longleftrightarrow> m s = c \<and> c \<noteq> 0 \<and> cstr m (s + 1) cs"

lemma add_Suc_addr: "(s :: u32) + of_nat (Suc k) = s + 1 + of_nat k"
  by simp

lemma cstr_iff:
  "cstr m s cs \<longleftrightarrow> (\<forall>i<length cs. m (s + of_nat i) = cs ! i \<and> cs ! i \<noteq> 0) \<and> m (s + of_nat (length cs)) = 0"
proof (induction cs arbitrary: s)
  case (Cons c cs)
  have "(\<forall>i<length (c # cs). m (s + of_nat i) = (c # cs) ! i \<and> (c # cs) ! i \<noteq> 0)
      \<longleftrightarrow> m s = c \<and> c \<noteq> 0 \<and> (\<forall>i<length cs. m (s + 1 + of_nat i) = cs ! i \<and> cs ! i \<noteq> 0)"
    unfolding length_Cons All_less_Suc2 by (simp add: add.assoc)
  then show ?case using Cons [of "s + 1"] by (simp add: add.assoc)
qed simp

lemma cstr_drop: "cstr m s cs \<Longrightarrow> k \<le> length cs \<Longrightarrow> cstr m (s + of_nat k) (drop k cs)"
  unfolding cstr_iff by (simp add: nth_drop add.assoc flip: of_nat_add)

lemma cstr_cong:
  "cstr m s cs \<Longrightarrow> (\<And>i. i \<le> length cs \<Longrightarrow> m' (s + of_nat i) = m (s + of_nat i)) \<Longrightarrow> cstr m' s cs"
  unfolding cstr_iff by simp

lemma cstr_nonzero: "cstr m s cs \<Longrightarrow> 0 \<notin> set cs"
  unfolding cstr_iff by (auto simp: in_set_conv_nth)

lemma cstr_at: "cstr m s cs \<Longrightarrow> k \<le> length cs \<Longrightarrow> m (s + of_nat k) = (if k < length cs then cs ! k else 0)"
  unfolding cstr_iff by auto

section \<open>Scanning\<close>

lemma repne_scasb_found:
  "(\<And>i. i < k \<Longrightarrow> m (edi + of_nat i) \<noteq> al) \<Longrightarrow> m (edi + of_nat k) = al \<Longrightarrow> k < n
    \<Longrightarrow> repne_scasb n al m edi zf = (of_nat (n - Suc k), edi + of_nat k + 1, True)"
proof (induction k arbitrary: n edi zf)
  case 0
  then show ?case by (cases n) simp_all
next
  case (Suc k)
  then obtain n' where n: "n = Suc n'" by (cases n) auto
  have "m edi \<noteq> al" using Suc.prems(1) [of 0] by simp
  moreover have "m (edi + 1 + of_nat i) \<noteq> al" if "i < k" for i using Suc.prems(1) [of "Suc i"] that by (simp add: add.assoc)
  moreover have "m (edi + 1 + of_nat k) = al" using Suc.prems(2) by (simp add: add.assoc)
  ultimately show ?case using Suc.IH [of "edi + 1" n' False] Suc.prems(3) n by (simp add: add.assoc)
qed

lemma repne_scasb_none:
  "(\<And>i. i < n \<Longrightarrow> m (edi + of_nat i) \<noteq> al) \<Longrightarrow> repne_scasb n al m edi zf = (0, edi + of_nat n, n = 0 \<and> zf)"
proof (induction n arbitrary: edi zf)
  case (Suc n)
  have "m edi \<noteq> al" using Suc.prems [of 0] by simp
  moreover have "m (edi + 1 + of_nat i) \<noteq> al" if "i < n" for i using Suc.prems [of "Suc i"] that by (simp add: add.assoc)
  ultimately show ?case using Suc.IH [of "edi + 1" False] by (simp add: add.assoc)
qed simp

lemma scan_nul_cstr:
  assumes "cstr m s cs" "length cs < 4294967295"
  shows "scan_nul m s = (of_nat (4294967294 - length cs), s + of_nat (length cs) + 1, True)"
proof -
  have "m (s + of_nat i) \<noteq> 0" if "i < length cs" for i using assms(1) that by (auto simp: cstr_iff)
  from repne_scasb_found [of "length cs" m s 0, OF this] assms show ?thesis
    by (simp add: scan_nul_def cstr_iff)
qed

lemma not_left: "n \<le> 4294967294 \<Longrightarrow> NOT (of_nat (4294967294 - n) :: u32) - 1 = of_nat n"
  by (simp add: not_eq_complement of_nat_diff)

lemma set_len_cstr:
  assumes "cstr m s cs" "length cs < 4294967295"
  shows "set_len m s = of_nat (length cs)"
  using assms by (simp only: set_len_def scan_nul_cstr prod.case not_left)

lemma sint_of_nat_u32: "n < 2147483648 \<Longrightarrow> sint (of_nat n :: u32) = int n"
  using sint_sbintrunc' [of "int n", where ?'a = 32] by (simp add: signed_take_bit_int_eq_self)

lemma strlen_cstr:
  assumes "cstr m s cs" "length cs < 2147483648"
  shows "strlen s m = int (length cs)"
proof -
  have "NOT (of_nat (4294967294 - length cs) :: u32) - 1 = of_nat (length cs)" using assms(2) by (intro not_left) simp
  then show ?thesis using scan_nul_cstr [OF assms(1)] assms(2) by (simp only: strlen_def prod.case sint_of_nat_u32)
qed

lemma in_set_cstr:
  assumes "cstr m ct ds" "length ds < 4294967295"
  shows "in_set m ct (set_len m ct) c \<longleftrightarrow> c \<in> set ds"
proof (cases "c \<in> set ds")
  case True
  then obtain us vs where u: "ds = us @ c # vs" "c \<notin> set us" using split_list_first by metis
  define k where "k = length us"
  have k: "k < length ds" "ds ! k = c" using u by (simp_all add: k_def)
  have "ds ! i \<noteq> c" if "i < k" for i using u that by (auto simp: k_def nth_append)
  then have "m (ct + of_nat i) \<noteq> c" if "i < k" for i using assms(1) k that by (simp add: cstr_iff)
  moreover have "m (ct + of_nat k) = c" using assms(1) k by (simp add: cstr_iff)
  ultimately show ?thesis
    using repne_scasb_found [of k m ct c "length ds" False] k(1) True assms
    by (simp add: in_set_def set_len_cstr)
next
  case False
  then have "m (ct + of_nat i) \<noteq> c" if "i < length ds" for i using assms(1) that by (auto simp: cstr_iff)
  then show ?thesis using repne_scasb_none [of "length ds" m ct c False] False assms
    by (simp add: in_set_def set_len_cstr)
qed

lemma spn_loop_cstr:
  assumes "cstr m ct ds" "length ds < 4294967295" "cstr m s cs"
  shows "spn_loop w ct (set_len m ct) s m =
    (let k = length (takeWhile (\<lambda>c. (c \<in> set ds) = w) cs) in Some (k = length cs, s + of_nat k + 1))"
  using assms(3)
proof (induction cs arbitrary: s)
  case Nil
  then show ?case by (subst spn_loop.simps) simp
next
  case (Cons c cs)
  then show ?case
    using Cons.IH [of "s + 1"] in_set_cstr [OF assms(1,2), of c] by (subst spn_loop.simps) (auto simp: Let_def add.assoc)
qed

lemma cstr_length:
  assumes "cstr m s cs"
  shows "length cs < 4294967296"
proof (rule ccontr)
  assume "\<not> ?thesis"
  then have len: "4294967296 \<le> length cs" by simp
  then have "m (s + of_nat (length cs - 4294967296)) \<noteq> 0" using cstr_at [OF assms, of "length cs - 4294967296"] assms
    by (simp add: cstr_iff)
  moreover have "(of_nat (length cs - 4294967296) :: u32) = of_nat (length cs)" using len by (simp add: of_nat_diff)
  ultimately show False using cstr_at [OF assms, of "length cs"] by simp
qed

section \<open>What the copies leave\<close>

lemma copy_loop_run:
  assumes "cstr m src cs" "\<forall>i\<in>{1..length cs}. dest \<noteq> src + of_nat i"
  shows "\<exists>m'. copy_loop src dest m = Some m' \<and> (\<forall>i\<le>length cs. m' (dest + of_nat i) = m (src + of_nat i))
    \<and> (\<forall>a. (\<forall>i\<le>length cs. a \<noteq> dest + of_nat i) \<longrightarrow> m' a = m a)"
  using assms
proof (induction cs arbitrary: src dest m)
  case Nil
  then show ?case by (subst copy_loop.simps) simp
next
  case (Cons c cs)
  let ?m = "m(dest := c)"
  have c: "m src = c" "c \<noteq> 0" using Cons.prems(1) by simp_all
  have away: "dest \<noteq> src + 1 + of_nat i" if "i \<le> length cs" for i
    using bspec [OF Cons.prems(2), of "Suc i"] that by (simp add: add.assoc)
  have "cstr ?m (src + 1) cs"
  proof (rule cstr_cong)
    show "cstr m (src + 1) cs" using Cons.prems(1) by simp
    show "?m (src + 1 + of_nat i) = m (src + 1 + of_nat i)" if "i \<le> length cs" for i using away [OF that] by simp
  qed
  moreover have "\<forall>i\<in>{1..length cs}. dest + 1 \<noteq> src + 1 + of_nat i" using Cons.prems(2) by simp
  ultimately obtain m' where m': "copy_loop (src + 1) (dest + 1) ?m = Some m'"
      "\<forall>i\<le>length cs. m' (dest + 1 + of_nat i) = ?m (src + 1 + of_nat i)"
      "\<forall>a. (\<forall>i\<le>length cs. a \<noteq> dest + 1 + of_nat i) \<longrightarrow> m' a = ?m a"
    using Cons.IH by blast
  have self: "dest \<noteq> dest + 1 + of_nat i" if "i \<le> length cs" for i
  proof
    assume "dest = dest + 1 + of_nat i"
    then have "(of_nat (Suc i) :: u32) = of_nat 0" by (simp add: add.assoc)
    then show False using that cstr_length [OF Cons.prems(1)] by (subst (asm) of_nat_eq_u32) simp_all
  qed
  have "m' (dest + of_nat i) = m (src + of_nat i)" if "i \<le> length (c # cs)" for i
  proof (cases i)
    case 0
    then show ?thesis using m'(3) [rule_format, of dest] self c by simp
  next
    case (Suc j)
    then have "j \<le> length cs" using that by simp
    then show ?thesis using m'(2) [rule_format, of j] away [of j] Suc by (simp add: add.assoc)
  qed
  moreover have "m' a = m a" if "\<forall>i\<le>length (c # cs). a \<noteq> dest + of_nat i" for a
  proof -
    have "a \<noteq> dest + 1 + of_nat i" if "i \<le> length cs" for i
      using \<open>\<forall>i\<le>length (c # cs). a \<noteq> dest + of_nat i\<close> [rule_format, of "Suc i"] that by (simp add: add.assoc)
    moreover have "a \<noteq> dest" using that [rule_format, of 0] by simp
    ultimately show ?thesis using m'(3) by simp
  qed
  moreover have "copy_loop src dest m = Some m'" using m'(1) c by (subst copy_loop.simps) simp
  ultimately show ?case by blast
qed

text \<open>When the destination lies within the source, the NUL is overwritten before it is read.\<close>

lemma copy_loop_stuck:
  assumes "copy_loop esi edi m = Some r" "edi = esi + of_nat d" "0 < d" "\<forall>i<d. m (esi + of_nat i) \<noteq> 0"
  shows False
proof -
  have "edi = esi + of_nat d \<longrightarrow> (\<exists>i<d. m (esi + of_nat i) = 0)"
  proof (induction rule: copy_loop.raw_induct [OF _ assms(1)])
    case (1 loop esi edi m r)
    show ?case
    proof (rule impI, rule ccontr)
      assume e: "edi = esi + of_nat d" and "\<not> (\<exists>i<d. m (esi + of_nat i) = 0)"
      then have nz: "m (esi + of_nat i) \<noteq> 0" if "i < d" for i using that by auto
      have al: "m esi \<noteq> 0" using nz [of 0] assms(3) by simp
      then have "loop (esi + 1) (edi + 1) (m(edi := m esi)) = Some r" using 1(2) by (simp add: Let_def)
      from 1(1) [OF this] obtain i where i: "i < d" "(m(edi := m esi)) (esi + 1 + of_nat i) = 0" using e by auto
      show False
      proof (cases "esi + 1 + of_nat i = edi")
        case True
        then show False using i al by simp
      next
        case False
        then have "Suc i < d" using i(1) e by (cases "Suc i = d") auto
        then show False using i False nz [of "Suc i"] by (simp add: add.assoc)
      qed
    qed
  qed
  then show False using assms(2,4) by auto
qed

section \<open>The order of strings\<close>

definition signed_less :: "(u8 \<times> u8) set" where "signed_less = {(a, b). sint a < sint b}"

lemma signed_neq: "a \<noteq> b \<Longrightarrow> sint a \<noteq> sint (b :: u8)"
  using signed_word_eqI by blast

lemma cmp_loop_run:
  assumes "cstr m esi xs" "cstr m edi ys"
  shows "cmp_loop esi edi m = Some (if xs = ys then 0 else if (xs @ [0], ys @ [0]) \<in> lexord signed_less then 1 else - 1)"
  using assms
proof (induction xs arbitrary: esi edi ys)
  case Nil
  then show ?case by (cases ys) (subst cmp_loop.simps, auto simp: signed_less_def)+
next
  case (Cons c cs)
  then show ?case
  proof (cases ys)
    case Nil
    then show ?thesis using Cons.prems by (subst cmp_loop.simps) (auto simp: signed_less_def)
  next
    case (Cons d ds)
    show ?thesis
    proof (cases "c = d")
      case True
      then show ?thesis using Cons Cons.prems Cons.IH [of "esi + 1" "edi + 1" ds]
        by (subst cmp_loop.simps) (auto simp: signed_less_def)
    next
      case False
      then show ?thesis using Cons Cons.prems by (subst cmp_loop.simps) (auto simp: signed_less_def)
    qed
  qed
qed

section \<open>Moves between overlapping blocks\<close>

lemma rep_movsb_run:
  assumes "\<And>i j. i < j \<Longrightarrow> j < n \<Longrightarrow> edi + of_nat i \<noteq> esi + of_nat j" "n \<le> 4294967296"
  shows "rep_movsb n esi edi m a = (if \<exists>i<n. a = edi + of_nat i then m (esi + (a - edi)) else m a)"
  using assms
proof (induction n arbitrary: esi edi m)
  case (Suc n)
  have IH: "rep_movsb n (esi + 1) (edi + 1) (m(edi := m esi)) a
      = (if \<exists>i<n. a = edi + 1 + of_nat i then (m(edi := m esi)) (esi + 1 + (a - (edi + 1))) else (m(edi := m esi)) a)"
    using Suc.prems Suc.prems(1) [of "Suc _" "Suc _"] by (intro Suc.IH) (fastforce simp: add.assoc)+
  have ex: "(\<exists>i<Suc n. a = edi + of_nat i) \<longleftrightarrow> a = edi \<or> (\<exists>i<n. a = edi + 1 + of_nat i)"
    by (subst Ex_less_Suc2) (simp add: add.assoc)
  show ?case
  proof (cases "\<exists>i<n. a = edi + 1 + of_nat i")
    case True
    then obtain i where i: "i < n" "a = edi + 1 + of_nat i" by blast
    have "a \<noteq> edi"
    proof
      assume "a = edi"
      then have "(of_nat (Suc i) :: u32) = of_nat 0" using i(2) by (simp add: add.assoc)
      then show False using i(1) Suc.prems(2) by (subst (asm) of_nat_eq_u32) simp_all
    qed
    moreover have "esi + 1 + of_nat i \<noteq> edi" using Suc.prems(1) [of 0 "Suc i"] i by (auto simp: add.assoc)
    ultimately show ?thesis using True i IH ex by (auto simp: add.assoc)
  next
    case False
    then show ?thesis using IH ex by auto
  qed
qed simp

lemma rep_movsb_std_run:
  assumes "\<And>i j. i < j \<Longrightarrow> j < n \<Longrightarrow> edi - of_nat i \<noteq> esi - of_nat j" "n \<le> 4294967296"
  shows "rep_movsb_std n esi edi m a = (if \<exists>i<n. a = edi - of_nat i then m (esi + (a - edi)) else m a)"
  using assms
proof (induction n arbitrary: esi edi m)
  case (Suc n)
  have IH: "rep_movsb_std n (esi - 1) (edi - 1) (m(edi := m esi)) a
      = (if \<exists>i<n. a = edi - 1 - of_nat i then (m(edi := m esi)) (esi - 1 + (a - (edi - 1))) else (m(edi := m esi)) a)"
    using Suc.prems Suc.prems(1) [of "Suc _" "Suc _"] by (intro Suc.IH) (fastforce simp: diff_diff_eq)+
  have ex: "(\<exists>i<Suc n. a = edi - of_nat i) \<longleftrightarrow> a = edi \<or> (\<exists>i<n. a = edi - 1 - of_nat i)"
    by (subst Ex_less_Suc2) (simp add: diff_diff_eq)
  show ?case
  proof (cases "\<exists>i<n. a = edi - 1 - of_nat i")
    case True
    then obtain i where i: "i < n" "a = edi - 1 - of_nat i" by blast
    have "a \<noteq> edi"
    proof
      assume "a = edi"
      then have "edi - of_nat (Suc i) = edi - of_nat 0" using i(2) by (simp add: diff_diff_eq)
      then have "(of_nat (Suc i) :: u32) = of_nat 0" by (metis diff_left_imp_eq)
      then show False using i(1) Suc.prems(2) by (subst (asm) of_nat_eq_u32) simp_all
    qed
    moreover have "esi - 1 + (a - (edi - 1)) \<noteq> edi" using Suc.prems(1) [of 0 "Suc i"] i by (auto simp: diff_diff_eq)
    moreover have "esi - 1 + (a - (edi - 1)) = esi + (a - edi)" by simp
    ultimately show ?thesis using True IH ex by (simp only: if_True) simp
  next
    case False
    then show ?thesis using IH ex by auto
  qed
qed simp

lemma unat_add_of_nat: "unat (a :: u32) + n < 4294967296 \<Longrightarrow> unat (a + of_nat n) = unat a + n"
  by (simp add: unat_word_ariths)

lemma memmove_apply:
  assumes "unat src + n \<le> 4294967296" "unat dest + n \<le> 4294967296" "n < 2147483648"
  shows "snd (memmove dest src (int n) m) a = (if \<exists>i<n. a = dest + of_nat i then m (src + (a - dest)) else m a)"
proof (cases "dest < src")
  case True
  have "dest + of_nat i \<noteq> src + of_nat j" if "i < j" "j < n" for i j
  proof -
    have "unat dest < unat src" using True by (simp add: word_less_nat_alt)
    then have "unat (dest + of_nat i) < unat (src + of_nat j)" using that assms by (simp add: unat_add_of_nat)
    then show ?thesis by auto
  qed
  from rep_movsb_run [of n dest src m a, OF this] True assms(3) show ?thesis by (simp add: memmove_def Let_def)
next
  case False
  then have le: "unat src \<le> unat dest" by (simp add: word_less_nat_alt)
  have at: "x + of_nat n - 1 - of_nat i = x + of_nat (n - Suc i)" if "i < n" for x :: u32 and i
    using that by (simp add: of_nat_diff)
  have "dest + of_nat n - 1 - of_nat i \<noteq> src + of_nat n - 1 - of_nat j" if "i < j" "j < n" for i j
  proof -
    have "unat (src + of_nat (n - Suc j)) < unat (dest + of_nat (n - Suc i))" using le that assms by (simp add: unat_add_of_nat del: of_nat_diff)
    then show ?thesis using that by (auto simp only: at)
  qed
  moreover have "(\<exists>i<n. a = dest + of_nat n - 1 - of_nat i) \<longleftrightarrow> (\<exists>i<n. a = dest + of_nat i)"
  proof
    assume "\<exists>i<n. a = dest + of_nat n - 1 - of_nat i"
    then obtain i where "i < n" "a = dest + of_nat (n - Suc i)" by (auto simp only: at)
    then show "\<exists>i<n. a = dest + of_nat i" by (intro exI [of _ "n - Suc i"]) simp
  next
    assume "\<exists>i<n. a = dest + of_nat i"
    then obtain i where "i < n" "a = dest + of_nat i" by blast
    then show "\<exists>i<n. a = dest + of_nat n - 1 - of_nat i" by (intro exI [of _ "n - Suc i"]) (simp add: at)
  qed
  ultimately have "rep_movsb_std n (src + of_nat n - 1) (dest + of_nat n - 1) m a
      = (if \<exists>i<n. a = dest + of_nat i then m (src + of_nat n - 1 + (a - (dest + of_nat n - 1))) else m a)"
    using assms(3) by (subst rep_movsb_std_run) simp_all
  moreover have "src + of_nat n - 1 + (a - (dest + of_nat n - 1)) = src + (a - dest)" by simp
  moreover have "snd (memmove dest src (int n) m) = rep_movsb_std n (src + of_nat n - 1) (dest + of_nat n - 1) m"
    using False assms(3) by (simp add: memmove_def Let_def)
  ultimately show ?thesis by (simp only:)
qed


section \<open>The properties\<close>

text \<open>C20: \<open>strcpy\<close> returns exactly when the destination does not lie within the source, behind its first character.
  It may lie below the source and overlap it: the destination then holds the source, and nothing else has changed.\<close>

theorem strcpy_returns:
  assumes "cstr m src cs"
  shows "(if \<exists>i\<in>{1..length cs}. dest = src + of_nat i then strcpy dest src m = None
    else \<exists>m'. strcpy dest src m = Some (dest, m') \<and> cstr m' dest cs
      \<and> (\<forall>a. (\<forall>i\<le>length cs. a \<noteq> dest + of_nat i) \<longrightarrow> m' a = m a))"
proof (cases "\<exists>i\<in>{1..length cs}. dest = src + of_nat i")
  case True
  then obtain d where "d \<in> {1..length cs}" and d: "dest = src + of_nat d" by blast
  then have "0 < d" "d \<le> length cs" by simp_all
  then have "copy_loop src dest m \<noteq> Some r" for r
    using copy_loop_stuck [of src dest m r d] assms d by (auto simp: cstr_iff)
  then show ?thesis using True by (simp add: strcpy_def) (metis option.exhaust)
next
  case False
  then obtain m' where m': "copy_loop src dest m = Some m'" "\<forall>i\<le>length cs. m' (dest + of_nat i) = m (src + of_nat i)"
    "\<forall>a. (\<forall>i\<le>length cs. a \<noteq> dest + of_nat i) \<longrightarrow> m' a = m a"
    using copy_loop_run [OF assms, of dest] by blast
  then have "cstr m' dest cs" using assms by (simp add: cstr_iff)
  then show ?thesis using False m' by (auto simp: strcpy_def)
qed

theorem strcpy_returns_witness:
  "strcpy 101 100 ((\<lambda>_. 0)(100 := 7, 101 := 8)) = None
     \<and> (\<exists>m'. strcpy 99 100 ((\<lambda>_. 0)(100 := 7, 101 := 8)) = Some (99, m') \<and> cstr m' 99 [7, 8])"
proof -
  have s: "cstr ((\<lambda>_. 0)(100 := 7, 101 := 8)) 100 [7, 8]" by simp
  have "{1..length [7, 8 :: u8]} = {1, 2}" by auto
  then show ?thesis using strcpy_returns [OF s, of 101] strcpy_returns [OF s, of 99] by auto
qed

text \<open>C21: \<open>memmove\<close> copies a block to any place, above or below itself, as if through a third place.\<close>

theorem memmove_copies:
  assumes "unat src + n \<le> 4294967296" "unat dest + n \<le> 4294967296" "n < 2147483648"
  shows "snd (memmove dest src (int n) m) = (\<lambda>a. if \<exists>i<n. a = dest + of_nat i then m (src + (a - dest)) else m a)"
  using memmove_apply [OF assms] by blast

theorem memmove_copies_witness:
  "snd (memmove 102 100 (int 4) (\<lambda>a. ucast a)) 104 = 102 \<and> snd (memmove 98 100 (int 4) (\<lambda>a. ucast a)) 100 = 102"
proof -
  have "\<exists>i<4. (104 :: u32) = 102 + of_nat i" "\<exists>i<4. (100 :: u32) = 98 + of_nat i" by (rule exI [of _ 2], simp)+
  then show ?thesis
    using memmove_copies [of 100 4 102 "\<lambda>a. ucast a"] memmove_copies [of 100 4 98 "\<lambda>a. ucast a"] by simp
qed

text \<open>\<open>strcmp\<close> tells whether two strings are equal, and otherwise which comes first in the order of their
  first differing characters; characters are signed, the NUL takes part in the comparison.\<close>

theorem strcmp_order:
  assumes "cstr m cs xs" "cstr m ct ys"
  shows "strcmp cs ct m = Some (if xs = ys then 0 else if (ys @ [0], xs @ [0]) \<in> lexord signed_less then 1 else - 1)"
  using cmp_loop_run [OF assms(2,1)] by (auto simp: strcmp_def)

theorem strcmp_order_witness:
  "strcmp 100 200 ((\<lambda>_. 0)(100 := 7, 200 := 7, 201 := 0x80)) = Some 1"
proof -
  have "cstr ((\<lambda>_. 0)(100 := 7, 200 := 7, 201 := 0x80)) 100 [7]"
    "cstr ((\<lambda>_. 0)(100 := 7, 200 := 7, 201 := 0x80)) 200 [7, 0x80]" by simp_all
  from strcmp_order [OF this] show ?thesis by (simp add: signed_less_def)
qed

end
