(* ===== verification/String_Search.thy ===== *)
theory String_Search
  imports Kernel_String "HOL-Library.Sublist"
begin

text \<open>
  The searching routines of \<open>include/string.h\<close> against their meaning on lists: \<open>strstr\<close> finds the first
  occurrence, and the calls of \<open>strtok\<close> go through the tokens of a string.
\<close>

section \<open>Searching for a string\<close>

lemma repe_cmpsb_run:
  assumes "cstr m esi xs" "cstr m edi ys" "ys = [] \<Longrightarrow> fst fl"
  shows "\<exists>esi' edi' zf lt. repe_cmpsb (length ys) m esi edi fl = (esi', edi', zf, lt) \<and> (zf \<longleftrightarrow> prefix ys xs)
    \<and> (\<not> zf \<longrightarrow> (m (esi' - 1) = 0 \<longleftrightarrow> strict_prefix xs ys))"
  using assms
proof (induction ys arbitrary: esi edi xs fl)
  case Nil
  then show ?case by (intro exI [of _ esi] exI [of _ edi] exI [of _ True] exI [of _ "snd fl"]) (cases fl, simp)
next
  case (Cons y ys)
  show ?case
  proof (cases xs)
    case Nil
    then show ?thesis using Cons.prems by (auto simp: strict_prefix_def)
  next
    case (Cons x xs')
    show ?thesis
    proof (cases "x = y")
      case True
      then show ?thesis using Cons Cons.prems Cons.IH [of "esi + 1" xs' "edi + 1" "(True, False)"] by (auto simp: strict_prefix_def)
    next
      case False
      then show ?thesis using Cons Cons.prems by (auto simp: strict_prefix_def)
    qed
  qed
qed

definition first_at :: "'a list \<Rightarrow> 'a list \<Rightarrow> nat \<Rightarrow> bool" where
  "first_at ys xs k \<longleftrightarrow> prefix ys (drop k xs) \<and> (\<forall>i<k. \<not> prefix ys (drop i xs))"

lemma sublist_drop: "sublist ys xs \<longleftrightarrow> (\<exists>k\<le>length xs. prefix ys (drop k xs))"
proof
  assume "sublist ys xs"
  then obtain us vs where "xs = us @ ys @ vs" by (auto simp: sublist_def)
  then have "prefix ys (drop (length us) xs)" "length us \<le> length xs" by simp_all
  then show "\<exists>k\<le>length xs. prefix ys (drop k xs)" by blast
next
  assume "\<exists>k\<le>length xs. prefix ys (drop k xs)"
  then show "sublist ys xs" by (meson sublist_order.order_trans prefix_imp_sublist sublist_drop)
qed

lemma str_loop_run:
  assumes "cstr m ct ys" "cstr m s xs" "length ys < 4294967295"
  shows "\<exists>p. str_loop ct (of_nat (length ys)) s m = Some p
    \<and> (if sublist ys xs then \<exists>k\<le>length xs. first_at ys xs k \<and> p = s + of_nat k else p = 0)"
  using assms(2)
proof (induction xs arbitrary: s)
  case Nil
  obtain esi' edi' zf lt where r: "repe_cmpsb (length ys) m s ct (of_nat (length ys) = (0 :: u32), False) = (esi', edi', zf, lt)"
    "zf \<longleftrightarrow> prefix ys []" "\<not> zf \<longrightarrow> (m (esi' - 1) = 0 \<longleftrightarrow> strict_prefix [] ys)"
    using repe_cmpsb_run [OF Nil assms(1), of "(of_nat (length ys) = (0 :: u32), False)"] by auto
  then show ?case using assms(3) by (subst str_loop.simps) (auto simp: first_at_def strict_prefix_def)
next
  case (Cons x xs)
  obtain esi' edi' zf lt where r: "repe_cmpsb (length ys) m s ct (of_nat (length ys) = (0 :: u32), False) = (esi', edi', zf, lt)"
    "zf \<longleftrightarrow> prefix ys (x # xs)" "\<not> zf \<longrightarrow> (m (esi' - 1) = 0 \<longleftrightarrow> strict_prefix (x # xs) ys)"
    using repe_cmpsb_run [OF Cons.prems assms(1), of "(of_nat (length ys) = (0 :: u32), False)"] by auto
  have st: "str_loop ct (of_nat (length ys)) s m = (if zf then Some s
      else if m (esi' - 1) \<noteq> 0 then str_loop ct (of_nat (length ys)) (s + 1) m else Some 0)"
    using r(1) assms(3) by (subst str_loop.simps) simp
  consider (here) "prefix ys (x # xs)" | (over) "\<not> prefix ys (x # xs)" "strict_prefix (x # xs) ys"
    | (on) "\<not> prefix ys (x # xs)" "\<not> strict_prefix (x # xs) ys" by blast
  then show ?case
  proof cases
    case here
    then show ?thesis using st r(2) by (auto simp: first_at_def)
  next
    case over
    then have "length (x # xs) < length ys" using prefix_length_less by blast
    then have "\<not> sublist ys (x # xs)" using sublist_length_le by fastforce
    then show ?thesis using st r(2,3) over by simp
  next
    case on
    obtain p where p: "str_loop ct (of_nat (length ys)) (s + 1) m = Some p"
      "if sublist ys xs then \<exists>k\<le>length xs. first_at ys xs k \<and> p = s + 1 + of_nat k else p = 0"
      using Cons.IH [of "s + 1"] Cons.prems by auto
    have "sublist ys (x # xs) \<longleftrightarrow> sublist ys xs" using on(1) by (simp add: sublist_Cons_right)
    moreover have "first_at ys (x # xs) (Suc k)" if "first_at ys xs k" for k
      using that on(1) unfolding first_at_def by (auto simp: less_Suc_eq_0_disj)
    ultimately have "if sublist ys (x # xs) then \<exists>k\<le>length (x # xs). first_at ys (x # xs) k \<and> p = s + of_nat k else p = 0"
      using p(2) by (fastforce simp: add.assoc split: if_splits)
    moreover have "str_loop ct (of_nat (length ys)) s m = Some p" using st p(1) r(2,3) on by simp
    ultimately show ?thesis by blast
  qed
qed


section \<open>Tokens\<close>

text \<open>The maximal pieces of a list without delimiters, and a caller of \<open>strtok\<close> that collects every token.\<close>

function tokens :: "'a set \<Rightarrow> 'a list \<Rightarrow> 'a list list" where
  "tokens D cs = (case dropWhile (\<lambda>c. c \<in> D) cs of [] \<Rightarrow> []
     | r \<Rightarrow> takeWhile (\<lambda>c. c \<notin> D) r # tokens D (dropWhile (\<lambda>c. c \<notin> D) r))"
  by pat_completeness auto

termination
proof (relation "measure (\<lambda>(_, cs). length cs)", simp)
  fix D and cs r :: "'a list" and x xs
  assume "dropWhile (\<lambda>c. c \<in> D) cs = x # xs"
  then have "x \<notin> D" "length (x # xs) \<le> length cs" using hd_dropWhile [of "\<lambda>c. c \<in> D" cs] length_dropWhile_le [of "\<lambda>c. c \<in> D" cs] by auto
  then show "((D, dropWhile (\<lambda>c. c \<notin> D) (x # xs)), D, cs) \<in> measure (\<lambda>(_, cs). length cs)"
    using length_dropWhile_le [of "\<lambda>c. c \<notin> D" xs] by simp
qed

declare tokens.simps [simp del]

partial_function (option) strtok_all :: "u32 \<Rightarrow> u32 \<Rightarrow> u32 \<Rightarrow> segment \<Rightarrow> (u32 list \<times> segment) option" where
  "strtok_all s ct tok m = do {
     (r, tok, m) \<leftarrow> strtok s ct tok m;
     if r = 0 then Some ([], m) else do { (rs, m) \<leftarrow> strtok_all 0 ct tok m; Some (r # rs, m) }
   }"

lemma strtok_first: "s \<noteq> 0 \<Longrightarrow> strtok s ct tok m = strtok 0 ct s m"
  by (simp add: strtok_def)

lemma strtok_run:
  assumes "cstr m ct ds" "length ds < 4294967295" "ds \<noteq> []" "cstr m s cs" "\<And>i. i \<le> length cs \<Longrightarrow> s + of_nat i \<noteq> 0"
  defines "k \<equiv> length (takeWhile (\<lambda>c. c \<in> set ds) cs)"
  defines "t \<equiv> takeWhile (\<lambda>c. c \<notin> set ds) (drop k cs)"
  shows "strtok 0 ct s m = Some (if k = length cs then (0, 0, m)
    else if k + length t = length cs then (s + of_nat k, 0, m)
    else (s + of_nat k, s + of_nat (k + length t) + 1, m(s + of_nat (k + length t) := 0)))"
proof -
  have s: "s \<noteq> 0" using assms(5) [of 0] by simp
  have edx: "set_len m ct \<noteq> 0" using assms(2,3) of_nat_eq_u32 [of "length ds" 0] by (simp add: set_len_cstr [OF assms(1)])
  have k: "k \<le> length cs" by (simp add: k_def length_takeWhile_le)
  note first = spn_loop_cstr [OF assms(1,2,4), of True, simplified, folded k_def, simplified Let_def]
  show ?thesis
  proof (cases "k = length cs")
    case True
    then show ?thesis using s edx first by (simp add: strtok_def)
  next
    case False
    then have lt: "k < length cs" using k by simp
    have dr: "cstr m (s + of_nat k) (drop k cs)" by (rule cstr_drop [OF assms(4) k])
    have nz: "m (s + of_nat k) \<noteq> 0" using assms(4) lt by (simp add: cstr_iff)
    have second: "spn_loop False ct (set_len m ct) (s + of_nat k) m
        = Some (length t = length cs - k, s + of_nat (k + length t) + 1)"
      using spn_loop_cstr [OF assms(1,2) dr, of False] by (simp add: t_def Let_def add.assoc)
    have tl: "length t \<le> length cs - k" unfolding t_def by (metis length_takeWhile_le length_drop)
    show ?thesis
    proof (cases "k + length t = length cs")
      case True
      then have "length t = length cs - k" by simp
      then show ?thesis using True False s edx first second nz by (simp add: strtok_def Let_def)
    next
      case other: False
      then have "m (s + of_nat (k + length t)) \<noteq> 0" using assms(4) tl lt by (simp add: cstr_iff del: of_nat_add)
      moreover have "length t > 0"
      proof -
        have "cs ! k \<notin> set ds" using lt nth_length_takeWhile [of "\<lambda>c. c \<in> set ds" cs] by (simp add: k_def)
        then show ?thesis using lt by (cases "drop k cs") (auto simp: t_def hd_drop_conv_nth [symmetric])
      qed
      moreover have "s + of_nat k \<noteq> s + of_nat (k + length t)"
        using \<open>length t > 0\<close> tl lt cstr_length [OF assms(4)] of_nat_eq_u32 [of k "k + length t"] by (simp del: of_nat_add)
      moreover have "length t \<noteq> length cs - k" using other lt by simp
      ultimately show ?thesis using False other s edx first second nz
        by (simp add: strtok_def Let_def del: of_nat_add)
    qed
  qed
qed

lemma tokens_at:
  fixes D :: "'a set" and cs :: "'a list"
  defines "k \<equiv> length (takeWhile (\<lambda>c. c \<in> D) cs)"
  defines "t \<equiv> takeWhile (\<lambda>c. c \<notin> D) (drop k cs)"
  shows "tokens D cs = (if k = length cs then [] else t # tokens D (drop (k + length t) cs))"
proof (cases "k = length cs")
  case True
  then have "dropWhile (\<lambda>c. c \<in> D) cs = []" by (simp only: dropWhile_eq_drop k_def [symmetric]) simp
  then show ?thesis using True by (subst tokens.simps) (simp only: list.case, simp)
next
  case False
  then have "k < length cs" by (simp add: k_def length_takeWhile_le le_neq_implies_less)
  moreover have "dropWhile (\<lambda>c. c \<in> D) cs = drop k cs" by (simp add: dropWhile_eq_drop k_def)
  moreover have "dropWhile (\<lambda>c. c \<notin> D) (drop k cs) = drop (k + length t) cs"
    by (simp add: dropWhile_eq_drop t_def add.commute)
  moreover obtain x xs where "drop k cs = x # xs" using \<open>k < length cs\<close> by (cases "drop k cs") simp_all
  ultimately show ?thesis by (subst tokens.simps) (simp add: t_def)
qed

lemma tokens_skip: "c \<in> D \<Longrightarrow> tokens D (c # cs) = tokens D cs"
  by (subst (1 2) tokens.simps) simp

lemma addr_neq: "i \<noteq> j \<Longrightarrow> i < 4294967296 \<Longrightarrow> j < 4294967296 \<Longrightarrow> (s :: u32) + of_nat i \<noteq> s + of_nat j"
  by (simp add: of_nat_eq_u32)

lemma strtok_all_run:
  assumes "cstr m ct ds" "length ds < 4294967295" "ds \<noteq> []" "cstr m s cs" "\<And>i. i \<le> length cs \<Longrightarrow> s + of_nat i \<noteq> 0"
    "\<And>i j. i < length cs \<Longrightarrow> j \<le> length ds \<Longrightarrow> s + of_nat i \<noteq> ct + of_nat j"
  shows "\<exists>rs m'. strtok_all 0 ct s m = Some (rs, m') \<and> list_all2 (cstr m') rs (tokens (set ds) cs)
    \<and> (\<forall>a. (\<forall>i<length cs. a \<noteq> s + of_nat i) \<longrightarrow> m' a = m a)"
  using assms(1,4-)
proof (induction "length cs" arbitrary: m s cs rule: less_induct)
  case less
  define k where "k = length (takeWhile (\<lambda>c. c \<in> set ds) cs)"
  define t where "t = takeWhile (\<lambda>c. c \<notin> set ds) (drop k cs)"
  define j where "j = k + length t"
  note run = strtok_run [OF less.prems(1) assms(2,3) less.prems(2,3), folded k_def, folded t_def, folded j_def]
  have toks: "tokens (set ds) cs = (if k = length cs then [] else t # tokens (set ds) (drop j cs))"
    unfolding k_def t_def j_def by (rule tokens_at)
  have len: "length cs < 4294967296" by (rule cstr_length [OF less.prems(2)])
  have k: "k \<le> length cs" by (simp add: k_def length_takeWhile_le)
  have tl: "length t \<le> length cs - k" unfolding t_def by (metis length_takeWhile_le length_drop)
  then have j: "k \<le> j" "j \<le> length cs" using k by (simp_all add: j_def)
  have sk: "s + of_nat i \<noteq> 0" if "i \<le> length cs" for i using less.prems(3) that by blast
  have tok_at: "cstr m' (s + of_nat k) t"
    if "\<And>i. k \<le> i \<Longrightarrow> i < j \<Longrightarrow> m' (s + of_nat i) = m (s + of_nat i)" "m' (s + of_nat j) = 0" for m'
    unfolding cstr_iff
  proof (intro conjI allI impI)
    fix i assume i: "i < length t"
    have "t ! i = cs ! (k + i)" using i k by (simp add: t_def takeWhile_nth)
    moreover have "m (s + of_nat (k + i)) = cs ! (k + i) \<and> cs ! (k + i) \<noteq> 0"
      using less.prems(2) i j by (simp add: cstr_iff j_def del: of_nat_add)
    ultimately show "m' (s + of_nat k + of_nat i) = t ! i" "t ! i \<noteq> 0"
      using that(1) [of "k + i"] i by (simp_all add: j_def add.assoc)
  next
    show "m' (s + of_nat k + of_nat (length t)) = 0" using that(2) by (simp add: j_def add.assoc)
  qed
  show ?case
  proof (cases "k = length cs")
    case True
    then show ?thesis using run toks by (subst strtok_all.simps) simp
  next
    case False
    then have lt: "k < length cs" using k by simp
    show ?thesis
    proof (cases "j = length cs")
      case True
      have "cstr m (s + of_nat k) t" using tok_at [of m] True less.prems(2) by (simp add: cstr_iff)
      moreover have "tokens (set ds) (drop j cs) = []" using True by (subst tokens.simps) simp
      moreover have "strtok_all 0 ct 0 m = Some ([], m)" by (subst strtok_all.simps) (simp add: strtok_def)
      ultimately show ?thesis using run toks True False sk [OF k] by (subst strtok_all.simps) simp
    next
      case other: False
      then have jl: "j < length cs" using j by simp
      let ?m = "m(s + of_nat j := 0)" and ?s = "s + of_nat (Suc j)"
      have ds: "cstr ?m ct ds" 
      proof (rule cstr_cong [OF less.prems(1)])
        show "?m (ct + of_nat i) = m (ct + of_nat i)" if "i \<le> length ds" for i
          using less.prems(4) [OF jl that] by (simp add: eq_commute [of "ct + of_nat i"])
      qed
      have cs: "cstr ?m ?s (drop (Suc j) cs)"
      proof (rule cstr_cong)
        show "cstr m ?s (drop (Suc j) cs)" using cstr_drop [OF less.prems(2), of "Suc j"] jl by simp
        fix i assume "i \<le> length (drop (Suc j) cs)"
        then have "s + of_nat (Suc j + i) \<noteq> s + of_nat j" using len jl by (intro addr_neq) simp_all
        then show "?m (?s + of_nat i) = m (?s + of_nat i)" by (simp add: add.assoc)
      qed
      have "\<exists>rs m'. strtok_all 0 ct ?s ?m = Some (rs, m') \<and> list_all2 (cstr m') rs (tokens (set ds) (drop (Suc j) cs))
          \<and> (\<forall>a. (\<forall>i<length (drop (Suc j) cs). a \<noteq> ?s + of_nat i) \<longrightarrow> m' a = ?m a)"
      proof (rule less.hyps [OF _ ds cs])
        show "length (drop (Suc j) cs) < length cs" using jl by simp
        show "?s + of_nat i \<noteq> 0" if "i \<le> length (drop (Suc j) cs)" for i using sk [of "Suc j + i"] that jl by (simp add: add.assoc)
        show "?s + of_nat i \<noteq> ct + of_nat l" if "i < length (drop (Suc j) cs)" "l \<le> length ds" for i l
          using less.prems(4) [of "Suc j + i" l] that by (simp add: add.assoc)
      qed
      then obtain rs m' where r: "strtok_all 0 ct ?s ?m = Some (rs, m')" "list_all2 (cstr m') rs (tokens (set ds) (drop (Suc j) cs))"
        "\<And>a. (\<And>i. i < length (drop (Suc j) cs) \<Longrightarrow> a \<noteq> ?s + of_nat i) \<Longrightarrow> m' a = ?m a" by blast
      have before: "m' (s + of_nat i) = ?m (s + of_nat i)" if "i \<le> j" for i
      proof (rule r(3))
        fix l assume "l < length (drop (Suc j) cs)"
        then have "s + of_nat i \<noteq> s + of_nat (Suc j + l)" using that len by (intro addr_neq) simp_all
        then show "s + of_nat i \<noteq> ?s + of_nat l" by (simp add: add.assoc)
      qed
      have "cstr m' (s + of_nat k) t"
      proof (rule tok_at)
        fix i assume "k \<le> i" "i < j"
        then show "m' (s + of_nat i) = m (s + of_nat i)" using before [of i] addr_neq [of i j s] len jl by simp
      qed (simp add: before)
      moreover have "tokens (set ds) (drop j cs) = tokens (set ds) (drop (Suc j) cs)"
      proof -
        have "length t < length (drop k cs)" using jl by (simp add: j_def)
        then have "drop k cs ! length t \<in> set ds" unfolding t_def using nth_length_takeWhile by blast
        then have "cs ! j \<in> set ds" using k by (simp add: j_def)
        then show ?thesis using tokens_skip by (simp add: Cons_nth_drop_Suc [OF jl, symmetric])
      qed
      moreover have "m' a = m a" if "\<forall>i<length cs. a \<noteq> s + of_nat i" for a
      proof -
        have "a \<noteq> ?s + of_nat i" if "i < length (drop (Suc j) cs)" for i
          using \<open>\<forall>i<length cs. a \<noteq> s + of_nat i\<close> [rule_format, of "Suc j + i"] that by (simp add: add.assoc)
        then show ?thesis using r(3) [of a] that jl by simp
      qed
      moreover have "strtok_all 0 ct s m = Some ((s + of_nat k) # rs, m')"
        using run other False sk [OF k] r(1) by (subst strtok_all.simps) (simp add: add.commute [of 1] add.assoc)
      ultimately show ?thesis using r(2) toks False by simp
    qed
  qed
qed


section \<open>The properties\<close>

text \<open>C22: \<open>strstr\<close> returns the first place where the one string is part of the other, or \<open>NULL\<close>.\<close>

theorem strstr_first:
  assumes "cstr m cs xs" "cstr m ct ys" "length ys < 4294967295"
  shows "\<exists>p. strstr cs ct m = Some p
    \<and> (if sublist ys xs then \<exists>us vs. xs = us @ ys @ vs \<and> p = cs + of_nat (length us)
          \<and> (\<forall>us' vs'. xs = us' @ ys @ vs' \<longrightarrow> length us \<le> length us')
       else p = 0)"
proof -
  obtain p where p: "strstr cs ct m = Some p"
    "if sublist ys xs then \<exists>k\<le>length xs. first_at ys xs k \<and> p = cs + of_nat k else p = 0"
    using str_loop_run [OF assms(2,1,3)] assms(2,3) by (auto simp: strstr_def set_len_cstr)
  have "\<exists>us vs. xs = us @ ys @ vs \<and> p = cs + of_nat (length us) \<and> (\<forall>us' vs'. xs = us' @ ys @ vs' \<longrightarrow> length us \<le> length us')"
    if k: "k \<le> length xs" "first_at ys xs k" "p = cs + of_nat k" for k
  proof -
    obtain vs where "drop k xs = ys @ vs" using k(2) by (auto simp: first_at_def prefix_def)
    then have "xs = take k xs @ ys @ vs" by (metis append_take_drop_id)
    moreover have "k \<le> length us'" if "xs = us' @ ys @ vs'" for us' vs'
    proof (rule ccontr)
      assume "\<not> k \<le> length us'"
      moreover have "prefix ys (drop (length us') xs)" using that by simp
      ultimately show False using \<open>first_at ys xs k\<close> by (simp add: first_at_def)
    qed
    ultimately show ?thesis using k(1,3) by (intro exI [of _ "take k xs"] exI [of _ vs]) (simp add: min_absorb2)
  qed
  then show ?thesis using p by (auto split: if_splits)
qed

theorem strstr_first_witness:
  "strstr 100 200 ((\<lambda>_. 0)(100 := 1, 101 := 1, 102 := 2, 200 := 1, 201 := 2)) = Some 101"
proof -
  let ?m = "(\<lambda>_. 0)(100 := 1, 101 := 1, 102 := 2, 200 := 1, 201 := 2) :: segment"
  have s: "cstr ?m 100 [1, 1, 2]" "cstr ?m 200 [1, 2]" by simp_all
  have "sublist [1, 2] [1, 1, 2 :: u8]" by (simp add: sublist_Cons_right)
  then obtain p us vs where p: "strstr 100 200 ?m = Some p" "[1, 1, 2] = us @ [1, 2 :: u8] @ vs" "p = 100 + of_nat (length us)"
    using strstr_first [OF s] by auto
  then have "length us = 1" by (cases us; cases "tl us") auto
  then show ?thesis using p by simp
qed

text \<open>C23: The successive calls of \<open>strtok\<close> on a string return its tokens, the maximal pieces without
  delimiters, in order and until there are no more; each is a string of its own in the memory that the calls
  leave, and they store nothing outside the string.\<close>

theorem strtok_splits:
  assumes "cstr m ct ds" "length ds < 4294967295" "ds \<noteq> []" "cstr m s cs" "\<And>i. i \<le> length cs \<Longrightarrow> s + of_nat i \<noteq> 0"
    "\<And>i j. i < length cs \<Longrightarrow> j \<le> length ds \<Longrightarrow> s + of_nat i \<noteq> ct + of_nat j"
  shows "\<exists>rs m'. strtok_all s ct tok m = Some (rs, m') \<and> list_all2 (cstr m') rs (tokens (set ds) cs)
    \<and> (\<forall>a. (\<forall>i<length cs. a \<noteq> s + of_nat i) \<longrightarrow> m' a = m a)"
proof -
  have "s \<noteq> 0" using assms(5) [of 0] by simp
  then have "strtok_all s ct tok m = strtok_all 0 ct s m" by (subst (1 2) strtok_all.simps) (simp add: strtok_first)
  then show ?thesis using strtok_all_run [OF assms] by simp
qed

theorem strtok_splits_witness:
  "\<exists>r1 r2 m'. strtok_all 100 200 0 ((\<lambda>_. 0)(100 := 7, 101 := 32, 102 := 32, 103 := 8, 200 := 32)) = Some ([r1, r2], m')
     \<and> cstr m' r1 [7] \<and> cstr m' r2 [8]"
proof -
  let ?m = "(\<lambda>_. 0)(100 := 7, 101 := 32, 102 := 32, 103 := 8, 200 := 32) :: segment"
  have "cstr ?m 200 [32]" "cstr ?m 100 [7, 32, 32, 8]" by simp_all
  moreover have "(100 :: u32) + of_nat i \<noteq> 0" if "i \<le> length [7, 32, 32, 8 :: u8]" for i
  proof -
    have "unat ((100 :: u32) + of_nat i) = 100 + i" using that by (simp add: unat_add_of_nat)
    then show ?thesis by (auto simp flip: unat_gt_0)
  qed
  moreover have "(100 :: u32) + of_nat i \<noteq> 200 + of_nat j" if "i < length [7, 32, 32, 8 :: u8]" "j \<le> length [32 :: u8]" for i j
  proof -
    have "unat ((100 :: u32) + of_nat i) = 100 + i" "unat ((200 :: u32) + of_nat j) = 200 + j"
      using that by (simp_all add: unat_add_of_nat)
    moreover have "100 + i \<noteq> 200 + j" using that(1) by simp
    ultimately show ?thesis by metis
  qed
  ultimately obtain rs m' where "strtok_all 100 200 0 ?m = Some (rs, m')" "list_all2 (cstr m') rs (tokens (set [32]) [7, 32, 32, 8])"
    using strtok_splits [of ?m 200 "[32]" 100 "[7, 32, 32, 8]" 0] by auto
  moreover have "tokens (set [32]) [7, 32, 32, 8 :: u8] = [[7], [8]]" by (simp add: tokens.simps)
  ultimately show ?thesis by (auto simp: list_all2_Cons2)
qed
end
