(* ===== verification/Demand.thy ===== *)
theory Demand
  imports Paging Inode Pipe
begin

text \<open>
  Demand loading (\<open>share_page\<close> and \<open>do_no_page\<close> of \<open>mm/memory.c\<close>): a page fault on a page that is not present
  maps a page of another task that runs the same program, or loads the page from the program's file, or
  supplies an empty page. \<open>segment_byte\<close> is what an access to the data segment of the current task sees,
  the fault included.
\<close>

section \<open>Sharing\<close>

text \<open>\<open>for (p = &LAST_TASK; p > &FIRST_TASK; --p)\<close>, from \<open>task[n]\<close> downwards.\<close>

primrec share_from :: "nat \<Rightarrow> addr \<Rightarrow> 'a fs_state_scheme \<Rightarrow> (share \<times> 'a fs_state_scheme) option" where
  "share_from 0 address s = Some (Not_shared, s)"
| "share_from (Suc n) address s =
     (let p = task s (Suc n) in
      if p = 0 \<or> current s = p \<or> t_executable (tasks s p) \<noteq> t_executable (cur s) then share_from n address s
      else do {
        (r, s) \<leftarrow> try_to_share address (t_start_code (tasks s p)) (t_start_code (cur s)) s;
        if r = Not_shared then share_from n address s else Some (r, s) })"

definition share_page :: "addr \<Rightarrow> 'a fs_state_scheme \<Rightarrow> (share \<times> 'a fs_state_scheme) option" where
  "share_page address s = (case t_executable (cur s) of
     None \<Rightarrow> Some (Not_shared, s)
   | Some i \<Rightarrow> if i_count (inode_table s i) < 2 then Some (Not_shared, s) else share_from (NR_TASKS - 1) address s)"

section \<open>Loading\<close>

text \<open>\<open>for (i=0; i<4; block++,i++) nr[i] = bmap(current->executable,block)\<close>\<close>

primrec block_numbers :: "nat \<Rightarrow> nat \<Rightarrow> int \<Rightarrow> 'a fs_state_scheme \<Rightarrow> (int list \<times> 'a fs_state_scheme) option" where
  "block_numbers 0 i block s = Some ([], s)"
| "block_numbers (Suc n) i block s = do {
     (b, s) \<leftarrow> bmap i block s;
     (bs, s) \<leftarrow> block_numbers n i (block + 1) s;
     Some (b # bs, s) }"

text \<open>\<open>while (i-- > 0) { tmp--; *(char *)tmp = 0; }\<close>\<close>

primrec clear_down :: "nat \<Rightarrow> addr \<Rightarrow> 'a mm_state_scheme \<Rightarrow> 'a mm_state_scheme" where
  "clear_down 0 tmp s = s"
| "clear_down (Suc n) tmp s = clear_down n (tmp - 1) (put_byte 0 (tmp - 1) s)"

definition load_page :: "nat \<Rightarrow> addr \<Rightarrow> u32 \<Rightarrow> u32 \<Rightarrow> 'a fs_state_scheme \<Rightarrow> 'a fs_state_scheme option" where
  "load_page i page tmp end_data s = do {
     (nr, s) \<leftarrow> block_numbers 4 i (1 + uint tmp div int BLOCK_SIZE) s;
     s \<leftarrow> bread_page page (uint (i_dev (inode_table s i))) nr s;
     Some (clear_down (nat (sint (tmp + 4096 - end_data))) (page + 4096) s) }"

definition do_no_page :: "u32 \<Rightarrow> addr \<Rightarrow> 'a fs_state_scheme \<Rightarrow> (fault \<times> 'a fs_state_scheme) option" where
  "do_no_page error_code address s =
     (let address = address AND 0xfffff000; tmp = address - t_start_code (cur s) in
      case t_executable (cur s) of
        None \<Rightarrow> get_empty_page address s
      | Some i \<Rightarrow>
          if tmp \<ge> t_end_data (cur s) then get_empty_page address s
          else do {
            (r, s) \<leftarrow> share_page tmp s;
            if r = Shared then Some (Resume, s)
            else if r = Share_oom then Some (Oom, s)
            else
              let (page, s) = get_free_page s in
              if page = 0 then Some (Oom, s)
              else do {
                s \<leftarrow> load_page i page tmp (t_end_data (cur s)) s;
                let (r, s) = put_page page address s;
                if r \<noteq> 0 then Some (Resume, s)
                else do { s \<leftarrow> free_page page s; Some (Oom, s) } } })"

section \<open>The data segment of a task\<close>

definition mapped_byte :: "addr \<Rightarrow> 'a mm_state_scheme \<Rightarrow> u8 option" where
  "mapped_byte a s =
     (let e = walk s a in if 1 AND e = 0 then None else Some (get_byte (page_of e + (a AND 0xfff)) s))"

text \<open>The byte at an address of the segment: that of the page which is present, or of the page that the fault
  brings. A fault that kills the task brings nothing (0).\<close>

definition segment_byte :: "'a fs_state_scheme \<Rightarrow> u32 \<Rightarrow> u8" where
  "segment_byte s a =
     (let a = get_base (t_ldt (cur s) 2) + a in
      case mapped_byte a s of
        Some v \<Rightarrow> v
      | None \<Rightarrow> (case do_no_page 4 a s of
          Some (Resume, s) \<Rightarrow> (case mapped_byte a s of Some v \<Rightarrow> v | None \<Rightarrow> 0)
        | _ \<Rightarrow> 0))"

end
