(* ===== verification/Exec.thy ===== *)
theory Exec
  imports Demand Open Kernel_String
begin

text \<open>
  Program execution (\<open>fs/exec.c\<close>). The strings of the arguments and the environment are copied to pages of
  the kernel, the old program is given up, the pages are mapped at the top of the new data segment, and the
  pointer tables are built below them.

  Outside this theory the data segment \<open>fs_mem\<close> is kept apart from physical memory; here, when the segment
  registers are loaded again, it becomes what the page tables and demand loading make it
  (\<open>segment_byte\<close>). While \<open>fs\<close> selects the kernel, \<open>fs_mem\<close> is the kernel's data. The local array \<open>page\<close> is
  a function; beyond its 32 entries the stack of the kernel has no defined contents, and a call that goes
  there is \<open>None\<close>.
\<close>

abbreviation (input) MAX_ARG_PAGES :: nat where "MAX_ARG_PAGES \<equiv> 32"
abbreviation (input) PAGE_SIZE :: u32 where "PAGE_SIZE \<equiv> 4096"

section \<open>The header of an executable (\<open>include/a.out.h\<close>)\<close>

record exec =
  a_magic :: u32
  a_text :: u32
  a_data :: u32
  a_bss :: u32
  a_syms :: u32
  a_entry :: u32
  a_trsize :: u32
  a_drsize :: u32

definition get_exec :: "bytes \<Rightarrow> exec" where
  "get_exec d = \<lparr>a_magic = get_u32 0 d, a_text = get_u32 4 d, a_data = get_u32 8 d, a_bss = get_u32 12 d,
     a_syms = get_u32 16 d, a_entry = get_u32 20 d, a_trsize = get_u32 24 d, a_drsize = get_u32 28 d\<rparr>"

definition ZMAGIC :: u32 where "ZMAGIC = 0x10B"

definition N_MAGIC :: "exec \<Rightarrow> u32" where "N_MAGIC x = a_magic x"

definition N_HDROFF :: "exec \<Rightarrow> u32" where "N_HDROFF x = 1024 - 32"

definition N_TXTOFF :: "exec \<Rightarrow> u32" where
  "N_TXTOFF x = (if N_MAGIC x = ZMAGIC then N_HDROFF x + 32 else 32)"

section \<open>Arguments\<close>

text \<open>\<open>while (get_fs_long(tmp++)) i++\<close>\<close>

partial_function (option) count_from :: "'a sched_state_scheme \<Rightarrow> u32 \<Rightarrow> int \<Rightarrow> int option" where
  "count_from s tmp i = (if get_fs_long tmp s \<noteq> 0 then count_from s (tmp + 4) (i + 1) else Some i)"

definition count_args :: "u32 \<Rightarrow> 'a sched_state_scheme \<Rightarrow> int option" where
  "count_args argv s = (if argv \<noteq> 0 then count_from s argv 0 else Some 0)"

text \<open>\<open>do { len++; } while (get_fs_byte(tmp++))\<close>: \<open>tmp\<close> behind the NUL, and \<open>len\<close>.\<close>

partial_function (option) str_end :: "segment \<Rightarrow> u32 \<Rightarrow> nat \<Rightarrow> (u32 \<times> nat) option" where
  "str_end m tmp len = (if m tmp \<noteq> 0 then str_end m (tmp + 1) (len + 1) else Some (tmp + 1, len + 1))"

text \<open>The variables \<open>p\<close>, \<open>offset\<close>, \<open>pag\<close> and \<open>page\<close> of \<open>copy_strings\<close>. \<open>p - len < 0\<close> compares an unsigned number
  and is never true. The result \<open>False\<close> of \<open>copy_bytes\<close> is the \<open>return 0\<close> when no page is free.\<close>

record arg_vars =
  ar_p :: u32
  ar_offset :: int
  ar_pag :: addr
  ar_page :: "nat \<Rightarrow> addr"

definition next_offset ::
  "arg_vars \<Rightarrow> 'a mm_state_scheme \<Rightarrow> (bool \<times> arg_vars \<times> 'a mm_state_scheme) option" where
  "next_offset v s =
     (let v = v\<lparr>ar_offset := ar_offset v - 1\<rparr> in
      if ar_offset v < 0 then
        let v = v\<lparr>ar_offset := uint (ar_p v mod PAGE_SIZE)\<rparr>; k = unat (ar_p v div PAGE_SIZE)
        in if k \<ge> MAX_ARG_PAGES then None
        else if ar_page v k \<noteq> 0 then Some (True, v\<lparr>ar_pag := ar_page v k\<rparr>, s)
        else let (pag, s) = get_free_page s
             in Some (pag \<noteq> 0, v\<lparr>ar_pag := pag, ar_page := (ar_page v)(k := pag)\<rparr>, s)
      else Some (True, v, s))"

primrec copy_bytes ::
  "nat \<Rightarrow> segment \<Rightarrow> u32 \<Rightarrow> arg_vars \<Rightarrow> 'a mm_state_scheme \<Rightarrow> (bool \<times> arg_vars \<times> 'a mm_state_scheme) option" where
  "copy_bytes 0 m tmp v s = Some (True, v, s)"
| "copy_bytes (Suc len) m tmp v s = do {
     (ok, v, s) \<leftarrow> next_offset (v\<lparr>ar_p := ar_p v - 1\<rparr>) s;
     if \<not> ok then Some (False, v, s)
     else copy_bytes len m (tmp - 1) v (put_byte (m (tmp - 1)) (ar_pag v + word_of_int (ar_offset v)) s) }"

text \<open>\<open>argv\<close> gives the pointers, and \<open>m\<close> is the segment of the strings. A \<open>NULL\<close> pointer is a panic.\<close>

primrec copy_args ::
  "nat \<Rightarrow> (nat \<Rightarrow> u32) \<Rightarrow> segment \<Rightarrow> arg_vars \<Rightarrow> 'a mm_state_scheme \<Rightarrow> (bool \<times> arg_vars \<times> 'a mm_state_scheme) option" where
  "copy_args 0 argv m v s = Some (True, v, s)"
| "copy_args (Suc n) argv m v s =
     (if argv n = 0 then None
      else do {
        (tmp, len) \<leftarrow> str_end m (argv n) 0;
        (ok, v, s) \<leftarrow> copy_bytes len m tmp v s;
        if ok then copy_args n argv m v s else Some (False, v, s) })"

definition copy_strings ::
  "int \<Rightarrow> (nat \<Rightarrow> u32) \<Rightarrow> segment \<Rightarrow> (nat \<Rightarrow> addr) \<Rightarrow> u32 \<Rightarrow> 'a mm_state_scheme
    \<Rightarrow> ((u32 \<times> (nat \<Rightarrow> addr)) \<times> 'a mm_state_scheme) option" where
  "copy_strings argc argv m page p s =
     (if p = 0 then Some ((0, page), s)
      else do {
        (ok, v, s) \<leftarrow> copy_args (nat argc) argv m \<lparr>ar_p = p, ar_offset = 0, ar_pag = 0, ar_page = page\<rparr> s;
        Some ((if ok then ar_p v else 0, ar_page v), s) })"

section \<open>The new segment\<close>

definition set_ldt :: "nat \<Rightarrow> u32 \<Rightarrow> u32 \<Rightarrow> 'a sched_state_scheme \<Rightarrow> 'a sched_state_scheme" where
  "set_ldt k base limit s = upd_task (current s)
     (\<lambda>t. t\<lparr>t_ldt := (t_ldt t)(k := set_limit (set_base (t_ldt t k) base) limit)\<rparr>) s"

text \<open>\<open>for (i=MAX_ARG_PAGES-1; i>=0; i--) { data_base -= PAGE_SIZE; if (page[i]) put_page(page[i],data_base); }\<close>\<close>

primrec put_pages :: "nat \<Rightarrow> (nat \<Rightarrow> addr) \<Rightarrow> addr \<Rightarrow> 'a mm_state_scheme \<Rightarrow> 'a mm_state_scheme" where
  "put_pages 0 page data_base s = s"
| "put_pages (Suc i) page data_base s =
     (let data_base = data_base - PAGE_SIZE
      in put_pages i page data_base (if page i \<noteq> 0 then snd (put_page (page i) data_base s) else s))"

definition change_ldt :: "u32 \<Rightarrow> (nat \<Rightarrow> addr) \<Rightarrow> 'a fs_state_scheme \<Rightarrow> u32 \<times> 'a fs_state_scheme" where
  "change_ldt text_size page s =
     (let code_limit = (text_size + PAGE_SIZE - 1) AND 0xFFFFF000;
          data_limit = 0x4000000;
          code_base = get_base (t_ldt (cur s) 1);
          s = set_ldt 2 code_base data_limit (set_ldt 1 code_base code_limit s)
      in (data_limit, put_pages MAX_ARG_PAGES page (code_base + data_limit) s))"

text \<open>\<open>while (argc-- > 0) { put_fs_long((unsigned long) p,argv++); while (get_fs_byte(p++)); }\<close>: \<open>p\<close> and
  \<open>argv\<close> at the end.\<close>

partial_function (option) skip_string :: "segment \<Rightarrow> u32 \<Rightarrow> u32 option" where
  "skip_string m p = (if m p \<noteq> 0 then skip_string m (p + 1) else Some (p + 1))"

primrec put_pointers ::
  "nat \<Rightarrow> u32 \<Rightarrow> u32 \<Rightarrow> 'a sched_state_scheme \<Rightarrow> (u32 \<times> u32 \<times> 'a sched_state_scheme) option" where
  "put_pointers 0 p argv s = Some (p, argv, s)"
| "put_pointers (Suc n) p argv s = do {
     let s = put_fs_long p argv s;
     p \<leftarrow> skip_string (fs_mem s) p;
     put_pointers n p (argv + 4) s }"

definition create_tables ::
  "u32 \<Rightarrow> int \<Rightarrow> int \<Rightarrow> 'a sched_state_scheme \<Rightarrow> (u32 \<times> 'a sched_state_scheme) option" where
  "create_tables p argc envc s =
     (let sp = 0xfffffffc AND p;
          sp = sp - 4 * word_of_int (envc + 1);
          envp = sp;
          sp = sp - 4 * word_of_int (argc + 1);
          argv = sp;
          s = put_fs_long envp (sp - 4) s;
          s = put_fs_long argv (sp - 8) s;
          s = put_fs_long (word_of_int argc) (sp - 12) s
      in do {
        (p, argv, s) \<leftarrow> put_pointers (nat argc) p argv s;
        let s = put_fs_long 0 argv s;
        (p, envp, s) \<leftarrow> put_pointers (nat envc) p envp s;
        Some (sp - 12, put_fs_long 0 envp s) })"

section \<open>The file\<close>

text \<open>The first part of the loop of \<open>do_execve\<close>: the checks, and the first block of the file. A block that starts
  with \<open>#!\<close> is a script the first time only.\<close>

datatype image = Refused int | Script bytes | Program exec u16 u16

definition may_exec :: "m_inode \<Rightarrow> 'a sched_state_scheme \<Rightarrow> bool" where
  "may_exec m s =
     (let i = (if t_euid (cur s) = i_uid m then drop_bit 6 (i_mode m)
               else if t_egid (cur s) = ucast (i_gid m) then drop_bit 3 (i_mode m) else i_mode m)
      in bit i 0 \<or> (i_mode m AND 0x49 \<noteq> 0 \<and> suser s))"

definition exec_uid :: "m_inode \<Rightarrow> 'a sched_state_scheme \<Rightarrow> u16" where
  "exec_uid m s = (if i_mode m AND 0x800 \<noteq> 0 then i_uid m else t_euid (cur s))"

definition exec_gid :: "m_inode \<Rightarrow> 'a sched_state_scheme \<Rightarrow> u16" where
  "exec_gid m s = (if i_mode m AND 0x400 \<noteq> 0 then ucast (i_gid m) else t_egid (cur s))"

definition read_image :: "bool \<Rightarrow> nat \<Rightarrow> 'a fs_state_scheme \<Rightarrow> (image \<times> 'a fs_state_scheme) option" where
  "read_image sh_bang i s =
     (let m = inode_table s i in
      if \<not> S_ISREG (i_mode m) then Some (Refused (- EACCES), s)
      else if \<not> may_exec m s then Some (Refused (- ENOEXEC), s)
      else do {
        (bh, s1) \<leftarrow> bread (uint (i_dev m)) (uint (i_zone m 0)) s;
        case bh of
          None \<Rightarrow> Some (Refused (- EACCES), s1)
        | Some b \<Rightarrow> do {
            let d = b_data (buffers s1 b);
            s2 \<leftarrow> brelse (Some b) s1;
            if d 0 = 35 \<and> d 1 = 33 \<and> \<not> sh_bang then Some (Script d, s2)
            else Some (Program (get_exec d) (exec_uid m s) (exec_gid m s), s2) } })"

definition bad_header :: "exec \<Rightarrow> u32 \<Rightarrow> bool" where
  "bad_header ex sz \<longleftrightarrow> N_MAGIC ex \<noteq> ZMAGIC \<or> a_trsize ex \<noteq> 0 \<or> a_drsize ex \<noteq> 0
     \<or> a_text ex + a_data ex + a_bss ex > 0x3000000
     \<or> sz < a_text ex + a_data ex + a_syms ex + N_TXTOFF ex
     \<or> N_TXTOFF ex \<noteq> 1024"

section \<open>Scripts\<close>

text \<open>\<open>buf\<close> lies at \<open>BUF\<close> in the segment of the kernel, and the block of the file at 0: where they are does not
  matter, as long as they do not overlap.\<close>

definition BUF :: u32 where "BUF = 0x1000"

definition script_buf :: "bytes \<Rightarrow> segment" where
  "script_buf d = (snd (strncpy BUF 2 1022 (\<lambda>a. d (unat a))))(BUF + 1022 := 0)"

partial_function (option) skip_blanks :: "segment \<Rightarrow> u32 \<Rightarrow> u32 option" where
  "skip_blanks m cp = (if m cp = 32 \<or> m cp = 9 then skip_blanks m (cp + 1) else Some cp)"

partial_function (option) scan_interp :: "segment \<Rightarrow> u32 \<Rightarrow> u32 \<Rightarrow> (u32 \<times> u32) option" where
  "scan_interp m cp i_name =
     (if m cp \<noteq> 0 \<and> m cp \<noteq> 32 \<and> m cp \<noteq> 9 then scan_interp m (cp + 1) (if m cp = 47 then cp + 1 else i_name)
      else Some (cp, i_name))"

text \<open>The interpreter, its last component, its argument, and the buffer cut into strings; \<open>Some None\<close> when there
  is no interpreter name.\<close>

definition parse_script :: "bytes \<Rightarrow> (u32 \<times> u32 \<times> u32 option \<times> segment) option option" where
  "parse_script d = do {
     let m = script_buf d;
     cp \<leftarrow> strchr BUF 10 m;
     if cp = 0 then Some None
     else do {
       let m = m(cp := 0);
       interp \<leftarrow> skip_blanks m BUF;
       if m interp = 0 then Some None
       else do {
         (cp, i_name) \<leftarrow> scan_interp m interp interp;
         let (i_arg, m) = (if m cp \<noteq> 0 then (Some (cp + 1), m(cp := 0)) else (None, m));
         Some (Some (interp, i_name, i_arg, m)) } } }"

definition user_pointers :: "u32 \<Rightarrow> 'a sched_state_scheme \<Rightarrow> nat \<Rightarrow> u32" where
  "user_pointers argv s = (\<lambda>i. get_fs_long (argv + 4 * of_nat i) s)"

text \<open>The strings of the environment and the arguments (without \<open>argv[0]\<close>), the name of the script, the argument
  of the interpreter and its name.\<close>

definition splice_args ::
  "u32 \<Rightarrow> u32 \<Rightarrow> u32 \<Rightarrow> int \<Rightarrow> int \<Rightarrow> u32 \<Rightarrow> u32 option \<Rightarrow> segment \<Rightarrow> (nat \<Rightarrow> addr) \<Rightarrow> u32 \<Rightarrow> 'a sched_state_scheme
    \<Rightarrow> ((u32 \<times> (nat \<Rightarrow> addr) \<times> int) \<times> 'a sched_state_scheme) option" where
  "splice_args filename argv envp argc envc i_name i_arg m page p s = do {
     ((p, page), s) \<leftarrow> copy_strings envc (user_pointers envp s) (fs_mem s) page p s;
     let argc = argc - 1;
     ((p, page), s) \<leftarrow> copy_strings argc (user_pointers (argv + 4) s) (fs_mem s) page p s;
     ((p, page), s) \<leftarrow> copy_strings 1 (\<lambda>_. filename) (fs_mem s) page p s;
     let argc = argc + 1;
     ((p, page, argc), s) \<leftarrow> (case i_arg of
         None \<Rightarrow> Some ((p, page, argc), s)
       | Some a \<Rightarrow> do {
           ((p, page), s) \<leftarrow> copy_strings 1 (\<lambda>_. a) m page p s;
           Some ((p, page, argc + 1), s) });
     ((p, page), s) \<leftarrow> copy_strings 1 (\<lambda>_. i_name) m page p s;
     Some ((p, page, argc + 1), s) }"

text \<open>\<open>set_fs(get_ds())\<close> around a call that reads names.\<close>

definition with_kernel_fs ::
  "segment \<Rightarrow> ('a sched_state_scheme \<Rightarrow> ('r \<times> 'a sched_state_scheme) option) \<Rightarrow> 'a sched_state_scheme
    \<Rightarrow> ('r \<times> 'a sched_state_scheme) option" where
  "with_kernel_fs m f s = do { (r, s') \<leftarrow> f (s\<lparr>fs_mem := m\<rparr>); Some (r, s'\<lparr>fs_mem := fs_mem s\<rparr>) }"

text \<open>The whole \<open>#!\<close> section: an error number, or the interpreter's inode with the new \<open>p\<close> and \<open>argc\<close>; the
  argument pages in both cases.\<close>

definition exec_script ::
  "bytes \<Rightarrow> u32 \<Rightarrow> u32 \<Rightarrow> u32 \<Rightarrow> int \<Rightarrow> int \<Rightarrow> (nat \<Rightarrow> addr) \<Rightarrow> u32 \<Rightarrow> 'a fs_state_scheme
    \<Rightarrow> (((int + nat \<times> u32 \<times> int) \<times> (nat \<Rightarrow> addr)) \<times> 'a fs_state_scheme) option" where
  "exec_script d filename argv envp argc envc page p s = do {
     parsed \<leftarrow> parse_script d;
     case parsed of
       None \<Rightarrow> Some ((Inl (- ENOEXEC), page), s)
     | Some (interp, i_name, i_arg, m) \<Rightarrow> do {
         ((p, page, argc), s) \<leftarrow> splice_args filename argv envp argc envc i_name i_arg m page p s;
         if p = 0 then Some ((Inl (- ENOMEM), page), s)
         else do {
           (i, s) \<leftarrow> with_kernel_fs m (namei interp) s;
           case i of
             None \<Rightarrow> Some ((Inl (- ENOENT), page), s)
           | Some i \<Rightarrow> Some ((Inr (i, p, argc), page), s) } } }"

section \<open>The point of no return\<close>

definition clear_handlers :: "'a sched_state_scheme \<Rightarrow> 'a sched_state_scheme" where
  "clear_handlers s = upd_task (current s) (\<lambda>t. t\<lparr>t_sigaction :=
     (\<lambda>k. if k < 32 then (t_sigaction t k)\<lparr>sa_handler := 0\<rparr> else t_sigaction t k)\<rparr>) s"

definition close_on_exec :: "'a fs_state_scheme \<Rightarrow> 'a fs_state_scheme option" where
  "close_on_exec s = do {
     s \<leftarrow> for_range 0 NR_OPEN (\<lambda>i s.
        if drop_bit i (t_close_on_exec (cur s)) AND 1 \<noteq> 0 then map_option snd (sys_close (of_nat i) s) else Some s) s;
     Some (upd_task (current s) (\<lambda>t. t\<lparr>t_close_on_exec := 0\<rparr>) s) }"

text \<open>The old page tables, and the ownership of the FPU.\<close>

definition drop_memory :: "'a fs_state_scheme \<Rightarrow> 'a fs_state_scheme option" where
  "drop_memory s = do {
     (_, s) \<leftarrow> free_page_tables (get_base (t_ldt (cur s) 1)) (get_limit (t_ldt (cur s) 1)) s;
     (_, s) \<leftarrow> free_page_tables (get_base (t_ldt (cur s) 2)) (get_limit (t_ldt (cur s) 2)) s;
     let s = (if last_task_used_math s = current s then s\<lparr>last_task_used_math := 0\<rparr> else s);
     Some (upd_task (current s) (\<lambda>t. t\<lparr>t_used_math := False\<rparr>) s) }"

definition set_sizes :: "exec \<Rightarrow> u32 \<Rightarrow> u16 \<Rightarrow> u16 \<Rightarrow> 'a sched_state_scheme \<Rightarrow> 'a sched_state_scheme" where
  "set_sizes ex p e_uid e_gid s = upd_task (current s) (\<lambda>t. t\<lparr>t_end_code := a_text ex,
     t_end_data := a_data ex + a_text ex, t_brk := a_bss ex + (a_data ex + a_text ex),
     t_start_stack := p AND 0xfffff000, t_euid := e_uid, t_egid := e_gid\<rparr>) s"

text \<open>\<open>while (i&0xfff) put_fs_byte(0,(char *) (i++))\<close>\<close>

partial_function (option) clear_bss :: "u32 \<Rightarrow> 'a sched_state_scheme \<Rightarrow> 'a sched_state_scheme option" where
  "clear_bss i s = (if i AND 0xfff \<noteq> 0 then clear_bss (i + 1) (put_fs_byte 0 i s) else Some s)"

text \<open>The stack of the new program was touched by \<open>create_tables\<close>; what lies below it is still to be loaded.\<close>

definition become ::
  "nat \<Rightarrow> exec \<Rightarrow> u16 \<Rightarrow> u16 \<Rightarrow> int \<Rightarrow> int \<Rightarrow> (nat \<Rightarrow> addr) \<Rightarrow> u32 \<Rightarrow> (nat \<Rightarrow> u32) \<Rightarrow> 'a fs_state_scheme
    \<Rightarrow> ((int \<times> (nat \<Rightarrow> u32)) \<times> 'a fs_state_scheme) option" where
  "become i ex e_uid e_gid argc envc page p eip s = do {
     s \<leftarrow> iput (t_executable (cur s)) s;
     let s = upd_task (current s) (\<lambda>t. t\<lparr>t_executable := Some i\<rparr>) s;
     s \<leftarrow> close_on_exec (clear_handlers s);
     s \<leftarrow> drop_memory s;
     let (limit, s) = change_ldt (a_text ex) page s;
     let s = s\<lparr>fs_mem := segment_byte s\<rparr>;
     (p, s) \<leftarrow> create_tables (p + (limit - of_nat MAX_ARG_PAGES * PAGE_SIZE)) argc envc s;
     let s = set_sizes ex p e_uid e_gid s;
     let s = s\<lparr>fs_mem := (\<lambda>a. if p AND 0xfffff000 \<le> a then fs_mem s a else segment_byte s a)\<rparr>;
     s \<leftarrow> clear_bss (a_text ex + a_data ex) s;
     Some ((0, eip(0 := a_entry ex, 3 := p)), s) }"

section \<open>do_execve\<close>

text \<open>The labels \<open>exec_error1\<close> and \<open>exec_error2\<close>.\<close>

definition exec_error1 ::
  "int \<Rightarrow> (nat \<Rightarrow> addr) \<Rightarrow> (nat \<Rightarrow> u32) \<Rightarrow> 'a fs_state_scheme \<Rightarrow> ((int \<times> (nat \<Rightarrow> u32)) \<times> 'a fs_state_scheme) option" where
  "exec_error1 retval page eip s = do {
     s \<leftarrow> for_range 0 MAX_ARG_PAGES (\<lambda>i. free_page (page i)) s;
     Some ((retval, eip), s) }"

definition exec_error2 ::
  "nat \<Rightarrow> int \<Rightarrow> (nat \<Rightarrow> addr) \<Rightarrow> (nat \<Rightarrow> u32) \<Rightarrow> 'a fs_state_scheme \<Rightarrow> ((int \<times> (nat \<Rightarrow> u32)) \<times> 'a fs_state_scheme) option" where
  "exec_error2 i retval page eip s = do { s \<leftarrow> iput (Some i) s; exec_error1 retval page eip s }"

definition exec_program ::
  "bool \<Rightarrow> nat \<Rightarrow> exec \<Rightarrow> u16 \<Rightarrow> u16 \<Rightarrow> u32 \<Rightarrow> u32 \<Rightarrow> int \<Rightarrow> int \<Rightarrow> (nat \<Rightarrow> addr) \<Rightarrow> u32 \<Rightarrow> (nat \<Rightarrow> u32) \<Rightarrow> 'a fs_state_scheme
    \<Rightarrow> ((int \<times> (nat \<Rightarrow> u32)) \<times> 'a fs_state_scheme) option" where
  "exec_program sh_bang i ex e_uid e_gid argv envp argc envc page p eip s =
     (if bad_header ex (i_size (inode_table s i)) then exec_error2 i (- ENOEXEC) page eip s
      else if sh_bang then become i ex e_uid e_gid argc envc page p eip s
      else do {
        ((p, page), s) \<leftarrow> copy_strings envc (user_pointers envp s) (fs_mem s) page p s;
        ((p, page), s) \<leftarrow> copy_strings argc (user_pointers argv s) (fs_mem s) page p s;
        if p = 0 then exec_error2 i (- ENOMEM) page eip s
        else become i ex e_uid e_gid argc envc page p eip s })"

text \<open>\<open>eip\<close> is the frame that the system call returns through: \<open>eip[0]\<close> is the instruction pointer, \<open>eip[1]\<close> the
  code segment and \<open>eip[3]\<close> the stack pointer. The result has the return value and the new frame.\<close>

definition do_execve ::
  "(nat \<Rightarrow> u32) \<Rightarrow> u32 \<Rightarrow> u32 \<Rightarrow> u32 \<Rightarrow> 'a fs_state_scheme \<Rightarrow> ((int \<times> (nat \<Rightarrow> u32)) \<times> 'a fs_state_scheme) option" where
  "do_execve eip filename argv envp s =
     (if 0xffff AND eip 1 \<noteq> 0x000f then None
      else do {
        let page = (\<lambda>_. 0);
        let p = PAGE_SIZE * of_nat MAX_ARG_PAGES - 4;
        (i, s) \<leftarrow> namei filename s;
        case i of
          None \<Rightarrow> Some ((- ENOENT, eip), s)
        | Some i \<Rightarrow> do {
            argc \<leftarrow> count_args argv s;
            envc \<leftarrow> count_args envp s;
            (im, s) \<leftarrow> read_image False i s;
            case im of
              Refused e \<Rightarrow> exec_error2 i e page eip s
            | Program ex e_uid e_gid \<Rightarrow> exec_program False i ex e_uid e_gid argv envp argc envc page p eip s
            | Script d \<Rightarrow> do {
                s \<leftarrow> iput (Some i) s;
                ((r, page), s) \<leftarrow> exec_script d filename argv envp argc envc page p s;
                case r of
                  Inl e \<Rightarrow> exec_error1 e page eip s
                | Inr (i, p, argc) \<Rightarrow> do {
                    (im, s) \<leftarrow> read_image True i s;
                    case im of
                      Refused e \<Rightarrow> exec_error2 i e page eip s
                    | Program ex e_uid e_gid \<Rightarrow> exec_program True i ex e_uid e_gid argv envp argc envc page p eip s
                    | Script _ \<Rightarrow> None } } } })"

end
