(* ===== verification/Exec_Args.thy ===== *)
theory Exec_Args
  imports Exec Pipe_Queue
begin

text \<open>
  The argument area of \<open>do_execve\<close>: \<open>arg_byte\<close> is a byte of the 32 pages, \<open>pages_ok\<close> says that the pages are
  allocated and distinct, and \<open>args_step\<close> what copying may change. \<open>copy_strings_run\<close> follows the loops of
  \<open>copy_strings\<close> and places the image of a list of strings.
\<close>

section \<open>The argument pages\<close>

text \<open>Byte \<open>q\<close> of the area of 128 KB that the 32 pages make up.\<close>

definition arg_byte :: "(nat \<Rightarrow> addr) \<Rightarrow> 'a mm_state_scheme \<Rightarrow> nat \<Rightarrow> u8" where
  "arg_byte page s q = get_byte (page (q div 4096) + of_nat (q mod 4096)) s"

definition pages_ok :: "(nat \<Rightarrow> addr) \<Rightarrow> 'a mm_state_scheme \<Rightarrow> bool" where
  "pages_ok page s \<longleftrightarrow>
     (\<forall>k<32. page k \<noteq> 0 \<longrightarrow> page_of (page k) = page k \<and> \<not> page k < LOW_MEM \<and> mem_map s (MAP_NR (page k)) \<noteq> 0)
     \<and> (\<forall>k<32. \<forall>l<32. page k \<noteq> 0 \<longrightarrow> page k = page l \<longrightarrow> k = l)"

lemma pages_okD:
  assumes "pages_ok page s" "k < 32" "page k \<noteq> 0"
  shows "page_of (page k) = page k" "\<not> page k < LOW_MEM" "mem_map s (MAP_NR (page k)) \<noteq> 0"
  using assms by (auto simp: pages_ok_def)

lemma page_of_word [simp]: "page_of (a AND - 4) = page_of a"
proof -
  have "- 4 AND 0xfffff000 = (0xfffff000 :: addr)" by simp
  then show ?thesis unfolding page_of_def by (simp only: and.assoc)
qed

lemma page_byte:
  assumes "page_of p = p" "n < 4096"
  shows "page_of (p + of_nat n) = p"
  using page_of_add [OF assms(1), of "of_nat n"] assms(2) by simp

lemma page_byte_inj:
  assumes "page_of p = p" "page_of q = q" "n < 4096" "k < 4096"
  shows "p + of_nat n = q + of_nat k \<longleftrightarrow> p = q \<and> n = k"
proof
  assume e: "p + of_nat n = q + of_nat k"
  then have "p = q" using page_byte [OF assms(1,3)] page_byte [OF assms(2,4)] by simp
  then show "p = q \<and> n = k" using e assms of_nat_eq_u32 [of n k] by simp
qed simp

lemma get_byte_page: "(\<And>x. page_of x = page_of a \<Longrightarrow> phys s' x = phys s x) \<Longrightarrow> get_byte a s' = get_byte a s"
  by (simp add: get_byte_def)

lemma arg_put:
  assumes "pages_ok page s" "k < 32" "page k \<noteq> 0" "n < 4096" "q < 131072" "page (q div 4096) \<noteq> 0"
  shows "arg_byte page (put_byte v (page k + of_nat n) s) q = (if q = 4096 * k + n then v else arg_byte page s q)"
proof -
  have q: "q div 4096 < 32" using assms(5) by simp
  have "page (q div 4096) + of_nat (q mod 4096) = page k + of_nat n \<longleftrightarrow> page (q div 4096) = page k \<and> q mod 4096 = n"
    using pages_okD(1) [OF assms(1) q assms(6)] pages_okD(1) [OF assms(1-3)] assms(4) by (intro page_byte_inj) simp_all
  also have "\<dots> \<longleftrightarrow> q div 4096 = k \<and> q mod 4096 = n" using assms(1-3,6) q by (auto simp: pages_ok_def)
  also have "\<dots> \<longleftrightarrow> q = 4096 * k + n" using assms(4) by auto
  finally show ?thesis by (simp add: arg_byte_def get_put_byte)
qed

text \<open>What copying arguments does to the pages and to the rest of memory.\<close>

definition outside :: "(nat \<Rightarrow> addr) \<Rightarrow> addr \<Rightarrow> bool" where
  "outside page a \<longleftrightarrow> (\<forall>l<32. page l \<noteq> 0 \<longrightarrow> page l \<noteq> page_of a)"

definition args_step :: "(nat \<Rightarrow> addr) \<Rightarrow> 'a mm_state_scheme \<Rightarrow> (nat \<Rightarrow> addr) \<Rightarrow> 'a mm_state_scheme \<Rightarrow> bool" where
  "args_step page s page' s' \<longleftrightarrow> pages_ok page' s' \<and> (\<forall>l<32. page l \<noteq> 0 \<longrightarrow> page' l = page l)
     \<and> (\<exists>m ph. s' = s\<lparr>mem_map := m, phys := ph\<rparr>)
     \<and> (\<forall>a. in_use s a \<longrightarrow> in_use s' a \<and> (outside page a \<longrightarrow> outside page' a \<and> phys s' a = phys s a))"

lemma args_step_refl: "pages_ok page s \<Longrightarrow> args_step page s page s"
  unfolding args_step_def by (intro conjI exI [of _ "mem_map s"] exI [of _ "phys s"]) simp_all

lemma args_step_trans:
  assumes "args_step p1 s1 p2 s2" "args_step p2 s2 p3 s3"
  shows "args_step p1 s1 p3 s3"
proof -
  obtain m ph m' ph' where "s2 = s1\<lparr>mem_map := m, phys := ph\<rparr>" "s3 = s2\<lparr>mem_map := m', phys := ph'\<rparr>"
    using assms unfolding args_step_def by metis
  then have "s3 = s1\<lparr>mem_map := m', phys := ph'\<rparr>" by simp
  then show ?thesis using assms unfolding args_step_def by metis
qed

lemma args_stepD:
  assumes "args_step page s page' s'"
  shows "pages_ok page' s'" "l < 32 \<Longrightarrow> page l \<noteq> 0 \<Longrightarrow> page' l = page l" "in_use s a \<Longrightarrow> in_use s' a"
    "in_use s a \<Longrightarrow> outside page a \<Longrightarrow> outside page' a \<and> phys s' a = phys s a"
    "\<exists>m ph. s' = s\<lparr>mem_map := m, phys := ph\<rparr>"
  using assms by (simp_all add: args_step_def)

text \<open>\<open>pag\<close> and \<open>offset\<close> between two bytes: \<open>offset\<close> is 0, or they belong to \<open>p\<close>.\<close>

definition vars_ok :: "arg_vars \<Rightarrow> bool" where
  "vars_ok v \<longleftrightarrow> ar_offset v = 0 \<or>
     (ar_offset v = int (unat (ar_p v) mod 4096) \<and> ar_pag v = ar_page v (unat (ar_p v) div 4096) \<and> ar_pag v \<noteq> 0)"

lemma args_step_put:
  assumes "pages_ok page s" "k < 32" "page k \<noteq> 0" "n < 4096"
  shows "args_step page s page (put_byte v (page k + of_nat n) s)"
proof -
  let ?s = "put_byte v (page k + of_nat n) s"
  have pg: "page_of ((page k + of_nat n) AND NOT 3) = page k"
    using pages_okD(1) [OF assms(1-3)] assms(4) by (simp add: page_byte)
  have "pages_ok page ?s" using assms(1) by (simp add: pages_ok_def put_byte_def Let_def)
  moreover have "\<exists>m ph. ?s = s\<lparr>mem_map := m, phys := ph\<rparr>"
    by (rule exI [of _ "mem_map s"]) (simp add: put_byte_def Let_def, metis)
  moreover have "in_use ?s a \<longleftrightarrow> in_use s a" for a by (simp add: in_use_def put_byte_def Let_def)
  moreover have "phys ?s a = phys s a" if "outside page a" for a
    using that assms(2,3) pg by (auto simp: outside_def put_byte_def Let_def)
  ultimately show ?thesis by (simp add: args_step_def)
qed

lemma args_step_new:
  assumes "pages_ok page s" "get_free_page s = (p, s')" "p \<noteq> 0" "k < 32" "page k = 0"
  shows "args_step page s (page(k := p)) s'"
    "q < 131072 \<Longrightarrow> page (q div 4096) \<noteq> 0 \<Longrightarrow> arg_byte (page(k := p)) s' q = arg_byte page s q"
proof -
  note f = fresh_page_facts [OF assms(2,3)]
  have other: "page l \<noteq> p" if "l < 32" "page l \<noteq> 0" for l using pages_okD(3) [OF assms(1) that] f(5) by auto
  have "pages_ok (page(k := p)) s'"
    unfolding pages_ok_def using assms(1,4,5) f(1,2,6) other by (auto simp: pages_ok_def)
  moreover have "\<exists>m ph. s' = s\<lparr>mem_map := m, phys := ph\<rparr>"
    using assms(2,3) by (auto simp: get_free_page_def Let_def split: option.splits) 
  moreover have "in_use s' a" if "in_use s a" for a using that f(6) by (simp add: in_use_def)
  moreover have "outside (page(k := p)) a \<and> phys s' a = phys s a" if "in_use s a" "outside page a" for a
    using that f(4) f(8) [OF that(1)] by (auto simp: outside_def)
  ultimately show "args_step page s (page(k := p)) s'" using assms(5) by (auto simp: args_step_def)
  assume q: "q < 131072" "page (q div 4096) \<noteq> 0"
  then have l: "q div 4096 < 32" by simp
  have "page_of (page (q div 4096) + of_nat (q mod 4096)) \<noteq> p"
    using other [OF l q(2)] pages_okD(1) [OF assms(1) l q(2)] by (simp add: page_byte)
  then show "arg_byte (page(k := p)) s' q = arg_byte page s q"
    using q assms(5) f(4) by (auto simp: arg_byte_def intro!: get_byte_page)
qed

lemma pred_in_page: "Suc q mod n \<noteq> 0 \<Longrightarrow> q div n = Suc q div n \<and> Suc q mod n = Suc (q mod n)"
  using div_Suc [of q n] mod_Suc [of q n] by (auto split: if_splits)

lemma next_offset_run:
  assumes "vars_ok v" "pages_ok (ar_page v) s" "0 < unat (ar_p v)" "unat (ar_p v) \<le> 131072"
  defines "q \<equiv> unat (ar_p v) - 1"
  shows "\<exists>ok v' s'. next_offset (v\<lparr>ar_p := ar_p v - 1\<rparr>) s = Some (ok, v', s') \<and> ar_p v' = ar_p v - 1
    \<and> args_step (ar_page v) s (ar_page v') s'
    \<and> (if ok then vars_ok v' \<and> ar_pag v' = ar_page v' (q div 4096) \<and> ar_pag v' \<noteq> 0 \<and> ar_offset v' = int (q mod 4096)
          \<and> (\<forall>k<131072. ar_page v (k div 4096) \<noteq> 0 \<longrightarrow> arg_byte (ar_page v') s' k = arg_byte (ar_page v) s k)
        else (\<forall>i<3840. mem_map s' i \<noteq> 0))"
proof -
  let ?v = "v\<lparr>ar_p := ar_p v - 1\<rparr>"
  have q: "unat (ar_p v - 1) = q" using assms(3) by (simp add: q_def unat_sub_if' Suc_le_eq)
  have ql: "q div 4096 < 32" using assms(3,4) by (simp add: q_def)
  have "unat ((ar_p v - 1) mod 4096) = q mod 4096" by (simp add: unat_mod q)
  then have un: "uint ((ar_p v - 1) mod 4096) = int (q mod 4096)" "unat ((ar_p v - 1) div 4096) = q div 4096"
    by (simp only: uint_nat) (simp add: unat_div q)
  show ?thesis
  proof (cases "ar_offset v - 1 < 0")
    case False
    then have o: "ar_offset v = int (unat (ar_p v) mod 4096)" "ar_pag v = ar_page v (unat (ar_p v) div 4096)" "ar_pag v \<noteq> 0"
      "unat (ar_p v) mod 4096 \<noteq> 0" using assms(1) by (auto simp: vars_ok_def)
    have sq: "unat (ar_p v) = Suc q" using assms(3) by (simp add: q_def)
    have "q div 4096 = Suc q div 4096" "int (q mod 4096) = int (Suc q mod 4096) - 1"
      using pred_in_page [OF o(4) [unfolded sq]] by simp_all
    then have "q div 4096 = unat (ar_p v) div 4096" "int (q mod 4096) = ar_offset v - 1"
      unfolding o(1) sq by simp_all
    then show ?thesis using False o q args_step_refl [OF assms(2)] by (intro exI [of _ True]) (simp add: next_offset_def Let_def vars_ok_def)
  next
    case neg: True
    show ?thesis
    proof (cases "ar_page v (q div 4096) = 0")
      case False
      then show ?thesis using neg un ql q args_step_refl [OF assms(2)] by (intro exI [of _ True]) (simp add: next_offset_def Let_def vars_ok_def)
    next
      case True
      obtain p s' where g: "get_free_page s = (p, s')" by (cases "get_free_page s")
      show ?thesis
      proof (cases "p = 0")
        case p: True
        then show ?thesis using True neg un ql q g get_free_page_effect [of s] args_step_refl [OF assms(2)]
          by (intro exI [of _ False]) (simp add: next_offset_def Let_def fun_upd_idem)
      next
        case False
        then show ?thesis using True neg un ql q g args_step_new [OF assms(2) g False ql True]
          by (intro exI [of _ True]) (simp add: next_offset_def Let_def vars_ok_def)
      qed
    qed
  qed
qed

lemma copy_bytes_run:
  assumes "vars_ok v" "pages_ok (ar_page v) s" "len \<le> unat (ar_p v)" "unat (ar_p v) \<le> 131072"
  shows "\<exists>ok v' s'. copy_bytes len m tmp v s = Some (ok, v', s') \<and> args_step (ar_page v) s (ar_page v') s'
    \<and> (if ok then vars_ok v' \<and> ar_p v' = ar_p v - of_nat len
          \<and> (\<forall>i<len. ar_page v' ((unat (ar_p v) - len + i) div 4096) \<noteq> 0
               \<and> arg_byte (ar_page v') s' (unat (ar_p v) - len + i) = m (tmp - of_nat (len - i)))
          \<and> (\<forall>k<131072. ar_page v (k div 4096) \<noteq> 0 \<and> unat (ar_p v) \<le> k \<longrightarrow> arg_byte (ar_page v') s' k = arg_byte (ar_page v) s k)
        else (\<forall>i<3840. mem_map s' i \<noteq> 0))"
  using assms
proof (induction len arbitrary: tmp v s)
  case 0
  then show ?case by (intro exI [of _ True] exI [of _ v] exI [of _ s]) (simp add: args_step_refl)
next
  case (Suc len)
  define q where "q = unat (ar_p v) - 1"
  obtain ok v1 s1 where n: "next_offset (v\<lparr>ar_p := ar_p v - 1\<rparr>) s = Some (ok, v1, s1)" "ar_p v1 = ar_p v - 1"
    "args_step (ar_page v) s (ar_page v1) s1"
    "if ok then vars_ok v1 \<and> ar_pag v1 = ar_page v1 (q div 4096) \<and> ar_pag v1 \<noteq> 0 \<and> ar_offset v1 = int (q mod 4096)
        \<and> (\<forall>k<131072. ar_page v (k div 4096) \<noteq> 0 \<longrightarrow> arg_byte (ar_page v1) s1 k = arg_byte (ar_page v) s k)
      else (\<forall>i<3840. mem_map s1 i \<noteq> 0)"
    using next_offset_run [OF Suc.prems(1,2) _ Suc.prems(4)] Suc.prems(3) unfolding q_def by auto
  show ?case
  proof (cases ok)
    case False
    then show ?thesis using n by (intro exI [of _ False] exI [of _ v1] exI [of _ s1]) simp
  next
    case True
    have q: "q < 131072" "q div 4096 < 32" "unat (ar_p v1) = q" "Suc q = unat (ar_p v)"
      using Suc.prems(3,4) n(2) by (simp_all add: q_def unat_sub_if' Suc_le_eq)
    have pg: "ar_pag v1 = ar_page v1 (q div 4096)" "ar_pag v1 \<noteq> 0" "ar_offset v1 = int (q mod 4096)" "vars_ok v1"
      using n(4) [unfolded if_P [OF True]] by blast+
    have pag: "ar_page v1 (q div 4096) \<noteq> 0" "ar_pag v1 + word_of_int (ar_offset v1) = ar_page v1 (q div 4096) + of_nat (q mod 4096)"
      using pg(2) unfolding pg(1,3) by simp_all
    let ?s = "put_byte (m (tmp - 1)) (ar_page v1 (q div 4096) + of_nat (q mod 4096)) s1"
    have ok1: "pages_ok (ar_page v1) s1" using n(3) by (simp add: args_step_def)
    have st: "args_step (ar_page v1) s1 (ar_page v1) ?s" using args_step_put [OF ok1 q(2) pag(1)] by simp
    then have ok2: "pages_ok (ar_page v1) ?s" by (simp add: args_step_def)
    note vo = pg(4)
    have b: "len \<le> unat (ar_p v1)" "unat (ar_p v1) \<le> 131072" using Suc.prems(3,4) q by simp_all
    obtain ok' v' s' where r: "copy_bytes len m (tmp - 1) v1 ?s = Some (ok', v', s')" "args_step (ar_page v1) ?s (ar_page v') s'"
      "if ok' then vars_ok v' \<and> ar_p v' = ar_p v1 - of_nat len
          \<and> (\<forall>i<len. ar_page v' ((unat (ar_p v1) - len + i) div 4096) \<noteq> 0
               \<and> arg_byte (ar_page v') s' (unat (ar_p v1) - len + i) = m (tmp - 1 - of_nat (len - i)))
          \<and> (\<forall>k<131072. ar_page v1 (k div 4096) \<noteq> 0 \<and> unat (ar_p v1) \<le> k \<longrightarrow> arg_byte (ar_page v') s' k = arg_byte (ar_page v1) ?s k)
        else (\<forall>i<3840. mem_map s' i \<noteq> 0)"
      using Suc.IH [OF vo ok2 b, of "tmp - 1"] by (elim exE conjE) (rule that; assumption)
    have c: "copy_bytes (Suc len) m tmp v s = Some (ok', v', s')" using n(1) True r(1) pag(2) by simp
    have all: "args_step (ar_page v) s (ar_page v') s'" by (rule args_step_trans [OF n(3) args_step_trans [OF st r(2)]])
    have keep: "ar_page v1 l = ar_page v l" if "l < 32" "ar_page v l \<noteq> 0" for l using n(3) that by (simp add: args_step_def)
    have keep': "ar_page v' l = ar_page v1 l" if "l < 32" "ar_page v1 l \<noteq> 0" for l using r(2) that by (simp add: args_step_def)
    have put: "arg_byte (ar_page v1) ?s k = (if k = q then m (tmp - 1) else arg_byte (ar_page v1) s1 k)"
      if "k < 131072" "ar_page v1 (k div 4096) \<noteq> 0" for k
      using arg_put [OF ok1 q(2) pag(1), of "q mod 4096" k] that by simp
    show ?thesis
    proof (cases ok')
      case False
      then show ?thesis using c all r(3) by (intro exI [of _ ok'] exI [of _ v'] exI [of _ s']) simp
    next
      case ok': True
      have at: "ar_page v' ((unat (ar_p v) - Suc len + i) div 4096) \<noteq> 0
          \<and> arg_byte (ar_page v') s' (unat (ar_p v) - Suc len + i) = m (tmp - of_nat (Suc len - i))" if "i < Suc len" for i
      proof (cases "i < len")
        case True
        have "unat (ar_p v) - Suc len + i = unat (ar_p v1) - len + i" using q(3,4) by simp
        moreover have "tmp - of_nat (Suc len - i) = tmp - 1 - of_nat (len - i)" using True by (simp add: Suc_diff_le)
        ultimately show ?thesis using r(3) [unfolded if_P [OF ok']] True by metis
      next
        case False
        then have i: "i = len" using that by simp
        have "unat (ar_p v) - Suc len + i = q" using i Suc.prems(3) q by simp
        moreover have "arg_byte (ar_page v') s' q = m (tmp - 1)" using r(3) ok' q(1,3) pag(1) put [OF q(1)] by simp
        ultimately show ?thesis using i keep' [OF q(2) pag(1)] pag(1) by simp
      qed
      moreover have "arg_byte (ar_page v') s' k = arg_byte (ar_page v) s k"
        if "k < 131072" "ar_page v (k div 4096) \<noteq> 0" "unat (ar_p v) \<le> k" for k
      proof -
        have l: "k div 4096 < 32" using that(1) by simp
        then have "ar_page v1 (k div 4096) \<noteq> 0" using keep that by simp
        then have "arg_byte (ar_page v') s' k = arg_byte (ar_page v1) s1 k" using r(3) ok' that q put by simp
        then show ?thesis using n(4) True that by simp
      qed
      ultimately show ?thesis using c all r(3) ok' n(2) by (intro exI [of _ ok'] exI [of _ v'] exI [of _ s']) simp
    qed
  qed
qed

lemma str_end_run: "cstr m s cs \<Longrightarrow> str_end m s n = Some (s + of_nat (length cs) + 1, n + length cs + 1)"
proof (induction cs arbitrary: s n)
  case Nil
  then show ?case by (subst str_end.simps) simp
next
  case (Cons c cs)
  then show ?case using Cons.IH [of "s + 1" "n + 1"] by (subst str_end.simps) (simp add: algebra_simps)
qed

text \<open>The strings as they lie in the argument area: each with its NUL, one behind the other.\<close>

definition arg_image :: "u8 list list \<Rightarrow> u8 list" where
  "arg_image xs = concat (map (\<lambda>x. x @ [0]) xs)"

lemma arg_image_simps [simp]:
  "arg_image [] = []" "arg_image (x # xs) = x @ 0 # arg_image xs" "arg_image (xs @ ys) = arg_image xs @ arg_image ys"
  by (simp_all add: arg_image_def)

lemma cstr_nth: "cstr m s cs \<Longrightarrow> i < Suc (length cs) \<Longrightarrow> m (s + of_nat i) = (cs @ [0]) ! i"
  using cstr_at [of m s cs i] by (auto simp: nth_append less_Suc_eq)

lemma unat_minus_of_nat:
  assumes "n \<le> unat (p :: u32)"
  shows "unat (p - of_nat n) = unat p - n"
proof -
  have "n < 4294967296" using assms unat_less_u32 [of p] by simp
  then show ?thesis using assms by (simp add: unat_sub word_le_nat_alt)
qed

lemma copy_args_run:
  assumes "vars_ok v" "pages_ok (ar_page v) s" "length (arg_image xs) \<le> unat (ar_p v)" "unat (ar_p v) \<le> 131072"
    "\<forall>i<length xs. argv i \<noteq> 0 \<and> cstr m (argv i) (xs ! i)"
  shows "\<exists>ok v' s'. copy_args (length xs) argv m v s = Some (ok, v', s') \<and> args_step (ar_page v) s (ar_page v') s'
    \<and> (if ok then vars_ok v' \<and> ar_p v' = ar_p v - of_nat (length (arg_image xs))
          \<and> (\<forall>i<length (arg_image xs). ar_page v' ((unat (ar_p v) - length (arg_image xs) + i) div 4096) \<noteq> 0
               \<and> arg_byte (ar_page v') s' (unat (ar_p v) - length (arg_image xs) + i) = arg_image xs ! i)
          \<and> (\<forall>k<131072. ar_page v (k div 4096) \<noteq> 0 \<and> unat (ar_p v) \<le> k \<longrightarrow> arg_byte (ar_page v') s' k = arg_byte (ar_page v) s k)
        else (\<forall>i<3840. mem_map s' i \<noteq> 0))"
  using assms
proof (induction xs arbitrary: v s rule: rev_induct)
  case Nil
  then show ?case by (intro exI [of _ True] exI [of _ v] exI [of _ s]) (simp add: args_step_refl)
next
  case (snoc x xs)
  let ?n = "length xs" and ?l = "Suc (length x)" and ?T = "length (arg_image xs)"
  have x: "argv ?n \<noteq> 0" "cstr m (argv ?n) x" using snoc.prems(5) [rule_format, of ?n] by simp_all
  have len: "?l \<le> unat (ar_p v)" "?T + ?l \<le> unat (ar_p v)" using snoc.prems(3) by simp_all
  obtain ok v1 s1 where c: "copy_bytes ?l m (argv ?n + of_nat (length x) + 1) v s = Some (ok, v1, s1)"
    "args_step (ar_page v) s (ar_page v1) s1"
    "if ok then vars_ok v1 \<and> ar_p v1 = ar_p v - of_nat ?l
          \<and> (\<forall>i<?l. ar_page v1 ((unat (ar_p v) - ?l + i) div 4096) \<noteq> 0
               \<and> arg_byte (ar_page v1) s1 (unat (ar_p v) - ?l + i) = m (argv ?n + of_nat (length x) + 1 - of_nat (?l - i)))
          \<and> (\<forall>k<131072. ar_page v (k div 4096) \<noteq> 0 \<and> unat (ar_p v) \<le> k \<longrightarrow> arg_byte (ar_page v1) s1 k = arg_byte (ar_page v) s k)
        else (\<forall>i<3840. mem_map s1 i \<noteq> 0)"
    using copy_bytes_run [OF snoc.prems(1,2) len(1) snoc.prems(4), of m "argv ?n + of_nat (length x) + 1"]
    by (elim exE conjE) (rule that; assumption)
  have copy: "copy_args (length (xs @ [x])) argv m v s = (if ok then copy_args ?n argv m v1 s1 else Some (False, v1, s1))"
    using x c(1) by (simp add: str_end_run del: copy_bytes.simps)
  show ?case
  proof (cases ok)
    case False
    then show ?thesis using copy c by (intro exI [of _ False] exI [of _ v1] exI [of _ s1]) simp
  next
    case True
    note c3 = c(3) [unfolded if_P [OF True]]
    have p1: "unat (ar_p v1) = unat (ar_p v) - ?l" using c3 len(1) unat_minus_of_nat by metis
    have ok1: "vars_ok v1" "pages_ok (ar_page v1) s1" using c3 c(2) by (auto simp: args_step_def)
    have b: "?T \<le> unat (ar_p v1)" "unat (ar_p v1) \<le> 131072" using p1 len(2) snoc.prems(4) by simp_all
    have a: "\<forall>i<?n. argv i \<noteq> 0 \<and> cstr m (argv i) (xs ! i)"
    proof (intro allI impI)
      fix i assume "i < ?n"
      then show "argv i \<noteq> 0 \<and> cstr m (argv i) (xs ! i)" using snoc.prems(5) [rule_format, of i] by (simp add: nth_append)
    qed
    obtain ok' v' s' where r: "copy_args ?n argv m v1 s1 = Some (ok', v', s')" "args_step (ar_page v1) s1 (ar_page v') s'"
      "if ok' then vars_ok v' \<and> ar_p v' = ar_p v1 - of_nat ?T
          \<and> (\<forall>i<?T. ar_page v' ((unat (ar_p v1) - ?T + i) div 4096) \<noteq> 0
               \<and> arg_byte (ar_page v') s' (unat (ar_p v1) - ?T + i) = arg_image xs ! i)
          \<and> (\<forall>k<131072. ar_page v1 (k div 4096) \<noteq> 0 \<and> unat (ar_p v1) \<le> k \<longrightarrow> arg_byte (ar_page v') s' k = arg_byte (ar_page v1) s1 k)
        else (\<forall>i<3840. mem_map s' i \<noteq> 0)"
      using snoc.IH [OF ok1 b a] by (elim exE conjE) (rule that; assumption)
    have all: "args_step (ar_page v) s (ar_page v') s'" by (rule args_step_trans [OF c(2) r(2)])
    have cp: "copy_args (length (xs @ [x])) argv m v s = Some (ok', v', s')" using copy r(1) True by simp
    show ?thesis
    proof (cases ok')
      case False
      then show ?thesis using cp all r(3) by (intro exI [of _ ok'] exI [of _ v'] exI [of _ s']) simp
    next
      case ok': True
      note r3 = r(3) [unfolded if_P [OF ok']]
      have at: "ar_page v' ((unat (ar_p v) - (?T + ?l) + i) div 4096) \<noteq> 0
          \<and> arg_byte (ar_page v') s' (unat (ar_p v) - (?T + ?l) + i) = (arg_image xs @ x @ [0]) ! i" if i: "i < ?T + ?l" for i
      proof (cases "i < ?T")
        case True
        have "unat (ar_p v) - (?T + ?l) + i = unat (ar_p v1) - ?T + i" using p1 by simp
        then show ?thesis using r3 True by (simp only: nth_append if_True simp_thms)
      next
        case False
        define j where "j = i - ?T"
        have j: "j < ?l" "i = ?T + j" using i False by (simp_all add: j_def)
        let ?k = "unat (ar_p v) - ?l + j"
        have k: "unat (ar_p v) - (?T + ?l) + i = ?k" "?k < 131072" "unat (ar_p v1) \<le> ?k" "?k div 4096 < 32"
          using j len snoc.prems(4) p1 by simp_all
        have "ar_page v1 (?k div 4096) \<noteq> 0" "arg_byte (ar_page v1) s1 ?k = m (argv ?n + of_nat (length x) + 1 - of_nat (?l - j))"
          using c3 j(1) by blast+
        moreover have "argv ?n + of_nat (length x) + 1 - of_nat (?l - j) = argv ?n + of_nat j" using j(1) by (simp add: of_nat_diff)
        moreover have "m (argv ?n + of_nat j) = (x @ [0]) ! j" using cstr_nth [OF x(2)] j(1) by simp
        moreover have "ar_page v' (?k div 4096) = ar_page v1 (?k div 4096)" if "ar_page v1 (?k div 4096) \<noteq> 0"
          by (rule args_stepD(2) [OF r(2) k(4) that])
        moreover have "(arg_image xs @ x @ [0]) ! i = (x @ [0]) ! j" unfolding j(2) by (rule nth_append_length_plus)
        ultimately show ?thesis unfolding k(1) using r3 k(2,3) by metis
      qed
      have fr: "arg_byte (ar_page v') s' k = arg_byte (ar_page v) s k"
        if k: "k < 131072" "ar_page v (k div 4096) \<noteq> 0" "unat (ar_p v) \<le> k" for k
      proof -
        have "k div 4096 < 32" using k(1) by simp
        then have "ar_page v1 (k div 4096) \<noteq> 0" using c(2) k(2) by (simp add: args_step_def)
        then have "arg_byte (ar_page v') s' k = arg_byte (ar_page v1) s1 k" using r3 k p1 by simp
        then show ?thesis using c3 k by simp
      qed
      have vo: "vars_ok v'" using r3 by blast
      have p': "ar_p v' = ar_p v - of_nat (?T + ?l)" using r3 c3 by (simp add: algebra_simps)
      have L: "arg_image (xs @ [x]) = arg_image xs @ x @ [0]" "length (arg_image xs @ x @ [0]) = ?T + ?l" by simp_all
      from cp ok' have "copy_args (length (xs @ [x])) argv m v s = Some (True, v', s')" by simp
      moreover have "\<forall>i<?T + ?l. ar_page v' ((unat (ar_p v) - (?T + ?l) + i) div 4096) \<noteq> 0
          \<and> arg_byte (ar_page v') s' (unat (ar_p v) - (?T + ?l) + i) = (arg_image xs @ x @ [0]) ! i"
        by (intro allI impI) (rule at)
      moreover have "\<forall>k<131072. ar_page v (k div 4096) \<noteq> 0 \<and> unat (ar_p v) \<le> k \<longrightarrow> arg_byte (ar_page v') s' k = arg_byte (ar_page v) s k"
        by (intro allI impI) (rule fr, simp_all)
      ultimately show ?thesis unfolding L using all vo p'
        by (intro exI [of _ True] exI [of _ v'] exI [of _ s'] conjI) (simp_all only: if_True simp_thms)
    qed
  qed
qed

text \<open>\<open>copy_strings\<close> with strings that fit: it fails only when memory is used up.\<close>

lemma copy_strings_run:
  assumes "pages_ok page s" "length (arg_image xs) < unat p" "unat p \<le> 131072"
    "\<forall>i<length xs. argv i \<noteq> 0 \<and> cstr m (argv i) (xs ! i)"
  shows "\<exists>p' page' s'. copy_strings (int (length xs)) argv m page p s = Some ((p', page'), s') \<and> args_step page s page' s'
    \<and> (if p' = 0 then \<forall>i<3840. mem_map s' i \<noteq> 0
       else unat p' = unat p - length (arg_image xs)
          \<and> (\<forall>i<length (arg_image xs). page' ((unat p' + i) div 4096) \<noteq> 0 \<and> arg_byte page' s' (unat p' + i) = arg_image xs ! i)
          \<and> (\<forall>k<131072. page (k div 4096) \<noteq> 0 \<and> unat p \<le> k \<longrightarrow> arg_byte page' s' k = arg_byte page s k))"
proof -
  let ?v = "\<lparr>ar_p = p, ar_offset = 0, ar_pag = 0, ar_page = page\<rparr>"
  have v: "vars_ok ?v" "pages_ok (ar_page ?v) s" "length (arg_image xs) \<le> unat (ar_p ?v)" "unat (ar_p ?v) \<le> 131072"
    using assms by (simp_all add: vars_ok_def)
  obtain ok v' s' where r: "copy_args (length xs) argv m ?v s = Some (ok, v', s')" "args_step (ar_page ?v) s (ar_page v') s'"
    "if ok then vars_ok v' \<and> ar_p v' = ar_p ?v - of_nat (length (arg_image xs))
          \<and> (\<forall>i<length (arg_image xs). ar_page v' ((unat (ar_p ?v) - length (arg_image xs) + i) div 4096) \<noteq> 0
               \<and> arg_byte (ar_page v') s' (unat (ar_p ?v) - length (arg_image xs) + i) = arg_image xs ! i)
          \<and> (\<forall>k<131072. ar_page ?v (k div 4096) \<noteq> 0 \<and> unat (ar_p ?v) \<le> k \<longrightarrow> arg_byte (ar_page v') s' k = arg_byte (ar_page ?v) s k)
        else (\<forall>i<3840. mem_map s' i \<noteq> 0)"
    using copy_args_run [OF v assms(4)] by (elim exE conjE) (rule that; assumption)
  have c: "copy_strings (int (length xs)) argv m page p s = Some ((if ok then ar_p v' else 0, ar_page v'), s')"
    using r(1) assms(2) by (auto simp: copy_strings_def)
  show ?thesis
  proof (cases ok)
    case True
    have u: "unat (ar_p v') = unat p - length (arg_image xs)" using r(3) True assms(2) unat_minus_of_nat [of "length (arg_image xs)" p] by simp
    then have "ar_p v' \<noteq> 0" using assms(2) by auto
    then show ?thesis using c r(2,3) True u by (intro exI [of _ "ar_p v'"] exI [of _ "ar_page v'"] exI [of _ s']) simp
  next
    case False
    then show ?thesis using c r(2,3) by (intro exI [of _ 0] exI [of _ "ar_page v'"] exI [of _ s']) simp
  qed
qed

section \<open>The pointer tables\<close>

primrec strings_at :: "segment \<Rightarrow> u32 \<Rightarrow> u8 list list \<Rightarrow> bool" where
  "strings_at m p [] \<longleftrightarrow> True"
| "strings_at m p (x # xs) \<longleftrightarrow> cstr m p x \<and> strings_at m (p + of_nat (Suc (length x))) xs"

lemma strings_at_append:
  "strings_at m p (xs @ ys) \<longleftrightarrow> strings_at m p xs \<and> strings_at m (p + of_nat (length (arg_image xs))) ys"
  by (induction xs arbitrary: p) (simp_all add: algebra_simps)

lemma strings_at_cong:
  "strings_at m p xs \<Longrightarrow> (\<And>i. i < length (arg_image xs) \<Longrightarrow> m' (p + of_nat i) = m (p + of_nat i)) \<Longrightarrow> strings_at m' p xs"
proof (induction xs arbitrary: p)
  case (Cons x xs)
  have "cstr m' p x" using Cons.prems by (intro cstr_cong [of m p x m']) simp_all
  moreover have "strings_at m' (p + of_nat (Suc (length x))) xs"
  proof (rule Cons.IH)
    show "strings_at m (p + of_nat (Suc (length x))) xs" using Cons.prems(1) by simp
    fix i assume "i < length (arg_image xs)"
    then show "m' (p + of_nat (Suc (length x)) + of_nat i) = m (p + of_nat (Suc (length x)) + of_nat i)"
      using Cons.prems(2) [of "Suc (length x) + i"] by (simp add: algebra_simps)
  qed
  ultimately show ?case by simp
qed simp

lemma strings_at_image:
  "(\<forall>i<length (arg_image xs). m (p + of_nat i) = arg_image xs ! i) \<Longrightarrow> \<forall>x\<in>set xs. 0 \<notin> set x \<Longrightarrow> strings_at m p xs"
proof (induction xs arbitrary: p)
  case (Cons x xs)
  have "cstr m p x"
    unfolding cstr_iff
  proof (intro conjI allI impI)
    fix i assume "i < length x"
    then show "m (p + of_nat i) = x ! i" "x ! i \<noteq> 0"
      using Cons.prems(1) [rule_format, of i] Cons.prems(2) by (auto simp: nth_append dest: nth_mem)
  next
    show "m (p + of_nat (length x)) = 0" using Cons.prems(1) [rule_format, of "length x"] by (simp add: nth_append)
  qed
  moreover have "m (p + of_nat (Suc (length x)) + of_nat i) = arg_image xs ! i" if "i < length (arg_image xs)" for i
    using Cons.prems(1) [rule_format, of "Suc (length x) + i"] that by (simp add: nth_append algebra_simps)
  ultimately show ?case using Cons.IH Cons.prems(2) by simp
qed simp

lemma skip_string_run: "cstr m p x \<Longrightarrow> skip_string m p = Some (p + of_nat (Suc (length x)))"
proof (induction x arbitrary: p)
  case Nil
  then show ?case by (subst skip_string.simps) simp
next
  case (Cons c x)
  then show ?case using Cons.IH [of "p + 1"] by (subst skip_string.simps) (simp add: algebra_simps)
qed

text \<open>The address of the \<open>i\<close>th of the strings that start at \<open>p\<close>.\<close>

definition string_addr :: "u32 \<Rightarrow> u8 list list \<Rightarrow> nat \<Rightarrow> u32" where
  "string_addr p xs i = p + of_nat (length (arg_image (take i xs)))"

text \<open>Stores into the data segment, at addresses that do not wrap.\<close>

definition only_writes :: "nat \<Rightarrow> nat \<Rightarrow> 'a sched_state_scheme \<Rightarrow> 'a sched_state_scheme \<Rightarrow> bool" where
  "only_writes lo hi s s' \<longleftrightarrow> (\<exists>m. s' = s\<lparr>fs_mem := m\<rparr>) \<and> (\<forall>x. \<not> (lo \<le> unat x \<and> unat x < hi) \<longrightarrow> fs_mem s' x = fs_mem s x)"

lemma only_writes_refl: "only_writes lo hi s s"
  unfolding only_writes_def by (intro conjI exI [of _ "fs_mem s"]) simp_all

lemma only_writes_trans: "only_writes lo hi s s' \<Longrightarrow> only_writes lo hi s' s'' \<Longrightarrow> only_writes lo hi s s''"
  unfolding only_writes_def by auto

lemma only_writes_mono: "only_writes lo hi s s' \<Longrightarrow> lo' \<le> lo \<Longrightarrow> hi \<le> hi' \<Longrightarrow> only_writes lo' hi' s s'"
  unfolding only_writes_def by (metis le_trans less_le_trans)

lemma unat_plus3:
  assumes "unat (a :: u32) + 3 < 4294967296"
  shows "unat (a + 1) = unat a + 1" "unat (a + 2) = unat a + 2" "unat (a + 3) = unat a + 3"
  using assms unat_add_of_nat [of a 1] unat_add_of_nat [of a 2] unat_add_of_nat [of a 3] by simp_all

lemma put_fs_long_writes:
  assumes "unat a + 3 < 4294967296"
  shows "only_writes (unat a) (unat a + 4) s (put_fs_long v a s)"
  using unat_plus3 [OF assms] by (auto simp: only_writes_def put_fs_long_def)

lemma get_fs_long_kept:
  assumes "only_writes lo hi s s'" "unat a + 3 < 4294967296" "unat a + 4 \<le> lo \<or> hi \<le> unat a"
  shows "get_fs_long a s' = get_fs_long a s"
proof -
  have "fs_mem s' x = fs_mem s x" if "unat a \<le> unat x" "unat x < unat a + 4" for x
    using assms(1,3) that unfolding only_writes_def by fastforce
  then show ?thesis using unat_plus3 [OF assms(2)] by (simp add: get_fs_long_def)
qed

lemma strings_kept:
  assumes "only_writes lo hi s s'" "strings_at (fs_mem s) p xs" "\<And>i. i < length (arg_image xs) \<Longrightarrow> hi \<le> unat (p + of_nat i)"
  shows "strings_at (fs_mem s') p xs"
  using assms(1,3) by (intro strings_at_cong [OF assms(2)]) (fastforce simp: only_writes_def)

lemma put_pointers_run:
  assumes "strings_at (fs_mem s) p xs" "\<And>i. i < length (arg_image xs) \<Longrightarrow> unat tab + 4 * length xs \<le> unat (p + of_nat i)"
    "unat tab + 4 * length xs < 4294967296"
  shows "\<exists>s'. put_pointers (length xs) p tab s = Some (p + of_nat (length (arg_image xs)), tab + 4 * of_nat (length xs), s')
    \<and> only_writes (unat tab) (unat tab + 4 * length xs) s s'
    \<and> (\<forall>i<length xs. get_fs_long (tab + 4 * of_nat i) s' = string_addr p xs i)"
  using assms
proof (induction xs arbitrary: p tab s)
  case Nil
  then show ?case by (simp add: only_writes_refl)
next
  case (Cons x xs)
  let ?s = "put_fs_long p tab s" and ?p = "p + of_nat (Suc (length x))"
  have w: "only_writes (unat tab) (unat tab + 4) s ?s" using Cons.prems(3) by (intro put_fs_long_writes) simp
  have st: "strings_at (fs_mem ?s) p (x # xs)"
  proof (rule strings_kept [OF w Cons.prems(1)])
    fix i assume "i < length (arg_image (x # xs))"
    then show "unat tab + 4 \<le> unat (p + of_nat i)" using Cons.prems(2) [of i] by simp
  qed
  have t: "unat (tab + 4) = unat tab + 4" using Cons.prems(3) unat_add_of_nat [of tab 4] by simp
  have "\<exists>s'. put_pointers (length xs) ?p (tab + 4) ?s = Some (?p + of_nat (length (arg_image xs)), tab + 4 + 4 * of_nat (length xs), s')
    \<and> only_writes (unat (tab + 4)) (unat (tab + 4) + 4 * length xs) ?s s'
    \<and> (\<forall>i<length xs. get_fs_long (tab + 4 + 4 * of_nat i) s' = string_addr ?p xs i)"
  proof (rule Cons.IH)
    show "strings_at (fs_mem ?s) ?p xs" using st by simp
    show "unat (tab + 4) + 4 * length xs < 4294967296" using t Cons.prems(3) by simp
    fix i assume "i < length (arg_image xs)"
    then show "unat (tab + 4) + 4 * length xs \<le> unat (?p + of_nat i)"
      using Cons.prems(2) [of "Suc (length x) + i"] t by (simp add: algebra_simps)
  qed
  then obtain s' where s': "put_pointers (length xs) ?p (tab + 4) ?s = Some (?p + of_nat (length (arg_image xs)), tab + 4 + 4 * of_nat (length xs), s')"
    "only_writes (unat (tab + 4)) (unat (tab + 4) + 4 * length xs) ?s s'"
    "\<forall>i<length xs. get_fs_long (tab + 4 + 4 * of_nat i) s' = string_addr ?p xs i" by blast
  have "skip_string (fs_mem ?s) p = Some ?p" using st by (intro skip_string_run) simp
  then have "put_pointers (length (x # xs)) p tab s = Some (p + of_nat (length (arg_image (x # xs))), tab + 4 * of_nat (length (x # xs)), s')"
    using s'(1) by (simp add: Let_def algebra_simps)
  moreover have "only_writes (unat tab) (unat tab + 4 * length (x # xs)) s s'"
    by (rule only_writes_trans [OF only_writes_mono [OF w] only_writes_mono [OF s'(2)]]) (simp_all add: t)
  moreover have "get_fs_long (tab + 4 * of_nat i) s' = string_addr p (x # xs) i" if "i < length (x # xs)" for i
  proof (cases i)
    case 0
    have "get_fs_long tab s' = get_fs_long tab ?s" by (rule get_fs_long_kept [OF s'(2)]) (use Cons.prems(3) t in simp_all)
    then show ?thesis using 0 by (simp add: string_addr_def)
  next
    case (Suc j)
    then show ?thesis using s'(3) [rule_format, of j] that by (simp add: string_addr_def algebra_simps)
  qed
  ultimately show ?case by blast
qed

lemma unat_align4: "unat (0xfffffffc AND p :: u32) = unat p div 4 * 4"
proof -
  have m: "(0xfffffffc :: u32) = NOT (mask 2)" by (simp add: mask_eq_exp_minus_1)
  have e: "0xfffffffc AND p = push_bit 2 (drop_bit 2 p)" unfolding m by (rule bit_word_eqI) (auto simp: bit_simps le_iff_add not_less)
  have "unat (0xfffffffc AND p) = take_bit 32 (push_bit 2 (unat (drop_bit 2 p)))" unfolding e unsigned_push_bit_eq by simp
  also have "\<dots> = (unat p div 4 * 4) mod 4294967296"
    by (simp add: push_bit_eq_mult take_bit_eq_mod drop_bit_eq_div unat_div)
  finally have "unat (0xfffffffc AND p) = (unat p div 4 * 4) mod 4294967296" .
  then show ?thesis using unat_less_u32 [of p] by simp
qed

text \<open>The stack that \<open>create_tables\<close> leaves: \<open>argc\<close>, \<open>argv\<close>, \<open>envp\<close>, and the two arrays of pointers.\<close>

definition program_stack :: "u32 \<Rightarrow> u32 \<Rightarrow> u8 list list \<Rightarrow> u8 list list \<Rightarrow> 'a sched_state_scheme \<Rightarrow> bool" where
  "program_stack sp p args envs s \<longleftrightarrow>
     (let argv = sp + 12; envp = argv + 4 * of_nat (length args + 1) in
      get_fs_long sp s = of_nat (length args) \<and> get_fs_long (sp + 4) s = argv \<and> get_fs_long (sp + 8) s = envp
      \<and> (\<forall>i<length args. get_fs_long (argv + 4 * of_nat i) s = string_addr p args i \<and> cstr (fs_mem s) (string_addr p args i) (args ! i))
      \<and> get_fs_long (argv + 4 * of_nat (length args)) s = 0
      \<and> (\<forall>i<length envs. get_fs_long (envp + 4 * of_nat i) s = string_addr p (args @ envs) (length args + i)
           \<and> cstr (fs_mem s) (string_addr p (args @ envs) (length args + i)) (envs ! i))
      \<and> get_fs_long (envp + 4 * of_nat (length envs)) s = 0)"

lemma strings_at_nth: "strings_at m p xs \<Longrightarrow> i < length xs \<Longrightarrow> cstr m (string_addr p xs i) (xs ! i)"
proof (induction xs arbitrary: p i)
  case (Cons x xs)
  then show ?case using Cons.IH [of "p + of_nat (Suc (length x))" "i - 1"] by (cases i) (simp_all add: string_addr_def algebra_simps)
qed simp

lemma create_tables_run:
  assumes "strings_at (fs_mem s) p (args @ envs)" "4 * (length args + length envs + 5) + 3 \<le> unat p"
    "unat p + length (arg_image (args @ envs)) \<le> 4294967296"
  defines "sp \<equiv> (0xfffffffc AND p) - of_nat (4 * (length args + length envs + 5))"
  shows "\<exists>s'. create_tables p (int (length args)) (int (length envs)) s = Some (sp, s') \<and> program_stack sp p args envs s'
    \<and> unat sp = unat p div 4 * 4 - 4 * (length args + length envs + 5) \<and> only_writes (unat sp) (unat p) s s'"
proof -
  let ?a = "length args" and ?e = "length envs"
  define N where "N = 4 * (?a + ?e + 5)"
  have usp: "unat sp = unat p div 4 * 4 - N"
    unfolding sp_def N_def [symmetric] using assms(2) by (subst unat_minus_of_nat) (simp_all add: unat_align4 N_def)
  have base: "unat sp + N \<le> unat p" "unat p < 4294967296" using usp assms(2) unat_less_u32 [of p] by (simp_all add: N_def)
  have at: "unat (sp + of_nat k) = unat sp + k" if "k \<le> N" for k using base that by (intro unat_add_of_nat) simp
  define argv where "argv = sp + 12"
  define envp where "envp = argv + 4 * of_nat (?a + 1)"
  have u: "unat (sp + 4) = unat sp + 4" "unat (sp + 8) = unat sp + 8" "unat argv = unat sp + 12" "unat envp = unat sp + 12 + 4 * (?a + 1)"
    using at [of 4] at [of 8] at [of 12] at [of "12 + 4 * (?a + 1)"] by (simp_all add: N_def argv_def envp_def algebra_simps)
  let ?p2 = "p + of_nat (length (arg_image args))"
  have far: "unat p \<le> unat (p + of_nat i)" if "i < length (arg_image (args @ envs))" for i
    using assms(3) that by (subst unat_add_of_nat) simp_all
  define s1 where "s1 = put_fs_long envp (sp + 8) s"
  define s2 where "s2 = put_fs_long argv (sp + 4) s1"
  define s3 where "s3 = put_fs_long (of_nat ?a) sp s2"
  have w1: "only_writes (unat sp + 8) (unat sp + 12) s s1"
    unfolding s1_def by (rule only_writes_mono [OF put_fs_long_writes]) (use u base in \<open>simp_all add: N_def\<close>)
  have w2: "only_writes (unat sp + 4) (unat sp + 8) s1 s2"
    unfolding s2_def by (rule only_writes_mono [OF put_fs_long_writes]) (use u base in \<open>simp_all add: N_def\<close>)
  have w3: "only_writes (unat sp) (unat sp + 4) s2 s3"
    unfolding s3_def by (rule only_writes_mono [OF put_fs_long_writes]) (use u base in \<open>simp_all add: N_def\<close>)
  have w03: "only_writes (unat sp) (unat sp + 12) s s3"
    by (intro only_writes_trans [OF only_writes_mono [OF w1] only_writes_trans [OF only_writes_mono [OF w2] only_writes_mono [OF w3]]]) simp_all
  have st3: "strings_at (fs_mem s3) p (args @ envs)"
    by (rule strings_kept [OF w03 assms(1)]) (use far base in \<open>fastforce simp: N_def\<close>)
  have "\<exists>s4. put_pointers ?a p argv s3 = Some (?p2, argv + 4 * of_nat ?a, s4)
      \<and> only_writes (unat argv) (unat argv + 4 * ?a) s3 s4 \<and> (\<forall>i<?a. get_fs_long (argv + 4 * of_nat i) s4 = string_addr p args i)"
  proof (rule put_pointers_run)
    show "strings_at (fs_mem s3) p args" using st3 by (simp add: strings_at_append)
    show "unat argv + 4 * ?a < 4294967296" using u base by (simp add: N_def)
    fix i assume "i < length (arg_image args)"
    then show "unat argv + 4 * ?a \<le> unat (p + of_nat i)" using far [of i] u base by (simp add: N_def)
  qed
  then obtain s4 where s4: "put_pointers ?a p argv s3 = Some (?p2, argv + 4 * of_nat ?a, s4)"
    "only_writes (unat argv) (unat argv + 4 * ?a) s3 s4" "\<forall>i<?a. get_fs_long (argv + 4 * of_nat i) s4 = string_addr p args i" by blast
  have uz: "unat (argv + 4 * of_nat ?a) = unat argv + 4 * ?a" "envp = argv + 4 * of_nat ?a + 4"
    using at [of "12 + 4 * ?a"] by (simp_all add: N_def argv_def envp_def u(3) [unfolded argv_def] algebra_simps)
  define s5 where "s5 = put_fs_long 0 (argv + 4 * of_nat ?a) s4"
  have w5: "only_writes (unat argv + 4 * ?a) (unat envp) s4 s5"
    unfolding s5_def by (rule only_writes_mono [OF put_fs_long_writes]) (use u uz base in \<open>simp_all add: N_def\<close>)
  have w35: "only_writes (unat sp + 12) (unat envp) s3 s5"
    by (rule only_writes_trans [OF only_writes_mono [OF s4(2)] only_writes_mono [OF w5]]) (simp_all add: u)
  have st5: "strings_at (fs_mem s5) p (args @ envs)"
    by (rule strings_kept [OF w35 st3]) (use far base u in \<open>fastforce simp: N_def\<close>)
  have far2: "unat envp + 4 * ?e \<le> unat (?p2 + of_nat i)" if "i < length (arg_image envs)" for i
    using far [of "length (arg_image args) + i"] that base u by (simp add: N_def algebra_simps)
  have "\<exists>s6. put_pointers ?e ?p2 envp s5 = Some (?p2 + of_nat (length (arg_image envs)), envp + 4 * of_nat ?e, s6)
      \<and> only_writes (unat envp) (unat envp + 4 * ?e) s5 s6 \<and> (\<forall>i<?e. get_fs_long (envp + 4 * of_nat i) s6 = string_addr ?p2 envs i)"
  proof (rule put_pointers_run)
    show "strings_at (fs_mem s5) ?p2 envs" using st5 by (simp add: strings_at_append)
    show "unat envp + 4 * ?e < 4294967296" using u base by (simp add: N_def)
  qed (rule far2)
  then obtain s6 where s6: "put_pointers ?e ?p2 envp s5 = Some (?p2 + of_nat (length (arg_image envs)), envp + 4 * of_nat ?e, s6)"
    "only_writes (unat envp) (unat envp + 4 * ?e) s5 s6" "\<forall>i<?e. get_fs_long (envp + 4 * of_nat i) s6 = string_addr ?p2 envs i" by blast
  have ue: "unat (envp + 4 * of_nat ?e) = unat envp + 4 * ?e"
  proof -
    have "envp + 4 * of_nat ?e = sp + of_nat (12 + 4 * (?a + 1) + 4 * ?e)" by (simp add: envp_def argv_def)
    then show ?thesis using at [of "12 + 4 * (?a + 1) + 4 * ?e"] u(4) by (simp only:) (simp add: N_def)
  qed
  define s7 where "s7 = put_fs_long 0 (envp + 4 * of_nat ?e) s6"
  have w7: "only_writes (unat envp + 4 * ?e) (unat p) s6 s7"
    unfolding s7_def by (rule only_writes_mono [OF put_fs_long_writes]) (use u ue base in \<open>simp_all add: N_def\<close>)
  have w57: "only_writes (unat envp) (unat p) s5 s7"
    by (rule only_writes_trans [OF only_writes_mono [OF s6(2)] only_writes_mono [OF w7]]) (use u base in \<open>simp_all add: N_def\<close>)
  have w47: "only_writes (unat argv + 4 * ?a) (unat p) s4 s7"
    by (rule only_writes_trans [OF only_writes_mono [OF w5] only_writes_mono [OF w57]]) (use u base in \<open>simp_all add: N_def\<close>)
  have w37: "only_writes (unat sp + 12) (unat p) s3 s7"
    by (rule only_writes_trans [OF only_writes_mono [OF s4(2)] only_writes_mono [OF w47]]) (use u base in \<open>simp_all add: N_def\<close>)
  have w07: "only_writes (unat sp) (unat p) s s7"
    by (rule only_writes_trans [OF only_writes_mono [OF w03] only_writes_mono [OF w37]]) (use u base in \<open>simp_all add: N_def\<close>)
  have st7: "strings_at (fs_mem s7) p (args @ envs)" by (rule strings_kept [OF w07 assms(1)]) (use far in blast)
  have run: "create_tables p (int ?a) (int ?e) s = Some (sp, s7)"
  proof -
    have e: "(0xfffffffc AND p) - 4 * word_of_int (int ?e + 1) = envp"
      "envp - 4 * word_of_int (int ?a + 1) = argv" "argv - 4 = sp + 8" "argv - 8 = sp + 4" "argv - 12 = sp"
      by (simp_all add: sp_def argv_def envp_def algebra_simps)
    show ?thesis using s4(1) s6(1) unfolding create_tables_def Let_def e
      by (simp add: s1_def [symmetric] s2_def [symmetric] s3_def [symmetric] s5_def [symmetric] s7_def [symmetric])
  qed
  have "program_stack sp p args envs s7"
    unfolding program_stack_def Let_def argv_def [symmetric] envp_def [symmetric]
  proof (intro conjI allI impI)
    have b: "unat sp + 12 < 4294967296" using base by (simp add: N_def)
    have k: "get_fs_long x s7 = get_fs_long x s3" if "unat x + 4 \<le> unat sp + 12" for x
      by (rule get_fs_long_kept [OF w37]) (use that b in simp_all)
    have k3: "get_fs_long x s3 = get_fs_long x s2" if "unat sp + 4 \<le> unat x" "unat x \<le> unat sp + 8" for x
      by (rule get_fs_long_kept [OF w3]) (use that b in simp_all)
    show "get_fs_long sp s7 = of_nat ?a" using k [of sp] by (simp add: s3_def)
    show "get_fs_long (sp + 4) s7 = argv" using k [of "sp + 4"] k3 [of "sp + 4"] u by (simp add: s2_def)
    have "get_fs_long (sp + 8) s2 = get_fs_long (sp + 8) s1" by (rule get_fs_long_kept [OF w2]) (use u b in simp_all)
    then show "get_fs_long (sp + 8) s7 = envp" using k [of "sp + 8"] k3 [of "sp + 8"] u by (simp add: s1_def)
  next
    fix i assume i: "i < ?a"
    have "argv + 4 * of_nat i = sp + of_nat (12 + 4 * i)" by (simp add: argv_def)
    then have "unat (argv + 4 * of_nat i) = unat argv + 4 * i" using at [of "12 + 4 * i"] i u(3) by (simp only:) (simp add: N_def)
    then have "get_fs_long (argv + 4 * of_nat i) s7 = get_fs_long (argv + 4 * of_nat i) s4"
      by (intro get_fs_long_kept [OF w47]) (use i u base in \<open>simp_all add: N_def\<close>)
    then show "get_fs_long (argv + 4 * of_nat i) s7 = string_addr p args i" using s4(3) i by simp
    show "cstr (fs_mem s7) (string_addr p args i) (args ! i)"
      using st7 i by (intro strings_at_nth) (simp_all add: strings_at_append)
  next
    have "get_fs_long (argv + 4 * of_nat ?a) s7 = get_fs_long (argv + 4 * of_nat ?a) s5"
      by (rule get_fs_long_kept [OF w57]) (use uz u base in \<open>simp_all add: N_def\<close>)
    then show "get_fs_long (argv + 4 * of_nat ?a) s7 = 0" by (simp add: s5_def)
  next
    fix i assume i: "i < ?e"
    have "envp + 4 * of_nat i = sp + of_nat (12 + 4 * (?a + 1) + 4 * i)" by (simp add: envp_def argv_def)
    then have "unat (envp + 4 * of_nat i) = unat envp + 4 * i" using at [of "12 + 4 * (?a + 1) + 4 * i"] i u(4) by (simp only:) (simp add: N_def)
    then have "get_fs_long (envp + 4 * of_nat i) s7 = get_fs_long (envp + 4 * of_nat i) s6"
      by (intro get_fs_long_kept [OF w7]) (use i u base in \<open>simp_all add: N_def\<close>)
    moreover have "string_addr p (args @ envs) (?a + i) = string_addr ?p2 envs i" by (simp add: string_addr_def)
    ultimately show "get_fs_long (envp + 4 * of_nat i) s7 = string_addr p (args @ envs) (?a + i)" using s6(3) i by simp
    show "cstr (fs_mem s7) (string_addr p (args @ envs) (?a + i)) (envs ! i)"
      using strings_at_nth [OF st7, of "?a + i"] i by (simp add: nth_append)
  next
    show "get_fs_long (envp + 4 * of_nat ?e) s7 = 0" by (simp add: s7_def)
  qed
  then show ?thesis using run usp w07 unfolding N_def by blast
qed

end
