(* ===== verification/Exec_Stack.thy ===== *)
theory Exec_Stack
  imports Exec_Args
begin

text \<open>
  The stack of a new program: \<open>change_ldt\<close> maps the argument pages at the top of the data segment, and
  \<open>create_tables\<close> builds \<open>argc\<close>, \<open>argv\<close> and \<open>envp\<close> below the strings (\<open>program_stack\<close>). The properties of
  the argument area are at the end.
\<close>

section \<open>The pages in the new segment\<close>

text \<open>The linear address of page \<open>k\<close> of the arguments, for a segment of 64 MB at \<open>B\<close>, and of a byte of it.\<close>

definition arg_addr :: "nat \<Rightarrow> nat \<Rightarrow> addr" where
  "arg_addr nr q = of_nat (67108864 * nr + 66977792 + q)"

lemma unat_arg_addr: "nr < 64 \<Longrightarrow> q < 131072 \<Longrightarrow> unat (arg_addr nr q) = 67108864 * nr + 66977792 + q"
  unfolding arg_addr_def by (rule unat_of_nat_u32) simp

definition arg_dir :: "nat \<Rightarrow> addr" where "arg_dir nr = dir_slot (arg_addr nr 0)"

lemma arg_slots:
  assumes "nr < 64" "q < 131072"
  shows "dir_slot (arg_addr nr q) = arg_dir nr" "unat (table_slot (arg_addr nr q)) = (992 + q div 4096) * 4"
proof -
  have d: "unat (dir_slot (arg_addr nr q)) = (16 * nr + 15) * 4" if "q < 131072" for q
  proof -
    have "67108864 * nr + 66977792 + q = 4194304 * (16 * nr + 15) + (4063232 + q)" by simp
    then have "(67108864 * nr + 66977792 + q) div 4194304 = 16 * nr + 15" using that by simp
    then show ?thesis using that assms(1) by (simp only: unat_dir_slot unat_arg_addr)
  qed
  show "dir_slot (arg_addr nr q) = arg_dir nr" using d [of q] d [of 0] assms(2) by (simp add: arg_dir_def word_unat_eq_iff)
  have "67108864 * nr + 66977792 + q = 4096 * (16384 * nr + 16352) + q" by simp
  then have "(67108864 * nr + 66977792 + q) div 4096 = 16384 * nr + 16352 + q div 4096" by simp
  moreover have "(16384 * nr + 16352 + q div 4096) mod 1024 = 992 + q div 4096"
  proof -
    have "16384 * nr + 16352 + q div 4096 = (992 + q div 4096) + (16 * nr + 15) * 1024" by simp
    moreover have "992 + q div 4096 < 1024" using assms(2) by simp
    ultimately show ?thesis by (metis mod_less mod_mult_self1)
  qed
  ultimately show "unat (table_slot (arg_addr nr q)) = (992 + q div 4096) * 4"
    using assms by (simp only: unat_table_slot unat_arg_addr)
qed

text \<open>Before and while the pages are mapped: the directory entry is absent and a frame is free for the table, or
  it is present, with a table of its own.\<close>

definition table_ready :: "nat \<Rightarrow> (nat \<Rightarrow> addr) \<Rightarrow> 'a mm_state_scheme \<Rightarrow> bool" where
  "table_ready nr page s \<longleftrightarrow> (let e = phys s (arg_dir nr) in
     if 1 AND e = 0 then \<exists>i<3840. mem_map s i = 0 else page_of e \<noteq> 0 \<and> in_use s e \<and> outside page e)"

lemma get_free_page_only: "get_free_page s = (p, s') \<Longrightarrow> \<exists>m ph. s' = s\<lparr>mem_map := m, phys := ph\<rparr>"
proof (erule get_free_page_cases)
  assume "s' = s"
  then show "\<exists>m ph. s' = s\<lparr>mem_map := m, phys := ph\<rparr>" by (intro exI [of _ "mem_map s"] exI [of _ "phys s"]) simp
qed blast

lemma put_arg_page:
  assumes "nr < 64" "k < 32" "page k \<noteq> 0" "pages_ok page s" "table_ready nr page s"
  shows "\<exists>s'. put_page (page k) (arg_addr nr (4096 * k)) s = (page k, s') \<and> (\<exists>m ph. s' = s\<lparr>mem_map := m, phys := ph\<rparr>)
    \<and> 1 AND phys s' (arg_dir nr) \<noteq> 0 \<and> table_ready nr page s' \<and> pages_ok page s'
    \<and> walk s' (arg_addr nr (4096 * k)) = page k OR 7
    \<and> (\<forall>l<32. l \<noteq> k \<longrightarrow> 1 AND phys s (arg_dir nr) \<noteq> 0 \<longrightarrow> walk s' (arg_addr nr (4096 * l)) = walk s (arg_addr nr (4096 * l)))
    \<and> (\<forall>q<131072. page (q div 4096) \<noteq> 0 \<longrightarrow> arg_byte page s' q = arg_byte page s q)"
proof -
  let ?a = "arg_addr nr (4096 * k)" and ?d = "arg_dir nr"
  have d: "dir_slot (arg_addr nr (4096 * l)) = ?d" if "l < 32" for l using arg_slots(1) [OF assms(1), of "4096 * l"] that by simp
  have tl: "table_slot (arg_addr nr (4096 * l)) \<noteq> table_slot ?a" if "l < 32" "l \<noteq> k" for l
    using arg_slots(2) [OF assms(1), of "4096 * l"] arg_slots(2) [OF assms(1), of "4096 * k"] that assms(2)
    by (auto simp: word_unat_eq_iff)
  have pd: "page_of ?d = 0" by (simp add: arg_dir_def)
  show ?thesis
  proof (cases "1 AND phys s ?d = 0")
    case False
    define T where "T = page_of (phys s ?d)"
    have T: "T \<noteq> 0" "in_use s T" "outside page T" "page_of T = T" using assms(5) False
      by (simp_all add: table_ready_def Let_def T_def in_use_def outside_def)
    let ?x = "T + table_slot ?a" and ?s = "s\<lparr>phys := (phys s)(T + table_slot ?a := page k OR 7)\<rparr>"
    have px: "page_of (T + table_slot b) = T" for b using T(4) by (rule page_of_table_slot)
    have xd: "?x \<noteq> ?d" using px [of ?a] pd T(1) by auto
    have put: "put_page (page k) ?a s = (page k, ?s)" using False d [OF assms(2)] by (simp add: put_page_cases Let_def T_def)
    have "walk ?s ?a = page k OR 7" using False d [OF assms(2)] xd by (simp add: walk_def Let_def T_def)
    moreover have "walk ?s (arg_addr nr (4096 * l)) = walk s (arg_addr nr (4096 * l))" if "l < 32" "l \<noteq> k" for l
      using False d [OF that(1)] xd tl [OF that] by (simp add: walk_def Let_def T_def)
    moreover have "arg_byte page ?s q = arg_byte page s q" if q: "q < 131072" "page (q div 4096) \<noteq> 0" for q
    proof -
      have l: "q div 4096 < 32" using q(1) by simp
      have "page_of (page (q div 4096) + of_nat (q mod 4096)) = page (q div 4096)"
        using pages_okD(1) [OF assms(4) l q(2)] by (simp add: page_byte)
      moreover have "page (q div 4096) \<noteq> T" using T(3,4) l q(2) by (auto simp: outside_def)
      ultimately show ?thesis unfolding arg_byte_def by (intro get_byte_page) (use px in auto)
    qed
    moreover have "pages_ok page ?s" using assms(4) by (simp add: pages_ok_def)
    moreover have "table_ready nr page ?s" using assms(5) False xd by (simp add: table_ready_def Let_def in_use_def)
    moreover have "\<exists>m ph. ?s = s\<lparr>mem_map := m, phys := ph\<rparr>" by (rule exI [of _ "mem_map s"]) auto
    ultimately show ?thesis using put False xd by (intro exI [of _ ?s]) simp
  next
    case True
    obtain p s1 where g: "get_free_page s = (p, s1)" by (cases "get_free_page s")
    have "p \<noteq> 0" using assms(5) True g get_free_page_effect [of s] by (auto simp: table_ready_def Let_def)
    note f = fresh_page_facts [OF g this]
    have px: "page_of (p + table_slot b) = p" for b using f(1) by (rule page_of_table_slot)
    have xd: "p + table_slot ?a \<noteq> ?d" using px [of ?a] pd \<open>p \<noteq> 0\<close> by auto
    let ?s = "s1\<lparr>phys := (phys s1)(?d := p OR 7, p + table_slot ?a := page k OR 7)\<rparr>"
    have put: "put_page (page k) ?a s = (page k, ?s)" using True d [OF assms(2)] g \<open>p \<noteq> 0\<close> by (simp add: put_page_cases Let_def)
    have pr: "1 AND (p OR 7) \<noteq> 0" "page_of (p OR 7) = p" using present_or7 [of p] page_of_or7 [OF f(1)] by simp_all
    have other: "page l \<noteq> p" if "l < 32" "page l \<noteq> 0" for l using pages_okD(3) [OF assms(4) that] f(5) by auto
    have "walk ?s ?a = page k OR 7" using d [OF assms(2)] xd pr by (simp add: walk_def Let_def)
    moreover have "arg_byte page ?s q = arg_byte page s q" if q: "q < 131072" "page (q div 4096) \<noteq> 0" for q
    proof -
      have l: "q div 4096 < 32" using q(1) by simp
      have pq: "page_of (page (q div 4096) + of_nat (q mod 4096)) = page (q div 4096)"
        using pages_okD(1) [OF assms(4) l q(2)] by (simp add: page_byte)
      show ?thesis unfolding arg_byte_def
      proof (rule get_byte_page)
        fix x assume "page_of x = page_of (page (q div 4096) + of_nat (q mod 4096))"
        then have x: "page_of x = page (q div 4096)" using pq by simp
        then have "x \<noteq> ?d" "x \<noteq> p + table_slot ?a" "page_of x \<noteq> p" using pd q(2) px [of ?a] other [OF l q(2)] by auto
        then show "phys ?s x = phys s x" using f(4) by simp
      qed
    qed
    moreover have "pages_ok page ?s" using assms(4) f(6) by (auto simp: pages_ok_def)
    moreover have "table_ready nr page ?s"
      using xd pr f(6) other \<open>p \<noteq> 0\<close> by (simp add: table_ready_def Let_def in_use_def outside_def)
    moreover have "\<exists>m ph. ?s = s\<lparr>mem_map := m, phys := ph\<rparr>"
    proof -
      obtain m ph where "s1 = s\<lparr>mem_map := m, phys := ph\<rparr>" using get_free_page_only [OF g] by blast
      then have "?s = s\<lparr>mem_map := m, phys := (phys s1)(?d := p OR 7, p + table_slot ?a := page k OR 7)\<rparr>" by simp
      then show ?thesis by blast
    qed
    ultimately show ?thesis using put True xd pr(1) by (intro exI [of _ ?s]) simp
  qed
qed

lemma put_pages_run:
  assumes "nr < 64" "n \<le> 32" "pages_ok page s" "table_ready nr page s"
  shows "\<exists>m ph. put_pages n page (arg_addr nr 0 + of_nat (4096 * n)) s = s\<lparr>mem_map := m, phys := ph\<rparr>
    \<and> (\<forall>l<32. l < n \<longrightarrow> page l \<noteq> 0 \<longrightarrow> walk (s\<lparr>mem_map := m, phys := ph\<rparr>) (arg_addr nr (4096 * l)) = page l OR 7)
    \<and> (\<forall>l<32. n \<le> l \<longrightarrow> 1 AND phys s (arg_dir nr) \<noteq> 0
         \<longrightarrow> walk (s\<lparr>mem_map := m, phys := ph\<rparr>) (arg_addr nr (4096 * l)) = walk s (arg_addr nr (4096 * l)))
    \<and> (\<forall>q<131072. page (q div 4096) \<noteq> 0 \<longrightarrow> arg_byte page (s\<lparr>mem_map := m, phys := ph\<rparr>) q = arg_byte page s q)"
  using assms(2-)
proof (induction n arbitrary: s)
  case 0
  then show ?case by (intro exI [of _ "mem_map s"] exI [of _ "phys s"]) simp
next
  case (Suc n)
  have a: "arg_addr nr 0 + of_nat (4096 * Suc n) - 4096 = arg_addr nr 0 + of_nat (4096 * n)"
    "arg_addr nr 0 + of_nat (4096 * n) = arg_addr nr (4096 * n)" by (simp_all add: arg_addr_def)
  show ?case
  proof (cases "page n = 0")
    case True
    then have "put_pages (Suc n) page (arg_addr nr 0 + of_nat (4096 * Suc n)) s = put_pages n page (arg_addr nr 0 + of_nat (4096 * n)) s"
      unfolding put_pages.simps Let_def a by simp
    moreover obtain m ph where r: "put_pages n page (arg_addr nr 0 + of_nat (4096 * n)) s = s\<lparr>mem_map := m, phys := ph\<rparr>"
      "\<forall>l<32. l < n \<longrightarrow> page l \<noteq> 0 \<longrightarrow> walk (s\<lparr>mem_map := m, phys := ph\<rparr>) (arg_addr nr (4096 * l)) = page l OR 7"
      "\<forall>l<32. n \<le> l \<longrightarrow> 1 AND phys s (arg_dir nr) \<noteq> 0
         \<longrightarrow> walk (s\<lparr>mem_map := m, phys := ph\<rparr>) (arg_addr nr (4096 * l)) = walk s (arg_addr nr (4096 * l))"
      "\<forall>q<131072. page (q div 4096) \<noteq> 0 \<longrightarrow> arg_byte page (s\<lparr>mem_map := m, phys := ph\<rparr>) q = arg_byte page s q"
      using Suc.IH [OF _ Suc.prems(2,3)] Suc.prems(1) by auto
    moreover have "walk (s\<lparr>mem_map := m, phys := ph\<rparr>) (arg_addr nr (4096 * l)) = page l OR 7" if "l < 32" "l < Suc n" "page l \<noteq> 0" for l
      using r(2) that True by (auto simp: less_Suc_eq)
    ultimately show ?thesis by (intro exI [of _ m] exI [of _ ph]) simp
  next
    case False
    have n: "n < 32" using Suc.prems(1) by simp
    obtain s1 m1 ph1 where s1: "put_page (page n) (arg_addr nr (4096 * n)) s = (page n, s1)" "s1 = s\<lparr>mem_map := m1, phys := ph1\<rparr>"
      "1 AND phys s1 (arg_dir nr) \<noteq> 0" "table_ready nr page s1" "pages_ok page s1" "walk s1 (arg_addr nr (4096 * n)) = page n OR 7"
      "\<forall>l<32. l \<noteq> n \<longrightarrow> 1 AND phys s (arg_dir nr) \<noteq> 0 \<longrightarrow> walk s1 (arg_addr nr (4096 * l)) = walk s (arg_addr nr (4096 * l))"
      "\<forall>q<131072. page (q div 4096) \<noteq> 0 \<longrightarrow> arg_byte page s1 q = arg_byte page s q"
      using put_arg_page [OF assms(1) n False Suc.prems(2,3)] by blast
    obtain m ph where r: "put_pages n page (arg_addr nr 0 + of_nat (4096 * n)) s1 = s1\<lparr>mem_map := m, phys := ph\<rparr>"
      "\<forall>l<32. l < n \<longrightarrow> page l \<noteq> 0 \<longrightarrow> walk (s1\<lparr>mem_map := m, phys := ph\<rparr>) (arg_addr nr (4096 * l)) = page l OR 7"
      "\<forall>l<32. n \<le> l \<longrightarrow> 1 AND phys s1 (arg_dir nr) \<noteq> 0
         \<longrightarrow> walk (s1\<lparr>mem_map := m, phys := ph\<rparr>) (arg_addr nr (4096 * l)) = walk s1 (arg_addr nr (4096 * l))"
      "\<forall>q<131072. page (q div 4096) \<noteq> 0 \<longrightarrow> arg_byte page (s1\<lparr>mem_map := m, phys := ph\<rparr>) q = arg_byte page s1 q"
      using Suc.IH [OF _ s1(5,4)] n by auto
    have eq: "s1\<lparr>mem_map := m, phys := ph\<rparr> = s\<lparr>mem_map := m, phys := ph\<rparr>" using s1(2) by simp
    have run: "put_pages (Suc n) page (arg_addr nr 0 + of_nat (4096 * Suc n)) s = s\<lparr>mem_map := m, phys := ph\<rparr>"
      using r(1) s1(1) False unfolding put_pages.simps Let_def a eq by simp
    show ?thesis
    proof (intro exI [of _ m] exI [of _ ph] conjI allI impI)
      fix l assume l: "l < 32" "l < Suc n" "page l \<noteq> 0"
      show "walk (s\<lparr>mem_map := m, phys := ph\<rparr>) (arg_addr nr (4096 * l)) = page l OR 7"
        using r(2,3) s1(3,6) l unfolding eq by (cases "l = n") auto
    next
      fix l assume l: "l < 32" "Suc n \<le> l" "1 AND phys s (arg_dir nr) \<noteq> 0"
      then show "walk (s\<lparr>mem_map := m, phys := ph\<rparr>) (arg_addr nr (4096 * l)) = walk s (arg_addr nr (4096 * l))"
        using r(3) s1(3,7) unfolding eq by auto
    next
      fix q :: nat assume "q < 131072" "page (q div 4096) \<noteq> 0"
      then show "arg_byte page (s\<lparr>mem_map := m, phys := ph\<rparr>) q = arg_byte page s q" using r(4) s1(8) unfolding eq by simp
    qed (rule run)
  qed
qed

lemma get_base_set_limit [simp]: "get_base (set_limit d lim) = get_base d"
proof (rule bit_word_eqI)
  fix n assume "n < LENGTH(32)"
  have m: "(0xf0000 :: u32) = push_bit 16 (mask 4)" "(0xfff0ffff :: u32) = NOT (push_bit 16 (mask 4))"
    "(0xffff0000 :: u32) = NOT (mask 16)" by (simp_all add: mask_eq_exp_minus_1)
  consider "n < 16" | "16 \<le> n" "n < 24" | "24 \<le> n" "n < 32" using \<open>n < LENGTH(32)\<close> by fastforce
  then show "bit (get_base (set_limit d lim)) n = bit (get_base d) n"
    unfolding get_base_def set_limit_def Let_def mask_u32 m desc_struct.simps
    by cases (auto simp: bit_simps less_diff_conv2 dest: bit_imp_le_length)
qed

lemma table_slot_page:
  assumes "nr < 64" "q < 131072"
  shows "walk s (arg_addr nr q) = walk s (arg_addr nr (4096 * (q div 4096)))"
proof -
  have q: "4096 * (q div 4096) < 131072" using assms(2) by simp
  have "table_slot (arg_addr nr q) = table_slot (arg_addr nr (4096 * (q div 4096)))"
    using arg_slots(2) [OF assms] arg_slots(2) [OF assms(1) q] by (simp add: word_unat_eq_iff)
  then show ?thesis using arg_slots(1) [OF assms] arg_slots(1) [OF assms(1) q] by (simp add: walk_def Let_def)
qed

lemma low12: "(a AND 0xfff :: u32) = of_nat (unat a mod 4096)"
proof -
  have "a AND 0xfff = take_bit 12 a" by (simp add: take_bit_eq_mask mask_eq_exp_minus_1)
  then have "unat (a AND 0xfff) = unat a mod 4096" by (simp add: unsigned_take_bit_eq take_bit_eq_mod unat_mod)
  then show ?thesis by (metis of_nat_unat ucast_id)
qed

lemma change_ldt_view:
  assumes "nr < 64" "get_base (t_ldt (cur s) 1) = of_nat (67108864 * nr)" "pages_ok page s" "table_ready nr page s"
  shows "\<exists>s'. change_ldt text page s = (0x4000000, s')
    \<and> (\<forall>q<131072. page (q div 4096) \<noteq> 0 \<longrightarrow> segment_byte s' (of_nat (66977792 + q)) = arg_byte page s q)"
proof -
  let ?B = "of_nat (67108864 * nr) :: addr"
  define s2 where "s2 = set_ldt 2 ?B 0x4000000 (set_ldt 1 ?B ((text + 4096 - 1) AND 0xFFFFF000) s)"
  have same: "phys s2 = phys s" "mem_map s2 = mem_map s" "current s2 = current s" by (simp_all add: s2_def set_ldt_def)
  have base: "get_base (t_ldt (cur s2) 2) = ?B" by (simp add: s2_def set_ldt_def)
  have "pages_ok page s2 = pages_ok page s" "table_ready nr page s2 = table_ready nr page s"
    by (simp_all add: pages_ok_def table_ready_def in_use_def Let_def same)
  then have "pages_ok page s2" "table_ready nr page s2" using assms(3,4) by simp_all
  from put_pages_run [OF assms(1) order_refl this] obtain m ph where
    r: "put_pages 32 page (arg_addr nr 0 + of_nat (4096 * 32)) s2 = s2\<lparr>mem_map := m, phys := ph\<rparr>"
    "\<And>l. l < 32 \<Longrightarrow> page l \<noteq> 0 \<Longrightarrow> walk (s2\<lparr>mem_map := m, phys := ph\<rparr>) (arg_addr nr (4096 * l)) = page l OR 7"
    "\<And>q. q < 131072 \<Longrightarrow> page (q div 4096) \<noteq> 0 \<Longrightarrow> arg_byte page (s2\<lparr>mem_map := m, phys := ph\<rparr>) q = arg_byte page s2 q"
    by metis
  let ?s = "s2\<lparr>mem_map := m, phys := ph\<rparr>"
  have top: "arg_addr nr 0 + of_nat (4096 * 32) = ?B + 0x4000000" by (simp add: arg_addr_def)
  have c: "change_ldt text page s = (0x4000000, ?s)"
    unfolding change_ldt_def Let_def assms(2) s2_def [symmetric] using r(1) [unfolded top] by simp
  have "segment_byte ?s (of_nat (66977792 + q)) = arg_byte page s q" if q: "q < 131072" "page (q div 4096) \<noteq> 0" for q
  proof -
    have l: "q div 4096 < 32" using q(1) by simp
    have lin: "get_base (t_ldt (cur ?s) 2) + of_nat (66977792 + q) = arg_addr nr q" using base by (simp add: arg_addr_def)
    have w: "walk ?s (arg_addr nr q) = page (q div 4096) OR 7"
      by (rule trans [OF table_slot_page [OF assms(1) q(1)] r(2) [OF l q(2)]])
    have pg: "page_of (page (q div 4096) OR 7) = page (q div 4096)" "1 AND (page (q div 4096) OR 7) \<noteq> 0"
      using page_of_or7 [OF pages_okD(1) [OF assms(3) l q(2)]] present_or7 by simp_all
    have "67108864 * nr + 66977792 + q = 4096 * (16384 * nr + 16352) + q" by simp
    then have "(67108864 * nr + 66977792 + q) mod 4096 = q mod 4096" by (metis mod_mult_self4)
    then have off: "arg_addr nr q AND 0xfff = of_nat (q mod 4096)" unfolding low12 unat_arg_addr [OF assms(1) q(1)] by simp
    have "mapped_byte (arg_addr nr q) ?s = Some (arg_byte page ?s q)"
      unfolding mapped_byte_def w Let_def off pg(1) arg_byte_def using pg(2) by simp
    then show ?thesis using r(3) [OF q] lin by (simp add: segment_byte_def Let_def arg_byte_def get_byte_def same)
  qed
  then show ?thesis using c by blast
qed

lemma image_length: "length xs \<le> length (arg_image xs)"
  by (induction xs) simp_all

lemma exec_stack_run:
  assumes "nr < 64" "get_base (t_ldt (cur s) 1) = of_nat (67108864 * nr)" "pages_ok page s" "table_ready nr page s"
    "\<forall>x\<in>set (args @ envs). 0 \<notin> set x" "unat p + length (arg_image (args @ envs)) \<le> 131072"
    "\<forall>i<length (arg_image (args @ envs)). page ((unat p + i) div 4096) \<noteq> 0 \<and> arg_byte page s (unat p + i) = arg_image (args @ envs) ! i"
  shows "\<exists>limit s1 sp s2. change_ldt text page s = (limit, s1)
    \<and> create_tables (p + (limit - 32 * 4096)) (int (length args)) (int (length envs)) (s1\<lparr>fs_mem := segment_byte s1\<rparr>) = Some (sp, s2)
    \<and> program_stack sp (p + (limit - 32 * 4096)) args envs s2"
proof -
  obtain s1 where s1: "change_ldt text page s = (0x4000000, s1)"
    "\<And>q. q < 131072 \<Longrightarrow> page (q div 4096) \<noteq> 0 \<Longrightarrow> segment_byte s1 (of_nat (66977792 + q)) = arg_byte page s q"
    using change_ldt_view [OF assms(1-4)] by blast
  let ?p = "p + (0x4000000 - 32 * 4096)" and ?s = "s1\<lparr>fs_mem := segment_byte s1\<rparr>"
  have pw: "?p = p + 66977792" by simp
  have up: "unat ?p = unat p + 66977792" unfolding pw using assms(6) unat_add_of_nat [of p 66977792] by simp
  have pi: "?p + of_nat i = of_nat (66977792 + (unat p + i))" for i by (simp add: add.commute)
  have "strings_at (fs_mem ?s) ?p (args @ envs)"
  proof (rule strings_at_image [OF _ assms(5)], intro allI impI)
    fix i assume i: "i < length (arg_image (args @ envs))"
    then show "fs_mem ?s (?p + of_nat i) = arg_image (args @ envs) ! i"
      unfolding pi using s1(2) [of "unat p + i"] assms(6,7) by simp
  qed
  moreover have "4 * (length args + length envs + 5) + 3 \<le> unat ?p"
    using image_length [of "args @ envs"] assms(6) up by simp
  moreover have "unat ?p + length (arg_image (args @ envs)) \<le> 4294967296" using up assms(6) by simp
  ultimately show ?thesis using create_tables_run [of ?s ?p args envs] s1(1) by blast
qed

section \<open>The properties\<close>

lemma pages_ok_none: "pages_ok (\<lambda>_. 0) s"
  by (simp add: pages_ok_def)

definition hi_segment :: segment where "hi_segment = (\<lambda>_. 0)(100 := 104, 101 := 105)"

lemma hi_string: "cstr hi_segment 100 [104, 105]"
  by (simp add: hi_segment_def)

text \<open>C24: \<open>copy_strings\<close> with arguments that fit puts the strings at the end of the free part of the argument
  area, in order and each with its NUL, in pages of its own, and leaves what was copied before; it returns 0 only when
  no page of memory is free. Nothing that is in use outside the argument pages changes.\<close>

theorem copy_strings_places:
  assumes "pages_ok page s" "length (arg_image xs) < unat p" "unat p \<le> 131072"
    "\<forall>i<length xs. argv i \<noteq> 0 \<and> cstr m (argv i) (xs ! i)"
  shows "\<exists>p' page' s'. copy_strings (int (length xs)) argv m page p s = Some ((p', page'), s') \<and> args_step page s page' s'
    \<and> (if p' = 0 then \<forall>i<3840. mem_map s' i \<noteq> 0
       else unat p' = unat p - length (arg_image xs)
          \<and> (\<forall>i<length (arg_image xs). page' ((unat p' + i) div 4096) \<noteq> 0 \<and> arg_byte page' s' (unat p' + i) = arg_image xs ! i)
          \<and> (\<forall>k<131072. page (k div 4096) \<noteq> 0 \<and> unat p \<le> k \<longrightarrow> arg_byte page' s' k = arg_byte page s k))"
  using assms by (rule copy_strings_run)

lemma hi_copied: "\<exists>page' s'. copy_strings 1 (\<lambda>_. 100) hi_segment (\<lambda>_. 0) 131068 demo_mm = Some ((131065, page'), s')"
proof -
  obtain p s1 where g: "get_free_page demo_mm = (p, s1)" by (cases "get_free_page demo_mm")
  then have "p \<noteq> 0" by (rule demo_alloc)
  have "copy_bytes 3 m t v s = copy_bytes (Suc (Suc (Suc 0))) m t v s" for m t v and s :: mm_state by (simp add: numeral_eq_Suc)
  moreover have "str_end hi_segment 100 0 = Some (103, 3)" using str_end_run [OF hi_string, of 0] by simp
  ultimately show ?thesis using g \<open>p \<noteq> 0\<close> by (simp add: copy_strings_def next_offset_def Let_def)
qed

theorem copy_strings_places_witness:
  "\<exists>page' s'. copy_strings 1 (\<lambda>_. 100) hi_segment (\<lambda>_. 0) 131068 demo_mm = Some ((131065, page'), s')
     \<and> arg_byte page' s' 131065 = 104 \<and> arg_byte page' s' 131066 = 105 \<and> arg_byte page' s' 131067 = 0"
proof -
  obtain page s1 where c: "copy_strings 1 (\<lambda>_. 100) hi_segment (\<lambda>_. 0) 131068 demo_mm = Some ((131065, page), s1)"
    using hi_copied by blast
  have "length (arg_image [[104, 105]]) < unat (131068 :: u32)" "unat (131068 :: u32) \<le> 131072"
    "\<forall>i<length [[104, 105]]. (100 :: u32) \<noteq> 0 \<and> cstr hi_segment 100 ([[104, 105]] ! i)" using hi_string by simp_all
  from copy_strings_places [OF pages_ok_none [of demo_mm] this] c
  have at: "\<forall>i<length (arg_image [[104, 105]]). arg_byte page s1 (unat (131065 :: u32) + i) = arg_image [[104, 105]] ! i" by auto
  then show ?thesis using c at [rule_format, of 0] at [rule_format, of 1] at [rule_format, of 2] by simp
qed

text \<open>C25: The new program finds its arguments: from the pages that hold the strings of the arguments and then of the
  environment up to \<open>p\<close>, \<open>change_ldt\<close> and \<open>create_tables\<close> make a stack in the new data segment with \<open>argc\<close>,
  \<open>argv\<close> and \<open>envp\<close>, in which each pointer of the two tables points to its string and a null pointer ends each
  table. The page table for the pages is there, or a page is free for it.\<close>

theorem exec_passes_arguments:
  assumes "nr < 64" "get_base (t_ldt (cur s) 1) = of_nat (67108864 * nr)" "pages_ok page s" "table_ready nr page s"
    "\<forall>x\<in>set (args @ envs). 0 \<notin> set x" "unat p + length (arg_image (args @ envs)) \<le> 131072"
    "\<forall>i<length (arg_image (args @ envs)). page ((unat p + i) div 4096) \<noteq> 0 \<and> arg_byte page s (unat p + i) = arg_image (args @ envs) ! i"
  shows "\<exists>limit s1 sp s2. change_ldt text page s = (limit, s1)
    \<and> create_tables (p + (limit - 32 * 4096)) (int (length args)) (int (length envs)) (s1\<lparr>fs_mem := segment_byte s1\<rparr>) = Some (sp, s2)
    \<and> program_stack sp (p + (limit - 32 * 4096)) args envs s2"
  using assms by (rule exec_stack_run)

definition hi_pages :: "nat \<Rightarrow> addr" where "hi_pages k = (if k = 31 then 0x100000 else 0)"

definition hi_state :: fs_state where
  "hi_state = put_byte 105 (0x100000 + of_nat 4090) (put_byte 104 (0x100000 + of_nat 4089)
     ((init_fs 0x1000 0)\<lparr>mem_map := (\<lambda>_. 0)(0 := 1)\<rparr>))"

theorem exec_passes_arguments_witness:
  "\<exists>limit s1 sp s2. change_ldt 0 hi_pages hi_state = (limit, s1)
    \<and> create_tables (131065 + (limit - 32 * 4096)) 1 0 (s1\<lparr>fs_mem := segment_byte s1\<rparr>) = Some (sp, s2)
    \<and> get_fs_long sp s2 = 1 \<and> cstr (fs_mem s2) (get_fs_long (sp + 12) s2) [104, 105]"
proof -
  let ?s0 = "(init_fs 0x1000 0)\<lparr>mem_map := (\<lambda>_. 0)(0 := 1)\<rparr>"
  have pg: "page_of 0x100000 = 0x100000" "\<not> 0x100000 < LOW_MEM" "MAP_NR 0x100000 = 0"
    by (simp_all add: page_of_def LOW_MEM_def MAP_NR_def)
  have ok0: "pages_ok hi_pages ?s0" using pg by (simp add: pages_ok_def hi_pages_def)
  have ok1: "pages_ok hi_pages (put_byte 104 (0x100000 + of_nat 4089) ?s0)" using ok0 by (simp add: pages_ok_def put_byte_def Let_def)
  have ok: "pages_ok hi_pages hi_state" using ok1 by (simp add: pages_ok_def put_byte_def Let_def hi_state_def)
  have b: "arg_byte hi_pages hi_state (131065 + i) = arg_image ([[104, 105]] @ []) ! i" if "i < 3" for i
  proof -
    have "(131065 + i) div 4096 = 31" using that by simp
    then have "hi_pages ((131065 + i) div 4096) \<noteq> 0" by (simp add: hi_pages_def)
    moreover have "arg_byte hi_pages ?s0 q = 0" for q by (simp add: arg_byte_def get_byte_def init_fs_def)
    ultimately have "arg_byte hi_pages hi_state (131065 + i) = (if 131065 + i = 4096 * 31 + 4090 then 105 else
        if 131065 + i = 4096 * 31 + 4089 then 104 else 0)"
      using arg_put [OF ok1, of 31 4090 "131065 + i" 105] arg_put [OF ok0, of 31 4089 "131065 + i" 104] that
      by (simp add: hi_pages_def hi_state_def)
    moreover have "i = 0 \<or> i = 1 \<or> i = 2" using that by auto
    ultimately show ?thesis by auto
  qed
  have base: "get_base (t_ldt (cur hi_state) 1) = of_nat (67108864 * 0)"
    by (simp add: hi_state_def put_byte_def Let_def init_fs_def INIT_TASK_def get_base_def)
  have ready: "table_ready 0 hi_pages hi_state"
  proof -
    have "phys hi_state (arg_dir 0) = 0"
    proof -
      have "unat (arg_dir 0) = 60" unfolding arg_dir_def unat_dir_slot unat_arg_addr [of 0 0, simplified] by simp
      then have "arg_dir 0 = 60" by (simp add: word_unat_eq_iff)
      then show ?thesis by (simp add: hi_state_def put_byte_def Let_def init_fs_def)
    qed
    moreover have "\<exists>i<3840. mem_map hi_state i = 0" by (rule exI [of _ 1]) (simp add: hi_state_def put_byte_def Let_def)
    ultimately show ?thesis by (simp add: table_ready_def Let_def)
  qed
  have "\<exists>limit s1 sp s2. change_ldt 0 hi_pages hi_state = (limit, s1)
    \<and> create_tables (131065 + (limit - 32 * 4096)) (int (length [[104, 105 :: u8]])) (int (length ([] :: u8 list list))) (s1\<lparr>fs_mem := segment_byte s1\<rparr>) = Some (sp, s2)
    \<and> program_stack sp (131065 + (limit - 32 * 4096)) [[104, 105]] [] s2"
  proof (rule exec_passes_arguments [OF _ base ok ready])
    show "\<forall>i<length (arg_image ([[104, 105]] @ [])). hi_pages ((unat (131065 :: u32) + i) div 4096) \<noteq> 0
        \<and> arg_byte hi_pages hi_state (unat (131065 :: u32) + i) = arg_image ([[104, 105]] @ []) ! i"
    proof (intro allI impI)
      fix i assume "i < length (arg_image ([[104, 105 :: u8]] @ []))"
      then have "i < 3" by simp
      then show "hi_pages ((unat (131065 :: u32) + i) div 4096) \<noteq> 0
          \<and> arg_byte hi_pages hi_state (unat (131065 :: u32) + i) = arg_image ([[104, 105]] @ []) ! i"
        using b [of i] by (simp add: hi_pages_def)
    qed
  qed simp_all
  then show ?thesis by (fastforce simp: program_stack_def Let_def)
qed

end
