(* ===== verification/Elevator.thy ===== *)
theory Elevator
  imports Blk_Dev
begin

text \<open>
  The request queue of a driver as a list: \<open>add_request\<close> inserts by the rule of the elevator (\<open>elevate\<close>),
  \<open>end_request\<close> takes off the first request, and \<open>queue_ok\<close> is kept by every sequence of the two.
\<close>

section \<open>The queue as a list\<close>

fun queue_chain :: "(nat \<Rightarrow> request) \<Rightarrow> nat option \<Rightarrow> nat list \<Rightarrow> bool" where
  "queue_chain t p [] \<longleftrightarrow> p = None"
| "queue_chain t p (r # rs) \<longleftrightarrow> p = Some r \<and> queue_chain t (rq_next (t r)) rs"

lemma queue_chain_cong: "(\<And>r. r \<in> set rs \<Longrightarrow> rq_next (t' r) = rq_next (t r)) \<Longrightarrow> queue_chain t' p rs = queue_chain t p rs"
  by (induction rs arbitrary: p) simp_all

lemma queue_chain_upd [simp]: "r \<notin> set rs \<Longrightarrow> queue_chain (t(r := q)) p rs = queue_chain t p rs"
  by (rule queue_chain_cong) auto

text \<open>\<open>IN_ORDER\<close> is a strict order of the keys of two requests.\<close>

definition key :: "request \<Rightarrow> int \<times> int \<times> u32" where
  "key r = (rq_cmd r, rq_dev r, rq_sector r)"

lemma IN_ORDER_trans: "IN_ORDER a b \<Longrightarrow> IN_ORDER b c \<Longrightarrow> IN_ORDER a c"
  unfolding IN_ORDER_def by auto

lemma IN_ORDER_total: "key a \<noteq> key b \<Longrightarrow> \<not> IN_ORDER a b \<longleftrightarrow> IN_ORDER b a"
  unfolding IN_ORDER_def key_def by auto

lemma IN_ORDER_key: "key a = key a' \<Longrightarrow> key b = key b' \<Longrightarrow> IN_ORDER a b = IN_ORDER a' b'"
  by (simp add: IN_ORDER_def key_def)

lemma IN_ORDER_irrefl [simp]: "\<not> IN_ORDER a a"
  by (simp add: IN_ORDER_def)

section \<open>The elevator on lists\<close>

text \<open>The new element goes behind the first \<open>x\<close> that it may follow, and before the \<open>y\<close> that it precedes.\<close>

fun elevate :: "('a \<Rightarrow> 'a \<Rightarrow> bool) \<Rightarrow> 'a \<Rightarrow> 'a list \<Rightarrow> 'a list" where
  "elevate prec q [] = [q]"
| "elevate prec q [x] = [x, q]"
| "elevate prec q (x # y # zs) =
     (if (prec x q \<or> \<not> prec x y) \<and> prec q y then x # q # y # zs else x # elevate prec q (y # zs))"

text \<open>The number of places where the disk arm turns back.\<close>

fun turns :: "('a \<Rightarrow> 'a \<Rightarrow> bool) \<Rightarrow> 'a list \<Rightarrow> nat" where
  "turns prec (x # y # zs) = (if prec y x then 1 else 0) + turns prec (y # zs)"
| "turns prec xs = 0"

lemma elevate_set [simp]: "set (elevate prec q xs) = insert q (set xs)"
  by (induction prec q xs rule: elevate.induct) auto

lemma elevate_hd [simp]: "xs \<noteq> [] \<Longrightarrow> hd (elevate prec q xs) = hd xs"
  by (cases "(prec, q, xs)" rule: elevate.cases) auto

lemma elevate_Cons: "\<exists>w ws. elevate prec q (y # xs) = y # w # ws"
proof (cases xs)
  case (Cons a as)
  have "q \<in> set (elevate prec q (a # as))" by simp
  then have "elevate prec q (a # as) \<noteq> []" by (metis list.set_cases list.distinct(1))
  then show ?thesis using Cons by (auto simp: neq_Nil_conv)
qed simp

lemma elevate_split: "xs \<noteq> [] \<Longrightarrow> \<exists>ys zs. xs = ys @ zs \<and> ys \<noteq> [] \<and> elevate prec q xs = ys @ q # zs"
proof (induction prec q xs rule: elevate.induct)
  case (3 prec q x y zs)
  show ?case
  proof (cases "(prec x q \<or> \<not> prec x y) \<and> prec q y")
    case True
    then show ?thesis by (intro exI [of _ "[x]"] exI [of _ "y # zs"]) simp
  next
    case False
    then obtain as bs where "y # zs = as @ bs" "elevate prec q (y # zs) = as @ q # bs" using 3 by auto
    moreover have "elevate prec q (x # y # zs) = x # elevate prec q (y # zs)" by (subst elevate.simps) (rule if_not_P [OF False])
    ultimately have "x # y # zs = (x # as) @ bs" "elevate prec q (x # y # zs) = (x # as) @ q # bs" by simp_all
    then show ?thesis by blast
  qed
qed (auto intro: exI [of _ "[_]"])

locale order_pred =
  fixes prec :: "'a \<Rightarrow> 'a \<Rightarrow> bool" and K :: "'a set"
  assumes trans: "prec x y \<Longrightarrow> prec y z \<Longrightarrow> prec x z"
    and irrefl: "\<not> prec x x"
    and total: "x \<in> K \<Longrightarrow> y \<in> K \<Longrightarrow> x \<noteq> y \<Longrightarrow> prec x y \<or> prec y x"
begin

lemma asym: "prec x y \<Longrightarrow> \<not> prec y x"
  using trans irrefl by blast

lemma turns_sorted:
  assumes "turns prec (x # xs) = 0" "set (q # x # xs) \<subseteq> K" "distinct (q # x # xs)"
  shows "turns prec (elevate prec q (x # xs)) \<le> (if prec x q then 0 else 1)"
  using assms
proof (induction xs arbitrary: x)
  case Nil
  then show ?case using total [of x q] asym [of x q] by auto
next
  case (Cons y xs)
  have xy: "prec x y" "\<not> prec y x" using Cons.prems total [of x y] by (auto split: if_splits)
  show ?case
  proof (cases "prec x q \<and> prec q y")
    case True
    then show ?thesis using Cons.prems xy asym by auto
  next
    case False
    have "turns prec (elevate prec q (y # xs)) \<le> (if prec y q then 0 else 1)" using Cons by auto
    moreover have "prec x q \<Longrightarrow> prec y q" using False total [of y q] Cons.prems by auto
    moreover have "elevate prec q (x # y # xs) = x # elevate prec q (y # xs)" using False xy by auto
    moreover obtain w ws where "elevate prec q (y # xs) = y # w # ws" using elevate_Cons [of prec q y xs] by blast
    ultimately show ?thesis using xy by (auto split: if_splits)
  qed
qed

lemma turns_one:
  assumes "turns prec (x # xs) \<le> 1" "set (q # x # xs) \<subseteq> K" "distinct (q # x # xs)"
  shows "turns prec (elevate prec q (x # xs)) \<le> 1"
  using assms
proof (induction xs arbitrary: x)
  case Nil
  then show ?case by auto
next
  case (Cons y xs)
  obtain w ws where e: "elevate prec q (y # xs) = y # w # ws" using elevate_Cons [of prec q y xs] by blast
  show ?case
  proof (cases "prec x y")
    case True
    have IH: "turns prec (elevate prec q (y # xs)) \<le> 1" using Cons True asym by auto
    show ?thesis using IH True e Cons.prems asym by auto
  next
    case False
    then have yx: "prec y x" using Cons.prems total [of x y] by auto
    then have s: "turns prec (y # xs) = 0" using Cons.prems(1) by simp
    show ?thesis
    proof (cases "prec q y")
      case True
      then show ?thesis using False s asym [OF True] by simp
    next
      case F: False
      then have "prec y q" using Cons.prems total [of y q] by auto
      then have "turns prec (elevate prec q (y # xs)) \<le> 0" using turns_sorted [OF s, of q] Cons.prems by auto
      then show ?thesis using F False yx e by auto
    qed
  qed
qed

end

section \<open>add_request\<close>

definition before :: "'a fs_state_scheme \<Rightarrow> nat \<Rightarrow> nat \<Rightarrow> bool" where
  "before s i j = IN_ORDER (requests_tab s i) (requests_tab s j)"

text \<open>The requests of a set whose keys are those of no other request of the set.\<close>

definition own_key :: "'a fs_state_scheme \<Rightarrow> nat set \<Rightarrow> nat set" where
  "own_key s K = {r \<in> K. \<forall>q\<in>K. key (requests_tab s q) = key (requests_tab s r) \<longrightarrow> q = r}"

lemma own_key_inj: "inj_on (\<lambda>r. key (requests_tab s r)) K \<Longrightarrow> own_key s K = K"
  unfolding own_key_def inj_on_def by blast

lemma before_total:
  assumes "x \<in> own_key s K" "y \<in> own_key s K" "x \<noteq> y"
  shows "before s x y \<or> before s y x"
proof -
  have "key (requests_tab s x) \<noteq> key (requests_tab s y)" using assms unfolding own_key_def by blast
  then show ?thesis using IN_ORDER_total unfolding before_def by blast
qed

interpretation queue_order: order_pred "before s" "own_key s K" for s :: "'a fs_state_scheme" and K
proof unfold_locales
  fix x y z
  assume "before s x y" "before s y z"
  then show "before s x z" unfolding before_def by (rule IN_ORDER_trans)
qed (simp_all add: before_def before_total [unfolded before_def])

lemma elevator_run:
  assumes "queue_chain t (Some x) (x # xs)"
  shows "\<exists>ys p zs. elevator t q x = Some p \<and> x # xs = ys @ p # zs
    \<and> elevate (\<lambda>i j. IN_ORDER (t i) (t j)) q (x # xs) = ys @ p # q # zs"
  using assms
proof (induction xs arbitrary: x)
  case Nil
  then show ?case by (subst elevator.simps) (auto intro: exI [of _ "[]"])
next
  case (Cons y ys)
  show ?case
  proof (cases "(IN_ORDER (t x) (t q) \<or> \<not> IN_ORDER (t x) (t y)) \<and> IN_ORDER (t q) (t y)")
    case True
    then have "elevator t q x = Some x" using Cons.prems by (subst elevator.simps) simp
    then show ?thesis using True by (intro exI [of _ "[]"] exI [of _ x] exI [of _ "y # ys"]) simp
  next
    case False
    then have e: "elevator t q x = elevator t q y"
      using Cons.prems by (subst elevator.simps) (simp add: if_not_P [OF False, simplified] del: de_Morgan_conj)
    obtain as p zs where IH: "elevator t q y = Some p" "y # ys = as @ p # zs"
        "elevate (\<lambda>i j. IN_ORDER (t i) (t j)) q (y # ys) = as @ p # q # zs"
    proof -
      have "queue_chain t (Some y) (y # ys)" using Cons.prems by simp
      from Cons.IH [OF this] show thesis by (elim exE conjE) (rule that; assumption)
    qed
    have "elevate (\<lambda>i j. IN_ORDER (t i) (t j)) q (x # y # ys) = x # as @ p # q # zs"
      unfolding IH(3) [symmetric] by (subst elevate.simps) (rule if_not_P [OF False])
    then show ?thesis using e IH(1,2) by (intro exI [of _ "x # as"] exI [of _ p] exI [of _ zs]) simp
  qed
qed

lemma queue_chain_link:
  assumes "queue_chain t n (ys @ p # zs)" "distinct (q # ys @ p # zs)"
  shows "queue_chain ((t(q := rq_next_update (\<lambda>_. rq_next (t p)) (t q)))(p := rq_next_update (\<lambda>_. Some q) (t p))) n (ys @ p # q # zs)"
  using assms by (induction ys arbitrary: n) auto

lemma add_request_run:
  assumes "queue_chain (requests_tab s) (current_request s major) (x # xs)" "distinct (q # x # xs)"
  shows "\<exists>s'. add_request major q s = Some s' \<and> current_request s' = current_request s
    \<and> queue_chain (requests_tab s') (current_request s' major) (elevate (before s) q (x # xs))
    \<and> (\<forall>r. rq_next_update (\<lambda>_. None) (requests_tab s' r) = rq_next_update (\<lambda>_. None) (requests_tab s r))"
proof -
  let ?t = "(requests_tab s)(q := rq_next_update (\<lambda>_. None) (requests_tab s q))"
  have c: "queue_chain ?t (Some x) (x # xs)" "current_request s major = Some x" using assms by simp_all
  obtain ys p zs where e: "elevator ?t q x = Some p" "x # xs = ys @ p # zs"
    "elevate (\<lambda>i j. IN_ORDER (?t i) (?t j)) q (x # xs) = ys @ p # q # zs"
    using elevator_run [OF c(1)] by blast
  have "(\<lambda>i j. IN_ORDER (?t i) (?t j)) = before s" by (auto simp: fun_eq_iff before_def IN_ORDER_def)
  then have el: "elevate (before s) q (x # xs) = ys @ p # q # zs" using e(3) by simp
  have "p \<noteq> q" using e(2) assms(2) by auto
  let ?t' = "(?t(q := rq_next_update (\<lambda>_. rq_next (?t p)) (?t q)))(p := rq_next_update (\<lambda>_. Some q) (?t p))"
  have ch: "queue_chain ?t' (Some x) (ys @ p # q # zs)" using queue_chain_link [of ?t "Some x" ys p zs q] c(1) e(2) assms(2) by simp
  obtain s' where s': "add_request major q s = Some s'" "requests_tab s' = ?t'" "current_request s' = current_request s"
    using c(2) e(1) \<open>p \<noteq> q\<close>
    by (cases "rq_bh (requests_tab s q)") (simp_all add: add_request_def upd_request_def upd_buffer_def Let_def)
  then show ?thesis using ch el c(2) \<open>p \<noteq> q\<close> by (intro exI [of _ s']) auto
qed

section \<open>end_request\<close>

lemma wake_up_same [simp]:
  "requests_tab (wake_up (Some (b_waitq b)) s) = requests_tab s"
  "current_request (wake_up (Some (b_waitq b)) s) = current_request s"
  "requests_tab (wake_up (Some request_waitq) s) = requests_tab s"
  "current_request (wake_up (Some request_waitq) s) = current_request s"
  "current_request (wake_up (Some (rq_waitq r)) s) = current_request s"
  "requests_tab (wake_up (Some (rq_waitq r)) s) = (requests_tab s)(r := rq_waiting_update (\<lambda>_. 0) (requests_tab s r))
    \<or> requests_tab (wake_up (Some (rq_waitq r)) s) = requests_tab s"
  by (auto simp: wake_up_def waitq_defs upd_buffer_def upd_request_def set_state_def upd_task_def)

lemma end_request_queue:
  assumes "current_request s major = Some r"
  shows "current_request (end_request major ok s) = (current_request s)(major := rq_next (requests_tab s r))"
    "q \<noteq> r \<Longrightarrow> requests_tab (end_request major ok s) q = requests_tab s q"
    "rq_dev (requests_tab (end_request major ok s) r) = -1"
proof -
  define s0 where "s0 = (if major = 2 then floppy_off (nat (rq_dev (requests_tab s r) mod 4)) s else s)"
  define s1 where "s1 = (case rq_bh (requests_tab s0 r) of None \<Rightarrow> s0
      | Some b \<Rightarrow> unlock_buffer b (upd_buffer b (b_uptodate_update (\<lambda>_. ok)) s0))"
  define s2 where "s2 = wake_up (Some (rq_waitq r)) s1"
  have "requests_tab s1 = requests_tab s" "current_request s1 = current_request s"
    by (auto simp: s0_def s1_def floppy_off_def unlock_buffer_def upd_buffer_def split: option.split)
  then have 2: "current_request s2 = current_request s" "requests_tab s2 = requests_tab s
      \<or> requests_tab s2 = (requests_tab s)(r := rq_waiting_update (\<lambda>_. 0) (requests_tab s r))"
    using wake_up_same(6) [of r s1] by (auto simp: s2_def)
  have e: "end_request major ok s = (let s = upd_request r (rq_dev_update (\<lambda>_. -1)) (wake_up (Some request_waitq) s2)
      in s\<lparr>current_request := (current_request s)(major := rq_next (requests_tab s r))\<rparr>)"
    unfolding end_request_def assms option.case Let_def s2_def s1_def s0_def by (rule refl)
  show "current_request (end_request major ok s) = (current_request s)(major := rq_next (requests_tab s r))"
    "q \<noteq> r \<Longrightarrow> requests_tab (end_request major ok s) q = requests_tab s q"
    "rq_dev (requests_tab (end_request major ok s) r) = -1"
    using 2 unfolding e by (auto simp: upd_request_def Let_def)
qed

section \<open>The queue under all operations\<close>

text \<open>One step of the queue of a driver: a request from a free slot is added behind the running one, or the running
  one is ended. A block is locked while it is in the queue, so no two requests there are for the same block.\<close>

inductive queue_step :: "nat \<Rightarrow> 'a fs_state_scheme \<Rightarrow> 'a fs_state_scheme \<Rightarrow> bool" for major where
  add: "current_request s major \<noteq> None \<Longrightarrow> rq_dev (requests_tab s q) < 0 \<Longrightarrow> rq_dev new \<ge> 0
    \<Longrightarrow> \<forall>r. rq_dev (requests_tab s r) \<ge> 0 \<longrightarrow> key (requests_tab s r) \<noteq> key new
    \<Longrightarrow> add_request major q (upd_request q (\<lambda>_. new) s) = Some s' \<Longrightarrow> queue_step major s s'"
| finish: "current_request s major \<noteq> None \<Longrightarrow> queue_step major s (end_request major ok s)"

definition queue_ok :: "nat \<Rightarrow> 'a fs_state_scheme \<Rightarrow> nat list \<Rightarrow> bool" where
  "queue_ok major s rs \<longleftrightarrow> queue_chain (requests_tab s) (current_request s major) rs \<and> distinct rs
     \<and> (\<forall>r\<in>set rs. rq_dev (requests_tab s r) \<ge> 0) \<and> inj_on (\<lambda>r. key (requests_tab s r)) (set rs) \<and> turns (before s) rs \<le> 1"

lemma elevate_cong:
  "(\<And>x y. x \<in> insert q (set xs) \<Longrightarrow> y \<in> insert q (set xs) \<Longrightarrow> p x y = p' x y) \<Longrightarrow> elevate p q xs = elevate p' q xs"
  by (induction p q xs rule: elevate.induct) auto

lemma turns_cong: "(\<And>x y. x \<in> set xs \<Longrightarrow> y \<in> set xs \<Longrightarrow> p x y = p' x y) \<Longrightarrow> turns p xs = turns p' xs"
  by (induction p xs rule: turns.induct) auto

lemma elevate_distinct: "distinct (q # xs) \<Longrightarrow> distinct (elevate p q xs)"
  by (induction p q xs rule: elevate.induct) auto

lemma queue_ok_step:
  assumes "queue_step major s s'" "queue_ok major s rs"
  shows "\<exists>rs'. queue_ok major s' rs' \<and> (rs' = tl rs \<or> (\<exists>q. q \<notin> set rs \<and> rs' = elevate (before s') q rs))"
  using assms
proof cases
  case (add q new)
  let ?s = "upd_request q (\<lambda>_. new) s"
  obtain x xs where rs: "rs = x # xs" using assms(2) add(1) by (cases rs) (auto simp: queue_ok_def)
  have q: "q \<notin> set rs" using assms(2) add(2) unfolding queue_ok_def by force
  have c: "queue_chain (requests_tab ?s) (current_request ?s major) (x # xs)" "distinct (q # x # xs)"
    using assms(2) rs q by (auto simp: queue_ok_def upd_request_def)
  obtain s1 where r: "add_request major q ?s = Some s1"
      "queue_chain (requests_tab s1) (current_request s1 major) (elevate (before ?s) q (x # xs))"
      "\<forall>r. rq_next_update (\<lambda>_. None) (requests_tab s1 r) = rq_next_update (\<lambda>_. None) (requests_tab ?s r)"
    using add_request_run [OF c] by blast
  have s1: "s1 = s'" using r(1) add(5) by simp
  have u: "rq_next_update f a = rq_next_update f b \<Longrightarrow> rq_dev a = rq_dev b \<and> key a = key b" for f and a b :: request
    by (cases a; cases b) (simp add: key_def)
  have same: "rq_dev (requests_tab s' r) = rq_dev (requests_tab ?s r)" "key (requests_tab s' r) = key (requests_tab ?s r)" for r
    using u [OF r(3) [rule_format, of r]] unfolding s1 by simp_all
  have bs: "before s' = before ?s" using same(2) unfolding before_def by (intro ext IN_ORDER_key) simp_all
  have old: "requests_tab ?s r = requests_tab s r" if "r \<in> set rs" for r using that q by (auto simp: upd_request_def)
  have dev: "rq_dev (requests_tab s r) \<ge> 0" if "r \<in> set rs" for r using that assms(2) by (simp add: queue_ok_def)
  have new: "key (requests_tab ?s q) = key new" "rq_dev (requests_tab ?s q) = rq_dev new" by (simp_all add: upd_request_def)
  have t: "turns (before ?s) (x # xs) \<le> 1"
    using assms(2) turns_cong [of rs "before ?s" "before s"] old rs by (auto simp: queue_ok_def before_def)
  have other: "key (requests_tab s y) \<noteq> key new" if "y \<in> set rs" for y using add(4) dev that by blast
  have inj: "inj_on (\<lambda>r. key (requests_tab ?s r)) (insert q (set rs))"
    using assms(2) old new(1) other unfolding queue_ok_def inj_on_def by (metis insert_iff)
  have "turns (before ?s) (elevate (before ?s) q (x # xs)) \<le> 1"
    using queue_order.turns_one [OF t, of q "insert q (set rs)"] c(2) own_key_inj [OF inj] unfolding rs by auto
  then have "queue_ok major s' (elevate (before s') q rs)"
    using r(2) elevate_distinct [OF c(2)] same inj old dev new add(3)
    unfolding queue_ok_def s1 bs rs by (auto simp: inj_on_def)
  then show ?thesis using q by blast
next
  case (finish ok)
  obtain r xs where rs: "rs = r # xs" "current_request s major = Some r" using assms(2) finish(2) by (cases rs) (auto simp: queue_ok_def)
  note e = end_request_queue [OF rs(2), where ok = ok]
  have r: "r \<notin> set xs" using assms(2) rs(1) by (simp add: queue_ok_def)
  have same: "requests_tab s' q = requests_tab s q" if "q \<in> set xs" for q using e(2) [of q] that r finish(1) by auto
  have "turns (before s') xs = turns (before s) xs" using same by (intro turns_cong) (simp add: before_def)
  moreover have "turns (before s) xs \<le> turns (before s) (r # xs)" by (cases xs) auto
  moreover have "queue_chain (requests_tab s') (rq_next (requests_tab s r)) xs"
    using assms(2) rs(1) queue_chain_cong [of xs "requests_tab s'" "requests_tab s"] same by (simp add: queue_ok_def)
  ultimately have "queue_ok major s' (tl rs)"
    using assms(2) rs same e(1) finish(1) unfolding queue_ok_def by (auto simp: inj_on_def)
  then show ?thesis by blast
qed

section \<open>The properties\<close>

text \<open>C27: \<open>add_request\<close> on a busy queue is the insertion of the elevator into the list of waiting requests: every
  request stays once in the queue, the running one stays in front, the others keep their order, and only links change.\<close>

theorem add_request_elevates:
  assumes "queue_chain (requests_tab s) (current_request s major) (x # xs)" "distinct (q # x # xs)"
  shows "\<exists>s' ys zs. add_request major q s = Some s' \<and> current_request s' = current_request s
    \<and> queue_chain (requests_tab s') (current_request s' major) (elevate (before s) q (x # xs))
    \<and> elevate (before s) q (x # xs) = ys @ q # zs \<and> x # xs = ys @ zs \<and> ys \<noteq> []
    \<and> (\<forall>r. rq_next_update (\<lambda>_. None) (requests_tab s' r) = rq_next_update (\<lambda>_. None) (requests_tab s r))"
proof -
  obtain ys zs where "x # xs = ys @ zs" "ys \<noteq> []" "elevate (before s) q (x # xs) = ys @ q # zs"
    using elevate_split [of "x # xs" "before s" q] by auto
  then show ?thesis using add_request_run [OF assms] by auto
qed

definition busy_disk :: fs_state where
  "busy_disk = (init_fs 0x1000 0)\<lparr>requests_tab := (\<lambda>i. if i = 0 then zero_request\<lparr>rq_dev := 0x301, rq_sector := 10, rq_next := Some 1\<rparr>
     else if i = 1 then zero_request\<lparr>rq_dev := 0x301, rq_sector := 30\<rparr> else zero_request\<lparr>rq_dev := -1, rq_sector := 20\<rparr>),
     current_request := (\<lambda>_. None)(3 := Some 0)\<rparr>"

definition busy_with :: fs_state where
  "busy_with = upd_request 2 (\<lambda>_. zero_request\<lparr>rq_dev := 0x301, rq_sector := 20\<rparr>) busy_disk"

lemma busy_chain: "queue_chain (requests_tab busy_with) (current_request busy_with 3) [0, 1]"
  by (simp add: busy_with_def busy_disk_def upd_request_def zero_request_def)

lemma busy_elevate: "elevate (before busy_with) 2 [0, 1] = [0, 2, 1]"
  by (simp add: before_def busy_with_def busy_disk_def IN_ORDER_def zero_request_def upd_request_def)

theorem add_request_elevates_witness:
  "\<exists>s'. add_request 3 2 busy_with = Some s' \<and> queue_chain (requests_tab s') (current_request s' 3) [0, 2, 1]"
  using add_request_elevates [OF busy_chain, of 2] busy_elevate by auto

text \<open>C26: The queue of a driver stays well formed and the disk arm turns back at most once on its way through
  it, however requests are added and ended: the queue is a finite list of requests in use, without a repetition, and
  sorted but for one place.\<close>

theorem elevator_turns_once:
  assumes "(queue_step major)\<^sup>*\<^sup>* s s'" "queue_ok major s rs"
  shows "\<exists>rs'. queue_chain (requests_tab s') (current_request s' major) rs' \<and> distinct rs'
    \<and> (\<forall>r\<in>set rs'. rq_dev (requests_tab s' r) \<ge> 0) \<and> turns (before s') rs' \<le> 1"
proof -
  have "\<exists>rs'. queue_ok major s' rs'" using assms(1)
    by (induction rule: rtranclp_induct) (use assms(2) queue_ok_step in blast)+
  then show ?thesis unfolding queue_ok_def by blast
qed

theorem elevator_turns_once_witness:
  "\<exists>s' s''. add_request 3 2 busy_with = Some s'
     \<and> s'' = end_request 3 True s' \<and> current_request s'' 3 = Some 2
     \<and> (\<exists>rs. queue_chain (requests_tab s'') (Some 2) rs \<and> turns (before s'') rs \<le> 1)"
proof -
  let ?new = "zero_request\<lparr>rq_dev := 0x301, rq_sector := 20\<rparr>"
  let ?b = "upd_request 2 (\<lambda>_. ?new) busy_disk"
  have ok: "queue_ok 3 busy_disk [0, 1]"
    by (simp add: queue_ok_def before_def busy_disk_def IN_ORDER_def key_def zero_request_def init_fs_def)
  obtain s' where s': "add_request 3 2 ?b = Some s'" "queue_chain (requests_tab s') (current_request s' 3) [0, 2, 1]"
    using add_request_run [OF busy_chain, of 2] busy_elevate unfolding busy_with_def by auto
  have 1: "queue_step 3 busy_disk s'"
    by (rule queue_step.add [OF _ _ _ _ s'(1)]) (simp_all add: busy_disk_def key_def zero_request_def)
  have 2: "queue_step 3 s' (end_request 3 True s')" using s'(2) by (intro queue_step.finish) simp
  have "current_request (end_request 3 True s') 3 = Some 2" using s'(2) end_request_queue(1) [of s' 3 0 True] by simp
  moreover have "\<exists>rs. queue_chain (requests_tab (end_request 3 True s')) (current_request (end_request 3 True s') 3) rs \<and> distinct rs
    \<and> (\<forall>r\<in>set rs. rq_dev (requests_tab (end_request 3 True s') r) \<ge> 0) \<and> turns (before (end_request 3 True s')) rs \<le> 1"
    by (rule elevator_turns_once [OF _ ok]) (use 1 2 in \<open>meson rtranclp.rtrancl_refl rtranclp.rtrancl_into_rtrancl\<close>)
  ultimately show ?thesis using s'(1) unfolding busy_with_def by auto
qed

end
