(* ===== verification/Hd_Transfer.thy ===== *)
theory Hd_Transfer
  imports Hd
begin

text \<open>
  The hard disk driver carries out \<open>hw_transfer\<close>: with a controller that answers (\<open>hd_cooperates\<close>), a request becomes
  a command for its sectors, and two interrupts move the block. \<open>hd_address_run\<close> follows the divisions,
  \<open>read_intr_run\<close> and \<open>write_intr_run\<close> are the handlers for one sector, and \<open>fs_agree\<close> compares the result with
  that of the block layer.
\<close>

section \<open>The controller answers\<close>

text \<open>Every status that is read says ready and seek complete, without an error.\<close>

definition hd_cooperates :: "'a hd_state_scheme \<Rightarrow> bool" where
  "hd_cooperates s \<longleftrightarrow> (\<forall>n. io_in s n HD_STATUS AND 0xF1 = 0x50)"

lemma status_bits:
  assumes "(v :: u8) AND 0xF1 = 0x50"
  shows "v AND 0xC0 = 0x40" "v AND (BUSY_STAT OR READY_STAT OR WRERR_STAT OR SEEK_STAT OR ERR_STAT) = READY_STAT OR SEEK_STAT"
proof -
  have "v AND 0xC0 = (v AND 0xF1) AND 0xC0" by (simp only: and.assoc) simp
  then show "v AND 0xC0 = 0x40" using assms by simp
qed (use assms in \<open>simp add: hd_stats\<close>)

lemma controller_ready_run:
  assumes "hd_cooperates s"
  shows "controller_ready s = (9999, s\<lparr>io_reads := io_reads s + 1\<rparr>)"
proof -
  have "io_in s (io_reads s) HD_STATUS AND 0xC0 = 0x40" using assms status_bits(1) by (simp add: hd_cooperates_def)
  then have "n \<noteq> 0 \<Longrightarrow> ready_loop (Suc n) s = (n, s\<lparr>io_reads := io_reads s + 1\<rparr>)" for n
    by (simp add: io_inb_def)
  from this [of 9999] show ?thesis by (simp add: controller_ready_def)
qed

lemma win_result_run: "hd_cooperates s \<Longrightarrow> win_result s = (False, s\<lparr>io_reads := io_reads s + 1\<rparr>)"
  using status_bits(2) by (simp add: win_result_def io_inb_def hd_cooperates_def)

text \<open>The bytes of a command.\<close>

definition hd_command :: "hd_i_struct \<Rightarrow> nat \<Rightarrow> u32 \<Rightarrow> u32 \<Rightarrow> u32 \<Rightarrow> u32 \<Rightarrow> u8 \<Rightarrow> (u16 \<times> u8) list" where
  "hd_command di drive nsect sect head cyl cmd =
     [(0x3f6, word_of_int (hdi_ctl di)), (0x1f1, word_of_int (hdi_wpcom di div 4)), (0x1f2, ucast nsect), (0x1f3, ucast sect),
      (0x1f4, ucast cyl), (0x1f5, ucast (drop_bit 8 cyl)), (0x1f6, ucast (0xA0 OR push_bit 4 (of_nat drive :: u32) OR head)), (0x1f7, cmd)]"

lemma hd_out_run:
  assumes "hd_cooperates s" "drive < 2" "head \<le> 15"
  shows "hd_out (of_nat drive) nsect sect head cyl cmd h s
    = Some (s\<lparr>ports := ports s @ hd_command (hd_info s drive) drive nsect sect head cyl cmd, io_reads := io_reads s + 1, do_hd := Some h\<rparr>)"
proof -
  have "\<not> (of_nat drive > (1 :: u32))" "unat (of_nat drive :: u32) = drive"
    using assms(2) by (auto simp: less_2_cases_iff)
  moreover have "\<not> head > 15" using assms(3) by simp
  ultimately show ?thesis
    using controller_ready_run [OF assms(1)] by (simp add: hd_out_def Let_def outb_def hd_command_def)
qed

section \<open>Addresses\<close>

text \<open>A request that \<open>do_hd_request\<close> can give to the controller at once. The partition lies on the disk, and the
  geometry of the disk is one that the registers of the controller can express.\<close>

definition hd_minor :: "nat \<Rightarrow> 'a fs_state_scheme \<Rightarrow> nat" where
  "hd_minor r s = nat (MINOR (rq_dev (requests_tab s r)))"

definition geometry_ok :: "hd_i_struct \<Rightarrow> bool" where
  "geometry_ok di \<longleftrightarrow> 0 < hdi_sect di \<and> hdi_sect di \<le> 255 \<and> 0 < hdi_head di \<and> hdi_head di \<le> 16"

definition partition_ok :: "nat \<Rightarrow> 'a hd_state_scheme \<Rightarrow> bool" where
  "partition_ok d s \<longleftrightarrow>
     (let p = hd_parts s d; di = hd_info s (d div 5)
      in geometry_ok di \<and> 0 \<le> start_sect p \<and> 0 \<le> nr_sects p \<and> nr_sects p \<le> 0x7fffffff
         \<and> start_sect p + nr_sects p \<le> hdi_sect di * hdi_head di * 65536)"

definition hd_startable :: "nat \<Rightarrow> 'a hd_state_scheme \<Rightarrow> bool" where
  "hd_startable r s \<longleftrightarrow> current_request s 3 = Some r \<and> \<not> request_bad 3 r s \<and> \<not> hd_reset s \<and> \<not> hd_recalibrate s
     \<and> hd_minor r s < 5 * NR_HD s \<and> NR_HD s \<le> 2
     \<and> partition_ok (hd_minor r s) s
     \<and> uint (rq_sector (requests_tab s r)) + 2 \<le> nr_sects (hd_parts s (hd_minor r s))"

lemma unat_of_int: "0 \<le> x \<Longrightarrow> x < 4294967296 \<Longrightarrow> unat (word_of_int x :: u32) = nat x"
  by (simp add: unat_eq_nat_uint uint_word_of_int)

lemma hd_address_at:
  assumes "partition_ok d s" "uint b + 2 \<le> nr_sects (hd_parts s d)"
  defines "di \<equiv> hd_info s (d div 5)"
  defines "lba \<equiv> nat (start_sect (hd_parts s d)) + unat b"
  shows "\<exists>sec head cyl. hd_address d b s = Some (d div 5, sec, head, cyl)
    \<and> unat sec = lba mod nat (hdi_sect di) + 1 \<and> unat head = lba div nat (hdi_sect di) mod nat (hdi_head di)
    \<and> unat cyl = lba div nat (hdi_sect di) div nat (hdi_head di) \<and> unat cyl < 65536 \<and> head \<le> 15"
proof -
  let ?p = "hd_parts s d"
  have h: "0 < hdi_sect di" "hdi_sect di \<le> 255" "0 < hdi_head di" "hdi_head di \<le> 16" "0 \<le> start_sect ?p"
      "uint b + 2 \<le> nr_sects ?p" "nr_sects ?p \<le> 0x7fffffff" "start_sect ?p + nr_sects ?p \<le> hdi_sect di * hdi_head di * 65536"
    using assms(1,2) by (auto simp: partition_ok_def di_def Let_def geometry_ok_def)
  define n k where "n = nat (hdi_sect di)" and "k = nat (hdi_head di)"
  have nk: "0 < n" "n \<le> 255" "0 < k" "k \<le> 16" using h by (auto simp: n_def k_def)
  have il: "int lba = start_sect ?p + uint b" using h(5) by (simp add: lba_def)
  have "int lba < int (n * k * 65536)" using il h by (simp add: n_def k_def)
  then have lba: "lba < n * k * 65536" by (simp only: of_nat_less_iff)
  have nk2: "n * k \<le> 255 * 16" using nk by (intro mult_le_mono) simp_all
  have big: "lba < 4294967296" using lba nk2 by simp
  have w: "unat (b + word_of_int (start_sect ?p)) = lba"
  proof -
    have "unat (word_of_int (start_sect ?p) :: u32) = nat (start_sect ?p)"
      by (rule unat_of_int) (use h(5) big in \<open>simp_all add: lba_def\<close>)
    moreover have "unat (x + y) = (unat x + unat y) mod 4294967296" for x y :: u32 by (simp add: unat_word_ariths)
    ultimately have "unat (b + word_of_int (start_sect ?p)) = (unat b + nat (start_sect ?p)) mod 4294967296"
      by simp
    also have "\<dots> = lba" using big unfolding lba_def by (subst add.commute) (rule mod_less)
    finally show ?thesis .
  qed
  have un: "unat (word_of_int (hdi_sect di) :: u32) = n" "unat (word_of_int (hdi_head di) :: u32) = k"
    unfolding n_def k_def using h by (auto intro!: unat_of_int)
  let ?b = "b + word_of_int (start_sect ?p)"
  let ?ns = "word_of_int (hdi_sect di) :: u32" and ?nh = "word_of_int (hdi_head di) :: u32"
  have nz: "?ns \<noteq> 0" "?nh \<noteq> 0" using un nk by auto
  have a: "hd_address d b s
      = Some (d div 5, ?b mod ?ns + 1, ?b div ?ns mod ?nh, ?b div ?ns div ?nh)"
    using nz by (simp add: hd_address_def di_def Let_def)
  have "unat (?b mod ?ns + 1) = lba mod n + 1"
  proof -
    have "lba mod n < 255" using nk(1,2) less_le_trans pos_mod_bound by (metis mod_less_divisor)
    moreover have "unat (?b mod ?ns) = lba mod n" by (simp only: unat_mod w un)
    moreover have "unat (a + 1) = (unat a + 1) mod 4294967296" for a :: u32 by (simp add: unat_word_ariths)
    ultimately show ?thesis by simp
  qed
  moreover have hd: "unat (?b div ?ns mod ?nh) = lba div n mod k" by (simp only: unat_mod unat_div w un)
  moreover have "unat (?b div ?ns div ?nh) = lba div n div k" by (simp only: unat_div w un)
  moreover have "lba div n div k < 65536"
    using lba by (simp add: less_mult_imp_div_less div_mult2_eq [symmetric] mult.commute)
  moreover have "?b div ?ns mod ?nh \<le> 15"
  proof -
    have "lba div n mod k < k" using nk by simp
    then have "unat (?b div ?ns mod ?nh) \<le> 15" using hd nk(4) by simp
    then show ?thesis by (simp add: word_le_nat_alt)
  qed
  ultimately show ?thesis using a unfolding n_def k_def
    by (intro exI [of _ "?b mod ?ns + 1"] exI [of _ "?b div ?ns mod ?nh"] exI [of _ "?b div ?ns div ?nh"] conjI) (simp_all only:)
qed

lemma hd_address_run:
  assumes "hd_startable r s"
  defines "di \<equiv> hd_info s (hd_minor r s div 5)"
  defines "lba \<equiv> nat (start_sect (hd_parts s (hd_minor r s))) + unat (rq_sector (requests_tab s r))"
  shows "\<exists>sec head cyl. hd_address (hd_minor r s) (rq_sector (requests_tab s r)) s = Some (hd_minor r s div 5, sec, head, cyl)
    \<and> unat sec = lba mod nat (hdi_sect di) + 1 \<and> unat head = lba div nat (hdi_sect di) mod nat (hdi_head di)
    \<and> unat cyl = lba div nat (hdi_sect di) div nat (hdi_head di) \<and> unat cyl < 65536 \<and> head \<le> 15"
  unfolding di_def lba_def by (rule hd_address_at) (use assms(1) in \<open>simp_all add: hd_startable_def\<close>)

lemma startable_drive:
  assumes "hd_startable r s"
  shows "hd_minor r s div 5 < 2" "\<not> (rq_sector (requests_tab s r) + 2 > word_of_int (nr_sects (hd_parts s (hd_minor r s))))"
proof -
  let ?p = "hd_parts s (hd_minor r s)" and ?x = "rq_sector (requests_tab s r)"
  have "hd_minor r s < 5 * 2" using assms mult_le_mono2 [of "NR_HD s" 2 5] by (simp add: hd_startable_def)
  then show "hd_minor r s div 5 < 2" by simp
  have h: "uint ?x + 2 \<le> nr_sects ?p" "nr_sects ?p \<le> 0x7fffffff" using assms by (auto simp: hd_startable_def partition_ok_def Let_def)
  have "unat (word_of_int (nr_sects ?p) :: u32) = nat (nr_sects ?p)"
    by (rule unat_of_int) (use h uint_ge_0 [of ?x] in linarith)+
  moreover have "unat (?x + 2) = unat ?x + 2"
  proof -
    have "unat ?x + 2 < 4294967296" using h uint_nat [of ?x] by linarith
    moreover have "unat (a + 2) = (unat a + 2) mod 4294967296" for a :: u32 by (simp add: unat_word_ariths)
    ultimately show ?thesis by simp
  qed
  moreover have "unat ?x + 2 \<le> nat (nr_sects ?p)" using h uint_nat [of ?x] by arith
  ultimately show "\<not> (?x + 2 > word_of_int (nr_sects ?p))" by (simp only: word_less_nat_alt not_less)
qed

lemma do_hd_request_start:
  assumes "hd_startable r s" "hd_address (hd_minor r s) (rq_sector (requests_tab s r)) s = Some (dev, sec, head, cyl)"
  shows "do_hd_request s =
    (if rq_cmd (requests_tab s r) = WRITE then do {
       s \<leftarrow> hd_out (of_nat dev) (rq_nr_sectors (requests_tab s r)) sec head cyl WIN_WRITE Write_intr s;
       case wait_drq 3000 s of
         (drq, s) \<Rightarrow> if \<not> drq then do { s \<leftarrow> bad_rw_intr s; do_hd_request s } else Some (port_write r s) }
     else if rq_cmd (requests_tab s r) = READ then
       hd_out (of_nat dev) (rq_nr_sectors (requests_tab s r)) sec head cyl WIN_READ Read_intr s
     else None)"
  using assms startable_drive [OF assms(1)]
  by (subst do_hd_request.simps) (simp add: hd_startable_def hd_minor_def)

section \<open>The interrupts of a transfer\<close>

text \<open>A sector has been read, or the next one has been given to the controller.\<close>

definition sector_done :: "nat \<Rightarrow> 'a fs_state_scheme \<Rightarrow> 'a fs_state_scheme" where
  "sector_done r = upd_request r (\<lambda>q. q\<lparr>rq_offset := rq_offset q + 512, rq_sector := rq_sector q + 1, rq_nr_sectors := rq_nr_sectors q - 1\<rparr>)"

definition got_sector :: "nat \<Rightarrow> 'a hd_state_scheme \<Rightarrow> 'a hd_state_scheme" where
  "got_sector r s = sector_done r (upd_request r (rq_errors_update (\<lambda>_. 0)) (port_read r (s\<lparr>io_reads := io_reads s + 1\<rparr>)))"

lemma read_intr_run:
  assumes "hd_cooperates s" "current_request s 3 = Some r"
  shows "read_intr s = (if rq_nr_sectors (requests_tab s r) - 1 \<noteq> 0 then Some ((got_sector r s)\<lparr>do_hd := Some Read_intr\<rparr>)
    else do_hd_request (end_request 3 True (got_sector r s)))"
proof -
  have e: "upd_request r (rq_nr_sectors_update (\<lambda>n. n - 1)) (next_sector r t) = sector_done r t" for t :: "'a hd_state_scheme"
    by (cases "requests_tab t r") (simp add: sector_done_def next_sector_def upd_request_def)
  have n: "rq_nr_sectors (requests_tab (got_sector r s) r) = rq_nr_sectors (requests_tab s r) - 1"
    by (simp add: got_sector_def sector_done_def port_read_def upd_request_def upd_buffer_def Let_def)
  show ?thesis
    using assms n unfolding read_intr_def win_result_run [OF assms(1)]
    by (simp add: Let_def e got_sector_def)
qed

definition sent_sector :: "nat \<Rightarrow> 'a hd_state_scheme \<Rightarrow> 'a hd_state_scheme" where
  "sent_sector r s = port_write r ((sector_done r (s\<lparr>io_reads := io_reads s + 1\<rparr>))\<lparr>do_hd := Some Write_intr\<rparr>)"

lemma write_intr_run:
  assumes "hd_cooperates s" "current_request s 3 = Some r"
  shows "write_intr s = (if rq_nr_sectors (requests_tab s r) - 1 \<noteq> 0 then Some (sent_sector r s)
    else do_hd_request (end_request 3 True (upd_request r (rq_nr_sectors_update (\<lambda>n. n - 1)) (s\<lparr>io_reads := io_reads s + 1\<rparr>))))"
proof -
  have e: "next_sector r (upd_request r (rq_nr_sectors_update (\<lambda>n. n - 1)) t) = sector_done r t" for t :: "'a hd_state_scheme"
    by (cases "requests_tab t r") (simp add: sector_done_def next_sector_def upd_request_def)
  show ?thesis
    using assms unfolding write_intr_def win_result_run [OF assms(1)]
    by (simp add: Let_def e sent_sector_def) (simp add: upd_request_def)
qed

text \<open>Two states of the file system that agree on everything but the fields of request \<open>r\<close> that count its progress and the
  bytes of a buffer behind its block.\<close>

definition fs_agree :: "nat \<Rightarrow> 'a fs_state_scheme \<Rightarrow> 'a fs_state_scheme \<Rightarrow> bool" where
  "fs_agree r s t \<longleftrightarrow> tasks s = tasks t \<and> current_request s = current_request t \<and> wait_for_request s = wait_for_request t
     \<and> (\<forall>q. q \<noteq> r \<longrightarrow> requests_tab s q = requests_tab t q)
     \<and> rq_bh (requests_tab s r) = rq_bh (requests_tab t r) \<and> rq_next (requests_tab s r) = rq_next (requests_tab t r)
     \<and> rq_waiting (requests_tab s r) = rq_waiting (requests_tab t r)
     \<and> (\<forall>b. b_data_update (\<lambda>_. undefined) (buffers s b) = b_data_update (\<lambda>_. undefined) (buffers t b)
          \<and> (\<forall>i<1024. b_data (buffers s b) i = b_data (buffers t b) i))"

lemma cooperates_fields [simp]:
  "hd_cooperates (s\<lparr>do_hd := h\<rparr>) = hd_cooperates s" "hd_cooperates (s\<lparr>io_reads := k\<rparr>) = hd_cooperates s"
  "hd_cooperates (s\<lparr>ports := p\<rparr>) = hd_cooperates s" "hd_cooperates (got_sector r s) = hd_cooperates s"
  "hd_cooperates (sent_sector r s) = hd_cooperates s" "hd_cooperates (port_write r s) = hd_cooperates s"
  by (simp_all add: hd_cooperates_def got_sector_def sent_sector_def sector_done_def port_read_def port_write_def upd_request_def upd_buffer_def Let_def)

lemma hd_interrupt_run:
  "do_hd s = Some Read_intr \<Longrightarrow> hd_interrupt s = read_intr (s\<lparr>ports := ports s @ [(0xA0, 0x20), (0x20, 0x20)], do_hd := None\<rparr>)"
  "do_hd s = Some Write_intr \<Longrightarrow> hd_interrupt s = write_intr (s\<lparr>ports := ports s @ [(0xA0, 0x20), (0x20, 0x20)], do_hd := None\<rparr>)"
  by (simp_all add: hd_interrupt_def outb_def)

section \<open>The properties\<close>

text \<open>The bytes sent to the controller encode the sector number.\<close>

lemma chs_bytes:
  fixes sec head cyl :: u32
  assumes "unat sec = lba mod n + 1" "unat head = lba div n mod k" "unat cyl = lba div n div k" "unat cyl < 65536"
    "head \<le> 15" "0 < n" "n \<le> 255" "0 < k"
  shows "((uint (ucast cyl :: u8) + 256 * uint (ucast (drop_bit 8 cyl) :: u8)) * int k + uint (ucast head :: u8)) * int n
      + uint (ucast sec :: u8) - 1 = int lba"
    and "1 \<le> uint (ucast sec :: u8)" "uint (ucast sec :: u8) \<le> int n" "uint (ucast head :: u8) < int k"
proof -
  have u: "unat (ucast w :: u8) = unat w" if "unat w < 256" for w :: u32
    using that by (simp add: unsigned_ucast_eq take_bit_eq_mod)
  have m: "lba mod n < n" "lba div n mod k < k" using assms(6,8) by simp_all
  then have "unat sec < 256" using assms(1,7) by linarith
  then have sec: "uint (ucast sec :: u8) = int (lba mod n + 1)" unfolding uint_nat using u [of sec] assms(1) by simp
  have "unat head \<le> 15" using assms(5) by (simp add: word_le_nat_alt)
  then have head: "uint (ucast head :: u8) = int (lba div n mod k)" unfolding uint_nat using u [of head] assms(2) by simp
  have "unat (drop_bit 8 cyl) = unat cyl div 256" by (simp add: drop_bit_eq_div unat_div)
  then have "unat (ucast (drop_bit 8 cyl) :: u8) = unat cyl div 256" using u assms(4) by simp
  moreover have "unat (ucast cyl :: u8) = unat cyl mod 256" by (simp add: unsigned_ucast_eq take_bit_eq_mod)
  ultimately have "unat (ucast cyl :: u8) + 256 * unat (ucast (drop_bit 8 cyl) :: u8) = unat cyl" by simp
  then have "int (unat (ucast cyl :: u8)) + 256 * int (unat (ucast (drop_bit 8 cyl) :: u8)) = int (unat cyl)"
    by (metis of_nat_add of_nat_mult of_nat_numeral)
  then have cyl: "uint (ucast cyl :: u8) + 256 * uint (ucast (drop_bit 8 cyl) :: u8) = int (lba div n div k)"
    unfolding uint_nat assms(3) .
  have "((uint (ucast cyl :: u8) + 256 * uint (ucast (drop_bit 8 cyl) :: u8)) * int k + uint (ucast head :: u8)) * int n
      + uint (ucast sec :: u8) - 1 = int ((lba div n div k * k + lba div n mod k) * n + lba mod n)"
    unfolding cyl head sec of_nat_add of_nat_mult of_nat_1 by linarith
  then show "((uint (ucast cyl :: u8) + 256 * uint (ucast (drop_bit 8 cyl) :: u8)) * int k + uint (ucast head :: u8)) * int n
      + uint (ucast sec :: u8) - 1 = int lba" by simp
  show "1 \<le> uint (ucast sec :: u8)" "uint (ucast sec :: u8) \<le> int n" "uint (ucast head :: u8) < int k"
    unfolding sec head using m by linarith+
qed

lemma drive_head_byte:
  "drive = 0 \<or> drive = 1 \<Longrightarrow>
    (ucast (0xA0 OR push_bit 4 (of_nat drive :: u32) OR head) :: u8) = 0xA0 OR push_bit 4 (of_nat drive) OR ucast head"
  by (auto simp: bit_eq_iff bit_simps)

lemma start_read:
  assumes "hd_startable r s" "hd_cooperates s" "rq_cmd (requests_tab s r) = READ"
  shows "\<exists>p. do_hd_request s = Some (s\<lparr>ports := p, io_reads := io_reads s + 1, do_hd := Some Read_intr\<rparr>)"
proof -
  obtain sec head cyl where a: "hd_address (hd_minor r s) (rq_sector (requests_tab s r)) s = Some (hd_minor r s div 5, sec, head, cyl)" "head \<le> 15"
    using hd_address_run [OF assms(1)] by blast
  show ?thesis
    using hd_out_run [OF assms(2) startable_drive(1) [OF assms(1)] a(2)] assms(3) by (auto simp: do_hd_request_start [OF assms(1) a(1)])
qed

text \<open>C28: The driver implements the transfer that the block layer relies on: a read of a block ends after two
  interrupts, when the two sectors that the controller has delivered are in the buffer of the request, in order,
  and the request is ended with success; nothing else has changed, and the next request is started.\<close>

theorem hd_reads_block:
  assumes "hd_startable r s" "hd_cooperates s" "rq_cmd (requests_tab s r) = READ" "rq_nr_sectors (requests_tab s r) = 2"
    "rq_offset (requests_tab s r) = 0" "io_ok s (rq_dev (requests_tab s r)) (rq_sector (requests_tab s r))"
    "\<forall>i<512. sector_in s (sectors_read s) i = disk s (rq_dev (requests_tab s r)) (drop_bit 1 (rq_sector (requests_tab s r))) i
       \<and> sector_in s (sectors_read s + 1) i = disk s (rq_dev (requests_tab s r)) (drop_bit 1 (rq_sector (requests_tab s r))) (512 + i)"
  shows "\<exists>s1 s2 t u. do_hd_request s = Some s1 \<and> hd_interrupt s1 = Some s2 \<and> hd_interrupt s2 = do_hd_request (end_request 3 True t)
    \<and> hw_transfer (requests_tab s r) s = (True, u) \<and> fs_agree r t u"
proof -
  let ?q = "requests_tab s r"
  obtain p where 1: "do_hd_request s = Some (s\<lparr>ports := p, io_reads := io_reads s + 1, do_hd := Some Read_intr\<rparr>)"
    using start_read [OF assms(1-3)] by blast
  define s1 where "s1 = s\<lparr>io_reads := io_reads s + 1, ports := p @ [(0xA0, 0x20), (0x20, 0x20)], do_hd := None\<rparr>"
  have c1: "hd_cooperates s1" "current_request s1 3 = Some r" "rq_nr_sectors (requests_tab s1 r) = 2"
    using assms(1,2,4) by (simp_all add: s1_def hd_startable_def hd_cooperates_def)
  have 2: "hd_interrupt (s\<lparr>ports := p, io_reads := io_reads s + 1, do_hd := Some Read_intr\<rparr>) = Some ((got_sector r s1)\<lparr>do_hd := Some Read_intr\<rparr>)"
    using read_intr_run [OF c1(1,2)] c1(3) by (simp add: hd_interrupt_run s1_def)
  define s2 where "s2 = (got_sector r s1)\<lparr>ports := ports s1 @ [(0xA0, 0x20), (0x20, 0x20)], do_hd := None\<rparr>"
  have g: "current_request (got_sector r x) = current_request x" "ports (got_sector r x) = ports x"
    "rq_nr_sectors (requests_tab (got_sector r x) r) = rq_nr_sectors (requests_tab x r) - 1" for x :: "'a hd_state_scheme"
    by (simp_all add: got_sector_def sector_done_def port_read_def upd_request_def upd_buffer_def Let_def)
  have c2: "hd_cooperates s2" "current_request s2 3 = Some r" "rq_nr_sectors (requests_tab s2 r) = 1"
    using c1 g by (simp_all add: s2_def)
  have 3: "hd_interrupt ((got_sector r s1)\<lparr>do_hd := Some Read_intr\<rparr>) = do_hd_request (end_request 3 True (got_sector r s2))"
    using read_intr_run [OF c2(1,2)] c2(3) g(2) by (simp add: hd_interrupt_run s2_def)
  let ?u = "upd_buffer (rq_buffer ?q) (b_data_update (\<lambda>_. disk s (rq_dev ?q) (drop_bit 1 (rq_sector ?q)))) s"
  have 4: "hw_transfer ?q s = (True, ?u)" using assms(3,6) by (simp add: hw_transfer_def Let_def)
  have "fs_agree r (got_sector r s2) ?u"
    using assms(5,7)
    by (auto simp: fs_agree_def s2_def s1_def got_sector_def sector_done_def port_read_def upd_request_def upd_buffer_def Let_def)
  then show ?thesis using 1 2 3 4 by blast
qed

lemma wait_drq_run:
  assumes "io_in s (io_reads s) HD_STATUS AND DRQ_STAT \<noteq> 0"
  shows "wait_drq 3000 s = (True, s\<lparr>io_reads := io_reads s + 1\<rparr>)"
proof -
  have "wait_drq (Suc n) s = (True, s\<lparr>io_reads := io_reads s + 1\<rparr>)" for n using assms by (simp add: io_inb_def)
  from this [of 2999] show ?thesis by simp
qed

lemma start_write:
  assumes "hd_startable r s" "hd_cooperates s" "rq_cmd (requests_tab s r) = WRITE"
    "io_in s (io_reads s + 1) HD_STATUS AND DRQ_STAT \<noteq> 0"
  shows "\<exists>p. do_hd_request s = Some (port_write r (s\<lparr>ports := p, do_hd := Some Write_intr, io_reads := Suc (Suc (io_reads s))\<rparr>))"
proof -
  obtain sec head cyl where a: "hd_address (hd_minor r s) (rq_sector (requests_tab s r)) s = Some (hd_minor r s div 5, sec, head, cyl)" "head \<le> 15"
    using hd_address_run [OF assms(1)] by blast
  let ?s = "s\<lparr>ports := ports s @ hd_command (hd_info s (hd_minor r s div 5)) (hd_minor r s div 5) (rq_nr_sectors (requests_tab s r)) sec head cyl WIN_WRITE,
    io_reads := io_reads s + 1, do_hd := Some Write_intr\<rparr>"
  have "wait_drq 3000 ?s = (True, ?s\<lparr>io_reads := io_reads ?s + 1\<rparr>)" by (rule wait_drq_run) (use assms(4) in simp)
  then show ?thesis
    using hd_out_run [OF assms(2) startable_drive(1) [OF assms(1)] a(2)] assms(3)
    by (intro exI [of _ "ports ?s"]) (simp add: do_hd_request_start [OF assms(1) a(1)])
qed

text \<open>C29: A write of a block gives the controller the two halves of the buffer, in order, the first when it asks for
  data after the command and the second at the first interrupt; after the second interrupt the request is ended with
  success and nothing else has changed. What was sent is the block that the block layer expects on the disk.\<close>

theorem hd_writes_block:
  assumes "hd_startable r s" "hd_cooperates s" "rq_cmd (requests_tab s r) = WRITE" "rq_nr_sectors (requests_tab s r) = 2"
    "rq_offset (requests_tab s r) = 0" "io_ok s (rq_dev (requests_tab s r)) (rq_sector (requests_tab s r))"
    "io_in s (io_reads s + 1) HD_STATUS AND DRQ_STAT \<noteq> 0"
  shows "\<exists>s1 s2 t u x y. do_hd_request s = Some s1 \<and> hd_interrupt s1 = Some s2 \<and> hd_interrupt s2 = do_hd_request (end_request 3 True t)
    \<and> hw_transfer (requests_tab s r) s = (True, u) \<and> fs_agree r t u \<and> sectors_out t = sectors_out s @ [x, y]
    \<and> (\<forall>i<512. x i = disk u (rq_dev (requests_tab s r)) (drop_bit 1 (rq_sector (requests_tab s r))) i
         \<and> y i = disk u (rq_dev (requests_tab s r)) (drop_bit 1 (rq_sector (requests_tab s r))) (512 + i))"
proof -
  let ?q = "requests_tab s r"
  obtain p where 1: "do_hd_request s = Some (port_write r (s\<lparr>ports := p, do_hd := Some Write_intr, io_reads := Suc (Suc (io_reads s))\<rparr>))"
    using start_write [OF assms(1-3,7)] by blast
  have pw: "current_request (port_write r x) = current_request x" "requests_tab (port_write r x) = requests_tab x"
    "ports (port_write r x) = ports x" "do_hd (port_write r x) = do_hd x" for x :: "'a hd_state_scheme"
    by (simp_all add: port_write_def Let_def)
  define s1 where "s1 = (port_write r (s\<lparr>ports := p, do_hd := Some Write_intr, io_reads := Suc (Suc (io_reads s))\<rparr>))
    \<lparr>ports := p @ [(0xA0, 0x20), (0x20, 0x20)], do_hd := None\<rparr>"
  have c1: "hd_cooperates s1" "current_request s1 3 = Some r" "rq_nr_sectors (requests_tab s1 r) = 2"
    using assms(1,2,4) by (simp_all add: s1_def hd_startable_def pw)
  have 2: "hd_interrupt (port_write r (s\<lparr>ports := p, do_hd := Some Write_intr, io_reads := Suc (Suc (io_reads s))\<rparr>)) = Some (sent_sector r s1)"
    using write_intr_run [OF c1(1,2)] c1(3) by (simp add: hd_interrupt_run s1_def pw)
  define s2 where "s2 = (sent_sector r s1)\<lparr>ports := ports (sent_sector r s1) @ [(0xA0, 0x20), (0x20, 0x20)], do_hd := None\<rparr>"
  have ss: "current_request (sent_sector r x) = current_request x" "do_hd (sent_sector r x) = Some Write_intr"
    "rq_nr_sectors (requests_tab (sent_sector r x) r) = rq_nr_sectors (requests_tab x r) - 1" for x :: "'a hd_state_scheme"
    by (simp_all add: sent_sector_def sector_done_def pw upd_request_def)
  have c2: "hd_cooperates s2" "current_request s2 3 = Some r" "rq_nr_sectors (requests_tab s2 r) = 1"
    using c1 by (simp_all add: s2_def ss)
  let ?t = "upd_request r (rq_nr_sectors_update (\<lambda>n. n - 1)) (s2\<lparr>io_reads := io_reads s2 + 1\<rparr>)"
  have 3: "hd_interrupt (sent_sector r s1) = do_hd_request (end_request 3 True ?t)"
    using write_intr_run [OF c2(1,2)] c2(3) by (simp add: hd_interrupt_run ss s2_def)
  let ?d = "b_data (buffers s (rq_buffer ?q))"
  let ?u = "s\<lparr>disk := (disk s)(rq_dev ?q := (disk s (rq_dev ?q))(drop_bit 1 (rq_sector ?q) := ?d))\<rparr>"
  have 4: "hw_transfer ?q s = (True, ?u)" using assms(3,6) by (simp add: hw_transfer_def Let_def)
  have 5: "fs_agree r ?t ?u"
    by (auto simp: fs_agree_def s2_def s1_def sent_sector_def sector_done_def port_write_def upd_request_def Let_def)
  have 6: "sectors_out ?t = sectors_out s @ [\<lambda>i. if i < 512 then ?d i else 0, \<lambda>i. if i < 512 then ?d (512 + i) else 0]"
    using assms(5) by (simp add: s2_def s1_def sent_sector_def sector_done_def port_write_def upd_request_def Let_def cong: if_cong)
  have 7: "\<forall>i<512. (if i < 512 then ?d i else 0) = disk ?u (rq_dev ?q) (drop_bit 1 (rq_sector ?q)) i
      \<and> (if i < 512 then ?d (512 + i) else 0) = disk ?u (rq_dev ?q) (drop_bit 1 (rq_sector ?q)) (512 + i)" by simp
  show ?thesis
    by (intro exI conjI) (rule 1 2 3 4 5 6 7)+
qed

section \<open>A disk\<close>

text \<open>A disk of 4 heads and 17 sectors with a request for block 10 of its first partition.\<close>

definition demo_hd :: "int \<Rightarrow> hd_state" where
  "demo_hd rw = (init_hd (init_tty_state 0x1000 0) (\<lambda>_ _. 0x58) (\<lambda>_ _. 0))\<lparr>hd_recalibrate := False, hd_reset := False,
     hd_info := (\<lambda>_. \<lparr>hdi_head = 4, hdi_sect = 17, hdi_cyl = 615, hdi_wpcom = 300, hdi_lzone = 615, hdi_ctl = 8\<rparr>),
     NR_HD := 1, hd_parts := (\<lambda>_. \<lparr>start_sect = 17, nr_sects = 10000\<rparr>),
     requests_tab := (\<lambda>_. zero_request\<lparr>rq_dev := 0x301, rq_cmd := rw, rq_sector := 20, rq_nr_sectors := 2, rq_bh := Some 0\<rparr>),
     buffers := (\<lambda>_. zero_buffer\<lparr>b_lock := True\<rparr>), current_request := (\<lambda>_. None)(3 := Some 0)\<rparr>"

lemma demo_hd_ok: "hd_startable 0 (demo_hd rw)" "hd_cooperates (demo_hd rw)" "rq_cmd (requests_tab (demo_hd rw) 0) = rw"
  "rq_nr_sectors (requests_tab (demo_hd rw) 0) = 2" "rq_offset (requests_tab (demo_hd rw) 0) = 0"
  "io_ok (demo_hd rw) d n" "rq_sector (requests_tab (demo_hd rw) 0) = 20" "disk (demo_hd rw) d k i = 0" "hd_minor 0 (demo_hd rw) = 1"
  by (simp_all add: demo_hd_def hd_startable_def partition_ok_def request_bad_def MAJOR_def hd_minor_def MINOR_def geometry_ok_def zero_request_def
      hd_cooperates_def init_hd_simps init_tty_state_def init_fs_def)

theorem hd_reads_block_witness:
  "\<exists>s1 s2 t u. do_hd_request (demo_hd READ) = Some s1 \<and> hd_interrupt s1 = Some s2 \<and> hd_interrupt s2 = do_hd_request (end_request 3 True t)
    \<and> hw_transfer (requests_tab (demo_hd READ) 0) (demo_hd READ) = (True, u) \<and> fs_agree 0 t u"
  by (rule hd_reads_block [OF demo_hd_ok(1-6)]) (simp add: demo_hd_def init_hd_simps init_tty_state_def init_fs_def)

theorem hd_writes_block_witness:
  "\<exists>s1 s2 t. do_hd_request (demo_hd WRITE) = Some s1 \<and> hd_interrupt s1 = Some s2 \<and> hd_interrupt s2 = do_hd_request (end_request 3 True t)
    \<and> length (sectors_out t) = 2"
proof -
  have "io_in (demo_hd WRITE) (io_reads (demo_hd WRITE) + 1) HD_STATUS AND DRQ_STAT \<noteq> 0" "sectors_out (demo_hd WRITE) = []"
    by (simp_all add: demo_hd_def init_hd_simps init_tty_state_def init_fs_def DRQ_STAT_def)
  with hd_writes_block [OF demo_hd_ok(1-6)] show ?thesis by (metis append_Nil length_Cons list.size(3) numeral_2_eq_2)
qed

end
