(* ===== verification/Hd_Partition.thy ===== *)
theory Hd_Partition
  imports Hd_Transfer Elevator
begin

text \<open>
  The hard disk driver never touches a sector outside the partition of a request: what \<open>do_hd_request\<close> and the interrupt
  write to the ports, over all the requests that they go through (\<open>do_hd_request_safe\<close> by fixed point induction), is a
  sequence of pieces none of which starts a transfer except for remaining sectors of a request, in its partition.
\<close>

section \<open>What the driver relies on\<close>

definition hd_disks_ok :: "'a hd_state_scheme \<Rightarrow> bool" where
  "hd_disks_ok s \<longleftrightarrow> NR_HD s \<le> 2 \<and> (\<forall>d < 5 * NR_HD s. partition_ok d s)"

text \<open>A request has one or two sectors left; the last sector numbers of 32 bits are not used. Nothing is assumed of the place of the
  sectors.\<close>

definition sectors_left :: "request \<Rightarrow> bool" where
  "sectors_left q \<longleftrightarrow> 1 \<le> unat (rq_nr_sectors q) \<and> unat (rq_nr_sectors q) \<le> 2 \<and> unat (rq_sector q) + unat (rq_nr_sectors q) \<le> 0xfffffffe"

definition hd_chain :: "'a fs_state_scheme \<Rightarrow> nat list \<Rightarrow> bool" where
  "hd_chain s rs \<longleftrightarrow> queue_chain (requests_tab s) (current_request s 3) rs \<and> distinct rs"

definition hd_queue :: "'a fs_state_scheme \<Rightarrow> nat list \<Rightarrow> bool" where
  "hd_queue s rs \<longleftrightarrow> hd_chain s rs \<and> (\<forall>r\<in>set rs. sectors_left (requests_tab s r))"

section \<open>What is written to the ports\<close>

definition no_transfer :: "(u16 \<times> u8) list \<Rightarrow> bool" where
  "no_transfer b \<longleftrightarrow> (\<forall>v. (0x1f7, v) \<in> set b \<longrightarrow> v \<noteq> WIN_READ \<and> v \<noteq> WIN_WRITE)"

text \<open>A command for request \<open>r\<close>: the registers hold a valid address on the disk of its partition; it moves the
  sectors of the request from the \<open>k\<close>-th on, and they lie in the partition.\<close>

definition hd_command_ok :: "nat \<Rightarrow> 'a hd_state_scheme \<Rightarrow> (u16 \<times> u8) list \<Rightarrow> bool" where
  "hd_command_ok r s b \<longleftrightarrow> (\<exists>k ctl wp nsect sec lo hi dh head.
     let q = requests_tab s r; p = hd_parts s (hd_minor r s); di = hd_info s (hd_minor r s div 5);
         lba = ((uint lo + 256 * uint hi) * hdi_head di + uint head) * hdi_sect di + uint sec - 1
     in b = [(0x3f6, ctl), (0x1f1, wp), (0x1f2, nsect), (0x1f3, sec), (0x1f4, lo), (0x1f5, hi), (0x1f6, dh),
           (0x1f7, if rq_cmd q = WRITE then WIN_WRITE else WIN_READ)]
        \<and> hd_minor r s < 5 * NR_HD s \<and> dh = 0xA0 OR push_bit 4 (of_nat (hd_minor r s div 5)) OR head
        \<and> 1 \<le> uint sec \<and> uint sec \<le> hdi_sect di \<and> uint head < hdi_head di
        \<and> 1 \<le> unat nsect \<and> unat nsect + k = unat (rq_nr_sectors q)
        \<and> lba = start_sect p + int (unat (rq_sector q) + k)
        \<and> start_sect p \<le> lba \<and> lba + int (unat nsect) \<le> start_sect p + nr_sects p)"

definition hd_writes_ok :: "nat list \<Rightarrow> 'a hd_state_scheme \<Rightarrow> (u16 \<times> u8) list \<Rightarrow> bool" where
  "hd_writes_ok rs s w \<longleftrightarrow> (\<exists>bs. w = concat bs \<and> (\<forall>b\<in>set bs. no_transfer b \<or> (\<exists>r\<in>set rs. hd_command_ok r s b)))"

text \<open>In \<open>s'\<close> some requests of \<open>s\<close> are left, of which sectors may have been moved.\<close>

definition sectors_moved :: "request \<Rightarrow> request \<Rightarrow> bool" where
  "sectors_moved q q' \<longleftrightarrow> rq_dev q' = rq_dev q \<and> rq_cmd q' = rq_cmd q
     \<and> (\<exists>k. unat (rq_sector q') = unat (rq_sector q) + k \<and> unat (rq_nr_sectors q') + k = unat (rq_nr_sectors q))"

definition hd_later :: "'a hd_state_scheme \<Rightarrow> nat list \<Rightarrow> 'a hd_state_scheme \<Rightarrow> nat list \<Rightarrow> bool" where
  "hd_later s rs s' rs' \<longleftrightarrow> hd_parts s' = hd_parts s \<and> hd_info s' = hd_info s \<and> NR_HD s' = NR_HD s \<and> set rs' \<subseteq> set rs
     \<and> (\<forall>r\<in>set rs'. sectors_moved (requests_tab s r) (requests_tab s' r))"

definition hd_safe :: "'a hd_state_scheme \<Rightarrow> nat list \<Rightarrow> 'a hd_state_scheme \<Rightarrow> bool" where
  "hd_safe s rs s' \<longleftrightarrow> (\<exists>w rs'. ports s' = ports s @ w \<and> hd_writes_ok rs s w \<and> hd_queue s' rs' \<and> hd_later s rs s' rs')"

lemma moved_refl [simp]: "sectors_moved q q"
  by (simp add: sectors_moved_def)

lemma moved_trans: "sectors_moved q q1 \<Longrightarrow> sectors_moved q1 q2 \<Longrightarrow> sectors_moved q q2"
proof -
  assume m: "sectors_moved q q1" "sectors_moved q1 q2"
  then obtain k l where "unat (rq_sector q1) = unat (rq_sector q) + k" "unat (rq_nr_sectors q1) + k = unat (rq_nr_sectors q)"
    "unat (rq_sector q2) = unat (rq_sector q1) + l" "unat (rq_nr_sectors q2) + l = unat (rq_nr_sectors q1)"
    by (auto simp only: sectors_moved_def)
  then have "unat (rq_sector q2) = unat (rq_sector q) + (k + l) \<and> unat (rq_nr_sectors q2) + (k + l) = unat (rq_nr_sectors q)"
    by linarith
  then show ?thesis using m by (simp only: sectors_moved_def) blast
qed

lemma later_refl [simp]: "hd_later s rs s rs"
  by (simp add: hd_later_def)

lemma later_trans: "hd_later s rs s1 rs1 \<Longrightarrow> hd_later s1 rs1 s2 rs2 \<Longrightarrow> hd_later s rs s2 rs2"
  unfolding hd_later_def using moved_trans by (auto; blast)

lemma later_command:
  assumes "hd_later s rs s1 rs1" "r \<in> set rs1" "hd_command_ok r s1 b"
  shows "hd_command_ok r s b"
proof -
  obtain k where k: "unat (rq_sector (requests_tab s1 r)) = unat (rq_sector (requests_tab s r)) + k"
    "unat (rq_nr_sectors (requests_tab s1 r)) + k = unat (rq_nr_sectors (requests_tab s r))"
    using assms(1,2) by (auto simp only: hd_later_def sectors_moved_def)
  have f: "hd_parts s1 = hd_parts s" "hd_info s1 = hd_info s" "NR_HD s1 = NR_HD s" "hd_minor r s1 = hd_minor r s"
    "rq_cmd (requests_tab s1 r) = rq_cmd (requests_tab s r)"
    using assms(1,2) by (auto simp: hd_later_def sectors_moved_def hd_minor_def)
  from assms(3) obtain l where l: "\<exists>ctl wp nsect sec lo hi dh head.
     let q = requests_tab s1 r; p = hd_parts s1 (hd_minor r s1); di = hd_info s1 (hd_minor r s1 div 5);
         lba = ((uint lo + 256 * uint hi) * hdi_head di + uint head) * hdi_sect di + uint sec - 1
     in b = [(0x3f6, ctl), (0x1f1, wp), (0x1f2, nsect), (0x1f3, sec), (0x1f4, lo), (0x1f5, hi), (0x1f6, dh),
           (0x1f7, if rq_cmd q = WRITE then WIN_WRITE else WIN_READ)]
        \<and> hd_minor r s1 < 5 * NR_HD s1 \<and> dh = 0xA0 OR push_bit 4 (of_nat (hd_minor r s1 div 5)) OR head
        \<and> 1 \<le> uint sec \<and> uint sec \<le> hdi_sect di \<and> uint head < hdi_head di
        \<and> 1 \<le> unat nsect \<and> unat nsect + l = unat (rq_nr_sectors q)
        \<and> lba = start_sect p + int (unat (rq_sector q) + l)
        \<and> start_sect p \<le> lba \<and> lba + int (unat nsect) \<le> start_sect p + nr_sects p" unfolding hd_command_ok_def by blast
  have "unat n + l = unat (rq_nr_sectors (requests_tab s1 r)) \<longleftrightarrow> unat n + (l + k) = unat (rq_nr_sectors (requests_tab s r))" for n :: u8
    using k(2) by linarith
  moreover have "unat (rq_sector (requests_tab s1 r)) + l = unat (rq_sector (requests_tab s r)) + (l + k)" using k(1) by simp
  ultimately show ?thesis using l unfolding hd_command_ok_def Let_def f by (intro exI [of _ "l + k"]) (simp only:)
qed

lemma writes_later:
  assumes "hd_later s rs s1 rs1" "hd_writes_ok rs1 s1 w"
  shows "hd_writes_ok rs s w"
proof -
  have "set rs1 \<subseteq> set rs" using assms(1) by (simp add: hd_later_def)
  then show ?thesis using assms later_command unfolding hd_writes_ok_def by (metis subsetD)
qed

lemma writes_append: "hd_writes_ok rs s w \<Longrightarrow> hd_writes_ok rs s w' \<Longrightarrow> hd_writes_ok rs s (w @ w')"
  unfolding hd_writes_ok_def by (metis (no_types, lifting) Un_iff concat_append set_append)

lemma writes_nil [simp]: "hd_writes_ok rs s []"
  unfolding hd_writes_ok_def by (rule exI [of _ "[]"]) simp

lemma writes_one: "no_transfer b \<or> (\<exists>r\<in>set rs. hd_command_ok r s b) \<Longrightarrow> hd_writes_ok rs s b"
  unfolding hd_writes_ok_def by (rule exI [of _ "[b]"]) simp

lemma safe_from:
  assumes "hd_safe s1 rs1 s'" "hd_later s rs s1 rs1" "hd_writes_ok rs s w" "ports s1 = ports s @ w"
  shows "hd_safe s rs s'"
proof -
  obtain w' rs' where "ports s' = ports s1 @ w'" "hd_writes_ok rs1 s1 w'" "hd_queue s' rs'" "hd_later s1 rs1 s' rs'"
    using assms(1) by (auto simp: hd_safe_def)
  then show ?thesis using assms(2-4) writes_append writes_later later_trans unfolding hd_safe_def
    by (metis append_assoc)
qed

lemma safe_writes:
  "ports s' = ports s @ w \<Longrightarrow> hd_writes_ok rs s w \<Longrightarrow> hd_queue s' rs' \<Longrightarrow> hd_later s rs s' rs' \<Longrightarrow> hd_safe s rs s'"
  by (auto simp: hd_safe_def)

section \<open>Steps that write nothing\<close>

definition hd_quiet :: "'a hd_state_scheme \<Rightarrow> 'a hd_state_scheme \<Rightarrow> bool" where
  "hd_quiet s s' \<longleftrightarrow> hd_parts s' = hd_parts s \<and> hd_info s' = hd_info s \<and> NR_HD s' = NR_HD s
     \<and> requests_tab s' = requests_tab s \<and> current_request s' = current_request s"

lemma quiet_later: "hd_quiet s s' \<Longrightarrow> hd_later s rs s' rs"
  by (simp add: hd_quiet_def hd_later_def)

lemma quiet_queue: "hd_quiet s s' \<Longrightarrow> hd_queue s' rs = hd_queue s rs"
  by (simp add: hd_quiet_def hd_queue_def hd_chain_def)

lemma later_disks: "hd_later s rs s' rs' \<Longrightarrow> hd_disks_ok s' = hd_disks_ok s"
  by (simp add: hd_later_def hd_disks_ok_def partition_ok_def)

lemma reads_self [simp]: "\<exists>k. s = s\<lparr>io_reads := k\<rparr>"
  by (rule exI [of _ "io_reads s"]) simp

lemma ready_reads: "\<exists>k. snd (ready_loop n s) = s\<lparr>io_reads := k\<rparr>"
proof (induction n arbitrary: s)
  case (Suc n)
  from Suc [of "s\<lparr>io_reads := io_reads s + 1\<rparr>"] show ?case
    by (auto simp: io_inb_def)
qed simp

lemma busy_reads: "\<exists>k. snd (drive_busy s) = s\<lparr>io_reads := k\<rparr>"
proof -
  have "\<exists>k. busy_loop n s = s\<lparr>io_reads := k\<rparr>" for n
  proof (induction n arbitrary: s)
    case (Suc n)
    from Suc [of "s\<lparr>io_reads := io_reads s + 1\<rparr>"] show ?case by (auto simp: io_inb_def)
  qed simp
  from this [of 10000] show ?thesis by (auto simp: drive_busy_def io_inb_def)
qed

lemma drq_reads: "\<exists>k. snd (wait_drq n s) = s\<lparr>io_reads := k\<rparr>"
proof (induction n arbitrary: s)
  case (Suc n)
  from Suc [of "s\<lparr>io_reads := io_reads s + 1\<rparr>"] show ?case by (auto simp: io_inb_def)
qed simp

lemma result_reads: "\<exists>k. snd (win_result s) = s\<lparr>io_reads := k\<rparr>"
  by (auto simp: win_result_def io_inb_def Let_def)

lemma end_request_hd [simp]:
  "hd_parts (end_request m ok s) = hd_parts s" "hd_info (end_request m ok s) = hd_info s" "NR_HD (end_request m ok s) = NR_HD s"
  "ports (end_request m ok s) = ports s"
  by (auto simp: end_request_def Let_def floppy_off_def unlock_buffer_def wake_up_def waitq_defs upd_buffer_def upd_request_def
      set_state_def upd_task_def split: option.split)

text \<open>The first request is ended.\<close>

lemma end_run:
  assumes "hd_chain s (r # rs)" "\<forall>q\<in>set rs. sectors_left (requests_tab s q)"
  shows "hd_queue (end_request 3 ok s) rs" "hd_later s rs (end_request 3 ok s) rs"
proof -
  have r: "current_request s 3 = Some r" "r \<notin> set rs" "distinct rs" "queue_chain (requests_tab s) (rq_next (requests_tab s r)) rs"
    using assms(1) by (simp_all add: hd_chain_def)
  have same: "requests_tab (end_request 3 ok s) q = requests_tab s q" if "q \<in> set rs" for q
    using end_request_queue(2) [OF r(1)] that r(2) by metis
  have "queue_chain (requests_tab (end_request 3 ok s)) (rq_next (requests_tab s r)) rs"
    using r(4) queue_chain_cong [of rs "requests_tab (end_request 3 ok s)" "requests_tab s"] same by simp
  then show "hd_queue (end_request 3 ok s) rs"
    using assms(2) same r(3) end_request_queue(1) [OF r(1), of ok] by (simp add: hd_queue_def hd_chain_def)
  show "hd_later s rs (end_request 3 ok s) rs" using same by (simp add: hd_later_def)
qed

lemma later_tail: "hd_later s (r # rs) s rs"
  by (auto simp: hd_later_def)

lemma queue_tail: "hd_queue s (r # rs) \<Longrightarrow> hd_chain s (r # rs) \<and> (\<forall>q\<in>set rs. sectors_left (requests_tab s q))"
  by (simp add: hd_queue_def)

lemma queue_first: "hd_queue s rs \<Longrightarrow> current_request s 3 = Some r \<Longrightarrow> \<exists>rs'. rs = r # rs'"
  by (cases rs) (auto simp: hd_queue_def hd_chain_def)

lemma errors_run:
  assumes "hd_queue s rs"
  shows "hd_queue (upd_request r (rq_errors_update f) s) rs" "hd_later s rs (upd_request r (rq_errors_update f) s) rs"
proof -
  let ?s = "upd_request r (rq_errors_update f) s"
  have e: "rq_next (requests_tab ?s q) = rq_next (requests_tab s q)" "sectors_left (requests_tab ?s q) = sectors_left (requests_tab s q)"
    "sectors_moved (requests_tab s q) (requests_tab ?s q)" for q
    by (simp_all add: upd_request_def sectors_left_def sectors_moved_def)
  have "queue_chain (requests_tab ?s) p rs = queue_chain (requests_tab s) p rs" for p by (rule queue_chain_cong) (rule e(1))
  then show "hd_queue ?s rs" using assms e(2) by (simp add: hd_queue_def hd_chain_def) (simp add: upd_request_def)
  show "hd_later s rs ?s rs" unfolding hd_later_def using e(3) by (simp add: upd_request_def)
qed

lemma bad_rw_run:
  assumes "hd_queue s rs" "bad_rw_intr s = Some s'"
  shows "\<exists>rs'. hd_queue s' rs' \<and> hd_later s rs s' rs' \<and> ports s' = ports s"
proof -
  obtain r where r: "current_request s 3 = Some r" using assms(2) by (cases "current_request s 3") (auto simp: bad_rw_intr_def)
  obtain rs1 where rs: "rs = r # rs1" using queue_first [OF assms(1) r] by blast
  let ?s1 = "upd_request r (rq_errors_update (\<lambda>e. i32 (e + 1))) s"
  define s2 where "s2 = (if rq_errors (requests_tab ?s1 r) \<ge> MAX_ERRORS then end_request 3 False ?s1 else ?s1)"
  note 1 = errors_run [OF assms(1), of r "\<lambda>e. i32 (e + 1)"]
  have p: "ports ?s1 = ports s" by (simp add: upd_request_def)
  have "\<exists>rs'. hd_queue s2 rs' \<and> hd_later s rs s2 rs' \<and> ports s2 = ports s"
  proof (cases "rq_errors (requests_tab ?s1 r) \<ge> MAX_ERRORS")
    case True
    have t: "hd_chain ?s1 (r # rs1)" "\<forall>q\<in>set rs1. sectors_left (requests_tab ?s1 q)" using queue_tail 1(1) unfolding rs by blast+
    note e = end_run [OF t, of False]
    have "hd_later s rs (end_request 3 False ?s1) rs1"
      using later_trans [OF later_trans [OF 1(2) [unfolded rs] later_tail] e(2)] unfolding rs .
    then show ?thesis using e(1) True p by (auto simp: s2_def)
  next
    case False
    then show ?thesis using 1 p by (auto simp: s2_def)
  qed
  then obtain rs' where s2: "hd_queue s2 rs'" "hd_later s rs s2 rs'" "ports s2 = ports s" by blast
  have "s' = (if current_errors 3 s2 > MAX_ERRORS div 2 then s2\<lparr>hd_reset := True\<rparr> else s2)"
    using assms(2) unfolding bad_rw_intr_def r option.case Let_def s2_def [symmetric] by simp
  then have "hd_quiet s2 s'" "ports s' = ports s2" by (simp_all add: hd_quiet_def)
  then show ?thesis using s2 quiet_queue quiet_later later_trans by metis
qed

section \<open>Commands\<close>

lemma hd_out_shape:
  assumes "hd_out drive nsect sect head cyl cmd h s = Some s'"
  shows "ports s' = ports s @ hd_command (hd_info s (unat drive)) (unat drive) nsect sect head cyl cmd" "hd_quiet s s'"
proof -
  obtain n s1 where r: "controller_ready s = (n, s1)" by (cases "controller_ready s")
  obtain k where "s1 = s\<lparr>io_reads := k\<rparr>" using ready_reads [of 10000 s] r by (auto simp: controller_ready_def)
  then show "ports s' = ports s @ hd_command (hd_info s (unat drive)) (unat drive) nsect sect head cyl cmd" "hd_quiet s s'"
    using assms r by (auto simp: hd_out_def Let_def outb_def hd_command_def hd_quiet_def split: if_splits)
qed

lemma guard_bound:
  assumes "partition_ok d s" "sectors_left q" "\<not> (rq_sector q + 2 > word_of_int (nr_sects (hd_parts s d)))"
  shows "uint (rq_sector q) + 2 \<le> nr_sects (hd_parts s d)"
proof -
  let ?n = "nr_sects (hd_parts s d)"
  have n: "0 \<le> ?n" "?n \<le> 0x7fffffff" using assms(1) by (simp_all add: partition_ok_def Let_def)
  have "unat (rq_sector q) + 2 < 4294967296" using assms(2) by (simp add: sectors_left_def)
  moreover have "unat (x + 2) = (unat x + 2) mod 4294967296" for x :: u32 by (simp add: unat_word_ariths)
  ultimately have "unat (rq_sector q + 2) = unat (rq_sector q) + 2" by simp
  moreover have "unat (word_of_int ?n :: u32) = nat ?n" using n by (intro unat_of_int) simp_all
  ultimately have "unat (rq_sector q) + 2 \<le> nat ?n" using assms(3) by (simp add: word_less_nat_alt)
  then show ?thesis using n(1) uint_nat [of "rq_sector q"] by linarith
qed

text \<open>The command for a request that passes the test of \<open>do_hd_request\<close>.\<close>

lemma transfer_command:
  assumes "hd_disks_ok s" "hd_minor r s < 5 * NR_HD s" "sectors_left (requests_tab s r)"
    "\<not> (rq_sector (requests_tab s r) + 2 > word_of_int (nr_sects (hd_parts s (hd_minor r s))))"
    "hd_address (hd_minor r s) (rq_sector (requests_tab s r)) s = Some (dev, sec, head, cyl)"
  shows "hd_command_ok r s (hd_command (hd_info s (unat (of_nat dev :: u32))) (unat (of_nat dev :: u32)) (rq_nr_sectors (requests_tab s r))
    sec head cyl (if rq_cmd (requests_tab s r) = WRITE then WIN_WRITE else WIN_READ))"
proof -
  let ?q = "requests_tab s r" and ?d = "hd_minor r s"
  let ?p = "hd_parts s ?d" and ?di = "hd_info s (?d div 5)"
  have po: "partition_ok ?d s" using assms(1,2) by (simp add: hd_disks_ok_def)
  note b = guard_bound [OF po assms(3,4)]
  define lba where "lba = nat (start_sect ?p) + unat (rq_sector ?q)"
  have a: "dev = ?d div 5" "unat sec = lba mod nat (hdi_sect ?di) + 1" "unat head = lba div nat (hdi_sect ?di) mod nat (hdi_head ?di)"
    "unat cyl = lba div nat (hdi_sect ?di) div nat (hdi_head ?di)" "unat cyl < 65536" "head \<le> 15"
    using hd_address_at [OF po b] assms(5) unfolding lba_def by auto
  have g: "0 < hdi_sect ?di" "hdi_sect ?di \<le> 255" "0 < hdi_head ?di" "0 \<le> start_sect ?p"
    using po by (auto simp: partition_ok_def Let_def geometry_ok_def)
  define n k where "n = nat (hdi_sect ?di)" and "k = nat (hdi_head ?di)"
  have nk: "0 < n" "n \<le> 255" "0 < k" "hdi_sect ?di = int n" "hdi_head ?di = int k" using g by (auto simp: n_def k_def)
  note chs = chs_bytes [OF a(2-4) [folded n_def k_def] a(5,6) nk(1-3)]
  have "?d < 5 * 2" using assms(1,2) mult_le_mono2 [of "NR_HD s" 2 5] by (simp add: hd_disks_ok_def)
  then have "?d div 5 = 0 \<or> ?d div 5 = 1" by linarith
  note dh = drive_head_byte [OF this, of head]
  have dev: "unat (of_nat dev :: u32) = ?d div 5" using \<open>?d div 5 = 0 \<or> ?d div 5 = 1\<close> a(1) by auto
  have nr: "1 \<le> unat (rq_nr_sectors ?q)" "unat (rq_nr_sectors ?q) \<le> 2" using assms(3) by (simp_all add: sectors_left_def)
  then have un: "unat (ucast (rq_nr_sectors ?q) :: u8) = unat (rq_nr_sectors ?q)" by (simp add: unsigned_ucast_eq take_bit_eq_mod)
  have l: "int lba = start_sect ?p + int (unat (rq_sector ?q))" using g(4) by (simp add: lba_def)
  have "start_sect ?p \<le> int lba" "int lba + int (unat (rq_nr_sectors ?q)) \<le> start_sect ?p + nr_sects ?p"
    using l b nr(2) uint_nat [of "rq_sector ?q"] by linarith+
  then show ?thesis unfolding hd_command_ok_def hd_command_def Let_def dev nk(4,5) using chs l dh assms(2) nr(1) un
    by (intro exI [of _ 0] exI conjI) (assumption | simp)+
qed

section \<open>do_hd_request\<close>

lemma restore_safe: "no_transfer (hd_command di d n sec head cyl WIN_RESTORE)" "no_transfer (hd_command di d n sec head cyl WIN_SPECIFY)"
  by (simp_all add: no_transfer_def hd_command_def)

lemma no_transfer_resets: "no_transfer [(0x3f6, x), (0x3f6, y)]" "no_transfer [(0xA0, 0x20), (0x20, 0x20)]"
  by (simp_all add: no_transfer_def)

lemma quiet_trans: "hd_quiet s s1 \<Longrightarrow> hd_quiet s1 s2 \<Longrightarrow> hd_quiet s s2"
  by (simp add: hd_quiet_def)

lemma safe_quiet: "hd_quiet s s' \<Longrightarrow> ports s' = ports s @ w \<Longrightarrow> hd_writes_ok rs s w \<Longrightarrow> hd_queue s rs \<Longrightarrow> hd_safe s rs s'"
  using quiet_queue quiet_later unfolding hd_safe_def by blast

lemma reset_safe:
  assumes "reset_hd nr s = Some s'" "hd_queue s rs"
  shows "hd_safe s rs s'"
proof -
  define s1 where "s1 = reset_controller s"
  obtain k where k: "snd (drive_busy t) = t\<lparr>io_reads := k t\<rparr>" for t :: "'a hd_state_scheme" using busy_reads by metis
  have q: "hd_quiet s s1" and p: "ports s1 = ports s @ [(0x3f6, 4), (0x3f6, word_of_int (hdi_ctl (hd_info s 0)) AND 0x0f)]"
    using k unfolding s1_def reset_controller_def Let_def by (simp_all add: split_def io_inb_def outb_def hd_quiet_def)
  have o: "hd_out (of_nat nr) (word_of_int (hdi_sect (hd_info s1 nr))) (word_of_int (hdi_sect (hd_info s1 nr)))
      (word_of_int (hdi_head (hd_info s1 nr) - 1)) (word_of_int (hdi_cyl (hd_info s1 nr))) WIN_SPECIFY Recal_intr s1 = Some s'"
    using assms(1) by (simp add: reset_hd_def s1_def Let_def)
  note h = hd_out_shape [OF o]
  show ?thesis
    by (rule safe_quiet [OF quiet_trans [OF q h(2)] _ writes_append [OF writes_one writes_one] assms(2)])
      (simp_all only: h(1) p append_assoc, simp_all only: no_transfer_resets restore_safe simp_thms)
qed

text \<open>What the recursive call is known to do.\<close>

definition safe_calls :: "('a hd_state_scheme \<Rightarrow> 'a hd_state_scheme option) \<Rightarrow> bool" where
  "safe_calls f \<longleftrightarrow> (\<forall>s s' rs. f s = Some s' \<longrightarrow> hd_disks_ok s \<longrightarrow> hd_queue s rs \<longrightarrow> hd_safe s rs s')"

lemma refused_safe:
  assumes "safe_calls f" "f (end_request 3 False s) = Some s'" "hd_disks_ok s" "hd_queue s (r # rs)"
  shows "hd_safe s (r # rs) s'"
proof -
  note e = end_run [OF conjunct1 [OF queue_tail [OF assms(4)]] conjunct2 [OF queue_tail [OF assms(4)]], of False]
  have l: "hd_later s (r # rs) (end_request 3 False s) rs" using later_trans [OF later_tail e(2)] .
  have "hd_safe (end_request 3 False s) rs s'" using assms(1,2) e(1) later_disks [OF l] assms(3) unfolding safe_calls_def by blast
  then show ?thesis by (rule safe_from [OF _ l writes_nil]) simp
qed

lemma retry_safe:
  assumes "safe_calls f" "hd_quiet s t" "bad_rw_intr t = Some u" "f u = Some s'" "ports t = ports s @ w" "hd_writes_ok rs s w"
    "hd_disks_ok s" "hd_queue s rs"
  shows "hd_safe s rs s'"
proof -
  have "hd_queue t rs" using quiet_queue [OF assms(2)] assms(8) by simp
  from bad_rw_run [OF this assms(3)] obtain rs' where r: "hd_queue u rs'" "hd_later t rs u rs'" "ports u = ports t" by blast
  have l: "hd_later s rs u rs'" by (rule later_trans [OF quiet_later [OF assms(2)] r(2)])
  have "hd_safe u rs' s'" using assms(1,4) r(1) later_disks [OF l] assms(7) unfolding safe_calls_def by blast
  then show ?thesis by (rule safe_from [OF _ l assms(6)]) (simp add: r(3) assms(5))
qed

text \<open>A write: the controller may not ask for the data.\<close>

lemma write_safe:
  assumes "safe_calls f" "hd_out drive n sec head cyl WIN_WRITE Write_intr s = Some s1"
    "(case wait_drq 3000 s1 of (drq, s) \<Rightarrow> if \<not> drq then do { s \<leftarrow> bad_rw_intr s; f s } else Some (port_write r s)) = Some s'"
    "hd_writes_ok rs s (hd_command (hd_info s (unat drive)) (unat drive) n sec head cyl WIN_WRITE)" "hd_disks_ok s" "hd_queue s rs"
  shows "hd_safe s rs s'"
proof -
  note h = hd_out_shape [OF assms(2)]
  obtain drq s2 where w: "wait_drq 3000 s1 = (drq, s2)" by (cases "wait_drq 3000 s1")
  obtain k where "s2 = s1\<lparr>io_reads := k\<rparr>" using drq_reads [of 3000 s1] w by auto
  then have "hd_quiet s1 s2" "ports s2 = ports s1" by (simp_all add: hd_quiet_def)
  then have s2: "hd_quiet s s2" "ports s2 = ports s @ hd_command (hd_info s (unat drive)) (unat drive) n sec head cyl WIN_WRITE"
    using quiet_trans [OF h(2)] h(1) by simp_all
  show ?thesis
  proof (cases drq)
    case True
    then have "s' = port_write r s2" using assms(3) w by simp
    then have "hd_quiet s2 s'" "ports s' = ports s2" by (simp_all add: hd_quiet_def port_write_def Let_def)
    then show ?thesis using safe_quiet [OF quiet_trans [OF s2(1)] _ assms(4,6)] s2(2) by simp
  next
    case False
    then obtain s3 where "bad_rw_intr s2 = Some s3" "f s3 = Some s'" using assms(3) w by (auto simp: bind_eq_Some_conv)
    then show ?thesis by (rule retry_safe [OF assms(1) s2(1) _ _ s2(2) assms(4,5,6)])
  qed
qed

text \<open>A request that passes the test.\<close>

lemma accepted_safe:
  assumes "safe_calls f" "hd_disks_ok s" "hd_queue s rs" "r \<in> set rs"
    "(if hd_reset s then reset_hd dev (s\<lparr>hd_reset := False, hd_recalibrate := True\<rparr>)
      else if hd_recalibrate s then
        hd_out (of_nat dev) (word_of_int (hdi_sect (hd_info s dev))) 0 0 0 WIN_RESTORE Recal_intr (s\<lparr>hd_recalibrate := False\<rparr>)
      else if rq_cmd (requests_tab s r) = WRITE then do {
        s \<leftarrow> hd_out (of_nat dev) (rq_nr_sectors (requests_tab s r)) sec head cyl WIN_WRITE Write_intr s;
        case wait_drq 3000 s of
          (drq, s) \<Rightarrow> if \<not> drq then do { s \<leftarrow> bad_rw_intr s; f s } else Some (port_write r s) }
      else if rq_cmd (requests_tab s r) = READ then
        hd_out (of_nat dev) (rq_nr_sectors (requests_tab s r)) sec head cyl WIN_READ Read_intr s
      else None) = Some s'"
    and cmd: "hd_command_ok r s (hd_command (hd_info s (unat (of_nat dev :: u32))) (unat (of_nat dev :: u32)) (rq_nr_sectors (requests_tab s r))
      sec head cyl (if rq_cmd (requests_tab s r) = WRITE then WIN_WRITE else WIN_READ))"
  shows "hd_safe s rs s'"
proof -
  let ?q = "requests_tab s r"
  note b = assms(5)
  consider "hd_reset s" | "\<not> hd_reset s" "hd_recalibrate s" | "\<not> hd_reset s" "\<not> hd_recalibrate s" "rq_cmd ?q = WRITE"
    | "\<not> hd_reset s" "\<not> hd_recalibrate s" "rq_cmd ?q \<noteq> WRITE" by blast
  then show ?thesis
  proof cases
    case 1
    let ?s = "s\<lparr>hd_reset := False, hd_recalibrate := True\<rparr>"
    have qq: "hd_quiet s ?s" by (simp add: hd_quiet_def)
    have "hd_safe ?s rs s'" by (rule reset_safe [of dev]) (use b 1 quiet_queue [OF qq] assms(3) in simp_all)
    then show ?thesis by (rule safe_from [OF _ quiet_later [OF qq] writes_nil]) simp
  next
    case 2
    let ?s = "s\<lparr>hd_recalibrate := False\<rparr>"
    have "hd_out (of_nat dev) (word_of_int (hdi_sect (hd_info s dev))) 0 0 0 WIN_RESTORE Recal_intr ?s = Some s'" using b 2 by simp
    note h = hd_out_shape [OF this]
    have "hd_quiet s ?s" by (simp add: hd_quiet_def)
    from quiet_trans [OF this h(2)] show ?thesis
      by (rule safe_quiet [OF _ _ writes_one assms(3)]) (simp add: h(1), simp add: restore_safe)
  next
    case 3
    then obtain s1 where "hd_out (of_nat dev) (rq_nr_sectors ?q) sec head cyl WIN_WRITE Write_intr s = Some s1"
      "(case wait_drq 3000 s1 of (drq, s) \<Rightarrow> if \<not> drq then do { s \<leftarrow> bad_rw_intr s; f s } else Some (port_write r s)) = Some s'"
      using b by (auto simp: bind_eq_Some_conv)
    then show ?thesis by (rule write_safe [OF assms(1) _ _ _ assms(2,3)]) (use cmd 3(3) assms(4) in \<open>auto intro: writes_one\<close>)
  next
    case 4
    then have "rq_cmd ?q = READ" using b by (auto split: if_splits)
    then have "hd_out (of_nat dev) (rq_nr_sectors ?q) sec head cyl WIN_READ Read_intr s = Some s'" using b 4 by simp
    note h = hd_out_shape [OF this]
    show ?thesis by (rule safe_quiet [OF h(2,1) _ assms(3)]) (use cmd 4(3) assms(4) in \<open>auto intro: writes_one\<close>)
  qed
qed

lemma do_hd_request_safe: "safe_calls do_hd_request"
proof -
  have "\<forall>rs. hd_disks_ok s \<longrightarrow> hd_queue s rs \<longrightarrow> hd_safe s rs s'" if "do_hd_request s = Some s'" for s s' :: "'a hd_state_scheme"
  proof (rule do_hd_request.raw_induct [OF _ that], intro allI impI, goal_cases)
    case (1 f s s' rs)
    have f: "safe_calls f" using 1(1) unfolding safe_calls_def by blast
    show ?case
    proof (cases "current_request s 3")
      case None
      then have "s' = s" using 1(2) by simp
      then show ?thesis using 1(4) by (simp add: safe_writes [of _ _ "[]" _ rs])
    next
      case (Some r)
      obtain rs1 where rs: "rs = r # rs1" using queue_first [OF 1(4) Some] by blast
      let ?q = "requests_tab s r"
      note b = 1(2) [unfolded Some option.case hd_minor_def [symmetric]]
      have nb: "\<not> request_bad 3 r s" using b by auto
      show ?thesis
      proof (cases "hd_minor r s \<ge> 5 * NR_HD s \<or> rq_sector ?q + 2 > word_of_int (nr_sects (hd_parts s (hd_minor r s)))")
        case True
        then have "f (end_request 3 False s) = Some s'" using b nb by simp
        then show ?thesis using refused_safe [OF f _ 1(3)] 1(4) unfolding rs by blast
      next
        case False
        then obtain dev sec head cyl where a: "hd_address (hd_minor r s) (rq_sector ?q) s = Some (dev, sec, head, cyl)"
          using b nb by (cases "hd_address (hd_minor r s) (rq_sector ?q) s") auto
        have "hd_minor r s < 5 * NR_HD s" "sectors_left ?q" "\<not> (rq_sector ?q + 2 > word_of_int (nr_sects (hd_parts s (hd_minor r s))))"
          using False 1(4) by (auto simp: hd_queue_def rs)
        note cmd = transfer_command [OF 1(3) this a]
        show ?thesis
          by (rule accepted_safe [OF f 1(3,4) _ b [unfolded if_not_P [OF nb] if_not_P [OF False] a bind.simps prod.case] cmd]) (simp add: rs)
      qed
    qed
  qed
  then show ?thesis by (simp add: safe_calls_def)
qed

section \<open>Interrupts\<close>

text \<open>Only the first request has changed.\<close>

definition hd_step :: "nat \<Rightarrow> request \<Rightarrow> 'a hd_state_scheme \<Rightarrow> 'a hd_state_scheme \<Rightarrow> bool" where
  "hd_step r q s t \<longleftrightarrow> hd_parts t = hd_parts s \<and> hd_info t = hd_info s \<and> NR_HD t = NR_HD s \<and> current_request t = current_request s
     \<and> requests_tab t = (requests_tab s)(r := q) \<and> ports t = ports s
     \<and> rq_next q = rq_next (requests_tab s r) \<and> rq_dev q = rq_dev (requests_tab s r) \<and> rq_cmd q = rq_cmd (requests_tab s r)"

lemma step_chain: "hd_step r q s t \<Longrightarrow> hd_chain s rs \<Longrightarrow> hd_chain t rs"
  using queue_chain_cong [of rs "requests_tab t" "requests_tab s"] by (simp add: hd_step_def hd_chain_def)

lemma step_more:
  assumes "hd_step r q s t" "hd_queue s rs" "r \<in> set rs" "rq_sector q = rq_sector (requests_tab s r) + 1"
    "rq_nr_sectors q = rq_nr_sectors (requests_tab s r) - 1" "rq_nr_sectors q \<noteq> 0"
  shows "hd_queue t rs" "hd_later s rs t rs"
proof -
  let ?q = "requests_tab s r"
  have l: "1 \<le> unat (rq_nr_sectors ?q)" "unat (rq_nr_sectors ?q) \<le> 2" "unat (rq_sector ?q) + unat (rq_nr_sectors ?q) \<le> 0xfffffffe"
    using assms(2,3) by (auto simp: hd_queue_def sectors_left_def)
  have n: "unat (rq_nr_sectors q) + 1 = unat (rq_nr_sectors ?q)"
    unfolding assms(5) using l(1) by (simp add: unat_sub word_le_nat_alt)
  have "unat (x + 1) = (unat x + 1) mod 4294967296" for x :: u32 by (simp add: unat_word_ariths)
  then have s: "unat (rq_sector q) = unat (rq_sector ?q) + 1" unfolding assms(4) using l by simp
  have "1 \<le> unat (rq_nr_sectors q)" using assms(6) by (simp add: Suc_le_eq unat_gt_0)
  then have left: "sectors_left q" using n s l by (simp add: sectors_left_def)
  have "sectors_moved ?q q" using n s assms(1) by (auto simp: sectors_moved_def hd_step_def)
  then show "hd_later s rs t rs" using assms(1) by (simp add: hd_later_def hd_step_def)
  show "hd_queue t rs" using step_chain [OF assms(1)] assms(1,2) left by (simp add: hd_queue_def hd_step_def)
qed

lemma step_last:
  assumes "hd_step r q s t" "hd_queue s (r # rs)"
  shows "hd_queue (end_request 3 ok t) rs" "hd_later s (r # rs) (end_request 3 ok t) rs"
proof -
  have c: "hd_chain t (r # rs)" using step_chain [OF assms(1)] assms(2) by (simp add: hd_queue_def)
  have same: "requests_tab t q' = requests_tab s q'" if "q' \<in> set rs" for q'
    using that assms by (auto simp: hd_step_def hd_queue_def hd_chain_def)
  then have left: "\<forall>q'\<in>set rs. sectors_left (requests_tab t q')" using assms(2) by (simp add: hd_queue_def)
  show "hd_queue (end_request 3 ok t) rs" by (rule end_run(1) [OF c left])
  have "hd_later s (r # rs) t rs" using same assms(1) by (auto simp: hd_later_def hd_step_def)
  then show "hd_later s (r # rs) (end_request 3 ok t) rs" using later_trans end_run(2) [OF c left] by blast
qed

lemma last_safe:
  assumes "hd_step r q s t" "do_hd_request (end_request 3 True t) = Some s'" "hd_disks_ok s" "hd_queue s (r # rs)"
  shows "hd_safe s (r # rs) s'"
proof -
  note e = step_last [OF assms(1,4), of True]
  have "hd_safe (end_request 3 True t) rs s'" using do_hd_request_safe assms(2) e(1) later_disks [OF e(2)] assms(3) unfolding safe_calls_def by blast
  then show ?thesis by (rule safe_from [OF _ e(2) writes_nil]) (use assms(1) in \<open>simp add: hd_step_def\<close>)
qed

lemma result_quiet:
  obtains bad t where "win_result s = (bad, t)" "hd_quiet s t" "ports t = ports s"
proof -
  obtain bad t where w: "win_result s = (bad, t)" by (cases "win_result s")
  moreover obtain k where "t = s\<lparr>io_reads := k\<rparr>" using result_reads [of s] w by auto
  ultimately show thesis using that by (simp add: hd_quiet_def)
qed

lemma read_intr_safe:
  assumes "read_intr s = Some s'" "hd_disks_ok s" "hd_queue s rs"
  shows "hd_safe s rs s'"
proof -
  obtain bad t where w: "win_result s = (bad, t)" "hd_quiet s t" "ports t = ports s" by (rule result_quiet)
  note r = assms(1) [unfolded read_intr_def w(1) Let_def prod.case]
  show ?thesis
  proof (cases bad)
    case True
    then obtain u where "bad_rw_intr t = Some u" "do_hd_request u = Some s'" using r by (auto simp: bind_eq_Some_conv)
    then show ?thesis by (rule retry_safe [OF do_hd_request_safe w(2) _ _ _ writes_nil assms(2,3)]) (simp add: w(3))
  next
    case False
    then obtain c where c: "current_request t 3 = Some c" using r by (cases "current_request t 3") auto
    then have "current_request s 3 = Some c" using w(2) by (simp add: hd_quiet_def)
    then obtain rs1 where rs: "rs = c # rs1" using queue_first [OF assms(3)] by blast
    let ?q = "requests_tab s c"
    let ?t = "upd_request c (rq_nr_sectors_update (\<lambda>n. n - 1)) (next_sector c (upd_request c (rq_errors_update (\<lambda>_. 0)) (port_read c t)))"
    let ?q' = "rq_nr_sectors_update (\<lambda>n. n - 1) (?q\<lparr>rq_errors := 0, rq_offset := rq_offset ?q + 512, rq_sector := rq_sector ?q + 1\<rparr>)"
    have st: "hd_step c ?q' s ?t"
      using w(2,3) by (simp add: hd_step_def hd_quiet_def next_sector_def port_read_def upd_request_def upd_buffer_def Let_def)
    have n: "rq_nr_sectors (requests_tab ?t c) = rq_nr_sectors ?q'" using st by (simp add: hd_step_def)
    show ?thesis
    proof (cases "rq_nr_sectors ?q' = 0")
      case True
      then have "do_hd_request (end_request 3 True ?t) = Some s'" using r False c n by simp
      then show ?thesis unfolding rs by (rule last_safe [OF st _ assms(2) assms(3) [unfolded rs]])
    next
      case more: False
      then have s': "s' = ?t\<lparr>do_hd := Some Read_intr\<rparr>" using r False c n by simp
      have q: "hd_quiet ?t s'" "ports s' = ports s" using st by (simp_all add: s' hd_quiet_def hd_step_def)
      note m = step_more [OF st assms(3), OF _ _ _ more]
      then have "hd_queue ?t rs" "hd_later s rs ?t rs" by (simp_all add: rs)
      then show ?thesis using q quiet_queue [OF q(1)] later_trans [OF _ quiet_later [OF q(1)]]
        by (intro safe_writes [of _ _ "[]" _ rs]) simp_all
    qed
  qed
qed

lemma write_intr_safe:
  assumes "write_intr s = Some s'" "hd_disks_ok s" "hd_queue s rs"
  shows "hd_safe s rs s'"
proof -
  obtain bad t where w: "win_result s = (bad, t)" "hd_quiet s t" "ports t = ports s" by (rule result_quiet)
  note r = assms(1) [unfolded write_intr_def w(1) Let_def prod.case]
  show ?thesis
  proof (cases bad)
    case True
    then obtain u where "bad_rw_intr t = Some u" "do_hd_request u = Some s'" using r by (auto simp: bind_eq_Some_conv)
    then show ?thesis by (rule retry_safe [OF do_hd_request_safe w(2) _ _ _ writes_nil assms(2,3)]) (simp add: w(3))
  next
    case False
    then obtain c where c: "current_request t 3 = Some c" using r by (cases "current_request t 3") auto
    then have "current_request s 3 = Some c" using w(2) by (simp add: hd_quiet_def)
    then obtain rs1 where rs: "rs = c # rs1" using queue_first [OF assms(3)] by blast
    let ?q = "requests_tab s c" and ?t = "upd_request c (rq_nr_sectors_update (\<lambda>n. n - 1)) t"
    have n: "rq_nr_sectors (requests_tab ?t c) = rq_nr_sectors ?q - 1" using w(2) by (simp add: upd_request_def hd_quiet_def)
    show ?thesis
    proof (cases "rq_nr_sectors ?q - 1 = 0")
      case True
      have st: "hd_step c (rq_nr_sectors_update (\<lambda>n. n - 1) ?q) s ?t"
        using w(2,3) by (simp add: hd_step_def hd_quiet_def upd_request_def)
      have "do_hd_request (end_request 3 True ?t) = Some s'" using r False c n True by simp
      then show ?thesis unfolding rs by (rule last_safe [OF st _ assms(2) assms(3) [unfolded rs]])
    next
      case more: False
      let ?u = "next_sector c ?t" and ?q' = "(rq_nr_sectors_update (\<lambda>n. n - 1) ?q)\<lparr>rq_offset := rq_offset ?q + 512, rq_sector := rq_sector ?q + 1\<rparr>"
      have st: "hd_step c ?q' s ?u"
        using w(2,3) by (simp add: hd_step_def hd_quiet_def next_sector_def upd_request_def)
      have s': "s' = port_write c (?u\<lparr>do_hd := Some Write_intr\<rparr>)" using r False c n more by simp
      have q: "hd_quiet ?u s'" "ports s' = ports s" using st by (simp_all add: s' hd_quiet_def hd_step_def port_write_def Let_def)
      note m = step_more [OF st assms(3)]
      then have "hd_queue ?u rs" "hd_later s rs ?u rs" using more by (simp_all add: rs)
      then show ?thesis using q quiet_queue [OF q(1)] later_trans [OF _ quiet_later [OF q(1)]]
        by (intro safe_writes [of _ _ "[]" _ rs]) simp_all
    qed
  qed
qed

lemma recal_intr_safe:
  assumes "recal_intr s = Some s'" "hd_disks_ok s" "hd_queue s rs"
  shows "hd_safe s rs s'"
proof -
  obtain bad t where w: "win_result s = (bad, t)" "hd_quiet s t" "ports t = ports s" by (rule result_quiet)
  note r = assms(1) [unfolded recal_intr_def w(1) Let_def prod.case]
  show ?thesis
  proof (cases bad)
    case True
    then obtain u where "bad_rw_intr t = Some u" "do_hd_request u = Some s'" using r by (auto simp: bind_eq_Some_conv)
    then show ?thesis by (rule retry_safe [OF do_hd_request_safe w(2) _ _ _ writes_nil assms(2,3)]) (simp add: w(3))
  next
    case False
    have l: "hd_later s rs t rs" by (rule quiet_later [OF w(2)])
    have "hd_safe t rs s'"
      using do_hd_request_safe r False quiet_queue [OF w(2)] assms(3) later_disks [OF l] assms(2) by (auto simp: safe_calls_def)
    then show ?thesis by (rule safe_from [OF _ l writes_nil]) (simp add: w(3))
  qed
qed

lemma hd_interrupt_safe:
  assumes "hd_interrupt s = Some s'" "hd_disks_ok s" "hd_queue s rs"
  shows "hd_safe s rs s'"
proof -
  let ?s = "(outb 0x20 0x20 (outb 0x20 0xA0 s))\<lparr>do_hd := None\<rparr>"
  have q: "hd_quiet s ?s" and p: "ports ?s = ports s @ [(0xA0, 0x20), (0x20, 0x20)]" by (simp_all add: hd_quiet_def outb_def)
  have l: "hd_later s rs ?s rs" by (rule quiet_later [OF q])
  have i: "hd_disks_ok ?s" "hd_queue ?s rs" using later_disks [OF l] quiet_queue [OF q] assms(2,3) by simp_all
  note r = assms(1) [unfolded hd_interrupt_def Let_def]
  have "hd_safe ?s rs s'"
  proof (cases "do_hd s")
    case None
    then have "s' = ?s" using r by simp
    then show ?thesis using i(2) by (simp add: safe_writes [of _ _ "[]" _ rs])
  next
    case (Some h)
    then show ?thesis using r read_intr_safe [OF _ i] write_intr_safe [OF _ i] recal_intr_safe [OF _ i] by (cases h) simp_all
  qed
  then show ?thesis by (rule safe_from [OF _ l writes_one p]) (simp add: no_transfer_resets)
qed

section \<open>The property\<close>

text \<open>C30: The driver never reads or writes a sector outside the partition of a request. Whatever the controller answers,
  wherever the sectors of the waiting requests lie, and over all the requests and retries that a call of \<open>do_hd_request\<close> or an
  interrupt goes through, what is written to the ports is a sequence of pieces each of which starts no transfer or is the command
  for the sectors of a waiting request that are still to be moved: cylinder, head and sector are valid for the disk and name these
  sectors, and all of them lie in the partition, so a request that lies elsewhere gets no command. The queue stays as the
  driver relies on, so that this holds for any sequence of calls and interrupts.\<close>

theorem hd_stays_in_partition:
  assumes "hd_disks_ok s" "hd_queue s rs" "do_hd_request s = Some s' \<or> hd_interrupt s = Some s'"
  shows "\<exists>bs rs'. ports s' = ports s @ concat bs \<and> (\<forall>b\<in>set bs. no_transfer b \<or> (\<exists>r\<in>set rs. hd_command_ok r s b))
    \<and> hd_disks_ok s' \<and> hd_queue s' rs' \<and> set rs' \<subseteq> set rs"
proof -
  have "hd_safe s rs s'" using assms do_hd_request_safe hd_interrupt_safe unfolding safe_calls_def by blast
  then obtain w rs' where "ports s' = ports s @ w" "hd_writes_ok rs s w" "hd_queue s' rs'" "hd_later s rs s' rs'"
    by (auto simp: hd_safe_def)
  moreover then have "hd_disks_ok s'" "set rs' \<subseteq> set rs" using later_disks assms(1) by (auto simp: hd_later_def)
  ultimately show ?thesis unfolding hd_writes_ok_def by blast
qed

text \<open>The request of \<open>demo_hd\<close>: a piece of what is written is its command, as it writes the code for a read.\<close>

theorem hd_stays_in_partition_witness:
  "\<exists>s' bs b. do_hd_request (demo_hd READ) = Some s' \<and> ports s' = ports (demo_hd READ) @ concat bs \<and> b \<in> set bs
    \<and> hd_command_ok 0 (demo_hd READ) b"
proof -
  have d: "hd_disks_ok (demo_hd READ)"
    using demo_hd_ok(1) [of READ] by (simp add: hd_disks_ok_def partition_ok_def geometry_ok_def demo_hd_def)
  have q: "hd_queue (demo_hd READ) [0]"
    by (simp add: hd_queue_def hd_chain_def sectors_left_def demo_hd_def zero_request_def)
  let ?d = "demo_hd READ"
  obtain sec head cyl where a: "hd_address (hd_minor 0 ?d) (rq_sector (requests_tab ?d 0)) ?d = Some (hd_minor 0 ?d div 5, sec, head, cyl)" "head \<le> 15"
    using hd_address_run [OF demo_hd_ok(1) [of READ]] by blast
  obtain s' where s': "do_hd_request ?d = Some s'" "(0x1f7, WIN_READ) \<in> set (ports s')"
    using hd_out_run [OF demo_hd_ok(2) startable_drive(1) [OF demo_hd_ok(1)] a(2)]
    by (simp add: do_hd_request_start [OF demo_hd_ok(1) a(1)] demo_hd_ok(3) hd_command_def)
  obtain bs where bs: "ports s' = ports (demo_hd READ) @ concat bs" "\<forall>b\<in>set bs. no_transfer b \<or> hd_command_ok 0 (demo_hd READ) b"
    using hd_stays_in_partition [OF d q, of s'] s'(1) by auto
  have "ports (demo_hd READ) = []" by (simp add: demo_hd_def init_hd_simps init_tty_state_def init_fs_def)
  then obtain b where "b \<in> set bs" "(0x1f7, WIN_READ) \<in> set b" using s'(2) bs(1) by auto
  then show ?thesis using s'(1) bs by (auto simp: no_transfer_def)
qed

end
