(* ===== verification/Floppy_Driver.thy ===== *)
theory Floppy_Driver
  imports Floppy Scheduling Elevator
begin

text \<open>
  What holds of the floppy driver: the position of a block on a diskette, and that no answer of the controller
  stops the driver. \<open>fd_ok\<close> describes the queue and the timers on which the driver relies, \<open>fd_io\<close> what an exchange
  with the controller leaves alone; \<open>commanded\<close> says that a command has reached the controller with its handler set, and
  \<open>timer_set\<close> that a timer will call the driver again.
\<close>

section \<open>Where a block lies\<close>

lemma floppy_types:
  assumes "n < length floppy_type" "unat (fl_size (floppy_type ! n)) \<noteq> 0"
  shows "let t = floppy_type ! n; sect = unat (fl_sect t); head = unat (fl_head t); track = unat (fl_track t) in
    0 < sect \<and> sect \<le> 18 \<and> head = 2 \<and> track \<le> 80 \<and> sect * head * track = unat (fl_size t)
    \<and> (unat (fl_stretch t) = 0 \<or> unat (fl_stretch t) = 1 \<and> track = 40)"
proof -
  have "list_all (\<lambda>t. (unat (fl_size t), unat (fl_sect t), unat (fl_head t), unat (fl_track t), unat (fl_stretch t))
      \<in> {(0,0,0,0,0), (720,9,2,40,0), (2400,15,2,80,0), (720,9,2,40,1), (1440,9,2,80,0), (2880,18,2,80,0)}) floppy_type"
    by (simp add: floppy_type_def)
  then show ?thesis using assms by (auto simp: list_all_length Let_def)
qed

lemma set_position_run:
  assumes "fl_sect (fd_type s) \<noteq> 0" "fl_head (fd_type s) \<noteq> 0" "rq_cmd (requests_tab s r) = READ \<or> rq_cmd (requests_tab s r) = WRITE"
  obtains s' where "set_position r s = Some s'"
    "fd_sector s' = ucast (rq_sector (requests_tab s r) mod fl_sect (fd_type s)) + 1"
    "fd_head s' = ucast (rq_sector (requests_tab s r) div fl_sect (fd_type s) mod fl_head (fd_type s))"
    "fd_track s' = ucast (rq_sector (requests_tab s r) div fl_sect (fd_type s) div fl_head (fd_type s))"
    "seek_track s' = push_bit (unat (fl_stretch (fd_type s))) (fd_track s')"
    "fd_seek s' \<longleftrightarrow> fd_seek s \<or> seek_track s' \<noteq> current_track s"
    "fd_command s' = (if rq_cmd (requests_tab s r) = READ then FD_READ else FD_WRITE)"
proof -
  obtain s' where s': "set_position r s = Some s'"
    using assms by (fastforce simp add: set_position_def Let_def)
  show thesis
    by (rule that [OF s']) (use s' assms in \<open>auto simp: set_position_def Let_def split: if_splits\<close>)
qed

text \<open>C31: For every diskette type and every block of two sectors on it, the sector, head and track that are sent to the
  controller are those of the diskette, and give the block number back. The arm is sent to the doubled track on
  drives with twice as many tracks.\<close>

theorem floppy_position:
  assumes "k < length floppy_type" "fd_type s = floppy_type ! k" "rq_sector (requests_tab s r) + 2 \<le> fl_size (fd_type s)"
    "rq_sector (requests_tab s r) \<le> 0xfffffffd" "rq_cmd (requests_tab s r) = READ \<or> rq_cmd (requests_tab s r) = WRITE"
  shows "\<exists>s'. set_position r s = Some s'
    \<and> 1 \<le> unat (fd_sector s') \<and> unat (fd_sector s') \<le> unat (fl_sect (fd_type s))
    \<and> unat (fd_head s') < unat (fl_head (fd_type s)) \<and> unat (fd_track s') < unat (fl_track (fd_type s))
    \<and> (unat (fd_track s') * unat (fl_head (fd_type s)) + unat (fd_head s')) * unat (fl_sect (fd_type s)) + unat (fd_sector s') - 1
       = unat (rq_sector (requests_tab s r))
    \<and> unat (seek_track s') = unat (fd_track s') * 2 ^ unat (fl_stretch (fd_type s))
    \<and> (fd_seek s' \<longleftrightarrow> fd_seek s \<or> seek_track s' \<noteq> current_track s)
    \<and> fd_command s' = (if rq_cmd (requests_tab s r) = READ then FD_READ else FD_WRITE)"
proof -
  let ?b = "unat (rq_sector (requests_tab s r))" and ?t = "fd_type s"
  have b: "?b + 2 \<le> unat (fl_size ?t)"
    using assms(3,4) by (simp add: word_le_nat_alt unat_word_ariths)
  define n h l where "n = unat (fl_sect ?t)" and "h = unat (fl_head ?t)" and "l = unat (fl_track ?t)"
  have g: "0 < n" "n \<le> 18" "h = 2" "l \<le> 80" "n * h * l = unat (fl_size ?t)" "unat (fl_stretch ?t) = 0 \<or> unat (fl_stretch ?t) = 1 \<and> l = 40"
    using floppy_types [OF assms(1)] b by (auto simp: assms(2) Let_def n_def h_def l_def)
  have tr: "?b div n div h < l"
  proof -
    have "?b < n * h * l" using b g(5) by simp
    then show ?thesis by (simp add: less_mult_imp_div_less div_mult2_eq [symmetric] mult.commute)
  qed
  have nz: "fl_sect ?t \<noteq> 0" "fl_head ?t \<noteq> 0" using g(1,3) by (auto simp: n_def h_def)
  obtain s' where s': "set_position r s = Some s'" and e:
    "fd_sector s' = ucast (rq_sector (requests_tab s r) mod fl_sect ?t) + 1"
    "fd_head s' = ucast (rq_sector (requests_tab s r) div fl_sect ?t mod fl_head ?t)"
    "fd_track s' = ucast (rq_sector (requests_tab s r) div fl_sect ?t div fl_head ?t)"
    "seek_track s' = push_bit (unat (fl_stretch ?t)) (fd_track s')"
    "fd_seek s' \<longleftrightarrow> fd_seek s \<or> seek_track s' \<noteq> current_track s"
    "fd_command s' = (if rq_cmd (requests_tab s r) = READ then FD_READ else FD_WRITE)"
    by (rule set_position_run [OF nz assms(5)])
  have m: "?b mod n < n" "?b div n mod h < 2" using g by simp_all
  have 1: "unat (fd_sector s') = ?b mod n + 1"
    using m(1) g(2) unfolding e n_def by (simp add: unat_word_ariths unsigned_ucast_eq take_bit_eq_mod unat_mod)
  have 2: "unat (fd_head s') = ?b div n mod h"
    using m(2) unfolding e n_def h_def by (simp add: unsigned_ucast_eq take_bit_eq_mod unat_mod unat_div)
  have 3: "unat (fd_track s') = ?b div n div h"
    using tr g(4) unfolding e n_def h_def by (simp add: unsigned_ucast_eq take_bit_eq_mod unat_div)
  have 4: "unat (seek_track s') = unat (fd_track s') * 2 ^ unat (fl_stretch ?t)"
    using g(6) tr g(4) 3 unfolding e(4) by (auto simp: unat_word_ariths)
  have "(?b div n div h * h + ?b div n mod h) * n + (?b mod n + 1) - 1 = ?b" by simp
  then show ?thesis using s' 1 2 3 4 e(5,6) m g tr unfolding n_def [symmetric] h_def [symmetric] l_def [symmetric]
    by (intro exI [of _ s']) (simp only: simp_thms, simp add: Suc_le_eq)
qed

definition demo_fd :: fd_state where
  "demo_fd = (init_fd (init_hd (init_tty_state 0x1000 0) (\<lambda>_ _. 0) (\<lambda>_ _. 0)))\<lparr>fd_type := floppy_type ! 7,
     requests_tab := (\<lambda>_. zero_request\<lparr>rq_sector := 100\<rparr>)\<rparr>"

theorem floppy_position_witness:
  "\<exists>s'. set_position 0 demo_fd = Some s' \<and> (unat (fd_track s') * 2 + unat (fd_head s')) * 18 + unat (fd_sector s') - 1 = 100"
proof -
  have t: "fl_size (floppy_type ! 7) = 2880" "fl_sect (floppy_type ! 7) = 18" "fl_head (floppy_type ! 7) = 2"
    by (simp_all add: floppy_type_def)
  have d: "7 < length floppy_type" "fd_type demo_fd = floppy_type ! 7" "rq_sector (requests_tab demo_fd 0) = 100"
    "rq_cmd (requests_tab demo_fd 0) = READ"
    by (simp_all add: floppy_type_def demo_fd_def zero_request_def)
  have "rq_sector (requests_tab demo_fd 0) + 2 \<le> fl_size (fd_type demo_fd)" "rq_sector (requests_tab demo_fd 0) \<le> 0xfffffffd"
    unfolding d t by simp_all
  from floppy_position [OF d(1,2) this disjI1 [OF d(4)]] obtain s' where "set_position 0 demo_fd = Some s'"
    "(unat (fd_track s') * unat (2 :: u32) + unat (fd_head s')) * unat (18 :: u32) + unat (fd_sector s') - 1 = unat (100 :: u32)"
    unfolding d t by blast
  then show ?thesis by (intro exI [of _ s']) simp
qed

section \<open>What talking to the controller leaves alone\<close>

definition fd_kept :: "'a fd_state_scheme \<Rightarrow> 'a fd_state_scheme \<Rightarrow> bool" where
  "fd_kept s s' \<longleftrightarrow> current_request s' = current_request s \<and> requests_tab s' = requests_tab s \<and> buffers s' = buffers s
     \<and> timer_list s' = timer_list s \<and> next_timer s' = next_timer s \<and> mon_timer s' = mon_timer s
     \<and> tasks s' = tasks s \<and> task s' = task s \<and> current s' = current s \<and> jiffies s' = jiffies s
     \<and> (\<exists>w. ports s' = ports s @ w)"

text \<open>An exchange of bytes leaves the handler and what describes the command alone, too.\<close>

definition fd_io :: "'a fd_state_scheme \<Rightarrow> 'a fd_state_scheme \<Rightarrow> bool" where
  "fd_io s s' \<longleftrightarrow> fd_kept s s' \<and> do_floppy s' = do_floppy s \<and> fd_command s' = fd_command s \<and> current_drive s' = current_drive s
     \<and> fd_track s' = fd_track s \<and> fd_head s' = fd_head s \<and> fd_sector s' = fd_sector s \<and> fd_type s' = fd_type s
     \<and> seek_track s' = seek_track s \<and> current_DOR s' = current_DOR s"

text \<open>With the tasks that are woken.\<close>

definition fd_same :: "'a fd_state_scheme \<Rightarrow> 'a fd_state_scheme \<Rightarrow> bool" where
  "fd_same s s' \<longleftrightarrow> current_request s' = current_request s \<and> requests_tab s' = requests_tab s \<and> buffers s' = buffers s
     \<and> timer_list s' = timer_list s \<and> next_timer s' = next_timer s \<and> mon_timer s' = mon_timer s \<and> (\<exists>w. ports s' = ports s @ w)"

lemma fd_kept_same: "fd_kept s s' \<Longrightarrow> fd_same s s'"
  by (simp add: fd_kept_def fd_same_def)

lemma fd_io_kept: "fd_io s s' \<Longrightarrow> fd_kept s s'"
  by (simp add: fd_io_def)

lemma fd_io_same: "fd_io s s' \<Longrightarrow> fd_same s s'"
  by (simp add: fd_io_kept fd_kept_same)

lemma fd_io_refl [simp]: "fd_io s s"
  by (simp add: fd_io_def fd_kept_def)

lemma fd_kept_trans: "fd_kept s s' \<Longrightarrow> fd_kept s' s'' \<Longrightarrow> fd_kept s s''"
  by (auto simp: fd_kept_def)

lemma fd_io_trans: "fd_io s s' \<Longrightarrow> fd_io s' s'' \<Longrightarrow> fd_io s s''"
  using fd_kept_trans by (auto simp: fd_io_def)

lemma fd_same_trans: "fd_same s s' \<Longrightarrow> fd_same s' s'' \<Longrightarrow> fd_same s s''"
  by (auto simp: fd_same_def)

lemma fd_io_inb [simp]: "fd_io s (snd (io_inb p s))"
  by (simp add: fd_io_def fd_kept_def io_inb_def)

lemma fd_io_outb [simp]: "fd_io s (outb v p s)"
  by (simp add: fd_io_def fd_kept_def outb_def)

lemma fd_io_send: "fd_io s (send_loop n b s)"
proof (induction n arbitrary: s)
  case (Suc n)
  have 1: "fd_io s (snd (send_byte b s))"
    by (simp add: send_byte_def io_inb_def outb_def fd_io_def fd_kept_def Let_def)
  show ?case using 1 fd_io_trans [OF 1 Suc] by (simp add: split_def Let_def)
qed (simp add: fd_io_def fd_kept_def)

lemma fd_io_output1 [simp]: "fd_io s (output_byte b s)"
  by (simp add: output_byte_def fd_io_send)

lemma fd_io_output [simp]: "fd_io s (output_bytes bs s)"
proof -
  have "fd_io s (fold output_byte bs s)"
    by (induction bs arbitrary: s) (simp, metis fd_io_output1 fd_io_trans fold_simps(2))
  then show ?thesis by (simp add: output_bytes_def)
qed

lemma fd_io_result_loop: "fd_io s (snd (result_loop n i s))"
proof (induction n arbitrary: i s)
  case 0
  then show ?case by (simp add: fd_io_def fd_kept_def)
next
  case (Suc n)
  have 1: "fd_io s (snd (io_inb FD_STATUS s))" by simp
  have 2: "fd_io (snd (io_inb FD_STATUS s)) ((snd (io_inb FD_DATA (snd (io_inb FD_STATUS s))))\<lparr>reply_buffer := rb\<rparr>)" for rb
    by (simp add: fd_io_def fd_kept_def io_inb_def)
  have 3: "fd_io s (snd (io_inb FD_STATUS s)\<lparr>fd_reset := True\<rparr>)" by (simp add: fd_io_def fd_kept_def io_inb_def)
  show ?case
    using fd_io_trans [OF 1 Suc] fd_io_trans [OF 1 fd_io_trans [OF 2 Suc]] 1 3
    by (simp add: split_def Let_def)
qed

lemma fd_io_result [simp]: "fd_io s (snd (fd_result s))"
  by (simp add: fd_result_def fd_io_result_loop)

lemma fd_io_DMA [simp]: "fd_io s (setup_DMA r s)"
  by (simp add: fd_io_def fd_kept_def setup_DMA_def Let_def outb_def copy_to_area_def)

lemmas fd_same_output = fd_io_output [THEN fd_io_same]
lemmas fd_same_result = fd_io_result [THEN fd_io_same]

lemma fd_same_sensei: "fd_result (output_byte FD_SENSEI s) = (n, s') \<Longrightarrow> fd_same s s'"
  using fd_io_trans [OF fd_io_output1 [of s FD_SENSEI] fd_io_result] fd_io_same by (metis snd_conv)

section \<open>Commands that reach the controller\<close>

text \<open>What is written to the ports for the command that \<open>h\<close> is the handler of.\<close>

definition command_of :: "fd_handler \<Rightarrow> 'a fd_state_scheme \<Rightarrow> (u16 \<times> u8) list" where
  "command_of h s = (case h of
     Rw_interrupt \<Rightarrow> map (Pair FD_DATA) [fd_command s, head_drive s, fd_track s, fd_head s, fd_sector s, 2,
       ucast (fl_sect (fd_type s)), fl_gap (fd_type s), 0xFF]
   | Seek_interrupt \<Rightarrow> map (Pair FD_DATA)
       (if seek_track s \<noteq> 0 then [FD_SEEK, head_drive s, seek_track s] else [FD_RECALIBRATE, head_drive s])
   | Recal_interrupt \<Rightarrow> map (Pair FD_DATA) [FD_RECALIBRATE, head_drive s]
   | Reset_interrupt \<Rightarrow> [(FD_DOR, current_DOR s AND NOT 0x04), (FD_DOR, current_DOR s)])"

text \<open>Between \<open>s\<close> and \<open>s'\<close> the driver has given a command, the last of what it wrote; the controller has taken every byte
  of it, and the handler of this command is set.\<close>

definition commanded :: "'a fd_state_scheme \<Rightarrow> 'a fd_state_scheme \<Rightarrow> bool" where
  "commanded s s' \<longleftrightarrow> (\<exists>h w. do_floppy s' = Some h \<and> ports s' = ports s @ w @ command_of h s')"

text \<open>A timer of the driver is in the list of the timers.\<close>

definition timer_set :: "'a sched_state_scheme \<Rightarrow> bool" where
  "timer_set s \<longleftrightarrow> (\<exists>ps. timers_ok s ps \<and> (\<exists>p\<in>set ps. tl_fn (timer_list s p) \<in> {transfer_fn, floppy_on_fn}))"

definition fd_waiting :: "'a fd_state_scheme \<Rightarrow> 'a fd_state_scheme \<Rightarrow> bool" where
  "fd_waiting s s' \<longleftrightarrow> commanded s s' \<or> timer_set s'"

lemma command_of_io: "fd_io s s' \<Longrightarrow> command_of h s' = command_of h s"
  by (simp add: fd_io_def command_of_def head_drive_def cong: fd_handler.case_cong)

lemma commanded_from: "commanded s1 s' \<Longrightarrow> ports s1 = ports s @ w \<Longrightarrow> commanded s s'"
  by (auto simp: commanded_def)

lemma commanded_kept: "fd_kept s s1 \<Longrightarrow> commanded s1 s' \<Longrightarrow> commanded s s'"
  using commanded_from by (auto simp: fd_kept_def)

lemma waiting_from: "fd_waiting s1 s' \<Longrightarrow> ports s1 = ports s @ w \<Longrightarrow> fd_waiting s s'"
  using commanded_from by (auto simp: fd_waiting_def)

text \<open>Unless \<open>reset\<close> is set, every byte has been taken.\<close>

lemma send_loop_sent: "\<not> fd_reset (send_loop n b s) \<Longrightarrow> ports (send_loop n b s) = ports s @ [(FD_DATA, b)]"
  by (induction n arbitrary: s) (auto simp: send_byte_def io_inb_def outb_def Let_def split: if_splits)

lemma output_byte_sent: "\<not> fd_reset (output_byte b s) \<Longrightarrow> ports (output_byte b s) = ports s @ [(FD_DATA, b)] \<and> \<not> fd_reset s"
  using send_loop_sent by (auto simp: output_byte_def split: if_splits)

lemma output_bytes_sent:
  "\<not> fd_reset (output_bytes bs s) \<Longrightarrow> ports (output_bytes bs s) = ports s @ map (Pair FD_DATA) bs"
proof -
  have r: "fd_reset s \<Longrightarrow> fd_reset (fold output_byte bs s)" for bs and s :: "'a fd_state_scheme"
    by (induction bs arbitrary: s) (simp_all add: output_byte_def)
  have "\<not> fd_reset (fold output_byte bs s) \<Longrightarrow> ports (fold output_byte bs s) = ports s @ map (Pair FD_DATA) bs"
  proof (induction bs arbitrary: s)
    case (Cons b bs)
    then have "\<not> fd_reset (output_byte b s)" using r by auto
    then show ?case using Cons output_byte_sent by fastforce
  qed simp
  then show "\<not> fd_reset (output_bytes bs s) \<Longrightarrow> ports (output_bytes bs s) = ports s @ map (Pair FD_DATA) bs"
    by (simp add: output_bytes_def)
qed

section \<open>The driver does not stall\<close>

lemma do_fd_reset: "fd_reset s \<Longrightarrow> do_fd_request s = Some (reset_floppy (s\<lparr>fd_seek := False\<rparr>))"
  by (subst do_fd_request.simps) simp

lemma reset_run:
  assumes "fd_reset s"
  shows "\<exists>s'. do_fd_request s = Some s' \<and> commanded s s' \<and> fd_kept s s'"
  by (simp add: do_fd_reset [OF assms] reset_floppy_def outb_def commanded_def command_of_def fd_kept_def)

lemma command_run:
  assumes "do_floppy s = Some h" "command_of h s = map (Pair FD_DATA) bs"
  shows "\<exists>s'. (if fd_reset (output_bytes bs s) then do_fd_request (output_bytes bs s) else Some (output_bytes bs s)) = Some s'
    \<and> commanded s s' \<and> fd_kept s s'"
proof -
  let ?s = "output_bytes bs s"
  have io: "fd_io s ?s" by simp
  show ?thesis
  proof (cases "fd_reset ?s")
    case True
    then show ?thesis
      using reset_run [OF True] commanded_kept fd_io_kept [OF io] fd_kept_trans by auto blast
  next
    case False
    have "do_floppy ?s = Some h" using io assms(1) by (simp add: fd_io_def)
    moreover have "ports ?s = ports s @ [] @ command_of h ?s"
      using output_bytes_sent [OF False] assms(2) command_of_io [OF io] by simp
    ultimately show ?thesis using False fd_io_kept [OF io] by (auto simp: commanded_def)
  qed
qed

lemma kept_fields [simp]:
  "fd_kept (s\<lparr>do_floppy := h\<rparr>) s' = fd_kept s s'" "fd_kept (s\<lparr>cur_spec1 := i\<rparr>) s' = fd_kept s s'"
  "fd_kept (s\<lparr>cur_rate := i\<rparr>) s' = fd_kept s s'" "fd_kept (s\<lparr>fd_recalibrate := b\<rparr>) s' = fd_kept s s'"
  "fd_kept (s\<lparr>current_track := v\<rparr>) s' = fd_kept s s'" "fd_kept (s\<lparr>selected := v\<rparr>) s' = fd_kept s s'"
  "fd_kept (s\<lparr>current_DOR := v\<rparr>) s' = fd_kept s s'" "fd_kept (s\<lparr>fd_seek := b\<rparr>) s' = fd_kept s s'"
  "commanded (s\<lparr>do_floppy := h\<rparr>) s' = commanded s s'" "commanded (s\<lparr>fd_recalibrate := b\<rparr>) s' = commanded s s'"
  "commanded (s\<lparr>current_track := v\<rparr>) s' = commanded s s'" "commanded (s\<lparr>selected := v\<rparr>) s' = commanded s s'"
  "commanded (s\<lparr>fd_seek := b\<rparr>) s' = commanded s s'"
  by (simp_all add: fd_kept_def commanded_def)

lemma setup_rw_run:
  assumes "current_request s 2 \<noteq> None"
  shows "\<exists>s'. setup_rw_floppy_with do_fd_request s = Some s' \<and> commanded s s' \<and> fd_kept s s'"
proof -
  obtain r where r: "current_request s 2 = Some r" using assms by auto
  let ?s = "(setup_DMA r s)\<lparr>do_floppy := Some Rw_interrupt\<rparr>"
  have k: "fd_kept s (setup_DMA r s)" by (simp add: fd_io_kept)
  let ?bs = "[fd_command ?s, head_drive ?s, fd_track ?s, fd_head ?s, fd_sector ?s, 2, ucast (fl_sect (fd_type ?s)), fl_gap (fd_type ?s), 0xFF]"
  have e: "setup_rw_floppy_with do_fd_request s
      = (if fd_reset (output_bytes ?bs ?s) then do_fd_request (output_bytes ?bs ?s) else Some (output_bytes ?bs ?s))"
    unfolding setup_rw_floppy_with_def r option.case Let_def by (rule refl)
  have "command_of Rw_interrupt ?s = map (Pair FD_DATA) ?bs" by (simp add: command_of_def)
  from command_run [OF _ this] obtain s' where "setup_rw_floppy_with do_fd_request s = Some s'" "commanded ?s s'" "fd_kept ?s s'"
    unfolding e by auto
  then show ?thesis using commanded_kept [OF k] fd_kept_trans [OF k] unfolding kept_fields by blast
qed

lemma transfer_run:
  assumes "current_request s 2 \<noteq> None"
  shows "\<exists>s'. transfer_with do_fd_request s = Some s' \<and> commanded s s' \<and> fd_kept s s'"
proof -
  define s1 where "s1 = (if cur_spec1 s \<noteq> uint (fl_spec1 (fd_type s)) then
      output_bytes [FD_SPECIFY, word_of_int (cur_spec1 (s\<lparr>cur_spec1 := uint (fl_spec1 (fd_type s))\<rparr>)), 6]
        (s\<lparr>cur_spec1 := uint (fl_spec1 (fd_type s))\<rparr>) else s)"
  define s2 where "s2 = (if cur_rate s1 \<noteq> uint (fl_rate (fd_type s1)) then
      outb (word_of_int (cur_rate (s1\<lparr>cur_rate := uint (fl_rate (fd_type s1))\<rparr>))) FD_DCR (s1\<lparr>cur_rate := uint (fl_rate (fd_type s1))\<rparr>) else s1)"
  let ?seek = "s2\<lparr>do_floppy := Some Seek_interrupt\<rparr>"
  let ?bs = "if seek_track ?seek \<noteq> 0 then [FD_SEEK, head_drive ?seek, seek_track ?seek] else [FD_RECALIBRATE, head_drive ?seek]"
  have e: "transfer_with do_fd_request s = (if fd_reset s2 then do_fd_request s2
      else if \<not> fd_seek s2 then setup_rw_floppy_with do_fd_request s2
      else if fd_reset (output_bytes ?bs ?seek) then do_fd_request (output_bytes ?bs ?seek) else Some (output_bytes ?bs ?seek))"
    unfolding transfer_with_def Let_def s2_def s1_def by (rule refl)
  have "fd_kept (s\<lparr>cur_spec1 := i\<rparr>) (output_bytes bs (s\<lparr>cur_spec1 := i\<rparr>))" for i bs by (rule fd_io_kept) simp
  then have "fd_kept s s1" by (simp add: s1_def fd_io_kept)
  moreover have "fd_kept (s1\<lparr>cur_rate := i\<rparr>) (outb v p (s1\<lparr>cur_rate := i\<rparr>))" for i v p by (rule fd_io_kept) simp
  then have "fd_kept s1 s2" by (simp add: s2_def fd_io_kept)
  ultimately have k: "fd_kept s s2" by (rule fd_kept_trans)
  then have c: "current_request s2 2 \<noteq> None" using assms by (simp add: fd_kept_def)
  have "command_of Seek_interrupt ?seek = map (Pair FD_DATA) ?bs" by (simp add: command_of_def)
  from command_run [OF _ this] have "\<exists>s'. (if fd_reset (output_bytes ?bs ?seek) then do_fd_request (output_bytes ?bs ?seek)
      else Some (output_bytes ?bs ?seek)) = Some s' \<and> commanded s2 s' \<and> fd_kept s2 s'" by simp
  then have "\<exists>s'. transfer_with do_fd_request s = Some s' \<and> commanded s2 s' \<and> fd_kept s2 s'"
    unfolding e using setup_rw_run [OF c] reset_run [of s2] by (cases "fd_reset s2"; cases "fd_seek s2") simp_all
  then show ?thesis using commanded_kept [OF k] fd_kept_trans [OF k] by blast
qed

lemma recalibrate_run:
  "\<exists>s'. recalibrate_floppy_with do_fd_request s = Some s' \<and> commanded s s'"
proof -
  let ?s = "s\<lparr>fd_recalibrate := False, current_track := 0, do_floppy := Some Recal_interrupt\<rparr>"
  have "command_of Recal_interrupt ?s = map (Pair FD_DATA) [FD_RECALIBRATE, head_drive ?s]" by (simp add: command_of_def)
  moreover have "do_floppy ?s = Some Recal_interrupt" by simp
  ultimately show ?thesis using command_run unfolding recalibrate_floppy_with_def Let_def by (metis kept_fields(9-11))
qed

text \<open>The timers of the kernel, with a free one.\<close>

definition timer_free :: "'a sched_state_scheme \<Rightarrow> bool" where
  "timer_free s \<longleftrightarrow> (\<exists>ps. timers_ok s ps \<and> length ps < TIME_REQUESTS) \<and> (\<forall>i. mon_timer s i \<le> 0x7fffffff)"

lemma start_timer_run:
  assumes "timers_ok s ps" "length ps < TIME_REQUESTS" "0 < j" "j \<le> 0x7fffffff" "fn \<in> {transfer_fn, floppy_on_fn}"
  shows "\<exists>p ts. start_timer j fn f s = Some (s\<lparr>timer_list := ts, next_timer := Some p\<rparr>)
    \<and> timers_ok (s\<lparr>timer_list := ts, next_timer := Some p\<rparr>) (p # ps)
    \<and> requests ts (p # ps) = insert_request j fn (requests (timer_list s) ps)
    \<and> timer_set (s\<lparr>timer_list := ts, next_timer := Some p\<rparr>)"
proof -
  have fn: "fn \<noteq> 0" using assms(5) by (auto simp: transfer_fn_def floppy_on_fn_def)
  obtain p ts where t: "add_timer (\<lambda>_. Some) j fn s = Some (s\<lparr>timer_list := ts, next_timer := Some p\<rparr>)"
      "timers_ok (s\<lparr>timer_list := ts, next_timer := Some p\<rparr>) (p # ps)"
      "requests ts (p # ps) = insert_request j fn (requests (timer_list s) ps)"
    using add_timer_ok [OF assms(1,2) fn assms(3,4), of "\<lambda>_. Some"] by auto
  have "fn \<in> (\<lambda>p. tl_fn (ts p)) ` set (p # ps)"
    unfolding requests_fns [symmetric] t(3) set_insert_request by simp
  then have "timer_set (s\<lparr>timer_list := ts, next_timer := Some p\<rparr>)"
    unfolding timer_set_def using t(2) assms(5) by (intro exI [of _ "p # ps"]) auto
  then show ?thesis using t assms(3) by (auto simp: start_timer_def)
qed

lemma start_timer_waits:
  assumes "timer_free s" "j \<le> 0x7fffffff" "fn \<in> {transfer_fn, floppy_on_fn}"
    "\<exists>s'. f s = Some s' \<and> fd_waiting s0 s'"
  shows "\<exists>s'. start_timer j fn f s = Some s' \<and> fd_waiting s0 s'"
proof (cases "j \<le> 0")
  case True
  then show ?thesis using assms(4) by (simp add: start_timer_def)
next
  case False
  then show ?thesis using assms(1-3) start_timer_run unfolding timer_free_def fd_waiting_def by (meson linorder_not_less)
qed

text \<open>\<open>floppy_on_interrupt\<close> starts the transfer, or the timer that will.\<close>

lemma floppy_on_run:
  assumes "current_request s 2 \<noteq> None"
  shows "(\<exists>s'. floppy_on_interrupt_with do_fd_request s = Some s' \<and> commanded s s' \<and> fd_kept s s')
    \<or> (\<exists>s1. floppy_on_interrupt_with do_fd_request s = start_timer 2 transfer_fn (transfer_with do_fd_request) s1 \<and> fd_kept s s1)"
proof -
  let ?s1 = "s\<lparr>selected := 1\<rparr>"
  let ?s2 = "?s1\<lparr>current_DOR := (current_DOR ?s1 AND 0xFC) OR current_drive ?s1\<rparr>"
  let ?s3 = "outb (current_DOR ?s2) FD_DOR ?s2"
  have "fd_kept ?s2 ?s3" by (simp add: fd_io_kept del: kept_fields)
  then have "fd_kept s ?s3" by simp
  moreover have "current_request ?s1 2 \<noteq> None" using assms by simp
  ultimately show ?thesis
    using transfer_run [of ?s1] unfolding floppy_on_interrupt_with_def Let_def kept_fields by auto
qed

lemma timer_free_kept: "fd_kept s s' \<Longrightarrow> timer_free s \<Longrightarrow> timer_free s'"
  by (simp add: fd_kept_def timer_free_def timers_ok_def)

lemma floppy_on_waits:
  assumes "current_request s 2 \<noteq> None" "timer_free s"
  shows "\<exists>s'. floppy_on_interrupt_with do_fd_request s = Some s' \<and> fd_waiting s s'"
  using floppy_on_run [OF assms(1)]
proof
  assume "\<exists>s1. floppy_on_interrupt_with do_fd_request s = start_timer 2 transfer_fn (transfer_with do_fd_request) s1 \<and> fd_kept s s1"
  then obtain s1 where s1: "floppy_on_interrupt_with do_fd_request s = start_timer 2 transfer_fn (transfer_with do_fd_request) s1" "fd_kept s s1"
    by blast
  have "\<exists>s'. transfer_with do_fd_request s1 = Some s' \<and> fd_waiting s s'"
    using transfer_run [of s1] s1(2) assms(1) commanded_kept [OF s1(2)] by (auto simp: fd_kept_def fd_waiting_def)
  then show ?thesis unfolding s1(1) using start_timer_waits [OF timer_free_kept [OF s1(2) assms(2)]] by simp
qed (auto simp: fd_waiting_def)

text \<open>The requests for the driver: of a known type, with a locked buffer of their own.\<close>

definition fd_queue :: "'a fs_state_scheme \<Rightarrow> nat list \<Rightarrow> bool" where
  "fd_queue s rs \<longleftrightarrow> queue_chain (requests_tab s) (current_request s 2) rs \<and> distinct (map (\<lambda>r. rq_bh (requests_tab s r)) rs)
     \<and> (\<forall>r\<in>set rs. MAJOR (rq_dev (requests_tab s r)) = 2 \<and> nat (MINOR (rq_dev (requests_tab s r))) div 4 < length floppy_type
          \<and> rq_cmd (requests_tab s r) \<in> {READ, WRITE} \<and> rq_sector (requests_tab s r) \<le> 0xfffffffd
          \<and> (\<exists>b. rq_bh (requests_tab s r) = Some b \<and> b_lock (buffers s b)))"

lemma end_request_buffers:
  assumes "current_request s major = Some r" "Some b \<noteq> rq_bh (requests_tab s r)"
  shows "buffers (end_request major ok s) b = buffers s b"
proof -
  define s0 where "s0 = (if major = 2 then floppy_off (nat (rq_dev (requests_tab s r) mod 4)) s else s)"
  define s1 where "s1 = (case rq_bh (requests_tab s0 r) of None \<Rightarrow> s0
      | Some b \<Rightarrow> unlock_buffer b (upd_buffer b (b_uptodate_update (\<lambda>_. ok)) s0))"
  have 0: "requests_tab s0 = requests_tab s" "buffers s0 = buffers s" by (simp_all add: s0_def floppy_off_def)
  have 1: "buffers s1 b = buffers s b"
    using assms(2) 0
    by (cases "rq_bh (requests_tab s0 r)") (auto simp: s1_def unlock_buffer_def wake_up_def waitq_defs upd_buffer_def set_state_def upd_task_def)
  have 2: "buffers (wake_up (Some q) t) = buffers t" if "q = rq_waitq r \<or> q = request_waitq" for q and t :: "'a fs_state_scheme"
    using that by (auto simp: wake_up_def waitq_defs upd_request_def set_state_def upd_task_def)
  have e: "end_request major ok s = (let s = upd_request r (rq_dev_update (\<lambda>_. -1)) (wake_up (Some request_waitq) (wake_up (Some (rq_waitq r)) s1))
      in s\<lparr>current_request := (current_request s)(major := rq_next (requests_tab s r))\<rparr>)"
    unfolding end_request_def assms(1) option.case Let_def s1_def s0_def by (rule refl)
  show ?thesis unfolding e Let_def by (simp add: upd_request_def 1 2)
qed

lemma fd_queue_end:
  assumes "fd_queue s (r # rs)"
  shows "fd_queue (end_request 2 ok s) rs"
proof -
  have r: "current_request s 2 = Some r" using assms by (simp add: fd_queue_def)
  have ne: "r \<notin> set rs" using assms by (force simp: fd_queue_def)
  have same: "requests_tab (end_request 2 ok s) q = requests_tab s q" if "q \<in> set rs" for q
    using end_request_queue(2) [OF r] that ne by metis
  have buf: "buffers (end_request 2 ok s) b = buffers s b" if "q \<in> set rs" "rq_bh (requests_tab s q) = Some b" for q b
  proof (rule end_request_buffers [OF r])
    show "Some b \<noteq> rq_bh (requests_tab s r)" using assms that unfolding fd_queue_def by force
  qed
  have "queue_chain (requests_tab (end_request 2 ok s)) (rq_next (requests_tab s r)) rs"
    using assms queue_chain_cong [of rs "requests_tab (end_request 2 ok s)" "requests_tab s"] same by (simp add: fd_queue_def)
  moreover have "map (\<lambda>r. rq_bh (requests_tab (end_request 2 ok s) r)) rs = map (\<lambda>r. rq_bh (requests_tab s r)) rs"
    using same by simp
  ultimately show ?thesis using assms same buf end_request_queue(1) [OF r, of ok]
    unfolding fd_queue_def by (auto; metis)
qed

lemma end_request_frame [simp]:
  "timer_list (end_request major ok s) = timer_list s" "next_timer (end_request major ok s) = next_timer s"
  "mon_timer (end_request major ok s) = mon_timer s" "ports (end_request major ok s) = ports s"
  by (auto simp: end_request_def Let_def floppy_off_def unlock_buffer_def wake_up_def waitq_defs upd_buffer_def upd_request_def
      set_state_def upd_task_def split: option.split)

lemma type_used:
  assumes "t \<in> set floppy_type" "fl_size t \<noteq> 0"
  shows "fl_sect t \<noteq> 0" "fl_head t \<noteq> 0"
proof -
  have "list_all (\<lambda>t. fl_size t \<noteq> 0 \<longrightarrow> fl_sect t \<noteq> 0 \<and> fl_head t \<noteq> 0) floppy_type" by (simp add: floppy_type_def)
  then show "fl_sect t \<noteq> 0" "fl_head t \<noteq> 0" using assms by (auto simp: list_all_iff)
qed

text \<open>The state when \<open>accept_request\<close> has found a request.\<close>

definition accepted :: "nat \<Rightarrow> 'a fd_state_scheme \<Rightarrow> bool" where
  "accepted r s \<longleftrightarrow> current_request s 2 = Some r \<and> fl_sect (fd_type s) \<noteq> 0 \<and> fl_head (fd_type s) \<noteq> 0
     \<and> rq_cmd (requests_tab s r) \<in> {READ, WRITE} \<and> current_drive s \<le> 3"

lemma accept_request_run:
  assumes "fd_queue s rs" "timer_free s"
  shows "\<exists>r s'. accept_request s = Some (r, s') \<and> timer_free s' \<and> ports s' = ports s
    \<and> (case r of None \<Rightarrow> current_request s' 2 = None | Some r \<Rightarrow> accepted r s')"
  using assms
proof (induction rs arbitrary: s)
  case Nil
  then show ?case by (subst accept_request.simps) (simp add: fd_queue_def)
next
  case (Cons r rs)
  let ?q = "requests_tab s r" and ?k = "nat (MINOR (rq_dev (requests_tab s r))) div 4" and ?d = "word_of_int (rq_dev (requests_tab s r)) AND 3"
  have q: "current_request s 2 = Some r" "\<not> request_bad 2 r s" "?k < length floppy_type" "rq_cmd ?q \<in> {READ, WRITE}"
      "rq_sector ?q \<le> 0xfffffffd"
    using Cons.prems(1) by (auto simp: fd_queue_def request_bad_def)
  define s1 where "s1 = s\<lparr>fd_type := floppy_type ! ?k\<rparr>"
  define s2 where "s2 = (if current_drive s1 \<noteq> ?d then s1\<lparr>fd_seek := True\<rparr> else s1)\<lparr>current_drive := ?d\<rparr>"
  have e: "accept_request s = (if rq_sector (requests_tab s2 r) + 2 > fl_size (fd_type s2) then accept_request (end_request 2 False s2)
      else Some (Some r, s2))"
    using q(1-3) by (subst accept_request.simps) (simp add: Let_def s1_def s2_def)
  have s2: "requests_tab s2 = requests_tab s" "current_request s2 = current_request s" "buffers s2 = buffers s"
      "timer_list s2 = timer_list s" "next_timer s2 = next_timer s" "mon_timer s2 = mon_timer s" "ports s2 = ports s"
      "fd_type s2 = floppy_type ! ?k" "current_drive s2 = ?d"
    by (simp_all add: s1_def s2_def)
  have tf: "timer_free s2" using Cons.prems(2) by (simp add: timer_free_def timers_ok_def s2)
  show ?case
  proof (cases "rq_sector ?q + 2 > fl_size (fd_type s2)")
    case True
    have "fd_queue s2 (r # rs)" using Cons.prems(1) by (simp add: fd_queue_def s2)
    then have "fd_queue (end_request 2 False s2) rs" by (rule fd_queue_end)
    moreover have "timer_free (end_request 2 False s2)" using tf by (simp add: timer_free_def timers_ok_def)
    ultimately show ?thesis using Cons.IH [of "end_request 2 False s2"] True by (simp add: e s2)
  next
    case False
    have "rq_sector ?q + 2 \<noteq> 0" using q(5) by (auto simp: word_unat_eq_iff unat_word_ariths word_le_nat_alt)
    then have "fl_size (fd_type s2) \<noteq> 0" using False word_gt_0 by metis
    moreover have "fd_type s2 \<in> set floppy_type" using q(3) by (simp add: s2)
    moreover have "?d \<le> (3 :: u8)" by (rule word_and_le1)
    ultimately have "accepted r s2" using q(1,4) type_used unfolding accepted_def s2 by auto
    then show ?thesis using False tf by (intro exI [of _ "Some r"] exI [of _ s2]) (simp add: e s2)
  qed
qed

lemma ticks_run:
  assumes "nr \<le> 3" "\<forall>i. mon_timer s i \<le> 0x7fffffff"
  shows "\<exists>j s'. ticks_to_floppy_on nr s = Some (j, s') \<and> j \<le> 0x7fffffff \<and> current_request s' = current_request s
    \<and> timer_list s' = timer_list s \<and> next_timer s' = next_timer s \<and> (\<forall>i. mon_timer s' i \<le> 0x7fffffff)
    \<and> (\<exists>w. ports s' = ports s @ w)"
  using assms by (auto simp: ticks_to_floppy_on_def Let_def outb_def)

text \<open>What the driver has to achieve: nothing is left to do, or it waits for an interrupt or a timer.\<close>

definition fd_outcome :: "'a fd_state_scheme \<Rightarrow> 'a fd_state_scheme \<Rightarrow> bool" where
  "fd_outcome s s' \<longleftrightarrow> current_request s' 2 = None \<or> fd_waiting s s'"

lemma do_fd_request_run:
  assumes "fd_queue s rs" "timer_free s"
  shows "\<exists>s'. do_fd_request s = Some s' \<and> fd_outcome s s'"
proof -
  let ?s = "s\<lparr>fd_seek := False\<rparr>"
  consider "fd_reset s" | "\<not> fd_reset s" "fd_recalibrate s" | "\<not> fd_reset s" "\<not> fd_recalibrate s" by blast
  then show ?thesis
  proof cases
    case 1
    then show ?thesis using reset_run by (auto simp: fd_outcome_def fd_waiting_def)
  next
    case 2
    then have "do_fd_request s = recalibrate_floppy_with do_fd_request ?s" by (subst do_fd_request.simps) simp
    then show ?thesis using recalibrate_run [of ?s] by (auto simp: fd_outcome_def fd_waiting_def)
  next
    case 3
    have "fd_queue ?s rs" "timer_free ?s" using assms by (simp_all add: fd_queue_def timer_free_def timers_ok_def)
    then obtain r s1 where a: "accept_request ?s = Some (r, s1)" "timer_free s1" "ports s1 = ports s"
        "case r of None \<Rightarrow> current_request s1 2 = None | Some r \<Rightarrow> accepted r s1"
      using accept_request_run by fastforce
    show ?thesis
    proof (cases r)
      case None
      then show ?thesis using 3 a by (subst do_fd_request.simps) (simp add: fd_outcome_def)
    next
      case (Some r')
      then have acc: "accepted r' s1" using a(4) by simp
      obtain s2 where s2: "set_position r' s1 = Some s2"
      proof -
        have "set_position r' s1 \<noteq> None" using acc by (auto simp: accepted_def set_position_def Let_def)
        then show thesis using that by blast
      qed
      then have f: "current_request s2 = current_request s1" "current_drive s2 = current_drive s1" "timer_free s2" "ports s2 = ports s1"
        using a(2) by (auto simp: set_position_def Let_def timer_free_def timers_ok_def split: if_splits)
      have "unat (current_drive s2) \<le> 3" using acc f(2) by (simp add: accepted_def word_le_nat_alt)
      then obtain j s3 w where j: "ticks_to_floppy_on (unat (current_drive s2)) s2 = Some (j, s3)" "j \<le> 0x7fffffff"
          "current_request s3 = current_request s2" "timer_list s3 = timer_list s2" "next_timer s3 = next_timer s2"
          "\<forall>i. mon_timer s3 i \<le> 0x7fffffff" "ports s3 = ports s2 @ w"
        using ticks_run f(3) unfolding timer_free_def by blast
      have "timer_free s3" using f(3) j(4-6) by (simp add: timer_free_def timers_ok_def)
      moreover have "current_request s3 2 \<noteq> None" using acc f(1) j(3) by (simp add: accepted_def)
      ultimately have "\<exists>s'. floppy_on_interrupt_with do_fd_request s3 = Some s' \<and> fd_waiting s s'"
        using floppy_on_waits waiting_from [of s3 _ s w] f(4) a(3) j(7) by metis
      then have "\<exists>s'. start_timer j floppy_on_fn (floppy_on_interrupt_with do_fd_request) s3 = Some s' \<and> fd_waiting s s'"
        using j(2) \<open>timer_free s3\<close> by (intro start_timer_waits) simp_all
      then show ?thesis using 3 a(1) Some s2 j(1) by (subst do_fd_request.simps) (auto simp: fd_outcome_def)
    qed
  qed
qed

lemma fd_same_queue: "fd_same s s' \<Longrightarrow> fd_queue s rs \<Longrightarrow> fd_queue s' rs"
  by (simp add: fd_same_def fd_queue_def)

lemma fd_same_timer: "fd_same s s' \<Longrightarrow> timer_free s \<Longrightarrow> timer_free s'"
  by (simp add: fd_same_def timer_free_def timers_ok_def)

lemma fd_same_deselect [simp]: "fd_same s (floppy_deselect n s)"
  by (simp add: fd_same_def floppy_deselect_def wake_up_def select_waitq_def set_state_def upd_task_def)

lemma deselect_ports [simp]: "ports (floppy_deselect n s) = ports s"
  by (simp add: floppy_deselect_def wake_up_def select_waitq_def set_state_def upd_task_def)

lemma fd_queue_errors: "fd_queue s rs \<Longrightarrow> fd_queue (upd_request r (rq_errors_update f) s) rs"
proof -
  assume q: "fd_queue s rs"
  let ?s = "upd_request r (rq_errors_update f) s"
  have e: "rq_bh (requests_tab ?s q) = rq_bh (requests_tab s q)" "rq_dev (requests_tab ?s q) = rq_dev (requests_tab s q)"
    "rq_cmd (requests_tab ?s q) = rq_cmd (requests_tab s q)" "rq_sector (requests_tab ?s q) = rq_sector (requests_tab s q)"
    "rq_next (requests_tab ?s q) = rq_next (requests_tab s q)" for q by (simp_all add: upd_request_def)
  have c: "queue_chain (requests_tab ?s) (current_request ?s 2) rs"
    using q queue_chain_cong [of rs "requests_tab ?s" "requests_tab s"] e(5) by (simp add: fd_queue_def upd_request_def)
  have b: "buffers ?s = buffers s" by (simp add: upd_request_def)
  show ?thesis using q c unfolding fd_queue_def e b by simp
qed

lemma fd_queue_put: "fd_queue s rs \<Longrightarrow> fd_queue (put_block r d s) rs"
proof -
  have "b_lock (buffers (put_block r d s) b) = b_lock (buffers s b)" for b by (simp add: put_block_def upd_buffer_def Let_def)
  moreover have "requests_tab (put_block r d s) = requests_tab s" "current_request (put_block r d s) = current_request s"
    by (simp_all add: put_block_def upd_buffer_def Let_def)
  ultimately show "fd_queue s rs \<Longrightarrow> fd_queue (put_block r d s) rs" by (simp add: fd_queue_def)
qed

text \<open>The queue, whichever requests are left.\<close>

definition fd_ok :: "'a fd_state_scheme \<Rightarrow> bool" where
  "fd_ok s \<longleftrightarrow> (\<exists>rs. fd_queue s rs) \<and> timer_free s"

lemma fd_ok_same: "fd_same s s' \<Longrightarrow> fd_ok s \<Longrightarrow> fd_ok s'"
  using fd_same_queue fd_same_timer unfolding fd_ok_def by blast

lemma fd_ok_end:
  assumes "fd_ok s" "current_request s 2 \<noteq> None"
  shows "fd_ok (end_request 2 ok s)"
proof -
  obtain rs where "fd_queue s rs" "timer_free s" using assms(1) by (auto simp: fd_ok_def)
  moreover then obtain r rs' where "rs = r # rs'" using assms(2) by (cases rs) (auto simp: fd_queue_def)
  ultimately have "fd_queue (end_request 2 ok s) rs'" "timer_free (end_request 2 ok s)"
    using fd_queue_end by (blast, simp add: timer_free_def timers_ok_def)
  then show ?thesis by (auto simp: fd_ok_def)
qed

lemma fd_ok_fields: "fd_ok (s\<lparr>fd_reset := a\<rparr>) = fd_ok s" "fd_ok (s\<lparr>fd_recalibrate := b\<rparr>) = fd_ok s" "fd_ok (s\<lparr>current_track := c\<rparr>) = fd_ok s"
  by (simp_all add: fd_ok_def fd_queue_def timer_free_def timers_ok_def)

lemma bad_flp_ok:
  assumes "fd_ok s" "current_request s 2 \<noteq> None"
  shows "\<exists>s'. bad_flp_intr s = Some s' \<and> fd_ok s' \<and> ports s' = ports s"
proof -
  obtain r where r: "current_request s 2 = Some r" using assms(2) by auto
  let ?s = "upd_request r (rq_errors_update (\<lambda>e. i32 (e + 1))) s"
  have 1: "fd_ok ?s" "current_request ?s 2 \<noteq> None"
    using assms fd_queue_errors [of s _ r] by (auto simp: fd_ok_def timer_free_def timers_ok_def upd_request_def)
  let ?d = "floppy_deselect (unat (current_drive ?s)) ?s"
  have "fd_same ?s ?d" by simp
  then have "fd_ok ?d" "current_request ?d 2 \<noteq> None" using fd_ok_same 1 by (blast, simp add: fd_same_def)
  then have "fd_ok (end_request 2 False ?d)" by (rule fd_ok_end)
  then show ?thesis unfolding bad_flp_intr_def r option.case Let_def using 1(1)
    by (auto simp: fd_ok_fields deselect_ports upd_request_def)
qed

lemma do_fd_from:
  assumes "fd_ok s1" "ports s1 = ports s @ w"
  shows "\<exists>s'. do_fd_request s1 = Some s' \<and> fd_outcome s s'"
  using assms do_fd_request_run waiting_from unfolding fd_ok_def fd_outcome_def by metis

lemma rw_interrupt_run:
  assumes "fd_ok s" "current_request s 2 \<noteq> None"
  shows "\<exists>s'. rw_interrupt s = Some s' \<and> fd_outcome s s'"
proof -
  obtain n s1 where r: "fd_result s = (n, s1)" by (cases "fd_result s")
  have "fd_same s s1" using fd_same_result [of s] r by simp
  then obtain w where ok1: "fd_ok s1" "current_request s1 2 \<noteq> None" and w: "ports s1 = ports s @ w"
    using fd_ok_same assms by (auto simp: fd_same_def)
  have des: "fd_ok (floppy_deselect k t)" "current_request (floppy_deselect k t) 2 \<noteq> None"
    if "fd_ok t" "current_request t 2 \<noteq> None" for k and t :: "'a fd_state_scheme"
    using fd_ok_same [OF fd_same_deselect that(1)] fd_same_deselect [of t k] that(2) by (simp_all add: fd_same_def)
  let ?err = "n \<noteq> 7 \<or> reply_buffer s1 0 AND 0xf8 \<noteq> 0 \<or> reply_buffer s1 1 AND 0xbf \<noteq> 0 \<or> reply_buffer s1 2 AND 0x73 \<noteq> 0"
  show ?thesis
  proof (cases ?err)
    case True
    have "\<exists>s2. (if reply_buffer s1 1 AND 0x02 \<noteq> 0
              then (if current_request s1 2 = None then None
                    else Some (end_request 2 False (floppy_deselect (unat (current_drive s1)) s1)))
              else bad_flp_intr s1) = Some s2 \<and> fd_ok s2 \<and> ports s2 = ports s1"
      using bad_flp_ok [OF ok1] fd_ok_end [OF des [OF ok1]] ok1(2) by auto
    then obtain s2 where s2: "(if reply_buffer s1 1 AND 0x02 \<noteq> 0
              then (if current_request s1 2 = None then None
                    else Some (end_request 2 False (floppy_deselect (unat (current_drive s1)) s1)))
              else bad_flp_intr s1) = Some s2" "fd_ok s2" "ports s2 = ports s @ w" using w by auto
    have "rw_interrupt s = do_fd_request s2"
      unfolding rw_interrupt_def r Let_def prod.case if_P [OF True] s2(1) by simp
    then show ?thesis using do_fd_from [OF s2(2,3)] by simp
  next
    case False
    obtain q where q: "current_request s1 2 = Some q" using ok1(2) by auto
    let ?s2 = "if fd_command s1 = FD_READ \<and> buffer_addr q s1 \<ge> 0x100000 then put_block q (tmp_floppy_area s1) s1 else s1"
    have "fd_ok (put_block q d s1)" "current_request (put_block q d s1) 2 \<noteq> None" "ports (put_block q d s1) = ports s @ w" for d
      using ok1 w fd_queue_put [of s1] by (auto simp: fd_ok_def timer_free_def timers_ok_def put_block_def upd_buffer_def Let_def)
    then have ok2: "fd_ok ?s2" "current_request ?s2 2 \<noteq> None" "ports ?s2 = ports s @ w" using ok1 w by simp_all
    have "rw_interrupt s = do_fd_request (end_request 2 True (floppy_deselect (unat (current_drive ?s2)) ?s2))"
      unfolding rw_interrupt_def r Let_def prod.case if_not_P [OF False] q by simp
    moreover have "ports (end_request 2 True (floppy_deselect k ?s2)) = ports s @ w" for k using ok2(3) by simp
    ultimately show ?thesis using do_fd_from [OF fd_ok_end [OF des [OF ok2(1,2)]]] by metis
  qed
qed

lemma seek_interrupt_run:
  assumes "fd_ok s" "current_request s 2 \<noteq> None"
  shows "\<exists>s'. seek_interrupt s = Some s' \<and> fd_outcome s s'"
proof -
  obtain n s1 where r: "fd_result (output_byte FD_SENSEI s) = (n, s1)" by (cases "fd_result (output_byte FD_SENSEI s)")
  obtain w where ok1: "fd_ok s1" "current_request s1 2 \<noteq> None" and w: "ports s1 = ports s @ w"
    using fd_same_sensei [OF r] fd_ok_same assms by (auto simp: fd_same_def)
  show ?thesis
  proof (cases "n \<noteq> 2 \<or> reply_buffer s1 0 AND 0xF8 \<noteq> 0x20 \<or> reply_buffer s1 1 \<noteq> seek_track s1")
    case True
    obtain s2 where s2: "bad_flp_intr s1 = Some s2" "fd_ok s2" "ports s2 = ports s @ w" using bad_flp_ok [OF ok1] w by auto
    have "seek_interrupt s = do_fd_request s2"
      unfolding seek_interrupt_def r Let_def prod.case if_P [OF True] s2(1) by simp
    then show ?thesis using do_fd_from [OF s2(2,3)] by simp
  next
    case False
    let ?s2 = "s1\<lparr>current_track := reply_buffer s1 1\<rparr>"
    have "seek_interrupt s = setup_rw_floppy_with do_fd_request ?s2"
      unfolding seek_interrupt_def r Let_def prod.case if_not_P [OF False] setup_rw_floppy_def by simp
    moreover have "current_request ?s2 2 \<noteq> None" "ports ?s2 = ports s @ w" using ok1(2) w by simp_all
    ultimately show ?thesis using setup_rw_run [of ?s2] commanded_from by (metis fd_outcome_def fd_waiting_def)
  qed
qed

text \<open>\<open>do_fd_request\<close> returns whatever the controller answers, although it calls itself through the functions
  that fail to give a command; afterwards the queue is empty, or a command has reached the controller, or a timer runs that
  will call the driver again.\<close>

theorem floppy_request_returns:
  assumes "fd_ok s"
  shows "\<exists>s'. do_fd_request s = Some s' \<and> (current_request s' 2 = None \<or> commanded s s' \<or> timer_set s')"
  using assms do_fd_request_run unfolding fd_ok_def fd_outcome_def fd_waiting_def by blast

text \<open>A floppy with one request, on a controller that gives no answer that the driver expects.\<close>

definition one_request :: "fd_handler option \<Rightarrow> fd_state" where
  "one_request h = (init_fd (init_hd (init_tty_state 0x1000 0) (\<lambda>_ _. 0) (\<lambda>_ _. 0)))\<lparr>do_floppy := h,
     requests_tab := (\<lambda>_. zero_request\<lparr>rq_dev := 0x21c, rq_bh := Some 0, rq_sector := 4\<rparr>),
     buffers := (\<lambda>_. zero_buffer\<lparr>b_lock := True\<rparr>), current_request := (\<lambda>_. None)(2 := Some 0)\<rparr>"

lemma one_request_ok: "fd_ok (one_request h)" "current_request (one_request h) 2 \<noteq> None" "do_floppy (one_request h) = h"
proof -
  have "fd_queue (one_request h) [0]"
    by (simp add: fd_queue_def one_request_def zero_request_def MAJOR_def MINOR_def floppy_type_def)
  moreover have "timers_ok (one_request h) []" "\<forall>i. mon_timer (one_request h) i \<le> 0x7fffffff"
    by (simp_all add: timers_ok_def one_request_def init_fd_simps init_fs_def)
  ultimately show "fd_ok (one_request h)" by (auto simp: fd_ok_def timer_free_def intro: exI [of _ "[]"])
qed (simp_all add: one_request_def)

text \<open>C32: No interrupt stalls the driver: whatever the controller answers when it is asked for the result of a command, and
  whichever bytes of the next command it refuses, the handler returns, and then the queue is empty, or the driver has given a
  command of which the controller has taken every byte (or has reset the controller) and has set the handler of that
  command, or a timer of the driver is in the list of the timers. A handler for a transfer
  or a seek runs for the first request of the queue.\<close>

theorem floppy_never_stalls:
  assumes "fd_ok s" "do_floppy s = Some h" "h \<in> {Rw_interrupt, Seek_interrupt} \<longrightarrow> current_request s 2 \<noteq> None"
  shows "\<exists>s'. floppy_interrupt s = Some s' \<and> (current_request s' 2 = None \<or> commanded s s' \<or> timer_set s')"
proof -
  let ?s = "(outb 0x20 0x20 s)\<lparr>do_floppy := None\<rparr>"
  have ok: "fd_ok ?s" using assms(1) by (simp add: fd_ok_def fd_queue_def timer_free_def timers_ok_def outb_def)
  have c: "current_request ?s = current_request s" and p: "ports ?s = ports s @ [(0x20, 0x20)]" by (simp_all add: outb_def)
  obtain n s1 where r: "fd_result (output_byte FD_SENSEI ?s) = (n, s1)" by (cases "fd_result (output_byte FD_SENSEI ?s)")
  obtain w where ok1: "fd_ok s1" and w: "ports s1 = ports ?s @ w"
    using fd_same_sensei [OF r] fd_ok_same [OF fd_same_sensei [OF r] ok] by (auto simp: fd_same_def)
  have "\<exists>s'. floppy_interrupt s = Some s' \<and> fd_outcome ?s s'"
  proof (cases h)
    case Rw_interrupt
    then show ?thesis using assms(2,3) rw_interrupt_run [OF ok] c by (simp add: floppy_interrupt_def)
  next
    case Seek_interrupt
    then show ?thesis using assms(2,3) seek_interrupt_run [OF ok] c by (simp add: floppy_interrupt_def)
  next
    case Recal_interrupt
    have "fd_ok (s1\<lparr>fd_reset := True\<rparr>)" "fd_ok (s1\<lparr>fd_recalibrate := False\<rparr>)" using ok1 by (simp_all add: fd_ok_fields)
    then show ?thesis
      using do_fd_from [of "s1\<lparr>fd_reset := True\<rparr>" ?s w] do_fd_from [of "s1\<lparr>fd_recalibrate := False\<rparr>" ?s w] w assms(2) Recal_interrupt
      unfolding floppy_interrupt_def recal_interrupt_def r Let_def prod.case by simp
  next
    case Reset_interrupt
    have "\<exists>s'. do_fd_request (output_bytes bs s1) = Some s' \<and> fd_outcome ?s s'" for bs
    proof -
      have "fd_same s1 (output_bytes bs s1)" by (rule fd_same_output)
      then obtain v where "fd_ok (output_bytes bs s1)" "ports (output_bytes bs s1) = ports ?s @ w @ v"
        using fd_ok_same [OF _ ok1] w by (auto simp: fd_same_def)
      then show ?thesis by (rule do_fd_from)
    qed
    then show ?thesis using assms(2) Reset_interrupt
      unfolding floppy_interrupt_def reset_interrupt_def r Let_def prod.case by simp
  qed
  then show ?thesis using commanded_from [OF _ p] unfolding fd_outcome_def fd_waiting_def by blast
qed

theorem floppy_never_stalls_witness:
  "\<exists>s'. floppy_interrupt (one_request (Some Seek_interrupt)) = Some s' \<and> (current_request s' 2 = None
    \<or> commanded (one_request (Some Seek_interrupt)) s' \<or> timer_set s')"
  by (rule floppy_never_stalls [OF one_request_ok(1,3)]) (simp add: one_request_ok)

end
