(* ===== verification/Clock.thy ===== *)
theory Clock
  imports Floppy_Driver
begin

text \<open>
  The clock tick with the timers that the kernel really sets: the two functions of the floppy driver, one of which adds
  a timer itself. \<open>timer_law\<close> discharges what \<open>timer_functions\<close> (\<open>Scheduling\<close>) asks of them, and the tick is followed
  through \<open>do_timer\<close>.
\<close>

section \<open>The functions of the floppy driver\<close>

definition fd_busy :: "'a fd_state_scheme \<Rightarrow> bool" where
  "fd_busy s \<longleftrightarrow> sched_ok s \<and> current_request s 2 \<noteq> None"

lemma sched_ok_cong: "tasks s' = tasks s \<Longrightarrow> task s' = task s \<Longrightarrow> sched_ok s' = sched_ok s"
  by (simp add: sched_ok_def in_table_def)

lemma busy_kept: "fd_kept s s' \<Longrightarrow> fd_busy s \<Longrightarrow> fd_busy s'"
  using sched_ok_cong by (auto simp: fd_kept_def fd_busy_def)

lemma busy_timers [simp]: "fd_busy (s\<lparr>timer_list := ts, next_timer := n\<rparr>) = fd_busy s"
  using sched_ok_cong [of "s\<lparr>timer_list := ts, next_timer := n\<rparr>" s] by (simp add: fd_busy_def)

lemma timers_kept: "fd_kept s s' \<Longrightarrow> timers_ok s' ps = timers_ok s ps"
  unfolding fd_kept_def timers_ok_def by (elim conjE) (simp only:)

lemma requests_kept: "fd_kept s s' \<Longrightarrow> requests (timer_list s') ps = requests (timer_list s) ps"
  by (simp add: fd_kept_def)

lemma nothing_added:
  "fd_kept s s' \<Longrightarrow> timers_ok s ps \<Longrightarrow> \<exists>qs new. timers_ok s' qs \<and> length new \<le> 1 \<and> (\<forall>(j, g)\<in>set new. 0 < j)
    \<and> requests (timer_list s') qs = insert_all new (requests (timer_list s) ps)"
  using timers_kept [of s s' ps] by (intro exI [of _ ps] exI [of _ "[]"]) (simp add: insert_all_def requests_kept)

lemma timer_law:
  assumes "fd_busy s" "timers_ok s ps" "length ps < TIME_REQUESTS"
  shows "\<exists>s' qs new. floppy_timer f s = Some s' \<and> fd_busy s' \<and> timers_ok s' qs \<and> length new \<le> 1 \<and> (\<forall>(j, g)\<in>set new. 0 < j)
    \<and> requests (timer_list s') qs = insert_all new (requests (timer_list s) ps)"
proof -
  have c: "current_request s 2 \<noteq> None" using assms(1) by (simp add: fd_busy_def)
  have kept: ?thesis if "floppy_timer f s = Some s'" "fd_kept s s'" for s'
    using that busy_kept nothing_added [OF that(2) assms(2)] assms(1) by blast
  show ?thesis
  proof (cases "f = transfer_fn")
    case True
    then show ?thesis using transfer_run [OF c] kept by (auto simp: floppy_timer_def transfer_def)
  next
    case no_transfer: False
    show ?thesis
    proof (cases "f = floppy_on_fn")
      case True
      then have f: "floppy_timer f s = floppy_on_interrupt_with do_fd_request s"
        using no_transfer by (simp add: floppy_timer_def floppy_on_interrupt_def)
      from floppy_on_run [OF c] show ?thesis
      proof
        assume "\<exists>s'. floppy_on_interrupt_with do_fd_request s = Some s' \<and> commanded s s' \<and> fd_kept s s'"
        then show ?thesis using kept f by auto
      next
        assume "\<exists>s1. floppy_on_interrupt_with do_fd_request s = start_timer 2 transfer_fn (transfer_with do_fd_request) s1 \<and> fd_kept s s1"
        then obtain s1 where s1: "floppy_timer f s = start_timer 2 transfer_fn (transfer_with do_fd_request) s1" "fd_kept s s1"
          using f by auto
        have "timers_ok s1 ps" using timers_kept [OF s1(2)] assms(2) by blast
        from start_timer_run [OF this assms(3), of 2 transfer_fn "transfer_with do_fd_request"]
        obtain p ts where "floppy_timer f s = Some (s1\<lparr>timer_list := ts, next_timer := Some p\<rparr>)"
          "timers_ok (s1\<lparr>timer_list := ts, next_timer := Some p\<rparr>) (p # ps)"
          "requests ts (p # ps) = insert_request 2 transfer_fn (requests (timer_list s1) ps)"
          unfolding s1(1) by auto
        moreover have "timer_list s1 = timer_list s" using s1(2) by (simp add: fd_kept_def)
        ultimately show ?thesis using busy_kept [OF s1(2) assms(1)]
          by (intro exI [of _ "s1\<lparr>timer_list := ts, next_timer := Some p\<rparr>"] exI [of _ "p # ps"] exI [of _ "[(2, transfer_fn)]"])
            (simp add: insert_all_def)
      qed
    next
      case False
      then have "floppy_timer f s = Some s" using no_transfer by (simp add: floppy_timer_def)
      then show ?thesis using kept fd_io_kept [OF fd_io_refl] by blast
    qed
  qed
qed

interpretation floppy_functions: timer_functions floppy_timer fd_busy
  by unfold_locales (blast intro: timer_law, auto simp: pop_timer_def split: option.split)

section \<open>The rest of the tick\<close>

text \<open>What \<open>do_timer\<close> does before and after it runs the timers.\<close>

definition tick_start :: "int \<Rightarrow> 'a sched_state_scheme \<Rightarrow> 'a sched_state_scheme" where
  "tick_start cpl s =
     (let s = (if beepcount s \<noteq> 0 then
                 let s = s\<lparr>beepcount := i32 (beepcount s - 1)\<rparr> in if beepcount s = 0 then sysbeepstop s else s
               else s);
          s = upd_task (current s)
            (\<lambda>t. if cpl \<noteq> 0 then t\<lparr>t_utime := i32 (t_utime t + 1)\<rparr> else t\<lparr>t_stime := i32 (t_stime t + 1)\<rparr>) s
      in case next_timer s of None \<Rightarrow> s
         | Some p \<Rightarrow> s\<lparr>timer_list := (timer_list s)(p := (timer_list s p)\<lparr>tl_jiffies := i32 (tl_jiffies (timer_list s p) - 1)\<rparr>)\<rparr>)"

definition tick_end :: "int \<Rightarrow> 'a sched_state_scheme \<Rightarrow> 'a sched_state_scheme option" where
  "tick_end cpl s =
     (let s = (if current_DOR s AND 0xf0 \<noteq> 0 then do_floppy_timer s else s);
          s = upd_task (current s) (\<lambda>t. t\<lparr>t_counter := i32 (t_counter t - 1)\<rparr>) s
      in if t_counter (cur s) > 0 then Some s
         else let s = upd_task (current s) (t_counter_update (\<lambda>_. 0)) s in if cpl = 0 then Some s else schedule s)"

lemma do_timer_parts: "do_timer call cpl s = do { t \<leftarrow> run_timers call (tick_start cpl s); tick_end cpl t }"
proof -
  have n: "next_timer s = None \<Longrightarrow> run_timers call s = Some s" for s by (subst run_timers.simps) simp
  show ?thesis
    by (auto simp: do_timer_def tick_start_def tick_end_def Let_def upd_task_def sysbeepstop_def outb_def n split: option.split)
qed

lemma sched_ok_upd:
  assumes "sched_ok s" "\<And>t. task_ok t \<Longrightarrow> task_ok (f t)"
  shows "sched_ok (upd_task p f s)"
  using assms by (auto simp: sched_ok_def in_table_def)

lemma tick_start_request: "current_request (tick_start cpl s) = current_request s"
  by (auto simp: tick_start_def Let_def sysbeepstop_def outb_def upd_task_def split: option.split)

lemma tick_start_fields:
  "next_timer (tick_start cpl s) = next_timer s"
  "timer_list (tick_start cpl s) = (case next_timer s of None \<Rightarrow> timer_list s
     | Some p \<Rightarrow> (timer_list s)(p := (timer_list s p)\<lparr>tl_jiffies := i32 (tl_jiffies (timer_list s p) - 1)\<rparr>))"
  by (auto simp: tick_start_def Let_def sysbeepstop_def outb_def upd_task_def split: option.split)

lemma tick_start_sched:
  assumes "sched_ok s"
  shows "sched_ok (tick_start cpl s)"
proof -
  let ?f = "\<lambda>t. if cpl \<noteq> 0 then t\<lparr>t_utime := i32 (t_utime t + 1)\<rparr> else t\<lparr>t_stime := i32 (t_stime t + 1)\<rparr>"
  have "sched_ok (upd_task (current s) ?f s)"
    by (rule sched_ok_upd [OF assms]) (simp add: task_ok_def)
  moreover have "tasks (tick_start cpl s) = tasks (upd_task (current s) ?f s)" "task (tick_start cpl s) = task (upd_task (current s) ?f s)"
    by (auto simp: tick_start_def Let_def sysbeepstop_def outb_def upd_task_def split: option.split)
  ultimately show ?thesis using sched_ok_cong [of "tick_start cpl s" "upd_task (current s) ?f s"] by blast
qed

text \<open>The first request has one tick less to wait.\<close>

lemma tick_start_timers:
  assumes "timers_ok s ps"
  shows "timers_low (tick_start cpl s) ps" "requests (timer_list (tick_start cpl s)) ps = tick (requests (timer_list s) ps)"
proof -
  have "timers_low (tick_start cpl s) ps \<and> requests (timer_list (tick_start cpl s)) ps = tick (requests (timer_list s) ps)"
  proof (cases ps)
    case Nil
    then show ?thesis using assms by (auto simp: timers_ok_def timers_low_def tick_start_fields requests_def)
  next
    case (Cons p qs)
    have n: "next_timer s = Some p" "p \<notin> set qs" "chain (timer_list s) (tl_next (timer_list s p)) qs"
      "0 \<le> tl_jiffies (timer_list s p)" "tl_jiffies (timer_list s p) \<le> 0x7fffffff"
      using assms by (auto simp: timers_ok_def Cons)
    let ?ts = "(timer_list s)(p := (timer_list s p)\<lparr>tl_jiffies := i32 (tl_jiffies (timer_list s p) - 1)\<rparr>)"
    have j: "i32 (tl_jiffies (timer_list s p) - 1) = tl_jiffies (timer_list s p) - 1" by (rule i32_id) (use n(4,5) in simp_all)
    have "requests ?ts qs = requests (timer_list s) qs" by (rule requests_cong) (use n(2) in auto)
    then have "requests ?ts ps = tick (requests (timer_list s) ps)" by (simp add: Cons requests_def j)
    moreover have "timers_low (tick_start cpl s) ps"
      using assms n j by (auto simp: timers_ok_def timers_low_def tick_start_fields Cons chain_upd)
    ultimately show ?thesis using n(1) by (simp add: tick_start_fields)
  qed
  then show "timers_low (tick_start cpl s) ps" "requests (timer_list (tick_start cpl s)) ps = tick (requests (timer_list s) ps)" by auto
qed

definition same_timers :: "'a sched_state_scheme \<Rightarrow> 'a sched_state_scheme \<Rightarrow> bool" where
  "same_timers s s' \<longleftrightarrow> timer_list s' = timer_list s \<and> next_timer s' = next_timer s"

lemma floppy_step_ok: "sched_ok s \<Longrightarrow> sched_ok (floppy_timer_step i s) \<and> same_timers s (floppy_timer_step i s)"
proof -
  assume ok: "sched_ok s"
  have up: "sched_ok (set_state q v s)" for q v
    unfolding set_state_def by (rule sched_ok_upd [OF ok]) (simp add: task_ok_def)
  have c: "sched_ok (x\<lparr>wait_motor := w\<rparr>) = sched_ok x" "sched_ok (x\<lparr>mon_timer := m\<rparr>) = sched_ok x"
    "sched_ok (x\<lparr>moff_timer := m\<rparr>) = sched_ok x" "sched_ok (x\<lparr>current_DOR := d\<rparr>) = sched_ok x"
    "sched_ok (x\<lparr>ports := pt\<rparr>) = sched_ok x" for x :: "'a sched_state_scheme" and w m d pt
    by (rule sched_ok_cong; simp)+
  have s: "set_state q v (s\<lparr>mon_timer := m\<rparr>) = (set_state q v s)\<lparr>mon_timer := m\<rparr>" for q v m by (simp add: set_state_def upd_task_def)
  show ?thesis using ok up
    by (simp add: floppy_timer_step_def Let_def wake_up_def motor_queue_def outb_def c s same_timers_def)
      (simp add: set_state_def upd_task_def)
qed

lemma do_floppy_timer_ok: "sched_ok s \<Longrightarrow> sched_ok (do_floppy_timer s) \<and> same_timers s (do_floppy_timer s)"
proof -
  have "sched_ok s \<Longrightarrow> sched_ok (fold floppy_timer_step is s) \<and> same_timers s (fold floppy_timer_step is s)" for "is"
  proof (induction "is" arbitrary: s)
    case (Cons i "is")
    then show ?case using floppy_step_ok [OF Cons.prems, of i] Cons.IH [of "floppy_timer_step i s"] by (simp add: same_timers_def)
  qed (simp add: same_timers_def)
  then show "sched_ok s \<Longrightarrow> sched_ok (do_floppy_timer s) \<and> same_timers s (do_floppy_timer s)" by (simp add: do_floppy_timer_def)
qed

lemma schedule_timers: "schedule s = Some s' \<Longrightarrow> same_timers s s'"
proof (erule schedule_cases)
  fix k m assume s': "s' = switch_to m ((for_tasks recharge 63 ^^ k) (for_tasks (check_signals (jiffies s)) 63 s))"
  have f: "same_timers u (for_tasks f n u)" for f n and u :: "'a sched_state_scheme"
  proof (induction n arbitrary: u)
    case (Suc n)
    from Suc [of "if task u (Suc n) \<noteq> 0 then upd_task (task u (Suc n)) f u else u"]
    show ?case by (simp add: same_timers_def upd_task_def split: if_splits)
  qed (simp add: same_timers_def)
  have "same_timers u ((for_tasks recharge 63 ^^ k) u)" for u :: "'a sched_state_scheme"
    by (induction k) (use f in \<open>auto simp: same_timers_def\<close>)
  then show "same_timers s s'" using f unfolding s' same_timers_def by (simp add: switch_to_def)
qed

lemma counter_step: "task_ok t \<Longrightarrow> 0 < i32 (t_counter t - 1) \<Longrightarrow> task_ok (t\<lparr>t_counter := i32 (t_counter t - 1)\<rparr>)"
proof -
  assume t: "task_ok t" "0 < i32 (t_counter t - 1)"
  have "i32 (t_counter t - 1) = t_counter t - 1" by (rule i32_id) (use t(1) in \<open>auto simp: task_ok_def\<close>)
  then show ?thesis using t by (simp add: task_ok_def)
qed

lemma tick_end_run:
  assumes "sched_ok s"
  shows "\<exists>s'. tick_end cpl s = Some s' \<and> sched_ok s' \<and> same_timers s s'"
proof -
  define s1 where "s1 = (if current_DOR s AND 0xf0 \<noteq> 0 then do_floppy_timer s else s)"
  have s1: "sched_ok s1" "same_timers s s1" using do_floppy_timer_ok [OF assms] assms by (simp_all add: s1_def same_timers_def)
  let ?c = "i32 (t_counter (cur s1) - 1)"
  define s2 where "s2 = upd_task (current s1) (\<lambda>t. t\<lparr>t_counter := i32 (t_counter t - 1)\<rparr>) s1"
  define s3 where "s3 = upd_task (current s2) (t_counter_update (\<lambda>_. 0)) s2"
  have c: "t_counter (cur s2) = ?c" by (simp add: s2_def)
  have e: "tick_end cpl s = (if ?c > 0 then Some s2 else if cpl = 0 then Some s3 else schedule s3)"
    unfolding tick_end_def Let_def s1_def [symmetric] s2_def [symmetric] s3_def [symmetric] c by (rule refl)
  have tm: "same_timers s s2" "same_timers s s3" using s1(2) by (simp_all add: s2_def s3_def same_timers_def upd_task_def)
  have 2: "sched_ok s2" if "?c > 0"
    using s1(1) that counter_step by (auto simp: sched_ok_def in_table_def s2_def)
  have "s3 = upd_task (current s1) (t_counter_update (\<lambda>_. 0)) s1" by (simp add: s3_def s2_def upd_task_def)
  moreover have "sched_ok (upd_task (current s1) (t_counter_update (\<lambda>_. 0)) s1)"
    by (rule sched_ok_upd [OF s1(1)]) (simp add: task_ok_def)
  ultimately have 3: "sched_ok s3" by simp
  obtain s4 where s4: "schedule s3 = Some s4" "sched_ok s4" using schedule_ok [OF 3] by blast
  then have "same_timers s s4" using schedule_timers [OF s4(1)] tm(2) by (simp add: same_timers_def)
  then show ?thesis using 2 3 tm s4 unfolding e by auto
qed

section \<open>The property\<close>

text \<open>C9: On every clock tick exactly the requests whose delay has run out are called, oldest first, each after its node has been
  given back: those that the list shows as due when one tick is taken off the first delay. This holds with the functions
  that the kernel really sets, of which \<open>floppy_on_interrupt\<close> adds a request itself: \<open>new\<close> are the requests added in this
  way. None of them is called in the same tick, and apart from them the list is as it was without the requests called.
  The rest of the tick ends, too. When a floppy timer runs out the driver has a request, and a node is free as one has just been
  given back.\<close>

theorem clock_tick_fires:
  assumes "timers_ok s ps" "sched_ok s" "due (tick (requests (timer_list s) ps)) \<noteq> [] \<longrightarrow> current_request s 2 \<noteq> None"
  shows "\<exists>t s' qs new. do_timer floppy_timer cpl s = Some s'
    \<and> call_all floppy_timer (map snd (due (tick (requests (timer_list s) ps)))) (tick_start cpl s) = Some t
    \<and> tick_end cpl t = Some s' \<and> timers_ok s' qs \<and> sched_ok s' \<and> (\<forall>(j, g)\<in>set new. 0 < j)
    \<and> requests (timer_list s') qs = insert_all new
        (drop (length (due (tick (requests (timer_list s) ps)))) (tick (requests (timer_list s) ps)))"
proof -
  let ?s = "tick_start cpl s" and ?rs = "tick (requests (timer_list s) ps)"
  note low = tick_start_timers [OF assms(1), of cpl]
  have ok: "sched_ok ?s" by (rule tick_start_sched [OF assms(2)])
  have "\<exists>t qs new. run_timers floppy_timer ?s = Some t \<and> call_all floppy_timer (map snd (due ?rs)) ?s = Some t
    \<and> sched_ok t \<and> timers_ok t qs \<and> (\<forall>(j, g)\<in>set new. 0 < j) \<and> requests (timer_list t) qs = insert_all new (drop (length (due ?rs)) ?rs)"
  proof (cases "due ?rs = []")
    case True
    then show ?thesis using run_timers_none [OF low(1)] timers_low_ok [OF low(1)] ok low(2)
      by (intro exI [of _ ?s] exI [of _ ps] exI [of _ "[]"]) (simp add: insert_all_def)
  next
    case False
    then have "fd_busy ?s" using assms(3) ok by (simp add: fd_busy_def tick_start_request)
    from floppy_functions.run [OF this low(1)] show ?thesis unfolding low(2) fd_busy_def by blast
  qed
  then obtain t qs new where t: "run_timers floppy_timer ?s = Some t" "call_all floppy_timer (map snd (due ?rs)) ?s = Some t"
    "sched_ok t" "timers_ok t qs" "\<forall>(j, g)\<in>set new. 0 < j" "requests (timer_list t) qs = insert_all new (drop (length (due ?rs)) ?rs)"
    by blast
  obtain s' where s': "tick_end cpl t = Some s'" "sched_ok s'" "timer_list s' = timer_list t" "next_timer s' = next_timer t"
    using tick_end_run [OF t(3), of cpl] by (auto simp: same_timers_def)
  have "timers_ok s' qs" using t(4) s'(3,4) by (simp add: timers_ok_def)
  then show ?thesis using t s' by (intro exI [of _ t] exI [of _ s'] exI [of _ qs] exI [of _ new]) (simp add: do_timer_parts)
qed

text \<open>The motor of the floppy has come up to speed.\<close>

definition motor_ready :: fd_state where
  "motor_ready = (one_request None)\<lparr>timer_list := (timer_list (one_request None))(3 := \<lparr>tl_jiffies = 1, tl_fn = floppy_on_fn, tl_next = None\<rparr>),
     next_timer := Some 3\<rparr>"

theorem clock_tick_fires_witness:
  "\<exists>t s' qs new. do_timer floppy_timer 0 motor_ready = Some s' \<and> floppy_timer floppy_on_fn (pop_timer (tick_start 0 motor_ready)) = Some t
    \<and> tick_end 0 t = Some s' \<and> timers_ok s' qs \<and> requests (timer_list s') qs = insert_all new []"
proof -
  have "timers_ok motor_ready [3]"
    by (auto simp: motor_ready_def timers_ok_def one_request_def init_fd_simps init_fs_def floppy_on_fn_def)
  moreover have "sched_ok motor_ready"
    by (auto simp: sched_ok_def in_table_def motor_ready_def one_request_def init_fd_simps init_fs_def)
  moreover have "tick (requests (timer_list motor_ready) [3]) = [(0, floppy_on_fn)]" by (simp add: requests_def motor_ready_def)
  moreover have "current_request motor_ready 2 \<noteq> None" using one_request_ok(2) by (simp add: motor_ready_def)
  ultimately show ?thesis using clock_tick_fires [of motor_ready "[3]" 0] by (auto simp: bind_eq_Some_conv)
qed

end
