(* ===== verification/Messages.thy ===== *)
theory Messages
  imports Traps
begin

text \<open>
  What \<open>printk\<close> shows: the composition of \<open>vsprintf\<close>, \<open>tty_write\<close> and \<open>con_write\<close> on an idle console.
\<close>

section \<open>Filling the write queue\<close>

abbreviation printable :: "u8 \<Rightarrow> bool" where
  "printable c \<equiv> 31 < sint c \<and> sint c < 127"

definition queued :: "nat \<Rightarrow> u8 list \<Rightarrow> 'a tty_state_scheme \<Rightarrow> 'a tty_state_scheme \<Rightarrow> bool" where
  "queued t cs s s' \<longleftrightarrow> queue_ok (write_q (tty_table s' t)) \<and> chars_of (write_q (tty_table s' t)) = chars_of (write_q (tty_table s t)) @ cs
     \<and> con s' = con s \<and> same_input t s s' \<and> current s' = current s \<and> fs_mem s' = fs_mem s"

lemma queued_put:
  assumes "queue_ok (write_q (tty_table s t))" "length (chars_of (write_q (tty_table s t))) < 1023"
  shows "queued t [c] s (upd_write_q t (PUTCH c) (s\<lparr>cr_flag := b\<rparr>))"
  using assms by (simp add: queued_def chars_of_put FULL_chars same_input_def upd_write_q_def upd_tty_def)

lemma queued_trans: "queued t cs s s' \<Longrightarrow> queued t ds s' s'' \<Longrightarrow> queued t (cs @ ds) s s''"
  by (auto simp: queued_def intro: same_input_trans)

lemma queued_flags: "queued t cs s s' \<Longrightarrow> O_FLAG n (tty_table s' t) = O_FLAG n (tty_table s t)"
  by (simp add: queued_def same_input_def O_FLAG_def)

lemma fill_printable:
  assumes "queue_ok (write_q (tty_table s t))" "length (chars_of (write_q (tty_table s t))) + length cs \<le> 1023"
    "\<forall>i<length cs. fs_mem s (b + of_nat i) = cs ! i" "\<forall>c\<in>set cs. printable c" "\<not> O_FLAG b_OLCUC (tty_table s t)"
  shows "\<exists>s' b'. iter (\<lambda>x. Some (fill_step t x)) ((b, n, int (length cs)), s) = Some ((b', n + int (length cs), 0), s')
    \<and> queue_ok (write_q (tty_table s' t)) \<and> chars_of (write_q (tty_table s' t)) = chars_of (write_q (tty_table s t)) @ cs
     \<and> con s' = con s \<and> same_input t s s'"
  using assms
proof (induction cs arbitrary: b n s)
  case Nil
  then show ?case by (subst iter_unfold) (simp add: fill_step_def same_input_refl)
next
  case (Cons c cs)
  have c: "get_fs_byte b s = c" "sint c \<noteq> 13" "sint c \<noteq> 10"
    using Cons.prems(3) [rule_format, of 0] Cons.prems(4) by (simp_all add: get_fs_byte_def)
  define s1 where "s1 = upd_write_q t (PUTCH c) (s\<lparr>cr_flag := False\<rparr>)"
  have q: "queued t [c] s s1" unfolding s1_def using Cons.prems by (intro queued_put) simp_all
  have "\<not> FULL (write_q (tty_table s t))" using Cons.prems by (simp add: FULL_chars)
  then have step: "fill_step t ((b, n, int (length (c # cs))), s) = Inl ((b + 1, n + 1, int (length cs)), s1)"
    using c Cons.prems(5) by (simp add: fill_step_def s1_def Let_def)
  have "\<forall>i<length cs. fs_mem s1 (b + 1 + of_nat i) = cs ! i"
    using q Cons.prems(3) by (auto simp: queued_def add.assoc dest: spec [of _ "Suc _"])
  moreover have "length (chars_of (write_q (tty_table s1 t))) + length cs \<le> 1023"
    using q Cons.prems(2) by (simp add: queued_def del: length_chars_of)
  ultimately obtain s' b' where r: "iter (\<lambda>x. Some (fill_step t x)) ((b + 1, n + 1, int (length cs)), s1)
      = Some ((b', n + 1 + int (length cs), 0), s')" "queue_ok (write_q (tty_table s' t))"
    "chars_of (write_q (tty_table s' t)) = chars_of (write_q (tty_table s1 t)) @ cs" "con s' = con s1" "same_input t s1 s'"
    using Cons.IH [of s1 "b + 1" "n + 1"] q Cons.prems(4,5) queued_flags [OF q]
    by (auto simp: queued_def simp del: length_chars_of)
  have "iter (\<lambda>x. Some (fill_step t x)) ((b, n, int (length (c # cs))), s) = Some ((b', n + 1 + int (length cs), 0), s')"
    by (subst iter_unfold) (simp only: step option.case sum.case r(1))
  then show ?case using r q by (intro exI [of _ s'] exI [of _ b']) (auto simp: queued_def intro: same_input_trans)
qed

section \<open>printk\<close>

lemma uint_of_char: "uint (of_char c :: u8) = int (of_char c)"
proof -
  have "uint (of_nat (of_char c) :: u8) = int (of_char c)"
    by (simp only: unsigned_of_nat) (simp add: take_bit_nat_eq_self del: of_nat_of_char)
  then show ?thesis by (simp only: of_nat_of_char)
qed

lemma printable_of_char: "(32 :: nat) \<le> of_char c \<Longrightarrow> of_char c < (127 :: nat) \<Longrightarrow> printable (of_char c)"
  by (simp add: sint_uint uint_of_char signed_take_bit_int_eq_self del: of_nat_of_char)

lemma ucast_of_char: "(ucast (of_char c :: u8) :: u16) = of_char c"
proof -
  have "(ucast (of_nat (of_char c) :: u8) :: u16) = of_nat (of_char c)"
    by (simp only: unsigned_of_nat) (simp add: take_bit_nat_eq_self del: of_nat_of_char)
  then show ?thesis by (simp only: of_nat_of_char)
qed

text \<open>The console can take a message: nothing waits to be printed, no escape sequence is open.\<close>

definition console_idle :: "'a tty_state_scheme \<Rightarrow> bool" where
  "console_idle s \<longleftrightarrow> queue_ok (write_q (tty_table s 0)) \<and> chars_of (write_q (tty_table s 0)) = []
     \<and> \<not> O_FLAG b_OLCUC (tty_table s 0) \<and> con_state (con s) = 0 \<and> screen_ok (con s)"

lemma write_printable:
  assumes "console_idle s" "t_signal (cur s) = 0" "\<forall>i<length cs. fs_mem s (b + of_nat i) = cs ! i" "\<forall>c\<in>set cs. printable c"
    "unat (con_x (con s)) + length cs \<le> unat (video_num_columns (con s))"
  shows "\<exists>s'. tty_write 0 b (int (length cs)) s = Some (Write_returned (int (length cs)), s')
    \<and> con s' = fold (text_con (CC VERASE (tty_table s 0))) cs (con s)
    \<and> chars_of (write_q (tty_table s' 0)) = []"
proof (cases "cs = []")
  case True
  then show ?thesis using assms(1) by (intro exI [of _ s]) (simp add: tty_write_def tty_write_from_def console_idle_def)
next
  case False
  have i: "queue_ok (write_q (tty_table s 0))" "chars_of (write_q (tty_table s 0)) = []" "\<not> O_FLAG b_OLCUC (tty_table s 0)"
    "con_state (con s) = 0" "unat (video_num_columns (con s)) < 256"
    using assms(1) by (simp_all add: console_idle_def screen_ok_def)
  have len: "length (chars_of (write_q (tty_table s 0))) + length cs \<le> 1023" using assms(5) i by simp
  obtain s1 b1 where s1: "iter (\<lambda>x. Some (fill_step 0 x)) ((b, 0, int (length cs)), s) = Some ((b1, int (length cs), 0), s1)"
    "queue_ok (write_q (tty_table s1 0))" "chars_of (write_q (tty_table s1 0)) = cs" "con s1 = con s" "same_input 0 s s1"
    using fill_printable [OF i(1) len assms(3,4) i(3), of 0] i(2) by auto
  have "27 \<notin> set cs" using assms(4) by force
  with con_write_text_run [OF s1(2)] s1(3,4) i(4)
  obtain s2 where s2: "con_write 0 s1 = Some s2" "con s2 = fold (text_con (CC VERASE (tty_table s1 0))) cs (con s)"
    "chars_of (write_q (tty_table s2 0)) = []" by auto
  have "CC VERASE (tty_table s1 0) = CC VERASE (tty_table s 0)" using s1(5) by (simp add: same_input_def CC_def)
  then show ?thesis using s1 s2 i(1,2) False assms(2)
    by (simp add: tty_write_def tty_write_from_def tty_write_round_def FULL_chars tty_out_def)
qed

lemma kernel_string_placed: "length out < 4294967296 \<Longrightarrow> i < length out \<Longrightarrow> place_string buf (out @ [NUL]) m (buf + of_nat i) = of_char (out ! i)"
  by (simp add: place_string_def unat_of_nat take_bit_nat_eq_self nth_append)

text \<open>C33: A message that fits on the line and has no control characters appears at the cursor of an idle console exactly as
  \<open>vsprintf\<close> formats it, with the current attribute; no other cell changes and the user segment is restored.\<close>

theorem printk_shows:
  assumes "vsprintf ((!) args) fmt (kernel_bytes s) = Some (int (length out), out @ [NUL], m)"
    and "\<forall>c\<in>set out. (32 :: nat) \<le> of_char c \<and> of_char c < (127 :: nat)"
    and "console_idle s" "t_signal (cur s) = 0"
    and "unat (con_x (con s)) + length out \<le> unat (video_num_columns (con s))"
  shows "\<exists>s'. printk im fmt args s = Some (Write_returned (int (length out)), s') \<and> fs_mem s' = fs_mem s
    \<and> con_x (con s') = con_x (con s) + of_nat (length out) \<and> con_y (con s') = con_y (con s)
    \<and> (\<forall>i<length out. vram (con s') (con_pos (con s) + 2 * of_nat i) = push_bit 8 (ucast (con_attr (con s))) OR of_char (out ! i))
    \<and> (\<forall>a. (\<forall>i<length out. a \<noteq> con_pos (con s) + 2 * of_nat i) \<longrightarrow> vram (con s') a = vram (con s) a)"
proof -
  let ?cs = "map of_char out :: u8 list"
  define s1 where "s1 = (store_bytes (place_string (printk_buf im) (out @ [NUL]) m) s)\<lparr>fs_mem := place_string (printk_buf im) (out @ [NUL]) m\<rparr>"
  have same: "con s1 = con s" "console_idle s1 = console_idle s" "cur s1 = cur s"
    by (simp_all add: s1_def store_bytes_def console_idle_def)
  have cols: "unat (video_num_columns (con s)) < 256" using assms(3) by (simp add: console_idle_def screen_ok_def)
  have pr: "\<forall>c\<in>set ?cs. printable c"
    using assms(2) by (auto simp: printable_of_char)
  have "\<forall>i<length ?cs. fs_mem s1 (printk_buf im + of_nat i) = ?cs ! i"
    using cols assms(5) by (simp add: s1_def kernel_string_placed)
  from write_printable [OF _ _ this pr] assms(3-5) same
  obtain s2 where s2: "tty_write 0 (printk_buf im) (int (length out)) s1 = Some (Write_returned (int (length out)), s2)"
    "con s2 = fold (text_con (CC VERASE (tty_table s1 0))) ?cs (con s)" by auto
  have "printk im fmt args s = Some (Write_returned (int (length out)), s2\<lparr>fs_mem := fs_mem s\<rparr>)"
    using assms(1) s2(1) by (simp add: printk_def s1_def [symmetric])
  moreover from text_run [OF pr _ cols s2(2)] assms(5) have "con_x (con s2) = con_x (con s) + of_nat (length out) \<and> con_y (con s2) = con_y (con s)
    \<and> (\<forall>i<length out. vram (con s2) (con_pos (con s) + 2 * of_nat i) = push_bit 8 (ucast (con_attr (con s))) OR ucast (?cs ! i))
    \<and> (\<forall>a. (\<forall>i<length out. a \<noteq> con_pos (con s) + 2 * of_nat i) \<longrightarrow> vram (con s2) a = vram (con s) a)"
    by simp
  ultimately show ?thesis by (intro exI [of _ "s2\<lparr>fs_mem := fs_mem s\<rparr>"]) (simp add: ucast_of_char)
qed

text \<open>A screen on which the kernel prints its process number.\<close>

lemma demo_message: "vsprintf ((!) [42]) ''pid %d'' m = Some (int (length ''pid 42''), ''pid 42'' @ [NUL], m)"
proof -
  have "number 42 10 (-1) (-1) SIGN = Some ''42''" by code_simp
  then show ?thesis
    by (simp add: vsprintf_def emit_def convert_def put_number_def scan_width_def scan_precision_def peek_def
        skip_qualifier_def va_arg_def is_digit_def)
qed

definition demo_image :: kernel_image where
  "demo_image = \<lparr>printk_buf = 0x20000, literal = (\<lambda>_. 0), entry_addr = (\<lambda>_. 0)\<rparr>"

lemma demo_idle: "console_idle (con_init demo_boot (init_tty_state 0x1000 0))" "con_x (con (con_init demo_boot (init_tty_state 0x1000 0))) = 3"
  "video_num_columns (con (con_init demo_boot (init_tty_state 0x1000 0))) = 80"
  "con_pos (con (con_init demo_boot (init_tty_state 0x1000 0))) = 0xb8f06" "con_attr (con (con_init demo_boot (init_tty_state 0x1000 0))) = 7"
  using demo_con by (simp_all add: console_idle_def demo_tty_def init_tty_def O_FLAG_def)

theorem printk_shows_witness:
  "\<exists>s'. printk demo_image ''pid %d'' [42] (con_init demo_boot (init_tty_state 0x1000 0)) = Some (Write_returned 6, s')
    \<and> vram (con s') 0xb8f06 = 0x770"
proof -
  let ?s = "con_init demo_boot (init_tty_state 0x1000 0)"
  have "\<forall>c\<in>set ''pid 42''. (32 :: nat) \<le> of_char c \<and> of_char c < (127 :: nat)" by simp
  moreover have "t_signal (cur ?s) = 0"
    by (simp add: con_init_def upd_con_def outb_def Let_def init_tty_state_def fs_state.defs tty_state.defs init_fs_def INIT_TASK_def)
  moreover have "unat (con_x (con ?s)) + length ''pid 42'' \<le> unat (video_num_columns (con ?s))" by (simp add: demo_idle)
  ultimately obtain s' where s': "printk demo_image ''pid %d'' [42] ?s = Some (Write_returned (int (length ''pid 42'')), s')"
    "\<forall>i<length ''pid 42''. vram (con s') (con_pos (con ?s) + 2 * of_nat i) = push_bit 8 (ucast (con_attr (con ?s))) OR of_char (''pid 42'' ! i)"
    using printk_shows [OF demo_message _ demo_idle(1)] by blast
  then show ?thesis using s'(2) [rule_format, of 0] by (intro exI [of _ s']) (simp add: demo_idle)
qed

text \<open>A pending signal makes \<open>tty_write\<close> give up before the first character.\<close>

theorem printk_lost_on_signal:
  assumes "vsprintf ((!) args) fmt (kernel_bytes s) = Some (i, out, m)" "0 \<le> i" "t_signal (cur s) \<noteq> 0"
  shows "\<exists>s'. printk im fmt args s = Some (Write_returned 0, s') \<and> con s' = con s \<and> tty_table s' = tty_table s"
  using assms by (auto simp: printk_def tty_write_def tty_write_from_def tty_write_round_def store_bytes_def Let_def)

end
