(* ===== verification/Syscall.thy ===== *)
theory Syscall
  imports Who Exec Read_Write Sys
begin

text \<open>
  System calls from end to end: the stubs of the user library (\<open>lib/\<close> and the \<open>_syscall\<close> macros of
  \<open>include/unistd.h\<close>), the entry \<open>system_call\<close> and the return path \<open>ret_from_sys_call\<close>
  (\<open>kernel/system_call.s\<close>), and the table of \<open>include/linux/sys.h\<close> with the routines of the other theories.

  A call that gives up the processor ends in \<open>Blocked\<close>, with the state in which the next task runs; the rest of its
  work is described where the call is defined. Reading or writing a terminal or a pipe that is not ready is
  \<open>None\<close> here (\<open>Tty\<close> and \<open>Pipe\<close> have the details).
\<close>

section \<open>The table\<close>

datatype (plugins only: ) kernel_call =
    Sys_setup | Sys_exit | Sys_fork | Sys_read | Sys_write | Sys_open | Sys_close | Sys_waitpid | Sys_creat |
    Sys_link | Sys_unlink | Sys_execve | Sys_chdir | Sys_time | Sys_mknod | Sys_chmod | Sys_chown | Sys_break |
    Sys_stat | Sys_lseek | Sys_getpid | Sys_mount | Sys_umount | Sys_setuid | Sys_getuid | Sys_stime | Sys_ptrace
    | Sys_alarm | Sys_fstat | Sys_pause | Sys_utime | Sys_stty | Sys_gtty | Sys_access | Sys_nice | Sys_ftime |
    Sys_sync | Sys_kill | Sys_rename | Sys_mkdir | Sys_rmdir | Sys_dup | Sys_pipe | Sys_times | Sys_prof | Sys_brk
    | Sys_setgid | Sys_getgid | Sys_signal | Sys_geteuid | Sys_getegid | Sys_acct | Sys_phys | Sys_lock |
    Sys_ioctl | Sys_fcntl | Sys_mpx | Sys_setpgid | Sys_ulimit | Sys_uname | Sys_umask | Sys_chroot | Sys_ustat |
    Sys_dup2 | Sys_getppid | Sys_getpgrp | Sys_setsid | Sys_sigaction | Sys_sgetmask | Sys_ssetmask | Sys_setreuid
    | Sys_setregid | Sys_iam | Sys_whoami

definition sys_call_table :: "kernel_call list" where
  "sys_call_table = [Sys_setup, Sys_exit, Sys_fork, Sys_read, Sys_write, Sys_open, Sys_close, Sys_waitpid, Sys_creat,
     Sys_link, Sys_unlink, Sys_execve, Sys_chdir, Sys_time, Sys_mknod, Sys_chmod, Sys_chown, Sys_break,
     Sys_stat, Sys_lseek, Sys_getpid, Sys_mount, Sys_umount, Sys_setuid, Sys_getuid, Sys_stime, Sys_ptrace,
     Sys_alarm, Sys_fstat, Sys_pause, Sys_utime, Sys_stty, Sys_gtty, Sys_access, Sys_nice, Sys_ftime,
     Sys_sync, Sys_kill, Sys_rename, Sys_mkdir, Sys_rmdir, Sys_dup, Sys_pipe, Sys_times, Sys_prof, Sys_brk,
     Sys_setgid, Sys_getgid, Sys_signal, Sys_geteuid, Sys_getegid, Sys_acct, Sys_phys, Sys_lock, Sys_ioctl,
     Sys_fcntl, Sys_mpx, Sys_setpgid, Sys_ulimit, Sys_uname, Sys_umask, Sys_chroot, Sys_ustat, Sys_dup2,
     Sys_getppid, Sys_getpgrp, Sys_setsid, Sys_sigaction, Sys_sgetmask, Sys_ssetmask, Sys_setreuid,
     Sys_setregid, Sys_iam, Sys_whoami]"

text \<open>The numbers of \<open>unistd.h\<close>; that of \<open>getpgrp\<close> is written \<open>65c\<close>, which is no number.\<close>

primrec NR :: "kernel_call \<Rightarrow> nat option" where
  "NR Sys_setup = Some 0"
| "NR Sys_exit = Some 1"
| "NR Sys_fork = Some 2"
| "NR Sys_read = Some 3"
| "NR Sys_write = Some 4"
| "NR Sys_open = Some 5"
| "NR Sys_close = Some 6"
| "NR Sys_waitpid = Some 7"
| "NR Sys_creat = Some 8"
| "NR Sys_link = Some 9"
| "NR Sys_unlink = Some 10"
| "NR Sys_execve = Some 11"
| "NR Sys_chdir = Some 12"
| "NR Sys_time = Some 13"
| "NR Sys_mknod = Some 14"
| "NR Sys_chmod = Some 15"
| "NR Sys_chown = Some 16"
| "NR Sys_break = Some 17"
| "NR Sys_stat = Some 18"
| "NR Sys_lseek = Some 19"
| "NR Sys_getpid = Some 20"
| "NR Sys_mount = Some 21"
| "NR Sys_umount = Some 22"
| "NR Sys_setuid = Some 23"
| "NR Sys_getuid = Some 24"
| "NR Sys_stime = Some 25"
| "NR Sys_ptrace = Some 26"
| "NR Sys_alarm = Some 27"
| "NR Sys_fstat = Some 28"
| "NR Sys_pause = Some 29"
| "NR Sys_utime = Some 30"
| "NR Sys_stty = Some 31"
| "NR Sys_gtty = Some 32"
| "NR Sys_access = Some 33"
| "NR Sys_nice = Some 34"
| "NR Sys_ftime = Some 35"
| "NR Sys_sync = Some 36"
| "NR Sys_kill = Some 37"
| "NR Sys_rename = Some 38"
| "NR Sys_mkdir = Some 39"
| "NR Sys_rmdir = Some 40"
| "NR Sys_dup = Some 41"
| "NR Sys_pipe = Some 42"
| "NR Sys_times = Some 43"
| "NR Sys_prof = Some 44"
| "NR Sys_brk = Some 45"
| "NR Sys_setgid = Some 46"
| "NR Sys_getgid = Some 47"
| "NR Sys_signal = Some 48"
| "NR Sys_geteuid = Some 49"
| "NR Sys_getegid = Some 50"
| "NR Sys_acct = Some 51"
| "NR Sys_phys = Some 52"
| "NR Sys_lock = Some 53"
| "NR Sys_ioctl = Some 54"
| "NR Sys_fcntl = Some 55"
| "NR Sys_mpx = Some 56"
| "NR Sys_setpgid = Some 57"
| "NR Sys_ulimit = Some 58"
| "NR Sys_uname = Some 59"
| "NR Sys_umask = Some 60"
| "NR Sys_chroot = Some 61"
| "NR Sys_ustat = Some 62"
| "NR Sys_dup2 = Some 63"
| "NR Sys_getppid = Some 64"
| "NR Sys_getpgrp = None"
| "NR Sys_setsid = Some 66"
| "NR Sys_sigaction = Some 67"
| "NR Sys_sgetmask = Some 68"
| "NR Sys_ssetmask = Some 69"
| "NR Sys_setreuid = Some 70"
| "NR Sys_setregid = Some 71"
| "NR Sys_iam = Some 72"
| "NR Sys_whoami = Some 73"

section \<open>The routines behind the table\<close>

text \<open>What the calls take from outside: the key pressed in \<open>mount_root\<close>, padding of structures on the stack, and where the linker has
  put things.\<close>

record 's call_env =
  env_keypress :: "'s \<Rightarrow> 's option"
  env_stat_pad :: bytes
  env_termio_pad :: u8
  env_image :: kernel_image

type_synonym 's call_result = "(int option \<times> regs \<times> 's) option"

definition returns :: "regs \<Rightarrow> (int \<times> 's) option \<Rightarrow> 's call_result" where
  "returns r x = map_option (\<lambda>(v, s). (Some v, r, s)) x"

text \<open>\<open>rw_ttyx\<close>: the terminal of a minor number.\<close>

definition tty_call :: "int \<Rightarrow> int \<Rightarrow> u32 \<Rightarrow> int \<Rightarrow> 'a tty_state_scheme \<Rightarrow> (int \<times> 'a tty_state_scheme) option" where
  "tty_call rw minor buf count s =
     (if rw = READ then do {
        (w, s) \<leftarrow> tty_read (word_of_int minor) buf count s;
        case w of Read_returned n \<Rightarrow> Some (n, s) | Read_sleeps _ \<Rightarrow> None | Read_spins _ \<Rightarrow> None }
      else do {
        (w, s) \<leftarrow> tty_write (word_of_int minor) buf count s;
        case w of Write_returned n \<Rightarrow> Some (n, s) | Write_full _ _ _ \<Rightarrow> None | Write_yields _ _ _ \<Rightarrow> None })"

definition wait_call :: "regs \<Rightarrow> (wait_result \<times> 's) option \<Rightarrow> 's call_result" where
  "wait_call r x = map_option (\<lambda>(w, s). (case w of Wait_returned v \<Rightarrow> Some v | Wait_reaped _ _ \<Rightarrow> None | Wait_sleeps \<Rightarrow> None, r, s)) x"

text \<open>\<open>sys_execve\<close> passes the address of \<open>eip\<close> in the frame, behind which \<open>cs\<close>, \<open>eflags\<close> and \<open>esp\<close> lie.\<close>

definition execve_call :: "regs \<Rightarrow> 'a fs_state_scheme \<Rightarrow> 'a fs_state_scheme call_result" where
  "execve_call r s = do {
     ((v, eip), s) \<leftarrow> do_execve (\<lambda>k. [r_eip r, r_cs r, r_eflags r, r_esp r, r_ss r] ! k) (r_ebx r) (r_ecx r) (r_edx r) s;
     Some (Some v, r\<lparr>r_eip := eip 0, r_esp := eip 3\<rparr>, s) }"

primrec call_handler ::
  "kernel_call \<Rightarrow> 'a kernel_state_scheme call_env \<Rightarrow> regs \<Rightarrow> 'a kernel_state_scheme \<Rightarrow> 'a kernel_state_scheme call_result" where
  "call_handler Sys_setup e r s = returns r (sys_setup (env_keypress e) (r_ebx r) s)"
| "call_handler Sys_exit e r s = do { s \<leftarrow> sys_exit (sint (r_ebx r)) s; Some (None, r, s) }"
| "call_handler Sys_fork e r s = returns r (sys_fork r s)"
| "call_handler Sys_read e r s = returns r (sys_read tty_call (r_ebx r) (r_ecx r) (sint (r_edx r)) s)"
| "call_handler Sys_write e r s = returns r (sys_write tty_call (r_ebx r) (r_ecx r) (sint (r_edx r)) s)"
| "call_handler Sys_open e r s = returns r (sys_open (r_ebx r) (r_ecx r) (r_edx r) s)"
| "call_handler Sys_close e r s = returns r (sys_close (r_ebx r) s)"
| "call_handler Sys_waitpid e r s = wait_call r (sys_waitpid (sint (r_ebx r)) (r_ecx r) (r_edx r) s)"
| "call_handler Sys_creat e r s = returns r (sys_creat (r_ebx r) (r_ecx r) s)"
| "call_handler Sys_link e r s = returns r (sys_link (r_ebx r) (r_ecx r) s)"
| "call_handler Sys_unlink e r s = returns r (sys_unlink (r_ebx r) s)"
| "call_handler Sys_execve e r s = execve_call r s"
| "call_handler Sys_chdir e r s = returns r (sys_chdir (r_ebx r) s)"
| "call_handler Sys_time e r s = returns r (sys_time (r_ebx r) s)"
| "call_handler Sys_mknod e r s = returns r (sys_mknod (r_ebx r) (r_ecx r) (sint (r_edx r)) s)"
| "call_handler Sys_chmod e r s = returns r (sys_chmod (r_ebx r) (r_ecx r) s)"
| "call_handler Sys_chown e r s = returns r (sys_chown (r_ebx r) (sint (r_ecx r)) (sint (r_edx r)) s)"
| "call_handler Sys_break e r s = returns r (Some (sys_break, s))"
| "call_handler Sys_stat e r s = returns r (sys_stat (env_stat_pad e) (r_ebx r) (r_ecx r) s)"
| "call_handler Sys_lseek e r s = returns r (Some (sys_lseek (r_ebx r) (sint (r_ecx r)) (sint (r_edx r)) s))"
| "call_handler Sys_getpid e r s = returns r (Some (sys_getpid s, s))"
| "call_handler Sys_mount e r s = returns r (sys_mount (r_ebx r) (r_ecx r) (sint (r_edx r)) s)"
| "call_handler Sys_umount e r s = returns r (sys_umount (r_ebx r) s)"
| "call_handler Sys_setuid e r s = returns r (Some (sys_setuid (sint (r_ebx r)) s))"
| "call_handler Sys_getuid e r s = returns r (Some (sys_getuid s, s))"
| "call_handler Sys_stime e r s = returns r (Some (sys_stime (r_ebx r) s))"
| "call_handler Sys_ptrace e r s = returns r (Some (sys_ptrace, s))"
| "call_handler Sys_alarm e r s = returns r (Some (sys_alarm (sint (r_ebx r)) s))"
| "call_handler Sys_fstat e r s = returns r (sys_fstat (env_stat_pad e) (r_ebx r) (r_ecx r) s)"
| "call_handler Sys_pause e r s = do { (_, s) \<leftarrow> sys_pause s; Some (None, r, s) }"
| "call_handler Sys_utime e r s = returns r (sys_utime (r_ebx r) (r_ecx r) s)"
| "call_handler Sys_stty e r s = returns r (Some (sys_stty, s))"
| "call_handler Sys_gtty e r s = returns r (Some (sys_gtty, s))"
| "call_handler Sys_access e r s = returns r (sys_access (r_ebx r) (r_ecx r) s)"
| "call_handler Sys_nice e r s = returns r (Some (sys_nice (sint (r_ebx r)) s))"
| "call_handler Sys_ftime e r s = returns r (Some (sys_ftime, s))"
| "call_handler Sys_sync e r s = returns r (sys_sync s)"
| "call_handler Sys_kill e r s = returns r (Some (sys_kill (sint (r_ebx r)) (sint (r_ecx r)) s))"
| "call_handler Sys_rename e r s = returns r (Some (sys_rename, s))"
| "call_handler Sys_mkdir e r s = returns r (sys_mkdir (r_ebx r) (r_ecx r) s)"
| "call_handler Sys_rmdir e r s = returns r (sys_rmdir (r_ebx r) s)"
| "call_handler Sys_dup e r s = returns r (Some (sys_dup (r_ebx r) s))"
| "call_handler Sys_pipe e r s = returns r (sys_pipe (r_ebx r) s)"
| "call_handler Sys_times e r s = returns r (sys_times (r_ebx r) s)"
| "call_handler Sys_prof e r s = returns r (Some (sys_prof, s))"
| "call_handler Sys_brk e r s = returns r (Some (sys_brk (r_ebx r) s))"
| "call_handler Sys_setgid e r s = returns r (Some (sys_setgid (sint (r_ebx r)) s))"
| "call_handler Sys_getgid e r s = returns r (Some (sys_getgid s, s))"
| "call_handler Sys_signal e r s = returns r (Some (sys_signal (sint (r_ebx r)) (r_ecx r) (r_edx r) s))"
| "call_handler Sys_geteuid e r s = returns r (Some (sys_geteuid s, s))"
| "call_handler Sys_getegid e r s = returns r (Some (sys_getegid s, s))"
| "call_handler Sys_acct e r s = returns r (Some (sys_acct, s))"
| "call_handler Sys_phys e r s = returns r (Some (sys_phys, s))"
| "call_handler Sys_lock e r s = returns r (Some (sys_lock, s))"
| "call_handler Sys_ioctl e r s = returns r (sys_ioctl (tty_ioctl (env_termio_pad e)) (r_ebx r) (r_ecx r) (r_edx r) s)"
| "call_handler Sys_fcntl e r s = returns r (Some (sys_fcntl (r_ebx r) (r_ecx r) (r_edx r) s))"
| "call_handler Sys_mpx e r s = returns r (Some (sys_mpx, s))"
| "call_handler Sys_setpgid e r s = returns r (Some (sys_setpgid (sint (r_ebx r)) (sint (r_ecx r)) s))"
| "call_handler Sys_ulimit e r s = returns r (Some (sys_ulimit, s))"
| "call_handler Sys_uname e r s = returns r (sys_uname (r_ebx r) s)"
| "call_handler Sys_umask e r s = returns r (Some (sys_umask (sint (r_ebx r)) s))"
| "call_handler Sys_chroot e r s = returns r (sys_chroot (r_ebx r) s)"
| "call_handler Sys_ustat e r s = returns r (Some (sys_ustat, s))"
| "call_handler Sys_dup2 e r s = returns r (sys_dup2 (r_ebx r) (r_ecx r) s)"
| "call_handler Sys_getppid e r s = returns r (Some (sys_getppid s, s))"
| "call_handler Sys_getpgrp e r s = returns r (Some (sys_getpgrp s, s))"
| "call_handler Sys_setsid e r s = returns r (Some (sys_setsid s))"
| "call_handler Sys_sigaction e r s = returns r (sys_sigaction (sint (r_ebx r)) (r_ecx r) (r_edx r) s)"
| "call_handler Sys_sgetmask e r s = returns r (Some (sys_sgetmask s, s))"
| "call_handler Sys_ssetmask e r s = returns r (Some (sys_ssetmask (sint (r_ebx r)) s))"
| "call_handler Sys_setreuid e r s = returns r (Some (sys_setreuid (sint (r_ebx r)) (sint (r_ecx r)) s))"
| "call_handler Sys_setregid e r s = returns r (Some (sys_setregid (sint (r_ebx r)) (sint (r_ecx r)) s))"
| "call_handler Sys_iam e r s = do {
     (v, m, s) \<leftarrow> sys_iam (env_image e) (r_ebx r) (who_msg s) s;
     returns r (Some (v, s\<lparr>who_msg := m\<rparr>)) }"
| "call_handler Sys_whoami e r s = returns r (sys_whoami (env_image e) (r_ebx r) (r_ecx r) (who_msg s) s)"

section \<open>Entry and return\<close>

text \<open>\<open>Back\<close>: the task continues in user mode with this \<open>eax\<close> and these registers. \<open>Rescheduled\<close>: it was preempted
  in \<open>reschedule\<close> and goes on in \<open>ret_from_sys_call\<close> when it runs again.\<close>

datatype call_outcome = Back u32 regs | Rescheduled u32 regs | Blocked | Ended

text \<open>\<open>bsfl\<close>.\<close>

definition lowest_bit :: "u32 \<Rightarrow> nat" where
  "lowest_bit w = length (takeWhile (\<lambda>k. \<not> bit w k) [0..<32])"

definition ret_from_sys_call :: "u32 \<Rightarrow> regs \<Rightarrow> 'a fs_state_scheme \<Rightarrow> (call_outcome \<times> 'a fs_state_scheme) option" where
  "ret_from_sys_call eax r s =
     (if current s = task s 0 \<or> r_cs r AND 0xffff \<noteq> 0x0f \<or> r_ss r AND 0xffff \<noteq> 0x17 then Some (Back eax r, s)
      else
        let sig = t_signal (cur s) AND NOT (t_blocked (cur s)) in
        if sig = 0 then Some (Back eax r, s)
        else
          let n = lowest_bit sig;
              s = upd_task (current s) (\<lambda>t. t\<lparr>t_signal := unset_bit n (t_signal t)\<rparr>) s
          in do {
            (w, s) \<leftarrow> do_signal (int n + 1) eax (r_ecx r) (r_edx r) (r_eip r) (r_eflags r) (r_esp r) s;
            Some (case w of Delivered eip esp \<Rightarrow> (Back eax (r\<lparr>r_eip := eip, r_esp := esp\<rparr>), s) | Killed \<Rightarrow> (Ended, s)) })"

definition system_call ::
  "'a kernel_state_scheme call_env \<Rightarrow> u32 \<Rightarrow> regs \<Rightarrow> 'a kernel_state_scheme \<Rightarrow> (call_outcome \<times> 'a kernel_state_scheme) option" where
  "system_call e eax r s =
     (if eax > 74 - 1 then Some (Back (-1) r, s)
      else do {
        (v, r, s) \<leftarrow> call_handler (sys_call_table ! unat eax) e r s;
        case v of
          None \<Rightarrow> Some (Blocked, s)
        | Some v \<Rightarrow>
            let eax = word_of_int v in
            if t_state (cur s) \<noteq> 0 \<or> t_counter (cur s) = 0 then do { s \<leftarrow> schedule s; Some (Rescheduled eax r, s) }
            else ret_from_sys_call eax r s })"

section \<open>The user library\<close>

text \<open>The end of every stub: a negative result becomes \<open>-1\<close> and \<open>errno\<close>.\<close>

definition syscall_return :: "u32 \<Rightarrow> int \<Rightarrow> int \<times> int" where
  "syscall_return res errno = (if sint res \<ge> 0 then (sint res, errno) else (-1, i32 (- sint res)))"

text \<open>\<open>int $0x80\<close> with the number in \<open>eax\<close>. The registers \<open>r\<close> are those of the program at the call.\<close>

definition int80 ::
  "'a kernel_state_scheme call_env \<Rightarrow> u32 \<Rightarrow> regs \<Rightarrow> int \<Rightarrow> 'a kernel_state_scheme \<Rightarrow> ((int \<times> int) \<times> 'a kernel_state_scheme) option" where
  "int80 e eax r errno s = do {
     (w, s) \<leftarrow> system_call e eax r s;
     case w of Back res _ \<Rightarrow> Some (syscall_return res errno, s) | Rescheduled _ _ \<Rightarrow> None | Blocked \<Rightarrow> None | Ended \<Rightarrow> None }"

type_synonym 's stub = "'s call_env \<Rightarrow> regs \<Rightarrow> int \<Rightarrow> 's \<Rightarrow> ((int \<times> int) \<times> 's) option"

definition syscall0 :: "u32 \<Rightarrow> 'a kernel_state_scheme stub" where
  "syscall0 n e r errno s = int80 e n r errno s"
definition syscall1 :: "u32 \<Rightarrow> u32 \<Rightarrow> 'a kernel_state_scheme stub" where
  "syscall1 n a e r errno s = int80 e n (r\<lparr>r_ebx := a\<rparr>) errno s"
definition syscall2 :: "u32 \<Rightarrow> u32 \<Rightarrow> u32 \<Rightarrow> 'a kernel_state_scheme stub" where
  "syscall2 n a b e r errno s = int80 e n (r\<lparr>r_ebx := a, r_ecx := b\<rparr>) errno s"
definition syscall3 :: "u32 \<Rightarrow> u32 \<Rightarrow> u32 \<Rightarrow> u32 \<Rightarrow> 'a kernel_state_scheme stub" where
  "syscall3 n a b c e r errno s = int80 e n (r\<lparr>r_ebx := a, r_ecx := b, r_edx := c\<rparr>) errno s"

text \<open>\<open>lib/open.c\<close> passes the variadic \<open>mode\<close> whether or not it was given.\<close>

definition lib_open :: "u32 \<Rightarrow> u32 \<Rightarrow> u32 \<Rightarrow> 'a kernel_state_scheme stub" where
  "lib_open filename flag mode e r errno s =
     (do { (w, s) \<leftarrow> system_call e 5 (r\<lparr>r_ebx := filename, r_ecx := flag, r_edx := mode\<rparr>) s;
           case w of Back res _ \<Rightarrow> Some (if sint res \<ge> 0 then (sint res, errno) else (-1, i32 (- sint res)), s)
           | Rescheduled _ _ \<Rightarrow> None | Blocked \<Rightarrow> None | Ended \<Rightarrow> None })"
definition lib_write :: "u32 \<Rightarrow> u32 \<Rightarrow> u32 \<Rightarrow> 'a kernel_state_scheme stub" where
  "lib_write fd buf count = syscall3 4 fd buf count"
definition lib_close :: "u32 \<Rightarrow> 'a kernel_state_scheme stub" where
  "lib_close fd = syscall1 6 fd"
definition lib_dup :: "u32 \<Rightarrow> 'a kernel_state_scheme stub" where
  "lib_dup fd = syscall1 41 fd"
definition lib_execve :: "u32 \<Rightarrow> u32 \<Rightarrow> u32 \<Rightarrow> 'a kernel_state_scheme stub" where
  "lib_execve file argv envp = syscall3 11 file argv envp"
definition lib_waitpid :: "u32 \<Rightarrow> u32 \<Rightarrow> u32 \<Rightarrow> 'a kernel_state_scheme stub" where
  "lib_waitpid pid wait_stat options = syscall3 7 pid wait_stat options"
definition lib_wait :: "u32 \<Rightarrow> 'a kernel_state_scheme stub" where
  "lib_wait wait_stat = lib_waitpid (-1) wait_stat 0"
definition lib_setsid :: "'a kernel_state_scheme stub" where
  "lib_setsid = syscall0 66"

text \<open>\<open>_exit\<close> is the trap alone.\<close>

definition lib_exit ::
  "u32 \<Rightarrow> 'a kernel_state_scheme call_env \<Rightarrow> regs \<Rightarrow> 'a kernel_state_scheme \<Rightarrow> (call_outcome \<times> 'a kernel_state_scheme) option" where
  "lib_exit exit_code e r s = system_call e 1 (r\<lparr>r_ebx := exit_code\<rparr>) s"

end
