(* ===== verification/Calls.thy ===== *)
theory Calls
  imports Syscall
begin

text \<open>
  What a program sees of a system call: the library calls the routine it is named after, an unknown number is
  refused, and a pending signal is delivered on the way back.
\<close>

section \<open>Numbers and table\<close>

lemma NR_table: "NR f = Some n \<Longrightarrow> n < 74 \<and> sys_call_table ! n = f"
  by (cases f) (auto simp: sys_call_table_def)

lemma table_complete: "length sys_call_table = 74"
  by (simp add: sys_call_table_def)

section \<open>The way back\<close>

lemma back_undisturbed:
  "t_signal (cur s) AND NOT (t_blocked (cur s)) = 0 \<Longrightarrow> ret_from_sys_call eax r s = Some (Back eax r, s)"
  by (simp add: ret_from_sys_call_def)

text \<open>C34: The stub of a call runs the routine of that name (the numbers of \<open>unistd.h\<close> agree with the table of \<open>sys.h\<close>), and
  returns its result, or -1 with the negated result in \<open>errno\<close>, when nothing else is pending.\<close>

theorem library_call:
  assumes "NR f = Some n"
    and "call_handler f e (r\<lparr>r_ebx := a, r_ecx := b, r_edx := c\<rparr>) s = Some (Some v, r', s')"
    and "t_state (cur s') = 0" "t_counter (cur s') \<noteq> 0" "t_signal (cur s') AND NOT (t_blocked (cur s')) = 0"
    and "- 2147483648 < v" "v < 2147483648"
  shows "syscall3 (of_nat n) a b c e r errno s = Some (if v < 0 then (-1, - v) else (v, errno), s')"
proof -
  have n: "n < 74" "sys_call_table ! n = f" using NR_table [OF assms(1)] by simp_all
  then have e: "\<not> (of_nat n :: u32) > 74 - 1" "unat (of_nat n :: u32) = n"
    by (simp_all add: word_less_nat_alt unat_of_nat take_bit_nat_eq_self)
  have "sint (word_of_int v :: u32) = v" using assms(6,7) by (simp add: signed_of_int signed_take_bit_int_eq_self)
  moreover have "i32 (- v) = - v" using assms(6,7) by (simp add: i32_def signed_take_bit_int_eq_self)
  ultimately have "syscall_return (word_of_int v) errno = (if v < 0 then (-1, - v) else (v, errno))"
    by (simp add: syscall_return_def)
  moreover have "system_call e (of_nat n) (r\<lparr>r_ebx := a, r_ecx := b, r_edx := c\<rparr>) s = Some (Back (word_of_int v) r', s')"
    unfolding system_call_def using e(1) by (simp only: if_False e n(2) assms(2)) (simp add: assms(3,4) back_undisturbed [OF assms(5)])
  ultimately show ?thesis by (simp add: syscall3_def int80_def)
qed

text \<open>C35: A number outside the table is refused before anything is touched; the program sees -1 and
  \<open>EPERM\<close>, where other missing calls give \<open>ENOSYS\<close>.\<close>

theorem unknown_call_refused:
  assumes "74 \<le> eax"
  shows "int80 e eax r errno s = Some ((-1, EPERM), s)"
proof -
  have "eax > 74 - 1" using assms by (simp add: word_less_nat_alt word_le_nat_alt)
  then show ?thesis by (simp add: int80_def system_call_def syscall_return_def i32_def)
qed

section \<open>Signals\<close>

lemma lowest_bit_spec:
  assumes "w \<noteq> 0"
  shows "lowest_bit w < 32 \<and> bit w (lowest_bit w) \<and> (\<forall>k<lowest_bit w. \<not> bit w k)"
proof -
  let ?t = "takeWhile (\<lambda>k. \<not> bit w k) [0..<32]"
  obtain k where k: "k < 32" "bit w k"
    using assms by (auto simp: bit_eq_iff dest: bit_imp_le_length)
  have "length ?t < 32"
  proof (rule ccontr)
    assume "\<not> length ?t < 32"
    then have "?t = [0..<32]" using length_takeWhile_le [of "\<lambda>k. \<not> bit w k" "[0..<32]"]
      by (metis length_upt diff_zero linorder_not_less takeWhile_eq_take take_all)
    then show False using k by (metis atLeastLessThan_iff le0 set_takeWhileD set_upt)
  qed
  moreover from this have "bit w (lowest_bit w)"
    using nth_length_takeWhile [of "\<lambda>k. \<not> bit w k" "[0..<32]"] by (simp add: lowest_bit_def)
  moreover have "\<not> bit w j" if "j < lowest_bit w" for j
  proof -
    have "?t ! j = j" using that using nth_upt [of 0 j 32] length_takeWhile_le [of "\<lambda>k. \<not> bit w k" "[0..<32]"] by (simp add: lowest_bit_def takeWhile_nth)
    then show ?thesis using that nth_mem [of j ?t] set_takeWhileD unfolding lowest_bit_def by metis
  qed
  ultimately show ?thesis by (simp add: lowest_bit_def)
qed

lemma fs_mem_push_longs:
  "4 * length vs \<le> unat (x - a) \<Longrightarrow> 4 * length vs < 4294967296 \<Longrightarrow> fs_mem (push_longs vs a s) x = fs_mem s x"
proof (induction vs arbitrary: a s)
  case (Cons v vs)
  have x: "unat (x - (a + 4)) = unat (x - a) - 4"
  proof -
    have "x - (a + 4) = (x - a) - 4" by simp
    also have "unat \<dots> = unat (x - a) - 4" using Cons.prems by (simp add: unat_sub word_le_nat_alt)
    finally show ?thesis .
  qed
  have "x \<noteq> a + k" if "unat k < 4" for k
    using Cons.prems that by auto
  from this [of 0] this [of 1] this [of 2] this [of 3]
  have "fs_mem (put_fs_long v a s) x = fs_mem s x" by (simp add: put_fs_long_def)
  moreover have "fs_mem (push_longs vs (a + 4) (put_fs_long v a s)) x = fs_mem (put_fs_long v a s) x"
    using Cons.prems by (intro Cons.IH) (simp_all add: x)
  ultimately show ?case by simp
qed simp

lemma get_fs_long_cong:
  "(\<And>k. unat k < 4 \<Longrightarrow> fs_mem s (a + k) = fs_mem s' (a + k)) \<Longrightarrow> get_fs_long a s = get_fs_long a s'"
proof -
  assume *: "\<And>k. unat k < 4 \<Longrightarrow> fs_mem s (a + k) = fs_mem s' (a + k)"
  from *[of 0] *[of 1] *[of 2] *[of 3] show ?thesis by (simp add: get_fs_long_def)
qed

lemma read_pushed:
  "k < length vs \<Longrightarrow> length vs \<le> 1024 \<Longrightarrow> get_fs_long (a + 4 * of_nat k) (push_longs vs a s) = vs ! k"
proof (induction vs arbitrary: a s k)
  case (Cons v vs)
  show ?case
  proof (cases k)
    case 0
    have "fs_mem (push_longs vs (a + 4) (put_fs_long v a s)) (a + j) = fs_mem (put_fs_long v a s) (a + j)" if "unat j < 4" for j
    proof (rule fs_mem_push_longs)
      have "unat (j - 4) = unat j + 4294967296 - 4" using that by (simp add: unat_sub_if' word_size)
      then show "4 * length vs \<le> unat (a + j - (a + 4))" using Cons.prems by simp
    qed (use Cons.prems in simp)
    then have "get_fs_long a (push_longs vs (a + 4) (put_fs_long v a s)) = get_fs_long a (put_fs_long v a s)"
      by (rule get_fs_long_cong)
    then show ?thesis using 0 by simp
  next
    case (Suc j)
    then show ?thesis using Cons.IH [of j "a + 4" "put_fs_long v a s"] Cons.prems by (simp add: add.assoc distrib_left)
  qed
qed simp

lemma push_longs_frame [simp]:
  "tasks (push_longs vs a s) = tasks s" "current (push_longs vs a s) = current s" "task (push_longs vs a s) = task s"
  by (induction vs arbitrary: a s) (simp_all add: put_fs_long_def)

text \<open>\<open>verify_area\<close> looks at memory and at the LDT of the task only.\<close>

lemma get_free_page_tasks:
  "get_free_page (tasks_update g s) = (case get_free_page s of (p, s') \<Rightarrow> (p, tasks_update g s'))"
  by (simp add: get_free_page_def Let_def split: option.splits)

lemma write_verify_tasks:
  "write_verify a (tasks_update g s) = (case write_verify a s of (x, s') \<Rightarrow> (x, tasks_update g s'))"
  by (simp add: write_verify_def un_wp_page_def get_free_page_tasks Let_def split: prod.splits)

lemma verify_pages_tasks:
  "verify_pages sz a (tasks_update g s) = map_option (tasks_update g) (verify_pages sz a s)"
proof (induction sz a s rule: verify_pages.induct)
  case (1 sz a s)
  then show ?case
    by (subst (1 2) verify_pages.simps) (auto simp: write_verify_tasks split: prod.splits fault.splits)
qed

lemma verify_area_task:
  assumes "\<And>t. t_ldt (f t) = t_ldt t"
  shows "verify_area a n (upd_task p f s) = map_option (upd_task p f) (verify_area a n s)"
proof -
  have u: "upd_task p f = tasks_update (\<lambda>T. T(p := f (T p)))" by (rule ext) (simp add: upd_task_def)
  have "t_ldt (cur (tasks_update (\<lambda>T. T(p := f (T p))) s)) = t_ldt (cur s)" using assms by simp
  then show ?thesis unfolding verify_area_def u verify_pages_tasks by simp
qed

lemma get_free_page_frame:
  "tasks (snd (get_free_page s)) = tasks s" "task (snd (get_free_page s)) = task s"
  "current (snd (get_free_page s)) = current s"
  by (simp_all add: get_free_page_def Let_def split: option.splits)

lemma write_verify_frame:
  "tasks (snd (write_verify a s)) = tasks s" "task (snd (write_verify a s)) = task s"
  "current (snd (write_verify a s)) = current s"
  using get_free_page_frame [of s]
  by (cases "get_free_page s"; simp add: write_verify_def un_wp_page_def Let_def)+

lemma verify_pages_frame:
  "verify_pages sz a s = Some s' \<Longrightarrow> tasks s' = tasks s \<and> task s' = task s \<and> current s' = current s"
proof (induction sz a s rule: verify_pages.induct)
  case (1 sz a s)
  from 1(2) show ?case
    by (subst (asm) verify_pages.simps)
      (use 1(1) write_verify_frame [of a s] in \<open>auto split: if_splits prod.splits fault.splits\<close>)
qed

lemma verify_area_frame:
  "verify_area a n s = Some s' \<Longrightarrow> tasks s' = tasks s \<and> task s' = task s \<and> current s' = current s"
  unfolding verify_area_def Let_def by (rule verify_pages_frame)

text \<open>C36: On the way back to a user program the lowest pending signal that is not blocked is delivered to its handler: the
  bit is cleared, the handler starts on a stack that holds what the restorer needs to continue the program, and
  the mask and a one-shot handler are updated. \<open>saved\<close> is what the handler finds on its stack.\<close>

theorem signal_delivered:
  assumes "current s \<noteq> task s 0" "r_cs r AND 0xffff = 0x0f" "r_ss r AND 0xffff = 0x17"
    and "pending = t_signal (cur s) AND NOT (t_blocked (cur s))" "pending \<noteq> 0" "n = lowest_bit pending"
    and "sa = t_sigaction (cur s) n" "sa_handler sa \<noteq> 0" "sa_handler sa \<noteq> 1"
    and "saved = [sa_restorer sa, of_nat (n + 1)] @ (if sa_flags sa AND SA_NOMASK \<noteq> 0 then [] else [t_blocked (cur s)])
           @ [eax, r_ecx r, r_edx r, r_eflags r, r_eip r]"
    and "esp = r_esp r - 4 * of_nat (length saved)"
    and "verify_area esp (int (length saved * 4)) s \<noteq> None"
  shows "\<exists>s'. ret_from_sys_call eax r s = Some (Back eax (r\<lparr>r_eip := sa_handler sa, r_esp := esp\<rparr>), s')
    \<and> bit pending n \<and> (\<forall>k<n. \<not> bit pending k)
    \<and> (\<forall>k<length saved. get_fs_long (esp + 4 * of_nat k) s' = saved ! k)
    \<and> t_signal (cur s') = unset_bit n (t_signal (cur s)) \<and> t_blocked (cur s') = t_blocked (cur s) OR sa_mask sa
    \<and> (sa_flags sa AND SA_ONESHOT \<noteq> 0 \<longrightarrow> sa_handler (t_sigaction (cur s') n) = 0)"
proof -
  define f where "f = (\<lambda>t :: task_struct. t\<lparr>t_signal := unset_bit n (t_signal t),
    t_sigaction := (if sa_flags sa AND SA_ONESHOT \<noteq> 0 then (t_sigaction t)(n := sa\<lparr>sa_handler := 0\<rparr>) else t_sigaction t)\<rparr>)"
  obtain s1 where s1: "verify_area esp (int (length saved * 4)) s = Some s1" using assms(12) by blast
  note fr = verify_area_frame [OF s1]
  let ?u = "upd_task (current s) f"
  let ?s0 = "upd_task (current s) (\<lambda>t. t\<lparr>t_signal := unset_bit n (t_signal t)\<rparr>) s"
  have cs: "(if sa_flags sa AND SA_ONESHOT \<noteq> 0 then set_sigaction n (sa\<lparr>sa_handler := 0\<rparr>) ?s0 else ?s0) = ?u s"
    by (simp add: set_sigaction_def upd_task_def f_def)
  have v: "verify_area esp (int (length saved * 4)) (?u s) = Some (?u s1)"
    using verify_area_task [of f esp "int (length saved * 4)" "current s" s] s1 by (simp add: f_def)
  have len: "length saved = (if sa_flags sa AND SA_NOMASK \<noteq> 0 then 7 else 8)" using assms(10) by simp
  let ?s2 = "push_longs saved esp (?u s1)"
  let ?s3 = "upd_task (current s) (\<lambda>t. t\<lparr>t_blocked := t_blocked t OR sa_mask sa\<rparr>) ?s2"
  have n: "nat (int n + 1) - 1 = n" by simp
  have b: "t_blocked (tasks (?u s1) (current s)) = t_blocked (cur s)" "current (?u s1) = current s"
    using fr by (simp_all add: f_def)
  have sg: "t_sigaction (cur ?s0) n = sa" using assms(7) by simp
  have sv: "saved = [sa_restorer sa, word_of_int (int n + 1)] @ (if sa_flags sa AND SA_NOMASK \<noteq> 0 then [] else [t_blocked (cur s)])
           @ [eax, r_ecx r, r_edx r, r_eflags r, r_eip r]"
    using assms(10) by simp
  have d: "do_signal (int n + 1) eax (r_ecx r) (r_edx r) (r_eip r) (r_eflags r) (r_esp r) ?s0 = Some (Delivered (sa_handler sa) esp, ?s3)"
    unfolding do_signal_def Let_def n sg cs len [symmetric] assms(11) [symmetric] v
    by (simp only: assms(8,9) if_False bind.simps b push_longs_frame sv [symmetric])
  have "ret_from_sys_call eax r s = Some (Back eax (r\<lparr>r_eip := sa_handler sa, r_esp := esp\<rparr>), ?s3)"
    unfolding ret_from_sys_call_def Let_def using assms(1-6) d by simp
  moreover have "\<forall>k<length saved. get_fs_long (esp + 4 * of_nat k) ?s3 = saved ! k"
    using read_pushed [of _ saved esp "?u s1"] len by (simp add: get_fs_long_def)
  ultimately show ?thesis
    using lowest_bit_spec [OF assms(5)] assms(6) fr by (intro exI [of _ ?s3]) (simp add: f_def)
qed

section \<open>Examples\<close>

definition demo_env :: "kernel_state call_env" where
  "demo_env = \<lparr>env_keypress = Some, env_stat_pad = (\<lambda>_. 0), env_termio_pad = 0,
     env_image = \<lparr>printk_buf = 0x20000, literal = (\<lambda>_. 0), entry_addr = (\<lambda>_. 0)\<rparr>\<rparr>"

definition demo_regs :: regs where
  "demo_regs = \<lparr>r_ebp = 0, r_edi = 0, r_esi = 0, r_gs = 0x17, r_ebx = 0, r_ecx = 0, r_edx = 0, r_fs = 0x17, r_es = 0x17,
     r_ds = 0x17, r_eip = 0x1000, r_cs = 0x0f, r_eflags = 0x202, r_esp = 0x3000, r_ss = 0x17\<rparr>"

lemma init_kernel_task: "t_state (cur (init_kernel a b)) = 0" "t_counter (cur (init_kernel a b)) = 15"
  "t_signal (cur (init_kernel a b)) = 0" "phys (init_kernel a b) = (\<lambda>_. 0)" "t_blocked (cur (init_kernel a b)) = 0"
  by (simp_all add: init_kernel_simps INIT_TASK_def)

text \<open>\<open>ftime\<close>, which is not implemented.\<close>

theorem library_call_witness:
  "syscall3 35 0 0 0 demo_env demo_regs 0 (init_kernel 0x1000 0) = Some ((-1, ENOSYS), init_kernel 0x1000 0)"
proof -
  have "call_handler Sys_ftime demo_env (demo_regs\<lparr>r_ebx := 0, r_ecx := 0, r_edx := 0\<rparr>) (init_kernel 0x1000 0)
      = Some (Some (- ENOSYS), demo_regs\<lparr>r_ebx := 0, r_ecx := 0, r_edx := 0\<rparr>, init_kernel 0x1000 0)"
    by (simp add: returns_def sys_ftime_def)
  from library_call [OF NR.simps(36) this, of 0] show ?thesis by (simp add: init_kernel_task)
qed

theorem unknown_call_refused_witness:
  "int80 demo_env 100 demo_regs 0 (init_kernel 0x1000 0) = Some ((-1, EPERM), init_kernel 0x1000 0)"
  by (rule unknown_call_refused) simp

text \<open>A task with a handler for the interrupt key's signal.\<close>

definition interrupted :: kernel_state where
  "interrupted = (let s = init_kernel 0x1000 0 in s\<lparr>task := (\<lambda>_. 0x2000), tasks := (\<lambda>_. (INIT_TASK 0x1000)\<lparr>t_signal := 2,
     t_sigaction := (\<lambda>_. \<lparr>sa_handler = 0x1234, sa_mask = 0, sa_flags = 0, sa_restorer = 0x5678\<rparr>)\<rparr>)\<rparr>)"

lemma verify_unmapped: "phys s = (\<lambda>_. 0) \<Longrightarrow> verify_area a n s = Some s"
proof -
  assume p: "phys s = (\<lambda>_. 0)"
  have "verify_pages sz a s = Some s" for sz a
  proof (induction "nat sz" arbitrary: sz a rule: less_induct)
    case less
    then show ?case by (subst verify_pages.simps) (simp add: write_verify_def p)
  qed
  then show ?thesis by (simp add: verify_area_def)
qed

theorem signal_delivered_witness:
  "\<exists>s'. ret_from_sys_call 7 demo_regs interrupted = Some (Back 7 (demo_regs\<lparr>r_eip := 0x1234, r_esp := 0x2fe0\<rparr>), s')
    \<and> get_fs_long 0x2fe0 s' = 0x5678 \<and> get_fs_long 0x2fe4 s' = 2 \<and> get_fs_long 0x2ffc s' = 0x1000"
proof -
  let ?sa = "\<lparr>sa_handler = 0x1234, sa_mask = 0, sa_flags = 0, sa_restorer = 0x5678\<rparr>"
  let ?saved = "[0x5678, of_nat (1 + 1)] @ (if sa_flags ?sa AND SA_NOMASK \<noteq> 0 then [] else [0]) @ [7, 0, 0, 0x202, 0x1000] :: u32 list"
  have t: "cur interrupted = (INIT_TASK 0x1000)\<lparr>t_signal := 2, t_sigaction := (\<lambda>_. ?sa)\<rparr>" "current interrupted = 0x1000"
    "task interrupted 0 = 0x2000" "phys interrupted = (\<lambda>_. 0)"
    by (simp_all add: interrupted_def Let_def init_kernel_simps)
  then have c: "tasks interrupted 0x1000 = (INIT_TASK 0x1000)\<lparr>t_signal := 2, t_sigaction := (\<lambda>_. ?sa)\<rparr>" by simp
  have "lowest_bit 2 = 1" by (simp add: lowest_bit_def upt_conv_Cons)
  then have h: "current interrupted \<noteq> task interrupted 0" "r_cs demo_regs AND 0xffff = 0x0f" "r_ss demo_regs AND 0xffff = 0x17"
    "2 = t_signal (cur interrupted) AND NOT (t_blocked (cur interrupted))" "(2 :: u32) \<noteq> 0" "1 = lowest_bit 2"
    "?sa = t_sigaction (cur interrupted) 1" "sa_handler ?sa \<noteq> 0" "sa_handler ?sa \<noteq> 1"
    by (simp_all add: t c demo_regs_def INIT_TASK_def)
  have sv: "?saved = [sa_restorer ?sa, of_nat (1 + 1)] @ (if sa_flags ?sa AND SA_NOMASK \<noteq> 0 then [] else [t_blocked (cur interrupted)])
      @ [7, r_ecx demo_regs, r_edx demo_regs, r_eflags demo_regs, r_eip demo_regs]"
    by (simp add: t c demo_regs_def INIT_TASK_def)
  have "(0x2fe0 :: u32) = r_esp demo_regs - 4 * of_nat (length ?saved)" by (simp add: demo_regs_def)
  from signal_delivered [OF h sv this] verify_unmapped [OF t(4)]
  obtain s' where s': "ret_from_sys_call 7 demo_regs interrupted = Some (Back 7 (demo_regs\<lparr>r_eip := 0x1234, r_esp := 0x2fe0\<rparr>), s')"
    "\<forall>k<length ?saved. get_fs_long (0x2fe0 + 4 * of_nat k) s' = ?saved ! k"
    by auto
  then show ?thesis using s'(2) [rule_format, of 0] s'(2) [rule_format, of 1] s'(2) [rule_format, of 7]
    by (intro exI [of _ s']) simp
qed

end
