(* ===== verification/Start.thy ===== *)
theory Start
  imports Syscall Mktime Paging
begin

text \<open>
  Start-up (\<open>init/main.c\<close>): the layout of memory, the clock, and the order in which \<open>main\<close> sets up the kernel until
  it enables interrupts. \<open>boot\<close> is the parameter block of \<open>setup.s\<close> at 0x90000; \<open>RAMDISK\<close> is a constant of the
  Makefile, \<open>None\<close> when it is not defined. The gates that the routines of other theories set are added here.
\<close>

section \<open>The clock\<close>

definition BCD_TO_BIN :: "int \<Rightarrow> int" where
  "BCD_TO_BIN val = (val AND 15) + drop_bit 4 val * 10"

definition read_clock :: "'a io_state_scheme \<Rightarrow> tm \<times> 'a io_state_scheme" where
  "read_clock s =
     (let (sec, s) = CMOS_READ 0 s; (mins, s) = CMOS_READ 2 s; (hour, s) = CMOS_READ 4 s;
          (mday, s) = CMOS_READ 7 s; (mon, s) = CMOS_READ 8 s; (year, s) = CMOS_READ 9 s
      in (\<lparr>tm_sec = uint sec, tm_min = uint mins, tm_hour = uint hour, tm_mday = uint mday, tm_mon = uint mon,
           tm_year = uint year, tm_wday = 0, tm_yday = 0, tm_isdst = 0\<rparr>, s))"

text \<open>One round of the loop, which repeats until the second has not changed meanwhile.\<close>

definition clock_step :: "'a io_state_scheme \<Rightarrow> ('a io_state_scheme + tm \<times> 'a io_state_scheme) option" where
  "clock_step s =
     (let (tm, s) = read_clock s; (sec, s) = CMOS_READ 0 s
      in Some (if tm_sec tm \<noteq> uint sec then Inl s else Inr (tm, s)))"

text \<open>A month that is no index of \<open>month[]\<close> makes \<open>kernel_mktime\<close> undefined.\<close>

definition time_init :: "'a io_state_scheme \<Rightarrow> 'a io_state_scheme option" where
  "time_init s = do {
     (tm, s) \<leftarrow> iter clock_step s;
     let tm = tm\<lparr>tm_sec := BCD_TO_BIN (tm_sec tm), tm_min := BCD_TO_BIN (tm_min tm), tm_hour := BCD_TO_BIN (tm_hour tm),
       tm_mday := BCD_TO_BIN (tm_mday tm), tm_mon := BCD_TO_BIN (tm_mon tm) - 1, tm_year := BCD_TO_BIN (tm_year tm)\<rparr>;
     if tm_mon tm < 0 \<or> tm_mon tm > 11 then None
     else Some (s\<lparr>startup_time := kernel_mktime tm\<rparr>) }"

section \<open>Gates of the drivers\<close>

definition rs_gates :: "kernel_image \<Rightarrow> 'a kernel_state_scheme \<Rightarrow> 'a kernel_state_scheme" where
  "rs_gates im s = set_intr_gate 0x23 (entry_addr im Rs2_interrupt) (set_intr_gate 0x24 (entry_addr im Rs1_interrupt) s)"

definition con_gate :: "kernel_image \<Rightarrow> 'a kernel_state_scheme \<Rightarrow> 'a kernel_state_scheme" where
  "con_gate im = set_trap_gate 0x21 (entry_addr im Keyboard_interrupt)"

definition sched_gates :: "kernel_image \<Rightarrow> 'a kernel_state_scheme \<Rightarrow> 'a kernel_state_scheme" where
  "sched_gates im s = set_system_gate 0x80 (entry_addr im System_call) (set_intr_gate 0x20 (entry_addr im Timer_interrupt) s)"

definition hd_gate :: "kernel_image \<Rightarrow> 'a kernel_state_scheme \<Rightarrow> 'a kernel_state_scheme" where
  "hd_gate im = set_intr_gate 0x2E (entry_addr im Hd_interrupt)"

definition floppy_gate :: "kernel_image \<Rightarrow> 'a kernel_state_scheme \<Rightarrow> 'a kernel_state_scheme" where
  "floppy_gate im = set_trap_gate 0x26 (entry_addr im Floppy_interrupt)"

section \<open>main\<close>

text \<open>The end of memory: what \<open>setup.s\<close> found above 1 MB, in KB, cut to whole pages and to 16 MB.\<close>

definition end_of_memory :: "u16 \<Rightarrow> int" where
  "end_of_memory EXT_MEM_K =
     (let e = (2 ^ 20 + push_bit 10 (uint EXT_MEM_K)) AND 0xfffff000
      in if e > 16 * 1024 * 1024 then 16 * 1024 * 1024 else e)"

definition end_of_buffers :: "int \<Rightarrow> int" where
  "end_of_buffers e = (if e > 12 * 1024 * 1024 then 4 * 1024 * 1024
     else if e > 6 * 1024 * 1024 then 2 * 1024 * 1024 else 1 * 1024 * 1024)"

definition layout_memory :: "int option \<Rightarrow> bytes \<Rightarrow> 'a kernel_state_scheme \<Rightarrow> 'a kernel_state_scheme" where
  "layout_memory RAMDISK boot s =
     (let s = s\<lparr>ROOT_DEV := uint (get_u16 0x1FC boot), drive_info := (\<lambda>i. boot (0x80 + i))\<rparr>;
          s = s\<lparr>memory_end := end_of_memory (get_u16 2 boot)\<rparr>;
          s = s\<lparr>buffer_memory_end := end_of_buffers (memory_end s)\<rparr>;
          s = s\<lparr>main_memory_start := buffer_memory_end s\<rparr>
      in case RAMDISK of
           None \<Rightarrow> s
         | Some k \<Rightarrow> (let (n, s) = rd_init (k * 1024) s in s\<lparr>main_memory_start := main_memory_start s + n\<rparr>))"

text \<open>\<open>chr_dev_init\<close> does nothing.\<close>

definition chr_dev_init :: "'s \<Rightarrow> 's" where "chr_dev_init s = s"

text \<open>The state in which \<open>main\<close> enables interrupts and moves to user mode.\<close>

definition main_init :: "kernel_image \<Rightarrow> int option \<Rightarrow> bytes \<Rightarrow> 'a kernel_state_scheme \<Rightarrow> 'a kernel_state_scheme option" where
  "main_init im RAMDISK boot s = do {
     let s = layout_memory RAMDISK boot s;
     let s = mem_init (main_memory_start s) (memory_end s) s;
     let s = trap_init im s;
     let s = blk_dev_init s;
     let s = chr_dev_init s;
     let s = con_gate im (tty_init boot (rs_gates im s));
     s \<leftarrow> time_init s;
     let s = sched_gates im (sched_init s);
     let s = buffer_init (buffer_memory_end s) s;
     let s = hd_gate im (hd_init s);
     Some (floppy_gate im (floppy_init s)) }"

section \<open>What the routines leave alone\<close>

text \<open>The variables of \<open>main.c\<close>, the page allocator and the IDT.\<close>

definition boot_same :: "'a kernel_state_scheme \<Rightarrow> 'a kernel_state_scheme \<Rightarrow> bool" where
  "boot_same s s' \<longleftrightarrow> idt s' = idt s \<and> mem_map s' = mem_map s \<and> HIGH_MEMORY s' = HIGH_MEMORY s
     \<and> memory_end s' = memory_end s \<and> buffer_memory_end s' = buffer_memory_end s \<and> main_memory_start s' = main_memory_start s"

lemma boot_same_refl [simp]: "boot_same s s"
  by (simp add: boot_same_def)

lemma boot_same_trans: "boot_same s t \<Longrightarrow> boot_same t u \<Longrightarrow> boot_same s u"
  by (simp add: boot_same_def)

lemma boot_same_outb [simp]: "boot_same s (outb v p t) \<longleftrightarrow> boot_same s t"
  by (simp add: boot_same_def outb_def)

lemma boot_same_inb [simp]: "boot_same s (snd (io_inb p t)) \<longleftrightarrow> boot_same s t"
  by (simp add: boot_same_def io_inb_def)

lemma boot_same_cmos [simp]: "boot_same s (snd (CMOS_READ a t)) \<longleftrightarrow> boot_same s t"
  by (simp add: CMOS_READ_def)

lemma boot_same_blk: "boot_same s (blk_dev_init s)"
  by (simp add: boot_same_def blk_dev_init_def)

lemma boot_same_tty: "boot_same s (tty_init boot s)"
  by (simp add: tty_init_def con_init_def rs_init_def rs_init_line_def Let_def) (simp add: boot_same_def upd_con_def outb_def)

lemma boot_same_clock: "iter clock_step s = Some (tm, s') \<Longrightarrow> boot_same s s'"
  by (rule iter_invariant [of clock_step s "(tm, s')" "boot_same s" "\<lambda>r. boot_same s (snd r)", simplified])
    (auto simp: clock_step_def read_clock_def split_def Let_def split: if_splits)

lemma boot_same_time: "time_init s = Some s' \<Longrightarrow> boot_same s s'"
  using boot_same_clock by (fastforce simp: time_init_def bind_eq_Some_conv Let_def boot_same_def split: if_splits prod.splits)

lemma boot_same_clear: "boot_same s (clear_tasks n i p t) \<longleftrightarrow> boot_same s t"
  by (induction n arbitrary: i p t) (simp_all add: boot_same_def)

lemma boot_same_sched: "boot_same s (sched_init s)"
  by (simp add: sched_init_def Let_def boot_same_clear) (simp add: boot_same_def set_tss_desc_def set_ldt_desc_def)

lemma boot_same_buffers: "boot_same s (snd (init_buffers n b h t)) \<longleftrightarrow> boot_same s t"
  by (induction n b h t rule: init_buffers.induct) (simp_all add: Let_def, simp add: boot_same_def upd_buffer_def)

lemma boot_same_buffer_init: "boot_same s (buffer_init b s)"
proof -
  have "boot_same s (snd (init_buffers n b h s))" for n b h by (simp add: boot_same_buffers)
  then show ?thesis by (simp add: buffer_init_def Let_def split_def) (simp add: boot_same_def upd_buffer_def)
qed

lemma boot_same_hd: "boot_same s (hd_init s)"
  by (simp add: hd_init_def Let_def split_def) (simp add: boot_same_def)

lemma boot_same_floppy: "boot_same s (floppy_init s)"
  by (simp add: floppy_init_def Let_def split_def) (simp add: boot_same_def)

end
