(* ===== verification/Boot.thy ===== *)
theory Boot
  imports Start Messages
begin

text \<open>
  What holds when \<open>main\<close> enables interrupts: the time is that of the clock, main memory is free and nothing else is,
  and a program can enter the kernel through four gates only.
\<close>

section \<open>The clock\<close>

definition to_bcd :: "int \<Rightarrow> u8" where
  "to_bcd v = word_of_int (16 * (v div 10) + v mod 10)"

lemma bcd_round_trip: "0 \<le> v \<Longrightarrow> v < 100 \<Longrightarrow> BCD_TO_BIN (uint (to_bcd v)) = v"
proof -
  assume v: "0 \<le> v" "v < 100"
  let ?b = "16 * (v div 10) + v mod 10"
  have "0 \<le> v div 10" "v div 10 < 10" "0 \<le> v mod 10" "v mod 10 < 10" using v by simp_all
  then have b: "0 \<le> ?b" "?b < 256" by simp_all
  have "uint (word_of_int k :: u8) = k" if "0 \<le> k" "k < 256" for k using that by (simp add: uint_word_of_int)
  from this [OF b] have "uint (to_bcd v) = ?b" unfolding to_bcd_def .
  moreover have "?b AND 15 = v mod 10"
  proof -
    have "?b AND 15 = take_bit 4 ?b" by (simp add: take_bit_eq_mask mask_eq_exp_minus_1)
    also have "\<dots> = (16 * (v div 10) + v mod 10) mod 16" by (simp add: take_bit_eq_mod)
    also have "\<dots> = v mod 10" by (simp add: mod_pos_pos_trivial)
    finally show ?thesis .
  qed
  moreover have "drop_bit 4 ?b = v div 10" using v by (simp add: drop_bit_eq_div)
  ultimately show ?thesis by (simp add: BCD_TO_BIN_def)
qed

text \<open>The next seven reads of the data port are these bytes: the clock does not tick while it is read.\<close>

definition clock_shows :: "u8 list \<Rightarrow> 'a io_state_scheme \<Rightarrow> bool" where
  "clock_shows bs s \<longleftrightarrow> (\<forall>i<length bs. io_in s (io_reads s + i) 0x71 = bs ! i)"

lemma cmos_shows: "clock_shows (b # bs) s \<Longrightarrow> \<exists>s'. CMOS_READ a s = (b, s') \<and> clock_shows bs s'"
  by (auto simp: clock_shows_def CMOS_READ_def io_inb_def outb_def dest: spec [of _ 0] spec [of _ "Suc _"])

lemma steady_clock:
  assumes "clock_shows [sec, mins, hour, mday, mon, year, sec] s"
  shows "\<exists>s'. iter clock_step s = Some (\<lparr>tm_sec = uint sec, tm_min = uint mins, tm_hour = uint hour, tm_mday = uint mday,
     tm_mon = uint mon, tm_year = uint year, tm_wday = 0, tm_yday = 0, tm_isdst = 0\<rparr>, s')"
proof -
  from cmos_shows [OF assms, of 0] obtain s1 where s1: "CMOS_READ 0 s = (sec, s1)" "clock_shows [mins, hour, mday, mon, year, sec] s1" by blast
  from cmos_shows [OF s1(2), of 2] obtain s2 where s2: "CMOS_READ 2 s1 = (mins, s2)" "clock_shows [hour, mday, mon, year, sec] s2" by blast
  from cmos_shows [OF s2(2), of 4] obtain s3 where s3: "CMOS_READ 4 s2 = (hour, s3)" "clock_shows [mday, mon, year, sec] s3" by blast
  from cmos_shows [OF s3(2), of 7] obtain s4 where s4: "CMOS_READ 7 s3 = (mday, s4)" "clock_shows [mon, year, sec] s4" by blast
  from cmos_shows [OF s4(2), of 8] obtain s5 where s5: "CMOS_READ 8 s4 = (mon, s5)" "clock_shows [year, sec] s5" by blast
  from cmos_shows [OF s5(2), of 9] obtain s6 where s6: "CMOS_READ 9 s5 = (year, s6)" "clock_shows [sec] s6" by blast
  from cmos_shows [OF s6(2), of 0] obtain s7 where s7: "CMOS_READ 0 s6 = (sec, s7)" by blast
  show ?thesis
    by (subst iter_unfold) (simp add: clock_step_def read_clock_def s1 s2 s3 s4 s5 s6 s7)
qed

definition clock_bytes :: "tm \<Rightarrow> u8 list" where
  "clock_bytes tm = map to_bcd [tm_sec tm, tm_min tm, tm_hour tm, tm_mday tm, tm_mon tm + 1, tm_year tm, tm_sec tm]"

lemma valid_tm_bounds:
  assumes "valid_tm tm"
  shows "0 \<le> tm_sec tm" "tm_sec tm < 100" "0 \<le> tm_min tm" "tm_min tm < 100" "0 \<le> tm_hour tm" "tm_hour tm < 100"
    "0 \<le> tm_mday tm" "tm_mday tm < 100" "0 \<le> tm_mon tm" "tm_mon tm \<le> 11" "0 \<le> tm_year tm"
proof -
  define y m where "y = 1900 + nat (tm_year tm)" and "m = nat (tm_mon tm)"
  have m: "m < 12" "tm_mday tm \<le> int (month_days y m)"
    using assms by (auto simp: valid_tm_def y_def m_def)
  from m(1) have "m \<in> {0, 1, 2, 3, 4, 5, 6, 7, 8, 9, 10, 11}" by (simp; presburger)
  then have "month_days y m \<le> 31" by (elim insertE emptyE) (simp_all add: month_days_def eval_nat_numeral)
  then have "int (month_days y m) \<le> 31" by simp
  with m(2) show "tm_mday tm < 100" by linarith
qed (use assms in \<open>simp_all add: valid_tm_def\<close>)

text \<open>C37: When the clock does not tick while it is read, \<open>time_init\<close> takes the date that the BCD registers show, from 1970 to
  1999, and sets \<open>startup_time\<close> to its seconds since 1970.\<close>

theorem time_init_sets_clock:
  assumes "valid_tm tm" "tm_year tm < 100" "clock_shows (clock_bytes tm) s"
  shows "\<exists>s'. time_init s = Some s' \<and> startup_time s' = seconds_since_1970 tm"
proof -
  note b = valid_tm_bounds [OF assms(1)]
  obtain s1 where "iter clock_step s = Some (\<lparr>tm_sec = uint (to_bcd (tm_sec tm)), tm_min = uint (to_bcd (tm_min tm)),
     tm_hour = uint (to_bcd (tm_hour tm)), tm_mday = uint (to_bcd (tm_mday tm)), tm_mon = uint (to_bcd (tm_mon tm + 1)),
     tm_year = uint (to_bcd (tm_year tm)), tm_wday = 0, tm_yday = 0, tm_isdst = 0\<rparr>, s1)"
    using steady_clock [of "to_bcd (tm_sec tm)"] assms(3) by (fastforce simp: clock_bytes_def)
  moreover define t where "t = tm\<lparr>tm_wday := 0, tm_yday := 0, tm_isdst := 0\<rparr>"
  ultimately have "time_init s = Some (s1\<lparr>startup_time := kernel_mktime t\<rparr>)"
    using b assms(2) by (cases tm) (simp add: time_init_def bcd_round_trip)
  moreover have "valid_tm t" using assms(1) by (simp add: t_def valid_tm_def)
  then have "kernel_mktime t = seconds_since_1970 tm"
    by (simp add: mktime_seconds t_def seconds_since_1970_def)
  ultimately show ?thesis by simp
qed

section \<open>Memory\<close>

lemma round_mask: "0 \<le> e \<Longrightarrow> e < 2 ^ 32 \<Longrightarrow> (e :: int) AND 0xfffff000 = 4096 * (e div 4096)"
proof -
  assume e: "0 \<le> e" "e < 2 ^ 32"
  have "e AND push_bit 12 (mask 20) = push_bit 12 (drop_bit 12 e)"
  proof (rule bit_eqI)
    fix n
    have "bit e n \<Longrightarrow> n < 32" using e by (metis bit_take_bit_iff take_bit_int_eq_self)
    then show "bit (e AND push_bit 12 (mask 20)) n = bit (push_bit 12 (drop_bit 12 e)) n"
      by (auto simp: bit_simps)
  qed
  then show ?thesis by (simp add: push_bit_eq_mult drop_bit_eq_div mask_eq_exp_minus_1 mult.commute)
qed

lemma end_of_memory_bounds:
  "end_of_memory k mod 4096 = 0" "0x100000 \<le> end_of_memory k" "end_of_memory k \<le> 0x1000000"
  "end_of_memory k \<le> 0x100000 + 1024 * uint k"
proof -
  have k: "0 \<le> uint k" "uint k < 65536" using unsigned_less [of k] by simp_all
  have e: "(2 ^ 20 + push_bit 10 (uint k)) AND 0xfffff000 = 4096 * ((0x100000 + 1024 * uint k) div 4096)"
    using k by (subst round_mask) (simp_all add: push_bit_eq_mult mult.commute)
  have "0x100000 \<le> 4096 * ((0x100000 + 1024 * uint k) div 4096)" using k zdiv_mono1 [of "0x100000" "0x100000 + 1024 * uint k" 4096] by simp
  moreover have "4096 * ((0x100000 + 1024 * uint k) div 4096) \<le> 0x100000 + 1024 * uint k" by simp
  ultimately show "end_of_memory k mod 4096 = 0" "0x100000 \<le> end_of_memory k" "end_of_memory k \<le> 0x1000000"
    "end_of_memory k \<le> 0x100000 + 1024 * uint k"
    unfolding end_of_memory_def e Let_def by simp_all
qed

lemma end_of_buffers_bounds:
  "0x100000 \<le> e \<Longrightarrow> 0x100000 \<le> end_of_buffers e \<and> end_of_buffers e \<le> e \<and> end_of_buffers e mod 4096 = 0"
  by (simp add: end_of_buffers_def)

lemma set_gate_fields [simp]:
  "mem_map (set_gate n d s) = mem_map s" "HIGH_MEMORY (set_gate n d s) = HIGH_MEMORY s" "memory_end (set_gate n d s) = memory_end s"
  "buffer_memory_end (set_gate n d s) = buffer_memory_end s" "main_memory_start (set_gate n d s) = main_memory_start s"
  "idt (set_gate n d s) = (idt s)(n := d)"
  by (simp_all add: set_gate_def)

lemmas gate_setters = set_intr_gate_def set_trap_gate_def set_system_gate_def

lemma fold_gates:
  "mem_map (fold (\<lambda>i. set_gate i d) ns s) = mem_map s" "HIGH_MEMORY (fold (\<lambda>i. set_gate i d) ns s) = HIGH_MEMORY s"
  "memory_end (fold (\<lambda>i. set_gate i d) ns s) = memory_end s" "buffer_memory_end (fold (\<lambda>i. set_gate i d) ns s) = buffer_memory_end s"
  "main_memory_start (fold (\<lambda>i. set_gate i d) ns s) = main_memory_start s"
  "idt (fold (\<lambda>i. set_gate i d) ns s) = (\<lambda>n. if n \<in> set ns then d else idt s n)"
  by (induction ns arbitrary: s) (simp_all add: fun_eq_iff)

lemma outb_fields [simp]:
  "memory_end (outb v p s) = memory_end s" "buffer_memory_end (outb v p s) = buffer_memory_end s"
  "main_memory_start (outb v p s) = main_memory_start s" "idt (outb v p s) = idt s"
  "mem_map (outb v p s) = mem_map s" "HIGH_MEMORY (outb v p s) = HIGH_MEMORY s"
  by (simp_all add: outb_def)

lemma trap_init_fields [simp]:
  "mem_map (trap_init im s) = mem_map s" "HIGH_MEMORY (trap_init im s) = HIGH_MEMORY s" "memory_end (trap_init im s) = memory_end s"
  "buffer_memory_end (trap_init im s) = buffer_memory_end s" "main_memory_start (trap_init im s) = main_memory_start s"
  unfolding trap_init_def gate_setters Let_def by (simp_all only: set_gate_fields outb_fields fold_gates)

text \<open>What \<open>main\<close> makes of the variables of \<open>boot_same\<close>.\<close>

definition boot_idt :: "kernel_image \<Rightarrow> 'a kernel_state_scheme \<Rightarrow> nat \<Rightarrow> desc_struct" where
  "boot_idt im s = (idt (trap_init im s))(0x24 := gate 14 0 (entry_addr im Rs1_interrupt), 0x23 := gate 14 0 (entry_addr im Rs2_interrupt),
     0x21 := gate 15 0 (entry_addr im Keyboard_interrupt), 0x20 := gate 14 0 (entry_addr im Timer_interrupt),
     0x80 := gate 15 3 (entry_addr im System_call), 0x2E := gate 14 0 (entry_addr im Hd_interrupt),
     0x26 := gate 15 0 (entry_addr im Floppy_interrupt))"

lemma main_init_fields:
  assumes "main_init im RAMDISK boot s = Some s'"
  defines "m \<equiv> layout_memory RAMDISK boot s"
  shows "idt s' = boot_idt im (mem_init (main_memory_start m) (memory_end m) m)
    \<and> mem_map s' = mem_map (mem_init (main_memory_start m) (memory_end m) m)
    \<and> HIGH_MEMORY s' = word_of_int (memory_end m) \<and> memory_end s' = memory_end m
    \<and> buffer_memory_end s' = buffer_memory_end m \<and> main_memory_start s' = main_memory_start m"
proof -
  define s1 where "s1 = mem_init (main_memory_start m) (memory_end m) m"
  define s2 where "s2 = blk_dev_init (trap_init im s1)"
  define s3 where "s3 = con_gate im (tty_init boot (rs_gates im s2))"
  obtain s4 where s4: "time_init s3 = Some s4"
    and s': "s' = floppy_gate im (floppy_init (hd_gate im (hd_init (buffer_init (buffer_memory_end (sched_gates im (sched_init s4)))
      (sched_gates im (sched_init s4))))))"
    using assms(1) unfolding m_def [symmetric] main_init_def Let_def chr_dev_init_def s1_def [symmetric] s2_def [symmetric] s3_def [symmetric]
    by (auto simp: bind_eq_Some_conv)
  note f = boot_same_blk [of "trap_init im s1"] boot_same_tty [of "rs_gates im s2" boot] boot_same_time [OF s4] boot_same_sched [of s4]
    boot_same_buffer_init [of "sched_gates im (sched_init s4)" "buffer_memory_end (sched_gates im (sched_init s4))"]
    boot_same_hd [of "buffer_init (buffer_memory_end (sched_gates im (sched_init s4))) (sched_gates im (sched_init s4))"]
    boot_same_floppy [of "hd_gate im (hd_init (buffer_init (buffer_memory_end (sched_gates im (sched_init s4))) (sched_gates im (sched_init s4))))"]
  have s1: "HIGH_MEMORY s1 = word_of_int (memory_end m)" "memory_end s1 = memory_end m"
    "buffer_memory_end s1 = buffer_memory_end m" "main_memory_start s1 = main_memory_start m"
    by (simp_all add: s1_def mem_init_def Let_def)
  show ?thesis
    using f unfolding s' s2_def [symmetric] s3_def boot_idt_def s1_def [symmetric]
    unfolding floppy_gate_def hd_gate_def sched_gates_def con_gate_def rs_gates_def gate_setters boot_same_def
    using s1 by (simp add: s1_def [symmetric])
qed

text \<open>C38: After \<open>main\<close> has set up the kernel, for every size of memory that \<open>setup.s\<close> reports, the page allocator is in order, and
  free are exactly the pages of main memory, above the buffers and the RAM disk and below the end of memory.\<close>

theorem main_memory_free:
  assumes "main_init im RAMDISK boot s = Some s'"
    and "case RAMDISK of None \<Rightarrow> True | Some k \<Rightarrow> 0 \<le> k \<and> k mod 4 = 0
           \<and> end_of_buffers (end_of_memory (get_u16 2 boot)) + k * 1024 \<le> end_of_memory (get_u16 2 boot)"
  shows "mm_ok s' \<and> 0x100000 \<le> buffer_memory_end s' \<and> buffer_memory_end s' \<le> main_memory_start s'
    \<and> main_memory_start s' \<le> memory_end s' \<and> memory_end s' \<le> 0x1000000
    \<and> memory_end s' \<le> 0x100000 + 1024 * uint (get_u16 2 boot)
    \<and> (\<forall>i<PAGING_PAGES. mem_map s' i =
        (if main_memory_start s' \<le> 0x100000 + 4096 * int i \<and> 0x100000 + 4096 * (int i + 1) \<le> memory_end s' then 0 else USED))"
proof -
  define m where "m = layout_memory RAMDISK boot s"
  define e where "e = end_of_memory (get_u16 2 boot)"
  note f = main_init_fields [OF assms(1), folded m_def]
  have m: "memory_end m = e" "buffer_memory_end m = end_of_buffers e"
    "main_memory_start m = end_of_buffers e + (case RAMDISK of None \<Rightarrow> 0 | Some k \<Rightarrow> k * 1024)"
    by (simp_all add: m_def layout_memory_def e_def rd_init_def Let_def split: option.splits)
  note b = end_of_memory_bounds [of "get_u16 2 boot", folded e_def] end_of_buffers_bounds [of e]
  have page: "(a + k * 1024) mod 4096 = 0" if "a mod 4096 = 0" "k mod 4 = 0" for a k :: int
  proof -
    have "k * 1024 = 4096 * (k div 4)" using mult_div_mod_eq [of 4 k] that(2) by linarith
    then have "(a + k * 1024) mod 4096 = (a + 4096 * (k div 4)) mod 4096" by (simp only:)
    then show ?thesis using that(1) by simp
  qed
  have start: "end_of_buffers e \<le> main_memory_start m" "main_memory_start m \<le> e" "main_memory_start m mod 4096 = 0"
    using assms(2) b page [of "end_of_buffers e"] unfolding m(3) e_def [symmetric] by (cases RAMDISK; simp)+
  from mem_init_effect [of "main_memory_start m" "memory_end m" m] b start m
  have "mm_ok (mem_init (main_memory_start m) (memory_end m) m)" "\<forall>i<PAGING_PAGES. mem_map (mem_init (main_memory_start m) (memory_end m) m) i =
        (if main_memory_start m \<le> 0x100000 + 4096 * int i \<and> 0x100000 + 4096 * (int i + 1) \<le> memory_end m then 0 else USED)"
    by auto
  moreover from this(1) have "mm_ok s'"
  proof -
    have "HIGH_MEMORY (mem_init (main_memory_start m) (memory_end m) m) = word_of_int (memory_end m)" by (simp add: mem_init_def Let_def)
    then show ?thesis using f \<open>mm_ok (mem_init _ _ m)\<close> by (simp add: mm_ok_def)
  qed
  ultimately show ?thesis using f b start m by simp
qed

section \<open>Gates\<close>

definition gate_offset :: "desc_struct \<Rightarrow> u32" where
  "gate_offset d = (desc_a d AND 0xffff) OR (desc_b d AND 0xffff0000)"

definition gate_selector :: "desc_struct \<Rightarrow> u32" where
  "gate_selector d = drop_bit 16 (desc_a d)"

definition gate_dpl :: "desc_struct \<Rightarrow> u32" where
  "gate_dpl d = drop_bit 13 (desc_b d) AND 3"

definition gate_present :: "desc_struct \<Rightarrow> bool" where
  "gate_present d \<longleftrightarrow> bit (desc_b d) 15"

text \<open>Which code each vector leads to.\<close>

definition vector :: "nat \<Rightarrow> entry_point" where
  "vector n =
     (if n < 17 then [Divide_error, Debug, Nmi, Int3, Overflow, Bounds, Invalid_op, Device_not_available, Double_fault,
        Coprocessor_segment_overrun, Invalid_TSS, Segment_not_present, Stack_segment, General_protection, Page_fault,
        Reserved, Coprocessor_error] ! n
      else if n = 0x20 then Timer_interrupt else if n = 0x21 then Keyboard_interrupt else if n = 0x23 then Rs2_interrupt
      else if n = 0x24 then Rs1_interrupt else if n = 0x26 then Floppy_interrupt else if n = 39 then Parallel_interrupt
      else if n = 45 then Irq13 else if n = 0x2E then Hd_interrupt else if n = 0x80 then System_call
      else if n < 48 then Reserved else Ignore_int)"

lemma gate_fields:
  assumes "(type, dpl) \<in> {(14, 0), (15, 0), (15, 3)}"
  shows "gate_offset (gate type dpl a) = a \<and> gate_selector (gate type dpl a) = 8 \<and> gate_present (gate type dpl a)
    \<and> gate_dpl (gate type dpl a) = dpl"
proof -
  have off: "((0x80000 OR (a AND 0xffff)) AND 0xffff) OR (((a AND 0xffff0000) OR w) AND 0xffff0000) = a"
    if "w \<in> {0x8e00, 0x8f00, 0xef00}" for w :: u32
  proof -
    have "((0x80000 OR (a AND 0xffff)) AND 0xffff) OR (((a AND 0xffff0000) OR w) AND 0xffff0000) = (a AND 0xffff) OR (a AND 0xffff0000)"
      using that by (auto simp: bit.conj_disj_distrib2 and.assoc)
    also have "\<dots> = a AND (0xffff OR 0xffff0000)" by (simp only: bit.conj_disj_distrib)
    also have "\<dots> = a AND mask 32" by (simp add: mask_eq_exp_minus_1)
    also have "\<dots> = a" by (rule bit_word_eqI) (simp add: bit_simps)
    finally show ?thesis .
  qed
  show ?thesis using assms off [of "0x8e00"] off [of "0x8f00"] off [of "0xef00"]
    by (auto simp: gate_def gate_offset_def gate_selector_def gate_present_def gate_dpl_def drop_bit_or drop_bit_and
        bit.conj_disj_distrib2 and.assoc bit_simps)
qed

lemma trap_idt:
  "idt (trap_init im s) n =
     (if n < 48 then gate 15 (if n \<in> {3, 4, 5} then 3 else 0) (entry_addr im
        (if n < 17 then vector n else if n = 39 then Parallel_interrupt else if n = 45 then Irq13 else Reserved))
      else idt s n)"
proof (cases "n < 17")
  case True
  then have "n \<in> {0, 1, 2, 3, 4, 5, 6, 7, 8, 9, 10, 11, 12, 13, 14, 15, 16}" by (simp; presburger)
  then show ?thesis unfolding trap_init_def gate_setters Let_def vector_def
    by (elim insertE emptyE) (simp_all add: fold_gates)
next
  case False
  then show ?thesis unfolding trap_init_def gate_setters Let_def by (auto simp: fold_gates simp del: upt_rec_numeral)
qed

text \<open>C39: After start-up every vector leads to its entry point with the kernel code segment, and a program in user mode can raise
  only the breakpoint, overflow, bounds and system call vectors. (\<open>trap_init\<close> opens the first three on purpose; the remark in
  \<open>include/unistd.h\<close> that users have no access to any vector but 0x80 does not agree with it.)\<close>

theorem user_gates:
  assumes "main_init im RAMDISK boot s = Some s'" "idt s = (\<lambda>_. gate 14 0 (entry_addr im Ignore_int))"
  shows "gate_offset (idt s' n) = entry_addr im (vector n) \<and> gate_selector (idt s' n) = 8 \<and> gate_present (idt s' n)
    \<and> gate_dpl (idt s' n) = (if n \<in> {3, 4, 5, 0x80} then 3 else 0)"
proof -
  define m where "m = layout_memory RAMDISK boot s"
  have "idt (mem_init (main_memory_start m) (memory_end m) m) = idt s"
    by (simp add: m_def layout_memory_def mem_init_def rd_init_def Let_def split: option.splits)
  with main_init_fields [OF assms(1), folded m_def] assms(2)
  have i: "idt s' = boot_idt im (mem_init (main_memory_start m) (memory_end m) m)"
    "idt (mem_init (main_memory_start m) (memory_end m) m) = (\<lambda>_. gate 14 0 (entry_addr im Ignore_int))" by simp_all
  have "\<exists>type. (type, if n \<in> {3, 4, 5, 0x80} then 3 else 0) \<in> {(14, 0), (15, 0), (15, 3 :: u32)}
      \<and> idt s' n = gate type (if n \<in> {3, 4, 5, 0x80} then 3 else 0) (entry_addr im (vector n))"
  proof (cases "n < 17")
    case True
    then show ?thesis unfolding i(1) boot_idt_def by (intro exI [of _ 15]) (simp add: trap_idt)
  next
    case False
    then show ?thesis unfolding i(1) boot_idt_def
      by (intro exI [of _ "if n \<in> {0x20, 0x23, 0x24, 0x2E} \<or> 48 \<le> n \<and> n \<noteq> 0x80 then 14 else 15"])
        (auto simp: trap_idt i(2) vector_def)
  qed
  then obtain type where "(type, if n \<in> {3, 4, 5, 0x80} then 3 else 0) \<in> {(14, 0), (15, 0), (15, 3 :: u32)}"
    "idt s' n = gate type (if n \<in> {3, 4, 5, 0x80} then 3 else 0) (entry_addr im (vector n))" by blast
  from gate_fields [OF this(1)] this(2) show ?thesis by simp
qed

section \<open>A machine\<close>

text \<open>16 MB of memory and a clock.\<close>

definition demo_params :: bytes where
  "demo_params = demo_boot(3 := 0x3c)"

definition demo_machine :: "u8 list \<Rightarrow> kernel_state" where
  "demo_machine bs = (init_kernel 0x1000 0)\<lparr>io_in := (\<lambda>n _. bs ! (n mod 7)), idt := (\<lambda>_. gate 14 0 (entry_addr demo_image Ignore_int))\<rparr>"

definition new_years_eve :: tm where
  "new_years_eve = \<lparr>tm_sec = 58, tm_min = 59, tm_hour = 23, tm_mday = 31, tm_mon = 11, tm_year = 99, tm_wday = 5, tm_yday = 364, tm_isdst = 0\<rparr>"

lemma new_years_eve_valid: "valid_tm new_years_eve" "tm_year new_years_eve < 100"
  by (simp_all add: new_years_eve_def valid_tm_def month_days_def leap_def)

lemma demo_machine_clock:
  "length bs = 7 \<Longrightarrow> io_in s = io_in (demo_machine bs) \<Longrightarrow> io_reads s = 0 \<Longrightarrow> clock_shows bs s"
  by (simp add: clock_shows_def demo_machine_def)

lemma demo_machine_reads: "io_reads (demo_machine bs) = 0"
  by (simp add: demo_machine_def init_kernel_simps)

theorem time_init_sets_clock_witness:
  "\<exists>s'. time_init (demo_machine (clock_bytes new_years_eve)) = Some s' \<and> startup_time s' = seconds_since_1970 new_years_eve"
proof -
  have "clock_shows (clock_bytes new_years_eve) (demo_machine (clock_bytes new_years_eve))"
    by (rule demo_machine_clock) (simp_all add: clock_bytes_def demo_machine_reads)
  then show ?thesis by (rule time_init_sets_clock [OF new_years_eve_valid])
qed

lemma demo_boots:
  "\<exists>s'. main_init demo_image None demo_params (demo_machine [1, 1, 1, 1, 1, 1, 1]) = Some s'"
proof -
  let ?s = "demo_machine [1, 1, 1, 1, 1, 1, 1]"
  let ?m = "layout_memory None demo_params ?s"
  let ?t = "con_gate demo_image (tty_init demo_params (rs_gates demo_image (blk_dev_init (trap_init demo_image
      (mem_init (main_memory_start ?m) (memory_end ?m) ?m)))))"
  have io: "io_in (trap_init im s) = io_in s" "io_reads (trap_init im s) = io_reads s" for im s
  proof -
    have *: "io_in (set_gate n d s) = io_in s" "io_reads (set_gate n d s) = io_reads s" for n d s by (simp_all add: set_gate_def)
    have o: "io_in (outb v p s) = io_in s" "io_reads (outb v p s) = io_reads s" for v p s by (simp_all add: outb_def)
    have f: "io_in (fold (\<lambda>i. set_gate i d) ns s) = io_in s" "io_reads (fold (\<lambda>i. set_gate i d) ns s) = io_reads s" for ns d s
      by (induction ns arbitrary: s) (simp_all add: *)
    show "io_in (trap_init im s) = io_in s" "io_reads (trap_init im s) = io_reads s"
      unfolding trap_init_def gate_setters Let_def by (simp_all only: * f o)
  qed
  have "io_in ?t = io_in ?s \<and> io_reads ?t = 0"
    by (simp add: con_gate_def tty_init_def con_init_def rs_init_def rs_init_line_def rs_gates_def gate_setters set_gate_def Let_def
        upd_con_def outb_def blk_dev_init_def io mem_init_def layout_memory_def demo_machine_reads)
  then have "clock_shows [1, 1, 1, 1, 1, 1, 1] ?t" by (intro demo_machine_clock) simp_all
  from steady_clock [OF this] have "\<exists>s'. time_init ?t = Some s'" by (auto simp: time_init_def BCD_TO_BIN_def)
  then show ?thesis by (auto simp: main_init_def Let_def chr_dev_init_def)
qed

theorem main_memory_free_witness:
  "\<exists>s'. main_init demo_image None demo_params (demo_machine [1, 1, 1, 1, 1, 1, 1]) = Some s'
    \<and> mem_map s' 767 = USED \<and> mem_map s' 768 = 0 \<and> mem_map s' 3839 = 0"
proof -
  obtain s' where s': "main_init demo_image None demo_params (demo_machine [1, 1, 1, 1, 1, 1, 1]) = Some s'" using demo_boots by blast
  have e: "get_u16 2 demo_params = 0x3c00" by (simp add: demo_params_def demo_boot_def get_u16_def)
  have "main_memory_start s' = 0x400000" "memory_end s' = 0x1000000"
    using main_init_fields [OF s'] by (simp_all add: layout_memory_def e end_of_memory_def end_of_buffers_def Let_def)
  then show ?thesis using main_memory_free [OF s'] s' by (simp add: PAGING_PAGES_def PAGING_MEMORY_def)
qed

theorem user_gates_witness:
  "\<exists>s'. main_init demo_image None demo_params (demo_machine [1, 1, 1, 1, 1, 1, 1]) = Some s'
    \<and> gate_dpl (idt s' 0x80) = 3 \<and> gate_dpl (idt s' 0x2E) = 0"
proof -
  obtain s' where s': "main_init demo_image None demo_params (demo_machine [1, 1, 1, 1, 1, 1, 1]) = Some s'" using demo_boots by blast
  moreover have "idt (demo_machine bs) = (\<lambda>_. gate 14 0 (entry_addr demo_image Ignore_int))" for bs by (simp add: demo_machine_def)
  ultimately show ?thesis using user_gates [OF s'] by simp
qed

end
