(* ===== verification/Init_Process.thy ===== *)
theory Init_Process
  imports Start
begin

text \<open>
  The first user process (\<open>init/main.c\<close>): what task 0 does after \<open>main\<close> and what \<open>init\<close> does, as a program that
  makes system calls and goes on with their results. \<open>init_call\<close> is the call made at a point of the program,
  \<open>init_resume\<close> the point at which it continues. A fork continues in the parent with the number of the child and
  in the child with 0.
\<close>

section \<open>The program\<close>

text \<open>Points of the program: \<open>Main\<close> is task 0; \<open>Rc\<close> is the child that runs \<open>/etc/rc\<close>, \<open>Sh\<close> a login shell. The
  argument of a wait is the local variable \<open>pid\<close>.\<close>

datatype init_pc = Main_fork | Main_pause
  | Setup | Open_console | Dup_out | Dup_err | Print_buffers | Print_memory
  | Fork_rc | Rc_close | Rc_open | Rc_exec | Rc_exit int | Wait_rc int
  | Fork_shell | Print_failed | Sh_close int | Sh_setsid | Sh_open | Sh_dup_out | Sh_dup_err | Sh_exec | Sh_exit int
  | Wait_shell int | Print_died int int | Sync_disks

datatype user_call = Call_setup | Call_open string int | Call_dup int | Call_write int string | Call_fork
  | Call_close int | Call_exit int | Call_execve string "string list" "string list" | Call_wait | Call_setsid
  | Call_sync | Call_pause

definition argv_rc :: "string list" where "argv_rc = [''/bin/sh'']"
definition envp_rc :: "string list" where "envp_rc = [''HOME=/'']"
definition argv_sh :: "string list" where "argv_sh = [''-/bin/sh'']"
definition envp_sh :: "string list" where "envp_sh = [''HOME=/usr/root'']"

text \<open>\<open>printf\<close>: the first \<open>i\<close> characters of \<open>printbuf\<close> are written to descriptor 1.\<close>

definition printf :: "string \<Rightarrow> u32 list \<Rightarrow> 'a mm_state_scheme \<Rightarrow> user_call option" where
  "printf fmt args s = do {
     (i, out, _) \<leftarrow> vsprintf ((!) args) fmt (kernel_bytes s);
     Some (Call_write 1 (take (nat i) out)) }"

primrec init_call :: "'a kernel_state_scheme \<Rightarrow> init_pc \<Rightarrow> user_call option" where
  "init_call s Main_fork = Some Call_fork"
| "init_call s Main_pause = Some Call_pause"
| "init_call s Setup = Some Call_setup"
| "init_call s Open_console = Some (Call_open ''/dev/tty0'' 2)"
| "init_call s Dup_out = Some (Call_dup 0)"
| "init_call s Dup_err = Some (Call_dup 0)"
| "init_call s Print_buffers = printf (''%d buffers = %d bytes buffer space'' @ [LF, CR])
     [of_nat (nr_buffers s), of_nat (nr_buffers s) * 1024] s"
| "init_call s Print_memory = printf (''Free mem: %d bytes'' @ [LF, CR]) [word_of_int (memory_end s - main_memory_start s)] s"
| "init_call s Fork_rc = Some Call_fork"
| "init_call s Rc_close = Some (Call_close 0)"
| "init_call s Rc_open = Some (Call_open ''/etc/rc'' 0)"
| "init_call s Rc_exec = Some (Call_execve ''/bin/sh'' argv_rc envp_rc)"
| "init_call s (Rc_exit v) = Some (Call_exit v)"
| "init_call s (Wait_rc pid) = Some Call_wait"
| "init_call s Fork_shell = Some Call_fork"
| "init_call s Print_failed = printf (''Fork failed in init'' @ [CR, LF]) [] s"
| "init_call s (Sh_close fd) = Some (Call_close fd)"
| "init_call s Sh_setsid = Some Call_setsid"
| "init_call s Sh_open = Some (Call_open ''/dev/tty0'' 2)"
| "init_call s Sh_dup_out = Some (Call_dup 0)"
| "init_call s Sh_dup_err = Some (Call_dup 0)"
| "init_call s Sh_exec = Some (Call_execve ''/bin/sh'' argv_sh envp_sh)"
| "init_call s (Sh_exit v) = Some (Call_exit v)"
| "init_call s (Wait_shell pid) = Some Call_wait"
| "init_call s (Print_died pid i) = printf ([LF, CR] @ ''child %d died with code %04x'' @ [LF, CR]) [word_of_int pid, word_of_int i] s"
| "init_call s Sync_disks = Some Call_sync"

text \<open>Where the program continues after the call has returned \<open>r\<close>, and \<open>wait\<close> has stored \<open>i\<close>. \<open>_exit\<close> does not
  return; \<open>execve\<close> returns only when it has failed.\<close>

primrec init_resume :: "init_pc \<Rightarrow> int \<Rightarrow> int \<Rightarrow> init_pc option" where
  "init_resume Main_fork r i = Some (if r = 0 then Setup else Main_pause)"
| "init_resume Main_pause r i = Some Main_pause"
| "init_resume Setup r i = Some Open_console"
| "init_resume Open_console r i = Some Dup_out"
| "init_resume Dup_out r i = Some Dup_err"
| "init_resume Dup_err r i = Some Print_buffers"
| "init_resume Print_buffers r i = Some Print_memory"
| "init_resume Print_memory r i = Some Fork_rc"
| "init_resume Fork_rc r i = Some (if r = 0 then Rc_close else if r > 0 then Wait_rc r else Fork_shell)"
| "init_resume Rc_close r i = Some Rc_open"
| "init_resume Rc_open r i = Some (if r \<noteq> 0 then Rc_exit 1 else Rc_exec)"
| "init_resume Rc_exec r i = Some (Rc_exit 2)"
| "init_resume (Rc_exit v) r i = None"
| "init_resume (Wait_rc pid) r i = Some (if pid \<noteq> r then Wait_rc pid else Fork_shell)"
| "init_resume Fork_shell r i = Some (if r < 0 then Print_failed else if r = 0 then Sh_close 0 else Wait_shell r)"
| "init_resume Print_failed r i = Some Fork_shell"
| "init_resume (Sh_close fd) r i = Some (if fd < 2 then Sh_close (fd + 1) else Sh_setsid)"
| "init_resume Sh_setsid r i = Some Sh_open"
| "init_resume Sh_open r i = Some Sh_dup_out"
| "init_resume Sh_dup_out r i = Some Sh_dup_err"
| "init_resume Sh_dup_err r i = Some Sh_exec"
| "init_resume Sh_exec r i = Some (Sh_exit r)"
| "init_resume (Sh_exit v) r i = None"
| "init_resume (Wait_shell pid) r i = Some (if pid = r then Print_died pid i else Wait_shell pid)"
| "init_resume (Print_died pid st) r i = Some Sync_disks"
| "init_resume Sync_disks r i = Some Fork_shell"

section \<open>Runs\<close>

text \<open>The results of forks and waits, which are all that a run of \<open>init\<close> depends on besides \<open>/etc/rc\<close>.\<close>

datatype init_event = Forked int | Waited int | Other

definition init_event :: "init_pc \<Rightarrow> int \<Rightarrow> init_event" where
  "init_event pc r = (case pc of Fork_rc \<Rightarrow> Forked r | Fork_shell \<Rightarrow> Forked r
     | Wait_rc _ \<Rightarrow> Waited r | Wait_shell _ \<Rightarrow> Waited r | _ \<Rightarrow> Other)"

inductive init_run :: "init_event list \<Rightarrow> init_pc \<Rightarrow> bool" where
  starts: "init_run [] Setup"
| goes_on: "init_run es pc \<Longrightarrow> init_resume pc r i = Some pc' \<Longrightarrow> init_run (es @ [init_event pc r]) pc'"

text \<open>The children that \<open>init\<close> has made and not waited for.\<close>

primrec count_child :: "init_event \<Rightarrow> int list \<Rightarrow> int list" where
  "count_child (Forked r) ps = (if r > 0 then ps @ [r] else ps)"
| "count_child (Waited r) ps = remove1 r ps"
| "count_child Other ps = ps"

definition children :: "init_event list \<Rightarrow> int list" where
  "children es = fold count_child es []"

text \<open>The points that \<open>init\<close> itself passes, and the child it is waiting for there.\<close>

primrec awaited :: "init_pc \<Rightarrow> int list option" where
  "awaited Main_fork = None"
| "awaited Main_pause = None"
| "awaited Setup = Some []"
| "awaited Open_console = Some []"
| "awaited Dup_out = Some []"
| "awaited Dup_err = Some []"
| "awaited Print_buffers = Some []"
| "awaited Print_memory = Some []"
| "awaited Fork_rc = Some []"
| "awaited Rc_close = None"
| "awaited Rc_open = None"
| "awaited Rc_exec = None"
| "awaited (Rc_exit v) = None"
| "awaited (Wait_rc pid) = Some [pid]"
| "awaited Fork_shell = Some []"
| "awaited Print_failed = Some []"
| "awaited (Sh_close fd) = None"
| "awaited Sh_setsid = None"
| "awaited Sh_open = None"
| "awaited Sh_dup_out = None"
| "awaited Sh_dup_err = None"
| "awaited Sh_exec = None"
| "awaited (Sh_exit v) = None"
| "awaited (Wait_shell pid) = Some [pid]"
| "awaited (Print_died pid i) = Some []"
| "awaited Sync_disks = Some []"

lemma awaited_step:
  assumes "awaited pc = Some ps" "init_resume pc r i = Some pc'" "init_event pc r \<noteq> Forked 0"
  shows "awaited pc' = Some (count_child (init_event pc r) ps)"
  using assms by (cases pc) (auto simp: init_event_def split: if_splits)

lemma init_run_awaits: "init_run es pc \<Longrightarrow> Forked 0 \<notin> set es \<Longrightarrow> awaited pc = Some (children es)"
proof (induction rule: init_run.induct)
  case (goes_on es pc r i pc')
  then have "init_event pc r \<noteq> Forked 0" "awaited pc = Some (children es)" by auto
  from awaited_step [OF this(2) goes_on.hyps(2) this(1)] show ?case by (simp add: children_def)
qed (simp add: children_def)

text \<open>C40: Whatever its system calls return, \<open>init\<close> has at most one child that it has not waited for: it forks only when there is
  none, waits as long as there is one, and itself neither exits nor stops.\<close>

theorem init_one_child:
  assumes "init_run es pc" "Forked 0 \<notin> set es"
  shows "length (children es) \<le> 1 \<and> (init_call s pc = Some Call_fork \<longrightarrow> children es = [])
    \<and> (\<forall>pid. children es = [pid] \<longrightarrow> init_call s pc = Some Call_wait) \<and> (\<forall>v. init_call s pc \<noteq> Some (Call_exit v))
    \<and> (\<forall>r i. \<exists>pc'. init_resume pc r i = Some pc')"
proof -
  have *: "printf f xs t \<noteq> Some Call_fork" "printf f xs t \<noteq> Some (Call_exit v)" for f xs v and t :: "'b mm_state_scheme"
    by (auto simp: printf_def bind_eq_Some_conv)
  from init_run_awaits [OF assms] show ?thesis by (cases pc) (auto simp: * dest: sym)
qed

theorem init_one_child_witness:
  "\<exists>es. init_run es (Wait_shell 3) \<and> Forked 2 \<in> set es \<and> length (children es) \<le> 1
    \<and> init_call (init_kernel 0x1000 0) (Wait_shell 3) = Some Call_wait"
proof -
  note go = init_run.goes_on [where i = 0]
  have "init_run ([] @ [init_event Setup 0]) Open_console" by (rule go [OF init_run.starts]) simp
  then have "init_run [Other] Open_console" by (simp add: init_event_def)
  from go [OF this, of 0] have "init_run [Other, Other] Dup_out" by (simp add: init_event_def)
  from go [OF this, of 0] have "init_run [Other, Other, Other] Dup_err" by (simp add: init_event_def)
  from go [OF this, of 0] have "init_run [Other, Other, Other, Other] Print_buffers" by (simp add: init_event_def)
  from go [OF this, of 0] have "init_run [Other, Other, Other, Other, Other] Print_memory" by (simp add: init_event_def)
  from go [OF this, of 0] have "init_run (replicate 6 Other) Fork_rc" by (simp add: init_event_def eval_nat_numeral)
  from go [OF this, of 2] have "init_run (replicate 6 Other @ [Forked 2]) (Wait_rc 2)" by (simp add: init_event_def)
  from go [OF this, of 2] have "init_run (replicate 6 Other @ [Forked 2, Waited 2]) Fork_shell" by (simp add: init_event_def)
  from go [OF this, of 3] have r: "init_run (replicate 6 Other @ [Forked 2, Waited 2, Forked 3]) (Wait_shell 3)"
    by (simp add: init_event_def)
  from init_one_child [OF this, of "init_kernel 0x1000 0"] r show ?thesis by (intro exI [of _ "replicate 6 Other @ [Forked 2, Waited 2, Forked 3]"]) simp
qed

end
