(* ===== verification/File_Frame.thy ===== *)
theory File_Frame
  imports Open
begin

text \<open>
  What the routines of the file system below the descriptors leave alone: the reference counts of the file table, the
  task table and the descriptors of the tasks; and none of them makes a task a zombie. \<open>keep s m\<close> says this of a routine without a result, \<open>keepv s m\<close> of one with a
  result; the rules follow the constructs that routines are built from, so that a routine is one application of
  the rules to its definition.
\<close>

definition same_files :: "'a fs_state_scheme \<Rightarrow> 'a fs_state_scheme \<Rightarrow> bool" where
  "same_files s s' \<longleftrightarrow> (\<forall>f. f_count (file_table s' f) = f_count (file_table s f)) \<and> task s' = task s
     \<and> current s' = current s \<and> (\<forall>p. t_filp (tasks s' p) = t_filp (tasks s p))
     \<and> (\<forall>p. t_state (tasks s' p) = TASK_ZOMBIE \<longrightarrow> t_state (tasks s p) = TASK_ZOMBIE)"

definition keep :: "'a fs_state_scheme \<Rightarrow> 'a fs_state_scheme option \<Rightarrow> bool" where
  "keep s m \<longleftrightarrow> (\<forall>s'. m = Some s' \<longrightarrow> same_files s s')"

definition samev :: "'a fs_state_scheme \<Rightarrow> 'v \<times> 'a fs_state_scheme \<Rightarrow> bool" where
  "samev s x \<longleftrightarrow> same_files s (snd x)"

definition keepv :: "'a fs_state_scheme \<Rightarrow> ('v \<times> 'a fs_state_scheme) option \<Rightarrow> bool" where
  "keepv s m \<longleftrightarrow> (\<forall>x. m = Some x \<longrightarrow> samev s x)"

lemma same_files_refl: "same_files s s"
  by (simp add: same_files_def)

lemma same_files_trans: "same_files s s' \<Longrightarrow> same_files s' s'' \<Longrightarrow> same_files s s''"
  by (auto simp: same_files_def)

lemma keepD: "keep s m \<Longrightarrow> m = Some s' \<Longrightarrow> same_files s s'"
  by (simp add: keep_def)

lemma keepvD: "keepv s m \<Longrightarrow> m = Some x \<Longrightarrow> same_files s (snd x)"
  by (simp add: keepv_def samev_def)

lemma keep_call: "(\<And>s''. m = Some s'' \<Longrightarrow> same_files s' s'') \<Longrightarrow> same_files s s' \<Longrightarrow> keep s m"
  by (auto simp: keep_def intro: same_files_trans)

lemma keepv_call: "(\<And>x. m = Some x \<Longrightarrow> same_files s' (snd x)) \<Longrightarrow> same_files s s' \<Longrightarrow> keepv s m"
  by (auto simp: keepv_def samev_def intro: same_files_trans)

section \<open>Rules for the constructs\<close>

lemma keep_bind: "keep s m \<Longrightarrow> (\<And>s'. same_files s s' \<Longrightarrow> keep s (f s')) \<Longrightarrow> keep s (Option.bind m f)"
  by (cases m) (auto simp: keep_def)

lemma keep_bindv:
  "keepv s m \<Longrightarrow> (\<And>v s'. same_files s s' \<Longrightarrow> keep s (f v s')) \<Longrightarrow> keep s (Option.bind m (\<lambda>(v, s'). f v s'))"
  by (cases m) (auto simp: keep_def keepv_def samev_def)

lemma keep_bind_plain: "(\<And>x. keep s (f x)) \<Longrightarrow> keep s (Option.bind m f)"
  by (cases m) (auto simp: keep_def)

lemma keep_Some: "same_files s s' \<Longrightarrow> keep s (Some s')"
  by (simp add: keep_def)

lemma keep_None: "keep s None"
  by (simp add: keep_def)

lemma keep_if: "keep s m \<Longrightarrow> keep s n \<Longrightarrow> keep s (if b then m else n)"
  by simp

lemma keep_option: "keep s m \<Longrightarrow> (\<And>x. keep s (f x)) \<Longrightarrow> keep s (case_option m f y)"
  by (cases y) simp_all

lemma keep_let_state: "same_files s x \<Longrightarrow> (\<And>s'. same_files s s' \<Longrightarrow> keep s (f s')) \<Longrightarrow> keep s (Let x f)"
  by simp

lemma keep_let: "keep s (f x) \<Longrightarrow> keep s (Let x f)"
  by simp

lemma keep_pair_state: "samev s x \<Longrightarrow> (\<And>v s'. same_files s s' \<Longrightarrow> keep s (f v s')) \<Longrightarrow> keep s (case_prod f x)"
  by (cases x) (simp add: samev_def)

lemma keep_pair: "(\<And>a b. keep s (f a b)) \<Longrightarrow> keep s (case_prod f x)"
  by (cases x) simp

lemma keep_pair_app: "(\<And>a b. keep s (f a b y)) \<Longrightarrow> keep s (case_prod f x y)"
  by (cases x) simp

lemma keep_for_range:
  assumes "same_files s s'" "\<And>i t. same_files s t \<Longrightarrow> keep s (f i t)"
  shows "keep s (for_range i n f s')"
  using for_range_inv [where P = "same_files s", OF _ assms(1)] assms(2) unfolding keep_def by blast

lemma keepv_bind: "keep s m \<Longrightarrow> (\<And>s'. same_files s s' \<Longrightarrow> keepv s (f s')) \<Longrightarrow> keepv s (Option.bind m f)"
  by (cases m) (auto simp: keep_def keepv_def)

lemma keepv_bindv:
  "keepv s m \<Longrightarrow> (\<And>v s'. same_files s s' \<Longrightarrow> keepv s (f v s')) \<Longrightarrow> keepv s (Option.bind m (\<lambda>(v, s'). f v s'))"
  by (cases m) (auto simp: keepv_def samev_def)

lemma keepv_bind_plain: "(\<And>x. keepv s (f x)) \<Longrightarrow> keepv s (Option.bind m f)"
  by (cases m) (auto simp: keepv_def)

lemma keepv_Some: "samev s x \<Longrightarrow> keepv s (Some x)"
  by (simp add: keepv_def)

lemma keepv_None: "keepv s None"
  by (simp add: keepv_def)

lemma keepv_if: "keepv s m \<Longrightarrow> keepv s n \<Longrightarrow> keepv s (if b then m else n)"
  by simp

lemma keepv_option: "keepv s m \<Longrightarrow> (\<And>x. keepv s (f x)) \<Longrightarrow> keepv s (case_option m f y)"
  by (cases y) simp_all

lemma keepv_let_state: "same_files s x \<Longrightarrow> (\<And>s'. same_files s s' \<Longrightarrow> keepv s (f s')) \<Longrightarrow> keepv s (Let x f)"
  by simp

lemma keepv_let: "keepv s (f x) \<Longrightarrow> keepv s (Let x f)"
  by simp

lemma keepv_pair_state: "samev s x \<Longrightarrow> (\<And>v s'. same_files s s' \<Longrightarrow> keepv s (f v s')) \<Longrightarrow> keepv s (case_prod f x)"
  by (cases x) (simp add: samev_def)

lemma keepv_pair: "(\<And>a b. keepv s (f a b)) \<Longrightarrow> keepv s (case_prod f x)"
  by (cases x) simp

lemma keepv_pair_app: "(\<And>a b. keepv s (f a b y)) \<Longrightarrow> keepv s (case_prod f x y)"
  by (cases x) simp

lemma same_if: "same_files s a \<Longrightarrow> same_files s b \<Longrightarrow> same_files s (if c then a else b)"
  by simp

lemma same_option: "same_files s a \<Longrightarrow> (\<And>x. same_files s (f x)) \<Longrightarrow> same_files s (case_option a f y)"
  by (cases y) simp_all

lemma same_let_state: "same_files s x \<Longrightarrow> (\<And>s'. same_files s s' \<Longrightarrow> same_files s (f s')) \<Longrightarrow> same_files s (Let x f)"
  by simp

lemma same_let: "same_files s (f x) \<Longrightarrow> same_files s (Let x f)"
  by simp

lemma samev_pair: "same_files s s' \<Longrightarrow> samev s (v, s')"
  by (simp add: samev_def)

lemma samev_if: "samev s a \<Longrightarrow> samev s b \<Longrightarrow> samev s (if c then a else b)"
  by simp

lemmas keep_constructs =
  keep_Some keep_None keep_if keep_bind keep_bindv keep_bind_plain keep_option keep_let_state keep_pair_state keep_let
  keep_pair keep_pair_app keep_for_range
  keepv_Some keepv_None keepv_if keepv_bind keepv_bindv keepv_bind_plain keepv_option keepv_let_state keepv_pair_state
  keepv_let keepv_pair keepv_pair_app
  same_if same_option same_let_state same_let samev_pair samev_if

section \<open>Primitive operations\<close>

named_theorems keeps "routines that leave the file table and the descriptors alone"

lemma same_fields [keeps]:
  assumes "same_files s s'"
  shows "same_files s (upd_buffer b f s')" "same_files s (upd_inode i g s')" "same_files s (upd_super k h s')"
    "same_files s (upd_request r u s')" "same_files s (s'\<lparr>hash_table := x1\<rparr>)" "same_files s (s'\<lparr>free_list := x2\<rparr>)"
    "same_files s (s'\<lparr>last_inode := x3\<rparr>)" "same_files s (s'\<lparr>rd_mem := x4\<rparr>)" "same_files s (s'\<lparr>disk := x5\<rparr>)"
    "same_files s (s'\<lparr>current_request := x6\<rparr>)" "same_files s (s'\<lparr>phys := x7\<rparr>)" "same_files s (s'\<lparr>buffer_wait := x8\<rparr>)"
    "same_files s (s'\<lparr>wait_for_request := x9\<rparr>)" "same_files s (s'\<lparr>moff_timer := x10\<rparr>)"
    "same_files s (s'\<lparr>mem_map := x11\<rparr>)" "same_files s (s'\<lparr>mon_timer := x12\<rparr>)" "same_files s (s'\<lparr>current_DOR := x13\<rparr>)"
    "same_files s (s'\<lparr>ports := x14\<rparr>)" "same_files s (s'\<lparr>tty_pgrp := x15\<rparr>)" "same_files s (s'\<lparr>fs_mem := x16\<rparr>)"
    "same_files s (s'\<lparr>last_task_used_math := x17\<rparr>)" "same_files s (s'\<lparr>last_pid := x18\<rparr>)"
  using assms by (simp_all add: same_files_def upd_defs)

lemma same_upd_task:
  assumes "same_files s s'" "\<And>t. t_filp (f t) = t_filp t" "\<And>t. t_state (f t) = TASK_ZOMBIE \<Longrightarrow> t_state t = TASK_ZOMBIE"
  shows "same_files s (upd_task p f s')"
  using assms by (simp add: same_files_def upd_task_def)

lemma same_upd_file:
  "same_files s s' \<Longrightarrow> (\<And>x. f_count (g x) = f_count x) \<Longrightarrow> same_files s (upd_file f g s')"
  by (simp add: same_files_def upd_file_def)

lemma same_set_running [keeps]: "same_files s s' \<Longrightarrow> same_files s (set_state p 0 s')"
  unfolding set_state_def by (erule same_upd_task) simp_all

lemma same_wake_up:
  assumes "same_files s s'" "\<And>v t. same_files s t \<Longrightarrow> same_files s (w v t)"
  shows "same_files s (wake_up (Some (r, w)) s')"
  using assms by (simp add: wake_up_def same_set_running)

lemma same_wake_queues [keeps]:
  assumes "same_files s s'"
  shows "same_files s (wake_up (Some (b_waitq b)) s')" "same_files s (wake_up (Some (i_waitq i)) s')"
    "same_files s (wake_up (Some (s_waitq k)) s')" "same_files s (wake_up (Some buffer_waitq) s')"
    "same_files s (wake_up (Some request_waitq) s')" "same_files s (wake_up (Some (rq_waitq r)) s')"
  unfolding waitq_defs by (rule same_wake_up, rule assms, rule same_fields, assumption)+

lemma keep_waits [keeps]:
  assumes "same_files s s'"
  shows "keep s (wait_on_buffer b s')" "keep s (wait_on_inode i s')" "keep s (wait_on_super k s')"
    "keep s (lock_inode i s')" "keep s (lock_super k s')" "keep s (lock_buffer b s')"
    "same_files s (unlock_inode i s')" "same_files s (free_super k s')" "same_files s (unlock_buffer b s')"
  unfolding wait_on_buffer_def wait_on_inode_def wait_on_super_def lock_inode_def lock_super_def lock_buffer_def
    unlock_inode_def free_super_def unlock_buffer_def
  by (intro keep_constructs keeps assms)+

lemma keep_free_page [keeps]: "same_files s s' \<Longrightarrow> keep s (free_page p s')"
  unfolding free_page_def by (intro keep_constructs keeps)

lemma samev_get_free_page [keeps]: "same_files s s' \<Longrightarrow> samev s (get_free_page s')"
  by (auto simp: samev_def get_free_page_def Let_def same_files_def split: option.splits)

lemma same_outb [keeps]: "same_files s s' \<Longrightarrow> same_files s (outb v p s')"
  unfolding outb_def by (intro keeps)

lemma same_floppy_off [keeps]: "same_files s s' \<Longrightarrow> same_files s (floppy_off nr s')"
  unfolding floppy_off_def by (intro keeps)

lemma same_copy_block [keeps]: "same_files s s' \<Longrightarrow> same_files s (copy_block d a s')"
  unfolding copy_block_def by (intro keeps)

section \<open>The block layer\<close>

lemma same_end_request [keeps]: "same_files s s' \<Longrightarrow> same_files s (end_request major ok s')"
  unfolding end_request_def by (intro keep_constructs keeps)

lemma keepv_rd_transfer [keeps]: "same_files s s' \<Longrightarrow> keepv s (rd_transfer r s')"
  unfolding rd_transfer_def by (intro keep_constructs keeps)

lemma samev_hw_transfer [keeps]: "same_files s s' \<Longrightarrow> samev s (hw_transfer r s')"
  unfolding hw_transfer_def Let_def by (intro keep_constructs keeps)

lemma do_request_same: "do_request major s = Some s' \<Longrightarrow> same_files s s'"
  apply (erule do_request.raw_induct [where P = "\<lambda>_. same_files", rotated])
  subgoal premises p for rec
  proof -
    have rec: "same_files s s' \<Longrightarrow> keep s (rec x1 s')" for s s' x1
      by (rule keep_call, erule p(1))
    show ?thesis by (rule keepD [OF _ p(2)]) (intro keep_constructs keeps rec same_files_refl)
  qed
  done

lemma keep_do_request [keeps]: "same_files s s' \<Longrightarrow> keep s (do_request major s')"
  by (rule keep_call, erule do_request_same)

lemma keep_add_request [keeps]: "same_files s s' \<Longrightarrow> keep s (add_request major req s')"
  unfolding add_request_def by (intro keep_constructs keeps)

lemma keep_make_request [keeps]: "same_files s s' \<Longrightarrow> keep s (make_request major rw b s')"
  unfolding make_request_def by (intro keep_constructs keeps)

lemma keep_ll_rw_block [keeps]: "same_files s s' \<Longrightarrow> keep s (ll_rw_block rw b s')"
  unfolding ll_rw_block_def by (intro keep_constructs keeps)

section \<open>The buffer cache\<close>

lemma keep_queues [keeps]:
  assumes "same_files s s'"
  shows "keep s (remove_from_queues b s')" "keep s (insert_into_queues b s')"
  unfolding remove_from_queues_def insert_into_queues_def by (intro keep_constructs keeps assms)+

lemma keep_brelse [keeps]: "same_files s s' \<Longrightarrow> keep s (brelse b s')"
  unfolding brelse_def by (intro keep_constructs keeps)

lemma keepv_get_hash_table [keeps]: "same_files s s' \<Longrightarrow> keepv s (get_hash_table dev block s')"
  unfolding get_hash_table_def by (intro keep_constructs keeps)

lemma keepv_get_super [keeps]: "same_files s s' \<Longrightarrow> keepv s (get_super dev s')"
  unfolding get_super_def by (intro keep_constructs keeps)

lemma keep_write_dirty_buffers [keeps]: "same_files s s' \<Longrightarrow> keep s (write_dirty_buffers dev s')"
  unfolding write_dirty_buffers_def by (intro keep_constructs keeps)

text \<open>The routines that take \<open>getblk\<close> as an argument, for every such argument that keeps the files.\<close>

lemma keepv_bread_with:
  assumes "\<And>d k s'. same_files s s' \<Longrightarrow> keepv s (gb d k s')" "same_files s s'"
  shows "keepv s (bread_with gb dev block s')"
  unfolding bread_with_def by (intro keep_constructs keeps assms)

lemma keep_write_inode_with:
  assumes "\<And>d k s'. same_files s s' \<Longrightarrow> keepv s (gb d k s')" "same_files s s'"
  shows "keep s (write_inode_with gb i s')"
  unfolding write_inode_with_def by (intro keep_constructs keeps keepv_bread_with assms)

lemma keep_sync_inodes_with:
  assumes "\<And>d k s'. same_files s s' \<Longrightarrow> keepv s (gb d k s')" "same_files s s'"
  shows "keep s (sync_inodes_with gb s')"
  unfolding sync_inodes_with_def by (intro keep_constructs keeps keep_write_inode_with assms)

lemma keep_sync_dev_with:
  assumes "\<And>d k s'. same_files s s' \<Longrightarrow> keepv s (gb d k s')" "same_files s s'"
  shows "keep s (sync_dev_with gb dev s')"
  unfolding sync_dev_with_def by (intro keep_constructs keeps keep_sync_inodes_with assms)

lemma getblk_at_same: "getblk_at at dev block s = Some x \<Longrightarrow> same_files s (snd x)"
  apply (erule getblk_at.raw_induct [where P = "\<lambda>_ _ _ s x. same_files s (snd x)", rotated])
  subgoal premises p for rec
  proof -
    have rec: "same_files s s' \<Longrightarrow> keepv s (rec x1 x2 x3 s')" for s s' x1 x2 x3
      by (rule keepv_call, erule p(1))
    show ?thesis by (rule keepvD [OF _ p(2)]) (intro keep_constructs keeps keep_sync_dev_with rec same_files_refl)
  qed
  done

lemma keepv_getblk_at [keeps]: "same_files s s' \<Longrightarrow> keepv s (getblk_at at dev block s')"
  by (rule keepv_call, erule getblk_at_same)

lemma keepv_getblk [keeps]: "same_files s s' \<Longrightarrow> keepv s (getblk dev block s')"
  unfolding getblk_def by (rule keepv_getblk_at)

lemma keepv_bread [keeps]: "same_files s s' \<Longrightarrow> keepv s (bread dev block s')"
  unfolding bread_def by (rule keepv_bread_with [OF keepv_getblk])

lemma keep_write_inode [keeps]: "same_files s s' \<Longrightarrow> keep s (write_inode i s')"
  unfolding write_inode_def by (rule keep_write_inode_with [OF keepv_getblk])

lemma keepv_sync_dev [keeps]: "same_files s s' \<Longrightarrow> keepv s (sync_dev dev s')"
  unfolding sync_dev_def by (intro keep_constructs keep_sync_dev_with keeps)

lemma keep_invalidate_buffers [keeps]: "same_files s s' \<Longrightarrow> keep s (invalidate_buffers dev s')"
  unfolding invalidate_buffers_def by (intro keep_constructs keeps)

section \<open>Bitmaps and inodes\<close>

lemma keep_free_block [keeps]: "same_files s s' \<Longrightarrow> keep s (free_block dev block s')"
  unfolding free_block_def by (intro keep_constructs keeps)

lemma keepv_new_block [keeps]: "same_files s s' \<Longrightarrow> keepv s (new_block dev s')"
  unfolding new_block_def by (intro keep_constructs keeps)

lemma keep_free_inode [keeps]: "same_files s s' \<Longrightarrow> keep s (free_inode i s')"
  unfolding free_inode_def by (intro keep_constructs keeps)

lemma keep_free_ind [keeps]: "same_files s s' \<Longrightarrow> keep s (free_ind dev block s')"
  unfolding free_ind_def by (intro keep_constructs keeps)

lemma keep_free_dind [keeps]: "same_files s s' \<Longrightarrow> keep s (free_dind dev block s')"
  unfolding free_dind_def by (intro keep_constructs keeps)

lemma keep_truncate [keeps]: "same_files s s' \<Longrightarrow> keep s (truncate i s')"
  unfolding truncate_def by (intro keep_constructs keeps)

lemma keep_invalidate_inodes [keeps]: "same_files s s' \<Longrightarrow> keep s (invalidate_inodes dev s')"
  unfolding invalidate_inodes_def by (intro keep_constructs keeps)

lemma keep_create_zone [keeps]: "same_files s s' \<Longrightarrow> keep s (create_zone i k s')"
  unfolding create_zone_def by (intro keep_constructs keeps)

lemma keepv_bmap_indirect [keeps]: "same_files s s' \<Longrightarrow> keepv s (bmap_indirect i z k create s')"
  unfolding bmap_indirect_def by (intro keep_constructs keeps)

lemma keepv_bmap_at [keeps]: "same_files s s' \<Longrightarrow> keepv s (bmap_at i block create s')"
  unfolding bmap_at_def by (intro keep_constructs keeps)

lemma keepv_bmap [keeps]: "same_files s s' \<Longrightarrow> keepv s (bmap i block s')"
  "same_files s s' \<Longrightarrow> keepv s (create_block i block s')"
  unfolding bmap_def create_block_def by (intro keeps; assumption)+

lemma iput_repeat_same: "iput_repeat i s = Some s' \<Longrightarrow> same_files s s'"
  apply (erule iput_repeat.raw_induct [where P = "\<lambda>_. same_files", rotated])
  subgoal premises p for rec
  proof -
    have rec: "same_files s s' \<Longrightarrow> keep s (rec x1 s')" for s s' x1
      by (rule keep_call, erule p(1))
    show ?thesis by (rule keepD [OF _ p(2)]) (intro keep_constructs keeps rec same_files_refl)
  qed
  done

lemma keep_iput_repeat [keeps]: "same_files s s' \<Longrightarrow> keep s (iput_repeat i s')"
  by (rule keep_call, erule iput_repeat_same)

lemma keep_iput [keeps]: "same_files s s' \<Longrightarrow> keep s (iput i s')"
  unfolding iput_def by (intro keep_constructs keeps)

lemma clean_inode_same: "clean_inode i s = Some s' \<Longrightarrow> same_files s s'"
  apply (erule clean_inode.raw_induct [where P = "\<lambda>_. same_files", rotated])
  subgoal premises p for rec
  proof -
    have rec: "same_files s s' \<Longrightarrow> keep s (rec x1 s')" for s s' x1
      by (rule keep_call, erule p(1))
    show ?thesis by (rule keepD [OF _ p(2)]) (intro keep_constructs keeps rec same_files_refl)
  qed
  done

lemma keep_clean_inode [keeps]: "same_files s s' \<Longrightarrow> keep s (clean_inode i s')"
  by (rule keep_call, erule clean_inode_same)

lemma get_empty_inode_same: "get_empty_inode s = Some x \<Longrightarrow> same_files s (snd x)"
  apply (erule get_empty_inode.raw_induct [where P = "\<lambda>s x. same_files s (snd x)", rotated])
  subgoal premises p for rec
  proof -
    have rec: "same_files s s' \<Longrightarrow> keepv s (rec s')" for s s' 
      by (rule keepv_call, erule p(1))
    show ?thesis by (rule keepvD [OF _ p(2)]) (intro keep_constructs keeps rec same_files_refl)
  qed
  done

lemma keepv_get_empty_inode [keeps]: "same_files s s' \<Longrightarrow> keepv s (get_empty_inode s')"
  by (rule keepv_call, erule get_empty_inode_same)

lemma keepv_get_pipe_inode [keeps]: "same_files s s' \<Longrightarrow> keepv s (get_pipe_inode s')"
  unfolding get_pipe_inode_def by (intro keep_constructs keeps)

lemma keep_read_inode [keeps]: "same_files s s' \<Longrightarrow> keep s (read_inode i s')"
  unfolding read_inode_def by (intro keep_constructs keeps)

lemma iget_scan_same: "iget_scan fr i dev nr s = Some x \<Longrightarrow> same_files s (snd x)"
  apply (erule iget_scan.raw_induct [where P = "\<lambda>_ _ _ _ s x. same_files s (snd x)", rotated])
  subgoal premises p for rec
  proof -
    have rec: "same_files s s' \<Longrightarrow> keepv s (rec x1 x2 x3 x4 s')" for s s' x1 x2 x3 x4
      by (rule keepv_call, erule p(1))
    show ?thesis by (rule keepvD [OF _ p(2)]) (intro keep_constructs keeps rec same_files_refl)
  qed
  done

lemma keepv_iget_scan [keeps]: "same_files s s' \<Longrightarrow> keepv s (iget_scan fr i dev nr s')"
  by (rule keepv_call, erule iget_scan_same)

lemma keepv_iget [keeps]: "same_files s s' \<Longrightarrow> keepv s (iget dev nr s')"
  unfolding iget_def by (intro keep_constructs keeps)

lemma keepv_new_inode [keeps]: "same_files s s' \<Longrightarrow> keepv s (new_inode dev s')"
  unfolding new_inode_def by (intro keep_constructs keeps)

section \<open>Path names\<close>

lemma search_dir_same: "search_dir dir name namelen entries i k bh s = Some x \<Longrightarrow> same_files s (snd x)"
  apply (erule search_dir.raw_induct [where P = "\<lambda>_ _ _ _ _ _ _ s x. same_files s (snd x)", rotated])
  subgoal premises p for rec
  proof -
    have rec: "same_files s s' \<Longrightarrow> keepv s (rec x1 x2 x3 x4 x5 x6 x7 s')" for s s' x1 x2 x3 x4 x5 x6 x7
      by (rule keepv_call, erule p(1))
    show ?thesis by (rule keepvD [OF _ p(2)]) (intro keep_constructs keeps rec same_files_refl)
  qed
  done

lemma keepv_search_dir [keeps]: "same_files s s' \<Longrightarrow> keepv s (search_dir dir name namelen entries i k bh s')"
  by (rule keepv_call, erule search_dir_same)

lemma keepv_find_entry [keeps]: "same_files s s' \<Longrightarrow> keepv s (find_entry dir name namelen s')"
  unfolding find_entry_def by (intro keep_constructs keeps)

lemma add_entry_at_same: "add_entry_at dir name namelen i k bh s = Some x \<Longrightarrow> same_files s (snd x)"
  apply (erule add_entry_at.raw_induct [where P = "\<lambda>_ _ _ _ _ _ s x. same_files s (snd x)", rotated])
  subgoal premises p for rec
  proof -
    have rec: "same_files s s' \<Longrightarrow> keepv s (rec x1 x2 x3 x4 x5 x6 s')" for s s' x1 x2 x3 x4 x5 x6
      by (rule keepv_call, erule p(1))
    show ?thesis by (rule keepvD [OF _ p(2)]) (intro keep_constructs keeps rec same_files_refl)
  qed
  done

lemma keepv_add_entry_at [keeps]: "same_files s s' \<Longrightarrow> keepv s (add_entry_at dir name namelen i k bh s')"
  by (rule keepv_call, erule add_entry_at_same)

lemma keepv_add_entry [keeps]: "same_files s s' \<Longrightarrow> keepv s (add_entry dir name namelen s')"
  unfolding add_entry_def by (intro keep_constructs keeps)

lemma same_set_entry [keeps]: "same_files s s' \<Longrightarrow> same_files s (set_entry de n s')"
  unfolding set_entry_def by (intro keeps)

lemma walk_dirs_same: "walk_dirs i pathname s = Some x \<Longrightarrow> same_files s (snd x)"
  apply (erule walk_dirs.raw_induct [where P = "\<lambda>_ _ s x. same_files s (snd x)", rotated])
  subgoal premises p for rec
  proof -
    have rec: "same_files s s' \<Longrightarrow> keepv s (rec x1 x2 s')" for s s' x1 x2
      by (rule keepv_call, erule p(1))
    show ?thesis by (rule keepvD [OF _ p(2)]) (intro keep_constructs keeps rec same_files_refl)
  qed
  done

lemma keepv_walk_dirs [keeps]: "same_files s s' \<Longrightarrow> keepv s (walk_dirs i pathname s')"
  by (rule keepv_call, erule walk_dirs_same)

lemma keepv_get_dir [keeps]: "same_files s s' \<Longrightarrow> keepv s (get_dir pathname s')"
  unfolding get_dir_def by (intro keep_constructs keeps)

lemma keepv_dir_namei [keeps]: "same_files s s' \<Longrightarrow> keepv s (dir_namei pathname s')"
  unfolding dir_namei_def by (intro keep_constructs keeps)

lemma keepv_namei [keeps]: "same_files s s' \<Longrightarrow> keepv s (namei pathname s')"
  unfolding namei_def by (intro keep_constructs keeps)

lemma keepv_open_namei [keeps]: "same_files s s' \<Longrightarrow> keepv s (open_namei pathname flag mode s')"
  unfolding open_namei_def by (intro keep_constructs keeps)

end
