(* ===== verification/Task_Frame.thy ===== *)
theory Task_Frame
  imports File_Frame Process Exec Scheduling
begin

text \<open>
  The same for memory management, the scheduler and program execution: they leave the file table and the descriptors
  alone, but for the descriptors that \<open>exec\<close> closes.
\<close>

section \<open>Memory\<close>

lemma same_put_fs [keeps]:
  assumes "same_files s s'"
  shows "same_files s (put_fs_byte b a s')" "same_files s (put_fs_long v a s')" "same_files s (put_byte b a s')"
    "same_files s (set_tss_desc n a s')" "same_files s (set_ldt_desc n a s')"
  using assms by (simp_all add: same_files_def put_fs_byte_def put_fs_long_def put_byte_def set_tss_desc_def
      set_ldt_desc_def Let_def)

lemma keep_free_ptes [keeps]: "same_files s s' \<Longrightarrow> keep s (free_ptes n pt s')"
proof (induction n arbitrary: pt s')
  case (Suc n)
  show ?case unfolding free_ptes.simps by (intro keep_constructs keeps Suc)
qed (simp add: keep_Some keepv_Some samev_def)

lemma keep_free_dirs [keeps]: "same_files s s' \<Longrightarrow> keep s (free_dirs n dir s')"
proof (induction n arbitrary: dir s')
  case (Suc n)
  show ?case unfolding free_dirs.simps by (intro keep_constructs keeps Suc)
qed (simp add: keep_Some keepv_Some samev_def)

lemma keepv_free_page_tables [keeps]: "same_files s s' \<Longrightarrow> keepv s (free_page_tables from sz s')"
  unfolding free_page_tables_def by (intro keep_constructs keeps)

lemma same_copy_ptes [keeps]: "same_files s s' \<Longrightarrow> same_files s (copy_ptes n from_pt to_pt s')"
proof (induction n arbitrary: from_pt to_pt s')
  case (Suc n)
  show ?case unfolding copy_ptes.simps by (intro keep_constructs keeps Suc)
qed (simp add: keep_Some keepv_Some samev_def)

lemma keepv_copy_dirs [keeps]: "same_files s s' \<Longrightarrow> keepv s (copy_dirs n nr from_dir to_dir s')"
proof (induction n arbitrary: from_dir to_dir s')
  case (Suc n)
  show ?case unfolding copy_dirs.simps by (intro keep_constructs keeps Suc)
qed (simp add: keep_Some keepv_Some samev_def)

lemma keepv_copy_page_tables [keeps]: "same_files s s' \<Longrightarrow> keepv s (copy_page_tables from to sz s')"
  unfolding copy_page_tables_def by (intro keep_constructs keeps)

lemma samev_put_page [keeps]: "same_files s s' \<Longrightarrow> samev s (put_page page a s')"
  using samev_get_free_page [of s s']
  by (auto simp: put_page_def Let_def samev_def same_fields split: prod.splits if_splits)

lemma samev_un_wp_page [keeps]: "same_files s s' \<Longrightarrow> samev s (un_wp_page e s')"
  using samev_get_free_page [of s s']
  by (auto simp: un_wp_page_def Let_def samev_def same_fields split: prod.splits if_splits)

lemma samev_write_verify [keeps]: "same_files s s' \<Longrightarrow> samev s (write_verify a s')"
  using samev_un_wp_page [of s s'] by (auto simp: write_verify_def Let_def samev_def)

lemma keep_verify_pages [keeps]: "same_files s s' \<Longrightarrow> keep s (verify_pages sz a s')"
proof (induction sz a s' rule: verify_pages.induct)
  case (1 sz a s')
  show ?case
    using samev_write_verify [OF "1.prems", of a] "1.IH"
    by (subst verify_pages.simps)
      (auto simp: samev_def keep_None keep_Some "1.prems" split: prod.splits fault.splits)
qed

lemma keep_verify_area [keeps]: "same_files s s' \<Longrightarrow> keep s (verify_area a n s')"
  unfolding verify_area_def by (intro keep_constructs keeps)

section \<open>The scheduler\<close>

lemma same_for_tasks:
  assumes "same_files s s'" "\<And>t. t_filp (f t) = t_filp t" "\<And>t. t_state (f t) = TASK_ZOMBIE \<Longrightarrow> t_state t = TASK_ZOMBIE"
  shows "same_files s (for_tasks f n s')"
  using assms(1) by (induction n arbitrary: s') (simp_all add: same_upd_task assms(2,3))

lemma same_check_signals: "same_files s s' \<Longrightarrow> same_files s (for_tasks (check_signals j) n s')"
  by (rule same_for_tasks) (auto simp: check_signals_def Let_def split: if_splits)

lemma same_recharge: "same_files s s' \<Longrightarrow> same_files s (for_tasks recharge n s')"
  by (rule same_for_tasks) (auto simp: recharge_def)

lemma sched_loop_same: "sched_loop s = Some x \<Longrightarrow> same_files s (snd x)"
  apply (erule sched_loop.raw_induct [where P = "\<lambda>s x. same_files s (snd x)", rotated])
  subgoal premises p for rec s x
    using p(2) same_files_trans [OF same_recharge [OF same_files_refl] p(1)]
    by (auto simp: Let_def same_files_refl split: prod.splits if_splits)
  done

section \<open>Descriptor flags and disk changes\<close>

lemma same_clear_cloexec [keeps]: "same_files s s' \<Longrightarrow> same_files s (clear_cloexec d s')"
  unfolding clear_cloexec_def by (erule same_upd_task) simp_all

lemma floppy_on_same: "floppy_on nr s = Some (None, s') \<Longrightarrow> same_files s s'"
  by (auto simp: floppy_on_def ticks_to_floppy_on_def sleep_on_def motor_queue_def outb_def Let_def same_files_def
      bind_eq_Some_conv split: if_splits)

lemma floppy_change_same: "floppy_change nr s = Some x \<Longrightarrow> same_files s (snd x)"
  apply (erule floppy_change.raw_induct [where P = "\<lambda>_ s x. same_files s (snd x)", rotated])
  subgoal premises p for rec nr s x
    using p(2) by (auto simp: bind_eq_Some_conv dest!: floppy_on_same dest: p(1) intro: same_floppy_off same_files_trans
      split: if_splits)
  done

lemma keepv_floppy_change [keeps]: "same_files s s' \<Longrightarrow> keepv s (floppy_change nr s')"
  by (rule keepv_call, erule floppy_change_same)

lemma keep_put_super [keeps]: "same_files s s' \<Longrightarrow> keep s (put_super dev s')"
  unfolding put_super_def by (intro keep_constructs keeps)

lemma keep_check_disk_change [keeps]: "same_files s s' \<Longrightarrow> keep s (check_disk_change dev s')"
  unfolding check_disk_change_def by (intro keep_constructs keeps)

section \<open>Processes\<close>

lemma keepv_copy_mem [keeps]: "same_files s s' \<Longrightarrow> keepv s (copy_mem nr p s')"
  unfolding copy_mem_def by (intro keep_constructs keeps same_upd_task) simp_all

lemma same_inc_inode [keeps]: "same_files s s' \<Longrightarrow> same_files s (inc_inode i s')"
  unfolding inc_inode_def by (intro keep_constructs keeps)

lemma samev_send_sig [keeps]: "same_files s s' \<Longrightarrow> samev s (send_sig sig p priv s')"
  unfolding send_sig_def by (intro keep_constructs keeps same_upd_task) simp_all

lemma same_kill_session [keeps]: "same_files s s' \<Longrightarrow> same_files s (kill_session n s')"
proof (induction n arbitrary: s')
  case (Suc n)
  show ?case unfolding kill_session.simps by (intro keep_constructs keeps Suc same_upd_task) simp_all
qed simp

lemma keep_adopt_children [keeps]: "same_files s s' \<Longrightarrow> keep s (adopt_children s')"
  unfolding adopt_children_def
  by (intro keep_constructs keeps same_upd_task samev_send_sig [unfolded samev_def]) simp_all

section \<open>Program execution\<close>

lemma next_offset_same: "next_offset v s = Some (ok, v', s') \<Longrightarrow> same_files s s'"
  using samev_get_free_page [OF same_files_refl, of s]
  by (auto simp: next_offset_def Let_def samev_def same_files_refl split: if_splits prod.splits)

lemma copy_bytes_same: "copy_bytes n m tmp v s = Some (ok, v', s') \<Longrightarrow> same_files s s'"
proof (induction n arbitrary: tmp v s)
  case (Suc n)
  from Suc.prems obtain ok1 v1 s1 where n: "next_offset (v\<lparr>ar_p := ar_p v - 1\<rparr>) s = Some (ok1, v1, s1)"
    and r: "(if \<not> ok1 then Some (False, v1, s1)
      else copy_bytes n m (tmp - 1) v1 (put_byte (m (tmp - 1)) (ar_pag v1 + word_of_int (ar_offset v1)) s1)) = Some (ok, v', s')"
    by (auto simp: bind_eq_Some_conv)
  note k = next_offset_same [OF n]
  show ?case using r same_files_trans [OF same_put_fs(3) [OF k] Suc.IH] k by (auto split: if_splits)
qed (simp add: same_files_refl)

lemma copy_args_same: "copy_args n argv m v s = Some (ok, v', s') \<Longrightarrow> same_files s s'"
proof (induction n arbitrary: v s)
  case (Suc n)
  then show ?case
    by (auto simp: bind_eq_Some_conv split: if_splits dest!: copy_bytes_same intro: same_files_trans)
qed (simp add: same_files_refl)

lemma keepv_copy_strings [keeps]: "same_files s s' \<Longrightarrow> keepv s (copy_strings argc argv m page p s')"
  by (auto simp: copy_strings_def keepv_def samev_def bind_eq_Some_conv split: if_splits
      dest!: copy_args_same intro: same_files_trans)

lemma keepv_read_image [keeps]: "same_files s s' \<Longrightarrow> keepv s (read_image b i s')"
  unfolding read_image_def by (intro keep_constructs keeps)

lemma keepv_splice_args [keeps]:
  "same_files s s' \<Longrightarrow> keepv s (splice_args filename argv envp argc envc i_name i_arg m page p s')"
  unfolding splice_args_def by (intro keep_constructs keeps)

lemma keepv_kernel_namei [keeps]: "same_files s s' \<Longrightarrow> keepv s (with_kernel_fs m (namei name) s')"
  unfolding with_kernel_fs_def by (intro keep_constructs keeps)

lemma keepv_exec_script [keeps]:
  "same_files s s' \<Longrightarrow> keepv s (exec_script d filename argv envp argc envc page p s')"
  unfolding exec_script_def by (intro keep_constructs keeps)

lemma same_clear_handlers [keeps]: "same_files s s' \<Longrightarrow> same_files s (clear_handlers s')"
  unfolding clear_handlers_def by (erule same_upd_task) simp_all

lemma keep_drop_memory [keeps]: "same_files s s' \<Longrightarrow> keep s (drop_memory s')"
  unfolding drop_memory_def by (intro keep_constructs keeps same_upd_task) simp_all

lemma same_put_pages [keeps]: "same_files s s' \<Longrightarrow> same_files s (put_pages n page a s')"
proof (induction n arbitrary: a s')
  case (Suc n)
  show ?case unfolding put_pages.simps
    by (intro keep_constructs keeps Suc samev_put_page [unfolded samev_def])
qed simp

lemma samev_change_ldt [keeps]: "same_files s s' \<Longrightarrow> samev s (change_ldt n page s')"
  unfolding change_ldt_def set_ldt_def Let_def by (intro keep_constructs keeps same_upd_task) simp_all

lemma put_pointers_same: "put_pointers n p argv s = Some (p', argv', s') \<Longrightarrow> same_files s s'"
  by (induction n arbitrary: p argv s)
    (auto simp: Let_def bind_eq_Some_conv same_files_refl intro: same_files_trans [OF same_put_fs(2) [OF same_files_refl]])

lemma keepv_create_tables [keeps]: "same_files s s' \<Longrightarrow> keepv s (create_tables p argc envc s')"
  by (auto simp: create_tables_def Let_def keepv_def samev_def bind_eq_Some_conv dest!: put_pointers_same
      intro!: same_put_fs elim!: same_files_trans [rotated])

lemma same_set_sizes [keeps]: "same_files s s' \<Longrightarrow> same_files s (set_sizes ex p u g s')"
  unfolding set_sizes_def by (erule same_upd_task) simp_all

lemma clear_bss_same: "clear_bss i s = Some s' \<Longrightarrow> same_files s s'"
  apply (erule clear_bss.raw_induct [where P = "\<lambda>_. same_files", rotated])
  subgoal premises p for rec
  proof -
    have rec: "same_files s s' \<Longrightarrow> keep s (rec x1 s')" for s s' x1
      by (rule keep_call, erule p(1))
    show ?thesis by (rule keepD [OF _ p(2)]) (intro keep_constructs keeps rec same_files_refl)
  qed
  done

lemma keep_clear_bss [keeps]: "same_files s s' \<Longrightarrow> keep s (clear_bss i s')"
  by (rule keep_call, erule clear_bss_same)

end
