(* ===== verification/File_Calls.thy ===== *)
theory File_Calls
  imports Task_Frame Read_Write
begin

text \<open>
  The system calls on files that neither open nor close: each leaves the descriptors and the counts of the file table
  alone, whatever it does to inodes, buffers and the medium. The terminal driver is a parameter that does so as well.
\<close>

section \<open>Directories and inodes\<close>

lemma scan_empty_same: "scan_empty inode len nr k b s = Some x \<Longrightarrow> same_files s (snd x)"
  apply (erule scan_empty.raw_induct [where P = "\<lambda>_ _ _ _ _ s x. same_files s (snd x)", rotated])
  subgoal premises p for rec
  proof -
    have rec: "same_files s s' \<Longrightarrow> keepv s (rec x1 x2 x3 x4 x5 s')" for s s' x1 x2 x3 x4 x5
      by (rule keepv_call, erule p(1))
    show ?thesis by (rule keepvD [OF _ p(2)]) (intro keep_constructs keeps rec same_files_refl)
  qed
  done

lemma keepv_scan_empty [keeps]: "same_files s s' \<Longrightarrow> keepv s (scan_empty inode len nr k b s')"
  by (rule keepv_call, erule scan_empty_same)

lemma keepv_empty_dir [keeps]: "same_files s s' \<Longrightarrow> keepv s (empty_dir i s')"
  unfolding empty_dir_def by (intro keep_constructs keeps)

lemma keepv_names [keeps]:
  assumes "same_files s s'"
  shows "keepv s (sys_mknod name mode dev s')" "keepv s (sys_mkdir name mode s')"
    "keepv s (sys_unlink name s')" "keepv s (sys_link oldname newname s')"
  unfolding sys_mknod_def sys_mkdir_def sys_unlink_def sys_link_def
  by (intro keep_constructs keeps assms; assumption)+

lemma keepv_rmdir [keeps]: "same_files s s' \<Longrightarrow> keepv s (sys_rmdir name s')"
  unfolding sys_rmdir_def by (intro keep_constructs keeps)

lemma keepv_attributes [keeps]:
  assumes "same_files s s'"
  shows "keepv s (sys_utime name tp s')" "keepv s (sys_access name mode s')" "keepv s (sys_chmod name mode s')"
    "keepv s (sys_chown name uid gid s')" "keepv s (sys_chdir name s')" "keepv s (sys_chroot name s')"
  unfolding sys_utime_def sys_access_def sys_chmod_def sys_chown_def sys_chdir_def sys_chroot_def
  by (intro keep_constructs keeps same_upd_task assms; simp)+

section \<open>Reading and writing\<close>

lemma same_to_user [keeps]: "same_files s s' \<Longrightarrow> same_files s (to_user n d k buf s')"
  by (induction n arbitrary: k buf s') (simp_all add: same_put_fs)

lemma same_advance_pos [keeps]: "same_files s s' \<Longrightarrow> same_files s (advance_pos f n s')"
  unfolding advance_pos_def by (erule same_upd_file) simp

lemma file_read_loop_same: "file_read_loop i f buf left s = Some x \<Longrightarrow> same_files s (snd x)"
  apply (erule file_read_loop.raw_induct [where P = "\<lambda>_ _ _ _ s x. same_files s (snd x)", rotated])
  subgoal premises p for rec
  proof -
    have rec: "same_files s s' \<Longrightarrow> keepv s (rec x1 x2 x3 x4 s')" for s s' x1 x2 x3 x4
      by (rule keepv_call, erule p(1))
    show ?thesis by (rule keepvD [OF _ p(2)]) (intro keep_constructs keeps same_upd_file rec same_files_refl; simp)
  qed
  done

lemma keepv_file_read [keeps]: "same_files s s' \<Longrightarrow> keepv s (file_read i f buf count s')"
  unfolding file_read_def by (intro keep_constructs keeps keepv_call [OF file_read_loop_same])

lemma file_write_loop_same: "file_write_loop i pos buf n count s = Some x \<Longrightarrow> same_files s (snd x)"
  apply (erule file_write_loop.raw_induct [where P = "\<lambda>_ _ _ _ _ s x. same_files s (snd x)", rotated])
  subgoal premises p for rec
  proof -
    have rec: "same_files s s' \<Longrightarrow> keepv s (rec x1 x2 x3 x4 x5 s')" for s s' x1 x2 x3 x4 x5
      by (rule keepv_call, erule p(1))
    show ?thesis by (rule keepvD [OF _ p(2)]) (intro keep_constructs keeps rec same_files_refl)
  qed
  done

lemma keepv_file_write_loop [keeps]: "same_files s s' \<Longrightarrow> keepv s (file_write_loop i pos buf n count s')"
  by (rule keepv_call, erule file_write_loop_same)

lemma keepv_file_write [keeps]: "same_files s s' \<Longrightarrow> keepv s (file_write i f buf count s')"
  unfolding file_write_def by (intro keep_constructs keeps same_upd_file; simp)

lemma keep_read_ahead [keeps]: "same_files s s' \<Longrightarrow> keep s (read_ahead dev b ks s')"
proof (induction ks arbitrary: s')
  case (Cons k ks)
  show ?case unfolding read_ahead.simps by (intro keep_constructs keeps Cons)
qed (simp add: keep_Some)

lemma keepv_breada [keeps]: "same_files s s' \<Longrightarrow> keepv s (breada dev k ks s')"
  unfolding breada_def by (intro keep_constructs keeps)

lemma block_write_loop_same: "block_write_loop dev f block off buf count n s = Some x \<Longrightarrow> same_files s (snd x)"
  apply (erule block_write_loop.raw_induct [where P = "\<lambda>_ _ _ _ _ _ _ s x. same_files s (snd x)", rotated])
  subgoal premises p for rec
  proof -
    have rec: "same_files s s' \<Longrightarrow> keepv s (rec x1 x2 x3 x4 x5 x6 x7 s')" for s s' x1 x2 x3 x4 x5 x6 x7
      by (rule keepv_call, erule p(1))
    show ?thesis by (rule keepvD [OF _ p(2)]) (intro keep_constructs keeps rec same_files_refl)
  qed
  done

lemma keepv_block_write_loop [keeps]: "same_files s s' \<Longrightarrow> keepv s (block_write_loop dev f block off buf count n s')"
  by (rule keepv_call, erule block_write_loop_same)

lemma block_read_loop_same: "block_read_loop dev f block off buf count n s = Some x \<Longrightarrow> same_files s (snd x)"
  apply (erule block_read_loop.raw_induct [where P = "\<lambda>_ _ _ _ _ _ _ s x. same_files s (snd x)", rotated])
  subgoal premises p for rec
  proof -
    have rec: "same_files s s' \<Longrightarrow> keepv s (rec x1 x2 x3 x4 x5 x6 x7 s')" for s s' x1 x2 x3 x4 x5 x6 x7
      by (rule keepv_call, erule p(1))
    show ?thesis by (rule keepvD [OF _ p(2)]) (intro keep_constructs keeps rec same_files_refl)
  qed
  done

lemma keepv_block_read_loop [keeps]: "same_files s s' \<Longrightarrow> keepv s (block_read_loop dev f block off buf count n s')"
  by (rule keepv_call, erule block_read_loop_same)

lemma keepv_block_rw [keeps]:
  "same_files s s' \<Longrightarrow> keepv s (block_write dev f buf count s')"
  "same_files s s' \<Longrightarrow> keepv s (block_read dev f buf count s')"
  unfolding block_write_def block_read_def by (intro keep_constructs keeps; assumption)+

lemma same_pipe_copies [keeps]:
  assumes "same_files s s'"
  shows "same_files s (page_to_user n page off buf s')" "same_files s (user_to_page n page off buf s')"
  using assms by (induction n arbitrary: off buf s') (simp_all add: same_put_fs)

lemma read_pipe_same: "read_pipe i buf count n s = Some x \<Longrightarrow> same_files s (snd x)"
  apply (erule read_pipe.raw_induct [where P = "\<lambda>_ _ _ _ s x. same_files s (snd x)", rotated])
  subgoal premises p for rec
  proof -
    have rec: "same_files s s' \<Longrightarrow> keepv s (rec x1 x2 x3 x4 s')" for s s' x1 x2 x3 x4
      by (rule keepv_call, erule p(1))
    show ?thesis by (rule keepvD [OF _ p(2)]) (intro keep_constructs keeps rec same_files_refl)
  qed
  done

lemma keepv_read_pipe [keeps]: "same_files s s' \<Longrightarrow> keepv s (read_pipe i buf count n s')"
  by (rule keepv_call, erule read_pipe_same)

lemma write_pipe_same: "write_pipe i buf count n s = Some x \<Longrightarrow> same_files s (snd x)"
  apply (erule write_pipe.raw_induct [where P = "\<lambda>_ _ _ _ s x. same_files s (snd x)", rotated])
  subgoal premises p for rec
  proof -
    have rec: "same_files s s' \<Longrightarrow> keepv s (rec x1 x2 x3 x4 s')" for s s' x1 x2 x3 x4
      by (rule keepv_call, erule p(1))
    show ?thesis by (rule keepvD [OF _ p(2)]) (intro keep_constructs keeps same_upd_task rec same_files_refl; simp)
  qed
  done

lemma keepv_write_pipe [keeps]: "same_files s s' \<Longrightarrow> keepv s (write_pipe i buf count n s')"
  by (rule keepv_call, erule write_pipe_same)

lemma keepv_pipe_returned: "keepv s m \<Longrightarrow> keepv s (Option.bind m pipe_returned)"
  by (cases m) (auto simp: pipe_returned_def keepv_def samev_def split: prod.splits pipe_result.splits)

lemma samev_rw_port_loop [keeps]: "same_files s s' \<Longrightarrow> samev s (rw_port_loop rw n i buf s')"
proof (induction n arbitrary: i buf s')
  case (Suc n)
  show ?case unfolding rw_port_loop.simps by (intro keep_constructs keeps Suc)
qed (simp add: samev_def)

lemma samev_rw_memory [keeps]: "same_files s s' \<Longrightarrow> samev s (rw_memory rw m buf count f s')"
proof -
  assume k: "same_files s s'"
  obtain j u where u: "rw_port_loop rw (nat count) (f_pos (file_table s' f)) buf s' = (j, u)" by fastforce
  have "same_files s u" using samev_rw_port_loop [OF k, of rw "nat count" "f_pos (file_table s' f)" buf] by (simp add: u samev_def)
  then show ?thesis using k by (simp add: rw_memory_def rw_port_def Let_def u samev_def same_advance_pos)
qed

section \<open>The system calls\<close>

text \<open>\<open>tty_read\<close> and \<open>tty_write\<close> change no descriptor.\<close>

definition tty_keeps :: "'a fs_state_scheme tty_fn \<Rightarrow> bool" where
  "tty_keeps tty \<longleftrightarrow> (\<forall>rw minor buf count s x. tty rw minor buf count s = Some x \<longrightarrow> same_files s (snd x))"

lemma keepv_tty: "tty_keeps tty \<Longrightarrow> same_files s s' \<Longrightarrow> keepv s (tty rw minor buf count s')"
  by (rule keepv_call) (auto simp: tty_keeps_def)

lemma keepv_rw_char:
  assumes "tty_keeps tty" "same_files s s'"
  shows "keepv s (rw_char tty rw dev buf count f s')"
  unfolding rw_char_def rw_tty_def rw_ttyx_def by (intro keep_constructs keeps keepv_tty assms)

lemma samev_sys_lseek: "same_files s s' \<Longrightarrow> samev s (sys_lseek fd offset origin s')"
  by (auto simp: sys_lseek_def Let_def samev_def intro: same_upd_file split: option.splits)

lemma keepv_sys_read:
  assumes "tty_keeps tty" "same_files s s'"
  shows "keepv s (sys_read tty fd buf count s')"
  unfolding sys_read_def by (intro keepv_pipe_returned keep_constructs keeps keepv_rw_char assms)

lemma keepv_sys_write:
  assumes "tty_keeps tty" "same_files s s'"
  shows "keepv s (sys_write tty fd buf count s')"
  unfolding sys_write_def by (intro keepv_pipe_returned keep_constructs keeps keepv_rw_char assms)

lemma keep_cp_stat [keeps]: "same_files s s' \<Longrightarrow> keep s (cp_stat pad i a s')"
  unfolding cp_stat_def by (intro keep_constructs keeps)

lemma keepv_stat [keeps]:
  "same_files s s' \<Longrightarrow> keepv s (sys_stat pad name a s')"
  "same_files s s' \<Longrightarrow> keepv s (sys_fstat pad fd a s')"
  unfolding sys_stat_def sys_fstat_def by (intro keep_constructs keeps; assumption)+

lemma keep_sync_inodes [keeps]: "same_files s s' \<Longrightarrow> keep s (sync_inodes s')"
  unfolding sync_inodes_def by (rule keep_sync_inodes_with [OF keepv_getblk])

lemma keepv_sys_sync [keeps]: "same_files s s' \<Longrightarrow> keepv s (sys_sync s')"
  unfolding sys_sync_def by (intro keep_constructs keeps)

lemma keepv_read_maps [keeps]: "same_files s s' \<Longrightarrow> keepv s (read_maps g k dev n i block s')"
proof (induction n arbitrary: i block s')
  case (Suc n)
  show ?case unfolding read_maps.simps by (intro keep_constructs keeps Suc)
qed (simp add: keepv_Some samev_def)

lemma keepv_read_super [keeps]: "same_files s s' \<Longrightarrow> keepv s (read_super dev s')"
  unfolding read_super_def by (intro keep_constructs keeps)

lemma keepv_mounting [keeps]:
  "same_files s s' \<Longrightarrow> keepv s (sys_umount name s')"
  "same_files s s' \<Longrightarrow> keepv s (sys_mount dev_name dir_name flag s')"
  unfolding sys_umount_def sys_mount_def by (intro keep_constructs keeps; assumption)+

section \<open>One step for all of them\<close>

inductive file_call :: "'a fs_state_scheme \<Rightarrow> 'a fs_state_scheme \<Rightarrow> bool" where
  "sys_read tty fd buf count s = Some (v, s') \<Longrightarrow> tty_keeps tty \<Longrightarrow> file_call s s'"
| "sys_write tty fd buf count s = Some (v, s') \<Longrightarrow> tty_keeps tty \<Longrightarrow> file_call s s'"
| "sys_lseek fd offset origin s = (v, s') \<Longrightarrow> file_call s s'"
| "sys_stat pad name a s = Some (v, s') \<Longrightarrow> file_call s s'"
| "sys_fstat pad fd a s = Some (v, s') \<Longrightarrow> file_call s s'"
| "sys_mknod name mode dev s = Some (v, s') \<Longrightarrow> file_call s s'"
| "sys_mkdir name mode s = Some (v, s') \<Longrightarrow> file_call s s'"
| "sys_rmdir name s = Some (v, s') \<Longrightarrow> file_call s s'"
| "sys_unlink name s = Some (v, s') \<Longrightarrow> file_call s s'"
| "sys_link name newname s = Some (v, s') \<Longrightarrow> file_call s s'"
| "sys_utime name tp s = Some (v, s') \<Longrightarrow> file_call s s'"
| "sys_access name mode s = Some (v, s') \<Longrightarrow> file_call s s'"
| "sys_chmod name mode s = Some (v, s') \<Longrightarrow> file_call s s'"
| "sys_chown name uid gid s = Some (v, s') \<Longrightarrow> file_call s s'"
| "sys_chdir name s = Some (v, s') \<Longrightarrow> file_call s s'"
| "sys_chroot name s = Some (v, s') \<Longrightarrow> file_call s s'"
| "sys_mount dev name flag s = Some (v, s') \<Longrightarrow> file_call s s'"
| "sys_umount name s = Some (v, s') \<Longrightarrow> file_call s s'"
| "sys_sync s = Some (v, s') \<Longrightarrow> file_call s s'"

lemma keepv_state: "keepv s m \<Longrightarrow> m = Some (v, s') \<Longrightarrow> same_files s s'"
  by (auto dest: keepvD)

lemma file_call_same: "file_call s s' \<Longrightarrow> same_files s s'"
proof (induction rule: file_call.induct)
  case (3 fd offset origin s v s')
  then show ?case using samev_sys_lseek [OF same_files_refl, of s fd offset origin] by (simp add: samev_def)
qed (rule keepv_state [rotated], assumption,
    ((rule keepv_sys_read keepv_sys_write, assumption, rule same_files_refl) | (rule keeps, rule same_files_refl)))+

end
