(* ===== verification/Descriptors.thy ===== *)
theory Descriptors
  imports File_Calls
begin

text \<open>
  Descriptors and the file table: the count of a file entry is the number of descriptors that refer to it, in all
  tasks. Here: the invariant, and that the calls which open, duplicate and close descriptors keep it (\<open>fs/open.c\<close>,
  \<open>fs/fcntl.c\<close>, \<open>fs/pipe.c\<close>, \<open>fs/exec.c\<close>).
\<close>

section \<open>The invariant\<close>

definition live :: "'a sched_state_scheme \<Rightarrow> addr set" where
  "live s = {p. p \<noteq> 0 \<and> (\<exists>i<NR_TASKS. task s i = p)}"

definition fd_refs :: "nat \<Rightarrow> 'a sched_state_scheme \<Rightarrow> (addr \<times> nat) set" where
  "fd_refs f s = {(p, d). p \<in> live s \<and> d < NR_OPEN \<and> t_filp (tasks s p) d = Some f}"

text \<open>\<open>tables_ok\<close> does not depend on the current task. A slot of the task table has a page of its own, task 0 exists and
  is no zombie, and a zombie has no open files.\<close>

definition tables_ok :: "'a fs_state_scheme \<Rightarrow> bool" where
  "tables_ok s \<longleftrightarrow> task s 0 \<noteq> 0 \<and> t_state (tasks s (task s 0)) \<noteq> TASK_ZOMBIE
     \<and> (\<forall>i<NR_TASKS. \<forall>j<NR_TASKS. task s i = task s j \<longrightarrow> task s i \<noteq> 0 \<longrightarrow> i = j)
     \<and> (\<forall>f. unat (f_count (file_table s f)) = card (fd_refs f s))
     \<and> (\<forall>p\<in>live s. \<forall>d<NR_OPEN. \<forall>f. t_filp (tasks s p) d = Some f \<longrightarrow> f < NR_FILE)
     \<and> (\<forall>p\<in>live s. t_state (tasks s p) = TASK_ZOMBIE \<longrightarrow> (\<forall>d<NR_OPEN. t_filp (tasks s p) d = None))"

definition files_ok :: "'a fs_state_scheme \<Rightarrow> bool" where
  "files_ok s \<longleftrightarrow> tables_ok s \<and> current s \<in> live s \<and> t_state (cur s) \<noteq> TASK_ZOMBIE"

lemma finite_live [simp]: "finite (live s)"
  by (rule finite_subset [of _ "task s ` {..<NR_TASKS}"]) (auto simp: live_def)

lemma card_live: "card (live s) \<le> NR_TASKS"
proof -
  have "card (live s) \<le> card (task s ` {..<NR_TASKS})" by (rule card_mono) (auto simp: live_def)
  also have "\<dots> \<le> card {..<NR_TASKS}" by (rule card_image_le) simp
  finally show ?thesis by simp
qed

lemma fd_refs_subset: "fd_refs f s \<subseteq> live s \<times> {..<NR_OPEN}"
  by (auto simp: fd_refs_def)

lemma finite_fd_refs [simp]: "finite (fd_refs f s)"
  by (rule finite_subset [OF fd_refs_subset]) simp

lemma card_fd_refs: "card (fd_refs f s) \<le> 1280"
proof -
  have "card (fd_refs f s) \<le> card (live s \<times> {..<NR_OPEN})" by (rule card_mono [OF _ fd_refs_subset]) simp
  also have "\<dots> \<le> NR_TASKS * NR_OPEN" using card_live [of s] by (simp add: card_cartesian_product)
  finally show ?thesis by simp
qed

section \<open>Changes elsewhere\<close>

text \<open>Only the live tasks matter.\<close>

definition same_live :: "'a fs_state_scheme \<Rightarrow> 'a fs_state_scheme \<Rightarrow> bool" where
  "same_live s s' \<longleftrightarrow> (\<forall>f. f_count (file_table s' f) = f_count (file_table s f)) \<and> task s' = task s
     \<and> (\<forall>p\<in>live s. t_filp (tasks s' p) = t_filp (tasks s p)
          \<and> (t_state (tasks s' p) = TASK_ZOMBIE \<longrightarrow> t_state (tasks s p) = TASK_ZOMBIE))"

lemma same_live_files: "same_files s s' \<Longrightarrow> same_live s s'"
  by (auto simp: same_files_def same_live_def)

lemma live_cong: "task s' = task s \<Longrightarrow> live s' = live s"
  by (simp add: live_def)

lemma zero_live: "tables_ok s \<Longrightarrow> task s 0 \<in> live s"
  by (simp add: tables_ok_def live_def) (rule exI [of _ 0], simp)

lemma tables_ok_same:
  assumes "tables_ok s" "same_live s s'"
  shows "tables_ok s'"
proof -
  have t: "task s' = task s" and l: "live s' = live s"
    using assms(2) by (simp_all add: same_live_def live_def)
  note z = zero_live [OF assms(1)]
  have "fd_refs f s' = fd_refs f s" for f using assms(2) by (auto simp: fd_refs_def l same_live_def)
  moreover have "f_count (file_table s' f) = f_count (file_table s f)" for f
    using assms(2) by (simp add: same_live_def)
  ultimately show ?thesis
    using assms z unfolding tables_ok_def t l by (auto simp: same_live_def)
qed

lemma files_ok_same: "files_ok s \<Longrightarrow> same_files s s' \<Longrightarrow> files_ok s'"
  using tables_ok_same [OF _ same_live_files] live_cong [of s' s]
  by (auto simp: files_ok_def same_files_def)

text \<open>\<open>schedule\<close> switches to a runnable task or to task 0.\<close>

lemma sched_loop_runnable: "sched_loop s = Some x \<Longrightarrow> fst x = 0 \<or> runnable (snd x) (fst x)"
  apply (erule sched_loop.raw_induct [where P = "\<lambda>s x. fst x = 0 \<or> runnable (snd x) (fst x)", rotated])
  subgoal premises p for rec s x
  proof -
    obtain c n where q: "pick 63 s (-1) 0 = (c, n)" by fastforce
    show ?thesis using p(2) p(1) [of "for_tasks recharge 63 s" x] pick_spec [OF q] by (auto simp: q split: if_splits)
  qed
  done

lemma schedule_live:
  assumes "schedule s = Some s'" "tables_ok s"
  shows "files_ok s'"
proof -
  obtain n s1 where l: "sched_loop (for_tasks (check_signals (jiffies s)) 63 s) = Some (n, s1)" "s' = switch_to n s1"
    using assms(1) by (auto simp: schedule_def bind_eq_Some_conv)
  have "same_files s s1"
    using same_files_trans [OF same_check_signals [OF same_files_refl]] sched_loop_same [OF l(1)] by auto
  then have ok: "tables_ok s1" using tables_ok_same [OF assms(2) same_live_files] by blast
  have t: "tables_ok s'" by (rule tables_ok_same [OF ok]) (simp add: l(2) same_live_def switch_to_def)
  have "task s1 n \<in> live s1 \<and> t_state (tasks s1 (task s1 n)) \<noteq> TASK_ZOMBIE"
  proof (cases "n = 0")
    case True
    then show ?thesis using zero_live [OF ok] ok by (simp add: tables_ok_def)
  next
    case False
    then have "runnable s1 n" using sched_loop_runnable [OF l(1)] by simp
    then show ?thesis by (auto simp: live_def runnable_def in_table_def)
  qed
  then show ?thesis using t live_cong [of s' s1] by (simp add: files_ok_def l(2))
qed

section \<open>Taking and dropping a descriptor\<close>

lemma set_filp_simps [simp]:
  "task (set_filp d v s) = task s" "current (set_filp d v s) = current s"
  "t_filp (tasks (set_filp d v s) p) e = (if p = current s \<and> e = d then v else t_filp (tasks s p) e)"
  "t_state (tasks (set_filp d v s) p) = t_state (tasks s p)" "live (set_filp d v s) = live s"
  by (simp_all add: set_filp_def upd_task_def live_def)

lemma file_table_set_filp [simp]: "file_table (set_filp d v s) = file_table s"
  by (simp add: set_filp_def upd_task_def)

lemma upd_file_simps [simp]:
  "task (upd_file f g s) = task s" "current (upd_file f g s) = current s" "tasks (upd_file f g s) = tasks s"
  "file_table (upd_file f g s) = (file_table s)(f := g (file_table s f))" "live (upd_file f g s) = live s"
  "fd_refs h (upd_file f g s) = fd_refs h s"
  by (simp_all add: upd_file_def live_def fd_refs_def)

lemma fd_refs_take:
  "current s \<in> live s \<Longrightarrow> d < NR_OPEN \<Longrightarrow> t_filp (cur s) d = None \<Longrightarrow>
    fd_refs h (set_filp d (Some f) s) = (if h = f then insert (current s, d) (fd_refs h s) else fd_refs h s)"
  by (auto simp: fd_refs_def split: if_splits)

lemma fd_refs_drop: "fd_refs h (set_filp d None s) = fd_refs h s - {(current s, d)}"
  by (auto simp: fd_refs_def split: if_splits)

lemma count_Suc: "unat (c :: u16) \<le> 1280 \<Longrightarrow> unat (c + 1) = Suc (unat c)"
  by (simp add: unat_plus_if_size word_size)

lemma take_ok:
  assumes "files_ok s" "d < NR_OPEN" "t_filp (cur s) d = None" "f < NR_FILE"
    and g: "f_count (g (file_table s f)) = f_count (file_table s f) + 1"
  shows "files_ok (upd_file f g (set_filp d (Some f) s))"
proof -
  have c: "current s \<in> live s" "t_state (cur s) \<noteq> TASK_ZOMBIE" and ok: "tables_ok s"
    using assms(1) by (simp_all add: files_ok_def)
  have n: "unat (f_count (file_table s h)) = card (fd_refs h s)" for h using ok by (simp add: tables_ok_def)
  have "(current s, d) \<notin> fd_refs f s" using assms(3) by (simp add: fd_refs_def)
  then have "card (fd_refs h (set_filp d (Some f) s)) = (if h = f then Suc (card (fd_refs h s)) else card (fd_refs h s))" for h
    by (simp add: fd_refs_take [OF c(1) assms(2,3)])
  moreover have "unat (f_count (file_table s f) + 1) = Suc (card (fd_refs f s))"
    using count_Suc [of "f_count (file_table s f)"] n [of f] card_fd_refs [of f s] by simp
  ultimately show ?thesis
    using ok c assms(4) n by (simp add: files_ok_def tables_ok_def g)
qed

lemma drop_ok:
  assumes "files_ok s" "d < NR_OPEN" "t_filp (cur s) d = Some f"
    and g: "f_count (g (file_table s f)) = f_count (file_table s f) - 1"
  shows "files_ok (upd_file f g (set_filp d None s))"
proof -
  have c: "current s \<in> live s" "t_state (cur s) \<noteq> TASK_ZOMBIE" and ok: "tables_ok s"
    using assms(1) by (simp_all add: files_ok_def)
  have n: "unat (f_count (file_table s h)) = card (fd_refs h s)" for h using ok by (simp add: tables_ok_def)
  have i: "(current s, d) \<in> fd_refs h s \<longleftrightarrow> h = f" for h using assms(2,3) c by (auto simp: fd_refs_def)
  then have pos: "0 < card (fd_refs f s)" by (auto simp: card_gt_0_iff)
  have "card (fd_refs h (set_filp d None s)) = (if h = f then card (fd_refs h s) - 1 else card (fd_refs h s))" for h
    by (simp add: fd_refs_drop i card_Diff_singleton_if)
  moreover have "unat (f_count (file_table s f) - 1) = card (fd_refs f s) - 1"
    using n [of f] pos by (metis One_nat_def less_numeral_extra(3) unat_eq_zero unat_minus_one)
  ultimately show ?thesis
    using ok c n by (simp add: files_ok_def tables_ok_def g)
qed

section \<open>Calls that open and close\<close>

lemma first_from_SomeD: "first_from P i n = Some k \<Longrightarrow> i \<le> k \<and> k < i + n \<and> P k"
  by (induction n arbitrary: i) (fastforce split: if_splits)+

lemma same_filp: "same_files s s' \<Longrightarrow> t_filp (tasks s' p) = t_filp (tasks s p)"
  "same_files s s' \<Longrightarrow> current s' = current s"
  "same_files s s' \<Longrightarrow> f_count (file_table s' f) = f_count (file_table s f)"
  "same_files s s' \<Longrightarrow> task s' = task s"
  by (simp_all add: same_files_def)

text \<open>\<open>ends s m\<close>: the routine \<open>m\<close> ends in a state that satisfies the invariant. The rules for routines compare the
  states on the way with \<open>s\<close>.\<close>

definition ends :: "'a fs_state_scheme \<Rightarrow> ('v \<times> 'a fs_state_scheme) option \<Rightarrow> bool" where
  "ends s m \<longleftrightarrow> (\<forall>x. m = Some x \<longrightarrow> files_ok (snd x))"

lemma endsD: "ends s m \<Longrightarrow> m = Some (v, s') \<Longrightarrow> files_ok s'"
  by (auto simp: ends_def)

lemma ends_bind: "keep s m \<Longrightarrow> (\<And>s'. same_files s s' \<Longrightarrow> ends s (f s')) \<Longrightarrow> ends s (Option.bind m f)"
  by (cases m) (auto simp: keep_def ends_def)

lemma ends_bindv:
  "keepv s m \<Longrightarrow> (\<And>v s'. same_files s s' \<Longrightarrow> ends s (f v s')) \<Longrightarrow> ends s (Option.bind m (\<lambda>(v, s'). f v s'))"
  by (cases m) (auto simp: keepv_def samev_def ends_def)

lemma ends_bind_plain: "(\<And>x. ends s (f x)) \<Longrightarrow> ends s (Option.bind m f)"
  by (cases m) (auto simp: ends_def)

lemma ends_Some: "files_ok s' \<Longrightarrow> ends s (Some (v, s'))"
  by (simp add: ends_def)

lemma ends_None: "ends s None"
  by (simp add: ends_def)

lemma ends_if: "ends s m \<Longrightarrow> ends s n \<Longrightarrow> ends s (if b then m else n)"
  by simp

lemma ends_option: "ends s m \<Longrightarrow> (\<And>x. y = Some x \<Longrightarrow> ends s (f x)) \<Longrightarrow> ends s (case_option m f y)"
  by (cases y) simp_all

lemma ends_let_state: "same_files s x \<Longrightarrow> (\<And>s'. same_files s s' \<Longrightarrow> ends s (f s')) \<Longrightarrow> ends s (Let x f)"
  by simp

lemma ends_let: "ends s (f x) \<Longrightarrow> ends s (Let x f)"
  by simp

lemma ends_pair: "(\<And>a b. ends s (f a b)) \<Longrightarrow> ends s (case_prod f x)"
  by (cases x) simp

lemma ends_pair_app: "(\<And>a b. ends s (f a b y)) \<Longrightarrow> ends s (case_prod f x y)"
  by (cases x) simp

lemmas ends_constructs = ends_Some ends_None ends_if ends_bind ends_bindv ends_bind_plain ends_option ends_let_state
  ends_let ends_pair ends_pair_app

lemma sys_open_ok:
  assumes "files_ok s" "sys_open name flag mode s = Some (v, s')"
  shows "files_ok s'"
proof (cases "first_from (\<lambda>d. t_filp (cur s) d = None) 0 NR_OPEN")
  case None
  then show ?thesis using assms by (simp add: sys_open_def Let_def)
next
  case (Some d)
  note d = first_from_SomeD [OF this]
  let ?c = "clear_cloexec d s"
  have c: "files_ok ?c" by (rule files_ok_same [OF assms(1) same_clear_cloexec [OF same_files_refl]])
  show ?thesis
  proof (cases "first_from (\<lambda>f. f_count (file_table ?c f) = 0) 0 NR_FILE")
    case None
    then show ?thesis using assms c Some by (simp add: sys_open_def Let_def)
  next
    case f: (Some f)
    note fr = first_from_SomeD [OF f]
    let ?o = "upd_file f (\<lambda>x. x\<lparr>f_count := f_count x + 1\<rparr>) (set_filp d (Some f) ?c)"
    have n: "t_filp (cur ?c) d = None" using d by (simp add: clear_cloexec_def)
    have o: "files_ok ?o" by (rule take_ok [OF c _ n]) (use d fr in simp_all)
    have drop: "files_ok (upd_file f (f_count_update (\<lambda>_. 0)) (set_filp d None u))" if "same_files ?o u" for u
      by (rule drop_ok [OF files_ok_same [OF o that]]) (use d fr in \<open>simp_all add: same_filp [OF that]\<close>)
    have opened: "files_ok (upd_file f g u)" if "same_files ?o u" "f_count (g (file_table u f)) = 1" for g u
    proof (rule files_ok_same [OF files_ok_same [OF o that(1)]])
      have "f_count (file_table u f) = 1" using same_filp(3) [OF that(1), of f] fr by simp
      then show "same_files u (upd_file f g u)" by (simp add: same_files_def that(2))
    qed
    have "ends ?o (sys_open name flag mode s)"
      unfolding sys_open_def Some f option.case Let_def [of ?c] Let_def [of ?o]
      by (intro ends_constructs keep_constructs keeps drop opened same_upd_task same_files_refl) simp_all
    then show ?thesis by (rule endsD [OF _ assms(2)])
  qed
qed

lemma sys_close_ok:
  assumes "files_ok s" "sys_close fd s = Some (v, s')"
  shows "files_ok s' \<and> current s' = current s \<and> task s' = task s \<and> (unat fd < NR_OPEN \<longrightarrow> t_filp (cur s') (unat fd) = None)
    \<and> (\<forall>d. t_filp (cur s) d = None \<longrightarrow> t_filp (cur s') d = None)"
proof (cases "unat fd < NR_OPEN")
  case False
  then show ?thesis using assms by (simp add: sys_close_def Let_def)
next
  case n: True
  let ?c = "clear_cloexec (unat fd) s"
  have k: "same_files s ?c" by (rule same_clear_cloexec [OF same_files_refl])
  have c: "files_ok ?c" by (rule files_ok_same [OF assms(1) k])
  show ?thesis
  proof (cases "t_filp (cur ?c) (unat fd)")
    case None
    then show ?thesis using assms n c by (auto simp: sys_close_def Let_def same_filp [OF k])
  next
    case (Some f)
    let ?d = "upd_file f (\<lambda>x. x\<lparr>f_count := f_count x - 1\<rparr>) (set_filp (unat fd) None ?c)"
    have d: "files_ok ?d" by (rule drop_ok [OF c n Some]) simp
    have "s' = ?d \<or> iput (f_inode (file_table ?d f)) ?d = Some s'"
      using assms(2) n Some by (auto simp: sys_close_def Let_def bind_eq_Some_conv split: if_splits)
    then have "same_files ?d s'" using keepD [OF keep_iput [OF same_files_refl]] same_files_refl by blast
    from files_ok_same [OF d this] same_filp [OF this] same_filp [OF k] show ?thesis by simp
  qed
qed

lemma dupfd_ok:
  assumes "files_ok s"
  shows "files_ok (snd (dupfd fd arg s))"
proof (cases "unat fd < NR_OPEN \<and> unat arg < NR_OPEN \<and> t_filp (cur s) (unat fd) \<noteq> None")
  case True
  then obtain f where f: "t_filp (cur s) (unat fd) = Some f" by blast
  show ?thesis
  proof (cases "first_from (\<lambda>k. t_filp (cur s) k = None) (unat arg) (NR_OPEN - unat arg)")
    case None
    then show ?thesis using True f assms by (simp add: dupfd_def)
  next
    case (Some d)
    note d = first_from_SomeD [OF this]
    let ?c = "clear_cloexec d s"
    have k: "same_files s ?c" by (rule same_clear_cloexec [OF same_files_refl])
    have c: "files_ok ?c" by (rule files_ok_same [OF assms k])
    have "f < NR_FILE" using assms True f by (auto simp: files_ok_def tables_ok_def)
    then have "files_ok (upd_file f (\<lambda>x. x\<lparr>f_count := f_count x + 1\<rparr>) (set_filp d (Some f) ?c))"
      by (intro take_ok [OF c]) (use d True in \<open>simp_all add: same_filp [OF k]\<close>)
    then show ?thesis using True f Some by (simp add: dupfd_def)
  qed
qed (use assms in \<open>auto simp: dupfd_def split: option.splits\<close>)

lemma sys_dup2_ok:
  assumes "files_ok s" "sys_dup2 old new s = Some (v, s')"
  shows "files_ok s'"
proof -
  obtain r s1 where c: "sys_close new s = Some (r, s1)" "dupfd old new s1 = (v, s')"
    using assms(2) by (auto simp: sys_dup2_def bind_eq_Some_conv)
  show ?thesis using dupfd_ok [of s1 old new] sys_close_ok [OF assms(1) c(1)] c(2) by simp
qed

lemma sys_fcntl_ok:
  assumes "files_ok s"
  shows "files_ok (snd (sys_fcntl fd cmd arg s))"
proof -
  have "samev s (sys_fcntl fd cmd arg s)" if "cmd \<noteq> 0"
    using that same_clear_cloexec [OF same_files_refl, of s "unat fd"]
    by (auto simp: sys_fcntl_def samev_def same_files_refl intro!: same_upd_task same_upd_file split: option.splits)
  moreover have "files_ok (snd (sys_fcntl fd cmd arg s))" if "cmd = 0"
    using that dupfd_ok [OF assms] assms by (auto simp: sys_fcntl_def split: option.splits)
  ultimately show ?thesis using files_ok_same [OF assms] by (auto simp: samev_def)
qed

section \<open>Pipes\<close>

lemma set_filp_upd_file: "set_filp d v (upd_file f g s) = upd_file f g (set_filp d v s)"
  by (simp add: set_filp_def upd_file_def upd_task_def)

lemma filter_first_two:
  assumes "filter P [0..<n] = a # b # xs"
  shows "a < n \<and> b < n \<and> P a \<and> P b \<and> a \<noteq> b"
proof -
  have "distinct (a # b # xs)" "set (a # b # xs) \<subseteq> {i. i < n \<and> P i}"
    unfolding assms [symmetric] by auto
  then show ?thesis by auto
qed

lemma sys_pipe_ok:
  assumes "files_ok s" "sys_pipe fildes s = Some (v, s')"
  shows "files_ok s'"
proof -
  let ?take = "\<lambda>f. upd_file f (\<lambda>x. x\<lparr>f_count := f_count x + 1\<rparr>)" and ?drop = "\<lambda>f. upd_file f (f_count_update (\<lambda>_. 0))"
  let ?files = "filter (\<lambda>f. f_count (file_table s f) = 0) [0..<NR_FILE]"
  show ?thesis
  proof (cases ?files rule: remdups_adj.cases)
    case 1
    then show ?thesis using assms by (simp add: sys_pipe_def)
  next
    case (2 f0)
    then have "f0 \<in> set ?files" by simp
    then have "same_files s (?drop f0 (?take f0 s))" by (simp add: same_files_def)
    then show ?thesis using assms 2 files_ok_same by (simp add: sys_pipe_def)
  next
    case (3 f0 f1 fs)
    note f = filter_first_two [OF 3, simplified]
    let ?s = "?take f1 (?take f0 s)"
    let ?fds = "filter (\<lambda>d. t_filp (cur ?s) d = None) [0..<NR_OPEN]"
    show ?thesis
    proof (cases ?fds rule: remdups_adj.cases)
      case 1
      have "same_files s (?drop f1 (?drop f0 ?s))" using f by (simp add: same_files_def)
      then show ?thesis using assms 1 3 files_ok_same by (simp add: sys_pipe_def Let_def)
    next
      case (2 d0)
      then have "d0 \<in> set ?fds" by simp
      then have "same_files s (?drop f1 (?drop f0 (set_filp d0 None (set_filp d0 (Some f0) ?s))))"
        using f by (auto simp: same_files_def)
      then show ?thesis using assms 2 3 files_ok_same by (simp add: sys_pipe_def Let_def)
    next
      case (3 d0 d1 ds)
      note d = filter_first_two [OF 3, simplified]
      let ?a = "?take f0 (set_filp d0 (Some f0) s)"
      let ?b = "?take f1 (set_filp d1 (Some f1) ?a)"
      have a: "files_ok ?a" by (rule take_ok [OF assms(1)]) (use d f in simp_all)
      have b: "files_ok ?b" by (rule take_ok [OF a]) (use d f in simp_all)
      have st: "set_filp d1 (Some f1) (set_filp d0 (Some f0) ?s) = ?b" by (simp add: set_filp_upd_file)
      have drop: "files_ok (?drop f1 (?drop f0 (set_filp d1 None (set_filp d0 None u))))" if k: "same_files ?b u" for u
      proof -
        have "files_ok (?drop f0 (set_filp d0 None u))"
          by (rule drop_ok [OF files_ok_same [OF b k]]) (use d f in \<open>simp_all add: same_filp [OF k]\<close>)
        then have "files_ok (?drop f1 (set_filp d1 None (?drop f0 (set_filp d0 None u))))"
          by (rule drop_ok) (use d f in \<open>simp_all add: same_filp [OF k]\<close>)
        then show ?thesis by (simp add: set_filp_upd_file)
      qed
      have ok: "files_ok u" if "same_files ?b u" for u by (rule files_ok_same [OF b that])
      have "ends ?b (sys_pipe fildes s)"
        unfolding sys_pipe_def Let_def \<open>?files = f0 # f1 # fs\<close> list.case 3 st
        by (intro ends_constructs keep_constructs keeps drop ok same_upd_file same_files_refl) simp_all
      then show ?thesis by (rule endsD [OF _ assms(2)])
    qed
  qed
qed

section \<open>exec\<close>

lemma close_on_exec_ok: "files_ok s \<Longrightarrow> close_on_exec s = Some s' \<Longrightarrow> files_ok s'"
proof -
  assume s: "files_ok s" "close_on_exec s = Some s'"
  then obtain u where u: "for_range 0 NR_OPEN (\<lambda>i s. if drop_bit i (t_close_on_exec (cur s)) AND 1 \<noteq> 0
      then map_option snd (sys_close (of_nat i) s) else Some s) s = Some u"
    "s' = upd_task (current u) (\<lambda>t. t\<lparr>t_close_on_exec := 0\<rparr>) u"
    by (auto simp: close_on_exec_def bind_eq_Some_conv)
  have "files_ok u"
    by (rule for_range_inv [where P = files_ok, OF u(1) s(1)]) (auto dest: sys_close_ok split: if_splits)
  then show ?thesis unfolding u(2) by (rule files_ok_same [OF _ same_upd_task [OF same_files_refl]]) simp_all
qed

lemma become_ok:
  assumes "files_ok s"
  shows "ends s (become i ex u g argc envc page p eip s)"
proof -
  have "files_ok s'" if b: "become i ex u g argc envc page p eip s = Some (v, s')" for v s'
  proof -
    obtain s1 where s1: "iput (t_executable (cur s)) s = Some s1" using b by (auto simp: become_def bind_eq_Some_conv)
    let ?s1 = "clear_handlers (upd_task (current s1) (\<lambda>t. t\<lparr>t_executable := Some i\<rparr>) s1)"
    obtain s2 where s2: "close_on_exec ?s1 = Some s2" using b s1 by (auto simp: become_def bind_eq_Some_conv)
    have "same_files s ?s1"
      by (intro keeps same_upd_task keepD [OF keep_iput [OF same_files_refl] s1]) simp_all
    from close_on_exec_ok [OF files_ok_same [OF assms this] s2] have s2_ok: "files_ok s2" .
    have "keepv s2 (do {
       s \<leftarrow> drop_memory s2;
       let (limit, s) = change_ldt (a_text ex) page s;
       let s = s\<lparr>fs_mem := segment_byte s\<rparr>;
       (p, s) \<leftarrow> create_tables (p + (limit - of_nat MAX_ARG_PAGES * PAGE_SIZE)) argc envc s;
       let s = set_sizes ex p u g s;
       let s = s\<lparr>fs_mem := (\<lambda>a. if p AND 0xfffff000 \<le> a then fs_mem s a else segment_byte s a)\<rparr>;
       s \<leftarrow> clear_bss (a_text ex + a_data ex) s;
       Some ((0 :: int, eip(0 := a_entry ex, 3 := p)), s) })"
      by (intro keep_constructs keeps same_files_refl)
    then show ?thesis
      using files_ok_same [OF s2_ok] keepvD b s1 s2 by (simp add: become_def) fastforce
  qed
  then show ?thesis by (auto simp: ends_def)
qed

lemma ends_become: "files_ok s \<Longrightarrow> same_files s s' \<Longrightarrow> ends s (become i ex u g argc envc page p eip s')"
  using become_ok [OF files_ok_same] by (simp add: ends_def)

lemma ends_exec_errors:
  assumes "files_ok s" "same_files s s'"
  shows "ends s (exec_error1 r page eip s')" "ends s (exec_error2 i r page eip s')"
  unfolding exec_error2_def exec_error1_def
  by (intro ends_constructs keep_constructs keeps assms(2) files_ok_same [OF assms(1)]; assumption)+

lemma ends_exec_program:
  assumes "files_ok s" "same_files s s'"
  shows "ends s (exec_program b i ex u g argv envp argc envc page p eip s')"
  unfolding exec_program_def
  by (intro ends_constructs keep_constructs keeps assms ends_exec_errors [OF assms(1)] ends_become [OF assms(1)])

lemma ends_image:
  "(\<And>e. ends s (f e)) \<Longrightarrow> (\<And>d. ends s (g d)) \<Longrightarrow> (\<And>x u v. ends s (h x u v)) \<Longrightarrow> ends s (case_image f g h im)"
  by (cases im) simp_all

lemma ends_sum: "(\<And>a. ends s (f a)) \<Longrightarrow> (\<And>b. ends s (g b)) \<Longrightarrow> ends s (case_sum f g x)"
  by (cases x) simp_all

lemma do_execve_ok:
  assumes "files_ok s" "do_execve eip name argv envp s = Some (v, s')"
  shows "files_ok s'"
proof -
  have "ends s (do_execve eip name argv envp s)"
    unfolding do_execve_def
    by (intro ends_constructs ends_image ends_sum keep_constructs keeps same_files_refl
        ends_exec_errors [OF assms(1)] ends_exec_program [OF assms(1)] files_ok_same [OF assms(1)])
  then show ?thesis by (rule endsD [OF _ assms(2)])
qed

end
