(* ===== verification/File_Counts.thy ===== *)
theory File_Counts
  imports Descriptors
begin

text \<open>
  The rest of the invariant of \<open>Descriptors\<close>: \<open>fork\<close> gives the child every descriptor of its parent, \<open>exit\<close> closes all
  of them, \<open>wait\<close> frees the slot of a zombie; and the invariant holds in every state that a sequence of calls reaches.
\<close>

section \<open>fork\<close>

lemma count_children:
  assumes "for_range i n (\<lambda>i s. Some (case t_filp (tasks s p) i of
      None \<Rightarrow> s | Some f \<Rightarrow> upd_file f (\<lambda>x. x\<lparr>f_count := f_count x + 1\<rparr>) s)) s = Some s'"
  shows "tasks s' = tasks s \<and> task s' = task s \<and> current s' = current s
    \<and> (\<forall>f. f_count (file_table s' f) = f_count (file_table s f) + of_nat (card {d. i \<le> d \<and> d < i + n \<and> t_filp (tasks s p) d = Some f}))"
  using assms
proof (induction n arbitrary: i s)
  case (Suc n)
  let ?s1 = "case t_filp (tasks s p) i of None \<Rightarrow> s | Some f \<Rightarrow> upd_file f (\<lambda>x. x\<lparr>f_count := f_count x + 1\<rparr>) s"
  have s1: "tasks ?s1 = tasks s" "task ?s1 = task s" "current ?s1 = current s"
    "f_count (file_table ?s1 f) = f_count (file_table s f) + (if t_filp (tasks s p) i = Some f then 1 else 0)" for f
    by (auto split: option.splits)
  have split: "{d. i \<le> d \<and> d < i + Suc n \<and> t_filp (tasks s p) d = Some f}
    = (if t_filp (tasks s p) i = Some f then {i} else {}) \<union> {d. Suc i \<le> d \<and> d < Suc i + n \<and> t_filp (tasks s p) d = Some f}" for f
    by (auto simp: le_less Suc_le_eq)
  have "finite {d. Suc i \<le> d \<and> d < Suc i + n \<and> t_filp (tasks s p) d = Some f}" for f by simp
  then have c: "card {d. i \<le> d \<and> d < i + Suc n \<and> t_filp (tasks s p) d = Some f}
    = (if t_filp (tasks s p) i = Some f then 1 else 0) + card {d. Suc i \<le> d \<and> d < Suc i + n \<and> t_filp (tasks s p) d = Some f}" for f
    unfolding split by simp
  have "for_range (Suc i) n (\<lambda>i s. Some (case t_filp (tasks s p) i of
      None \<Rightarrow> s | Some f \<Rightarrow> upd_file f (\<lambda>x. x\<lparr>f_count := f_count x + 1\<rparr>) s)) ?s1 = Some s'"
    using Suc.prems by simp
  from Suc.IH [OF this] show ?case unfolding s1 c by simp
next
  case 0
  have "card {d. i \<le> d \<and> d < i + 0 \<and> t_filp (tasks s p) d = Some f} = 0" for f by (subst card_eq_0_iff) auto
  then show ?case using 0 by (simp only: for_range.simps option.inject) simp
qed

lemma fd_refs_fork:
  assumes "p \<notin> live s" "p \<noteq> 0" "0 < nr" "nr < NR_TASKS" "task s nr = 0" "current s \<in> live s"
    and s': "task s' = (task s)(nr := p)" "\<And>q. t_filp (tasks s' q) = t_filp (tasks s (if q = p then current s else q))"
  shows "fd_refs f s' = fd_refs f s \<union> Pair p ` {d. d < NR_OPEN \<and> t_filp (cur s) d = Some f}" "live s' = insert p (live s)"
    "card (fd_refs f s') = card (fd_refs f s) + card {d. d < NR_OPEN \<and> t_filp (cur s) d = Some f}"
proof -
  show l: "live s' = insert p (live s)" using assms(2-5) by (auto simp: live_def s'(1))
  show u: "fd_refs f s' = fd_refs f s \<union> Pair p ` {d. d < NR_OPEN \<and> t_filp (cur s) d = Some f}"
    using assms(1) by (auto simp: fd_refs_def l s'(2) split: if_splits)
  have "card (Pair p ` {d. d < NR_OPEN \<and> t_filp (cur s) d = Some f}) = card {d. d < NR_OPEN \<and> t_filp (cur s) d = Some f}"
    by (rule card_image) (simp add: inj_on_def)
  moreover have "fd_refs f s \<inter> Pair p ` {d. d < NR_OPEN \<and> t_filp (cur s) d = Some f} = {}"
    using assms(1) by (auto simp: fd_refs_def)
  ultimately show "card (fd_refs f s') = card (fd_refs f s) + card {d. d < NR_OPEN \<and> t_filp (cur s) d = Some f}"
    unfolding u by (subst card_Un_disjoint) simp_all
qed

lemma files_ok_live: "files_ok s \<Longrightarrow> same_live s s' \<Longrightarrow> current s' = current s \<Longrightarrow> files_ok s'"
  using tables_ok_same [of s s'] live_cong [of s' s] by (auto simp: files_ok_def same_live_def)

text \<open>A child \<open>p\<close> in the slot \<open>nr\<close> with the descriptors of the current task, and the counts raised accordingly.\<close>

lemma fork_ok:
  assumes ok: "files_ok s" and p: "p \<notin> live s" "p \<noteq> 0" and nr: "0 < nr" "nr < NR_TASKS" "task s nr = 0"
    and tk: "task s' = (task s)(nr := p)" and cu: "current s' = current s"
    and fp: "\<And>q. t_filp (tasks s' q) = t_filp (tasks s (if q = p then current s else q))"
    and st: "\<And>q. t_state (tasks s' q) = TASK_ZOMBIE \<Longrightarrow> q \<noteq> p \<and> t_state (tasks s q) = TASK_ZOMBIE"
    and ct: "\<And>f. f_count (file_table s' f)
      = f_count (file_table s f) + of_nat (card {d. d < NR_OPEN \<and> t_filp (cur s) d = Some f})"
  shows "files_ok s'"
proof -
  have cur: "current s \<in> live s" and tab: "tables_ok s" using ok by (simp_all add: files_ok_def)
  note fork = fd_refs_fork [OF p nr cur tk fp]
  have n: "unat (f_count (file_table s' f)) = card (fd_refs f s')" for f
  proof -
    let ?n = "card {d. d < NR_OPEN \<and> t_filp (cur s) d = Some f}"
    have "?n \<le> card {..<NR_OPEN :: nat}" by (rule card_mono) auto
    then have "?n \<le> 20" by simp
    moreover have "unat (f_count (file_table s f)) = card (fd_refs f s)" using tab by (simp add: tables_ok_def)
    ultimately show ?thesis
      using card_fd_refs [of f s] by (simp add: ct fork(3) unat_plus_if_size word_size unat_of_nat)
  qed
  have inj: "i = j" if "i < NR_TASKS" "j < NR_TASKS" "task s' i = task s' j" "task s' i \<noteq> 0" for i j
  proof -
    have "task s i \<noteq> p" "task s j \<noteq> p" using p that by (auto simp: live_def)
    then show ?thesis using tab that by (auto simp: tables_ok_def tk split: if_splits)
  qed
  have "t_filp (tasks s q) d = Some f \<Longrightarrow> q \<in> live s \<Longrightarrow> d < NR_OPEN \<Longrightarrow> f < NR_FILE" for q d f
    using tab by (auto simp: tables_ok_def)
  then have small: "t_filp (tasks s' q) d = Some f \<Longrightarrow> q \<in> live s' \<Longrightarrow> d < NR_OPEN \<Longrightarrow> f < NR_FILE" for q d f
    using cur by (auto simp: fp fork(2) split: if_splits)
  have "q \<in> live s \<Longrightarrow> t_state (tasks s q) = TASK_ZOMBIE \<Longrightarrow> d < NR_OPEN \<Longrightarrow> t_filp (tasks s q) d = None" for q d
    using tab by (auto simp: tables_ok_def)
  then have zombie: "q \<in> live s' \<Longrightarrow> t_state (tasks s' q) = TASK_ZOMBIE \<Longrightarrow> d < NR_OPEN \<Longrightarrow> t_filp (tasks s' q) d = None" for q d
    using st [of q] by (auto simp: fp fork(2))
  have zero: "task s' 0 \<noteq> 0" "t_state (tasks s' (task s' 0)) \<noteq> TASK_ZOMBIE"
    using tab nr st [of "task s 0"] by (auto simp: tk tables_ok_def)
  have "tables_ok s'"
    unfolding tables_ok_def using zero inj n small zombie by blast
  moreover have "current s' \<in> live s'" "t_state (cur s') \<noteq> TASK_ZOMBIE"
    using cur ok st [of "current s"] by (auto simp: cu fork(2) files_ok_def)
  ultimately show ?thesis by (simp add: files_ok_def)
qed

lemma copy_process_ok:
  assumes "files_ok s" "copy_process nr r s = Some (v, s')" "0 < nr" "nr < NR_TASKS" "task s nr = 0"
    and fresh: "fst (get_free_page s) \<notin> live s"
  shows "files_ok s'"
proof -
  obtain p s1 where g: "get_free_page s = (p, s1)" by fastforce
  have k1: "same_files s s1" using samev_get_free_page [OF same_files_refl, of s] by (simp add: g samev_def)
  show ?thesis
  proof (cases "p = 0")
    case True
    then show ?thesis using assms(2) files_ok_same [OF assms(1) k1] by (simp add: copy_process_def g)
  next
    case p: False
    let ?s2 = "set_task nr p s1"
    let ?s3 = "upd_task p (\<lambda>_. child_task nr p r (last_pid ?s2) (jiffies ?s2) (cur ?s2)) ?s2"
    obtain err s4 where m: "copy_mem nr p ?s3 = Some (err, s4)"
      using assms(2) p by (auto simp: copy_process_def g Let_def bind_eq_Some_conv)
    have k4: "same_files ?s3 s4" using keepvD [OF keepv_copy_mem [OF same_files_refl] m] by simp
    have pl: "p \<notin> live s" using fresh by (simp add: g)
    have s4: "task s4 = (task s)(nr := p)" "current s4 = current s"
      "f_count (file_table s4 f) = f_count (file_table s f)"
      "t_filp (tasks s4 q) = t_filp (tasks s (if q = p then current s else q))"
      "t_state (tasks s4 q) = TASK_ZOMBIE \<Longrightarrow> q \<noteq> p \<and> t_state (tasks s q) = TASK_ZOMBIE" for f q
      using k4 k1 by (auto simp: same_files_def set_task_def upd_task_def child_task_def split: if_splits)
    show ?thesis
    proof (cases "err = 0")
      case False
      then have "free_page p (set_task nr 0 s4) = Some s'"
        using assms(2) p m by (simp add: copy_process_def g Let_def bind_eq_Some_conv)
      then have "same_files (set_task nr 0 s4) s'" by (rule keepD [OF keep_free_page [OF same_files_refl]])
      then have "same_live s s'" "current s' = current s"
        using s4 assms(5) pl by (auto simp: same_files_def same_live_def set_task_def)
      then show ?thesis by (rule files_ok_live [OF assms(1)])
    next
      case True
      obtain s5 where l: "for_range 0 NR_OPEN (\<lambda>i s. Some (case t_filp (tasks s p) i of
          None \<Rightarrow> s | Some f \<Rightarrow> upd_file f (\<lambda>x. x\<lparr>f_count := f_count x + 1\<rparr>) s)) s4 = Some s5"
        using assms(2) p m True by (auto simp: copy_process_def g Let_def bind_eq_Some_conv)
      note l5 = count_children [OF l]
      have "files_ok s5"
        by (rule fork_ok [OF assms(1) pl p assms(3-5)]) (use l5 s4 in auto)
      moreover have "same_files s5 s'"
        using assms(2) p m True l by (auto simp: copy_process_def g Let_def intro!: keeps same_files_refl)
      ultimately show ?thesis by (rule files_ok_same)
    qed
  qed
qed

lemma sys_fork_ok:
  assumes "files_ok s" "sys_fork r s = Some (v, s')" "fst (get_free_page s) \<notin> live s"
  shows "files_ok s'"
proof -
  obtain n where n: "next_pid s (last_pid s) = Some n"
    using assms(2) by (auto simp: sys_fork_def find_empty_process_def bind_eq_Some_conv)
  let ?s = "s\<lparr>last_pid := n\<rparr>"
  have ok: "files_ok ?s" by (rule files_ok_same [OF assms(1)]) (intro keeps same_files_refl)
  show ?thesis
  proof (cases "first_from (\<lambda>i. task s i = 0) 1 63")
    case None
    then show ?thesis using assms(2) n ok by (simp add: sys_fork_def find_empty_process_def)
  next
    case (Some nr)
    note d = first_from_SomeD [OF this]
    have "copy_process nr r ?s = Some (v, s')" using assms(2) n Some by (simp add: sys_fork_def find_empty_process_def)
    moreover have "fst (get_free_page ?s) \<notin> live ?s"
      using assms(3) by (simp add: get_free_page_def live_def Let_def split: option.splits)
    ultimately show ?thesis using d copy_process_ok [OF ok, of nr r v s'] by simp
  qed
qed

section \<open>exit and wait\<close>

lemma release_ok:
  assumes "tables_ok s" "release p s = Some s'" "p \<noteq> 0" "\<And>d. d < NR_OPEN \<Longrightarrow> t_filp (tasks s p) d = None"
  shows "files_ok s'"
proof -
  obtain i where i: "first_from (\<lambda>i. task s i = p) 1 63 = Some i"
    using assms(2,3) by (auto simp: release_def split: option.splits)
  note d = first_from_SomeD [OF i]
  let ?s = "set_task i 0 s"
  obtain s1 where s1: "free_page p ?s = Some s1" "schedule s1 = Some s'"
    using assms(2,3) i by (auto simp: release_def bind_eq_Some_conv)
  have l: "live ?s = live s - {p}"
    using assms(1) d by (auto simp: live_def set_task_def tables_ok_def)
  have r: "fd_refs f ?s = fd_refs f s" for f
    using assms(4) by (auto simp: fd_refs_def l) (auto simp: set_task_def)
  have t: "task ?s = (task s)(i := 0)" "tasks ?s = tasks s" "file_table ?s = file_table s" by (simp_all add: set_task_def)
  have "tables_ok ?s"
    using assms(1) d unfolding tables_ok_def r l t by simp blast
  then have "tables_ok s1"
    by (rule tables_ok_same [OF _ same_live_files [OF keepD [OF keep_free_page [OF same_files_refl] s1(1)]]])
  then show ?thesis by (rule schedule_live [OF s1(2)])
qed

lemma wait_scan_ok:
  "files_ok s \<Longrightarrow> wait_scan n a opts k flag s = Some (w, s') \<Longrightarrow> k < NR_TASKS \<Longrightarrow> files_ok s'"
proof (induction k arbitrary: flag)
  case 0
  have "tables_ok (set_state (current s) 1 s)"
    by (rule tables_ok_same [of s]) (use 0 in \<open>auto simp: files_ok_def same_live_def set_state_def upd_task_def\<close>)
  then show ?case using 0 schedule_live by (auto simp: bind_eq_Some_conv split: if_splits)
next
  case (Suc k)
  let ?p = "task s (Suc k)"
  let ?u = "upd_task (current s) (\<lambda>c. c\<lparr>t_cutime := i32 (t_cutime c + t_utime (tasks s ?p)),
          t_cstime := i32 (t_cstime c + t_stime (tasks s ?p))\<rparr>) s"
  have u: "same_files s ?u" by (rule same_upd_task [OF same_files_refl]) simp_all
  consider "wait_scan n a opts k flag s = Some (w, s')" | "wait_scan n a opts k True s = Some (w, s')"
    | "s' = put_fs_long 0x7f a s" | "wait_selects n ?p s" "t_state (tasks s ?p) = TASK_ZOMBIE" "release ?p ?u = Some s'"
    using Suc.prems(2) by (auto simp: Let_def bind_eq_Some_conv split: if_splits)
  then show ?case
  proof cases
    case 3
    show ?thesis unfolding 3 by (rule files_ok_same [OF Suc.prems(1)]) (intro keeps same_files_refl)
  next
    case 4
    have "?p \<noteq> 0" using 4(1) by (simp add: wait_selects_def)
    then have "?p \<in> live s" using Suc.prems(3) unfolding live_def by blast
    then have none: "t_filp (tasks s ?p) d = None" if "d < NR_OPEN" for d
      using that 4(2) Suc.prems(1) by (auto simp: files_ok_def tables_ok_def)
    have "t_filp (tasks ?u ?p) d = None" if "d < NR_OPEN" for d
      unfolding same_filp(1) [OF u] by (rule none [OF that])
    moreover have "tables_ok ?u"
      using Suc.prems(1) tables_ok_same [OF _ same_live_files [OF u]] by (simp add: files_ok_def)
    ultimately show ?thesis using release_ok [OF _ 4(3)] \<open>?p \<noteq> 0\<close> by blast
  qed (use Suc in simp_all)
qed

lemma sys_waitpid_ok:
  assumes "files_ok s"
  shows "sys_waitpid n a opts s = Some (w, s') \<Longrightarrow> files_ok s'"
    and "waitpid_resume n a opts s = Some (w, s') \<Longrightarrow> files_ok s'"
proof -
  assume "sys_waitpid n a opts s = Some (w, s')"
  then obtain s1 where s1: "verify_area a 4 s = Some s1" "wait_scan n a opts 63 False s1 = Some (w, s')"
    by (auto simp: sys_waitpid_def bind_eq_Some_conv)
  show "files_ok s'"
    by (rule wait_scan_ok [OF files_ok_same [OF assms keepD [OF keep_verify_area [OF same_files_refl] s1(1)]] s1(2)]) simp
next
  assume w: "waitpid_resume n a opts s = Some (w, s')"
  let ?s = "upd_task (current s) (\<lambda>t. t\<lparr>t_signal := t_signal t AND NOT (sigbit SIGCHLD)\<rparr>) s"
  have "files_ok ?s" by (rule files_ok_same [OF assms same_upd_task [OF same_files_refl]]) simp_all
  then show "files_ok s'" using w wait_scan_ok [of ?s n a opts 63 False w s']
    by (simp add: waitpid_resume_def Let_def split: if_splits)
qed

lemma close_all:
  assumes "for_range i n (\<lambda>i s. if t_filp (cur s) i \<noteq> None then do { (r, s) \<leftarrow> sys_close (of_nat i) s; Some s } else Some s) s = Some s'"
    "files_ok s" "i + n \<le> NR_OPEN"
  shows "files_ok s' \<and> current s' = current s \<and> task s' = task s \<and> (\<forall>d. i \<le> d \<and> d < i + n \<longrightarrow> t_filp (cur s') d = None)
    \<and> (\<forall>d. t_filp (cur s) d = None \<longrightarrow> t_filp (cur s') d = None)"
  using assms
proof (induction n arbitrary: i s)
  case (Suc n)
  obtain s1 where s1: "(if t_filp (cur s) i \<noteq> None then do { (r, s) \<leftarrow> sys_close (of_nat i) s; Some s } else Some s) = Some s1"
    "for_range (Suc i) n (\<lambda>i s. if t_filp (cur s) i \<noteq> None then do { (r, s) \<leftarrow> sys_close (of_nat i) s; Some s } else Some s) s1 = Some s'"
    using Suc.prems(1) by (auto simp: bind_eq_Some_conv)
  have "unat (of_nat i :: u32) = i" using Suc.prems(3) by simp
  then have c: "files_ok s1 \<and> current s1 = current s \<and> task s1 = task s \<and> t_filp (cur s1) i = None
      \<and> (\<forall>d. t_filp (cur s) d = None \<longrightarrow> t_filp (cur s1) d = None)"
    using s1(1) sys_close_ok [OF Suc.prems(2), of "of_nat i"] Suc.prems(2,3)
    by (auto simp: bind_eq_Some_conv split: if_splits)
  have "Suc i + n \<le> NR_OPEN" using Suc.prems(3) by simp
  from Suc.IH [OF s1(2) _ this] c have "files_ok s' \<and> current s' = current s1 \<and> task s' = task s1
    \<and> (\<forall>d. Suc i \<le> d \<and> d < Suc i + n \<longrightarrow> t_filp (cur s') d = None)
    \<and> (\<forall>d. t_filp (cur s1) d = None \<longrightarrow> t_filp (cur s') d = None)" by blast
  then show ?case using c by (metis Suc_leI add_Suc add_Suc_right le_neq_implies_less)
qed auto

text \<open>A task without open files may become a zombie.\<close>

lemma zombie_ok:
  assumes "tables_ok s" "p \<noteq> task s 0" "\<And>d. d < NR_OPEN \<Longrightarrow> t_filp (tasks s p) d = None"
    "\<And>t. t_filp (f t) = t_filp t"
  shows "tables_ok (upd_task p f s)"
proof -
  have t: "task (upd_task p f s) = task s" "t_filp (tasks (upd_task p f s) q) = t_filp (tasks s q)"
    "live (upd_task p f s) = live s" "file_table (upd_task p f s) = file_table s" for q
    using assms(4) by (simp_all add: upd_task_def live_def)
  have r: "fd_refs k (upd_task p f s) = fd_refs k s" for k unfolding fd_refs_def t ..
  show ?thesis
    using assms(1-3) unfolding tables_ok_def t r by simp
qed

lemma tell_father_ok:
  assumes "tables_ok s" "current s \<noteq> 0" "\<And>d. d < NR_OPEN \<Longrightarrow> t_filp (cur s) d = None"
    "tell_father n s = Some (gone, s1)" "(if gone then Some s1 else schedule s1) = Some s'"
  shows "files_ok s'"
proof (cases gone)
  case True
  then show ?thesis
    using assms release_ok [OF assms(1) _ assms(2,3)]
    by (auto simp: tell_father_def bind_eq_Some_conv split: option.splits)
next
  case False
  then obtain i where "s1 = upd_task (task s i) (\<lambda>t. t\<lparr>t_signal := t_signal t OR sigbit SIGCHLD\<rparr>) s"
    using assms(4) by (auto simp: tell_father_def bind_eq_Some_conv split: option.splits)
  then have "same_files s s1" by (simp only:) (intro same_upd_task same_files_refl; simp)
  then have "tables_ok s1" using tables_ok_same [OF assms(1) same_live_files] by blast
  then show ?thesis using False assms(5) schedule_live by simp
qed

lemma exit_end_ok:
  assumes "files_ok s" "current s \<noteq> task s 0" "\<And>n. n < NR_OPEN \<Longrightarrow> t_filp (cur s) n = None" and d: "same_files s d"
    and z: "z = upd_task (current d) (\<lambda>t. t\<lparr>t_state := TASK_ZOMBIE, t_exit_code := code\<rparr>) d"
    and e: "do { (gone, u) \<leftarrow> tell_father (t_father (cur z)) z; if gone then Some u else schedule u } = Some s'"
  shows "files_ok s'"
proof -
  obtain gone u where t: "tell_father (t_father (cur z)) z = Some (gone, u)" "(if gone then Some u else schedule u) = Some s'"
    using e by (cases "tell_father (t_father (cur z)) z") auto
  have "tables_ok d" using tables_ok_same [OF _ same_live_files [OF d]] assms(1) by (simp add: files_ok_def)
  then have "tables_ok z" unfolding z by (rule zombie_ok) (use assms(2,3) same_filp [OF d] in simp_all)
  moreover have "current s \<noteq> 0" using assms(1) by (simp add: files_ok_def live_def)
  then have "current z \<noteq> 0" "n < NR_OPEN \<Longrightarrow> t_filp (cur z) n = None" for n
    using assms(3) same_filp [OF d] by (simp_all add: z)
  ultimately show ?thesis by (rule tell_father_ok [OF _ _ _ t])
qed

lemma do_exit_ok:
  assumes "files_ok s" "do_exit code s = Some s'" "current s \<noteq> task s 0"
  shows "files_ok s'"
proof -
  obtain r1 s1 r2 s2 s3 s4 where
    f1: "free_page_tables (get_base (t_ldt (cur s) 1)) (get_limit (t_ldt (cur s) 1)) s = Some (r1, s1)" and
    f2: "free_page_tables (get_base (t_ldt (cur s1) 2)) (get_limit (t_ldt (cur s1) 2)) s1 = Some (r2, s2)" and
    f3: "adopt_children s2 = Some s3" and
    f4: "for_range 0 NR_OPEN (\<lambda>i s. if t_filp (cur s) i \<noteq> None then do { (r, s) \<leftarrow> sys_close (of_nat i) s; Some s } else Some s) s3 = Some s4"
    using assms(2) by (auto simp: do_exit_def bind_eq_Some_conv)
  have k: "same_files s s3"
    using keepvD [OF keepv_free_page_tables [OF same_files_refl] f1] keepvD [OF keepv_free_page_tables [OF same_files_refl] f2]
      keepD [OF keep_adopt_children [OF same_files_refl] f3] by (auto intro: same_files_trans)
  note c = close_all [OF f4 files_ok_same [OF assms(1) k], simplified]
  obtain s5 s6 s7 where
    i1: "iput (t_pwd (cur s4)) s4 = Some s5" and
    i2: "iput (t_root (cur s5)) (upd_task (current s5) (t_pwd_update (\<lambda>_. None)) s5) = Some s6" and
    i3: "iput (t_executable (cur s6)) (upd_task (current s6) (t_root_update (\<lambda>_. None)) s6) = Some s7"
    using assms(2) f1 f2 f3 f4 by (auto simp: do_exit_def bind_eq_Some_conv)
  let ?a = "upd_task (current s7) (t_executable_update (\<lambda>_. None)) s7"
  let ?b = "if t_leader (cur ?a) \<noteq> 0 \<and> t_tty (cur ?a) \<ge> 0
              then ?a\<lparr>tty_pgrp := (tty_pgrp ?a)(nat (t_tty (cur ?a)) := 0)\<rparr> else ?a"
  let ?c = "if last_task_used_math ?b = current ?b then ?b\<lparr>last_task_used_math := 0\<rparr> else ?b"
  let ?d = "if t_leader (cur ?c) \<noteq> 0 then kill_session 63 ?c else ?c"
  have "same_files s4 s5" by (rule keepD [OF keep_iput [OF same_files_refl] i1])
  then have "same_files s4 s6" by (intro keepD [OF keep_iput i2] same_upd_task) simp_all
  then have "same_files s4 s7" by (intro keepD [OF keep_iput i3] same_upd_task) simp_all
  then have d: "same_files s4 ?d" by (intro keep_constructs keeps same_upd_task) simp_all
  let ?z = "upd_task (current ?d) (\<lambda>t. t\<lparr>t_state := TASK_ZOMBIE, t_exit_code := code\<rparr>) ?d"
  have ex: "do { (gone, u) \<leftarrow> tell_father (t_father (cur ?z)) ?z; if gone then Some u else schedule u } = Some s'"
    using assms(2) f1 f2 f3 f4 i1 i2 i3 by (simp add: do_exit_def Let_def)
  have "files_ok s4" "current s4 \<noteq> task s4 0" and none: "n < NR_OPEN \<Longrightarrow> t_filp (cur s4) n = None" for n
    using c assms(3) same_filp [OF k] by (blast | simp)+
  then show ?thesis by (intro exit_end_ok [OF _ _ none d refl ex])
qed

section \<open>Any sequence of calls\<close>

text \<open>A step of the system, as far as descriptors are concerned. A fork gets a page that is not the page of a task
  (\<open>get_free_page\<close> takes a page without users); task 0 does not exit. \<open>files\<close> are the other calls on files,
  \<open>other\<close> is anything else that leaves descriptors and counts alone, such as an interrupt.\<close>

inductive fd_step :: "'a fs_state_scheme \<Rightarrow> 'a fs_state_scheme \<Rightarrow> bool" where
  opens: "sys_open name flag mode s = Some (v, s') \<Longrightarrow> fd_step s s'"
| creates: "sys_creat name mode s = Some (v, s') \<Longrightarrow> fd_step s s'"
| closes: "sys_close fd s = Some (v, s') \<Longrightarrow> fd_step s s'"
| dups: "sys_dup fd s = (v, s') \<Longrightarrow> fd_step s s'"
| dup2s: "sys_dup2 old new s = Some (v, s') \<Longrightarrow> fd_step s s'"
| fcntls: "sys_fcntl fd cmd arg s = (v, s') \<Longrightarrow> fd_step s s'"
| pipes: "sys_pipe fildes s = Some (v, s') \<Longrightarrow> fd_step s s'"
| forks: "sys_fork r s = Some (v, s') \<Longrightarrow> fst (get_free_page s) \<notin> live s \<Longrightarrow> fd_step s s'"
| execs: "do_execve eip name argv envp s = Some (w, s') \<Longrightarrow> fd_step s s'"
| exits: "sys_exit code s = Some s' \<Longrightarrow> current s \<noteq> task s 0 \<Longrightarrow> fd_step s s'"
| waits: "sys_waitpid n a opts s = Some (x, s') \<Longrightarrow> fd_step s s'"
| wakes: "waitpid_resume n a opts s = Some (x, s') \<Longrightarrow> fd_step s s'"
| switches: "schedule s = Some s' \<Longrightarrow> fd_step s s'"
| files: "file_call s s' \<Longrightarrow> fd_step s s'"
| other: "same_files s s' \<Longrightarrow> fd_step s s'"

lemma fd_step_ok: "fd_step s s' \<Longrightarrow> files_ok s \<Longrightarrow> files_ok s'"
proof (induction rule: fd_step.induct)
  case (creates name mode s v s')
  then show ?case using sys_open_ok unfolding sys_creat_def by blast
next
  case (dups fd s v s')
  then show ?case using dupfd_ok [of s fd 0] by (simp add: sys_dup_def)
next
  case (fcntls fd cmd arg s v s')
  then show ?case using sys_fcntl_ok [of s fd cmd arg] by simp
next
  case (exits code s s')
  then show ?case using do_exit_ok unfolding sys_exit_def by blast
next
  case (switches s s')
  then show ?case using schedule_live [of s s'] by (simp add: files_ok_def)
next
  case (files s s')
  then show ?case using files_ok_same file_call_same by blast
qed (rule sys_open_ok sys_close_ok [THEN conjunct1] sys_dup2_ok sys_pipe_ok sys_fork_ok do_execve_ok sys_waitpid_ok
    files_ok_same; assumption)+

text \<open>C7: Whatever sequence of calls the tasks make from a state with a consistent file table, the count of every file entry is
  the number of descriptors, in all tasks, that refer to it; every descriptor refers to an entry of the table, and a
  zombie has none.\<close>

theorem files_counted:
  assumes "fd_step\<^sup>*\<^sup>* s s'" "files_ok s"
  shows "(\<forall>f. unat (f_count (file_table s' f)) = card (fd_refs f s'))
    \<and> (\<forall>p\<in>live s'. \<forall>d<NR_OPEN. \<forall>f. t_filp (tasks s' p) d = Some f
         \<longrightarrow> f < NR_FILE \<and> f_count (file_table s' f) \<noteq> 0 \<and> t_state (tasks s' p) \<noteq> TASK_ZOMBIE)"
proof -
  have ok: "files_ok s'" using assms by (induction rule: rtranclp_induct) (auto intro: fd_step_ok)
  have "f_count (file_table s' f) \<noteq> 0" if "p \<in> live s'" "d < NR_OPEN" "t_filp (tasks s' p) d = Some f" for p d f
  proof -
    have "(p, d) \<in> fd_refs f s'" using that by (simp add: fd_refs_def)
    then have "0 < card (fd_refs f s')" by (auto simp: card_gt_0_iff)
    moreover have "unat (f_count (file_table s' f)) = card (fd_refs f s')" using ok by (simp add: files_ok_def tables_ok_def)
    ultimately show ?thesis by auto
  qed
  moreover have "unat (f_count (file_table s' f)) = card (fd_refs f s')" for f
    using ok by (simp add: files_ok_def tables_ok_def)
  moreover have "f < NR_FILE \<and> t_state (tasks s' p) \<noteq> TASK_ZOMBIE"
    if "p \<in> live s'" "d < NR_OPEN" "t_filp (tasks s' p) d = Some f" for p d f
    using ok that by (auto simp: files_ok_def tables_ok_def)
  ultimately show ?thesis by blast
qed

text \<open>Task 0 with one open file.\<close>

definition demo_files :: fs_state where
  "demo_files = upd_file 0 (f_count_update (\<lambda>_. 1)) (set_filp 0 (Some 0) (init_fs 0x1000 0))"

lemma demo_files_ok: "files_ok demo_files"
proof -
  have l: "live demo_files = {0x1000}" by (auto simp: demo_files_def live_def init_fs_def)
  have fp: "t_filp (tasks demo_files p) d = (if p = 0x1000 \<and> d = 0 then Some 0 else None)" for p d
    by (simp add: demo_files_def init_fs_def INIT_TASK_def)
  have "fd_refs f demo_files = (if f = 0 then {(0x1000, 0)} else {})" for f
    by (auto simp: fd_refs_def l fp split: if_splits)
  moreover have "f_count (file_table demo_files f) = (if f = 0 then 1 else 0)" for f
    by (simp add: demo_files_def init_fs_def)
  moreover have "t_state (tasks demo_files p) \<noteq> TASK_ZOMBIE" for p
    by (simp add: demo_files_def init_fs_def INIT_TASK_def)
  ultimately show ?thesis
    by (auto simp: files_ok_def tables_ok_def l fp) (auto simp: demo_files_def init_fs_def split: if_splits)
qed

theorem files_counted_witness:
  "\<exists>s'. sys_dup 0 demo_files = (1, s') \<and> f_count (file_table s' 0) = 2 \<and> card (fd_refs 0 s') = 2"
proof -
  let ?s = "snd (sys_dup 0 demo_files)"
  have d: "sys_dup 0 demo_files = (1, ?s)" "f_count (file_table ?s 0) = 2"
    by (simp_all add: sys_dup_def dupfd_def demo_files_def init_fs_def INIT_TASK_def eval_nat_numeral clear_cloexec_def upd_task_def)
  have "fd_step\<^sup>*\<^sup>* demo_files ?s" by (rule r_into_rtranclp, rule fd_step.dups, rule d(1))
  from files_counted [OF this demo_files_ok] have "unat (f_count (file_table ?s 0)) = card (fd_refs 0 ?s)" by blast
  then show ?thesis using d by auto
qed

end
