(* ===== verification/Spec2Isabelle.thy ===== *)
theory Spec2Isabelle
  imports Kernel_Prelude Memory Page_Tables Paging Malloc Task Sched Scheduling User_Memory Fs_State Blk_Dev Buffer
    Inode Bitmap_Alloc Super Namei Dir_Ops Open Pipe Pipe_Queue Read_Write Process Sys Who Vsprintf Mktime Ctype Tty_Queue Console Tty Console_Screen Line_Editor Kernel_String String_Search Demand Exec_Stack
    Elevator Hd_Transfer Hd_Partition Floppy_Driver Clock Messages Calls Boot Init_Process File_Counts
begin

text \<open>
  A verification development for the Linux 0.11 kernel of this repository. Paths below are relative to
  \<open>src/oslab/linux-0.11\<close>.

  \<^bold>\<open>The program.\<close> A monolithic kernel for the i386: memory is handed out in pages of 4096 bytes and mapped by
  two-level page tables (\<open>mm/\<close>); up to 64 tasks are scheduled by a counter, put to sleep on wait queues and
  woken by interrupts (\<open>kernel/\<close>); block devices are reached through a request queue, a buffer cache and a
  Minix file system with inodes, directories and pipes (\<open>kernel/blk_drv/\<close>, \<open>fs/\<close>); terminals have a line
  discipline over a console or a serial line (\<open>kernel/chr_drv/\<close>); \<open>init/main.c\<close> sets all of this up, and the
  user library (\<open>lib/\<close>, \<open>include/unistd.h\<close>) reaches the kernel with \<open>int 0x80\<close>.

  \<^bold>\<open>The state.\<close> The global variables of the kernel are one record, extended theory by theory in the order in which
  the components depend on each other: \<open>mm_state\<close> (physical memory and \<open>mem_map\<close>), \<open>sched_state\<close> (tasks, clock,
  timers, ports, user memory), \<open>fs_state\<close> (inodes, files, super blocks, buffers, requests), \<open>tty_state\<close> (console,
  terminals), \<open>io_state\<close>, \<open>hd_state\<close> and \<open>fd_state\<close> (the drivers of the disks) and \<open>kernel_state\<close> (the IDT and
  the variables of \<open>main\<close> and \<open>who.c\<close>), which is the state of the whole kernel. A routine is a function on
  every extension of the record that has the variables it uses, so that routines of different components compose
  as in the code. Pointers to typed objects are indices of their table, or the physical address of a task; \<open>NULL\<close> is
  0 or \<open>None\<close>. Integers that C computes with are words of their width, or \<open>int\<close> with the wrap-around of
  \<open>i32\<close> written out.

  \<^bold>\<open>Outcomes.\<close> A routine that cannot fail is a plain function. Otherwise its result is an \<open>option\<close>: \<open>None\<close> says that the
  call does not return, because the source called \<open>panic\<close>, reached undefined behaviour that the text of the
  definition names, or loops for ever. Error codes are values, as in C. Loops with a bound are \<open>for_range\<close> or
  recursions on a counter, structural recursions are \<open>fun\<close>, and loops that might not end are
  \<open>partial_function (option)\<close> or \<open>iter\<close> (which iterates a step that yields \<open>Inl\<close> to go on and \<open>Inr\<close> to stop); so
  a theorem that such a loop returns is a theorem that its value is \<open>Some\<close>. There is no fuel.
  Mutually recursive routines take the routine they call back as an argument (\<open>..._with\<close>) and are tied by a
  \<open>partial_function\<close>.

  \<^bold>\<open>Concurrency.\<close> The kernel is not preemptive: a routine runs alone until it sleeps. A routine that sleeps in the middle
  is cut there: pipes and terminals return an outcome that holds the rest of their work, \<open>sys_waitpid\<close>
  and \<open>sys_pause\<close> have a \<open>_resume\<close> part. Where a routine of the file system waits for a lock that the
  model knows to be held by no one else the call is \<open>None\<close>, and a wait for the disk is the completion of the transfer.
  Interleavings are explicit in \<open>Scheduling\<close> (\<open>no_sleeper_lost\<close>), \<open>Pipe_Queue\<close> (\<open>channel_run\<close>), \<open>Elevator\<close>
  and \<open>Floppy_Driver\<close>.

  \<^bold>\<open>The hardware and other code that is not here.\<close> What a port answers is \<open>in_port\<close> for the ports whose
  value the code only copies back, and the sequence \<open>io_in\<close> for the controllers of the disks, so that every
  sequence of answers is covered; \<open>sector_in\<close> are the sectors a disk delivers. Bytes written to ports are recorded
  in \<open>ports\<close>. The medium is \<open>disk\<close>, and \<open>io_ok\<close> says which transfers succeed; \<open>hw_transfer\<close> is the
  transfer the file system sees, and \<open>Hd_Transfer\<close> proves that the driver of the hard disk carries it out. \<open>fs_mem\<close> is the
  data segment of the current task; \<open>segment_byte\<close> (\<open>Exec\<close>) relates such a segment to physical memory.
  Parameters named \<open>boot\<close>, \<open>pad\<close>, \<open>keypress\<close> are the bytes left by \<open>setup.s\<close>, padding on the stack,
  and the key a user presses. What the linker decides (addresses of entry points, of string literals and of a buffer)
  is the record \<open>kernel_image\<close>; \<open>call_env\<close> holds the key, the padding and this record for the system call table.
\<close>

text \<open>
  \<^bold>\<open>Theories and what they show.\<close>

  \<^item> \<open>Kernel_Prelude\<close>: C integers, outcomes, \<open>iter\<close>, \<open>for_range\<close>, bytes of words, and the rules that carry the proofs.

  \<^item> \<open>Memory\<close>, \<open>Page_Tables\<close>, \<open>Paging\<close> (\<open>mm/memory.c\<close>): \<open>get_free_page\<close>, \<open>free_page\<close>, \<open>mem_init\<close>,
    copying, freeing and unsharing of page tables. The locale \<open>page_allocator\<close> is the contract of a page allocator. Shown: which
    frame is allocated, round trips of allocation and of fork and exit on the reference counts, copy on write,
    the invariant set up by \<open>mem_init\<close>.
  \<^item> \<open>Demand\<close> (\<open>mm/memory.c\<close>): \<open>share_page\<close> and \<open>do_no_page\<close>.
  \<^item> \<open>Malloc\<close> (\<open>lib/malloc.c\<close>): the bucket allocator at the level of memory.
  \<^item> \<open>Task\<close>, \<open>Sched\<close>, \<open>Scheduling\<close>, \<open>User_Memory\<close> (\<open>include/linux/sched.h\<close>, \<open>kernel/sched.c\<close>,
    \<open>include/asm/\<close>): tasks, descriptors, the scheduler, wait queues, timers. Shown: what \<open>schedule\<close> picks, that no sleeper is lost
    in any interleaving (locale \<open>wait_queue\<close>), and that the timer list is a list of relative delays into which \<open>add_timer\<close> puts
    a request behind exactly those that expire before it. \<open>Clock\<close>: every tick of \<open>do_timer\<close> calls exactly the requests that
    are due, with the functions that the floppy driver sets (locale \<open>timer_functions\<close>), one of which adds a request itself.
  \<^item> \<open>Fs_State\<close>, \<open>Blk_Dev\<close>, \<open>Elevator\<close>, \<open>Buffer\<close> (\<open>include/linux/fs.h\<close>, \<open>kernel/blk_drv/ll_rw_blk.c\<close>,
    \<open>fs/buffer.c\<close>): data, request queue, buffer cache. Shown: the queue is a list of distinct requests that turns
    round at most once, and \<open>add_request\<close> is the insertion of an elevator (locale \<open>order_pred\<close>).
  \<^item> \<open>Inode\<close>, \<open>Bitmap_Alloc\<close>, \<open>Super\<close>, \<open>Namei\<close>, \<open>Dir_Ops\<close>, \<open>Open\<close>, \<open>Read_Write\<close>, \<open>Ramdisk\<close>
    (\<open>fs/\<close>, \<open>kernel/blk_drv/ramdisk.c\<close>): the file system. Shown: \<open>new_block\<close> is first fit and \<open>free_block\<close> its inverse.
  \<^item> \<open>File_Frame\<close>, \<open>Task_Frame\<close>, \<open>File_Calls\<close>: what the routines of the file system, memory management, the scheduler and \<open>exec\<close>
    leave alone, by a calculus of rules for the constructs that routines are built from (\<open>keep\<close>, \<open>keepv\<close>).
    \<open>Descriptors\<close>, \<open>File_Counts\<close> (\<open>fs/open.c\<close>, \<open>fcntl.c\<close>, \<open>pipe.c\<close>, \<open>kernel/fork.c\<close>, \<open>exit.c\<close>): for every sequence
    of calls, the count of a file entry is the number of descriptors that refer to it.
  \<^item> \<open>Pipe\<close>, \<open>Pipe_Queue\<close> (\<open>fs/pipe.c\<close>): pipes refine a FIFO queue of bytes (locale \<open>byte_channel\<close>), and their loops end.
  \<^item> \<open>Process\<close>, \<open>Sys\<close>, \<open>Who\<close> (\<open>kernel/fork.c\<close>, \<open>exit.c\<close>, \<open>signal.c\<close>, \<open>sys.c\<close>, \<open>who.c\<close>).
  \<^item> \<open>Exec\<close>, \<open>Exec_Args\<close>, \<open>Exec_Stack\<close> (\<open>fs/exec.c\<close>): program execution. Shown: the new stack describes exactly the argument
    and environment strings of the call.
  \<^item> \<open>Vsprintf\<close>, \<open>Mktime\<close>, \<open>Ctype\<close>, \<open>Kernel_String\<close>, \<open>String_Search\<close> (\<open>kernel/vsprintf.c\<close>, \<open>kernel/mktime.c\<close>,
    \<open>include/ctype.h\<close>, \<open>include/string.h\<close>): printed numbers read back, dates are the Gregorian calendar, character classes
    are ranges, string routines compute their list functions (the string instructions of the assembler are translated one
    by one).
  \<^item> \<open>Tty_Queue\<close>, \<open>Console\<close>, \<open>Tty\<close>, \<open>Console_Screen\<close>, \<open>Line_Editor\<close> (\<open>kernel/chr_drv/\<close>): queues, the VT102
    emulation, line discipline and \<open>ioctl\<close>. Shown: nothing is written outside the video memory, text appears at the
    cursor, and \<open>copy_to_cooked\<close> refines a line editor on lists (locales
    \<open>char_queue\<close> and \<open>line_driver\<close>).
  \<^item> \<open>Disk_Io\<close>, \<open>Hd\<close>, \<open>Hd_Transfer\<close>, \<open>Hd_Partition\<close>, \<open>Floppy\<close>, \<open>Floppy_Driver\<close> (\<open>kernel/blk_drv/\<close>): the interrupt
    driven drivers. Shown: the hard disk driver implements \<open>hw_transfer\<close>, and no command that it ever writes touches a sector
    outside the partition of a request; positions on a diskette are valid; after every interrupt the floppy driver has nothing to
    do, or has given a complete command with its handler, or has set a timer, whatever the controller answers or refuses.
  \<^item> \<open>Traps\<close>, \<open>Messages\<close> (\<open>kernel/printk.c\<close>, \<open>panic.c\<close>, \<open>traps.c\<close>, \<open>math/math_emulate.c\<close>): messages,
    exceptions, the IDT. Shown: \<open>printk\<close> shows the formatted text on an idle console, and shows nothing while a signal is pending.
  \<^item> \<open>Syscall\<close>, \<open>Calls\<close> (\<open>kernel/system_call.s\<close>, \<open>include/linux/sys.h\<close>, \<open>include/unistd.h\<close>, \<open>lib/\<close>): the table, entry
    and exit of system calls, the stubs of the library. Shown: a stub runs the routine of its name and turns an error into
    \<open>errno\<close>; an unknown number is refused; a signal with a handler is delivered on the way back.
  \<^item> \<open>Start\<close>, \<open>Boot\<close>, \<open>Init_Process\<close> (\<open>init/main.c\<close>): what \<open>main\<close> does until it enables interrupts, and the program of the first
    process. Shown: the clock is set to the date in the CMOS, exactly the main memory is free, four gates are open to
    programs, and \<open>init\<close> never has more than one child that it has not waited for.

  \<^bold>\<open>Bounds.\<close> Table sizes are those of the source (64 tasks, 32 inodes in core, 64 files, 8 super blocks, 32 requests, 64 timers,
  1024 characters to a queue, 1024 bytes to a block). \<open>kernel_mktime\<close> is right from 1970 to 2037, after which a \<open>long\<close>
  overflows.

  \<^bold>\<open>Not modelled.\<close> The assembly of \<open>boot/\<close>, \<open>kernel/asm.s\<close>, \<open>keyboard.S\<close> and \<open>rs_io.s\<close>, save for
  the parts of \<open>system_call.s\<close> named above; the contents of FPU registers; diagnostic output of \<open>show_task\<close>, \<open>show_stat\<close>,
  \<open>calc_mem\<close>; the host program \<open>tools/build.c\<close>, which only concatenates files; the jump to user mode at the end of
  \<open>main\<close>; the programs that run as tasks (they are the parameters of the calls they make); declarations of headers
  that no code of the kernel uses.
\<close>

end
